(* ===== verification/Prelude.thy ===== *)
theory Prelude
  imports Main "HOL-Library.Word"
begin

text \<open>Shared vocabulary: the machine integers of the Rust code, byte strings,
the big- and little-endian encodings, the checked and saturating additions of
the Rust standard library, error results, and the state-and-error monad in which
the stateful operations are written.  Rust strings are byte sequences: a
\<^typ>\<open>char\<close> of Isabelle is one byte, so the length of a string is Rust's
\<^verbatim>\<open>len()\<close>.\<close>

type_synonym u8 = "8 word"
type_synonym u16 = "16 word"
type_synonym u32 = "32 word"
type_synonym u64 = "64 word"
type_synonym bytes = "8 word list"

named_theorems bytes_simps \<open>unfolding of byte encodings\<close>

fun le_bytes :: "nat \<Rightarrow> 'a::len word \<Rightarrow> bytes" where
  "le_bytes 0 w = []"
| "le_bytes (Suc n) w = ucast w # le_bytes n (drop_bit 8 w)"

fun from_le :: "bytes \<Rightarrow> 'a::len word" where
  "from_le [] = 0"
| "from_le (b # bs) = or (ucast b) (push_bit 8 (from_le bs))"

definition be_bytes :: "nat \<Rightarrow> 'a::len word \<Rightarrow> bytes" where
  "be_bytes n w = rev (le_bytes n w)"

definition from_be :: "bytes \<Rightarrow> 'a::len word" where
  "from_be bs = from_le (rev bs)"

lemma length_le_bytes [simp]: "length (le_bytes n w) = n"
  by (induction n w rule: le_bytes.induct) auto

lemma length_be_bytes [simp]: "length (be_bytes n w) = n"
  by (simp add: be_bytes_def)

lemma be_bytes_Nil [simp]: "be_bytes n w = [] \<longleftrightarrow> n = 0"
  by (simp flip: length_0_conv)

lemma from_le_le_bytes_take: "from_le (le_bytes n w) = take_bit (8 * n) (w :: 'a::len word)"
proof (induction n arbitrary: w)
  case 0 then show ?case by simp
next
  case (Suc n)
  show ?case
    by (rule bit_word_eqI)
       (auto simp: Suc.IH bit_simps not_le intro: arg_cong2[where f=bit])
qed

lemma from_le_le_bytes: "LENGTH('a) \<le> 8 * n \<Longrightarrow> from_le (le_bytes n w) = (w :: 'a::len word)"
  by (simp add: from_le_le_bytes_take take_bit_word_eq_self)

lemma from_be_be_bytes: "LENGTH('a) \<le> 8 * n \<Longrightarrow> from_be (be_bytes n w) = (w :: 'a::len word)"
  by (simp add: from_be_def be_bytes_def from_le_le_bytes)

lemma from_le_bound: "take_bit (8 * length bs) (from_le bs) = (from_le bs :: 'a::len word)"
proof (induction bs)
  case Nil then show ?case by simp
next
  case (Cons b bs)
  have IH: "bit (from_le bs :: 'a word) n \<Longrightarrow> n < 8 * length bs" for n
    by (metis Cons.IH bit_take_bit_iff)
  show ?case
    by (rule bit_word_eqI) (use bit_imp_le_length[of b] in \<open>fastforce simp: bit_simps dest: IH\<close>)
qed

lemma from_le_bit_bound: "bit (from_le bs :: 'a::len word) n \<Longrightarrow> n < 8 * length bs"
  by (metis from_le_bound bit_take_bit_iff)

lemma le_bytes_from_le:
  "8 * length bs \<le> LENGTH('a) \<Longrightarrow> le_bytes (length bs) (from_le bs :: 'a::len word) = bs"
proof (induction bs)
  case Nil then show ?case by simp
next
  case (Cons b bs)
  have b: "ucast (or (ucast b) (push_bit 8 (from_le bs :: 'a word))) = b"
    using Cons.prems by (intro bit_word_eqI) (auto simp: bit_simps)
  have "drop_bit 8 (or (ucast b) (push_bit 8 (from_le bs :: 'a word))) = from_le bs"
    using Cons.prems
    by (intro bit_word_eqI) (auto simp: bit_simps dest: bit_imp_le_length from_le_bit_bound)
  then show ?case using b Cons by simp
qed

lemma be_bytes_from_be:
  assumes "length bs = n" "8 * n \<le> LENGTH('a)"
  shows "be_bytes n (from_be bs :: 'a::len word) = bs"
  using le_bytes_from_le[of "rev bs", where 'a='a] assms
  by (simp add: be_bytes_def from_be_def)

lemma be_bytes_inject:
  "LENGTH('a) \<le> 8 * n \<Longrightarrow> be_bytes n v = be_bytes n (w :: 'a::len word) \<longleftrightarrow> v = w"
  by (metis from_be_be_bytes)

lemma le_bytes_inject:
  "LENGTH('a) \<le> 8 * n \<Longrightarrow> le_bytes n v = le_bytes n (w :: 'a::len word) \<longleftrightarrow> v = w"
  by (metis from_le_le_bytes)

text \<open>Checked and saturating arithmetic (\<^verbatim>\<open>checked_add\<close>, \<^verbatim>\<open>saturating_add\<close>).\<close>

definition checked_add :: "'a::len word \<Rightarrow> 'a word \<Rightarrow> 'a word option" where
  "checked_add a b = (if unat a + unat b < 2 ^ LENGTH('a) then Some (a + b) else None)"

definition saturating_add :: "'a::len word \<Rightarrow> 'a word \<Rightarrow> 'a word" where
  "saturating_add a b = (if unat a + unat b < 2 ^ LENGTH('a) then a + b else - 1)"

lemma unat_minus_one_word: "unat (- 1 :: 'a::len word) = 2 ^ LENGTH('a) - 1"
  by (simp add: unsigned_minus_1_eq_mask mask_eq_exp_minus_1)

lemma checked_add_Some:
  "checked_add a b = Some c \<longleftrightarrow> unat a + unat b < 2 ^ LENGTH('a) \<and> c = a + (b :: 'a::len word)"
  by (auto simp: checked_add_def)

lemma checked_add_None:
  "checked_add a b = None \<longleftrightarrow> 2 ^ LENGTH('a) \<le> unat a + unat (b :: 'a::len word)"
  by (auto simp: checked_add_def)

lemma unat_checked_add:
  "checked_add a b = Some c \<Longrightarrow> unat c = unat a + unat (b :: 'a::len word)"
  by (simp add: checked_add_Some unat_plus_if')

lemma checked_add_1_None:
  "checked_add a 1 = None \<longleftrightarrow> a = (- 1 :: 'a::len word)"
proof -
  have "unat a < 2 ^ LENGTH('a)" by simp
  then have "unat a + 1 < 2 ^ LENGTH('a) \<longleftrightarrow> a \<noteq> - 1"
    unfolding unat_minus_one_word word_unat_eq_iff by linarith
  then show ?thesis by (auto simp: checked_add_def)
qed

lemma unat_saturating_add:
  "unat (saturating_add a b) = min (unat a + unat b) (2 ^ LENGTH('a) - 1)" for a b :: "'a::len word"
  by (auto simp: saturating_add_def unat_plus_if' unat_minus_one_word min_def)

text \<open>Result values: \<^term>\<open>Inl e\<close> is Rust's \<^verbatim>\<open>Err(e)\<close>, \<^term>\<open>Inr x\<close> its \<^verbatim>\<open>Ok(x)\<close>.\<close>

definition ok_or :: "'e \<Rightarrow> 'a option \<Rightarrow> 'e + 'a" where
  "ok_or e o' = (case o' of None \<Rightarrow> Inl e | Some x \<Rightarrow> Inr x)"

lemma ok_or_simps [simp]:
  "ok_or e None = Inl e" "ok_or e (Some x) = Inr x"
  "ok_or e y = Inr x \<longleftrightarrow> y = Some x" "ok_or e y = Inl e' \<longleftrightarrow> y = None \<and> e' = e"
  by (auto simp: ok_or_def split: option.splits)

text \<open>The state-and-error monad of the operations that take \<^verbatim>\<open>&mut self\<close> and return a
\<^verbatim>\<open>Result\<close>: the state reached is kept when an error is returned.  \<^verbatim>\<open>bnd\<close> is the
sequencing of the \<^verbatim>\<open>?\<close> operator.\<close>

type_synonym ('s, 'e, 'a) act = "'s \<Rightarrow> ('e + 'a) \<times> 's"

definition ret :: "'a \<Rightarrow> ('s, 'e, 'a) act" where
  "ret x = (\<lambda>s. (Inr x, s))"

definition throw :: "'e \<Rightarrow> ('s, 'e, 'a) act" where
  "throw e = (\<lambda>s. (Inl e, s))"

definition bnd :: "('s, 'e, 'a) act \<Rightarrow> ('a \<Rightarrow> ('s, 'e, 'b) act) \<Rightarrow> ('s, 'e, 'b) act" where
  "bnd m f = (\<lambda>s. case m s of (Inl e, t) \<Rightarrow> (Inl e, t) | (Inr x, t) \<Rightarrow> f x t)"

definition lift_res :: "('s \<Rightarrow> 'e + 'a) \<Rightarrow> ('s, 'e, 'a) act" where
  "lift_res f = (\<lambda>s. (f s, s))"

definition gets :: "('s \<Rightarrow> 'a) \<Rightarrow> ('s, 'e, 'a) act" where
  "gets f = (\<lambda>s. (Inr (f s), s))"

definition guard :: "bool \<Rightarrow> 'e \<Rightarrow> ('s, 'e, unit) act" where
  "guard b e = (if b then ret () else throw e)"

lemma bnd_Inr: "bnd m f s = (Inr y, t) \<longleftrightarrow> (\<exists>x s'. m s = (Inr x, s') \<and> f x s' = (Inr y, t))"
  by (auto simp: bnd_def split: prod.splits sum.splits)

lemma bnd_Inl: "bnd m f s = (Inl e, t) \<longleftrightarrow>
  m s = (Inl e, t) \<or> (\<exists>x s'. m s = (Inr x, s') \<and> f x s' = (Inl e, t))"
  by (auto simp: bnd_def split: prod.splits sum.splits)

lemma bnd_cong_Inl: "m s = (Inl e, t) \<Longrightarrow> bnd m f s = (Inl e, t)"
  by (simp add: bnd_def)

lemma bnd_cong_Inr: "m s = (Inr x, t) \<Longrightarrow> bnd m f s = f x t"
  by (simp add: bnd_def)

lemma ret_apply [simp]: "ret x s = (Inr x, s)" by (simp add: ret_def)
lemma throw_apply [simp]: "throw e s = (Inl e, s)" by (simp add: throw_def)
lemma lift_res_apply [simp]: "lift_res f s = (f s, s)" by (simp add: lift_res_def)
lemma gets_apply [simp]: "gets f s = (Inr (f s), s)" by (simp add: gets_def)
lemma guard_apply [simp]: "guard b e s = (if b then Inr () else Inl e, s)"
  by (simp add: guard_def)

text \<open>An invariant that every part of a computation preserves is preserved by the whole, on
the error paths as well.\<close>

definition preserves :: "('s \<Rightarrow> 's \<Rightarrow> bool) \<Rightarrow> ('s, 'e, 'a) act \<Rightarrow> bool" where
  "preserves R m \<longleftrightarrow> (\<forall>s. R s (snd (m s)))"

named_theorems preserves_intros \<open>compositional rules for preserves\<close>

lemma preserves_ret [preserves_intros]: "reflp R \<Longrightarrow> preserves R (ret x)"
  by (simp add: preserves_def reflp_def)
lemma preserves_throw [preserves_intros]: "reflp R \<Longrightarrow> preserves R (throw x)"
  by (simp add: preserves_def reflp_def)
lemma preserves_lift_res [preserves_intros]: "reflp R \<Longrightarrow> preserves R (lift_res f)"
  by (simp add: preserves_def reflp_def)
lemma preserves_gets [preserves_intros]: "reflp R \<Longrightarrow> preserves R (gets f)"
  by (simp add: preserves_def reflp_def)
lemma preserves_guard [preserves_intros]: "reflp R \<Longrightarrow> preserves R (guard b e)"
  by (simp add: preserves_def reflp_def)
lemma preserves_bnd [preserves_intros]:
  assumes "transp R" "preserves R m" "\<And>x. preserves R (f x)"
  shows "preserves R (bnd m f)"
  unfolding preserves_def
proof
  fix s
  have m: "R s (snd (m s))" using assms(2) by (simp add: preserves_def)
  show "R s (snd (bnd m f s))"
  proof (cases "m s")
    case (Pair r t)
    show ?thesis
    proof (cases r)
      case (Inl e) then show ?thesis using Pair m by (simp add: bnd_def)
    next
      case (Inr x)
      have "R t (snd (f x t))" using assms(3) by (simp add: preserves_def)
      then show ?thesis using Pair Inr m assms(1) by (auto simp: bnd_def dest: transpD)
    qed
  qed
qed

end
