(* ===== verification/Typecode.thy ===== *)
theory Typecode
  imports Prelude
begin

text \<open>The \<^verbatim>\<open>TypeCode\<close> allocation of \<^verbatim>\<open>arkhe-forge-core/src/typecode.rs\<close>: the
sub-ranges of the 32-bit code space, the pins of the core events, and the verb
witnesses of \<^verbatim>\<open>activity.rs\<close> that live in two of the ranges.\<close>

type_synonym type_code = u32

section \<open>Ranges\<close>

definition KERNEL_RESERVED :: "u32 \<times> u32" where "KERNEL_RESERVED = (0x00000000, 0x0000FFFF)"
definition CORE_ENTITY :: "u32 \<times> u32" where "CORE_ENTITY = (0x00010000, 0x0001FFFF)"
definition CORE_VERB_CANONICAL :: "u32 \<times> u32" where "CORE_VERB_CANONICAL = (0x00020001, 0x000203FF)"
definition SHELL_VERB :: "u32 \<times> u32" where "SHELL_VERB = (0x00020400, 0x0002FFFF)"
definition CORE_COMPONENT :: "u32 \<times> u32" where "CORE_COMPONENT = (0x00030000, 0x00030EFF)"
definition CORE_EVENT :: "u32 \<times> u32" where "CORE_EVENT = (0x00030F00, 0x0003FFFF)"
definition ROOM_MARKER_RESERVED :: u32 where "ROOM_MARKER_RESERVED = 0x00015001"
definition RUNTIME_RESERVED :: "u32 \<times> u32" where "RUNTIME_RESERVED = (0x00040000, 0x00FFFFFF)"
definition SHELL_SCOPED :: "u32 \<times> u32" where "SHELL_SCOPED = (0x01000000, 0xEFFFFFFF)"
definition DEBUG_TEST :: "u32 \<times> u32" where "DEBUG_TEST = (0xF0000000, 0xFFFFFFFF)"

lemmas range_defs = KERNEL_RESERVED_def CORE_ENTITY_def CORE_VERB_CANONICAL_def SHELL_VERB_def
  CORE_COMPONENT_def CORE_EVENT_def RUNTIME_RESERVED_def SHELL_SCOPED_def DEBUG_TEST_def

definition type_code_ranges :: "(u32 \<times> u32) list" where
  "type_code_ranges = [KERNEL_RESERVED, CORE_ENTITY, CORE_VERB_CANONICAL, SHELL_VERB, CORE_COMPONENT,
     CORE_EVENT, RUNTIME_RESERVED, SHELL_SCOPED, DEBUG_TEST]"

definition in_range :: "u32 \<times> u32 \<Rightarrow> u32 \<Rightarrow> bool" where
  "in_range r c \<longleftrightarrow> fst r \<le> c \<and> c \<le> snd r"

section \<open>Core event pins\<close>

definition RUNTIME_BOOTSTRAP :: u32 where "RUNTIME_BOOTSTRAP = 0x00030F01"
definition USER_ERASURE_SCHEDULED :: u32 where "USER_ERASURE_SCHEDULED = 0x00030F02"
definition USER_ERASURE_COMPLETED :: u32 where "USER_ERASURE_COMPLETED = 0x00030F03"
definition BACKUP_ERASURE_PROPAGATED :: u32 where "BACKUP_ERASURE_PROPAGATED = 0x00030F04"
definition GDPR_POLICY_VIOLATION :: u32 where "GDPR_POLICY_VIOLATION = 0x00030F05"
definition SIGNATURE_CLASS_POLICY :: u32 where "SIGNATURE_CLASS_POLICY = 0x00030F06"
definition CROSS_SHELL_ACTIVITY :: u32 where "CROSS_SHELL_ACTIVITY = 0x00030F07"
definition PER_REGION_ERASURE_PROGRESS :: u32 where "PER_REGION_ERASURE_PROGRESS = 0x00030F08"
definition DEK_MIGRATION_COMPLETED :: u32 where "DEK_MIGRATION_COMPLETED = 0x00030F09"
definition COMPLIANCE_TIER_CHANGE :: u32 where "COMPLIANCE_TIER_CHANGE = 0x00030F0A"
definition REPLICA_ID_ALLOCATION :: u32 where "REPLICA_ID_ALLOCATION = 0x00030F0D"
definition AUDIT_RECEIPT_KEY_POLICY :: u32 where "AUDIT_RECEIPT_KEY_POLICY = 0x00030F0E"

lemmas core_event_defs = RUNTIME_BOOTSTRAP_def USER_ERASURE_SCHEDULED_def USER_ERASURE_COMPLETED_def
  BACKUP_ERASURE_PROPAGATED_def GDPR_POLICY_VIOLATION_def SIGNATURE_CLASS_POLICY_def
  CROSS_SHELL_ACTIVITY_def PER_REGION_ERASURE_PROGRESS_def DEK_MIGRATION_COMPLETED_def
  COMPLIANCE_TIER_CHANGE_def REPLICA_ID_ALLOCATION_def AUDIT_RECEIPT_KEY_POLICY_def

section \<open>Verb witnesses\<close>

text \<open>A value of \<^verbatim>\<open>CanonicalVerb<C>\<close> exists only for the eight module constants, a value of
\<^verbatim>\<open>ShellVerb<C>\<close> only through \<^verbatim>\<open>try_new\<close>; both are modelled by the code they carry.\<close>

definition canonical_verbs :: "(string \<times> u32) list" where
  "canonical_verbs = [(''LIKE'', 0x00020001), (''FOLLOW'', 0x00020002), (''BOOKMARK'', 0x00020003),
     (''REPORT'', 0x00020004), (''MUTE'', 0x00020005), (''BLOCK'', 0x00020006),
     (''PIN'', 0x00020007), (''FLAG'', 0x00020008)]"

datatype shell_verb = ShellVerb (shell_verb_code: u32)

definition ShellVerb_try_new :: "u32 \<Rightarrow> shell_verb option" where
  "ShellVerb_try_new C = (if C \<ge> 0x00020400 \<and> C \<le> 0x0002FFFF then Some (ShellVerb C) else None)"

datatype verb_code = VerbCode (verb_code_code: type_code)

definition VerbCode_shell :: "shell_verb \<Rightarrow> verb_code" where
  "VerbCode_shell w = VerbCode (shell_verb_code w)"

definition VerbCode_canonical :: "string \<times> u32 \<Rightarrow> verb_code" where
  "VerbCode_canonical w = VerbCode (snd w)"

section \<open>Lemmas\<close>

lemma in_range_unat: "in_range r c \<longleftrightarrow> unat (fst r) \<le> unat c \<and> unat c \<le> unat (snd r)"
  by (simp add: in_range_def word_le_nat_alt)

lemma ranges_count:
  "length (filter (\<lambda>r. in_range r c) type_code_ranges) = (if c = 0x00020000 then 0 else 1)"
proof -
  have "unat c < 2 ^ 32" using unsigned_less[of c] by simp
  moreover have "c = 0x00020000 \<longleftrightarrow> unat c = 0x00020000" by (simp add: word_unat_eq_iff)
  ultimately show ?thesis
    by (simp add: type_code_ranges_def range_defs in_range_unat)
qed

lemma core_events_in_range:
  "list_all (in_range CORE_EVENT) [RUNTIME_BOOTSTRAP, USER_ERASURE_SCHEDULED, USER_ERASURE_COMPLETED,
     BACKUP_ERASURE_PROPAGATED, GDPR_POLICY_VIOLATION, SIGNATURE_CLASS_POLICY, CROSS_SHELL_ACTIVITY,
     PER_REGION_ERASURE_PROGRESS, DEK_MIGRATION_COMPLETED, COMPLIANCE_TIER_CHANGE,
     REPLICA_ID_ALLOCATION, AUDIT_RECEIPT_KEY_POLICY]"
  by (simp add: in_range_def CORE_EVENT_def core_event_defs)

lemma ShellVerb_try_new_iff: "ShellVerb_try_new C = Some w \<longleftrightarrow> in_range SHELL_VERB C \<and> w = ShellVerb C"
  by (auto simp: ShellVerb_try_new_def in_range_def SHELL_VERB_def)

lemma canonical_verbs_in_range: "(n, C) \<in> set canonical_verbs \<Longrightarrow> in_range CORE_VERB_CANONICAL C"
  by (auto simp: canonical_verbs_def in_range_def CORE_VERB_CANONICAL_def)

text \<open>The nine ranges of the allocation partition the 32-bit code space except the one
code 0x00020000: every other code lies in exactly one range, all twelve core-event pins lie in
the event range and are distinct, the reserved room marker lies in the entity range, and a verb
code made from a canonical witness and one made from a shell witness never coincide.\<close>
theorem typecode_allocation:
  "length (filter (\<lambda>r. in_range r c) type_code_ranges) = (if c = 0x00020000 then 0 else 1)
   \<and> (let pins = [RUNTIME_BOOTSTRAP, USER_ERASURE_SCHEDULED, USER_ERASURE_COMPLETED,
        BACKUP_ERASURE_PROPAGATED, GDPR_POLICY_VIOLATION, SIGNATURE_CLASS_POLICY,
        CROSS_SHELL_ACTIVITY, PER_REGION_ERASURE_PROGRESS, DEK_MIGRATION_COMPLETED,
        COMPLIANCE_TIER_CHANGE, REPLICA_ID_ALLOCATION, AUDIT_RECEIPT_KEY_POLICY]
      in list_all (in_range CORE_EVENT) pins \<and> distinct pins)
   \<and> in_range CORE_ENTITY ROOM_MARKER_RESERVED
   \<and> {VerbCode_canonical v | v. v \<in> set canonical_verbs} \<inter>
     {VerbCode_shell w | w C. ShellVerb_try_new C = Some w} = {}"
proof (intro conjI)
  show "length (filter (\<lambda>r. in_range r c) type_code_ranges) = (if c = 0x00020000 then 0 else 1)"
    by (rule ranges_count)
  show "let pins = [RUNTIME_BOOTSTRAP, USER_ERASURE_SCHEDULED, USER_ERASURE_COMPLETED,
        BACKUP_ERASURE_PROPAGATED, GDPR_POLICY_VIOLATION, SIGNATURE_CLASS_POLICY,
        CROSS_SHELL_ACTIVITY, PER_REGION_ERASURE_PROGRESS, DEK_MIGRATION_COMPLETED,
        COMPLIANCE_TIER_CHANGE, REPLICA_ID_ALLOCATION, AUDIT_RECEIPT_KEY_POLICY]
      in list_all (in_range CORE_EVENT) pins \<and> distinct pins"
    unfolding Let_def using core_events_in_range by (simp add: core_event_defs)
  show "in_range CORE_ENTITY ROOM_MARKER_RESERVED"
    by (simp add: in_range_def CORE_ENTITY_def ROOM_MARKER_RESERVED_def)
  have "VerbCode_canonical v \<noteq> VerbCode_shell w"
    if "v \<in> set canonical_verbs" "ShellVerb_try_new C = Some w" for v w C
  proof -
    have "in_range CORE_VERB_CANONICAL (snd v)"
      using canonical_verbs_in_range[of "fst v" "snd v"] that(1) by simp
    then show ?thesis using that(2)
      by (auto simp: ShellVerb_try_new_iff VerbCode_canonical_def VerbCode_shell_def in_range_unat
          CORE_VERB_CANONICAL_def SHELL_VERB_def)
  qed
  then show "{VerbCode_canonical v | v. v \<in> set canonical_verbs} \<inter>
     {VerbCode_shell w | w C. ShellVerb_try_new C = Some w} = {}" by blast
qed

end
