(* ===== verification/Component.thy ===== *)
theory Component
  imports Typecode
begin

text \<open>The component and event traits of \<^verbatim>\<open>component.rs\<close> and \<^verbatim>\<open>event.rs\<close> as dictionaries, and
\<^verbatim>\<open>BoundedString<N>\<close>.  A Rust type that implements \<^verbatim>\<open>ArkheComponent\<close> is modelled by a value of
\<^verbatim>\<open>arkhe_type\<close>: its two associated constants and the postcard codec of the type.  The codec is
a third-party function, so it stays a parameter; what the code relies on is \<^verbatim>\<open>codec_ok\<close>, that
decoding an encoded value gives the value back.\<close>

section \<open>Codecs and trait dictionaries\<close>

record 'a codec =
  cd_enc :: "'a \<Rightarrow> bytes option"
  cd_dec :: "bytes \<Rightarrow> 'a option"

definition codec_ok :: "'a codec \<Rightarrow> bool" where
  "codec_ok c \<longleftrightarrow> (\<forall>x b. cd_enc c x = Some b \<longrightarrow> cd_dec c b = Some x)"

definition codec_total :: "'a codec \<Rightarrow> bool" where
  "codec_total c \<longleftrightarrow> (\<forall>x. cd_enc c x \<noteq> None)"

record 'a arkhe_type =
  TYPE_CODE :: type_code
  SCHEMA_VERSION :: u16
  postcard :: "'a codec"

lemma codec_okD: "codec_ok c \<Longrightarrow> cd_enc c x = Some b \<Longrightarrow> cd_dec c b = Some x"
  by (simp add: codec_ok_def)

lemma codec_ok_inject:
  "codec_ok c \<Longrightarrow> cd_enc c x = Some b \<Longrightarrow> cd_enc c y = Some b \<Longrightarrow> x = y"
  by (metis codec_okD option.inject)

text \<open>A codec given by a finite table, for concrete instances.\<close>
definition table_codec :: "('a \<times> bytes) list \<Rightarrow> 'a codec" where
  "table_codec t = \<lparr>cd_enc = map_of t, cd_dec = map_of (map (\<lambda>(x, b). (b, x)) t)\<rparr>"

lemma codec_ok_table: "distinct (map snd t) \<Longrightarrow> codec_ok (table_codec t)"
proof -
  assume d: "distinct (map snd t)"
  have "map fst (map (\<lambda>(x, b). (b, x)) t) = map snd t" by (induction t) auto
  with d have "distinct (map fst (map (\<lambda>(x, b). (b, x)) t))" by metis
  note dec = map_of_is_SomeI[OF this]
  show ?thesis unfolding codec_ok_def table_codec_def
  proof (clarsimp)
    fix x b assume "map_of t x = Some b"
    then have "(x, b) \<in> set t" by (rule map_of_SomeD)
    then have "(b, x) \<in> set (map (\<lambda>(x, b). (b, x)) t)" by force
    then show "map_of (map (\<lambda>(x, b). (b, x)) t) b = Some x" by (rule dec)
  qed
qed

section \<open>Bounded strings\<close>

datatype bounded_string = BoundedString (as_str: string)

datatype bounded_string_error = BS_Overflow (bs_len: nat) (bs_cap: nat)

definition BoundedString_new :: "nat \<Rightarrow> string \<Rightarrow> bounded_string_error + bounded_string" where
  "BoundedString_new N s =
     (if length s \<le> N then Inr (BoundedString s) else Inl (BS_Overflow (length s) N))"

text \<open>The serde impls go through the \<^verbatim>\<open>str\<close> codec; decoding re-checks the capacity.\<close>

definition BoundedString_serialize :: "string codec \<Rightarrow> bounded_string \<Rightarrow> bytes option" where
  "BoundedString_serialize str_codec b = cd_enc str_codec (as_str b)"

definition BoundedString_deserialize :: "string codec \<Rightarrow> nat \<Rightarrow> bytes \<Rightarrow> bounded_string option" where
  "BoundedString_deserialize str_codec N bs =
     (case cd_dec str_codec bs of None \<Rightarrow> None
      | Some s \<Rightarrow> (case BoundedString_new N s of Inl _ \<Rightarrow> None | Inr b \<Rightarrow> Some b))"

definition bounded :: "nat \<Rightarrow> bounded_string \<Rightarrow> bool" where
  "bounded N b \<longleftrightarrow> length (as_str b) \<le> N"

lemma BoundedString_new_bounded: "BoundedString_new N s = Inr b \<Longrightarrow> bounded N b \<and> as_str b = s"
  by (auto simp: BoundedString_new_def bounded_def split: if_splits)

lemma BoundedString_deserialize_bounded: "BoundedString_deserialize c N bs = Some b \<Longrightarrow> bounded N b"
  by (auto simp: BoundedString_deserialize_def split: option.splits sum.splits
      dest: BoundedString_new_bounded)

text \<open>A reader built with a larger capacity accepts every string a smaller one wrote; a smaller
reader rejects exactly the strings that do not fit.\<close>
lemma BoundedString_roundtrip:
  assumes "codec_ok c" "BoundedString_serialize c b = Some bs"
  shows "BoundedString_deserialize c N bs = (if bounded N b then Some b else None)"
  using assms codec_okD[of c "as_str b" bs]
  by (auto simp: BoundedString_serialize_def BoundedString_deserialize_def BoundedString_new_def
      bounded_def)

end
