(* ===== verification/Pii.thy ===== *)
theory Pii
  imports Prelude
begin

text \<open>The PII wire format of \<^verbatim>\<open>arkhe-forge-core/src/pii.rs\<close>: the AEAD kinds, the PII codes
and marker types, the registry of shell-scoped markers, the 19-byte additional data, the body
hash and the per-key message counter.  BLAKE3 is a parameter.\<close>

section \<open>Data\<close>

datatype dek_id = DekId (dek_id_bytes: bytes)

datatype aead_kind = XChaCha20Poly1305 | Aes256Gcm | Aes256GcmSiv

fun aead_kind_u8 :: "aead_kind \<Rightarrow> u8" where
  "aead_kind_u8 XChaCha20Poly1305 = 0"
| "aead_kind_u8 Aes256Gcm = 1"
| "aead_kind_u8 Aes256GcmSiv = 2"

definition ACTOR_HANDLE :: u16 where "ACTOR_HANDLE = 0x0001"
definition ENTRY_BODY :: u16 where "ENTRY_BODY = 0x0002"
definition ACTIVITY_EXTRA_BYTES :: u16 where "ACTIVITY_EXTRA_BYTES = 0x0003"
definition AUTH_CREDENTIAL_SECRET :: u16 where "AUTH_CREDENTIAL_SECRET = 0x0004"

datatype sensitivity = SensLow | SensMedium | SensHigh

record shell_pii_type =
  spt_pii_code :: u16
  spt_sensitivity :: sensitivity
  spt_aead_kind :: aead_kind

datatype pii_error =
    TierTooLow | TypeMismatch | CipherDowngrade | AadMismatch | DecodeFailed | InvalidKeyLength
  | EncryptFailed | UnsupportedAead | DekExhausted | NonceReuseRisk
  | ShellPiiCodeOutOfRange | ShellPiiAlreadyRegistered

text \<open>The sealed marker types; each wraps the plaintext bytes.\<close>
datatype pii_marker = ActorHandle | EntryBodyMarker | ActivityExtraBytes | AuthCredentialSecret

fun PII_CODE :: "pii_marker \<Rightarrow> u16" where
  "PII_CODE ActorHandle = ACTOR_HANDLE"
| "PII_CODE EntryBodyMarker = ENTRY_BODY"
| "PII_CODE ActivityExtraBytes = ACTIVITY_EXTRA_BYTES"
| "PII_CODE AuthCredentialSecret = AUTH_CREDENTIAL_SECRET"

lemmas pii_code_defs = ACTOR_HANDLE_def ENTRY_BODY_def ACTIVITY_EXTRA_BYTES_def AUTH_CREDENTIAL_SECRET_def

section \<open>Shell-scoped registry\<close>

definition SHELL_PII_CODE_RANGE :: "u16 \<times> u16" where
  "SHELL_PII_CODE_RANGE = (0x0100, 0xFFFF)"

definition shell_code_ok :: "u16 \<Rightarrow> bool" where
  "shell_code_ok c \<longleftrightarrow> fst SHELL_PII_CODE_RANGE \<le> c \<and> c \<le> snd SHELL_PII_CODE_RANGE"

definition ShellPiiType_new :: "u16 \<Rightarrow> sensitivity \<Rightarrow> aead_kind \<Rightarrow> pii_error + shell_pii_type" where
  "ShellPiiType_new code sens kind =
     (if \<not> shell_code_ok code then Inl ShellPiiCodeOutOfRange
      else Inr \<lparr>spt_pii_code = code, spt_sensitivity = sens, spt_aead_kind = kind\<rparr>)"

type_synonym shell_pii_registry = "u16 \<Rightarrow> shell_pii_type option"

definition ShellPiiRegistry_new :: shell_pii_registry where
  "ShellPiiRegistry_new = (\<lambda>_. None)"

definition ShellPiiRegistry_register ::
  "shell_pii_type \<Rightarrow> (shell_pii_registry, pii_error, unit) act" where
  "ShellPiiRegistry_register entry = (\<lambda>entries.
     if \<not> shell_code_ok (spt_pii_code entry) then (Inl ShellPiiCodeOutOfRange, entries)
     else if entries (spt_pii_code entry) \<noteq> None then (Inl ShellPiiAlreadyRegistered, entries)
     else (Inr (), entries(spt_pii_code entry \<mapsto> entry)))"

definition ShellPiiRegistry_get :: "shell_pii_registry \<Rightarrow> u16 \<Rightarrow> shell_pii_type option" where
  "ShellPiiRegistry_get entries code = entries code"

definition ShellPiiRegistry_len :: "shell_pii_registry \<Rightarrow> nat" where
  "ShellPiiRegistry_len entries = card (dom entries)"

section \<open>Additional data and body hash\<close>

definition compute_aad :: "dek_id \<Rightarrow> u16 \<Rightarrow> aead_kind \<Rightarrow> bytes" where
  "compute_aad dek code kind = dek_id_bytes dek @ be_bytes 2 code @ [aead_kind_u8 kind]"

text \<open>\<^term>\<open>hash\<close> is the unkeyed BLAKE3 over the concatenation of the updates.\<close>
definition compute_body_hash :: "(bytes \<Rightarrow> bytes) \<Rightarrow> bytes \<Rightarrow> bytes \<Rightarrow> bytes \<Rightarrow> bytes" where
  "compute_body_hash hash body user_salt entry_nonce = hash (body @ user_salt @ entry_nonce)"

section \<open>Message counter\<close>

record dek_message_counter =
  dmc_dek_id :: dek_id
  dmc_count :: u64

datatype rotation_trigger = Healthy | WarnApproachingLimit | MustRotate

definition DekMessageCounter_new :: "dek_id \<Rightarrow> dek_message_counter" where
  "DekMessageCounter_new d = \<lparr>dmc_dek_id = d, dmc_count = 0\<rparr>"

definition record_message :: "dek_message_counter \<Rightarrow> dek_message_counter" where
  "record_message c = c\<lparr>dmc_count := saturating_add (dmc_count c) 1\<rparr>"

definition rotation_trigger :: "dek_message_counter \<Rightarrow> rotation_trigger" where
  "rotation_trigger c =
     (if dmc_count c \<ge> push_bit 31 1 then MustRotate
      else if dmc_count c \<ge> push_bit 30 1 then WarnApproachingLimit
      else Healthy)"

section \<open>Lemmas\<close>

lemma aead_kind_u8_inject: "aead_kind_u8 a = aead_kind_u8 b \<longleftrightarrow> a = b"
  by (cases a; cases b; simp)

lemma PII_CODE_inject: "PII_CODE a = PII_CODE b \<longleftrightarrow> a = b"
  by (cases a; cases b; simp add: pii_code_defs)

lemma PII_CODE_canonical: "\<not> shell_code_ok (PII_CODE m)"
  by (cases m; simp add: shell_code_ok_def SHELL_PII_CODE_RANGE_def pii_code_defs word_le_nat_alt)

lemma length_compute_aad: "length (dek_id_bytes d) = 16 \<Longrightarrow> length (compute_aad d c k) = 19"
  by (simp add: compute_aad_def)

lemma compute_aad_inject:
  assumes "length (dek_id_bytes d) = length (dek_id_bytes d')"
  shows "compute_aad d c k = compute_aad d' c' k' \<longleftrightarrow> d = d' \<and> c = c' \<and> k = k'"
  using assms
  by (auto simp: compute_aad_def be_bytes_inject aead_kind_u8_inject dek_id.expand)

definition registry_ok :: "shell_pii_registry \<Rightarrow> bool" where
  "registry_ok r \<longleftrightarrow> (\<forall>c t. r c = Some t \<longrightarrow> spt_pii_code t = c \<and> shell_code_ok c)"

lemma registry_ok_new: "registry_ok ShellPiiRegistry_new"
  by (simp add: registry_ok_def ShellPiiRegistry_new_def)

lemma registry_ok_register: "registry_ok r \<Longrightarrow> registry_ok (snd (ShellPiiRegistry_register e r))"
  by (auto simp: registry_ok_def ShellPiiRegistry_register_def)

lemma register_keeps: "r c = Some t \<Longrightarrow> snd (ShellPiiRegistry_register e r) c = Some t"
  by (auto simp: ShellPiiRegistry_register_def)

lemma register_ok_iff:
  "fst (ShellPiiRegistry_register e r) = Inr () \<longleftrightarrow>
     shell_code_ok (spt_pii_code e) \<and> r (spt_pii_code e) = None"
  by (auto simp: ShellPiiRegistry_register_def)

lemma rotation_trigger_unat:
  "rotation_trigger c = MustRotate \<longleftrightarrow> 2 ^ 31 \<le> unat (dmc_count c)"
  "rotation_trigger c = WarnApproachingLimit \<longleftrightarrow> 2 ^ 30 \<le> unat (dmc_count c) \<and> unat (dmc_count c) < 2 ^ 31"
  by (auto simp: rotation_trigger_def word_le_nat_alt push_bit_eq_mult)

lemma record_message_funpow:
  "unat (dmc_count ((record_message ^^ n) (DekMessageCounter_new d))) = min n (2 ^ 64 - 1)"
proof (induction n)
  case 0 then show ?case by (simp add: DekMessageCounter_new_def)
next
  case (Suc n) then show ?case by (simp add: record_message_def unat_saturating_add)
qed

text \<open>The additional data binds its inputs: for 16-byte key ids it is exactly 19 bytes, and
two additional data strings are equal only if key id, PII code and cipher are all equal, so a
ciphertext cannot be presented under another marker, key or cipher with the same data.\<close>
theorem aad_binds_inputs:
  assumes "length (dek_id_bytes d) = 16" "length (dek_id_bytes d') = 16"
  shows "length (compute_aad d (PII_CODE m) k) = 19
    \<and> (compute_aad d (PII_CODE m) k = compute_aad d' (PII_CODE m') k' \<longleftrightarrow> d = d' \<and> m = m' \<and> k = k')"
  using assms by (simp add: length_compute_aad compute_aad_inject PII_CODE_inject)

lemma aad_binds_inputs_witness:
  "length (compute_aad (DekId (replicate 16 0)) (PII_CODE ActorHandle) Aes256Gcm) = 19
   \<and> compute_aad (DekId (replicate 16 0)) (PII_CODE ActorHandle) Aes256Gcm
     \<noteq> compute_aad (DekId (replicate 16 0)) (PII_CODE EntryBodyMarker) Aes256Gcm"
  using aad_binds_inputs[of "DekId (replicate 16 0)" "DekId (replicate 16 0)" ActorHandle Aes256Gcm
      EntryBodyMarker Aes256Gcm] by simp

text \<open>Registering any sequence of shell markers into the empty registry keeps it well formed
(each key holds a marker with that code, in the shell band, so no canonical code is ever
registered), a marker once registered is never replaced, and a registration succeeds exactly when
the code is in the band and still free.\<close>
theorem shell_registry_append_only:
  "let reg = (\<lambda>es. fold (\<lambda>e r. snd (ShellPiiRegistry_register e r)) es ShellPiiRegistry_new) in
     registry_ok (reg es)
   \<and> ShellPiiRegistry_get (reg es) (PII_CODE m) = None
   \<and> reg es \<subseteq>\<^sub>m reg (es @ es')
   \<and> (fst (ShellPiiRegistry_register e (reg es)) = Inr () \<longleftrightarrow>
        shell_code_ok (spt_pii_code e) \<and> spt_pii_code e \<notin> dom (reg es))"
proof -
  let ?add = "\<lambda>e r. snd (ShellPiiRegistry_register e r)"
  have ok: "registry_ok r \<Longrightarrow> registry_ok (fold ?add xs r)" for xs r
    by (induction xs arbitrary: r) (auto intro: registry_ok_register)
  have keep: "r c = Some t \<Longrightarrow> fold ?add xs r c = Some t" for xs r c t
    by (induction xs arbitrary: r) (auto intro: register_keeps)
  have "registry_ok (fold ?add es ShellPiiRegistry_new)" by (rule ok[OF registry_ok_new])
  moreover from this have "fold ?add es ShellPiiRegistry_new (PII_CODE m) = None"
    using PII_CODE_canonical[of m] unfolding registry_ok_def by (metis not_None_eq)
  moreover have "fold ?add es ShellPiiRegistry_new \<subseteq>\<^sub>m fold ?add (es @ es') ShellPiiRegistry_new"
    by (auto simp: map_le_def intro: keep[symmetric])
  ultimately show ?thesis
    by (auto simp: ShellPiiRegistry_get_def register_ok_iff)
qed

end
