(* ===== verification/Data_Model.thy ===== *)
theory Data_Model
  imports Component Pii
begin

text \<open>The five core primitives: identifiers, enumerations, components and action payloads of
\<^verbatim>\<open>user.rs\<close>, \<^verbatim>\<open>actor.rs\<close>, \<^verbatim>\<open>space.rs\<close>, \<^verbatim>\<open>entry.rs\<close>, \<^verbatim>\<open>activity.rs\<close> and \<^verbatim>\<open>brand.rs\<close>, with the
pure operations on them.  Field names carry a prefix per struct.  An \<^verbatim>\<open>EntityId\<close> of the kernel
is a non-zero 64-bit value, \<^verbatim>\<open>Tick\<close> and \<^verbatim>\<open>InstanceId\<close> are 64-bit values.  The shell brand and the
actor typestates are compile-time only; the typestate transitions are modelled on their tags.\<close>

type_synonym entity_id = u64
type_synonym tick = u64
type_synonym instance_id = u64

definition EntityId_new :: "u64 \<Rightarrow> entity_id option" where
  "EntityId_new raw = (if raw = 0 then None else Some raw)"

datatype shell_id = ShellId (shell_id_bytes: bytes)
datatype user_id = UserId (user_get: entity_id)
datatype actor_id = ActorId (actor_get: entity_id)
datatype space_id = SpaceId (space_get: entity_id)
datatype entry_id = EntryId (entry_get: entity_id)
datatype activity_id = ActivityId (activity_get: entity_id)

section \<open>User\<close>

datatype auth_kind = Passkey | Email | Handle | Address
datatype gdpr_status = Active | ErasurePending | Erased
datatype kdf_kind = Argon2id | Scrypt

record kdf_params =
  m_cost :: u32
  t_cost :: u32
  p_cost :: u32

record user_profile =
  up_schema_version :: u16
  up_created_tick :: tick
  up_primary_auth_kind :: auth_kind

record user_gdpr_state =
  ugs_schema_version :: u16
  ugs_status :: gdpr_status

record auth_credential =
  ac_schema_version :: u16
  ac_kind :: auth_kind
  ac_kdf :: kdf_kind
  ac_salt :: bytes
  ac_credential_hash :: bytes
  ac_kdf_params :: kdf_params
  ac_expires_tick :: "tick option"
  ac_bound_tick :: tick

definition DEFAULT_KDF :: kdf_kind where "DEFAULT_KDF = Argon2id"
definition MIN_ARGON2ID_M_COST :: u32 where "MIN_ARGON2ID_M_COST = 19456"
definition MIN_ARGON2ID_T_COST :: u32 where "MIN_ARGON2ID_T_COST = 2"
definition MIN_ARGON2ID_P_COST :: u32 where "MIN_ARGON2ID_P_COST = 1"
definition MIN_SCRYPT_N_COST :: u32 where "MIN_SCRYPT_N_COST = push_bit 15 1"
definition MIN_SCRYPT_R_COST :: u32 where "MIN_SCRYPT_R_COST = 8"

lemmas kdf_min_defs = MIN_ARGON2ID_M_COST_def MIN_ARGON2ID_T_COST_def MIN_ARGON2ID_P_COST_def
  MIN_SCRYPT_N_COST_def MIN_SCRYPT_R_COST_def

text \<open>\<^verbatim>\<open>u32::is_power_of_two\<close>: exactly one bit set.\<close>
definition is_power_of_two :: "u32 \<Rightarrow> bool" where
  "is_power_of_two x \<longleftrightarrow> length (filter (\<lambda>i. bit x i) [0..<32]) = 1"

fun validate_kdf_params :: "kdf_kind \<Rightarrow> kdf_params \<Rightarrow> bool" where
  "validate_kdf_params Argon2id p \<longleftrightarrow>
     m_cost p \<ge> MIN_ARGON2ID_M_COST \<and> t_cost p \<ge> MIN_ARGON2ID_T_COST \<and> p_cost p \<ge> MIN_ARGON2ID_P_COST"
| "validate_kdf_params Scrypt p \<longleftrightarrow>
     m_cost p \<ge> MIN_SCRYPT_N_COST \<and> is_power_of_two (m_cost p) \<and> t_cost p \<ge> MIN_SCRYPT_R_COST
     \<and> p_cost p \<ge> 1"

record register_user =
  ru_schema_version :: u16
  ru_profile :: user_profile
  ru_credential :: auth_credential

record gdpr_erase_user =
  geu_schema_version :: u16
  geu_user :: user_id

section \<open>Actor\<close>

datatype actor_kind = Human | Bot | KindSystem | KindAnonymous

datatype actor_state = StAnonymous | StAuthenticated | StSuspended

fun ActorState_NAME :: "actor_state \<Rightarrow> string" where
  "ActorState_NAME StAnonymous = ''anonymous''"
| "ActorState_NAME StAuthenticated = ''authenticated''"
| "ActorState_NAME StSuspended = ''suspended''"

text \<open>The branded handle, with its typestate as a value; the two transitions exist only from the
state their impl block is for.\<close>
record actor_handle =
  ah_id :: actor_id
  ah_state :: actor_state

definition Actor_new_anonymous :: "actor_id \<Rightarrow> actor_handle" where
  "Actor_new_anonymous i = \<lparr>ah_id = i, ah_state = StAnonymous\<rparr>"

definition Actor_authenticate :: "actor_handle \<Rightarrow> user_id \<Rightarrow> actor_handle option" where
  "Actor_authenticate a u =
     (if ah_state a = StAnonymous then Some \<lparr>ah_id = ah_id a, ah_state = StAuthenticated\<rparr> else None)"

definition Actor_suspend :: "actor_handle \<Rightarrow> actor_handle option" where
  "Actor_suspend a =
     (if ah_state a = StAuthenticated then Some \<lparr>ah_id = ah_id a, ah_state = StSuspended\<rparr> else None)"

record actor_profile =
  ap_schema_version :: u16
  ap_shell_id :: shell_id
  ap_handle :: bounded_string
  ap_kind :: actor_kind
  ap_created_tick :: tick

record user_binding =
  ub_schema_version :: u16
  ub_user_id :: user_id

record register_actor =
  ra_schema_version :: u16
  ra_profile :: actor_profile
  ra_user :: user_id

section \<open>Space\<close>

datatype space_kind = Flat | Tree | Graph | Hashtag | ActorFeed | SpaceExtension (sk_type_code: type_code)

datatype visibility = Public | RestrictedByRole | SubscribersOnly | PrivateInvite | Encrypted

record space_config =
  sc_schema_version :: u16
  sc_shell_id :: shell_id
  sc_slug :: bounded_string
  sc_kind :: space_kind
  sc_visibility :: visibility
  sc_creator :: actor_id
  sc_parent_space :: "space_id option"
  sc_created_tick :: tick

record parent_chain_depth =
  pcd_schema_version :: u16
  pcd_depth :: u8

record space_membership =
  sm_schema_version :: u16
  sm_members :: "actor_id list" \<comment> \<open>the ascending enumeration of the BTreeSet\<close>

record space_config_draft =
  scd_schema_version :: u16
  scd_shell_id :: shell_id
  scd_slug :: bounded_string
  scd_kind :: space_kind
  scd_visibility :: visibility
  scd_parent_space :: "space_id option"
  scd_created_tick :: tick

definition into_config :: "space_config_draft \<Rightarrow> actor_id \<Rightarrow> space_config" where
  "into_config d creator =
     \<lparr>sc_schema_version = scd_schema_version d, sc_shell_id = scd_shell_id d, sc_slug = scd_slug d,
      sc_kind = scd_kind d, sc_visibility = scd_visibility d, sc_creator = creator,
      sc_parent_space = scd_parent_space d, sc_created_tick = scd_created_tick d\<rparr>"

record create_space =
  cs_schema_version :: u16
  cs_config :: space_config_draft

definition MAX_SPACE_DEPTH :: u8 where "MAX_SPACE_DEPTH = 64"

section \<open>Entry\<close>

datatype relay_kind = Plain | Quote

record entry_core =
  ec_schema_version :: u16
  ec_shell_id :: shell_id
  ec_space_id :: space_id
  ec_author_id :: actor_id
  ec_parent_entry :: "entry_id option"
  ec_relay_of :: "entry_id option"
  ec_relay_kind :: "relay_kind option"
  ec_created_tick :: tick

record body_cipher_meta =
  bcm_dek_id :: dek_id
  bcm_aead_kind :: aead_kind
  bcm_nonce :: bytes

record entry_body =
  eb_schema_version :: u16
  eb_title :: "bounded_string option"
  eb_body_hash :: bytes
  eb_body_cipher_meta :: "body_cipher_meta option"
  eb_edit_seq :: u32

record entry_parent_depth =
  epd_schema_version :: u16
  epd_depth :: u8

definition MAX_ENTRY_DEPTH :: u8 where "MAX_ENTRY_DEPTH = 64"

section \<open>Activity\<close>

datatype target_kind =
    TEntry entry_id | TActor actor_id | TSpace space_id | TActivity activity_id
  | TExtension (te_type_code: type_code) (te_id: entity_id)

record target_key =
  tk_kind_code :: u8
  tk_type_code :: type_code
  tk_id :: entity_id
  tk_target_shell_id :: shell_id

definition key_with_shell :: "target_kind \<Rightarrow> shell_id \<Rightarrow> target_key" where
  "key_with_shell t sh =
     (let (kind_code, tc, i) =
        (case t of
           TEntry e \<Rightarrow> (1, 0, entry_get e)
         | TActor a \<Rightarrow> (2, 0, actor_get a)
         | TSpace s \<Rightarrow> (3, 0, space_get s)
         | TActivity a \<Rightarrow> (4, 0, activity_get a)
         | TExtension tc i \<Rightarrow> (5, tc, i))
      in \<lparr>tk_kind_code = kind_code, tk_type_code = tc, tk_id = i, tk_target_shell_id = sh\<rparr>)"

definition target_key_of :: "target_kind \<Rightarrow> target_key" where
  "target_key_of t = key_with_shell t (ShellId (replicate 16 0))"

record entity_shell_id =
  esi_schema_version :: u16
  esi_shell_id :: shell_id

datatype activity_status = ActActive | ActRetracted (retracted_at: tick)

record activity_record =
  ar_schema_version :: u16
  ar_shell_id :: shell_id
  ar_actor :: actor_id
  ar_verb :: verb_code
  ar_target :: target_kind
  ar_at_tick :: tick
  ar_status :: activity_status
  ar_extra_bytes :: bytes

record activity_draft =
  ad_schema_version :: u16
  ad_shell_id :: shell_id
  ad_verb :: verb_code
  ad_target :: target_kind
  ad_at_tick :: tick
  ad_status :: activity_status
  ad_extra_bytes :: bytes

definition into_record :: "activity_draft \<Rightarrow> actor_id \<Rightarrow> activity_record" where
  "into_record d actor =
     \<lparr>ar_schema_version = ad_schema_version d, ar_shell_id = ad_shell_id d, ar_actor = actor,
      ar_verb = ad_verb d, ar_target = ad_target d, ar_at_tick = ad_at_tick d,
      ar_status = ad_status d, ar_extra_bytes = ad_extra_bytes d\<rparr>"

record submit_activity =
  sa_schema_version :: u16
  sa_draft :: activity_draft
  sa_idempotency_key :: "bytes option"

text \<open>The branded wrapper is the record itself: the brand has no run-time content.\<close>
definition from_branded :: "activity_record \<Rightarrow> submit_activity" where
  "from_branded r =
     \<lparr>sa_schema_version = 1,
      sa_draft = \<lparr>ad_schema_version = ar_schema_version r, ad_shell_id = ar_shell_id r,
        ad_verb = ar_verb r, ad_target = ar_target r, ad_at_tick = ar_at_tick r,
        ad_status = ar_status r, ad_extra_bytes = ar_extra_bytes r\<rparr>,
      sa_idempotency_key = None\<rparr>"

definition with_idempotency_key :: "submit_activity \<Rightarrow> bytes \<Rightarrow> submit_activity" where
  "with_idempotency_key a key = a\<lparr>sa_idempotency_key := Some key\<rparr>"

record retract_activity =
  rta_schema_version :: u16
  rta_activity :: activity_id

definition APPEAL_MAX_DEPTH_CAP :: u8 where "APPEAL_MAX_DEPTH_CAP = 8"

section \<open>Event payload of the erasure request\<close>

record user_erasure_scheduled =
  ues_schema_version :: u16
  ues_user :: user_id
  ues_scheduled_tick :: tick

section \<open>The trait implementations\<close>

text \<open>The postcard codecs of the types the code encodes and decodes.\<close>
record postcards =
  pc_user_profile :: "user_profile codec"
  pc_auth_credential :: "auth_credential codec"
  pc_user_gdpr_state :: "user_gdpr_state codec"
  pc_actor_profile :: "actor_profile codec"
  pc_user_binding :: "user_binding codec"
  pc_space_config :: "space_config codec"
  pc_parent_chain_depth :: "parent_chain_depth codec"
  pc_activity_record :: "activity_record codec"
  pc_user_erasure_scheduled :: "user_erasure_scheduled codec"

definition UserProfile :: "postcards \<Rightarrow> user_profile arkhe_type" where
  "UserProfile pc = \<lparr>TYPE_CODE = 0x00030001, SCHEMA_VERSION = 1, postcard = pc_user_profile pc\<rparr>"
definition AuthCredential :: "postcards \<Rightarrow> auth_credential arkhe_type" where
  "AuthCredential pc = \<lparr>TYPE_CODE = 0x00030002, SCHEMA_VERSION = 1, postcard = pc_auth_credential pc\<rparr>"
definition UserGdprState :: "postcards \<Rightarrow> user_gdpr_state arkhe_type" where
  "UserGdprState pc = \<lparr>TYPE_CODE = 0x00030003, SCHEMA_VERSION = 1, postcard = pc_user_gdpr_state pc\<rparr>"
definition ActorProfile :: "postcards \<Rightarrow> actor_profile arkhe_type" where
  "ActorProfile pc = \<lparr>TYPE_CODE = 0x00030101, SCHEMA_VERSION = 1, postcard = pc_actor_profile pc\<rparr>"
definition UserBinding :: "postcards \<Rightarrow> user_binding arkhe_type" where
  "UserBinding pc = \<lparr>TYPE_CODE = 0x00030102, SCHEMA_VERSION = 1, postcard = pc_user_binding pc\<rparr>"
definition SpaceConfig :: "postcards \<Rightarrow> space_config arkhe_type" where
  "SpaceConfig pc = \<lparr>TYPE_CODE = 0x00030201, SCHEMA_VERSION = 1, postcard = pc_space_config pc\<rparr>"
definition ParentChainDepth :: "postcards \<Rightarrow> parent_chain_depth arkhe_type" where
  "ParentChainDepth pc = \<lparr>TYPE_CODE = 0x00030202, SCHEMA_VERSION = 1, postcard = pc_parent_chain_depth pc\<rparr>"
definition ActivityRecord :: "postcards \<Rightarrow> activity_record arkhe_type" where
  "ActivityRecord pc = \<lparr>TYPE_CODE = 0x00030401, SCHEMA_VERSION = 1, postcard = pc_activity_record pc\<rparr>"
definition UserErasureScheduled :: "postcards \<Rightarrow> user_erasure_scheduled arkhe_type" where
  "UserErasureScheduled pc = \<lparr>TYPE_CODE = USER_ERASURE_SCHEDULED, SCHEMA_VERSION = 1,
     postcard = pc_user_erasure_scheduled pc\<rparr>"

lemmas arkhe_type_defs = UserProfile_def AuthCredential_def UserGdprState_def ActorProfile_def
  UserBinding_def SpaceConfig_def ParentChainDepth_def ActivityRecord_def UserErasureScheduled_def

lemma component_codes_in_range:
  "list_all (in_range CORE_COMPONENT) [TYPE_CODE (UserProfile pc), TYPE_CODE (AuthCredential pc),
     TYPE_CODE (UserGdprState pc), TYPE_CODE (ActorProfile pc), TYPE_CODE (UserBinding pc),
     TYPE_CODE (SpaceConfig pc), TYPE_CODE (ParentChainDepth pc), TYPE_CODE (ActivityRecord pc)]"
  by (simp add: arkhe_type_defs in_range_unat CORE_COMPONENT_def)

section \<open>Lemmas\<close>

lemma EntityId_new_nonzero: "EntityId_new r = Some i \<Longrightarrow> i \<noteq> 0 \<and> i = r"
  by (auto simp: EntityId_new_def split: if_splits)

text \<open>Keys of distinct targets never collide, whatever the shells: the kind code separates the
families and the shell closes the type-erased bypass.\<close>
lemma key_with_shell_inject: "key_with_shell t s = key_with_shell t' s' \<longleftrightarrow> t = t' \<and> s = s'"
  by (auto simp: key_with_shell_def entry_id.expand actor_id.expand space_id.expand activity_id.expand
      split: target_kind.splits)

lemma from_branded_into_record:
  "into_record (sa_draft (from_branded r)) a = r\<lparr>ar_actor := a\<rparr>"
  by (simp add: from_branded_def into_record_def)

lemma actor_typestate_ids:
  "Actor_authenticate a u = Some b \<Longrightarrow> ah_id b = ah_id a \<and> Actor_authenticate b u' = None"
  "Actor_suspend a = Some b \<Longrightarrow> ah_id b = ah_id a \<and> Actor_authenticate b u' = None \<and> Actor_suspend b = None"
  by (auto simp: Actor_authenticate_def Actor_suspend_def split: if_splits)

end
