(* ===== verification/Demo.thy ===== *)
theory Demo
  imports Data_Model
begin

text \<open>Concrete instances of the third-party parameters, used only by the witnesses: a hash whose
digest starts with the type code and the sequence number of an id message, and finite postcard
tables for a handful of values.\<close>

definition demo_uid :: user_id where "demo_uid = UserId 0x0003000100000000"
definition demo_aid :: actor_id where "demo_aid = ActorId 0x0003010100000000"

definition demo_profile :: user_profile where
  "demo_profile = \<lparr>up_schema_version = 1, up_created_tick = 5, up_primary_auth_kind = Passkey\<rparr>"
definition demo_credential :: auth_credential where
  "demo_credential = \<lparr>ac_schema_version = 1, ac_kind = Passkey, ac_kdf = Argon2id,
     ac_salt = replicate 16 7, ac_credential_hash = replicate 32 9,
     ac_kdf_params = \<lparr>m_cost = 19456, t_cost = 2, p_cost = 1\<rparr>, ac_expires_tick = None, ac_bound_tick = 5\<rparr>"
definition demo_actor_profile :: actor_profile where
  "demo_actor_profile = \<lparr>ap_schema_version = 1, ap_shell_id = ShellId (replicate 16 1),
     ap_handle = BoundedString ''ada'', ap_kind = Human, ap_created_tick = 5\<rparr>"
definition demo_draft :: space_config_draft where
  "demo_draft = \<lparr>scd_schema_version = 1, scd_shell_id = ShellId (replicate 16 1),
     scd_slug = BoundedString ''home'', scd_kind = Flat, scd_visibility = Public,
     scd_parent_space = None, scd_created_tick = 5\<rparr>"
definition demo_activity :: activity_draft where
  "demo_activity = \<lparr>ad_schema_version = 1, ad_shell_id = ShellId (replicate 16 1),
     ad_verb = VerbCode 0x00020001, ad_target = TActor demo_aid, ad_at_tick = 5,
     ad_status = ActActive, ad_extra_bytes = []\<rparr>"

definition demo_pc :: postcards where
  "demo_pc = \<lparr>pc_user_profile = table_codec [(demo_profile, [1])],
     pc_auth_credential = table_codec [(demo_credential, [2])],
     pc_user_gdpr_state = table_codec
       [(\<lparr>ugs_schema_version = 1, ugs_status = Active\<rparr>, [3]),
        (\<lparr>ugs_schema_version = 1, ugs_status = ErasurePending\<rparr>, [4])],
     pc_actor_profile = table_codec [(demo_actor_profile, [6])],
     pc_user_binding = table_codec [(\<lparr>ub_schema_version = 1, ub_user_id = demo_uid\<rparr>, [7])],
     pc_space_config = table_codec [(into_config demo_draft demo_aid, [8])],
     pc_parent_chain_depth = table_codec
       [(\<lparr>pcd_schema_version = 1, pcd_depth = 0\<rparr>, [9]), (\<lparr>pcd_schema_version = 1, pcd_depth = 1\<rparr>, [10])],
     pc_activity_record = table_codec [(into_record demo_activity demo_aid, [11])],
     pc_user_erasure_scheduled = table_codec
       [(\<lparr>ues_schema_version = 1, ues_user = demo_uid, ues_scheduled_tick = 7\<rparr>, [12])]\<rparr>"

lemma demo_pc_ok:
  "codec_ok (pc_user_profile demo_pc)" "codec_ok (pc_auth_credential demo_pc)"
  "codec_ok (pc_user_gdpr_state demo_pc)" "codec_ok (pc_actor_profile demo_pc)"
  "codec_ok (pc_user_binding demo_pc)" "codec_ok (pc_space_config demo_pc)"
  "codec_ok (pc_parent_chain_depth demo_pc)" "codec_ok (pc_activity_record demo_pc)"
  "codec_ok (pc_user_erasure_scheduled demo_pc)"
  by (simp_all add: demo_pc_def codec_ok_table)

lemma demo_fields [simp]:
  "scd_schema_version demo_draft = 1" "scd_parent_space demo_draft = None"
  "ad_schema_version demo_activity = 1" "ad_target demo_activity = TActor demo_aid"
  "up_schema_version demo_profile = 1" "ac_schema_version demo_credential = 1"
  "ac_kdf demo_credential = Argon2id" "ac_kdf_params demo_credential = \<lparr>m_cost = 19456, t_cost = 2, p_cost = 1\<rparr>"
  "ap_schema_version demo_actor_profile = 1"
  by (simp_all add: demo_draft_def demo_activity_def demo_profile_def demo_credential_def
      demo_actor_profile_def)

lemma demo_enc:
  "cd_enc (pc_user_profile demo_pc) demo_profile = Some [1]"
  "cd_enc (pc_auth_credential demo_pc) demo_credential = Some [2]"
  "cd_enc (pc_user_gdpr_state demo_pc) \<lparr>ugs_schema_version = 1, ugs_status = Active\<rparr> = Some [3]"
  "cd_enc (pc_user_gdpr_state demo_pc) \<lparr>ugs_schema_version = 1, ugs_status = ErasurePending\<rparr> = Some [4]"
  "cd_enc (pc_actor_profile demo_pc) demo_actor_profile = Some [6]"
  "cd_enc (pc_user_binding demo_pc) \<lparr>ub_schema_version = 1, ub_user_id = demo_uid\<rparr> = Some [7]"
  "cd_enc (pc_space_config demo_pc) (into_config demo_draft demo_aid) = Some [8]"
  "cd_enc (pc_parent_chain_depth demo_pc) \<lparr>pcd_schema_version = 1, pcd_depth = 0\<rparr> = Some [9]"
  "cd_enc (pc_parent_chain_depth demo_pc) \<lparr>pcd_schema_version = 1, pcd_depth = 1\<rparr> = Some [10]"
  "cd_enc (pc_activity_record demo_pc) (into_record demo_activity demo_aid) = Some [11]"
  "cd_enc (pc_user_erasure_scheduled demo_pc)
     \<lparr>ues_schema_version = 1, ues_user = demo_uid, ues_scheduled_tick = 7\<rparr> = Some [12]"
  by (simp_all add: demo_pc_def table_codec_def)

end
