(* ===== verification/Context.thy ===== *)
theory Context
  imports Demo
begin

text \<open>The compute context of \<^verbatim>\<open>arkhe-forge-core/src/context.rs\<close> and the id derivation of
\<^verbatim>\<open>lib.rs\<close>.  The operations on \<^verbatim>\<open>&mut self\<close> are state passing over the record \<^verbatim>\<open>ctx\<close>, and keep
the state they reached when they fail.  The kernel's read-only view is a function from entity and
type code to stored bytes; the two index traits are functions; BLAKE3 is a pair of functions.\<close>

section \<open>Kernel and hash interface types\<close>

datatype 'ext principal = System | External 'ext

type_synonym caps = u64

text \<open>The operations the compute path emits to the kernel.\<close>
datatype 'ext op =
    SpawnEntity (op_id: entity_id) (op_owner: "'ext principal")
  | SetComponent (op_entity: entity_id) (op_type_code: type_code) (op_bytes: bytes) (op_size: u64)
  | RemoveComponent (op_entity: entity_id) (op_type_code: type_code) (op_size: u64)
  | EmitEvent (op_actor: "entity_id option") (op_event_type_code: type_code) (op_event_bytes: bytes)

type_synonym instance_view = "entity_id \<Rightarrow> type_code \<Rightarrow> bytes option"
type_synonym idempotency_lookup_fn = "bytes \<Rightarrow> (entity_id \<times> tick) option"
type_synonym handle_lookup_fn = "shell_id \<Rightarrow> bounded_string \<Rightarrow> actor_id option"

text \<open>BLAKE3: key derivation from a context string, and the keyed 32-byte digest of the
concatenated updates.\<close>
record blake3 =
  derive_key :: "string \<Rightarrow> bytes \<Rightarrow> bytes"
  keyed_hash :: "bytes \<Rightarrow> bytes \<Rightarrow> bytes"

section \<open>Entity ids\<close>

definition MAX_ID_DERIVE_RETRIES :: u32 where "MAX_ID_DERIVE_RETRIES = 16"

definition id_message :: "instance_id \<Rightarrow> type_code \<Rightarrow> tick \<Rightarrow> u32 \<Rightarrow> u32 \<Rightarrow> bytes" where
  "id_message inst tc t seq bump =
     be_bytes 8 inst @ be_bytes 4 tc @ be_bytes 8 t @ be_bytes 4 seq @ be_bytes 4 bump"

text \<open>The retry loop over \<^verbatim>\<open>0..MAX_ID_DERIVE_RETRIES\<close>, counted by the tries left.\<close>
fun derive_loop ::
  "blake3 \<Rightarrow> bytes \<Rightarrow> instance_id \<Rightarrow> type_code \<Rightarrow> tick \<Rightarrow> u32 \<Rightarrow> nat \<Rightarrow> u32 \<Rightarrow> entity_id option" where
  "derive_loop h key inst tc t seq 0 bump = None"
| "derive_loop h key inst tc t seq (Suc n) bump =
     (let digest = keyed_hash h key (id_message inst tc t seq bump);
          raw = from_be (take 8 digest)
      in case EntityId_new raw of
           Some i \<Rightarrow> Some i
         | None \<Rightarrow> derive_loop h key inst tc t seq n (bump + 1))"

definition derive_entity_id ::
  "blake3 \<Rightarrow> bytes \<Rightarrow> instance_id \<Rightarrow> type_code \<Rightarrow> tick \<Rightarrow> u32 \<Rightarrow> entity_id option" where
  "derive_entity_id h world_seed inst tc t seq =
     derive_loop h (derive_key h ''arkhe-forge-entity-id'' world_seed) inst tc t seq
       (unat MAX_ID_DERIVE_RETRIES) 0"

section \<open>Errors\<close>

datatype action_error =
    AuthorizationFailed string
  | IdempotencyConflict bytes
  | CapabilityDenied string
  | SchemaMismatch (sm_expected: u16) (sm_got: u16)
  | CrossShellActivityErr
  | GdprPolicyViolationErr
  | IdExhaustion
  | InvalidInput string
  | UserErasurePending (uep_user: user_id) (uep_scheduled_tick: tick)
  | UserLifecycleUnresolved (ulu_user: user_id)
  | EntityShellIdReassign (esr_entity: entity_id) (esr_old_shell: shell_id) (esr_new_shell: shell_id)
  | ActorHandleCollision (ahc_shell_id: shell_id) (ahc_handle: bounded_string)

section \<open>The context\<close>

record event_record =
  er_type_code :: u32
  er_sequence :: u64
  er_tick :: tick
  er_payload :: bytes

record 'ext ctx =
  world_seed :: bytes
  instance_id :: instance_id
  cur_tick :: tick
  principal :: "'ext principal"
  caps :: caps
  acting_actor :: "actor_id option"
  id_seq :: u32
  event_seq :: u64
  events :: "event_record list"
  ops :: "'ext op list"
  view :: "instance_view option"
  idempotency_index :: "idempotency_lookup_fn option"
  actor_handle_index :: "handle_lookup_fn option"

type_synonym ('ext, 'a) ctx_act = "('ext ctx, action_error, 'a) act"

definition ActionContext_new :: "bytes \<Rightarrow> instance_id \<Rightarrow> tick \<Rightarrow> 'ext principal \<Rightarrow> caps \<Rightarrow> 'ext ctx" where
  "ActionContext_new seed inst t p c =
     \<lparr>world_seed = seed, instance_id = inst, cur_tick = t, principal = p, caps = c,
      acting_actor = None, id_seq = 0, event_seq = 0, events = [], ops = [], view = None,
      idempotency_index = None, actor_handle_index = None\<rparr>"

definition with_actor :: "actor_id option \<Rightarrow> 'ext ctx \<Rightarrow> 'ext ctx" where
  "with_actor a c = c\<lparr>acting_actor := a\<rparr>"

definition with_view :: "instance_view \<Rightarrow> 'ext ctx \<Rightarrow> 'ext ctx" where
  "with_view v c = c\<lparr>view := Some v\<rparr>"

definition with_idempotency_index :: "idempotency_lookup_fn \<Rightarrow> 'ext ctx \<Rightarrow> 'ext ctx" where
  "with_idempotency_index ix c = c\<lparr>idempotency_index := Some ix\<rparr>"

definition with_actor_handle_index :: "handle_lookup_fn \<Rightarrow> 'ext ctx \<Rightarrow> 'ext ctx" where
  "with_actor_handle_index ix c = c\<lparr>actor_handle_index := Some ix\<rparr>"

definition ensure_schema_version :: "u16 \<Rightarrow> u16 \<Rightarrow> ('ext, unit) ctx_act" where
  "ensure_schema_version expected got =
     (if got = expected then ret () else throw (SchemaMismatch expected got))"

section \<open>Ids, events, components\<close>

definition next_id :: "blake3 \<Rightarrow> type_code \<Rightarrow> ('ext, entity_id) ctx_act" where
  "next_id h tc = (\<lambda>c.
     let seq = id_seq c in
     case checked_add seq 1 of
       None \<Rightarrow> (Inl IdExhaustion, c)
     | Some s' \<Rightarrow>
         (ok_or IdExhaustion (derive_entity_id h (world_seed c) (instance_id c) tc (cur_tick c) seq),
          c\<lparr>id_seq := s'\<rparr>))"

definition preview_next_id_for :: "blake3 \<Rightarrow> 'c arkhe_type \<Rightarrow> 'ext ctx \<Rightarrow> action_error + entity_id" where
  "preview_next_id_for h C c =
     ok_or IdExhaustion
       (derive_entity_id h (world_seed c) (instance_id c) (TYPE_CODE C) (cur_tick c) (id_seq c))"

definition emit_event :: "'e arkhe_type \<Rightarrow> 'e \<Rightarrow> ('ext, unit) ctx_act" where
  "emit_event E ev = (\<lambda>c.
     case cd_enc (postcard E) ev of
       None \<Rightarrow> (Inl (InvalidInput ''event serialization failed''), c)
     | Some payload \<Rightarrow>
         (Inr (),
          c\<lparr>event_seq := saturating_add (event_seq c) 1,
            events := events c @ [\<lparr>er_type_code = TYPE_CODE E, er_sequence = event_seq c,
                                   er_tick = cur_tick c, er_payload = payload\<rparr>],
            ops := ops c @ [EmitEvent None (TYPE_CODE E) payload]\<rparr>))"

definition push_op :: "'ext op \<Rightarrow> ('ext, unit) ctx_act" where
  "push_op p = (\<lambda>c. (Inr (), c\<lparr>ops := ops c @ [p]\<rparr>))"

definition spawn_entity_for :: "blake3 \<Rightarrow> 'c arkhe_type \<Rightarrow> ('ext, entity_id) ctx_act" where
  "spawn_entity_for h C =
     bnd (next_id h (TYPE_CODE C)) (\<lambda>i.
     bnd (gets principal) (\<lambda>owner.
     bnd (push_op (SpawnEntity i owner)) (\<lambda>_.
     ret i)))"

text \<open>\<^verbatim>\<open>u64::try_from(len).unwrap_or(u64::MAX)\<close>\<close>
definition len_u64 :: "bytes \<Rightarrow> u64" where
  "len_u64 bs = (if length bs < 2 ^ 64 then of_nat (length bs) else - 1)"

definition set_component :: "'c arkhe_type \<Rightarrow> entity_id \<Rightarrow> 'c \<Rightarrow> ('ext, unit) ctx_act" where
  "set_component C entity component =
     (case cd_enc (postcard C) component of
        None \<Rightarrow> throw (InvalidInput ''component serialization failed'')
      | Some bs \<Rightarrow> push_op (SetComponent entity (TYPE_CODE C) bs (len_u64 bs)))"

definition remove_component :: "'c arkhe_type \<Rightarrow> entity_id \<Rightarrow> u64 \<Rightarrow> ('ext, unit) ctx_act" where
  "remove_component C entity prior_size = push_op (RemoveComponent entity (TYPE_CODE C) prior_size)"

definition drain_ops :: "'ext ctx \<Rightarrow> 'ext op list \<times> 'ext ctx" where
  "drain_ops c = (ops c, c\<lparr>ops := []\<rparr>)"

definition drain_events :: "'ext ctx \<Rightarrow> event_record list \<times> 'ext ctx" where
  "drain_events c = (events c, c\<lparr>events := []\<rparr>)"

section \<open>Lookups\<close>

definition idempotency_lookup :: "'ext ctx \<Rightarrow> bytes \<Rightarrow> (entity_id \<times> tick) option" where
  "idempotency_lookup c key = (case idempotency_index c of None \<Rightarrow> None | Some ix \<Rightarrow> ix key)"

definition actor_by_handle :: "'ext ctx \<Rightarrow> shell_id \<Rightarrow> bounded_string \<Rightarrow> actor_id option" where
  "actor_by_handle c sh hnd = (case actor_handle_index c of None \<Rightarrow> None | Some ix \<Rightarrow> ix sh hnd)"

definition read :: "'c arkhe_type \<Rightarrow> entity_id \<Rightarrow> 'ext ctx \<Rightarrow> action_error + 'c option" where
  "read C entity c =
     (case view c of
        None \<Rightarrow> Inr None
      | Some v \<Rightarrow>
          (case v entity (TYPE_CODE C) of
             None \<Rightarrow> Inr None
           | Some bs \<Rightarrow>
               (case cd_dec (postcard C) bs of
                  None \<Rightarrow> Inl (InvalidInput ''component decode failed'')
                | Some x \<Rightarrow> Inr (Some x))))"

text \<open>The reverse scan of the staged operations: the first hit decides.\<close>
fun staged_scan :: "'c arkhe_type \<Rightarrow> entity_id \<Rightarrow> 'ext op list \<Rightarrow> (action_error + 'c option) option" where
  "staged_scan C entity [] = None"
| "staged_scan C entity (SetComponent e tc bs sz # rest) =
     (if e = entity \<and> tc = TYPE_CODE C
      then (case cd_dec (postcard C) bs of
              None \<Rightarrow> Some (Inl (InvalidInput ''staged component decode failed''))
            | Some x \<Rightarrow> Some (Inr (Some x)))
      else staged_scan C entity rest)"
| "staged_scan C entity (RemoveComponent e tc sz # rest) =
     (if e = entity \<and> tc = TYPE_CODE C then Some (Inr None) else staged_scan C entity rest)"
| "staged_scan C entity (_ # rest) = staged_scan C entity rest"

definition staged_read :: "'c arkhe_type \<Rightarrow> entity_id \<Rightarrow> 'ext ctx \<Rightarrow> action_error + 'c option" where
  "staged_read C entity c =
     (case staged_scan C entity (rev (ops c)) of Some r \<Rightarrow> r | None \<Rightarrow> read C entity c)"

section \<open>The erasure gate\<close>

definition authenticated_actor_user ::
  "postcards \<Rightarrow> actor_id \<Rightarrow> 'ext ctx \<Rightarrow> action_error + user_id option" where
  "authenticated_actor_user pc actor c =
     (case staged_read (UserBinding pc) (actor_get actor) c of
        Inl e \<Rightarrow> Inl e
      | Inr b \<Rightarrow> Inr (map_option ub_user_id b))"

definition user_gdpr_status ::
  "postcards \<Rightarrow> user_id \<Rightarrow> 'ext ctx \<Rightarrow> action_error + gdpr_status option" where
  "user_gdpr_status pc user c =
     (case staged_read (UserGdprState pc) (user_get user) c of
        Inl e \<Rightarrow> Inl e
      | Inr s \<Rightarrow> Inr (map_option ugs_status s))"

definition ensure_actor_eligible ::
  "postcards \<Rightarrow> actor_id \<Rightarrow> tick \<Rightarrow> 'ext ctx \<Rightarrow> action_error + unit" where
  "ensure_actor_eligible pc actor scheduled_tick c =
     (case authenticated_actor_user pc actor c of
        Inl e \<Rightarrow> Inl e
      | Inr None \<Rightarrow> Inr ()
      | Inr (Some user) \<Rightarrow>
          (case user_gdpr_status pc user c of
             Inl e \<Rightarrow> Inl e
           | Inr (Some Active) \<Rightarrow> Inr ()
           | Inr (Some ErasurePending) \<Rightarrow> Inl (UserErasurePending user scheduled_tick)
           | Inr (Some Erased) \<Rightarrow> Inl (UserErasurePending user scheduled_tick)
           | Inr None \<Rightarrow> Inl (UserLifecycleUnresolved user)))"

section \<open>Lemmas: id derivation\<close>

lemma id_message_inject:
  "id_message i tc t s b = id_message i' tc' t' s' b' \<longleftrightarrow>
     i = i' \<and> tc = tc' \<and> t = t' \<and> s = s' \<and> b = b'"
  by (auto simp: id_message_def be_bytes_inject)

definition id_prefix :: "blake3 \<Rightarrow> bytes \<Rightarrow> instance_id \<Rightarrow> type_code \<Rightarrow> tick \<Rightarrow> u32 \<Rightarrow> u32 \<Rightarrow> u64" where
  "id_prefix h seed inst tc t seq bump =
     from_be (take 8 (keyed_hash h (derive_key h ''arkhe-forge-entity-id'' seed)
                        (id_message inst tc t seq bump)))"

lemma derive_loop_Some:
  "derive_loop h key inst tc t seq n bump = Some i \<longleftrightarrow>
     (\<exists>k<n. i \<noteq> 0 \<and> i = from_be (take 8 (keyed_hash h key (id_message inst tc t seq (bump + of_nat k))))
        \<and> (\<forall>j<k. (from_be (take 8 (keyed_hash h key (id_message inst tc t seq (bump + of_nat j)))) :: u64) = 0))"
proof (induction n arbitrary: bump)
  case 0 then show ?case by simp
next
  case (Suc n)
  let ?p = "\<lambda>b. from_be (take 8 (keyed_hash h key (id_message inst tc t seq b))) :: u64"
  have split: "(\<exists>k<Suc n. P k) \<longleftrightarrow> P 0 \<or> (\<exists>k<n. P (Suc k))" for P
    using less_Suc_eq_0_disj by auto
  have all: "(\<forall>j<Suc k. Q j) \<longleftrightarrow> Q 0 \<and> (\<forall>j<k. Q (Suc j))" for Q k
    using less_Suc_eq_0_disj by auto
  show ?case
    by (cases "?p bump = 0")
       (auto simp: Let_def EntityId_new_def split all Suc.IH add.assoc)
qed

lemma derive_entity_id_Some:
  "derive_entity_id h seed inst tc t seq = Some i \<longleftrightarrow>
     (\<exists>k<16. i \<noteq> 0 \<and> i = id_prefix h seed inst tc t seq (of_nat k)
        \<and> (\<forall>j<k. id_prefix h seed inst tc t seq (of_nat j) = 0))"
  by (simp add: derive_entity_id_def derive_loop_Some id_prefix_def MAX_ID_DERIVE_RETRIES_def)

lemma derive_entity_id_nonzero: "derive_entity_id h seed inst tc t seq = Some i \<Longrightarrow> i \<noteq> 0"
  by (auto simp: derive_entity_id_Some)

section \<open>Lemmas: frame of the operations\<close>

text \<open>\<^verbatim>\<open>ctx_le\<close>: the staged operations, the events and the id sequence only grow, and nothing else
of the context changes.\<close>

definition ctx_frame :: "'ext ctx \<Rightarrow> bytes \<times> instance_id \<times> tick \<times> 'ext principal \<times> caps \<times> actor_id option \<times>
    instance_view option \<times> idempotency_lookup_fn option \<times> handle_lookup_fn option" where
  "ctx_frame c = (world_seed c, instance_id c, cur_tick c, principal c, caps c, acting_actor c, view c,
     idempotency_index c, actor_handle_index c)"

definition ctx_le :: "'ext ctx \<Rightarrow> 'ext ctx \<Rightarrow> bool" where
  "ctx_le c c' \<longleftrightarrow> ctx_frame c' = ctx_frame c \<and> id_seq c \<le> id_seq c'
     \<and> (\<exists>ps. ops c' = ops c @ ps) \<and> (\<exists>es. events c' = events c @ es)"

lemma reflp_ctx_le: "reflp ctx_le"
  by (auto intro!: reflpI simp: ctx_le_def)

lemma transp_ctx_le: "transp ctx_le"
  by (rule transpI) (auto simp: ctx_le_def)

lemmas ctx_le_intros = preserves_intros[where R=ctx_le] reflp_ctx_le transp_ctx_le

lemma preserves_ctx_leI: "(\<And>c. ctx_le c (snd (m c))) \<Longrightarrow> preserves ctx_le m"
  by (simp add: preserves_def)

lemma le_checked_add: "checked_add s 1 = Some s' \<Longrightarrow> (s :: 'a::len word) \<le> s'"
  by (simp add: word_le_nat_alt unat_checked_add)

lemma preserves_next_id [simp]: "preserves ctx_le (next_id h tc)"
  by (rule preserves_ctx_leI)
     (auto simp: next_id_def ctx_le_def ctx_frame_def le_checked_add Let_def split: option.splits)

lemma preserves_emit_event [simp]: "preserves ctx_le (emit_event E ev)"
  by (rule preserves_ctx_leI)
     (auto simp: emit_event_def ctx_le_def ctx_frame_def split: option.splits)

lemma preserves_push_op [simp]: "preserves ctx_le (push_op p)"
  by (rule preserves_ctx_leI) (auto simp: push_op_def ctx_le_def ctx_frame_def)

lemma preserves_spawn [simp]: "preserves ctx_le (spawn_entity_for h C)"
  unfolding spawn_entity_for_def by (intro ctx_le_intros; simp)

lemma preserves_set_component [simp]: "preserves ctx_le (set_component C e x)"
  by (auto simp: set_component_def intro: ctx_le_intros split: option.splits)

lemma preserves_remove_component [simp]: "preserves ctx_le (remove_component C e n)"
  by (simp add: remove_component_def)

lemma preserves_ensure_schema_version [simp]: "preserves ctx_le (ensure_schema_version a b)"
  by (auto simp: ensure_schema_version_def intro: ctx_le_intros)

section \<open>Lemmas: evaluation of the operations\<close>

named_theorems ctx_eval \<open>evaluation of context operations on a given state\<close>

lemma ensure_schema_version_apply [ctx_eval]:
  "ensure_schema_version a b c = (if b = a then (Inr (), c) else (Inl (SchemaMismatch a b), c))"
  by (simp add: ensure_schema_version_def)

lemma push_op_apply [ctx_eval]: "push_op p c = (Inr (), c\<lparr>ops := ops c @ [p]\<rparr>)"
  by (simp add: push_op_def)

lemma next_id_ok:
  "next_id h tc c = (Inr i, c') \<longleftrightarrow>
     unat (id_seq c) < 2 ^ 32 - 1
     \<and> derive_entity_id h (world_seed c) (instance_id c) tc (cur_tick c) (id_seq c) = Some i
     \<and> c' = c\<lparr>id_seq := id_seq c + 1\<rparr>"
  by (auto simp: next_id_def Let_def checked_add_def split: option.splits if_splits)

lemma spawn_entity_for_ok:
  "spawn_entity_for h C c = (Inr i, c') \<longleftrightarrow>
     unat (id_seq c) < 2 ^ 32 - 1
     \<and> derive_entity_id h (world_seed c) (instance_id c) (TYPE_CODE C) (cur_tick c) (id_seq c) = Some i
     \<and> c' = c\<lparr>id_seq := id_seq c + 1, ops := ops c @ [SpawnEntity i (principal c)]\<rparr>"
  by (auto simp: spawn_entity_for_def bnd_Inr next_id_ok push_op_def)

lemma set_component_ok:
  "set_component C e x c = (Inr u, c') \<longleftrightarrow>
     (\<exists>bs. cd_enc (postcard C) x = Some bs
        \<and> c' = c\<lparr>ops := ops c @ [SetComponent e (TYPE_CODE C) bs (len_u64 bs)]\<rparr>)"
  by (auto simp: set_component_def push_op_def split: option.splits)

lemma emit_event_ok:
  "emit_event E ev c = (Inr u, c') \<longleftrightarrow>
     (\<exists>bs. cd_enc (postcard E) ev = Some bs
        \<and> c' = c\<lparr>event_seq := saturating_add (event_seq c) 1,
                 events := events c @ [\<lparr>er_type_code = TYPE_CODE E, er_sequence = event_seq c,
                                        er_tick = cur_tick c, er_payload = bs\<rparr>],
                 ops := ops c @ [EmitEvent None (TYPE_CODE E) bs]\<rparr>)"
  by (auto simp: emit_event_def split: option.splits)

text \<open>The preview agrees with the id the next spawn allocates, whenever that spawn succeeds.\<close>
lemma preview_agrees:
  "spawn_entity_for h C c = (Inr i, c') \<Longrightarrow> preview_next_id_for h C c = Inr i"
  by (simp add: spawn_entity_for_ok preview_next_id_for_def)

section \<open>Lemmas: staged reads\<close>

text \<open>The abstract meaning of the staged operations: the view they turn the bound view into.\<close>

fun apply_op_view :: "'ext op \<Rightarrow> instance_view \<Rightarrow> instance_view" where
  "apply_op_view (SetComponent e tc bs sz) v = v(e := (v e)(tc \<mapsto> bs))"
| "apply_op_view (RemoveComponent e tc sz) v = v(e := (v e)(tc := None))"
| "apply_op_view _ v = v"

definition base_view :: "'ext ctx \<Rightarrow> instance_view" where
  "base_view c = (case view c of None \<Rightarrow> (\<lambda>_ _. None) | Some v \<Rightarrow> v)"

definition staged_view :: "'ext ctx \<Rightarrow> instance_view" where
  "staged_view c = fold apply_op_view (ops c) (base_view c)"

definition decode_at :: "'c arkhe_type \<Rightarrow> entity_id \<Rightarrow> instance_view \<Rightarrow> unit + 'c option" where
  "decode_at C e v = (case v e (TYPE_CODE C) of None \<Rightarrow> Inr None
     | Some bs \<Rightarrow> (case cd_dec (postcard C) bs of None \<Rightarrow> Inl () | Some x \<Rightarrow> Inr (Some x)))"

definition forget_err :: "'e + 'a \<Rightarrow> unit + 'a" where
  "forget_err r = map_sum (\<lambda>_. ()) id r"

lemma forget_err_simps [simp]:
  "forget_err (Inl e) = Inl ()" "forget_err (Inr x) = Inr x"
  "forget_err r = Inr y \<longleftrightarrow> r = Inr y" "forget_err r = Inl u \<longleftrightarrow> (\<exists>e. r = Inl e)"
  by (auto simp: forget_err_def split: sum.splits) (cases r; simp)+

lemma read_decode_at: "forget_err (read C e c) = decode_at C e (base_view c)"
  by (auto simp: read_def decode_at_def base_view_def split: option.splits)

lemma staged_scan_spec:
  "(case staged_scan C e (rev ps) of Some r \<Rightarrow> forget_err r | None \<Rightarrow> decode_at C e v)
     = decode_at C e (fold apply_op_view ps v)"
proof (induction ps rule: rev_induct)
  case Nil then show ?case by simp
next
  case (snoc p ps)
  then show ?case
    by (cases p) (auto simp: decode_at_def split: option.splits)
qed

lemma staged_read_spec: "forget_err (staged_read C e c) = decode_at C e (staged_view c)"
  using staged_scan_spec[where C=C and e=e and ps="ops c" and v="base_view c"]
  by (auto simp: staged_read_def staged_view_def read_decode_at split: option.splits)

section \<open>Lemmas: the gate\<close>

lemma authenticated_actor_user_spec:
  "forget_err (authenticated_actor_user pc a c) =
     map_sum id (map_option ub_user_id) (decode_at (UserBinding pc) (actor_get a) (staged_view c))"
  unfolding staged_read_spec[symmetric] authenticated_actor_user_def
  by (cases "staged_read (UserBinding pc) (actor_get a) c") (auto simp: forget_err_def)

lemma user_gdpr_status_spec:
  "forget_err (user_gdpr_status pc u c) =
     map_sum id (map_option ugs_status) (decode_at (UserGdprState pc) (user_get u) (staged_view c))"
  unfolding staged_read_spec[symmetric] user_gdpr_status_def
  by (cases "staged_read (UserGdprState pc) (user_get u) c") (auto simp: forget_err_def)

text \<open>Who may act, read off the staged view: an actor without a binding, or one whose bound user
carries the lifecycle pointer \<^term>\<open>Active\<close>; undecodable bytes never let anyone act.\<close>

definition eligible :: "postcards \<Rightarrow> instance_view \<Rightarrow> actor_id \<Rightarrow> bool" where
  "eligible pc v a =
     (case decode_at (UserBinding pc) (actor_get a) v of
        Inl _ \<Rightarrow> False
      | Inr None \<Rightarrow> True
      | Inr (Some b) \<Rightarrow>
          (case decode_at (UserGdprState pc) (user_get (ub_user_id b)) v of
             Inr (Some s) \<Rightarrow> ugs_status s = Active | _ \<Rightarrow> False))"

lemma forget_err_eqD:
  "forget_err r = Inr y \<Longrightarrow> r = Inr y" "forget_err r = Inl u \<Longrightarrow> \<exists>e. r = Inl e"
  by simp_all

lemma ensure_actor_eligible_ok:
  "ensure_actor_eligible pc a t c = Inr u \<longleftrightarrow> eligible pc (staged_view c) a"
proof (cases "decode_at (UserBinding pc) (actor_get a) (staged_view c)")
  case (Inl e)
  then obtain e' where "authenticated_actor_user pc a c = Inl e'"
    using authenticated_actor_user_spec[of pc a c] by auto
  then show ?thesis using Inl by (simp add: ensure_actor_eligible_def eligible_def)
next
  case (Inr b)
  then have au: "authenticated_actor_user pc a c = Inr (map_option ub_user_id b)"
    using authenticated_actor_user_spec[of pc a c] by simp
  show ?thesis
  proof (cases b)
    case None
    then show ?thesis using Inr au by (simp add: ensure_actor_eligible_def eligible_def)
  next
    case (Some bind)
    let ?u = "ub_user_id bind"
    show ?thesis
    proof (cases "decode_at (UserGdprState pc) (user_get ?u) (staged_view c)")
      case (Inl e)
      then obtain e' where "user_gdpr_status pc ?u c = Inl e'"
        using user_gdpr_status_spec[of pc ?u c] by auto
      then show ?thesis using Inr Some Inl au by (simp add: ensure_actor_eligible_def eligible_def)
    next
      case Gs: (Inr s)
      then have "user_gdpr_status pc ?u c = Inr (map_option ugs_status s)"
        using user_gdpr_status_spec[of pc ?u c] by simp
      then show ?thesis using Inr Some Gs au
        by (auto simp: ensure_actor_eligible_def eligible_def split: option.splits gdpr_status.splits)
    qed
  qed
qed

text \<open>The error the gate reports, in terms of the staged view.\<close>
lemma ensure_actor_eligible_pending:
  assumes "decode_at (UserBinding pc) (actor_get a) (staged_view c) = Inr (Some b)"
    and "decode_at (UserGdprState pc) (user_get (ub_user_id b)) (staged_view c) = Inr (Some s)"
    and "ugs_status s \<noteq> Active"
  shows "ensure_actor_eligible pc a t c = Inl (UserErasurePending (ub_user_id b) t)"
proof -
  have "authenticated_actor_user pc a c = Inr (Some (ub_user_id b))"
    using authenticated_actor_user_spec[of pc a c] assms(1) by simp
  moreover have "user_gdpr_status pc (ub_user_id b) c = Inr (Some (ugs_status s))"
    using user_gdpr_status_spec[of pc "ub_user_id b" c] assms(2) by simp
  ultimately show ?thesis using assms(3)
    by (cases "ugs_status s") (simp_all add: ensure_actor_eligible_def)
qed

lemma ensure_actor_eligible_unresolved:
  assumes "decode_at (UserBinding pc) (actor_get a) (staged_view c) = Inr (Some b)"
    and "decode_at (UserGdprState pc) (user_get (ub_user_id b)) (staged_view c) = Inr None"
  shows "ensure_actor_eligible pc a t c = Inl (UserLifecycleUnresolved (ub_user_id b))"
proof -
  have "authenticated_actor_user pc a c = Inr (Some (ub_user_id b))"
    using authenticated_actor_user_spec[of pc a c] assms(1) by simp
  moreover have "user_gdpr_status pc (ub_user_id b) c = Inr None"
    using user_gdpr_status_spec[of pc "ub_user_id b" c] assms(2) by simp
  ultimately show ?thesis by (simp add: ensure_actor_eligible_def)
qed

lemma staged_read_Inl:
  "staged_read C e c = Inl x \<Longrightarrow>
     x = InvalidInput ''component decode failed'' \<or> x = InvalidInput ''staged component decode failed''"
proof -
  have "staged_scan C e ps = Some (Inl x) \<Longrightarrow> x = InvalidInput ''staged component decode failed''" for ps
    by (induction C e ps rule: staged_scan.induct) (auto split: if_splits option.splits)
  moreover have "read C e c = Inl x \<Longrightarrow> x = InvalidInput ''component decode failed''"
    by (auto simp: read_def split: option.splits)
  ultimately show "staged_read C e c = Inl x \<Longrightarrow> ?thesis"
    by (auto simp: staged_read_def split: option.splits)
qed

text \<open>Undecodable bytes surface as an input error.\<close>
lemma ensure_actor_eligible_decode:
  "decode_at (UserBinding pc) (actor_get a) (staged_view c) = Inl x \<Longrightarrow>
     \<exists>m. ensure_actor_eligible pc a t c = Inl (InvalidInput m)"
  "decode_at (UserBinding pc) (actor_get a) (staged_view c) = Inr (Some b) \<Longrightarrow>
     decode_at (UserGdprState pc) (user_get (ub_user_id b)) (staged_view c) = Inl x \<Longrightarrow>
     \<exists>m. ensure_actor_eligible pc a t c = Inl (InvalidInput m)"
  by (auto simp: staged_read_spec[symmetric] ensure_actor_eligible_def authenticated_actor_user_def
      user_gdpr_status_def) (metis staged_read_Inl)+

text \<open>Without a view and without staged operations nothing is bound: the gate soft-passes.\<close>
lemma staged_view_viewless [simp]: "view c = None \<Longrightarrow> ops c = [] \<Longrightarrow> staged_view c = (\<lambda>_ _. None)"
  by (simp add: staged_view_def base_view_def)

lemma eligible_empty [simp]: "eligible pc (\<lambda>_ _. None) a"
  by (simp add: eligible_def decode_at_def)

section \<open>Properties\<close>

lemma next_id_Some_prefix:
  assumes "next_id h tc c = (Inr i, c')"
  shows "\<exists>k<16. i \<noteq> 0 \<and> i = id_prefix h (world_seed c) (instance_id c) tc (cur_tick c) (id_seq c) (of_nat k)"
  using assms by (auto simp: next_id_ok derive_entity_id_Some)

text \<open>C31: id allocation. A successful \<^verbatim>\<open>next_id\<close> yields a non-zero id, advances the sequence by one
without wrapping and agrees with the preview. It and any later allocation of the same computation read their ids off the
digests of two messages of instance, type code, tick, sequence number and retry, under the key derived from the world seed;
the two messages differ (the sequence number of the later one is larger, the retry never folds into it), so the two ids can
coincide only if the digests of these two messages share their first eight bytes.\<close>
theorem next_id_allocation:
  assumes "next_id h (TYPE_CODE C) c = (Inr i, c1)" "ctx_le c1 c2" "next_id h tc' c2 = (Inr j, c3)"
  shows "i \<noteq> 0 \<and> preview_next_id_for h C c = Inr i
    \<and> unat (id_seq c1) = unat (id_seq c) + 1
    \<and> unat (id_seq c) < unat (id_seq c2)
    \<and> (\<exists>k<16. \<exists>l<16.
         let m = id_message (instance_id c) (TYPE_CODE C) (cur_tick c) (id_seq c) (of_nat k);
             m' = id_message (instance_id c) tc' (cur_tick c) (id_seq c2) (of_nat l);
             key = derive_key h ''arkhe-forge-entity-id'' (world_seed c)
         in m \<noteq> m' \<and> i = from_be (take 8 (keyed_hash h key m)) \<and> j = from_be (take 8 (keyed_hash h key m')))"
proof -
  from assms(1) have n1: "unat (id_seq c) < 2 ^ 32 - 1" "c1 = c\<lparr>id_seq := id_seq c + 1\<rparr>"
    by (simp_all add: next_id_ok)
  have s1: "unat (id_seq c1) = unat (id_seq c) + 1"
    using n1 by (simp add: unat_plus_if')
  have le: "unat (id_seq c1) \<le> unat (id_seq c2)" "world_seed c2 = world_seed c" "instance_id c2 = instance_id c" "cur_tick c2 = cur_tick c"
    using assms(2) n1(2) by (auto simp: ctx_le_def ctx_frame_def word_le_nat_alt)
  obtain k where k: "k < 16" "i \<noteq> 0"
    "i = id_prefix h (world_seed c) (instance_id c) (TYPE_CODE C) (cur_tick c) (id_seq c) (of_nat k)"
    using next_id_Some_prefix[OF assms(1)] by blast
  obtain l where l: "l < 16"
    "j = id_prefix h (world_seed c) (instance_id c) tc' (cur_tick c) (id_seq c2) (of_nat l)"
    using next_id_Some_prefix[OF assms(3)] le(2-4) by auto
  have ne: "id_message (instance_id c) (TYPE_CODE C) (cur_tick c) (id_seq c) (of_nat k)
      \<noteq> id_message (instance_id c) tc' (cur_tick c) (id_seq c2) (of_nat l)"
    using s1 le(1) by (auto simp: id_message_inject)
  have "preview_next_id_for h C c = Inr i"
    using assms(1) by (simp add: next_id_ok preview_next_id_for_def)
  moreover have "\<exists>k<16. \<exists>l<16.
         let m = id_message (instance_id c) (TYPE_CODE C) (cur_tick c) (id_seq c) (of_nat k);
             m' = id_message (instance_id c) tc' (cur_tick c) (id_seq c2) (of_nat l);
             key = derive_key h ''arkhe-forge-entity-id'' (world_seed c)
         in m \<noteq> m' \<and> i = from_be (take 8 (keyed_hash h key m)) \<and> j = from_be (take 8 (keyed_hash h key m'))"
    unfolding Let_def
    by (rule exI[of _ k], rule conjI[OF k(1)], rule exI[of _ l], rule conjI[OF l(1)], rule conjI[OF ne])
      (use k(3) l(2) in \<open>simp add: id_prefix_def\<close>)
  ultimately show ?thesis using k(2) s1 le(1) by simp
qed

definition demo_hash :: blake3 where
  "demo_hash = \<lparr>derive_key = (\<lambda>_ k. k),
     keyed_hash = (\<lambda>_ m. take 4 (drop 8 m) @ take 4 (drop 20 m) @ replicate 24 0)\<rparr>"

definition demo_ctx :: "unit ctx" where
  "demo_ctx = ActionContext_new (replicate 32 0) 1 5 System 1"

lemma demo_derive:
  "derive_entity_id demo_hash (replicate 32 0) 1 0x00030001 5 0 = Some 0x0003000100000000"
  "derive_entity_id demo_hash (replicate 32 0) 1 0x00030101 5 0 = Some 0x0003010100000000"
  "derive_entity_id demo_hash (replicate 32 0) 1 0x00030101 5 1 = Some 0x0003010100000001"
  "derive_entity_id demo_hash (replicate 32 0) 1 0x00030201 5 0 = Some 0x0003020100000000"
  "derive_entity_id demo_hash (replicate 32 0) 1 0x00030401 5 0 = Some 0x0003040100000000"
  by code_simp+

lemma next_id_allocation_witness:
  "preview_next_id_for demo_hash (UserProfile demo_pc) demo_ctx = Inr 0x0003000100000000"
proof -
  have 1: "next_id demo_hash (TYPE_CODE (UserProfile demo_pc)) demo_ctx
      = (Inr 0x0003000100000000, demo_ctx\<lparr>id_seq := 1\<rparr>)"
    by (simp add: next_id_ok demo_ctx_def ActionContext_new_def demo_derive UserProfile_def)
  have 2: "next_id demo_hash 0x00030101 (demo_ctx\<lparr>id_seq := 1\<rparr>)
      = (Inr 0x0003010100000001, demo_ctx\<lparr>id_seq := 2\<rparr>)"
    by (simp add: next_id_ok demo_ctx_def ActionContext_new_def demo_derive)
  have "ctx_le (demo_ctx\<lparr>id_seq := 1\<rparr>) (demo_ctx\<lparr>id_seq := 1\<rparr>)"
    by (simp add: reflpD[OF reflp_ctx_le])
  from next_id_allocation[OF 1 this 2] show ?thesis by blast
qed

text \<open>C19: a staged read is a plain read of the state the staged operations lead to: for every
context it gives the same value (or fails on both sides) as reading, with nothing staged, from the
view in which all accumulated operations have been applied in order.\<close>
theorem staged_read_refines_view:
  "forget_err (staged_read C e c)
     = forget_err (read C e (c\<lparr>ops := [], view := Some (fold apply_op_view (ops c) (base_view c))\<rparr>))"
  by (simp add: staged_read_spec read_decode_at staged_view_def base_view_def)

text \<open>The erasure gate. It lets an actor act exactly when the actor has no binding or its user's
lifecycle pointer says Active; it reports an erasure exactly for a bound user whose pointer says
anything else, with the tick it was given, and an unresolved lifecycle exactly for a bound user
without a pointer; every other outcome is a decode failure.\<close>
theorem eligibility_gate:
  "(ensure_actor_eligible pc a t c = Inr () \<longleftrightarrow> eligible pc (staged_view c) a)
   \<and> (ensure_actor_eligible pc a t c = Inl (UserErasurePending u t') \<longleftrightarrow>
        t' = t \<and> (\<exists>b s. decode_at (UserBinding pc) (actor_get a) (staged_view c) = Inr (Some b)
          \<and> u = ub_user_id b
          \<and> decode_at (UserGdprState pc) (user_get u) (staged_view c) = Inr (Some s)
          \<and> ugs_status s \<noteq> Active))
   \<and> (ensure_actor_eligible pc a t c = Inl (UserLifecycleUnresolved u) \<longleftrightarrow>
        (\<exists>b. decode_at (UserBinding pc) (actor_get a) (staged_view c) = Inr (Some b)
          \<and> u = ub_user_id b
          \<and> decode_at (UserGdprState pc) (user_get u) (staged_view c) = Inr None))"
  (is "?ok \<and> ?pending \<and> ?unresolved")
proof -
  let ?B = "decode_at (UserBinding pc) (actor_get a) (staged_view c)"
  let ?G = "\<lambda>u. decode_at (UserGdprState pc) (user_get u) (staged_view c)"
  have ok: ?ok by (rule ensure_actor_eligible_ok)
  consider (corrupt) x where "?B = Inl x" | (none) "?B = Inr None"
    | (gcorrupt) b x where "?B = Inr (Some b)" "?G (ub_user_id b) = Inl x"
    | (gnone) b where "?B = Inr (Some b)" "?G (ub_user_id b) = Inr None"
    | (gsome) b s where "?B = Inr (Some b)" "?G (ub_user_id b) = Inr (Some s)"
    by (metis sum.exhaust option.exhaust)
  then have "?pending \<and> ?unresolved"
  proof cases
    case corrupt
    then have "\<exists>m. ensure_actor_eligible pc a t c = Inl (InvalidInput m)"
      using ensure_actor_eligible_decode(1) by blast
    then show ?thesis using corrupt by auto
  next
    case none
    then have "ensure_actor_eligible pc a t c = Inr ()" using ok by (simp add: eligible_def)
    then show ?thesis using none by auto
  next
    case gcorrupt
    then have "\<exists>m. ensure_actor_eligible pc a t c = Inl (InvalidInput m)"
      using ensure_actor_eligible_decode(2) by blast
    then show ?thesis using gcorrupt by auto
  next
    case gnone
    then show ?thesis using ensure_actor_eligible_unresolved[OF gnone] by auto
  next
    case gsome
    then show ?thesis using ok ensure_actor_eligible_pending[OF gsome]
      by (cases "ugs_status s = Active") (auto simp: eligible_def)
  qed
  then show ?thesis using ok by blast
qed

end
