(* ===== verification/Event.thy ===== *)
theory Event
  imports Data_Model
begin

text \<open>The core event catalog of \<^verbatim>\<open>arkhe-forge-core/src/event.rs\<close>: support types, the twelve
event payloads with their pinned codes and schema versions, and the length-sealed
\<^verbatim>\<open>Attestation\<close> with its serde admission check.\<close>

section \<open>Support types\<close>

record sem_ver =
  sv_major :: u16
  sv_minor :: u16
  sv_patch :: u16

definition SemVer_new :: "u16 \<Rightarrow> u16 \<Rightarrow> u16 \<Rightarrow> sem_ver" where
  "SemVer_new a b c = \<lparr>sv_major = a, sv_minor = b, sv_patch = c\<rparr>"

datatype runtime_signature_class = RSC_None | RSC_Ed25519 | RSC_MlDsa65 | RSC_Hybrid

definition from_manifest_str :: "string \<Rightarrow> runtime_signature_class option" where
  "from_manifest_str s =
     (if s = ''none'' then Some RSC_None
      else if s = ''ed25519'' then Some RSC_Ed25519
      else if s = ''ml-dsa-65'' then Some RSC_MlDsa65
      else if s = ''hybrid'' then Some RSC_Hybrid
      else None)"

datatype compliance_tier = Tier0 | Tier1 | Tier2

datatype progress_scope = ScopeRegion bounded_string | ScopeKmsIdentifier bounded_string

section \<open>Attestation\<close>

datatype attestation = Attestation (att_inner: bytes)

definition attestation_ok :: "attestation \<Rightarrow> bool" where
  "attestation_ok a \<longleftrightarrow> length (att_inner a) = 64"

text \<open>\<^verbatim>\<open>from_bytes\<close> takes a \<^verbatim>\<open>[u8; 64]\<close>: the argument has length 64 by its type.\<close>
definition Attestation_from_bytes :: "bytes \<Rightarrow> attestation" where
  "Attestation_from_bytes b = Attestation b"

definition Attestation_serialize :: "bytes codec \<Rightarrow> attestation \<Rightarrow> bytes option" where
  "Attestation_serialize vec_codec a = cd_enc vec_codec (att_inner a)"

definition Attestation_deserialize :: "bytes codec \<Rightarrow> bytes \<Rightarrow> attestation option" where
  "Attestation_deserialize vec_codec bs =
     (case cd_dec vec_codec bs of None \<Rightarrow> None
      | Some inner \<Rightarrow> if length inner \<noteq> 64 then None else Some (Attestation inner))"

datatype attestation_signer_policy = Predecessor | OperatorRoot | SelfSigned

section \<open>Payloads\<close>

record runtime_bootstrap =
  rb_schema_version :: u16
  rb_l0_semver :: sem_ver
  rb_runtime_semver :: sem_ver
  rb_manifest_digest :: bytes
  rb_typecode_pins :: "type_code list"
  rb_bootstrap_tick :: tick

record user_erasure_completed =
  uec_schema_version :: u16
  uec_user :: user_id
  uec_dek_shred_tick :: tick
  uec_attestation_class :: runtime_signature_class
  uec_attestation_bytes :: bytes
  uec_transparency_log_index :: u64

record backup_erasure_propagated =
  bep_schema_version :: u16
  bep_user :: user_id
  bep_region :: bounded_string
  bep_applied_tick :: tick
  bep_receipt_class :: runtime_signature_class
  bep_receipt_bytes :: bytes

record gdpr_policy_violation =
  gpv_schema_version :: u16
  gpv_actor :: actor_id
  gpv_attempted_tick :: tick
  gpv_action_type_code :: type_code

record signature_class_policy =
  scp_schema_version :: u16
  scp_shell_id :: shell_id
  scp_class :: runtime_signature_class
  scp_effective_tick :: tick

record cross_shell_activity =
  csa_schema_version :: u16
  csa_actor :: actor_id
  csa_target_shell_id :: shell_id
  csa_record_shell_id :: shell_id
  csa_detected_tick :: tick

record per_region_erasure_progress =
  prep_schema_version :: u16
  prep_user :: user_id
  prep_scope :: progress_scope
  prep_shred_tick :: tick
  prep_attestation_class :: runtime_signature_class
  prep_attestation_bytes :: bytes

record dek_migration_completed =
  dmg_schema_version :: u16
  dmg_user :: user_id
  dmg_old_dek_id :: dek_id
  dmg_new_dek_id :: dek_id
  dmg_migrated_tick :: tick

text \<open>The operator's kernel identity (\<^verbatim>\<open>ExternalId\<close>) is a type parameter.\<close>
record 'ext compliance_tier_change =
  ctc_schema_version :: u16
  ctc_old_tier :: compliance_tier
  ctc_new_tier :: compliance_tier
  ctc_effective_tick :: tick
  ctc_operator :: 'ext

record replica_id_allocation =
  ria_schema_version :: u16
  ria_federation_id :: bytes
  ria_replica_id :: u64
  ria_allocation_nonce :: u32
  ria_effective_tick :: tick
  ria_registry_attestation :: attestation

record audit_receipt_key_policy =
  arkp_schema_version :: u16
  arkp_key_id :: bytes
  arkp_algorithm :: runtime_signature_class
  arkp_public_key :: bytes
  arkp_predecessor_key_id :: "bytes option"
  arkp_effective_tick :: tick
  arkp_retirement_tick :: "tick option"
  arkp_signer_policy :: attestation_signer_policy
  arkp_attestation :: attestation
  arkp_attestation_pqc :: "bytes option"

section \<open>Lemmas\<close>

lemma Attestation_roundtrip:
  assumes "codec_ok c" "Attestation_serialize c a = Some bs"
  shows "Attestation_deserialize c bs = (if attestation_ok a then Some a else None)"
  using assms codec_okD[of c "att_inner a" bs]
  by (auto simp: Attestation_serialize_def Attestation_deserialize_def attestation_ok_def)

lemma Attestation_deserialize_ok: "Attestation_deserialize c bs = Some a \<Longrightarrow> attestation_ok a"
  by (auto simp: Attestation_deserialize_def attestation_ok_def split: option.splits if_splits)

lemma from_manifest_str_Some:
  "from_manifest_str s = Some c \<longleftrightarrow>
     (s, c) \<in> {(''none'', RSC_None), (''ed25519'', RSC_Ed25519), (''ml-dsa-65'', RSC_MlDsa65),
               (''hybrid'', RSC_Hybrid)}"
  by (auto simp: from_manifest_str_def)

end
