(* ===== verification/Manifest.thy ===== *)
theory Manifest
  imports Context Event
begin

text \<open>The shell manifest of \<^verbatim>\<open>arkhe-forge-platform/src/manifest.rs\<close>: sections, errors, the
validator, the version parser, the loader with its digest, and the bootstrap event.  The TOML crate
is a parameter (parser and printer, with their error texts); UTF-8 validation and integer parsing
are the Rust standard library's and are modelled.\<close>

section \<open>Standard library: decimal numbers and UTF-8\<close>

definition digit_char :: "nat \<Rightarrow> char" where "digit_char d = char_of (48 + d)"

fun nat_dec :: "nat \<Rightarrow> string" where
  "nat_dec n = (if n < 10 then [digit_char n] else nat_dec (n div 10) @ [digit_char (n mod 10)])"
declare nat_dec.simps [simp del]

definition to_digit :: "char \<Rightarrow> nat option" where
  "to_digit c = (let v = of_char c :: nat in if 48 \<le> v \<and> v \<le> 57 then Some (v - 48) else None)"

text \<open>\<^verbatim>\<open>u16::from_str\<close>: an optional plus sign, then at least one digit, overflow checked at each
digit.\<close>
fun digits_u16 :: "nat \<Rightarrow> string \<Rightarrow> u16 option" where
  "digits_u16 acc [] = Some (of_nat acc)"
| "digits_u16 acc (c # cs) =
     (case to_digit c of None \<Rightarrow> None
      | Some d \<Rightarrow> if acc * 10 + d < 2 ^ 16 then digits_u16 (acc * 10 + d) cs else None)"

definition parse_u16 :: "string \<Rightarrow> u16 option" where
  "parse_u16 s =
     (case s of [] \<Rightarrow> None
      | c # cs \<Rightarrow> if c = CHR ''+'' then (if cs = [] then None else digits_u16 0 cs) else digits_u16 0 s)"

definition is_cont :: "u8 \<Rightarrow> bool" where
  "is_cont b \<longleftrightarrow> 0x80 \<le> b \<and> b \<le> 0xBF"

definition second_of_3 :: "u8 \<Rightarrow> u8 \<Rightarrow> bool" where
  "second_of_3 a b \<longleftrightarrow>
     (a = 0xE0 \<and> 0xA0 \<le> b \<and> b \<le> 0xBF) \<or> (0xE1 \<le> a \<and> a \<le> 0xEC \<and> is_cont b)
     \<or> (a = 0xED \<and> 0x80 \<le> b \<and> b \<le> 0x9F) \<or> (0xEE \<le> a \<and> a \<le> 0xEF \<and> is_cont b)"

definition second_of_4 :: "u8 \<Rightarrow> u8 \<Rightarrow> bool" where
  "second_of_4 a b \<longleftrightarrow>
     (a = 0xF0 \<and> 0x90 \<le> b \<and> b \<le> 0xBF) \<or> (0xF1 \<le> a \<and> a \<le> 0xF3 \<and> is_cont b)
     \<or> (a = 0xF4 \<and> 0x80 \<le> b \<and> b \<le> 0x8F)"

text \<open>One further byte of a sequence: missing, wrong after \<^verbatim>\<open>k\<close> good bytes, or fine.\<close>
definition need :: "(u8 \<Rightarrow> bool) \<Rightarrow> nat \<Rightarrow> bytes \<Rightarrow> (bytes \<Rightarrow> nat option + bytes) \<Rightarrow> nat option + bytes" where
  "need ok k bs f = (case bs of [] \<Rightarrow> Inl None | b # r \<Rightarrow> if ok b then f r else Inl (Some k))"

definition utf8_next :: "u8 \<Rightarrow> bytes \<Rightarrow> nat option + bytes" where
  "utf8_next a bs =
     (if a < 0x80 then Inr bs
      else if 0xC2 \<le> a \<and> a \<le> 0xDF then need is_cont 1 bs Inr
      else if 0xE0 \<le> a \<and> a \<le> 0xEF then need (second_of_3 a) 1 bs (\<lambda>r. need is_cont 2 r Inr)
      else if 0xF0 \<le> a \<and> a \<le> 0xF4 then
        need (second_of_4 a) 1 bs (\<lambda>r. need is_cont 2 r (\<lambda>r. need is_cont 3 r Inr))
      else Inl (Some 1))"

lemma need_length: "need ok k bs f = Inr r \<Longrightarrow> (\<And>x y. f x = Inr y \<Longrightarrow> length y \<le> length x) \<Longrightarrow> length r \<le> length bs"
  by (fastforce simp: need_def split: list.splits if_splits)

lemma utf8_next_length: "utf8_next a bs = Inr r \<Longrightarrow> length r \<le> length bs"
  by (auto simp: utf8_next_def split: if_splits elim!: need_length)

function utf8_check :: "nat \<Rightarrow> bytes \<Rightarrow> (nat \<times> nat option) option" where
  "utf8_check i [] = None"
| "utf8_check i (b # bs) =
     (case utf8_next b bs of
        Inl e \<Rightarrow> Some (i, e)
      | Inr r \<Rightarrow> utf8_check (i + (Suc (length bs) - length r)) r)"
  by pat_completeness auto
termination by (relation "measure (\<lambda>(_, bs). length bs)") (auto dest: utf8_next_length simp: le_imp_less_Suc)

definition str_bytes :: "string \<Rightarrow> bytes" where "str_bytes = map of_char"
definition bytes_str :: "bytes \<Rightarrow> string" where "bytes_str = map (\<lambda>b. char_of (unat b))"

definition utf8_error_display :: "nat \<times> nat option \<Rightarrow> string" where
  "utf8_error_display e =
     (case e of
        (i, Some n) \<Rightarrow> ''invalid utf-8 sequence of '' @ nat_dec n @ '' bytes from index '' @ nat_dec i
      | (i, None) \<Rightarrow> ''incomplete utf-8 byte sequence from index '' @ nat_dec i)"

definition from_utf8 :: "bytes \<Rightarrow> (nat \<times> nat option) + string" where
  "from_utf8 bs = (case utf8_check 0 bs of None \<Rightarrow> Inr (bytes_str bs) | Some e \<Rightarrow> Inl e)"

section \<open>Sections\<close>

record shell_section =
  sh_shell_id :: string
  sh_display_name :: string

record runtime_section =
  rt_runtime_max :: string
  rt_runtime_current :: string

record audit_section =
  au_pii_cipher :: string
  au_dek_backend :: string
  au_kms_auto_promote :: string
  au_signature_class :: string
  au_compliance_tier :: u8

record frontend_section =
  fr_tls_required :: bool
  fr_alpha_credential_rotation_required :: bool

definition FrontendSection_default :: frontend_section where
  "FrontendSection_default = \<lparr>fr_tls_required = True, fr_alpha_credential_rotation_required = True\<rparr>"

record manifest_snapshot =
  ms_schema_version :: u16
  ms_shell :: shell_section
  ms_runtime :: runtime_section
  ms_audit :: audit_section
  ms_frontend :: frontend_section

datatype manifest_error =
    ParseError string
  | MissingRequired string
  | TierBackendMismatch u8 string
  | SoftwareKekProductionRefused string
  | VersionMismatch
  | UnknownField string
  | InvalidValue (iv_field: string) (iv_reason: string)

section \<open>Versions\<close>

type_synonym version = "u16 \<times> u16 \<times> u16"

text \<open>\<^verbatim>\<open>splitn(3, '.')\<close>: up to three parts, the last one unsplit.\<close>
fun split_dot :: "string \<Rightarrow> string \<times> string option" where
  "split_dot [] = ([], None)"
| "split_dot (c # cs) =
     (if c = CHR ''.'' then ([], Some cs) else (let (a, r) = split_dot cs in (c # a, r)))"

definition splitn3 :: "string \<Rightarrow> string list" where
  "splitn3 s =
     (case split_dot s of
        (a, None) \<Rightarrow> [a]
      | (a, Some s') \<Rightarrow> (case split_dot s' of (b, None) \<Rightarrow> [a, b] | (b, Some p) \<Rightarrow> [a, b, p]))"

definition parse_version :: "string \<Rightarrow> version option" where
  "parse_version s =
     (case splitn3 s of
        a # b # rest \<Rightarrow>
          (case parse_u16 a of None \<Rightarrow> None
           | Some major \<Rightarrow> (case parse_u16 b of None \<Rightarrow> None
             | Some minor \<Rightarrow>
               (case rest of
                  [] \<Rightarrow> Some (major, minor, 0)
                | p # _ \<Rightarrow> (case parse_u16 p of None \<Rightarrow> None | Some patch \<Rightarrow> Some (major, minor, patch)))))
      | _ \<Rightarrow> None)"

definition version_less :: "version \<Rightarrow> version \<Rightarrow> bool" where
  "version_less v w = (case (v, w) of ((a, b, c), (x, y, z)) \<Rightarrow> a < x \<or> a = x \<and> (b < y \<or> b = y \<and> c < z))"

section \<open>Loader\<close>

record toml =
  toml_from_str :: "string \<Rightarrow> string + manifest_snapshot"
  toml_to_string :: "manifest_snapshot \<Rightarrow> string + string"

definition check_tier_backend :: "u8 \<Rightarrow> string \<Rightarrow> manifest_error + unit" where
  "check_tier_backend tier backend =
     (if tier = 0 then if backend = ''software-kek'' then Inr () else Inl (TierBackendMismatch 0 backend)
      else if tier = 1 \<or> tier = 2 then
        if backend = ''software-kek'' then Inl (TierBackendMismatch tier ''software-kek'') else Inr ()
      else Inl (InvalidValue ''audit.compliance_tier'' (''unsupported tier '' @ nat_dec (unat tier))))"

definition validate :: "manifest_snapshot \<Rightarrow> manifest_error + unit" where
  "validate m =
     (if length (sh_shell_id (ms_shell m)) > 32 then
        Inl (InvalidValue ''shell.shell_id''
          (''length '' @ nat_dec (length (sh_shell_id (ms_shell m))) @ '' > 32''))
      else
      case parse_version (rt_runtime_current (ms_runtime m)) of
        None \<Rightarrow> Inl (InvalidValue ''runtime.runtime_current''
                  (''not a 'M.N' or 'M.N.P' semver: '' @ rt_runtime_current (ms_runtime m)))
      | Some current \<Rightarrow>
      case parse_version (rt_runtime_max (ms_runtime m)) of
        None \<Rightarrow> Inl (InvalidValue ''runtime.runtime_max''
                  (''not a 'M.N' or 'M.N.P' semver: '' @ rt_runtime_max (ms_runtime m)))
      | Some mx \<Rightarrow>
      if version_less mx current then Inl VersionMismatch
      else
      case check_tier_backend (au_compliance_tier (ms_audit m)) (au_dek_backend (ms_audit m)) of
        Inl e \<Rightarrow> Inl e
      | Inr _ \<Rightarrow>
      if au_dek_backend (ms_audit m) = ''software-kek''
         \<and> (fst current > 0 \<or> fst current = 0 \<and> fst (snd current) > 15)
      then Inl (SoftwareKekProductionRefused (rt_runtime_current (ms_runtime m)))
      else
      case from_manifest_str (au_signature_class (ms_audit m)) of
        None \<Rightarrow> Inl (InvalidValue ''audit.signature_class''
                  (''unknown signature class '' @ au_signature_class (ms_audit m)))
      | Some _ \<Rightarrow> Inr ())"

definition DIGEST_DOMAIN :: string where "DIGEST_DOMAIN = ''arkhe-forge-manifest-digest''"

definition canonical_digest :: "blake3 \<Rightarrow> toml \<Rightarrow> manifest_snapshot \<Rightarrow> manifest_error + bytes" where
  "canonical_digest h T m =
     (case toml_to_string T m of
        Inl e \<Rightarrow> Inl (ParseError (''toml serialize: '' @ e))
      | Inr canonical \<Rightarrow> Inr (keyed_hash h (derive_key h DIGEST_DOMAIN []) (str_bytes canonical)))"

definition load :: "blake3 \<Rightarrow> toml \<Rightarrow> bytes \<Rightarrow> manifest_error + (manifest_snapshot \<times> bytes)" where
  "load h T toml_bytes =
     (case from_utf8 toml_bytes of
        Inl e \<Rightarrow> Inl (ParseError (''utf-8: '' @ utf8_error_display e))
      | Inr text \<Rightarrow>
      case toml_from_str T text of
        Inl e \<Rightarrow> Inl (ParseError e)
      | Inr snapshot \<Rightarrow>
      case validate snapshot of
        Inl e \<Rightarrow> Inl e
      | Inr _ \<Rightarrow>
      case canonical_digest h T snapshot of
        Inl e \<Rightarrow> Inl e
      | Inr digest \<Rightarrow> Inr (snapshot, digest))"

definition RuntimeBootstrap :: "runtime_bootstrap codec \<Rightarrow> runtime_bootstrap arkhe_type" where
  "RuntimeBootstrap pc = \<lparr>TYPE_CODE = RUNTIME_BOOTSTRAP, SCHEMA_VERSION = 1, postcard = pc\<rparr>"

definition emit_runtime_bootstrap ::
  "runtime_bootstrap codec \<Rightarrow> bytes \<Rightarrow> sem_ver \<Rightarrow> sem_ver \<Rightarrow> type_code list \<Rightarrow> tick \<Rightarrow> ('ext, unit) ctx_act" where
  "emit_runtime_bootstrap pc digest l0_semver runtime_semver typecode_pins bootstrap_tick =
     emit_event (RuntimeBootstrap pc)
       \<lparr>rb_schema_version = 1, rb_l0_semver = l0_semver, rb_runtime_semver = runtime_semver,
        rb_manifest_digest = digest, rb_typecode_pins = typecode_pins, rb_bootstrap_tick = bootstrap_tick\<rparr>"

section \<open>Decimal round trip\<close>

lemma to_digit_char: "d < 10 \<Longrightarrow> to_digit (digit_char d) = Some d"
  by (simp add: to_digit_def digit_char_def Let_def)

lemma digit_char_plain: "d < 10 \<Longrightarrow> digit_char d \<noteq> CHR ''.'' \<and> digit_char d \<noteq> CHR ''+''"
  by (auto simp: to_digit_def dest!: to_digit_char)

lemma digits_u16_nat_dec:
  "n < 2 ^ 16 \<Longrightarrow> digits_u16 0 (nat_dec n @ rest) = digits_u16 n rest"
proof (induction n arbitrary: rest rule: nat_dec.induct)
  case (1 n)
  have IH: "digits_u16 0 (nat_dec (n div 10) @ r) = digits_u16 (n div 10) r" if "\<not> n < 10" for r
    using 1 that by auto
  have "n div 10 * 10 + n mod 10 = n" by simp
  then show ?case
    using 1(2) IH by (subst nat_dec.simps) (auto simp: to_digit_char)
qed

lemma nat_dec_plain: "c \<in> set (nat_dec n) \<Longrightarrow> c \<noteq> CHR ''.'' \<and> c \<noteq> CHR ''+''"
proof (induction n arbitrary: c rule: nat_dec.induct)
  case (1 n)
  show ?case
    using 1(2) 1(1)[of c] digit_char_plain[of n] digit_char_plain[of "n mod 10"]
    by (subst (asm) nat_dec.simps) (auto split: if_splits)
qed

lemma nat_dec_ne [simp]: "nat_dec n \<noteq> []"
  by (subst nat_dec.simps) auto

lemma parse_u16_nat_dec: "parse_u16 (nat_dec (unat w)) = Some w"
proof -
  have "unat w < 2 ^ LENGTH(16)" by (rule unsigned_less)
  then have "unat w < 2 ^ 16" by simp
  then have "digits_u16 0 (nat_dec (unat w)) = Some w"
    using digits_u16_nat_dec[of "unat w" "[]"] by simp
  moreover have "CHR ''+'' \<notin> set (nat_dec (unat w))" using nat_dec_plain by blast
  ultimately show ?thesis
    by (cases "nat_dec (unat w)") (auto simp: parse_u16_def)
qed

lemma split_dot_append: "CHR ''.'' \<notin> set a \<Longrightarrow> split_dot (a @ CHR ''.'' # s) = (a, Some s)"
  by (induction a) auto

lemma split_dot_none: "CHR ''.'' \<notin> set a \<Longrightarrow> split_dot a = (a, None)"
  by (induction a) auto

lemma split_dot_eq: "split_dot s = (a, r) \<Longrightarrow>
  s = a @ (case r of None \<Rightarrow> [] | Some t \<Rightarrow> CHR ''.'' # t) \<and> CHR ''.'' \<notin> set a"
  by (induction s arbitrary: a r) (auto split: if_splits prod.splits)

definition version_char :: "char \<Rightarrow> bool" where
  "version_char c \<longleftrightarrow> to_digit c \<noteq> None \<or> c = CHR ''+''"

lemma digits_u16_chars: "digits_u16 acc s = Some v \<Longrightarrow> \<forall>c\<in>set s. to_digit c \<noteq> None"
  by (induction s arbitrary: acc) (auto split: option.splits if_splits)

lemma parse_u16_chars: "parse_u16 s = Some v \<Longrightarrow> \<forall>c\<in>set s. version_char c"
  by (auto simp: parse_u16_def version_char_def split: list.splits if_splits option.splits
      dest: digits_u16_chars)

lemma parse_version_chars:
  assumes "parse_version s = Some v"
  shows "list_all (\<lambda>c. version_char c \<or> c = CHR ''.'') s \<and> length (filter (\<lambda>c. c = CHR ''.'') s) \<le> 2"
proof -
  have nodot: "filter (\<lambda>c. c = CHR ''.'') a = []" if "\<forall>c\<in>set a. version_char c" for a
    using that by (auto simp: filter_empty_conv version_char_def to_digit_def Let_def)
  from assms show ?thesis
    by (auto simp: parse_version_def splitn3_def list_all_iff nodot dest!: split_dot_eq parse_u16_chars
        split: prod.splits option.splits list.splits)
qed

text \<open>Version strings. Printing a version and parsing it gives it back, with and without the
patch number; a string that is accepted consists of decimal digits, at most two dots and plus signs,
so pre-release and build-metadata suffixes never pass.\<close>
theorem version_roundtrip:
  "parse_version (nat_dec (unat a) @ ''.'' @ nat_dec (unat b) @ ''.'' @ nat_dec (unat c)) = Some (a, b, c)
   \<and> parse_version (nat_dec (unat a) @ ''.'' @ nat_dec (unat b)) = Some (a, b, 0)
   \<and> {s. parse_version s \<noteq> None} \<subseteq>
       {s. list_all (\<lambda>x. to_digit x \<noteq> None \<or> x = CHR ''+'' \<or> x = CHR ''.'') s
           \<and> length (filter (\<lambda>x. x = CHR ''.'') s) \<le> 2}"
proof -
  have d: "CHR ''.'' \<notin> set (nat_dec n)" for n using nat_dec_plain by blast
  have "{s. parse_version s \<noteq> None} \<subseteq>
       {s. list_all (\<lambda>x. to_digit x \<noteq> None \<or> x = CHR ''+'' \<or> x = CHR ''.'') s
           \<and> length (filter (\<lambda>x. x = CHR ''.'') s) \<le> 2}"
    using parse_version_chars by (auto simp: version_char_def)
  then show ?thesis
    by (simp add: parse_version_def splitn3_def split_dot_append split_dot_none d parse_u16_nat_dec)
qed

section \<open>The validator\<close>

text \<open>What a valid manifest is, as one predicate.\<close>
definition manifest_ok :: "manifest_snapshot \<Rightarrow> bool" where
  "manifest_ok m \<longleftrightarrow>
     length (sh_shell_id (ms_shell m)) \<le> 32
   \<and> (case (parse_version (rt_runtime_current (ms_runtime m)), parse_version (rt_runtime_max (ms_runtime m))) of
        (Some cur, Some mx) \<Rightarrow> \<not> version_less mx cur
          \<and> (au_dek_backend (ms_audit m) \<noteq> ''software-kek'' \<or> version_less cur (0, 16, 0))
      | _ \<Rightarrow> False)
   \<and> au_compliance_tier (ms_audit m) \<in> {0, 1, 2}
   \<and> (au_dek_backend (ms_audit m) = ''software-kek'' \<longleftrightarrow> au_compliance_tier (ms_audit m) = 0)
   \<and> au_signature_class (ms_audit m) \<in> {''none'', ''ed25519'', ''ml-dsa-65'', ''hybrid''}"

lemma word_gt_15: "(15 < w) = (16 \<le> (w :: u16))"
  by (simp add: word_less_nat_alt word_le_nat_alt) arith

lemma past_0_15: "(fst v > 0 \<or> fst v = 0 \<and> fst (snd v) > 15) \<longleftrightarrow> \<not> version_less v ((0, 16, 0) :: version)"
proof -
  obtain a b c where v: "v = (a, b, c)" by (cases v)
  have "(15 < b) \<longleftrightarrow> \<not> b < 16" by (simp add: word_gt_15 not_less)
  moreover have "a = 0 \<or> 0 < a" using word_gt_0 by blast
  ultimately show ?thesis by (auto simp: v version_less_def)
qed

lemma check_tier_backend_ok:
  "check_tier_backend t b = Inr () \<longleftrightarrow> t \<in> {0, 1, 2} \<and> (b = ''software-kek'' \<longleftrightarrow> t = 0)"
  by (auto simp: check_tier_backend_def)

lemma from_manifest_str_None:
  "from_manifest_str s = None \<longleftrightarrow> s \<notin> {''none'', ''ed25519'', ''ml-dsa-65'', ''hybrid''}"
  by (simp add: from_manifest_str_def)

lemma validate_ok: "validate m = Inr () \<longleftrightarrow> manifest_ok m"
proof (cases "parse_version (rt_runtime_current (ms_runtime m))")
  case None
  then show ?thesis by (simp add: validate_def manifest_ok_def)
next
  case cur: (Some cur)
  show ?thesis
  proof (cases "parse_version (rt_runtime_max (ms_runtime m))")
    case None
    then show ?thesis by (simp add: validate_def manifest_ok_def cur)
  next
    case mx: (Some mx)
    let ?tb = "check_tier_backend (au_compliance_tier (ms_audit m)) (au_dek_backend (ms_audit m))"
    note ok = check_tier_backend_ok[of "au_compliance_tier (ms_audit m)" "au_dek_backend (ms_audit m)"]
    have sig: "(case from_manifest_str s of None \<Rightarrow> Inl (e :: manifest_error) | Some _ \<Rightarrow> Inr ()) = Inr () \<longleftrightarrow>
        s \<in> {''none'', ''ed25519'', ''ml-dsa-65'', ''hybrid''}" for s e
      using from_manifest_str_None[of s] by (cases "from_manifest_str s") auto
    show ?thesis
    proof (cases ?tb)
      case (Inl e)
      then show ?thesis using ok unfolding validate_def manifest_ok_def cur mx by (simp del: insert_iff)
    next
      case (Inr u)
      then show ?thesis using ok unfolding validate_def manifest_ok_def cur mx past_0_15
        by (simp add: sig del: insert_iff)
    qed
  qed
qed

lemma validate_kek_refused:
  "validate m = Inl (SoftwareKekProductionRefused v) \<longleftrightarrow>
     v = rt_runtime_current (ms_runtime m)
   \<and> length (sh_shell_id (ms_shell m)) \<le> 32
   \<and> au_compliance_tier (ms_audit m) = 0 \<and> au_dek_backend (ms_audit m) = ''software-kek''
   \<and> (\<exists>cur mx. parse_version (rt_runtime_current (ms_runtime m)) = Some cur
        \<and> parse_version (rt_runtime_max (ms_runtime m)) = Some mx
        \<and> \<not> version_less mx cur \<and> \<not> version_less cur (0, 16, 0))"
proof (cases "parse_version (rt_runtime_current (ms_runtime m))")
  case None
  then show ?thesis by (simp add: validate_def)
next
  case cur: (Some cur)
  show ?thesis
  proof (cases "parse_version (rt_runtime_max (ms_runtime m))")
    case None
    then show ?thesis by (simp add: validate_def cur)
  next
    case mx: (Some mx)
    have sig: "(case from_manifest_str s of None \<Rightarrow> Inl (InvalidValue a b) | Some _ \<Rightarrow> Inr ()) \<noteq> Inl (SoftwareKekProductionRefused v)"
      for s a b by (cases "from_manifest_str s") auto
    show ?thesis
      unfolding validate_def cur mx past_0_15
      by (auto simp: sig check_tier_backend_def)
  qed
qed

lemma load_ok:
  "load h T bs = Inr (m, d) \<longleftrightarrow>
     (\<exists>text canonical. from_utf8 bs = Inr text \<and> toml_from_str T text = Inr m \<and> manifest_ok m
        \<and> toml_to_string T m = Inr canonical
        \<and> d = keyed_hash h (derive_key h DIGEST_DOMAIN []) (str_bytes canonical))"
  by (auto simp: load_def canonical_digest_def simp flip: validate_ok split: sum.splits)

text \<open>The validator. A manifest is accepted exactly when its shell id fits 32 bytes, both
versions parse and the maximum is not below the current one, the tier is 0, 1 or 2, the software key
backend is used at tier 0 and nowhere else and then only up to runtime 0.15, and the signature class
is one of the four tokens. The refusal of the software backend past 0.15 is reported exactly for a
manifest whose only failure, besides the signature class, is that.\<close>
theorem manifest_validation:
  "(validate m = Inr () \<longleftrightarrow>
      length (sh_shell_id (ms_shell m)) \<le> 32
    \<and> (case (parse_version (rt_runtime_current (ms_runtime m)), parse_version (rt_runtime_max (ms_runtime m))) of
         (Some cur, Some mx) \<Rightarrow> \<not> version_less mx cur
           \<and> \<not> (au_dek_backend (ms_audit m) = ''software-kek'' \<and> \<not> version_less cur (0, 16, 0))
       | _ \<Rightarrow> False)
    \<and> au_compliance_tier (ms_audit m) \<in> {0, 1, 2}
    \<and> (au_dek_backend (ms_audit m) = ''software-kek'' \<longleftrightarrow> au_compliance_tier (ms_audit m) = 0)
    \<and> au_signature_class (ms_audit m) \<in> {''none'', ''ed25519'', ''ml-dsa-65'', ''hybrid''})
   \<and> (validate m = Inl (SoftwareKekProductionRefused v) \<longleftrightarrow>
      v = rt_runtime_current (ms_runtime m)
    \<and> length (sh_shell_id (ms_shell m)) \<le> 32
    \<and> au_compliance_tier (ms_audit m) = 0 \<and> au_dek_backend (ms_audit m) = ''software-kek''
    \<and> (case (parse_version (rt_runtime_current (ms_runtime m)), parse_version (rt_runtime_max (ms_runtime m))) of
         (Some cur, Some mx) \<Rightarrow> \<not> version_less mx cur \<and> \<not> version_less cur (0, 16, 0)
       | _ \<Rightarrow> False))"
  unfolding validate_ok validate_kek_refused manifest_ok_def
  by (cases "parse_version (rt_runtime_current (ms_runtime m))";
      cases "parse_version (rt_runtime_max (ms_runtime m))") (auto simp del: insert_iff)

text \<open>The manifest anchor. Whenever the loader accepts bytes, the manifest it returns is valid
and is what the TOML parser made of the decoded text, and the bootstrap event emitted with the returned
digest decodes to one that carries exactly the domain-separated keyed hash of the manifest's canonical
text; the event and its kernel operation are appended to whatever the context held.\<close>
theorem bootstrap_anchors_manifest:
  assumes "codec_ok pc" "load h T bs = Inr (m, d)"
    and "emit_runtime_bootstrap pc d l0 rv pins t c = (Inr (), c')"
  shows "validate m = Inr ()
     \<and> (\<exists>src canonical payload r.
          from_utf8 bs = Inr src \<and> toml_from_str T src = Inr m \<and> toml_to_string T m = Inr canonical
        \<and> events c' = events c @ [\<lparr>er_type_code = RUNTIME_BOOTSTRAP, er_sequence = event_seq c,
                                   er_tick = cur_tick c, er_payload = payload\<rparr>]
        \<and> ops c' = ops c @ [EmitEvent None RUNTIME_BOOTSTRAP payload]
        \<and> cd_dec pc payload = Some r
        \<and> rb_manifest_digest r = keyed_hash h (derive_key h ''arkhe-forge-manifest-digest'' []) (str_bytes canonical)
        \<and> rb_typecode_pins r = pins \<and> rb_bootstrap_tick r = t)"
proof -
  from assms(2) obtain src canonical where l: "from_utf8 bs = Inr src" "toml_from_str T src = Inr m"
    "manifest_ok m" "toml_to_string T m = Inr canonical"
    "d = keyed_hash h (derive_key h DIGEST_DOMAIN []) (str_bytes canonical)"
    unfolding load_ok by blast
  from assms(3) obtain payload where enc: "cd_enc pc \<lparr>rb_schema_version = 1, rb_l0_semver = l0,
      rb_runtime_semver = rv, rb_manifest_digest = d, rb_typecode_pins = pins, rb_bootstrap_tick = t\<rparr> = Some payload"
    and c': "c' = c\<lparr>event_seq := saturating_add (event_seq c) 1,
        events := events c @ [\<lparr>er_type_code = RUNTIME_BOOTSTRAP, er_sequence = event_seq c,
                               er_tick = cur_tick c, er_payload = payload\<rparr>],
        ops := ops c @ [EmitEvent None RUNTIME_BOOTSTRAP payload]\<rparr>"
    by (auto simp: emit_runtime_bootstrap_def emit_event_def RuntimeBootstrap_def split: option.splits)
  show ?thesis
    using l codec_okD[OF assms(1) enc] by (simp add: validate_ok c' DIGEST_DOMAIN_def)
qed

lemma bytes_str_bytes [simp]: "bytes_str (str_bytes s) = s"
proof -
  have "unat (of_char c :: u8) = of_char c" for c
  proof -
    have "(of_char c :: nat) < 256" by simp
    then have "unat (of_nat (of_char c) :: u8) = of_char c" by (simp add: unat_of_nat)
    moreover have "(of_char c :: u8) = of_nat (of_char c)" by (cases c) (simp add: of_char_def horner_sum_of_bool_2_less)
    ultimately show ?thesis by simp
  qed
  then show ?thesis by (simp add: bytes_str_def str_bytes_def map_idI)
qed

definition demo_manifest :: manifest_snapshot where
  "demo_manifest =
     \<lparr>ms_schema_version = 1, ms_shell = \<lparr>sh_shell_id = ''acme'', sh_display_name = ''Acme''\<rparr>,
      ms_runtime = \<lparr>rt_runtime_max = ''0.15'', rt_runtime_current = ''0.13''\<rparr>,
      ms_audit = \<lparr>au_pii_cipher = ''xchacha20-poly1305'', au_dek_backend = ''software-kek'',
         au_kms_auto_promote = ''manual'', au_signature_class = ''ed25519'', au_compliance_tier = 0\<rparr>,
      ms_frontend = FrontendSection_default\<rparr>"

definition demo_toml :: toml where
  "demo_toml = \<lparr>toml_from_str = (\<lambda>s. if s = ''demo'' then Inr demo_manifest else Inl ''?''),
     toml_to_string = (\<lambda>_. Inr ''demo'')\<rparr>"

lemma bootstrap_anchors_manifest_witness: "validate demo_manifest = Inr ()"
proof -
  let ?d = "keyed_hash demo_hash (derive_key demo_hash DIGEST_DOMAIN []) (str_bytes ''demo'')"
  let ?b = "\<lparr>rb_schema_version = 1, rb_l0_semver = SemVer_new 0 15 0, rb_runtime_semver = SemVer_new 0 15 0,
     rb_manifest_digest = ?d, rb_typecode_pins = [], rb_bootstrap_tick = 5\<rparr>"
  let ?pc = "table_codec [(?b, [1])]"
  have p: "parse_version ''0.13'' = Some (0, 13, 0)" "parse_version ''0.15'' = Some (0, 15, 0)"
    by (simp_all add: parse_version_def splitn3_def parse_u16_def to_digit_def Let_def)
  have ok: "manifest_ok demo_manifest"
    by (simp add: manifest_ok_def demo_manifest_def p version_less_def)
  have u: "from_utf8 (str_bytes ''demo'') = Inr ''demo''"
  proof -
    have "utf8_check 0 (str_bytes ''demo'') = None" by (simp add: str_bytes_def utf8_next_def)
    then show ?thesis by (simp add: from_utf8_def)
  qed
  have 1: "load demo_hash demo_toml (str_bytes ''demo'') = Inr (demo_manifest, ?d)"
    unfolding load_ok using ok u by (auto simp: demo_toml_def)
  have 2: "codec_ok ?pc" by (rule codec_ok_table) simp
  have 3: "\<exists>c'. emit_runtime_bootstrap ?pc ?d (SemVer_new 0 15 0) (SemVer_new 0 15 0) [] 5 demo_ctx = (Inr (), c')"
    by (simp add: emit_runtime_bootstrap_def emit_event_def RuntimeBootstrap_def table_codec_def)
  then obtain c' where "emit_runtime_bootstrap ?pc ?d (SemVer_new 0 15 0) (SemVer_new 0 15 0) [] 5 demo_ctx = (Inr (), c')" ..
  from bootstrap_anchors_manifest[OF 2 1 this] show ?thesis by (rule conjunct1)
qed

end
