(* ===== verification/Health.thy ===== *)
theory Health
  imports Prelude
begin

text \<open>The KMS health channels and the quorum of \<^verbatim>\<open>hf2_kms/health.rs\<close>.  The network is a parameter:
\<^verbatim>\<open>resolve\<close> is \<^verbatim>\<open>to_socket_addrs\<close> (\<^term>\<open>None\<close> for a resolution error), \<^verbatim>\<open>connects\<close> tells whether a
TCP connection is established within a timeout (in milliseconds).\<close>

section \<open>Channels\<close>

datatype channel = DefaultChannel | DnsOverHttps | StaticIp | AlternateRegion
datatype status = Healthy | Failing | Unknown
datatype health_error = DnsResolution string | HealthIo string

record 'addr network =
  resolve :: "string \<Rightarrow> 'addr list option"
  connects :: "'addr \<Rightarrow> nat \<Rightarrow> bool"

definition tcp_reachable :: "'addr network \<Rightarrow> string \<Rightarrow> nat \<Rightarrow> health_error + status" where
  "tcp_reachable net hostport timeout =
     (case resolve net hostport of
        None \<Rightarrow> Inl (DnsResolution hostport)
      | Some [] \<Rightarrow> Inl (DnsResolution hostport)
      | Some (addr # _) \<Rightarrow> if connects net addr timeout then Inr Healthy else Inr Failing)"

definition static_reachable :: "'addr network \<Rightarrow> 'addr \<Rightarrow> nat \<Rightarrow> status" where
  "static_reachable net addr timeout = (if connects net addr timeout then Healthy else Failing)"

text \<open>The three channel types of the module.\<close>
datatype 'addr health_channel =
    DohHealthChannel string nat
  | RegionHealthChannel string nat
  | StaticIpHealthChannel 'addr nat

definition Doh_cloudflare :: "'addr health_channel" where
  "Doh_cloudflare = DohHealthChannel ''1.1.1.1:443'' 3000"
definition Doh_google :: "'addr health_channel" where
  "Doh_google = DohHealthChannel ''8.8.8.8:443'' 3000"
definition Doh_custom :: "string \<Rightarrow> nat \<Rightarrow> 'addr health_channel" where
  "Doh_custom hostport timeout = DohHealthChannel hostport timeout"

fun channel_id :: "'addr health_channel \<Rightarrow> channel" where
  "channel_id (DohHealthChannel h t) = DnsOverHttps"
| "channel_id (RegionHealthChannel h t) = AlternateRegion"
| "channel_id (StaticIpHealthChannel a t) = StaticIp"

fun probe :: "'addr network \<Rightarrow> 'addr health_channel \<Rightarrow> health_error + status" where
  "probe net (DohHealthChannel h t) = tcp_reachable net h t"
| "probe net (RegionHealthChannel h t) = tcp_reachable net h t"
| "probe net (StaticIpHealthChannel a t) = Inr (static_reachable net a t)"

section \<open>Consensus\<close>

record consensus_result =
  per_channel :: "(channel \<times> status) list"
  failing_count :: nat
  total :: nat
  is_quorum_failing :: bool

record 'addr consensus_checker =
  cc_channels :: "'addr health_channel list"
  cc_threshold :: nat

definition ConsensusHealthChecker_new :: "'addr health_channel list \<Rightarrow> nat \<Rightarrow> 'addr consensus_checker" where
  "ConsensusHealthChecker_new chs t = \<lparr>cc_channels = chs, cc_threshold = t\<rparr>"

text \<open>\<^verbatim>\<open>two_of_three\<close> panics (here: no value) unless there are exactly three channels.\<close>
definition two_of_three :: "'addr health_channel list \<Rightarrow> 'addr consensus_checker option" where
  "two_of_three chs = (if length chs = 3 then Some (ConsensusHealthChecker_new chs 2) else None)"

text \<open>The probing loop, with its two accumulators.\<close>
fun check_loop :: "'addr network \<Rightarrow> 'addr health_channel list \<Rightarrow> (channel \<times> status) list \<Rightarrow> nat
    \<Rightarrow> (channel \<times> status) list \<times> nat" where
  "check_loop net [] acc n = (acc, n)"
| "check_loop net (ch # chs) acc n =
     (let status = (case probe net ch of Inl _ \<Rightarrow> Failing | Inr s \<Rightarrow> s)
      in check_loop net chs (acc @ [(channel_id ch, status)]) (if status = Failing then n + 1 else n))"

definition check :: "'addr network \<Rightarrow> 'addr consensus_checker \<Rightarrow> consensus_result" where
  "check net c =
     (let (pc, n) = check_loop net (cc_channels c) [] 0
      in \<lparr>per_channel = pc, failing_count = n, total = length pc, is_quorum_failing = (n \<ge> cc_threshold c)\<rparr>)"

section \<open>Externally driven aggregator\<close>

type_synonym multi_channel_health = "(channel \<times> status) list"

definition MultiChannelHealth_new :: "channel list \<Rightarrow> multi_channel_health" where
  "MultiChannelHealth_new chs = map (\<lambda>c. (c, Unknown)) chs"

fun set_status :: "channel \<Rightarrow> status \<Rightarrow> multi_channel_health \<Rightarrow> multi_channel_health" where
  "set_status ch st [] = [(ch, st)]"
| "set_status ch st ((c, s) # rest) = (if c = ch then (c, st) # rest else (c, s) # set_status ch st rest)"

definition mch_is_quorum_failing :: "multi_channel_health \<Rightarrow> nat \<Rightarrow> bool" where
  "mch_is_quorum_failing h threshold \<longleftrightarrow> length (filter (\<lambda>(_, s). s = Failing) h) \<ge> threshold"

definition healthy_count :: "multi_channel_health \<Rightarrow> nat" where
  "healthy_count h = length (filter (\<lambda>(_, s). s = Healthy) h)"

section \<open>Lemmas\<close>

text \<open>A channel votes against the quorum when its probe fails or cannot be run.\<close>
definition fails :: "'addr network \<Rightarrow> 'addr health_channel \<Rightarrow> bool" where
  "fails net ch \<longleftrightarrow> (case probe net ch of Inl _ \<Rightarrow> True | Inr s \<Rightarrow> s = Failing)"

lemma check_loop_spec:
  "check_loop net chs acc n =
     (acc @ map (\<lambda>ch. (channel_id ch, case probe net ch of Inl _ \<Rightarrow> Failing | Inr s \<Rightarrow> s)) chs,
      n + length (filter (fails net) chs))"
  by (induction chs arbitrary: acc n) (auto simp: Let_def fails_def split: sum.splits)

lemma map_of_set_status: "map_of (set_status ch st h) = (map_of h)(ch \<mapsto> st)"
  by (induction ch st h rule: set_status.induct) auto

lemma keys_set_status: "fst ` set (set_status ch st h) = insert ch (fst ` set h)"
  by (induction ch st h rule: set_status.induct) auto

lemma distinct_set_status: "distinct (map fst h) \<Longrightarrow> distinct (map fst (set_status ch st h))"
  by (induction ch st h rule: set_status.induct) (auto simp flip: keys_set_status simp: keys_set_status)

text \<open>The externally driven aggregator, built from a list of channels and driven by any sequence of
status updates, reports for each channel the latest status set for it, \<^term>\<open>Unknown\<close> for a listed
channel that was never updated, and nothing for any other channel.\<close>
theorem health_latest_status:
  "map_of (foldl (\<lambda>h (c, s). set_status c s h) (MultiChannelHealth_new chs) ups) ch
     = (case map_of (rev ups) ch of Some s \<Rightarrow> Some s | None \<Rightarrow> if ch \<in> set chs then Some Unknown else None)"
proof (induction ups rule: rev_induct)
  case Nil
  show ?case by (induction chs) (auto simp: MultiChannelHealth_new_def)
next
  case (snoc u ups)
  then show ?case by (cases u) (auto simp: map_of_set_status)
qed

text \<open>The quorum counts each channel once. The checker reports every channel in order with its
status, an unusable channel counting as failing; the quorum fails exactly when at least the threshold
of channels fail, so a 2-of-3 checker never fires on a single failing channel.\<close>
theorem consensus_quorum:
  "let r = check net c in
     map fst (per_channel r) = map channel_id (cc_channels c)
   \<and> total r = length (cc_channels c)
   \<and> failing_count r = length (filter (fails net) (cc_channels c))
   \<and> failing_count r = length (filter (\<lambda>(_, s). s = Failing) (per_channel r))
   \<and> (is_quorum_failing r \<longleftrightarrow> cc_threshold c \<le> card {i. i < length (cc_channels c) \<and> fails net (cc_channels c ! i)})"
proof -
  have "length (filter (\<lambda>(_, s). s = Failing) (map (\<lambda>ch. (channel_id ch, case probe net ch of Inl _ \<Rightarrow> Failing | Inr s \<Rightarrow> s)) chs))
      = length (filter (fails net) chs)" for chs
    by (induction chs) (auto simp: fails_def split: sum.splits)
  then show ?thesis
    by (auto simp: check_def check_loop_spec Let_def length_filter_conv_card comp_def)
qed

end
