(* ===== verification/Projection.thy ===== *)
theory Projection
  imports Manifest Health
begin

text \<open>The observer pipeline of \<^verbatim>\<open>arkhe-forge-platform/src/projection.rs\<close>: lifecycle, errors, rows and
their in-memory store, and the router with its dispatch contract.  A boxed projection is a state
with the operations of the \<^verbatim>\<open>Projection\<close> trait; the locale \<^verbatim>\<open>projection\<close> states the contract of
that trait, under which the router's guarantees are proved.\<close>

section \<open>Lifecycle, context, errors\<close>

datatype observer_state = ObsPassive | ObsActive | ObsDraining
datatype promotion_decision = Promote | Wait

definition HF2_HEALTH_QUORUM_MIN :: nat where "HF2_HEALTH_QUORUM_MIN = 2"

record projection_context =
  pctx_tick :: tick
  pctx_instance_id :: instance_id
  pctx_manifest :: "manifest_snapshot option"

definition ProjectionContext_new :: "tick \<Rightarrow> instance_id \<Rightarrow> projection_context" where
  "ProjectionContext_new t i = \<lparr>pctx_tick = t, pctx_instance_id = i, pctx_manifest = None\<rparr>"

definition ProjectionContext_with_manifest :: "tick \<Rightarrow> instance_id \<Rightarrow> manifest_snapshot \<Rightarrow> projection_context" where
  "ProjectionContext_with_manifest t i m = \<lparr>pctx_tick = t, pctx_instance_id = i, pctx_manifest = Some m\<rparr>"

record projection_cursor =
  pcu_sequence :: u64
  pcu_tick :: tick

datatype projection_error =
    SequenceBackward projection_cursor projection_cursor
  | SequenceGap projection_cursor projection_cursor
  | PositionConflict projection_cursor
  | NotActive observer_state
  | PE_Storage string
  | DecodeFailed string
  | MissingRow

section \<open>The trait\<close>

record 'p projection_ops =
  p_observes :: "'p \<Rightarrow> type_code list"
  p_on_event :: "event_record \<Rightarrow> projection_context \<Rightarrow> ('p, projection_error, unit) act"
  p_on_state_change :: "observer_state \<Rightarrow> ('p, projection_error, unit) act"
  p_last_applied :: "'p \<Rightarrow> (u64 \<times> tick) option"

text \<open>The default body of \<^verbatim>\<open>on_state_change\<close>.\<close>
definition default_on_state_change :: "observer_state \<Rightarrow> ('p, projection_error, unit) act" where
  "default_on_state_change new_state = ret ()"

section \<open>Rows and the in-memory store\<close>

record actor_projection =
  apr_schema_version :: u16
  apr_actor_id :: actor_id
  apr_profile :: actor_profile
  apr_user_binding :: "user_binding option"
  apr_cursor :: "projection_cursor option"

record space_projection =
  spr_schema_version :: u16
  spr_space_id :: space_id
  spr_config :: space_config
  spr_parent_chain_depth :: "parent_chain_depth option"
  spr_membership :: "space_membership option"
  spr_cursor :: "projection_cursor option"

record entry_projection =
  epr_schema_version :: u16
  epr_entry_id :: entry_id
  epr_core :: entry_core
  epr_body :: "entry_body option"
  epr_parent_depth :: "entry_parent_depth option"
  epr_cursor :: "projection_cursor option"

record activity_projection =
  vpr_schema_version :: u16
  vpr_activity_id :: activity_id
  vpr_record :: activity_record
  vpr_entity_shell_id :: "entity_shell_id option"
  vpr_cursor :: "projection_cursor option"

record projection_store =
  ps_actors :: "actor_id \<rightharpoonup> actor_projection"
  ps_spaces :: "space_id \<rightharpoonup> space_projection"
  ps_entries :: "entry_id \<rightharpoonup> entry_projection"
  ps_activities :: "activity_id \<rightharpoonup> activity_projection"

definition ProjectionStore_new :: projection_store where
  "ProjectionStore_new = \<lparr>ps_actors = Map.empty, ps_spaces = Map.empty, ps_entries = Map.empty, ps_activities = Map.empty\<rparr>"

definition upsert_actor :: "actor_projection \<Rightarrow> (projection_store, projection_error, unit) act" where
  "upsert_actor row = (\<lambda>s. (Inr (), s\<lparr>ps_actors := (ps_actors s)(apr_actor_id row \<mapsto> row)\<rparr>))"
definition upsert_space :: "space_projection \<Rightarrow> (projection_store, projection_error, unit) act" where
  "upsert_space row = (\<lambda>s. (Inr (), s\<lparr>ps_spaces := (ps_spaces s)(spr_space_id row \<mapsto> row)\<rparr>))"
definition upsert_entry :: "entry_projection \<Rightarrow> (projection_store, projection_error, unit) act" where
  "upsert_entry row = (\<lambda>s. (Inr (), s\<lparr>ps_entries := (ps_entries s)(epr_entry_id row \<mapsto> row)\<rparr>))"
definition upsert_activity :: "activity_projection \<Rightarrow> (projection_store, projection_error, unit) act" where
  "upsert_activity row = (\<lambda>s. (Inr (), s\<lparr>ps_activities := (ps_activities s)(vpr_activity_id row \<mapsto> row)\<rparr>))"

definition get_actor :: "actor_id \<Rightarrow> projection_store \<Rightarrow> actor_projection option" where
  "get_actor k s = ps_actors s k"
definition get_space :: "space_id \<Rightarrow> projection_store \<Rightarrow> space_projection option" where
  "get_space k s = ps_spaces s k"
definition get_entry :: "entry_id \<Rightarrow> projection_store \<Rightarrow> entry_projection option" where
  "get_entry k s = ps_entries s k"
definition get_activity :: "activity_id \<Rightarrow> projection_store \<Rightarrow> activity_projection option" where
  "get_activity k s = ps_activities s k"

section \<open>The router\<close>

record 'p router =
  projections :: "'p list"
  observers_by_code :: "type_code \<rightharpoonup> nat list"
  cursor :: "projection_cursor option"
  last_event :: "(u32 \<times> bytes) option"
  pending_retry :: "(projection_cursor \<times> u32 \<times> bytes) option"
  rstate :: observer_state

definition ProjectionRouter_new :: "'p router" where
  "ProjectionRouter_new = \<lparr>projections = [], observers_by_code = Map.empty, cursor = None,
     last_event = None, pending_retry = None, rstate = ObsPassive\<rparr>"

text \<open>\<^verbatim>\<open>entry(tc).or_default().push(idx)\<close>\<close>
definition index_push :: "nat \<Rightarrow> type_code \<Rightarrow> (type_code \<rightharpoonup> nat list) \<Rightarrow> (type_code \<rightharpoonup> nat list)" where
  "index_push idx tc m = m(tc \<mapsto> (case m tc of None \<Rightarrow> [] | Some l \<Rightarrow> l) @ [idx])"

definition register :: "'p projection_ops \<Rightarrow> 'p \<Rightarrow> 'p router \<Rightarrow> 'p router" where
  "register P p r =
     r\<lparr>observers_by_code := fold (index_push (length (projections r))) (p_observes P p) (observers_by_code r),
       projections := projections r @ [p]\<rparr>"

fun notify_all :: "'p projection_ops \<Rightarrow> observer_state \<Rightarrow> 'p list \<Rightarrow> (projection_error + unit) \<times> 'p list" where
  "notify_all P next [] = (Inr (), [])"
| "notify_all P next (p # ps) =
     (case p_on_state_change P next p of
        (Inl e, p') \<Rightarrow> (Inl e, p' # ps)
      | (Inr _, p') \<Rightarrow> (let (res, ps') = notify_all P next ps in (res, p' # ps')))"

definition transition :: "'p projection_ops \<Rightarrow> observer_state \<Rightarrow> ('p router, projection_error, unit) act" where
  "transition P next = (\<lambda>r.
     if rstate r = ObsDraining then (Inl (NotActive (rstate r)), r)
     else (case notify_all P next (projections r) of
             (Inl e, ps) \<Rightarrow> (Inl e, r\<lparr>projections := ps\<rparr>)
           | (Inr _, ps) \<Rightarrow> (Inr (), r\<lparr>projections := ps, rstate := next\<rparr>)))"

definition promote_to_active :: "'p projection_ops \<Rightarrow> ('p router, projection_error, unit) act" where
  "promote_to_active P = transition P ObsActive"
definition demote_to_passive :: "'p projection_ops \<Rightarrow> ('p router, projection_error, unit) act" where
  "demote_to_passive P = transition P ObsPassive"
definition begin_draining :: "'p projection_ops \<Rightarrow> ('p router, projection_error, unit) act" where
  "begin_draining P = transition P ObsDraining"

text \<open>\<^verbatim>\<open>Duration\<close> is taken in nanoseconds.\<close>
definition evaluate_auto_promote ::
  "manifest_snapshot \<Rightarrow> nat \<Rightarrow> multi_channel_health \<Rightarrow> bool \<Rightarrow> promotion_decision option" where
  "evaluate_auto_promote manifest primary_down_duration health threshold_ready =
     (let policy = au_kms_auto_promote (ms_audit manifest) in
      if policy = ''manual'' then Some Wait
      else if policy = ''after_60min'' then
        (let elapsed_ok = primary_down_duration \<ge> 60 * 60 * 10 ^ 9;
             health_ok = healthy_count health \<ge> HF2_HEALTH_QUORUM_MIN
         in if elapsed_ok \<and> health_ok then Some Promote else Some Wait)
      else if policy = ''threshold_hsm'' then (if threshold_ready then Some Promote else Some Wait)
      else None)"

text \<open>The order of \<^verbatim>\<open>(tick, sequence)\<close> pairs.\<close>
definition pos_less :: "projection_cursor \<Rightarrow> projection_cursor \<Rightarrow> bool" where
  "pos_less a b \<longleftrightarrow> pcu_tick a < pcu_tick b \<or> pcu_tick a = pcu_tick b \<and> pcu_sequence a < pcu_sequence b"

definition event_pos :: "event_record \<Rightarrow> projection_cursor" where
  "event_pos ev = \<lparr>pcu_sequence = er_sequence ev, pcu_tick = er_tick ev\<rparr>"

definition contiguous :: "projection_cursor \<Rightarrow> projection_cursor \<Rightarrow> bool" where
  "contiguous head incoming \<longleftrightarrow>
     (if pcu_tick incoming = pcu_tick head then pcu_sequence incoming = saturating_add (pcu_sequence head) 1
      else pcu_sequence incoming = 0)"

text \<open>The checks before the fan-out: \<^term>\<open>Inl\<close> is an early return.\<close>
definition stream_check :: "event_record \<Rightarrow> 'p router \<Rightarrow> (projection_error + nat) + unit" where
  "stream_check ev r =
     (let incoming = event_pos ev in
      if cursor r = Some incoming then
        (if last_event r = Some (er_type_code ev, er_payload ev) then Inl (Inr 0)
         else Inl (Inl (PositionConflict incoming)))
      else case pending_retry r of
        Some (pending, tc, payload) \<Rightarrow>
          if pos_less incoming pending then Inl (Inl (SequenceBackward pending incoming))
          else if incoming \<noteq> pending then Inl (Inl (SequenceGap pending incoming))
          else if tc \<noteq> er_type_code ev \<or> payload \<noteq> er_payload ev then Inl (Inl (PositionConflict incoming))
          else Inr ()
      | None \<Rightarrow>
          (case cursor r of
             None \<Rightarrow> Inr ()
           | Some head \<Rightarrow>
               if pos_less incoming head then Inl (Inl (SequenceBackward head incoming))
               else if \<not> contiguous head incoming then Inl (Inl (SequenceGap head incoming))
               else Inr ()))"

definition already_applied :: "'p projection_ops \<Rightarrow> event_record \<Rightarrow> 'p \<Rightarrow> bool" where
  "already_applied P ev p =
     (case p_last_applied P p of
        None \<Rightarrow> False
      | Some (seq, t) \<Rightarrow> er_tick ev < t \<or> er_tick ev = t \<and> er_sequence ev \<le> seq)"

fun fan_out :: "'p projection_ops \<Rightarrow> event_record \<Rightarrow> projection_context \<Rightarrow> nat list \<Rightarrow> nat \<Rightarrow> 'p list
    \<Rightarrow> (projection_error + nat) \<times> 'p list" where
  "fan_out P ev cx [] applied ps = (Inr applied, ps)"
| "fan_out P ev cx (i # is) applied ps =
     (if already_applied P ev (ps ! i) then fan_out P ev cx is applied ps
      else case p_on_event P ev cx (ps ! i) of
             (Inl e, p') \<Rightarrow> (Inl e, ps[i := p'])
           | (Inr _, p') \<Rightarrow> fan_out P ev cx is (applied + 1) (ps[i := p']))"

definition dispatch_event :: "'p projection_ops \<Rightarrow> event_record \<Rightarrow> projection_context \<Rightarrow> ('p router, projection_error, nat) act" where
  "dispatch_event P ev cx = (\<lambda>r.
     if rstate r \<noteq> ObsActive then (Inl (NotActive (rstate r)), r)
     else case stream_check ev r of
       Inl early \<Rightarrow> (early, r)
     | Inr _ \<Rightarrow>
       (case fan_out P ev cx (case observers_by_code r (er_type_code ev) of None \<Rightarrow> [] | Some is \<Rightarrow> is) 0
               (projections r) of
          (Inl e, ps) \<Rightarrow>
            (Inl e, r\<lparr>projections := ps,
                      pending_retry := Some (event_pos ev, er_type_code ev, er_payload ev)\<rparr>)
        | (Inr n, ps) \<Rightarrow>
            (Inr n, r\<lparr>projections := ps, cursor := Some (event_pos ev),
                      last_event := Some (er_type_code ev, er_payload ev), pending_retry := None\<rparr>)))"

section \<open>The cross-shell fan-out\<close>

record fanout =
  fo_by_target_shell :: "shell_id \<rightharpoonup> cross_shell_activity list"
  fo_cursor :: "projection_cursor option"

definition Fanout_new :: fanout where
  "Fanout_new = \<lparr>fo_by_target_shell = Map.empty, fo_cursor = None\<rparr>"

definition notifications_for :: "shell_id \<Rightarrow> fanout \<Rightarrow> cross_shell_activity list" where
  "notifications_for sh f = (case fo_by_target_shell f sh of None \<Rightarrow> [] | Some l \<Rightarrow> l)"

definition fanout_on_event :: "cross_shell_activity codec \<Rightarrow> event_record \<Rightarrow> projection_context \<Rightarrow> (fanout, projection_error, unit) act" where
  "fanout_on_event pc ev cx = (\<lambda>f.
     case cd_dec pc (er_payload ev) of
       None \<Rightarrow> (Inl (DecodeFailed ''CrossShellActivity payload''), f)
     | Some notice \<Rightarrow>
         (Inr (), f\<lparr>fo_by_target_shell := (fo_by_target_shell f)
                       (csa_target_shell_id notice \<mapsto> notifications_for (csa_target_shell_id notice) f @ [notice]),
                    fo_cursor := Some (event_pos ev)\<rparr>))"

definition cursor_last_applied :: "projection_cursor option \<Rightarrow> (u64 \<times> tick) option" where
  "cursor_last_applied c = map_option (\<lambda>c. (pcu_sequence c, pcu_tick c)) c"

definition fanout_ops :: "cross_shell_activity codec \<Rightarrow> fanout projection_ops" where
  "fanout_ops pc = \<lparr>p_observes = (\<lambda>_. [CROSS_SHELL_ACTIVITY]), p_on_event = fanout_on_event pc,
     p_on_state_change = default_on_state_change, p_last_applied = (\<lambda>f. cursor_last_applied (fo_cursor f))\<rparr>"

section \<open>Driving a router\<close>

datatype router_cmd = CDispatch event_record projection_context | CPromote | CDemote | CDrain

text \<open>One call by the driver, together with the list of the events the router has accepted so far:
an event is accepted when its dispatch succeeds and was not a redelivery.\<close>
fun router_step :: "'p projection_ops \<Rightarrow> router_cmd \<Rightarrow> event_record list \<times> 'p router \<Rightarrow> event_record list \<times> 'p router" where
  "router_step P (CDispatch ev cx) (acc, r) =
     (case dispatch_event P ev cx r of
        (Inl _, r') \<Rightarrow> (acc, r')
      | (Inr _, r') \<Rightarrow> (if cursor r = Some (event_pos ev) then acc else acc @ [ev], r'))"
| "router_step P CPromote (acc, r) = (acc, snd (promote_to_active P r))"
| "router_step P CDemote (acc, r) = (acc, snd (demote_to_passive P r))"
| "router_step P CDrain (acc, r) = (acc, snd (begin_draining P r))"

definition run_router :: "'p projection_ops \<Rightarrow> router_cmd list \<Rightarrow> event_record list \<times> 'p router \<Rightarrow> event_record list \<times> 'p router" where
  "run_router P cmds = fold (router_step P) cmds"

definition start_router :: "'p projection_ops \<Rightarrow> 'p list \<Rightarrow> 'p router" where
  "start_router P ps = fold (register P) ps ProjectionRouter_new"

text \<open>An accepted stream: strictly increasing positions, each contiguous with the one before.\<close>
definition stream_ok :: "event_record list \<Rightarrow> bool" where
  "stream_ok acc \<longleftrightarrow>
     sorted_wrt (\<lambda>a b. pos_less (event_pos a) (event_pos b)) acc
   \<and> successively (\<lambda>a b. contiguous (event_pos a) (event_pos b)) acc"

text \<open>A projection that also keeps the list of the events it applied.\<close>
definition recording :: "'p projection_ops \<Rightarrow> ('p \<times> event_record list) projection_ops" where
  "recording P =
     \<lparr>p_observes = (\<lambda>q. p_observes P (fst q)),
      p_on_event = (\<lambda>ev cx q.
        case p_on_event P ev cx (fst q) of
          (Inl e, p') \<Rightarrow> (Inl e, (p', snd q))
        | (Inr _, p') \<Rightarrow> (Inr (), (p', snd q @ [ev]))),
      p_on_state_change = (\<lambda>s q. case p_on_state_change P s (fst q) of (res, p') \<Rightarrow> (res, (p', snd q))),
      p_last_applied = (\<lambda>q. p_last_applied P (fst q))\<rparr>"

text \<open>The events a projection is owed, given its state at registration.\<close>
definition wants :: "'p projection_ops \<Rightarrow> 'p \<Rightarrow> event_record \<Rightarrow> bool" where
  "wants P p0 ev \<longleftrightarrow> er_type_code ev \<in> set (p_observes P p0) \<and> \<not> already_applied P ev p0"

section \<open>Positions\<close>

lemma pos_less_irrefl [simp]: "\<not> pos_less a a"
  by (simp add: pos_less_def)

lemma pos_less_trans: "pos_less a b \<Longrightarrow> pos_less b c \<Longrightarrow> pos_less a c"
  by (auto simp: pos_less_def)

lemma pos_less_total: "pos_less a b \<or> a = b \<or> pos_less b a"
  by (cases a; cases b) (auto simp: pos_less_def)

lemma event_pos_eq:
  "event_pos a = event_pos b \<and> er_type_code a = er_type_code b \<and> er_payload a = er_payload b \<longleftrightarrow> a = b"
  by (cases a; cases b) (auto simp: event_pos_def)

lemma already_applied_alt:
  "already_applied P ev p \<longleftrightarrow>
     (\<exists>seq t. p_last_applied P p = Some (seq, t) \<and> \<not> pos_less \<lparr>pcu_sequence = seq, pcu_tick = t\<rparr> (event_pos ev))"
  by (auto simp: already_applied_def event_pos_def pos_less_def split: option.splits)

lemma already_applied_mono:
  "pos_less (event_pos a) (event_pos b) \<Longrightarrow> already_applied P b p \<Longrightarrow> already_applied P a p"
  by (auto simp: already_applied_alt dest: pos_less_trans)

lemma stream_ok_snoc:
  "stream_ok (acc @ [ev]) \<longleftrightarrow> stream_ok acc \<and>
     (acc = [] \<or> pos_less (event_pos (last acc)) (event_pos ev) \<and> contiguous (event_pos (last acc)) (event_pos ev))"
proof -
  have "\<forall>a\<in>set acc. pos_less (event_pos a) (event_pos ev)"
    if "sorted_wrt (\<lambda>a b. pos_less (event_pos a) (event_pos b)) acc" "pos_less (event_pos (last acc)) (event_pos ev)"
    using that by (induction acc) (simp_all split: if_splits, metis last_in_set pos_less_trans)
  then show ?thesis
    by (cases "acc = []") (auto simp: stream_ok_def sorted_wrt_append successively_append_iff)
qed

section \<open>The trait contract\<close>

locale projection =
  fixes P :: "'p projection_ops"
  assumes ok_bumps: "p_on_event P ev cx p = (Inr (), p') \<Longrightarrow> p_last_applied P p' = Some (er_sequence ev, er_tick ev)"
    and err_keeps: "p_on_event P ev cx p = (Inl e, p') \<Longrightarrow> p_last_applied P p' = p_last_applied P p"
    and event_observes: "p_observes P (snd (p_on_event P ev cx p)) = p_observes P p"
    and change_observes: "p_observes P (snd (p_on_state_change P s p)) = p_observes P p"
    and change_keeps: "p_last_applied P (snd (p_on_state_change P s p)) = p_last_applied P p"

context projection begin

text \<open>The state of a slot: the projection registered as \<^term>\<open>p0\<close> has applied what it is owed of
\<^term>\<open>es\<close>, and nothing else.\<close>
definition slot :: "'p \<Rightarrow> event_record list \<Rightarrow> 'p \<times> event_record list \<Rightarrow> bool" where
  "slot p0 es q \<longleftrightarrow>
     p_observes P (fst q) = p_observes P p0
   \<and> snd q = filter (wants P p0) es
   \<and> p_last_applied P (fst q) = (if snd q = [] then p_last_applied P p0
        else Some (er_sequence (last (snd q)), er_tick (last (snd q))))"

lemma slot_init: "slot p0 [] (p0, [])"
  by (simp add: slot_def)

lemma slot_unwanted: "\<not> wants P p0 ev \<Longrightarrow> slot p0 (es @ [ev]) q = slot p0 es q"
  by (simp add: slot_def)

lemma slot_observes: "slot p0 es q \<Longrightarrow> p_observes P (fst q) = p_observes P p0"
  by (simp add: slot_def)

lemma slot_already:
  assumes "slot p0 es q" "\<forall>e\<in>set es. pos_less (event_pos e) (event_pos ev)"
  shows "already_applied P ev (fst q) \<longleftrightarrow> already_applied P ev p0"
proof (cases "snd q = []")
  case True
  then show ?thesis using assms(1) by (simp add: slot_def already_applied_def)
next
  case False
  have log: "snd q = filter (wants P p0) es" using assms(1) by (simp add: slot_def)
  from False have "last (snd q) \<in> set (snd q)" by simp
  then have l: "last (snd q) \<in> set es" "wants P p0 (last (snd q))" by (auto simp: log)
  then have less: "pos_less (event_pos (last (snd q))) (event_pos ev)" using assms(2) by blast
  have "\<not> already_applied P ev (fst q)"
    using assms(1) False less by (simp add: slot_def already_applied_alt flip: event_pos_def)
  moreover have "\<not> already_applied P ev p0"
    using l(2) by (auto simp: wants_def dest: already_applied_mono[OF less])
  ultimately show ?thesis by simp
qed

lemma slot_done:
  assumes "slot p0 (es @ [ev]) q" "wants P p0 ev"
  shows "already_applied P ev (fst q)"
  using assms by (auto simp: slot_def already_applied_def)

lemma slot_apply:
  assumes "slot p0 es q" "wants P p0 ev" "p_on_event (recording P) ev cx q = (Inr u, q')"
  shows "slot p0 (es @ [ev]) q'"
proof -
  obtain p' where p': "p_on_event P ev cx (fst q) = (Inr (), p')" "q' = (p', snd q @ [ev])"
    using assms(3) by (auto simp: recording_def split: prod.splits sum.splits)
  moreover have "p_observes P p' = p_observes P (fst q)" using event_observes[of ev cx "fst q"] p' by simp
  ultimately show ?thesis using assms(1,2) ok_bumps[OF p'(1)] by (simp add: slot_def)
qed

lemma slot_error:
  assumes "slot p0 es q" "p_on_event (recording P) ev cx q = (Inl e, q')"
  shows "slot p0 es q'"
proof -
  obtain p' where p': "p_on_event P ev cx (fst q) = (Inl e, p')" "q' = (p', snd q)"
    using assms(2) by (auto simp: recording_def split: prod.splits sum.splits)
  moreover have "p_observes P p' = p_observes P (fst q)" using event_observes[of ev cx "fst q"] p' by simp
  ultimately show ?thesis using assms(1) err_keeps[OF p'(1)] by (simp add: slot_def)
qed

lemma slot_state_change: "slot p0 es q \<Longrightarrow> slot p0 es (snd (p_on_state_change (recording P) s q))"
  using change_observes[of s "fst q"] change_keeps[of s "fst q"]
  by (auto simp: slot_def recording_def split: prod.splits)

lemma recording_already: "already_applied (recording P) ev q = already_applied P ev (fst q)"
  by (simp add: already_applied_def recording_def)

text \<open>Where a slot is while \<^term>\<open>ev\<close> is being applied on top of \<^term>\<open>acc\<close>: before it or after it.\<close>
definition slots :: "'p list \<Rightarrow> event_record list \<Rightarrow> event_record \<Rightarrow> (nat \<Rightarrow> bool) \<Rightarrow> ('p \<times> event_record list) list \<Rightarrow> bool" where
  "slots ps0 acc ev b qs \<longleftrightarrow> length qs = length ps0 \<and>
     (\<forall>j<length ps0. slot (ps0 ! j) (acc @ (if b j then [ev] else [])) (qs ! j))"

lemma slots_update:
  assumes "slots ps0 acc ev b qs" "i < length ps0" "slot (ps0 ! i) (acc @ (if x then [ev] else [])) q"
  shows "slots ps0 acc ev (b(i := x)) (qs[i := q])"
  using assms by (auto simp: slots_def nth_list_update)

lemma slots_skip:
  assumes "slots ps0 acc ev b qs" "i < length ps0" "\<forall>e\<in>set acc. pos_less (event_pos e) (event_pos ev)"
    and "already_applied P ev (fst (qs ! i))"
  shows "slots ps0 acc ev (b(i := True)) qs"
proof -
  have i: "slot (ps0 ! i) (acc @ (if b i then [ev] else [])) (qs ! i)" using assms by (simp add: slots_def)
  have "slot (ps0 ! i) (acc @ [ev]) (qs ! i)"
  proof (cases "b i")
    case False
    then have "already_applied P ev (ps0 ! i)" using i assms(3,4) slot_already[of "ps0 ! i" acc "qs ! i" ev] by simp
    then show ?thesis using i False by (simp add: wants_def slot_unwanted)
  qed (use i in simp)
  then show ?thesis using assms(1) by (auto simp: slots_def)
qed

lemma fan_out_slots:
  assumes "slots ps0 acc ev b qs" "\<forall>e\<in>set acc. pos_less (event_pos e) (event_pos ev)"
    and "set is \<subseteq> {j. j < length ps0 \<and> er_type_code ev \<in> set (p_observes P (ps0 ! j))}"
    and "fan_out (recording P) ev cx is n qs = (res, qs')"
  shows "case res of Inl _ \<Rightarrow> \<exists>b'. slots ps0 acc ev b' qs'
       | Inr _ \<Rightarrow> slots ps0 acc ev (\<lambda>j. b j \<or> j \<in> set is) qs'"
  using assms
proof (induction "is" arbitrary: b n qs)
  case Nil
  then show ?case by auto
next
  case (Cons i "is")
  have i: "i < length ps0" and obs: "er_type_code ev \<in> set (p_observes P (ps0 ! i))"
    and sub: "set is \<subseteq> {j. j < length ps0 \<and> er_type_code ev \<in> set (p_observes P (ps0 ! j))}"
    using Cons.prems(3) by auto
  have eq: "(\<lambda>j. (b(i := True)) j \<or> j \<in> set is) = (\<lambda>j. b j \<or> j \<in> set (i # is))" by auto
  have qi: "slot (ps0 ! i) (acc @ (if b i then [ev] else [])) (qs ! i)" using Cons.prems(1) i by (simp add: slots_def)
  show ?case
  proof (cases "already_applied P ev (fst (qs ! i))")
    case True
    then have "fan_out (recording P) ev cx is n qs = (res, qs')" using Cons.prems(4) by (simp add: recording_already)
    from Cons.IH[OF slots_skip[OF Cons.prems(1) i Cons.prems(2) True] Cons.prems(2) sub this]
    show ?thesis unfolding eq .
  next
    case na: False
    then have bi: "\<not> b i" and w: "wants P (ps0 ! i) ev"
    proof -
      show "\<not> b i"
      proof
        assume "b i"
        then have s: "slot (ps0 ! i) (acc @ [ev]) (qs ! i)" using qi by simp
        show False
        proof (cases "wants P (ps0 ! i) ev")
          case True then show False using slot_done[OF s] na by simp
        next
          case False
          then have "slot (ps0 ! i) acc (qs ! i)" "already_applied P ev (ps0 ! i)"
            using s slot_unwanted obs by (auto simp: wants_def)
          then show False using slot_already Cons.prems(2) na by blast
        qed
      qed
      then have "slot (ps0 ! i) acc (qs ! i)" using qi by simp
      then show "wants P (ps0 ! i) ev" using slot_already Cons.prems(2) na obs by (auto simp: wants_def)
    qed
    have qi': "slot (ps0 ! i) acc (qs ! i)" using qi bi by simp
    obtain r q' where ev: "p_on_event (recording P) ev cx (qs ! i) = (r, q')" by (metis surj_pair)
    show ?thesis
    proof (cases r)
      case (Inl e)
      have "slots ps0 acc ev (b(i := False)) (qs[i := q'])"
        using slots_update[OF Cons.prems(1) i, of False q'] slot_error[OF qi'] ev Inl by simp
      then show ?thesis using Cons.prems(4) na ev Inl by (auto simp: recording_already)
    next
      case (Inr u)
      have s: "slots ps0 acc ev (b(i := True)) (qs[i := q'])"
        using slots_update[OF Cons.prems(1) i, of True q'] slot_apply[OF qi' w] ev Inr by simp
      have "fan_out (recording P) ev cx is (n + 1) (qs[i := q']) = (res, qs')"
        using Cons.prems(4) na ev Inr by (simp add: recording_already)
      from Cons.IH[OF s Cons.prems(2) sub this] show ?thesis unfolding eq .
    qed
  qed
qed

end

section \<open>Building the index\<close>

definition observers :: "'p router \<Rightarrow> type_code \<Rightarrow> nat list" where
  "observers r tc = (case observers_by_code r tc of None \<Rightarrow> [] | Some is \<Rightarrow> is)"

definition index_ok :: "'p projection_ops \<Rightarrow> 'p list \<Rightarrow> 'q router \<Rightarrow> bool" where
  "index_ok P ps0 r \<longleftrightarrow> (\<forall>tc. set (observers r tc) = {j. j < length ps0 \<and> tc \<in> set (p_observes P (ps0 ! j))})"

lemma index_push_fold:
  "set (case fold (index_push n) tcs m tc of None \<Rightarrow> [] | Some is \<Rightarrow> is)
     = set (case m tc of None \<Rightarrow> [] | Some is \<Rightarrow> is) \<union> (if tc \<in> set tcs then {n} else {})"
  by (induction tcs arbitrary: m) (auto simp: index_push_def split: option.splits)

lemma start_router_snoc: "start_router P (ps @ [p]) = register P p (start_router P ps)"
  by (simp add: start_router_def)

lemma start_router_fields:
  "projections (start_router P ps) = ps \<and> cursor (start_router P ps) = None
   \<and> last_event (start_router P ps) = None \<and> pending_retry (start_router P ps) = None
   \<and> rstate (start_router P ps) = ObsPassive"
  by (induction ps rule: rev_induct) (auto simp: start_router_snoc register_def start_router_def ProjectionRouter_new_def)

lemma start_router_index: "index_ok P ps (start_router P ps)"
proof (induction ps rule: rev_induct)
  case Nil
  then show ?case by (simp add: index_ok_def observers_def start_router_def ProjectionRouter_new_def)
next
  case (snoc p ps)
  have "set (observers (register P p (start_router P ps)) tc)
      = set (observers (start_router P ps) tc) \<union> (if tc \<in> set (p_observes P p) then {length ps} else {})" for tc
    using index_push_fold[of "length ps" "p_observes P p" "observers_by_code (start_router P ps)" tc]
    by (simp add: observers_def register_def start_router_fields)
  then show ?case using snoc
    by (auto simp: index_ok_def start_router_snoc nth_append less_Suc_eq split: if_splits)
qed

lemma index_ok_recording:
  "index_ok (recording P) (map (\<lambda>p. (p, [])) ps0) r \<longleftrightarrow> index_ok P ps0 r"
proof -
  have "{j. j < length ps0 \<and> tc \<in> set (p_observes (recording P) (map (\<lambda>p. (p, [])) ps0 ! j))}
      = {j. j < length ps0 \<and> tc \<in> set (p_observes P (ps0 ! j))}" for tc
    by (auto simp: recording_def)
  then show ?thesis by (simp add: index_ok_def)
qed

section \<open>The router invariant\<close>

text \<open>The event a failed fan-out pinned.\<close>
definition pinned :: "'q router \<Rightarrow> event_record option" where
  "pinned r = map_option (\<lambda>(c, tc, payload). \<lparr>er_type_code = tc, er_sequence = pcu_sequence c,
     er_tick = pcu_tick c, er_payload = payload\<rparr>) (pending_retry r)"

lemma pinned_Some: "pinned r = Some ev \<longleftrightarrow> pending_retry r = Some (event_pos ev, er_type_code ev, er_payload ev)"
  by (cases ev) (auto simp: pinned_def event_pos_def)

lemma pinned_None: "pinned r = None \<longleftrightarrow> pending_retry r = None"
  by (simp add: pinned_def)

text \<open>A dispatch that passes the checks: its event is the pinned one, or the next of the stream.\<close>
lemma stream_check_pass:
  assumes "stream_check ev r = Inr ()"
  shows "cursor r \<noteq> Some (event_pos ev) \<and>
    (case pinned r of
       Some pe \<Rightarrow> pe = ev
     | None \<Rightarrow> case cursor r of None \<Rightarrow> True
         | Some c \<Rightarrow> pos_less c (event_pos ev) \<and> contiguous c (event_pos ev))"
proof (cases "pending_retry r")
  case None
  then show ?thesis using assms pos_less_total[of "event_pos ev"]
    by (auto simp: stream_check_def Let_def pinned_def split: if_splits option.splits)
next
  case (Some x)
  obtain c tc pl where x: "x = (c, tc, pl)" by (cases x)
  have "c = event_pos ev" "tc = er_type_code ev" "pl = er_payload ev" "cursor r \<noteq> Some (event_pos ev)"
    using assms Some x by (auto simp: stream_check_def Let_def split: if_splits)
  then have "pinned r = Some ev" using Some x by (simp add: pinned_Some)
  then show ?thesis using \<open>cursor r \<noteq> _\<close> by simp
qed

lemma stream_check_early: "stream_check ev r = Inl (Inr n) \<Longrightarrow> n = 0 \<and> cursor r = Some (event_pos ev)"
  by (auto simp: stream_check_def Let_def split: if_splits option.splits)

lemma dispatch_event_cases:
  obtains (refused) res where "dispatch_event P ev cx r = (res, r)"
      "case res of Inl _ \<Rightarrow> True | Inr _ \<Rightarrow> cursor r = Some (event_pos ev)"
  | (failed) e ps where "stream_check ev r = Inr ()" "fan_out P ev cx (observers r (er_type_code ev)) 0 (projections r) = (Inl e, ps)"
      "dispatch_event P ev cx r = (Inl e, r\<lparr>projections := ps,
         pending_retry := Some (event_pos ev, er_type_code ev, er_payload ev)\<rparr>)"
  | (accepted) n ps where "stream_check ev r = Inr ()" "fan_out P ev cx (observers r (er_type_code ev)) 0 (projections r) = (Inr n, ps)"
      "dispatch_event P ev cx r = (Inr n, r\<lparr>projections := ps, cursor := Some (event_pos ev),
         last_event := Some (er_type_code ev, er_payload ev), pending_retry := None\<rparr>)"
proof (cases "rstate r = ObsActive")
  case False
  then show ?thesis using refused by (simp add: dispatch_event_def)
next
  case act: True
  show ?thesis
  proof (cases "stream_check ev r")
    case (Inl early)
    then have "dispatch_event P ev cx r = (early, r)" using act by (simp add: dispatch_event_def)
    then show ?thesis using refused stream_check_early[of ev r] Inl by (cases early) auto
  next
    case (Inr u)
    then have sc: "stream_check ev r = Inr ()" by simp
    obtain res ps where fo: "fan_out P ev cx (observers r (er_type_code ev)) 0 (projections r) = (res, ps)"
      by (metis surj_pair)
    then show ?thesis
      using sc act failed accepted
      by (cases res) (auto simp: dispatch_event_def observers_def)
  qed
qed

context projection begin

definition rinv :: "'p list \<Rightarrow> event_record list \<times> ('p \<times> event_record list) router \<Rightarrow> bool" where
  "rinv ps0 x \<longleftrightarrow> (case x of (acc, r) \<Rightarrow>
     stream_ok acc
   \<and> cursor r = (if acc = [] then None else Some (event_pos (last acc)))
   \<and> last_event r = (if acc = [] then None else Some (er_type_code (last acc), er_payload (last acc)))
   \<and> index_ok P ps0 r
   \<and> (case pinned r of
        None \<Rightarrow> \<forall>ev. slots ps0 acc ev (\<lambda>_. False) (projections r)
      | Some ev \<Rightarrow> stream_ok (acc @ [ev]) \<and> (\<exists>b. slots ps0 acc ev b (projections r))))"

lemma rinv_start: "rinv ps0 ([], start_router (recording P) (map (\<lambda>p. (p, [])) ps0))"
  using start_router_index[of "recording P" "map (\<lambda>p. (p, [])) ps0"]
  by (simp add: rinv_def start_router_fields stream_ok_def index_ok_recording pinned_def slots_def slot_init)

lemma rinv_dispatch:
  assumes "rinv ps0 (acc, r)"
  shows "rinv ps0 (router_step (recording P) (CDispatch ev cx) (acc, r))"
proof -
  have pass: "stream_ok (acc @ [ev])" "cursor r \<noteq> Some (event_pos ev)" "\<exists>b. slots ps0 acc ev b (projections r)"
    if "stream_check ev r = Inr ()"
  proof -
    from stream_check_pass[OF that] assms
    show "stream_ok (acc @ [ev])" "cursor r \<noteq> Some (event_pos ev)" "\<exists>b. slots ps0 acc ev b (projections r)"
      by (auto simp: rinv_def stream_ok_snoc split: option.splits if_splits)
  qed
  have less: "\<forall>e\<in>set acc. pos_less (event_pos e) (event_pos ev)" if "stream_check ev r = Inr ()"
    using pass(1)[OF that] by (simp add: stream_ok_def sorted_wrt_append)
  have sub: "set (observers r (er_type_code ev)) \<subseteq> {j. j < length ps0 \<and> er_type_code ev \<in> set (p_observes P (ps0 ! j))}"
    using assms by (simp add: rinv_def index_ok_def)
  have ix: "index_ok P ps0 r" using assms by (simp add: rinv_def)
  show ?thesis
  proof (cases rule: dispatch_event_cases[of "recording P" ev cx r])
    case (refused res)
    then show ?thesis using assms by (cases res) simp_all
  next
    case (failed e ps)
    obtain b where "slots ps0 acc ev b (projections r)" using pass(3)[OF failed(1)] by blast
    from fan_out_slots[OF this less[OF failed(1)] sub failed(2)]
    have "\<exists>b'. slots ps0 acc ev b' ps" by simp
    moreover have "pinned (r\<lparr>projections := ps, pending_retry := Some (event_pos ev, er_type_code ev, er_payload ev)\<rparr>) = Some ev"
      by (simp add: pinned_Some)
    ultimately show ?thesis using assms failed(3) pass(1)[OF failed(1)]
      by (simp add: rinv_def index_ok_def observers_def)
  next
    case (accepted n ps)
    obtain b where "slots ps0 acc ev b (projections r)" using pass(3)[OF accepted(1)] by blast
    from fan_out_slots[OF this less[OF accepted(1)] sub accepted(2)]
    have s: "slots ps0 acc ev (\<lambda>j. b j \<or> j \<in> set (observers r (er_type_code ev))) ps" by simp
    have "slot (ps0 ! j) (acc @ [ev]) (ps ! j)" if "j < length ps0" for j
    proof (cases "er_type_code ev \<in> set (p_observes P (ps0 ! j))")
      case True
      then have "j \<in> set (observers r (er_type_code ev))" using ix that by (simp add: index_ok_def)
      then show ?thesis using s that by (auto simp: slots_def)
    next
      case False
      then have "\<not> wants P (ps0 ! j) ev" by (simp add: wants_def)
      then show ?thesis using s that by (auto simp: slots_def slot_unwanted split: if_splits)
    qed
    then have "\<forall>ev'. slots ps0 (acc @ [ev]) ev' (\<lambda>_. False) ps" using s by (simp add: slots_def)
    then show ?thesis using accepted(3) pass(1,2)[OF accepted(1)] ix
      by (simp add: rinv_def pinned_def index_ok_def observers_def)
  qed
qed

lemma slots_notify:
  assumes "slots ps0 acc ev b qs" "notify_all (recording P) s qs = (res, qs')"
  shows "slots ps0 acc ev b qs'"
proof -
  have "length qs' = length qs \<and> (\<forall>j<length qs. qs' ! j = qs ! j \<or> qs' ! j = snd (p_on_state_change (recording P) s (qs ! j)))"
    using assms(2)
  proof (induction qs arbitrary: res qs')
    case (Cons q qs)
    obtain r1 q1 where 1: "p_on_state_change (recording P) s q = (r1, q1)" by (metis surj_pair)
    obtain r2 qs2 where 2: "notify_all (recording P) s qs = (r2, qs2)" by (metis surj_pair)
    have IH: "length qs2 = length qs" "\<forall>j<length qs. qs2 ! j = qs ! j \<or> qs2 ! j = snd (p_on_state_change (recording P) s (qs ! j))"
      using Cons.IH[OF 2] by auto
    show ?case using Cons.prems 1 2 IH
      by (auto simp: less_Suc_eq_0_disj split: sum.splits)
  qed simp
  then show ?thesis using assms(1) slot_state_change unfolding slots_def by metis
qed

lemma rinv_projections:
  assumes "rinv ps0 (acc, r)" "\<And>ev b. slots ps0 acc ev b (projections r) \<Longrightarrow> slots ps0 acc ev b ps"
  shows "rinv ps0 (acc, r\<lparr>projections := ps\<rparr>)"
proof -
  have p: "pinned (r\<lparr>projections := ps\<rparr>) = pinned r" "index_ok P ps0 (r\<lparr>projections := ps\<rparr>) = index_ok P ps0 r"
    by (simp_all add: pinned_def index_ok_def observers_def)
  show ?thesis
  proof (cases "pinned r")
    case None
    then show ?thesis using assms by (simp add: rinv_def p)
  next
    case (Some ev)
    then obtain b where "slots ps0 acc ev b (projections r)" using assms(1) by (auto simp: rinv_def)
    then have "\<exists>b. slots ps0 acc ev b ps" using assms(2) by blast
    then show ?thesis using assms(1) Some by (simp add: rinv_def p)
  qed
qed

lemma rinv_state: "rinv ps0 (acc, r\<lparr>rstate := s\<rparr>) = rinv ps0 (acc, r)"
proof -
  have p: "pinned (r\<lparr>rstate := s\<rparr>) = pinned r" "index_ok P ps0 (r\<lparr>rstate := s\<rparr>) = index_ok P ps0 r"
    by (simp_all add: pinned_def index_ok_def observers_def)
  show ?thesis by (cases "pinned r") (simp_all add: rinv_def p)
qed

lemma rinv_transition:
  assumes "rinv ps0 (acc, r)"
  shows "rinv ps0 (acc, snd (transition (recording P) s r))"
proof (cases "rstate r = ObsDraining")
  case True
  then show ?thesis using assms by (simp add: transition_def)
next
  case False
  obtain res ps where n: "notify_all (recording P) s (projections r) = (res, ps)" by (metis surj_pair)
  have "rinv ps0 (acc, r\<lparr>projections := ps\<rparr>)"
    using rinv_projections[OF assms] slots_notify[OF _ n] by blast
  moreover have "rinv ps0 (acc, (r\<lparr>projections := ps\<rparr>)\<lparr>rstate := s\<rparr>)"
    using calculation unfolding rinv_state .
  ultimately show ?thesis using False n by (cases res) (simp_all add: transition_def)
qed

lemma rinv_run: "rinv ps0 x \<Longrightarrow> rinv ps0 (run_router (recording P) cmds x)"
proof (induction cmds arbitrary: x)
  case (Cons cmd cmds)
  obtain acc r where x: "x = (acc, r)" by (cases x)
  have "rinv ps0 (router_step (recording P) cmd x)"
    using rinv_dispatch rinv_transition Cons.prems
    by (cases cmd) (auto simp: x promote_to_active_def demote_to_passive_def begin_draining_def simp del: router_step.simps(1))
  then show ?case using Cons.IH by (simp add: run_router_def)
qed (simp add: run_router_def)

end

section \<open>Recording is invisible\<close>

definition forget_log :: "('p \<times> 'l) router \<Rightarrow> 'p router" where
  "forget_log r = \<lparr>projections = map fst (projections r), observers_by_code = observers_by_code r,
     cursor = cursor r, last_event = last_event r, pending_retry = pending_retry r, rstate = rstate r\<rparr>"

lemma forget_log_sel [simp]:
  "projections (forget_log r) = map fst (projections r)" "observers_by_code (forget_log r) = observers_by_code r"
  "cursor (forget_log r) = cursor r" "last_event (forget_log r) = last_event r"
  "pending_retry (forget_log r) = pending_retry r" "rstate (forget_log r) = rstate r"
  by (simp_all add: forget_log_def)

lemma recording_on_event:
  "p_on_event P ev cx (fst q) = apsnd fst (p_on_event (recording P) ev cx q)"
  by (auto simp: recording_def split: prod.splits sum.splits)

lemma fan_out_forget:
  "set is \<subseteq> {..<length qs} \<Longrightarrow>
     fan_out P ev cx is n (map fst qs) = apsnd (map fst) (fan_out (recording P) ev cx is n qs)"
proof (induction "is" arbitrary: n qs)
  case (Cons i "is")
  have a: "already_applied (recording P) ev q = already_applied P ev (fst q)" for q
    by (simp add: already_applied_def recording_def)
  obtain r q' where e: "p_on_event (recording P) ev cx (qs ! i) = (r, q')" by (metis surj_pair)
  then have e': "p_on_event P ev cx (fst (qs ! i)) = (r, fst q')" by (simp add: recording_on_event)
  have i: "i < length qs" using Cons.prems by simp
  have IH: "fan_out P ev cx is m (map fst xs) = apsnd (map fst) (fan_out (recording P) ev cx is m xs)"
    if "length xs = length qs" for m xs using Cons.IH[of xs m] Cons.prems that by simp
  show ?case
    using IH[of qs n] IH[of "qs[i := q']" "n + 1"]
    by (cases r) (simp_all add: i a e e' flip: map_update)
qed simp

lemma notify_all_forget:
  "notify_all P s (map fst qs) = apsnd (map fst) (notify_all (recording P) s qs)"
  by (induction qs) (auto simp: recording_def split: prod.splits sum.splits)

lemma transition_forget:
  "forget_log (snd (transition (recording P) s r)) = snd (transition P s (forget_log r))"
  by (auto simp: transition_def forget_log_def notify_all_forget split: prod.splits sum.splits)

lemma start_router_forget:
  "forget_log (start_router (recording P) (map (\<lambda>p. (p, [])) ps)) = start_router P ps"
proof (induction ps rule: rev_induct)
  case Nil
  then show ?case by (simp add: forget_log_def start_router_def ProjectionRouter_new_def)
next
  case (snoc p ps)
  have "forget_log (register (recording P) (p, []) r) = register P p (forget_log r)" for r
    by (simp add: forget_log_def register_def recording_def)
  then show ?case using snoc by (simp add: start_router_snoc)
qed

lemma dispatch_event_forget:
  assumes "set (observers r (er_type_code ev)) \<subseteq> {..<length (projections r)}"
  shows "dispatch_event P ev cx (forget_log r) = apsnd forget_log (dispatch_event (recording P) ev cx r)"
proof -
  have c: "stream_check ev (forget_log r) = stream_check ev r"
    unfolding stream_check_def forget_log_sel ..
  have u: "forget_log (r\<lparr>projections := ps, pending_retry := x\<rparr>)
        = (forget_log r)\<lparr>projections := map fst ps, pending_retry := x\<rparr>"
      "forget_log (r\<lparr>projections := ps, cursor := y, last_event := z, pending_retry := x\<rparr>)
        = (forget_log r)\<lparr>projections := map fst ps, cursor := y, last_event := z, pending_retry := x\<rparr>"
    for ps x y z by (simp_all add: forget_log_def)
  obtain res ps where f: "fan_out (recording P) ev cx (observers r (er_type_code ev)) 0 (projections r) = (res, ps)"
    by (metis surj_pair)
  then have f': "fan_out P ev cx (observers r (er_type_code ev)) 0 (map fst (projections r)) = (res, map fst ps)"
    using fan_out_forget[OF assms, of P ev cx 0] by simp
  show ?thesis
    using f f' unfolding dispatch_event_def c observers_def forget_log_sel
    by (cases "stream_check ev r"; cases res) (simp_all add: u)
qed

context projection begin

lemma rinv_in_range: "rinv ps0 (acc, r) \<Longrightarrow> set (observers r tc) \<subseteq> {..<length (projections r)}"
  by (auto simp: rinv_def index_ok_def slots_def split: option.splits)

lemma run_forget:
  "rinv ps0 (acc, r) \<Longrightarrow>
     run_router P cmds (acc, forget_log r) = apsnd forget_log (run_router (recording P) cmds (acc, r))"
proof (induction cmds arbitrary: acc r)
  case (Cons cmd cmds)
  have "router_step P cmd (acc, forget_log r) = apsnd forget_log (router_step (recording P) cmd (acc, r))"
  proof (cases cmd)
    case (CDispatch ev cx)
    then show ?thesis
      using dispatch_event_forget[OF rinv_in_range[OF Cons.prems], of P ev cx]
      by (auto simp: forget_log_def split: prod.splits sum.splits)
  qed (simp_all add: promote_to_active_def demote_to_passive_def begin_draining_def transition_forget)
  moreover obtain acc' r' where s: "router_step (recording P) cmd (acc, r) = (acc', r')" by (metis surj_pair)
  moreover have "rinv ps0 (acc', r')" using rinv_run[OF Cons.prems, of "[cmd]"] s by (simp add: run_router_def)
  ultimately show ?case using Cons.IH by (simp add: run_router_def)
qed (simp add: run_router_def)

lemma exactly_once:
  assumes "run_router (recording P) cmds ([], start_router (recording P) (map (\<lambda>p. (p, [])) ps0)) = (acc, r)"
  shows "run_router P cmds ([], start_router P ps0) = (acc, forget_log r)
     \<and> stream_ok acc
     \<and> length (projections r) = length ps0
     \<and> (\<forall>j<length ps0. snd (projections r ! j) = filter (wants P (ps0 ! j)) acc
          \<or> (\<exists>ev. pending_retry r = Some (event_pos ev, er_type_code ev, er_payload ev)
               \<and> stream_ok (acc @ [ev])
               \<and> snd (projections r ! j) = filter (wants P (ps0 ! j)) (acc @ [ev])))"
proof -
  have inv: "rinv ps0 (acc, r)" using rinv_run[OF rinv_start, where cmds = cmds] assms by metis
  have sim: "run_router P cmds ([], start_router P ps0) = (acc, forget_log r)"
    using run_forget[OF rinv_start, where cmds = cmds] assms by (simp add: start_router_forget)
  show ?thesis
  proof (cases "pinned r")
    case None
    then show ?thesis using inv sim by (simp add: rinv_def slots_def slot_def)
  next
    case (Some ev)
    then have p: "pending_retry r = Some (event_pos ev, er_type_code ev, er_payload ev)" by (simp add: pinned_Some)
    from Some inv obtain b where b: "slots ps0 acc ev b (projections r)" and ok: "stream_ok acc" "stream_ok (acc @ [ev])"
      by (auto simp: rinv_def)
    have "snd (projections r ! j) = filter (wants P (ps0 ! j)) acc
        \<or> snd (projections r ! j) = filter (wants P (ps0 ! j)) (acc @ [ev])" if "j < length ps0" for j
      using b that by (cases "b j") (auto simp: slots_def slot_def)
    moreover have "length (projections r) = length ps0" using b by (simp add: slots_def)
    ultimately show ?thesis using sim ok p by blast
  qed
qed

end

section \<open>The row store\<close>

text \<open>The contract of the store trait, one table at a time.\<close>
locale keyed_table =
  fixes upsert :: "'row \<Rightarrow> ('s, projection_error, unit) act"
    and get :: "'k \<Rightarrow> 's \<Rightarrow> 'row option"
    and key :: "'row \<Rightarrow> 'k"
  assumes upsert_ok: "fst (upsert row s) = Inr ()"
    and get_upsert: "get k (snd (upsert row s)) = (if k = key row then Some row else get k s)"
begin

definition upsert_all :: "'row list \<Rightarrow> 's \<Rightarrow> 's" where
  "upsert_all rows s = foldl (\<lambda>s row. snd (upsert row s)) s rows"

lemma get_upsert_all:
  "get k (upsert_all rows s) =
     (case filter (\<lambda>row. key row = k) rows of [] \<Rightarrow> get k s | l \<Rightarrow> Some (last l))"
  by (induction rows rule: rev_induct) (auto simp: upsert_all_def get_upsert split: list.splits)

end

interpretation actor_table: keyed_table upsert_actor get_actor apr_actor_id
  by unfold_locales (auto simp: upsert_actor_def get_actor_def)
interpretation space_table: keyed_table upsert_space get_space spr_space_id
  by unfold_locales (auto simp: upsert_space_def get_space_def)
interpretation entry_table: keyed_table upsert_entry get_entry epr_entry_id
  by unfold_locales (auto simp: upsert_entry_def get_entry_def)
interpretation activity_table: keyed_table upsert_activity get_activity vpr_activity_id
  by unfold_locales (auto simp: upsert_activity_def get_activity_def)

section \<open>The fan-out honours the contract\<close>

interpretation fanout: projection "fanout_ops pc" for pc
proof
  show "p_last_applied (fanout_ops pc) p' = Some (er_sequence ev, er_tick ev)"
    if "p_on_event (fanout_ops pc) ev cx p = (Inr (), p')" for ev cx p p'
    using that by (auto simp: fanout_ops_def fanout_on_event_def cursor_last_applied_def event_pos_def split: option.splits)
  show "p_last_applied (fanout_ops pc) p' = p_last_applied (fanout_ops pc) p"
    if "p_on_event (fanout_ops pc) ev cx p = (Inl e, p')" for ev cx p e p'
    using that by (auto simp: fanout_ops_def fanout_on_event_def split: option.splits)
qed (simp_all add: fanout_ops_def default_on_state_change_def)

text \<open>A property of every slot that the operations of the projection keep is kept by the router.\<close>
lemma fan_out_slotwise:
  assumes "\<And>ev cx q. Q q \<Longrightarrow> Q (snd (p_on_event P ev cx q))" "list_all Q qs"
  shows "list_all Q (snd (fan_out P ev cx is n qs))"
  using assms(2)
proof (induction "is" arbitrary: n qs)
  case (Cons i "is")
  obtain r q' where e: "p_on_event P ev cx (qs ! i) = (r, q')" by (metis surj_pair)
  have "list_all Q (qs[i := q'])"
  proof (cases "i < length qs")
    case True
    then have "Q q'" using assms(1)[of "qs ! i" ev cx] Cons.prems e by (simp add: list_all_length)
    then show ?thesis using Cons.prems True by (auto simp: list_all_length nth_list_update)
  next
    case False
    then show ?thesis using Cons.prems by (simp add: list_update_beyond)
  qed
  then show ?case using Cons e by (cases r) simp_all
qed simp

lemma notify_all_slotwise:
  assumes "\<And>s q. Q q \<Longrightarrow> Q (snd (p_on_state_change P s q))" "list_all Q qs"
  shows "list_all Q (snd (notify_all P s qs))"
  using assms(2)
proof (induction qs)
  case (Cons q qs)
  then show ?case using assms(1)[of q s] by (auto split: prod.splits sum.splits)
qed simp

text \<open>\<^term>\<open>refuses\<close> tells which events make \<^verbatim>\<open>on_event\<close> fail.\<close>
lemma run_slotwise:
  assumes ev: "\<And>ev cx q. Q q \<Longrightarrow> Q (snd (p_on_event P ev cx q))"
    and ch: "\<And>s q. Q q \<Longrightarrow> Q (snd (p_on_state_change P s q))"
    and ref: "\<And>ev cx q e q'. p_on_event P ev cx q = (Inl e, q') \<Longrightarrow> refuses ev"
    and "list_all Q (projections (snd x))" "pred_option refuses (pinned (snd x))"
  shows "list_all Q (projections (snd (run_router P cmds x))) \<and> pred_option refuses (pinned (snd (run_router P cmds x)))"
  using assms(4,5)
proof (induction cmds arbitrary: x)
  case (Cons cmd cmds)
  have f: "refuses ev" if "fan_out P ev cx is n qs = (Inl e, qs')" for ev cx "is" n qs e qs'
    using that by (induction "is" arbitrary: n qs) (auto split: if_splits prod.splits sum.splits dest: ref)
  have t: "list_all Q (projections (snd (transition P s r))) \<and> pinned (snd (transition P s r)) = pinned r"
    if "list_all Q (projections r)" for s r
    using notify_all_slotwise[of Q P "projections r" s, OF ch that] that
    by (auto simp: transition_def pinned_def split: prod.splits sum.splits)
  obtain acc r where x: "x = (acc, r)" by (cases x)
  have "list_all Q (projections (snd (router_step P cmd x))) \<and> pred_option refuses (pinned (snd (router_step P cmd x)))"
  proof (cases cmd)
    case (CDispatch ev cx)
    note step = this
    have l: "list_all Q ps" if "fan_out P ev cx (observers r (er_type_code ev)) 0 (projections r) = (res, ps)" for res ps
      using fan_out_slotwise[of Q P "projections r" ev cx, OF assms(1)] Cons.prems(1) that x by (metis snd_conv)
    show ?thesis
    proof (cases rule: dispatch_event_cases[of P ev cx r])
      case (refused res)
      then show ?thesis using Cons.prems step x by (cases res) simp_all
    next
      case (failed e ps)
      have "pinned (snd (dispatch_event P ev cx r)) = Some ev" unfolding failed(3) by (simp add: pinned_Some)
      then show ?thesis using failed(3) l[OF failed(2)] f[OF failed(2)] step x by simp
    next
      case (accepted n ps)
      then show ?thesis using l[OF accepted(2)] step x by (simp add: pinned_def)
    qed
  qed (use Cons.prems t x in \<open>simp_all add: promote_to_active_def demote_to_passive_def begin_draining_def\<close>)
  then show ?case using Cons.IH[of "router_step P cmd x"] by (simp add: run_router_def)
qed (simp add: run_router_def)

lemma pred_option_split: "pred_option Q x \<longleftrightarrow> (case x of None \<Rightarrow> True | Some y \<Rightarrow> Q y)"
  by (cases x) auto

text \<open>What an event puts into the queue of a shell.\<close>
definition deliver :: "cross_shell_activity codec \<Rightarrow> shell_id \<Rightarrow> event_record \<Rightarrow> cross_shell_activity list" where
  "deliver pc sh ev = (case cd_dec pc (er_payload ev) of
     None \<Rightarrow> [] | Some n \<Rightarrow> if csa_target_shell_id n = sh then [n] else [])"

definition delivered :: "cross_shell_activity codec \<Rightarrow> fanout \<times> event_record list \<Rightarrow> bool" where
  "delivered pc q \<longleftrightarrow> (\<forall>sh. notifications_for sh (fst q) = concat (map (deliver pc sh) (snd q)))
     \<and> (\<forall>ev\<in>set (snd q). cd_dec pc (er_payload ev) \<noteq> None)"

lemma delivered_event:
  "delivered pc q \<Longrightarrow> delivered pc (snd (p_on_event (recording (fanout_ops pc)) ev cx q))"
  by (auto simp: delivered_def recording_def fanout_ops_def fanout_on_event_def notifications_for_def deliver_def
      split: option.splits)

lemma delivered_change:
  "delivered pc q \<Longrightarrow> delivered pc (snd (p_on_state_change (recording (fanout_ops pc)) s q))"
  by (simp add: recording_def fanout_ops_def default_on_state_change_def)

lemma fanout_refuses:
  "p_on_event (recording (fanout_ops pc)) ev cx q = (Inl e, q') \<Longrightarrow> cd_dec pc (er_payload ev) = None"
  by (auto simp: recording_def fanout_ops_def fanout_on_event_def split: option.splits)

lemma fanout_wants: "wants (fanout_ops pc) Fanout_new = (\<lambda>ev. er_type_code ev = CROSS_SHELL_ACTIVITY)"
  by (rule ext) (simp add: wants_def fanout_ops_def Fanout_new_def already_applied_def cursor_last_applied_def)

section \<open>Properties\<close>

text \<open>C6: the router delivers every event exactly once. For projections that keep the trait's contract,
after any sequence of dispatches (in or out of order, repeated, failing, in any state) and transitions,
the accepted events form a stream of strictly increasing, gap-free positions; each projection has
applied, once and in order, exactly the accepted events it observes that lie beyond its own position
at registration, plus at most the one event whose fan-out failed and is pinned for retry.  The record
of applied events is ghost state: the same run without it accepts the same events and reaches the same
router.\<close>
theorem router_exactly_once:
  assumes "projection P"
    and "run_router (recording P) cmds ([], start_router (recording P) (map (\<lambda>p. (p, [])) ps0)) = (acc, r)"
  shows "run_router P cmds ([], start_router P ps0) = (acc, forget_log r)
     \<and> sorted_wrt (\<lambda>a b. pos_less (event_pos a) (event_pos b)) acc
     \<and> successively (\<lambda>a b. contiguous (event_pos a) (event_pos b)) acc
     \<and> length (projections r) = length ps0
     \<and> (\<forall>j<length ps0. snd (projections r ! j) = filter (wants P (ps0 ! j)) acc
          \<or> (\<exists>ev. pending_retry r = Some (event_pos ev, er_type_code ev, er_payload ev)
               \<and> stream_ok (acc @ [ev])
               \<and> snd (projections r ! j) = filter (wants P (ps0 ! j)) (acc @ [ev])))"
  using projection.exactly_once[OF assms] unfolding stream_ok_def by blast

definition demo_notice :: cross_shell_activity where
  "demo_notice = \<lparr>csa_schema_version = 1, csa_actor = demo_aid, csa_target_shell_id = ShellId (replicate 16 1),
     csa_record_shell_id = ShellId (replicate 16 2), csa_detected_tick = 5\<rparr>"

definition demo_cmds :: "router_cmd list" where
  "demo_cmds =
    (let ev = \<lambda>s p. \<lparr>er_type_code = CROSS_SHELL_ACTIVITY, er_sequence = s, er_tick = 5, er_payload = p\<rparr>;
         cx = ProjectionContext_new 5 1
     in [CDispatch (ev 0 [1]) cx, CPromote, CDispatch (ev 0 [1]) cx, CDispatch (ev 0 [1]) cx, CDispatch (ev 1 [9]) cx,
         CDispatch (ev 2 [1]) cx, CDrain, CDispatch (ev 1 [9]) cx])"

lemma router_exactly_once_witness:
  "sorted_wrt (\<lambda>a b. pos_less (event_pos a) (event_pos b))
     (fst (run_router (recording (fanout_ops (table_codec [(demo_notice, [1])]))) demo_cmds
        ([], start_router (recording (fanout_ops (table_codec [(demo_notice, [1])]))) (map (\<lambda>p. (p, [])) [Fanout_new, Fanout_new]))))"
  using router_exactly_once[OF fanout.projection_axioms surjective_pairing] by blast

text \<open>Cross-shell notifications. However a router over any number of fan-out projections is driven,
each of them holds, for every shell, exactly the notifications of the accepted cross-shell events that
name that shell as their target, in stream order: nothing is lost, repeated or put into another
shell's queue.\<close>
theorem fanout_delivery:
  "let (acc, r) = run_router (fanout_ops pc) cmds ([], start_router (fanout_ops pc) (replicate n Fanout_new)) in
     length (projections r) = n
   \<and> list_all (\<lambda>f. notifications_for sh f
         = concat (map (deliver pc sh) (filter (\<lambda>ev. er_type_code ev = CROSS_SHELL_ACTIVITY) acc))) (projections r)"
proof -
  let ?R = "recording (fanout_ops pc)"
  let ?start = "([], start_router ?R (map (\<lambda>p. (p, [])) (replicate n Fanout_new)))"
  obtain acc r where run: "run_router ?R cmds ?start = (acc, r)" by (metis surj_pair)
  note once = fanout.exactly_once[OF run]
  then have sim: "run_router (fanout_ops pc) cmds ([], start_router (fanout_ops pc) (replicate n Fanout_new)) = (acc, forget_log r)"
    and len: "length (projections r) = n" by simp_all
  have log: "snd (projections r ! j) = filter (\<lambda>ev. er_type_code ev = CROSS_SHELL_ACTIVITY) acc
      \<or> (\<exists>ev. pinned r = Some ev
           \<and> snd (projections r ! j) = filter (\<lambda>ev. er_type_code ev = CROSS_SHELL_ACTIVITY) (acc @ [ev]))" if "j < n" for j
  proof -
    have w: "wants (fanout_ops pc) (replicate n Fanout_new ! j) = (\<lambda>ev. er_type_code ev = CROSS_SHELL_ACTIVITY)"
      using that by (simp add: fanout_wants)
    show ?thesis
      using once[THEN conjunct2, THEN conjunct2, THEN conjunct2, rule_format, of j] that
      unfolding w pinned_Some length_replicate by blast
  qed
  have "list_all (delivered pc) (projections (snd ?start))"
    by (auto simp: start_router_fields list_all_iff delivered_def notifications_for_def Fanout_new_def)
  moreover have "pinned (snd ?start) = None" by (simp add: pinned_def start_router_fields)
  ultimately have inv: "list_all (delivered pc) (projections r)"
      "pred_option (\<lambda>ev. cd_dec pc (er_payload ev) = None) (pinned r)"
    using run_slotwise[of "delivered pc" ?R "\<lambda>ev. cd_dec pc (er_payload ev) = None" ?start cmds]
      delivered_event delivered_change fanout_refuses run by (auto simp: pred_option_split)
  have "notifications_for sh (fst (projections r ! j))
      = concat (map (deliver pc sh) (filter (\<lambda>ev. er_type_code ev = CROSS_SHELL_ACTIVITY) acc))" if "j < n" for j
    using inv log[OF that] that len
    by (auto simp: list_all_length delivered_def deliver_def split: if_splits option.splits)
  then show ?thesis using len by (simp add: sim list_all_length)
qed

text \<open>An event whose fan-out failed is never skipped. While it is pinned, dispatching any other event
leaves the router and every projection unchanged, whatever that event is.\<close>
theorem failed_event_pinned:
  "if ev' = ev then stream_check ev (r\<lparr>cursor := None, pending_retry := Some (event_pos ev, er_type_code ev, er_payload ev)\<rparr>) = Inr ()
   else snd (dispatch_event P ev' cx (r\<lparr>pending_retry := Some (event_pos ev, er_type_code ev, er_payload ev)\<rparr>))
     = r\<lparr>pending_retry := Some (event_pos ev, er_type_code ev, er_payload ev)\<rparr>"
proof (cases "ev' = ev")
  case True
  then show ?thesis by (simp add: stream_check_def)
next
  case False
  let ?r = "r\<lparr>pending_retry := Some (event_pos ev, er_type_code ev, er_payload ev)\<rparr>"
  have "stream_check ev' ?r \<noteq> Inr ()"
    using stream_check_pass[of ev' ?r] False by (auto simp: pinned_Some[of ?r ev, THEN iffD2])
  then show ?thesis using False
    by (cases rule: dispatch_event_cases[of P ev' cx ?r]) auto
qed

text \<open>Draining is final and inactive routers do not write. A draining router is a fixed point of every
driver command; in any state but Active a dispatch is refused with that state and changes nothing.\<close>
theorem lifecycle_gate:
  "run_router P cmds (acc, r\<lparr>rstate := ObsDraining\<rparr>) = (acc, r\<lparr>rstate := ObsDraining\<rparr>)
   \<and> (rstate r = ObsActive \<or> dispatch_event P ev cx r = (Inl (NotActive (rstate r)), r))"
proof -
  have "router_step P cmd (acc, r\<lparr>rstate := ObsDraining\<rparr>) = (acc, r\<lparr>rstate := ObsDraining\<rparr>)" for cmd
    by (cases cmd) (simp_all add: dispatch_event_def promote_to_active_def demote_to_passive_def
        begin_draining_def transition_def)
  then have "run_router P cmds (acc, r\<lparr>rstate := ObsDraining\<rparr>) = (acc, r\<lparr>rstate := ObsDraining\<rparr>)"
    by (induction cmds) (simp_all add: run_router_def)
  then show ?thesis by (simp add: dispatch_event_def)
qed

text \<open>Automatic promotion. A promotion is proposed exactly under the 60-minute policy after an outage
of at least an hour with at least two channels healthy, or under the threshold policy with the shares
collected; no decision is given exactly for a policy other than the three known ones; and a health
aggregate in which all but one of the listed channels are failing never promotes under the first.\<close>
theorem auto_promote:
  "(evaluate_auto_promote m d h ready = Some Promote \<longleftrightarrow>
      (au_kms_auto_promote (ms_audit m) = ''after_60min'' \<and> 3600 * 10 ^ 9 \<le> d
         \<and> 2 \<le> length (filter (\<lambda>(_, s). s = Healthy) h))
      \<or> (au_kms_auto_promote (ms_audit m) = ''threshold_hsm'' \<and> ready))
   \<and> (evaluate_auto_promote m d h ready = None \<longleftrightarrow>
      au_kms_auto_promote (ms_audit m) \<notin> {''manual'', ''after_60min'', ''threshold_hsm''})
   \<and> \<not> (mch_is_quorum_failing h (length h - 1) \<and> h \<noteq> [] \<and> au_kms_auto_promote (ms_audit m) = ''after_60min''
        \<and> evaluate_auto_promote m d h ready = Some Promote)"
proof -
  have "length (filter (\<lambda>(_, s). s = Failing) h) + length (filter (\<lambda>(_, s). s = Healthy) h) \<le> length h"
    by (induction h) auto
  then show ?thesis
    by (auto simp: evaluate_auto_promote_def healthy_count_def HF2_HEALTH_QUORUM_MIN_def Let_def
        mch_is_quorum_failing_def)
qed

text \<open>The row store. In each of its four tables, after any sequence of upserts, the row read for an id
is the last one written for it, and what was stored before when none was written.\<close>
theorem store_latest_row:
  "get_actor a (foldl (\<lambda>s row. snd (upsert_actor row s)) s as)
     = (case filter (\<lambda>row. apr_actor_id row = a) as of [] \<Rightarrow> get_actor a s | l \<Rightarrow> Some (last l))
   \<and> get_space sp (foldl (\<lambda>s row. snd (upsert_space row s)) s sps)
     = (case filter (\<lambda>row. spr_space_id row = sp) sps of [] \<Rightarrow> get_space sp s | l \<Rightarrow> Some (last l))
   \<and> get_entry e (foldl (\<lambda>s row. snd (upsert_entry row s)) s es)
     = (case filter (\<lambda>row. epr_entry_id row = e) es of [] \<Rightarrow> get_entry e s | l \<Rightarrow> Some (last l))
   \<and> get_activity v (foldl (\<lambda>s row. snd (upsert_activity row s)) s vs)
     = (case filter (\<lambda>row. vpr_activity_id row = v) vs of [] \<Rightarrow> get_activity v s | l \<Rightarrow> Some (last l))"
  using actor_table.get_upsert_all space_table.get_upsert_all entry_table.get_upsert_all activity_table.get_upsert_all
  by (simp add: actor_table.upsert_all_def space_table.upsert_all_def entry_table.upsert_all_def activity_table.upsert_all_def)

end
