(* ===== verification/Verifier.thy ===== *)
theory Verifier
  imports Event Context
begin

text \<open>The audit-receipt verifier of \<^verbatim>\<open>arkhe-forge-platform/src/verifier.rs\<close>.  The signature schemes
are parameters: \<^verbatim>\<open>ed_strict\<close> is \<^verbatim>\<open>VerifyingKey::from_bytes\<close> followed by \<^verbatim>\<open>verify_strict\<close>,
\<^verbatim>\<open>mldsa_verify\<close> is the canonical decoding and verification of the ml-dsa crate, which exists only in
builds with the \<^verbatim>\<open>tier-2-pqc-receipts\<close> feature (\<^term>\<open>None\<close> is a build without it).\<close>

section \<open>Widths, domain, errors\<close>

definition ED25519_PK_LEN :: nat where "ED25519_PK_LEN = 32"
definition ED25519_SIG_LEN :: nat where "ED25519_SIG_LEN = 64"
definition MLDSA65_PK_LEN :: nat where "MLDSA65_PK_LEN = 1952"
definition MLDSA65_SIG_LEN :: nat where "MLDSA65_SIG_LEN = 3309"

definition FORGE_RECEIPT_SIG_DOMAIN :: bytes where
  "FORGE_RECEIPT_SIG_DOMAIN = map of_char ''arkhe-forge v0.15 audit receipt attestation domain''"

definition domain_separated :: "bytes \<Rightarrow> bytes" where
  "domain_separated message = FORGE_RECEIPT_SIG_DOMAIN @ message"

datatype verify_error =
  SignatureRequired | WrongKeyLength | WrongSignatureLength | Mismatch | PqcUnavailable | EnvelopeIncoherent

record sig_schemes =
  ed_strict :: "bytes \<Rightarrow> bytes \<Rightarrow> bytes \<Rightarrow> bool"
  mldsa_verify :: "(bytes \<Rightarrow> bytes \<Rightarrow> bytes \<Rightarrow> bool) option"

section \<open>Verification\<close>

definition verify_ed25519 :: "sig_schemes \<Rightarrow> bytes \<Rightarrow> bytes \<Rightarrow> bytes \<Rightarrow> verify_error + unit" where
  "verify_ed25519 S vk m sg =
     (if length vk \<noteq> ED25519_PK_LEN then Inl WrongKeyLength
      else if length sg \<noteq> ED25519_SIG_LEN then Inl WrongSignatureLength
      else if ed_strict S vk m sg then Inr () else Inl Mismatch)"

definition verify_ml_dsa65 :: "sig_schemes \<Rightarrow> bytes \<Rightarrow> bytes \<Rightarrow> bytes \<Rightarrow> verify_error + unit" where
  "verify_ml_dsa65 S vk m sg =
     (case mldsa_verify S of
        None \<Rightarrow> Inl PqcUnavailable
      | Some verify \<Rightarrow>
          if length sg \<noteq> MLDSA65_SIG_LEN then Inl WrongSignatureLength
          else if length vk \<noteq> MLDSA65_PK_LEN then Inl WrongKeyLength
          else if verify vk m sg then Inr () else Inl Mismatch)"

definition verify_attestation ::
  "sig_schemes \<Rightarrow> runtime_signature_class \<Rightarrow> bytes \<Rightarrow> bytes \<Rightarrow> bytes \<Rightarrow> verify_error + unit" where
  "verify_attestation S class public_key message sg =
     (let m = domain_separated message in
      case class of
        RSC_None \<Rightarrow> Inl SignatureRequired
      | RSC_Ed25519 \<Rightarrow> verify_ed25519 S public_key m sg
      | RSC_MlDsa65 \<Rightarrow> verify_ml_dsa65 S public_key m sg
      | RSC_Hybrid \<Rightarrow>
          if length public_key \<noteq> ED25519_PK_LEN + MLDSA65_PK_LEN then Inl WrongKeyLength
          else if length sg \<noteq> ED25519_SIG_LEN + MLDSA65_SIG_LEN then Inl WrongSignatureLength
          else
            (let ed_pk = take ED25519_PK_LEN public_key; mldsa_pk = drop ED25519_PK_LEN public_key;
                 ed_sig = take ED25519_SIG_LEN sg; mldsa_sig = drop ED25519_SIG_LEN sg
             in case verify_ed25519 S ed_pk m ed_sig of
                  Inl e \<Rightarrow> Inl e
                | Inr _ \<Rightarrow> verify_ml_dsa65 S mldsa_pk m mldsa_sig))"

definition verify_receipt_envelope ::
  "sig_schemes \<Rightarrow> runtime_signature_class \<Rightarrow> bytes \<Rightarrow> bytes \<Rightarrow> bytes \<Rightarrow> bytes option \<Rightarrow> verify_error + unit" where
  "verify_receipt_envelope S algorithm public_key message attestation_64 attestation_pqc =
     (let pqc_required = (algorithm = RSC_MlDsa65 \<or> algorithm = RSC_Hybrid) in
      if (attestation_pqc \<noteq> None) \<noteq> pqc_required then Inl EnvelopeIncoherent
      else case algorithm of
        RSC_None \<Rightarrow> Inl SignatureRequired
      | RSC_Ed25519 \<Rightarrow> verify_attestation S RSC_Ed25519 public_key message attestation_64
      | RSC_MlDsa65 \<Rightarrow>
          if attestation_64 \<noteq> [] then Inl EnvelopeIncoherent
          else (case attestation_pqc of
                  Some pqc \<Rightarrow> verify_attestation S RSC_MlDsa65 public_key message pqc
                | None \<Rightarrow> Inl EnvelopeIncoherent)
      | RSC_Hybrid \<Rightarrow>
          (case attestation_pqc of
             Some pqc \<Rightarrow>
               if length attestation_64 \<noteq> ED25519_SIG_LEN then Inl WrongSignatureLength
               else verify_attestation S RSC_Hybrid public_key message (attestation_64 @ pqc)
           | None \<Rightarrow> Inl EnvelopeIncoherent))"

definition dek_shred_message :: "dek_id \<Rightarrow> u64 \<Rightarrow> bytes" where
  "dek_shred_message dek_id log_index = dek_id_bytes dek_id @ be_bytes 8 log_index"

section \<open>The software receipt signer\<close>

text \<open>\<^verbatim>\<open>mldsa_keygen\<close> and \<^verbatim>\<open>mldsa_sign\<close> are the key generation (signing key and encoded public key)
and the deterministic, infallible signing of the ml-dsa crate.\<close>
record 'sk mldsa =
  mldsa_keygen :: "bytes \<Rightarrow> 'sk \<times> bytes"
  mldsa_sign :: "'sk \<Rightarrow> bytes \<Rightarrow> bytes"

record 'sk receipt_signer =
  signing_key :: 'sk
  verifying_key_bytes :: bytes

definition mldsa65_from_seed :: "'sk mldsa \<Rightarrow> bytes \<Rightarrow> 'sk receipt_signer" where
  "mldsa65_from_seed D seed = (let (sk, pk) = mldsa_keygen D seed in \<lparr>signing_key = sk, verifying_key_bytes = pk\<rparr>)"

definition receipt_sign :: "'sk mldsa \<Rightarrow> 'sk receipt_signer \<Rightarrow> bytes \<Rightarrow> bytes" where
  "receipt_sign D s message = mldsa_sign D (signing_key s) (domain_separated message)"

definition public_key_bytes :: "'sk receipt_signer \<Rightarrow> bytes" where
  "public_key_bytes s = verifying_key_bytes s"

section \<open>Lemmas\<close>

lemmas sig_widths = ED25519_PK_LEN_def ED25519_SIG_LEN_def MLDSA65_PK_LEN_def MLDSA65_SIG_LEN_def

lemma verify_ed25519_ok: "verify_ed25519 S vk m sg = Inr () \<longleftrightarrow>
   length vk = 32 \<and> length sg = 64 \<and> ed_strict S vk m sg"
  by (simp add: verify_ed25519_def sig_widths)

lemma verify_ml_dsa65_ok: "verify_ml_dsa65 S vk m sg = Inr () \<longleftrightarrow>
   (\<exists>v. mldsa_verify S = Some v \<and> length vk = 1952 \<and> length sg = 3309 \<and> v vk m sg)"
  by (auto simp: verify_ml_dsa65_def sig_widths split: option.splits)

lemma envelope_ok:
  "verify_receipt_envelope S class pk msg a64 pqc = Inr () \<longleftrightarrow>
     (case class of
        RSC_None \<Rightarrow> False
      | RSC_Ed25519 \<Rightarrow> pqc = None \<and> length pk = 32 \<and> length a64 = 64
          \<and> ed_strict S pk (domain_separated msg) a64
      | RSC_MlDsa65 \<Rightarrow> (\<exists>q v. pqc = Some q \<and> a64 = [] \<and> length pk = 1952 \<and> length q = 3309
          \<and> mldsa_verify S = Some v \<and> v pk (domain_separated msg) q)
      | RSC_Hybrid \<Rightarrow> (\<exists>q v. pqc = Some q \<and> length pk = 1984 \<and> length a64 = 64 \<and> length q = 3309
          \<and> ed_strict S (take 32 pk) (domain_separated msg) a64
          \<and> mldsa_verify S = Some v \<and> v (drop 32 pk) (domain_separated msg) q))"
proof (cases "class")
  case RSC_Hybrid
  have "verify_attestation S RSC_Hybrid pk msg (a64 @ q) = Inr () \<longleftrightarrow>
      length pk = 1984 \<and> length q = 3309 \<and> ed_strict S (take 32 pk) (domain_separated msg) a64
      \<and> (\<exists>v. mldsa_verify S = Some v \<and> v (drop 32 pk) (domain_separated msg) q)" if "length a64 = 64" for q
    using that verify_ed25519_ok[of S "take 32 pk" "domain_separated msg" a64]
      verify_ml_dsa65_ok[of S "drop 32 pk" "domain_separated msg" q]
    by (auto simp: verify_attestation_def Let_def sig_widths split: sum.splits)
  then show ?thesis
    by (auto simp: RSC_Hybrid verify_receipt_envelope_def sig_widths split: option.splits)
qed (auto simp: verify_receipt_envelope_def verify_attestation_def verify_ed25519_ok verify_ml_dsa65_ok
    split: option.splits)

text \<open>When a receipt envelope is accepted. Under the class pinned by policy, the envelope is accepted
exactly when: the class is Ed25519, no post-quantum slot is present and the 64-byte half verifies; or it
is ML-DSA-65, the classical half is empty and the slot verifies; or it is Hybrid and both halves verify,
each under its part of the key and over the same domain-separated message.  No class accepts under None,
and no class that needs the post-quantum half accepts in a build without it.\<close>
theorem envelope_accepts:
  "verify_receipt_envelope S class pk msg a64 pqc = Inr () \<longleftrightarrow>
     (case class of
        RSC_None \<Rightarrow> False
      | RSC_Ed25519 \<Rightarrow> pqc = None \<and> length pk = 32 \<and> length a64 = 64
          \<and> ed_strict S pk (domain_separated msg) a64
      | RSC_MlDsa65 \<Rightarrow> (\<exists>q v. pqc = Some q \<and> a64 = [] \<and> length pk = 1952 \<and> length q = 3309
          \<and> mldsa_verify S = Some v \<and> v pk (domain_separated msg) q)
      | RSC_Hybrid \<Rightarrow> (\<exists>q v. pqc = Some q \<and> length pk = 1984 \<and> length a64 = 64 \<and> length q = 3309
          \<and> ed_strict S (take 32 pk) (domain_separated msg) a64
          \<and> mldsa_verify S = Some v \<and> v (drop 32 pk) (domain_separated msg) q))"
  by (rule envelope_ok)

end
