(* ===== verification/Crypto_Erasure.thy ===== *)
theory Crypto_Erasure
  imports Projection Verifier
begin

text \<open>The erasure cascade of \<^verbatim>\<open>arkhe-forge-platform/src/crypto_erasure.rs\<close>: the key shredders
(in-memory and signing), the row store, and the observer that shreds first and tombstones second.
The traits \<^verbatim>\<open>DekShredder\<close> and \<^verbatim>\<open>PiiRowStore\<close> are records of operations over a state; the locales state
the contracts their documentation gives.\<close>

section \<open>Attestations and errors\<close>

record dek_shred_attestation =
  dsa_class :: runtime_signature_class
  dsa_bytes :: bytes
  dsa_log_index :: "u64 option"

record region_progress =
  rp_scope :: progress_scope
  rp_shred_tick :: tick
  rp_attestation_class :: runtime_signature_class
  rp_attestation_bytes :: bytes

record shred_result =
  sr_regions :: "region_progress list"
  sr_overall :: dek_shred_attestation

datatype dek_shred_error = UnknownDek | AlreadyShredded | ShredBackend string

record 's shredder_ops =
  s_shred :: "dek_id \<Rightarrow> ('s, dek_shred_error, dek_shred_attestation) act"
  s_shred_with_regions :: "dek_id \<Rightarrow> tick \<Rightarrow> ('s, dek_shred_error, shred_result) act"

definition default_region_scope :: progress_scope where
  "default_region_scope = ScopeRegion (BoundedString ''default-region'')"

text \<open>The default body of \<^verbatim>\<open>shred_with_regions\<close>.\<close>
definition default_shred_with_regions ::
  "(dek_id \<Rightarrow> ('s, dek_shred_error, dek_shred_attestation) act) \<Rightarrow> dek_id \<Rightarrow> tick
    \<Rightarrow> ('s, dek_shred_error, shred_result) act" where
  "default_shred_with_regions shred dek_id shred_tick =
     bnd (shred dek_id) (\<lambda>overall.
     ret \<lparr>sr_regions = [\<lparr>rp_scope = default_region_scope, rp_shred_tick = shred_tick,
            rp_attestation_class = dsa_class overall, rp_attestation_bytes = dsa_bytes overall\<rparr>],
          sr_overall = overall\<rparr>)"

section \<open>The in-memory shredder\<close>

record mem_shredder =
  live :: "dek_id \<rightharpoonup> unit"
  shredded :: "dek_id \<rightharpoonup> dek_shred_attestation"
  next_log_index :: u64

definition MemShredder_new :: mem_shredder where
  "MemShredder_new = \<lparr>live = Map.empty, shredded = Map.empty, next_log_index = 0\<rparr>"

definition mem_register :: "dek_id \<Rightarrow> mem_shredder \<Rightarrow> mem_shredder" where
  "mem_register d s = s\<lparr>live := (live s)(d \<mapsto> ())\<rparr>"

definition is_shredded :: "dek_id \<Rightarrow> mem_shredder \<Rightarrow> bool" where
  "is_shredded d s \<longleftrightarrow> shredded s d \<noteq> None"

definition issue_attestation :: "blake3 \<Rightarrow> dek_id \<Rightarrow> (mem_shredder, dek_shred_error, dek_shred_attestation) act" where
  "issue_attestation h d = (\<lambda>s.
     let log_index = next_log_index s in
     case checked_add log_index 1 of
       None \<Rightarrow> (Inl (ShredBackend ''DEK shred log index overflow''), s)
     | Some n \<Rightarrow>
         (Inr \<lparr>dsa_class = RSC_None,
               dsa_bytes = keyed_hash h (derive_key h ''arkhe-forge-dek-shred-attestation'' (dek_id_bytes d))
                             (be_bytes 8 log_index),
               dsa_log_index = Some log_index\<rparr>,
          s\<lparr>next_log_index := n\<rparr>))"

definition set_cached_attestation :: "dek_id \<Rightarrow> dek_shred_attestation \<Rightarrow> mem_shredder \<Rightarrow> mem_shredder" where
  "set_cached_attestation d a s = s\<lparr>shredded := (shredded s)(d \<mapsto> a)\<rparr>"

definition mem_shred :: "blake3 \<Rightarrow> dek_id \<Rightarrow> (mem_shredder, dek_shred_error, dek_shred_attestation) act" where
  "mem_shred h d = (\<lambda>s.
     case shredded s d of
       Some cached \<Rightarrow> (Inr cached, s)
     | None \<Rightarrow>
         (case live s d of
            None \<Rightarrow> (Inl UnknownDek, s)
          | Some _ \<Rightarrow>
              (case issue_attestation h d (s\<lparr>live := (live s)(d := None)\<rparr>) of
                 (Inl e, s') \<Rightarrow> (Inl e, s')
               | (Inr a, s') \<Rightarrow> (Inr a, s'\<lparr>shredded := (shredded s')(d \<mapsto> a)\<rparr>))))"

definition mem_shredder_ops :: "blake3 \<Rightarrow> mem_shredder shredder_ops" where
  "mem_shredder_ops h = \<lparr>s_shred = mem_shred h, s_shred_with_regions = default_shred_with_regions (mem_shred h)\<rparr>"

section \<open>The signing shredder\<close>

record 'sk signing_shredder =
  sg_inner :: mem_shredder
  sg_signer :: "'sk receipt_signer"

definition SigningShredder_new :: "mem_shredder \<Rightarrow> 'sk receipt_signer \<Rightarrow> 'sk signing_shredder" where
  "SigningShredder_new i s = \<lparr>sg_inner = i, sg_signer = s\<rparr>"

definition signing_register :: "dek_id \<Rightarrow> 'sk signing_shredder \<Rightarrow> 'sk signing_shredder" where
  "signing_register d s = s\<lparr>sg_inner := mem_register d (sg_inner s)\<rparr>"

definition signing_public_key :: "'sk signing_shredder \<Rightarrow> bytes" where
  "signing_public_key s = public_key_bytes (sg_signer s)"

definition signing_shred :: "blake3 \<Rightarrow> 'sk mldsa \<Rightarrow> dek_id \<Rightarrow> ('sk signing_shredder, dek_shred_error, dek_shred_attestation) act" where
  "signing_shred h D d = (\<lambda>s.
     case mem_shred h d (sg_inner s) of
       (Inl e, i) \<Rightarrow> (Inl e, s\<lparr>sg_inner := i\<rparr>)
     | (Inr placeholder, i) \<Rightarrow>
         (case dsa_log_index placeholder of
            None \<Rightarrow> (Inr placeholder, s\<lparr>sg_inner := i\<rparr>)
          | Some log_index \<Rightarrow>
              (let message = dek_shred_message d log_index;
                   sig = receipt_sign D (sg_signer s) message;
                   signed = \<lparr>dsa_class = RSC_MlDsa65, dsa_bytes = sig, dsa_log_index = Some log_index\<rparr>
               in (Inr signed, s\<lparr>sg_inner := set_cached_attestation d signed i\<rparr>))))"

definition signing_shredder_ops :: "blake3 \<Rightarrow> 'sk mldsa \<Rightarrow> 'sk signing_shredder shredder_ops" where
  "signing_shredder_ops h D =
     \<lparr>s_shred = signing_shred h D, s_shred_with_regions = default_shred_with_regions (signing_shred h D)\<rparr>"

section \<open>The row store\<close>

record user_pii_rows =
  upr_rows :: "u64 list"
  upr_dek_id :: "dek_id option"

record 'r row_ops =
  r_rows_for :: "user_id \<Rightarrow> 'r \<Rightarrow> user_pii_rows"
  r_tombstone :: "user_id \<Rightarrow> ('r, projection_error, unit) act"
  r_is_tombstoned :: "user_id \<Rightarrow> 'r \<Rightarrow> bool"

record mem_rows =
  mr_users :: "user_id \<rightharpoonup> user_pii_rows"
  mr_tombstoned :: "user_id \<rightharpoonup> unit"

definition MemRows_new :: mem_rows where
  "MemRows_new = \<lparr>mr_users = Map.empty, mr_tombstoned = Map.empty\<rparr>"

definition rows_upsert :: "user_id \<Rightarrow> u64 list \<Rightarrow> dek_id \<Rightarrow> mem_rows \<Rightarrow> mem_rows" where
  "rows_upsert u rows d r = r\<lparr>mr_users := (mr_users r)(u \<mapsto> \<lparr>upr_rows = rows, upr_dek_id = Some d\<rparr>)\<rparr>"

definition mem_rows_for :: "user_id \<Rightarrow> mem_rows \<Rightarrow> user_pii_rows" where
  "mem_rows_for u r = (case mr_users r u of None \<Rightarrow> \<lparr>upr_rows = [], upr_dek_id = None\<rparr> | Some x \<Rightarrow> x)"

definition mem_tombstone :: "user_id \<Rightarrow> (mem_rows, projection_error, unit) act" where
  "mem_tombstone u = (\<lambda>r. (Inr (), r\<lparr>mr_users := (mr_users r)(u := None), mr_tombstoned := (mr_tombstoned r)(u \<mapsto> ())\<rparr>))"

definition mem_rows_ops :: "mem_rows row_ops" where
  "mem_rows_ops = \<lparr>r_rows_for = mem_rows_for, r_tombstone = mem_tombstone,
     r_is_tombstoned = (\<lambda>u r. mr_tombstoned r u \<noteq> None)\<rparr>"

section \<open>The observer\<close>

record erasure_completion =
  ec_user :: user_id
  ec_completed_tick :: tick
  ec_tombstoned_rows :: nat
  ec_attestation :: dek_shred_attestation
  ec_regions :: "region_progress list"

record ('r, 's) cascade =
  cs_cursor :: "projection_cursor option"
  cs_rows :: 'r
  cs_shredder :: 's
  cs_completions :: "erasure_completion list"

definition Cascade_new :: "'r \<Rightarrow> 's \<Rightarrow> ('r, 's) cascade" where
  "Cascade_new r s = \<lparr>cs_cursor = None, cs_rows = r, cs_shredder = s, cs_completions = []\<rparr>"

definition drain_completions :: "('r, 's) cascade \<Rightarrow> erasure_completion list \<times> ('r, 's) cascade" where
  "drain_completions c = (cs_completions c, c\<lparr>cs_completions := []\<rparr>)"

definition into_completed_event :: "erasure_completion \<Rightarrow> u16 \<Rightarrow> u64 \<Rightarrow> user_erasure_completed" where
  "into_completed_event c sv idx =
     \<lparr>uec_schema_version = sv, uec_user = ec_user c, uec_dek_shred_tick = ec_completed_tick c,
      uec_attestation_class = dsa_class (ec_attestation c), uec_attestation_bytes = dsa_bytes (ec_attestation c),
      uec_transparency_log_index = idx\<rparr>"

definition per_region_events :: "erasure_completion \<Rightarrow> u16 \<Rightarrow> per_region_erasure_progress list" where
  "per_region_events c sv =
     map (\<lambda>r. \<lparr>prep_schema_version = sv, prep_user = ec_user c, prep_scope = rp_scope r,
        prep_shred_tick = rp_shred_tick r, prep_attestation_class = rp_attestation_class r,
        prep_attestation_bytes = rp_attestation_bytes r\<rparr>) (ec_regions c)"

definition shred_error_to_storage :: "dek_shred_error \<Rightarrow> projection_error" where
  "shred_error_to_storage e = (case e of
     AlreadyShredded \<Rightarrow> PE_Storage ''shredder returned AlreadyShredded; implementations must cache attestation''
   | UnknownDek \<Rightarrow> PE_Storage ''DEK unknown to shredder''
   | ShredBackend msg \<Rightarrow> PE_Storage msg)"

definition no_dek_result :: shred_result where
  "no_dek_result = \<lparr>sr_regions = [], sr_overall = \<lparr>dsa_class = RSC_None, dsa_bytes = [], dsa_log_index = None\<rparr>\<rparr>"

definition cascade_on_event ::
  "user_erasure_scheduled codec \<Rightarrow> 'r row_ops \<Rightarrow> 's shredder_ops \<Rightarrow> event_record \<Rightarrow> projection_context
    \<Rightarrow> (('r, 's) cascade, projection_error, unit) act" where
  "cascade_on_event pc R S ev cx = (\<lambda>c.
     case cd_dec pc (er_payload ev) of
       None \<Rightarrow> (Inl (DecodeFailed ''UserErasureScheduled payload''), c)
     | Some scheduled \<Rightarrow>
       (let user = ues_user scheduled;
            rows = r_rows_for R user (cs_rows c);
            tombstoned = length (upr_rows rows);
            (shred, sh') = (case upr_dek_id rows of
               Some d \<Rightarrow> s_shred_with_regions S d (pctx_tick cx) (cs_shredder c)
             | None \<Rightarrow> (Inr no_dek_result, cs_shredder c))
        in case shred of
             Inl e \<Rightarrow> (Inl (shred_error_to_storage e), c\<lparr>cs_shredder := sh'\<rparr>)
           | Inr result \<Rightarrow>
             (case r_tombstone R user (cs_rows c) of
                (Inl e, rows') \<Rightarrow> (Inl e, c\<lparr>cs_shredder := sh', cs_rows := rows'\<rparr>)
              | (Inr _, rows') \<Rightarrow>
                  (Inr (), c\<lparr>cs_shredder := sh', cs_rows := rows',
                     cs_completions := cs_completions c @
                       [\<lparr>ec_user = user, ec_completed_tick = pctx_tick cx, ec_tombstoned_rows = tombstoned,
                         ec_attestation = sr_overall result, ec_regions = sr_regions result\<rparr>],
                     cs_cursor := Some (event_pos ev)\<rparr>))))"

definition cascade_ops ::
  "user_erasure_scheduled codec \<Rightarrow> 'r row_ops \<Rightarrow> 's shredder_ops \<Rightarrow> ('r, 's) cascade projection_ops" where
  "cascade_ops pc R S = \<lparr>p_observes = (\<lambda>_. [USER_ERASURE_SCHEDULED]), p_on_event = cascade_on_event pc R S,
     p_on_state_change = default_on_state_change, p_last_applied = (\<lambda>c. cursor_last_applied (cs_cursor c))\<rparr>"

section \<open>Contracts\<close>

text \<open>A shredder remembers the receipt of every key it shredded and answers with it for ever; the
regional variant rolls up to the plain one.\<close>
locale dek_shredder =
  fixes S :: "'s shredder_ops" and receipt :: "'s \<Rightarrow> dek_id \<Rightarrow> dek_shred_attestation option"
  assumes shred_ok: "s_shred S d s = (Inr a, s') \<Longrightarrow> receipt s' d = Some a"
    and replay: "receipt s d = Some a \<Longrightarrow> s_shred S d s = (Inr a, s)"
    and keep: "receipt s d = Some a \<Longrightarrow> receipt (snd (s_shred S d' s)) d = Some a"
    and regions_ok: "s_shred_with_regions S d t s = (Inr r, s') \<Longrightarrow> s_shred S d s = (Inr (sr_overall r), s')"
    and regions_err: "s_shred_with_regions S d t s = (Inl e, s') \<Longrightarrow> s_shred S d s = (Inl e, s')"

text \<open>A row store marks the user it tombstones, for good, and leaves the others alone.\<close>
locale pii_row_store =
  fixes R :: "'r row_ops"
  assumes tombstone_marks: "r_tombstone R u r = (Inr (), r') \<Longrightarrow> r_is_tombstoned R u r'"
    and tombstone_keeps: "r_is_tombstoned R v r \<Longrightarrow> r_is_tombstoned R v (snd (r_tombstone R u r))"
    and tombstone_others: "v \<noteq> u \<Longrightarrow> r_rows_for R v (snd (r_tombstone R u r)) = r_rows_for R v r"

lemma default_regions_ok:
  "default_shred_with_regions f d t s = (Inr r, s') \<Longrightarrow> f d s = (Inr (sr_overall r), s')"
  by (auto simp: default_shred_with_regions_def bnd_Inr ret_def)

lemma default_regions_err:
  "default_shred_with_regions f d t s = (Inl e, s') \<Longrightarrow> f d s = (Inl e, s')"
  by (auto simp: default_shred_with_regions_def bnd_Inl ret_def)

lemma mem_shred_ok: "mem_shred h d s = (Inr a, s') \<Longrightarrow> shredded s' d = Some a"
  by (auto simp: mem_shred_def split: option.splits prod.splits sum.splits)

lemma mem_shred_keep: "shredded s d = Some a \<Longrightarrow> shredded (snd (mem_shred h d' s)) d = Some a"
  by (auto simp: mem_shred_def issue_attestation_def Let_def split: option.splits)

interpretation mem_sh: dek_shredder "mem_shredder_ops h" shredded for h
  by unfold_locales
    (auto simp: mem_shredder_ops_def mem_shred_ok mem_shred_keep dest: default_regions_ok default_regions_err,
     simp add: mem_shred_def)

text \<open>The receipt of the signing shredder is the cached one, when it is the signed one.\<close>
definition signed_receipt :: "'sk mldsa \<Rightarrow> 'sk signing_shredder \<Rightarrow> dek_id \<Rightarrow> dek_shred_attestation option" where
  "signed_receipt D s d =
     (case shredded (sg_inner s) d of
        None \<Rightarrow> None
      | Some a \<Rightarrow>
          (case dsa_log_index a of
             None \<Rightarrow> Some a
           | Some i \<Rightarrow>
               if a = \<lparr>dsa_class = RSC_MlDsa65, dsa_bytes = receipt_sign D (sg_signer s) (dek_shred_message d i),
                       dsa_log_index = Some i\<rparr>
               then Some a else None))"

lemma signing_signer [simp]: "sg_signer (snd (signing_shred h D d s)) = sg_signer s"
  by (auto simp: signing_shred_def Let_def split: prod.splits sum.splits option.splits)

lemma signed_receipt_register: "signed_receipt D (signing_register x s) d = signed_receipt D s d"
proof -
  have "sg_signer (signing_register x s) = sg_signer s"
    "shredded (sg_inner (signing_register x s)) = shredded (sg_inner s)"
    by (simp_all add: signing_register_def mem_register_def)
  then show ?thesis unfolding signed_receipt_def by metis
qed

interpretation signing_sh: dek_shredder "signing_shredder_ops h D" "signed_receipt D" for h D
proof
  fix d s a s' d' t r e
  show "signed_receipt D s' d = Some a" if "s_shred (signing_shredder_ops h D) d s = (Inr a, s')"
    using that by (auto simp: signing_shredder_ops_def signing_shred_def signed_receipt_def Let_def
        set_cached_attestation_def mem_shred_ok split: prod.splits sum.splits option.splits)
  show "s_shred (signing_shredder_ops h D) d s = (Inr a, s)" if "signed_receipt D s d = Some a"
    using that by (auto simp: signing_shredder_ops_def signing_shred_def signed_receipt_def Let_def
        set_cached_attestation_def mem_shred_def fun_upd_idem split: prod.splits sum.splits option.splits if_splits)
  show "s_shred (signing_shredder_ops h D) d s = (Inr (sr_overall r), s')"
    if "s_shred_with_regions (signing_shredder_ops h D) d t s = (Inr r, s')"
    using that by (auto simp: signing_shredder_ops_def dest: default_regions_ok)
  show "s_shred (signing_shredder_ops h D) d s = (Inl e, s')"
    if "s_shred_with_regions (signing_shredder_ops h D) d t s = (Inl e, s')"
    using that by (auto simp: signing_shredder_ops_def dest: default_regions_err)
  show "signed_receipt D (snd (s_shred (signing_shredder_ops h D) d' s)) d = Some a" if "signed_receipt D s d = Some a"
  proof (cases "d' = d")
    case True
    then show ?thesis using \<open>signed_receipt D s d = Some a \<Longrightarrow> s_shred _ d s = _\<close> that by simp
  next
    case False
    have i: "shredded (sg_inner (snd (signing_shred h D d' s))) d = shredded (sg_inner s) d"
      using False by (auto simp: signing_shred_def set_cached_attestation_def mem_shred_def issue_attestation_def Let_def
          split: prod.splits sum.splits option.splits)
    have "signed_receipt D (snd (signing_shred h D d' s)) d = signed_receipt D s d"
      unfolding signed_receipt_def i signing_signer ..
    then show ?thesis using that by (simp add: signing_shredder_ops_def)
  qed
qed

interpretation mem_row_store: pii_row_store mem_rows_ops
  by unfold_locales (auto simp: mem_rows_ops_def mem_tombstone_def mem_rows_for_def)

section \<open>The destruction log\<close>

datatype shred_cmd = RegisterDek dek_id | ShredDek dek_id

fun mem_step :: "blake3 \<Rightarrow> shred_cmd \<Rightarrow> mem_shredder \<Rightarrow> mem_shredder" where
  "mem_step h (RegisterDek d) s = mem_register d s"
| "mem_step h (ShredDek d) s = snd (mem_shred h d s)"

fun signing_step :: "blake3 \<Rightarrow> 'sk mldsa \<Rightarrow> shred_cmd \<Rightarrow> 'sk signing_shredder \<Rightarrow> 'sk signing_shredder" where
  "signing_step h D (RegisterDek d) s = signing_register d s"
| "signing_step h D (ShredDek d) s = snd (signing_shred h D d s)"

definition log_index_of :: "mem_shredder \<Rightarrow> dek_id \<Rightarrow> nat option" where
  "log_index_of s d = (case shredded s d of None \<Rightarrow> None | Some a \<Rightarrow> map_option unat (dsa_log_index a))"

text \<open>The log indices of the receipts are the numbers below the next index, each used once.\<close>
definition log_ok :: "mem_shredder \<Rightarrow> bool" where
  "log_ok s \<longleftrightarrow> bij_betw (log_index_of s) (dom (shredded s)) (Some ` {..<unat (next_log_index s)})"

lemma log_ok_new: "log_ok MemShredder_new"
  by (simp add: log_ok_def MemShredder_new_def bij_betw_def)

lemma log_ok_live: "log_ok (s\<lparr>live := l\<rparr>) = log_ok s"
proof -
  have "log_index_of (s\<lparr>live := l\<rparr>) = log_index_of s" by (rule ext) (simp add: log_index_of_def)
  then show ?thesis by (simp add: log_ok_def)
qed

lemma log_ok_extend:
  assumes "log_ok s" "shredded s d = None" "dsa_log_index a = Some (next_log_index s)"
    "checked_add (next_log_index s) 1 = Some n"
  shows "log_ok (s\<lparr>next_log_index := n, shredded := (shredded s)(d \<mapsto> a)\<rparr>)" (is "log_ok ?s")
proof -
  have n: "unat n = Suc (unat (next_log_index s))" using unat_checked_add[OF assms(4)] by simp
  have old: "log_index_of ?s x = log_index_of s x" if "x \<in> dom (shredded s)" for x
    using that assms(2) by (auto simp: log_index_of_def)
  have new: "log_index_of ?s d = Some (unat (next_log_index s))" by (simp add: log_index_of_def assms(3))
  have "bij_betw (log_index_of ?s) (dom (shredded s)) (Some ` {..<unat (next_log_index s)})"
    using assms(1) old unfolding log_ok_def by (metis (no_types, lifting) bij_betw_cong)
  then have "bij_betw (log_index_of ?s) (insert d (dom (shredded s))) (insert (Some (unat (next_log_index s))) (Some ` {..<unat (next_log_index s)}))"
    using new assms(2) unfolding bij_betw_def by (auto simp: domIff)
  moreover have "insert (Some (unat (next_log_index s))) (Some ` {..<unat (next_log_index s)}) = Some ` {..<unat n}"
    by (auto simp: n lessThan_Suc)
  ultimately show ?thesis by (simp add: log_ok_def)
qed

lemma log_ok_mem_shred: "log_ok s \<Longrightarrow> log_ok (snd (mem_shred h d s))"
proof (cases "shredded s d")
  case None
  assume ok: "log_ok s"
  show ?thesis
  proof (cases "live s d")
    case live: (Some u)
    let ?s = "s\<lparr>live := (live s)(d := None)\<rparr>"
    have ok': "log_ok ?s" using ok by (simp add: log_ok_live)
    show ?thesis
    proof (cases "checked_add (next_log_index s) 1")
      case None
      then show ?thesis using \<open>shredded s d = None\<close> live ok'
        by (simp add: mem_shred_def issue_attestation_def)
    next
      case (Some n)
      have "snd (mem_shred h d s) = ?s\<lparr>next_log_index := n, shredded := (shredded ?s)(d \<mapsto>
          \<lparr>dsa_class = RSC_None, dsa_bytes = keyed_hash h (derive_key h ''arkhe-forge-dek-shred-attestation'' (dek_id_bytes d))
             (be_bytes 8 (next_log_index s)), dsa_log_index = Some (next_log_index s)\<rparr>)\<rparr>"
        using \<open>shredded s d = None\<close> live Some by (simp add: mem_shred_def issue_attestation_def Let_def)
      moreover have "log_ok (?s\<lparr>next_log_index := n, shredded := (shredded ?s)(d \<mapsto>
          \<lparr>dsa_class = RSC_None, dsa_bytes = keyed_hash h (derive_key h ''arkhe-forge-dek-shred-attestation'' (dek_id_bytes d))
             (be_bytes 8 (next_log_index s)), dsa_log_index = Some (next_log_index s)\<rparr>)\<rparr>)"
        by (rule log_ok_extend[OF ok']) (use \<open>shredded s d = None\<close> Some in simp_all)
      ultimately show ?thesis by simp
    qed
  qed (use None ok in \<open>simp add: mem_shred_def\<close>)
qed (simp add: mem_shred_def)

lemma log_ok_set_cached:
  assumes "log_ok s" "shredded s d = Some b" "dsa_log_index a = dsa_log_index b"
  shows "log_ok (set_cached_attestation d a s)"
proof -
  have "log_index_of (set_cached_attestation d a s) = log_index_of s"
    using assms by (auto simp: log_index_of_def set_cached_attestation_def)
  moreover have "dom (shredded (set_cached_attestation d a s)) = dom (shredded s)"
    using assms(2) by (auto simp: set_cached_attestation_def)
  ultimately show ?thesis using assms(1) by (simp add: log_ok_def set_cached_attestation_def)
qed

lemma log_ok_mem_step: "log_ok s \<Longrightarrow> log_ok (mem_step h cmd s)"
  by (cases cmd) (simp_all add: mem_register_def log_ok_live log_ok_mem_shred)

lemma log_ok_signing_step: "log_ok (sg_inner s) \<Longrightarrow> log_ok (sg_inner (signing_step h D cmd s))"
proof (cases cmd)
  case (ShredDek d)
  assume ok: "log_ok (sg_inner s)"
  obtain r i where m: "mem_shred h d (sg_inner s) = (r, i)" by (metis surj_pair)
  have i: "log_ok i" using log_ok_mem_shred[OF ok, of h d] m by simp
  show ?thesis
  proof (cases r)
    case (Inr a)
    then have "shredded i d = Some a" using m mem_shred_ok by metis
    then show ?thesis using i m Inr ShredDek
      by (auto simp: signing_shred_def Let_def intro: log_ok_set_cached split: option.splits)
  qed (use i m ShredDek in \<open>simp add: signing_shred_def\<close>)
qed (simp add: signing_register_def mem_register_def log_ok_live)

lemma log_ok_runs:
  "log_ok (fold (mem_step h) cmds MemShredder_new)"
  "log_ok (sg_inner (fold (signing_step h D) cmds (SigningShredder_new MemShredder_new k)))"
proof -
  have "log_ok s \<Longrightarrow> log_ok (fold (mem_step h) cmds s)" for s
    by (induction cmds arbitrary: s) (simp_all add: log_ok_mem_step)
  then show "log_ok (fold (mem_step h) cmds MemShredder_new)" by (simp add: log_ok_new)
  have "log_ok (sg_inner s) \<Longrightarrow> log_ok (sg_inner (fold (signing_step h D) cmds s))" for s :: "'a signing_shredder"
    by (induction cmds arbitrary: s) (simp_all add: log_ok_signing_step)
  then show "log_ok (sg_inner (fold (signing_step h D) cmds (SigningShredder_new MemShredder_new k)))"
    by (simp add: log_ok_new SigningShredder_new_def)
qed

lemma log_ok_Some: "log_ok s \<Longrightarrow> shredded s d = Some a \<Longrightarrow> \<exists>i. dsa_log_index a = Some i"
proof -
  assume "log_ok s" and d: "shredded s d = Some a"
  then have "log_index_of s d \<in> Some ` {..<unat (next_log_index s)}"
    unfolding log_ok_def by (metis bij_betwE domI)
  then show ?thesis using d by (auto simp: log_index_of_def)
qed

section \<open>The cascade\<close>

interpretation cascade: projection "cascade_ops pc R S" for pc R S
proof
  fix ev cx p p' e s
  show "p_last_applied (cascade_ops pc R S) p' = Some (er_sequence ev, er_tick ev)"
    if "p_on_event (cascade_ops pc R S) ev cx p = (Inr (), p')"
    using that by (auto simp: cascade_ops_def cascade_on_event_def cursor_last_applied_def event_pos_def Let_def
        split: option.splits prod.splits sum.splits)
  show "p_last_applied (cascade_ops pc R S) p' = p_last_applied (cascade_ops pc R S) p"
    if "p_on_event (cascade_ops pc R S) ev cx p = (Inl e, p')"
    using that by (auto simp: cascade_ops_def cascade_on_event_def Let_def
        split: option.splits prod.splits sum.splits)
qed (simp_all add: cascade_ops_def default_on_state_change_def)

definition user_of :: "user_erasure_scheduled codec \<Rightarrow> event_record \<Rightarrow> user_id option" where
  "user_of pc ev = map_option ues_user (cd_dec pc (er_payload ev))"

text \<open>The completions of an observer that was never drained are the users of its applied events.\<close>
definition completed :: "user_erasure_scheduled codec \<Rightarrow> ('r, 's) cascade \<times> event_record list \<Rightarrow> bool" where
  "completed pc q \<longleftrightarrow> map (\<lambda>k. Some (ec_user k)) (cs_completions (fst q)) = map (user_of pc) (snd q)"

lemma completed_event:
  "completed pc q \<Longrightarrow> completed pc (snd (p_on_event (recording (cascade_ops pc R S)) ev cx q))"
  by (auto simp: completed_def recording_def cascade_ops_def cascade_on_event_def user_of_def Let_def
      split: option.splits prod.splits sum.splits)

lemma completed_change:
  "completed pc q \<Longrightarrow> completed pc (snd (p_on_state_change (recording (cascade_ops pc R S)) s q))"
  by (simp add: recording_def cascade_ops_def default_on_state_change_def)

lemma cascade_wants: "wants (cascade_ops pc R S) (Cascade_new r s) = (\<lambda>ev. er_type_code ev = USER_ERASURE_SCHEDULED)"
  by (rule ext) (simp add: wants_def cascade_ops_def Cascade_new_def already_applied_def cursor_last_applied_def)

text \<open>One event: what the observer changes, on every branch.\<close>
lemma on_event_cases:
  obtains (undecodable) "cd_dec pc (er_payload ev) = None"
      "cascade_on_event pc R S ev cx c = (Inl (DecodeFailed ''UserErasureScheduled payload''), c)"
  | (shred_failed) u d e s' where "user_of pc ev = Some u" "upr_dek_id (r_rows_for R u (cs_rows c)) = Some d"
      "s_shred_with_regions S d (pctx_tick cx) (cs_shredder c) = (Inl e, s')"
      "cascade_on_event pc R S ev cx c = (Inl (shred_error_to_storage e), c\<lparr>cs_shredder := s'\<rparr>)"
  | (tombstone_failed) u res s' e r' where "user_of pc ev = Some u"
      "(case upr_dek_id (r_rows_for R u (cs_rows c)) of
          Some d \<Rightarrow> s_shred_with_regions S d (pctx_tick cx) (cs_shredder c)
        | None \<Rightarrow> (Inr no_dek_result, cs_shredder c)) = (Inr res, s')"
      "r_tombstone R u (cs_rows c) = (Inl e, r')"
      "cascade_on_event pc R S ev cx c = (Inl e, c\<lparr>cs_shredder := s', cs_rows := r'\<rparr>)"
  | (completes) u res s' r' where "user_of pc ev = Some u"
      "(case upr_dek_id (r_rows_for R u (cs_rows c)) of
          Some d \<Rightarrow> s_shred_with_regions S d (pctx_tick cx) (cs_shredder c)
        | None \<Rightarrow> (Inr no_dek_result, cs_shredder c)) = (Inr res, s')"
      "r_tombstone R u (cs_rows c) = (Inr (), r')"
      "cascade_on_event pc R S ev cx c = (Inr (), c\<lparr>cs_shredder := s', cs_rows := r',
          cs_completions := cs_completions c @ [\<lparr>ec_user = u, ec_completed_tick = pctx_tick cx,
            ec_tombstoned_rows = length (upr_rows (r_rows_for R u (cs_rows c))),
            ec_attestation = sr_overall res, ec_regions = sr_regions res\<rparr>],
          cs_cursor := Some (event_pos ev)\<rparr>)"
proof (cases "cd_dec pc (er_payload ev)")
  case None
  then show ?thesis using undecodable by (simp add: cascade_on_event_def)
next
  case (Some sch)
  let ?u = "ues_user sch"
  have u: "user_of pc ev = Some ?u" using Some by (simp add: user_of_def)
  let ?shred = "case upr_dek_id (r_rows_for R ?u (cs_rows c)) of
          Some d \<Rightarrow> s_shred_with_regions S d (pctx_tick cx) (cs_shredder c)
        | None \<Rightarrow> (Inr no_dek_result, cs_shredder c)"
  obtain sr s' where sh: "?shred = (sr, s')" by (metis surj_pair)
  show ?thesis
  proof (cases sr)
    case (Inl e)
    then obtain d where "upr_dek_id (r_rows_for R ?u (cs_rows c)) = Some d"
      using sh by (cases "upr_dek_id (r_rows_for R ?u (cs_rows c))") auto
    then show ?thesis using shred_failed[OF u, of d e s'] sh Inl Some by (simp add: cascade_on_event_def)
  next
    case (Inr res)
    obtain tr r' where t: "r_tombstone R ?u (cs_rows c) = (tr, r')" by (metis surj_pair)
    have sh': "?shred = (Inr res, s')" using sh Inr by simp
    show ?thesis
      using tombstone_failed[OF u sh'] completes[OF u sh'] t Some sh'
      by (cases tr) (simp_all add: cascade_on_event_def Let_def)
  qed
qed

locale cascade_env = dek_shredder S receipt + pii_row_store R
  for S :: "'s shredder_ops" and receipt and R :: "'r row_ops"
begin

text \<open>A completion is backed by the tombstone of its user and by the shredder's receipt, unless the user
had no key.\<close>
definition backed :: "('r, 's) cascade \<Rightarrow> erasure_completion \<Rightarrow> bool" where
  "backed c k \<longleftrightarrow> r_is_tombstoned R (ec_user k) (cs_rows c)
     \<and> (ec_attestation k = sr_overall no_dek_result \<and> ec_regions k = []
        \<or> (\<exists>d. receipt (cs_shredder c) d = Some (ec_attestation k)))"

lemma shred_regions_receipt:
  assumes "s_shred_with_regions S d t s = (res, s')"
  shows "(receipt s x = Some a \<longrightarrow> receipt s' x = Some a) \<and> (case res of Inl _ \<Rightarrow> True | Inr r \<Rightarrow> receipt s' d = Some (sr_overall r))"
proof (cases res)
  case (Inl e)
  then have "s_shred S d s = (Inl e, s')" using assms regions_err by blast
  then show ?thesis using Inl keep[of s x a d] by auto
next
  case (Inr r)
  then have "s_shred S d s = (Inr (sr_overall r), s')" using assms regions_ok by blast
  then show ?thesis using Inr keep[of s x a d] shred_ok by auto
qed

lemma backed_on_event:
  assumes "\<forall>k\<in>set (cs_completions c). backed c k"
  shows "\<forall>k\<in>set (cs_completions (snd (cascade_on_event pc R S ev cx c))). backed (snd (cascade_on_event pc R S ev cx c)) k"
proof (cases rule: on_event_cases[where pc=pc and ev=ev and cx=cx and R=R and S=S and c=c])
  case undecodable
  then show ?thesis using assms by simp
next
  case (shred_failed u d e s')
  then show ?thesis using assms shred_regions_receipt[OF shred_failed(3)] by (fastforce simp: backed_def)
next
  case (tombstone_failed u res s' e r')
  have r: "receipt (cs_shredder c) x = Some a \<Longrightarrow> receipt s' x = Some a" for x a
    using tombstone_failed(2) shred_regions_receipt by (auto split: option.splits)
  have t: "r_is_tombstoned R v (cs_rows c) \<Longrightarrow> r_is_tombstoned R v r'" for v
    using tombstone_keeps[of v "cs_rows c" u] tombstone_failed(3) by simp
  show ?thesis using assms tombstone_failed(4) r t by (fastforce simp: backed_def)
next
  case (completes u res s' r')
  have r: "receipt (cs_shredder c) x = Some a \<Longrightarrow> receipt s' x = Some a" for x a
    using completes(2) shred_regions_receipt by (auto split: option.splits)
  have t: "r_is_tombstoned R v (cs_rows c) \<Longrightarrow> r_is_tombstoned R v r'" for v
    using tombstone_keeps[of v "cs_rows c" u] completes(3) by simp
  have new: "res = no_dek_result \<or> (\<exists>d. receipt s' d = Some (sr_overall res))"
    using completes(2) shred_regions_receipt by (fastforce split: option.splits)
  show ?thesis using assms completes(4) r t new tombstone_marks[OF completes(3)]
    by (auto simp: backed_def no_dek_result_def) blast+
qed

lemma backed_run:
  "\<forall>k\<in>set (cs_completions c). backed c k \<Longrightarrow>
     \<forall>k\<in>set (cs_completions (fold (\<lambda>(ev, cx) c. snd (cascade_on_event pc R S ev cx c)) evs c)).
       backed (fold (\<lambda>(ev, cx) c. snd (cascade_on_event pc R S ev cx c)) evs c) k"
proof (induction evs arbitrary: c)
  case (Cons x evs)
  then show ?case using backed_on_event by (cases x) simp
qed simp

text \<open>Rows are only touched once the key is gone.\<close>
lemma shred_before_tombstone:
  assumes "cascade_on_event pc R S ev cx c = (res, c')" "cs_rows c' \<noteq> cs_rows c"
    and "user_of pc ev = Some u" "upr_dek_id (r_rows_for R u (cs_rows c)) = Some d"
  shows "receipt (cs_shredder c') d \<noteq> None"
proof (cases rule: on_event_cases[where pc=pc and ev=ev and cx=cx and R=R and S=S and c=c])
  case undecodable
  then show ?thesis using assms by simp
next
  case shred_failed
  then show ?thesis using assms by auto
next
  case (tombstone_failed u' res' s' e r')
  then show ?thesis using assms shred_regions_receipt by (fastforce simp: assms(3))
next
  case (completes u' res' s' r')
  then show ?thesis using assms shred_regions_receipt by (fastforce simp: assms(3))
qed

end

interpretation mem_cascade: cascade_env "mem_shredder_ops h" shredded mem_rows_ops for h
  by unfold_locales

interpretation signing_cascade: cascade_env "signing_shredder_ops h D" "signed_receipt D" mem_rows_ops for h D
  by unfold_locales

lemma completions_due:
  "let P = cascade_ops pc R S; (acc, r) = run_router P cmds ([], start_router P (map (\<lambda>(rows, sh). Cascade_new rows sh) ini));
       due = \<lambda>es. map (user_of pc) (filter (\<lambda>ev. er_type_code ev = USER_ERASURE_SCHEDULED) es) in
     length (projections r) = length ini
   \<and> list_all (\<lambda>c. map (\<lambda>k. Some (ec_user k)) (cs_completions c) = due acc
        \<or> (\<exists>ev. pinned r = Some ev \<and> map (\<lambda>k. Some (ec_user k)) (cs_completions c) = due (acc @ [ev]))) (projections r)"
proof -
  let ?P = "cascade_ops pc R S" and ?c = "\<lambda>(rows, sh). Cascade_new rows sh"
  let ?start = "([], start_router (recording ?P) (map (\<lambda>p. (p, [])) (map ?c ini)))"
  obtain acc r where run: "run_router (recording ?P) cmds ?start = (acc, r)" by (metis surj_pair)
  note once = cascade.exactly_once[OF run]
  then have sim: "run_router ?P cmds ([], start_router ?P (map ?c ini)) = (acc, forget_log r)"
    and len: "length (projections r) = length ini" by simp_all
  have "list_all (completed pc) (projections (snd ?start))"
    by (auto simp: start_router_fields list_all_iff completed_def Cascade_new_def)
  moreover have "pred_option (\<lambda>_. True) y" for y :: "event_record option" by (cases y) auto
  ultimately have inv: "list_all (completed pc) (projections r)"
    using run_slotwise[of "completed pc" "recording ?P" "\<lambda>_. True" ?start cmds, OF completed_event completed_change TrueI]
      run by simp
  have "map (\<lambda>k. Some (ec_user k)) (cs_completions (fst (projections r ! j)))
        = map (user_of pc) (filter (\<lambda>ev. er_type_code ev = USER_ERASURE_SCHEDULED) acc)
      \<or> (\<exists>ev. pinned r = Some ev \<and> map (\<lambda>k. Some (ec_user k)) (cs_completions (fst (projections r ! j)))
           = map (user_of pc) (filter (\<lambda>ev. er_type_code ev = USER_ERASURE_SCHEDULED) (acc @ [ev])))" if j: "j < length ini" for j
  proof -
    have w: "wants ?P (map ?c ini ! j) = (\<lambda>ev. er_type_code ev = USER_ERASURE_SCHEDULED)"
      using j by (cases "ini ! j") (simp add: cascade_wants)
    have d: "map (\<lambda>k. Some (ec_user k)) (cs_completions (fst (projections r ! j))) = map (user_of pc) (snd (projections r ! j))"
      using inv j len by (simp add: list_all_length completed_def)
    show ?thesis
      using once[THEN conjunct2, THEN conjunct2, THEN conjunct2, rule_format, of j] j
      unfolding w d pinned_Some length_map by metis
  qed
  then show ?thesis using len by (simp add: sim list_all_length Let_def pinned_def)
qed

lemma cascade_slotwise:
  assumes "\<And>ev cx c. Q c \<Longrightarrow> Q (snd (cascade_on_event pc R S ev cx c))" "list_all Q cs"
    and "run_router (cascade_ops pc R S) cmds ([], start_router (cascade_ops pc R S) cs) = (acc, r)"
  shows "list_all Q (projections r)"
proof -
  have "pred_option (\<lambda>_. True) y" for y :: "event_record option" by (cases y) auto
  then show ?thesis
    using run_slotwise[of Q "cascade_ops pc R S" "\<lambda>_. True" "([], start_router (cascade_ops pc R S) cs)" cmds] assms
    by (simp add: cascade_ops_def default_on_state_change_def ret_def start_router_fields)
qed

section \<open>From an accepted request to the receipt\<close>

text \<open>Over the in-memory rows: a user with key \<^term>\<open>d\<close> keeps the row until the first completion, and this
completion carries the receipt of \<^term>\<open>d\<close>, which the shredder goes on answering with.\<close>
definition attested :: "('s \<Rightarrow> dek_id \<Rightarrow> dek_shred_attestation option) \<Rightarrow> user_id \<Rightarrow> dek_id \<Rightarrow> (mem_rows, 's) cascade \<Rightarrow> bool" where
  "attested receipt u d c \<longleftrightarrow>
     (if u \<in> ec_user ` set (cs_completions c)
      then mr_tombstoned (cs_rows c) u \<noteq> None
         \<and> (\<exists>k\<in>set (cs_completions c). ec_user k = u \<and> receipt (cs_shredder c) d = Some (ec_attestation k))
      else upr_dek_id (mem_rows_for u (cs_rows c)) = Some d)"

lemma attested_event:
  assumes "dek_shredder S receipt" "attested receipt u d c"
  shows "attested receipt u d (snd (cascade_on_event pc mem_rows_ops S ev cx c))"
proof -
  have env: "cascade_env S receipt mem_rows_ops"
    using assms(1) mem_row_store.pii_row_store_axioms by (rule cascade_env.intro)
  show ?thesis
  proof (cases rule: on_event_cases[where pc=pc and ev=ev and cx=cx and R=mem_rows_ops and S=S and c=c])
    case undecodable
    then show ?thesis using assms(2) by simp
  next
    case (shred_failed v x e s')
    then show ?thesis using assms(2) cascade_env.shred_regions_receipt[OF env shred_failed(3)]
      by (fastforce simp: attested_def)
  next
    case tombstone_failed
    then show ?thesis by (simp add: mem_rows_ops_def mem_tombstone_def)
  next
    case (completes v res s' r')
    have keep: "receipt (cs_shredder c) x = Some a \<Longrightarrow> receipt s' x = Some a" for x a
      using completes(2) cascade_env.shred_regions_receipt[OF env] by (auto split: option.splits)
    have r': "r' = (cs_rows c)\<lparr>mr_users := (mr_users (cs_rows c))(v := None), mr_tombstoned := (mr_tombstoned (cs_rows c))(v \<mapsto> ())\<rparr>"
      using completes(3) by (simp add: mem_rows_ops_def mem_tombstone_def)
    show ?thesis
    proof (cases "u \<in> ec_user ` set (cs_completions c)")
      case True
      then show ?thesis using assms(2) completes(4) keep r' by (fastforce simp: attested_def)
    next
      case False
      then have d: "upr_dek_id (mem_rows_for u (cs_rows c)) = Some d" using assms(2) by (simp add: attested_def)
      show ?thesis
      proof (cases "v = u")
        case True
        then have "receipt s' d = Some (sr_overall res)"
          using completes(2) d cascade_env.shred_regions_receipt[OF env] by (fastforce simp: mem_rows_ops_def)
        then show ?thesis using completes(4) r' True by (simp add: attested_def)
      next
        case v: False
        then show ?thesis using completes(4) r' d False by (simp add: attested_def mem_rows_for_def)
      qed
    qed
  qed
qed

lemma signing_signer_steps: "sg_signer (fold (signing_step h D) cmds s) = sg_signer s"
proof -
  have "sg_signer (signing_step h D cmd t) = sg_signer t" for cmd t
    by (cases cmd) (simp_all add: signing_register_def)
  then show ?thesis by (induction cmds arbitrary: s) simp_all
qed

text \<open>The cascade reaches the shredder by shreds only.\<close>
definition shreds :: "blake3 \<Rightarrow> 'sk mldsa \<Rightarrow> 'sk signing_shredder \<Rightarrow> 'sk signing_shredder \<Rightarrow> bool" where
  "shreds h D s t \<longleftrightarrow> (\<exists>ds. t = fold (signing_step h D) (map ShredDek ds) s)"

lemma shreds_step: "shreds h D s t \<Longrightarrow> shreds h D s (snd (signing_shred h D d t))"
proof -
  assume "shreds h D s t"
  then obtain ds where "t = fold (signing_step h D) (map ShredDek ds) s" by (auto simp: shreds_def)
  then have "snd (signing_shred h D d t) = fold (signing_step h D) (map ShredDek (ds @ [d])) s" by simp
  then show ?thesis unfolding shreds_def by blast
qed

lemma shreds_event:
  assumes "shreds h D s (cs_shredder c)"
  shows "shreds h D s (cs_shredder (snd (cascade_on_event pc R (signing_shredder_ops h D) ev cx c)))"
proof -
  have st: "snd (s_shred_with_regions (signing_shredder_ops h D) d t x) = snd (signing_shred h D d x)" for d t x
    by (auto simp: signing_shredder_ops_def default_shred_with_regions_def bnd_def ret_def split: prod.splits sum.splits)
  have ok: "s_shred_with_regions (signing_shredder_ops h D) d t (cs_shredder c) = (res, s') \<Longrightarrow> shreds h D s s'" for d t res s'
    using shreds_step[OF assms, of d] st[of d t "cs_shredder c"] by simp
  show ?thesis
    by (cases rule: on_event_cases[where pc=pc and ev=ev and cx=cx and R=R and S="signing_shredder_ops h D" and c=c])
      (use assms ok in \<open>auto split: option.splits\<close>)
qed

text \<open>A key with a receipt is not live.\<close>
definition gone :: "dek_id \<Rightarrow> mem_shredder \<Rightarrow> bool" where
  "gone d s \<longleftrightarrow> shredded s d = None \<or> live s d = None"

lemma gone_shreds: "gone d (sg_inner s) \<Longrightarrow> shreds h D s t \<Longrightarrow> gone d (sg_inner t)"
proof -
  have m: "gone d x \<Longrightarrow> gone d (snd (mem_shred h e x))" for x e
    by (auto simp: gone_def mem_shred_def issue_attestation_def Let_def split: option.splits)
  have l: "mem_shred h d x = (Inr a, x') \<Longrightarrow> gone d x \<Longrightarrow> live x' d = None" for x a x'
    using m[of x d] mem_shred_ok[of h d x a x'] by (auto simp: gone_def)
  have "gone d (sg_inner x) \<Longrightarrow> gone d (sg_inner (snd (signing_shred h D e x)))" for x e
    using m[of "sg_inner x" e] l[of "sg_inner x"]
    by (auto simp: signing_shred_def Let_def set_cached_attestation_def gone_def split: prod.splits sum.splits option.splits)
  then have "gone d (sg_inner x) \<Longrightarrow> gone d (sg_inner (fold (signing_step h D) (map ShredDek ds) x))" for ds x
    by (induction ds arbitrary: x) simp_all
  then show "gone d (sg_inner s) \<Longrightarrow> shreds h D s t \<Longrightarrow> gone d (sg_inner t)" by (auto simp: shreds_def)
qed

lemma signed_receipt_signed:
  assumes "log_ok (sg_inner s)" "signed_receipt D s d = Some a"
  obtains i where "shredded (sg_inner s) d = Some a"
    "a = \<lparr>dsa_class = RSC_MlDsa65, dsa_bytes = receipt_sign D (sg_signer s) (dek_shred_message d i), dsa_log_index = Some i\<rparr>"
proof -
  obtain b where b: "shredded (sg_inner s) d = Some b" using assms(2) by (auto simp: signed_receipt_def split: option.splits)
  obtain i where "dsa_log_index b = Some i" using log_ok_Some[OF assms(1) b] by blast
  then show ?thesis using that[of i] assms(2) b by (auto simp: signed_receipt_def split: if_splits)
qed

text \<open>A key that is registered again after it was shredded stays live: the receipt is answered from the cache.\<close>
lemma reregistered_dek_stays_live:
  assumes "shredded s d = Some a"
  shows "mem_shred h d (mem_register d s) = (Inr a, mem_register d s) \<and> live (mem_register d s) d = Some ()"
  using assms by (simp add: mem_shred_def mem_register_def)

section \<open>Properties\<close>


definition demo_dek :: dek_id where "demo_dek = DekId (replicate 16 3)"
definition demo_erasure_pc :: "user_erasure_scheduled codec" where
  "demo_erasure_pc = table_codec [(\<lparr>ues_schema_version = 1, ues_user = demo_uid, ues_scheduled_tick = 7\<rparr>, [12])]"
definition demo_erasure :: event_record where
  "demo_erasure = \<lparr>er_type_code = USER_ERASURE_SCHEDULED, er_sequence = 0, er_tick = 7, er_payload = [12]\<rparr>"
definition demo_cascade :: "(mem_rows, mem_shredder) cascade" where
  "demo_cascade = Cascade_new (rows_upsert demo_uid [1, 2] demo_dek MemRows_new) (mem_register demo_dek MemShredder_new)"


text \<open>C17: the destruction log has no gaps and no repeats. However keys are registered and shredded, on the
in-memory shredder and on the signing one, the log indices of the cached receipts are exactly the
numbers below the next index, each carried by exactly one key.\<close>
theorem destruction_log_gap_free:
  "(let s = fold (mem_step h) cmds MemShredder_new
    in bij_betw (log_index_of s) (dom (shredded s)) (Some ` {..<unat (next_log_index s)}))
   \<and> (let s = sg_inner (fold (signing_step h D) cmds (SigningShredder_new MemShredder_new k))
    in bij_betw (log_index_of s) (dom (shredded s)) (Some ` {..<unat (next_log_index s)}))"
  using log_ok_runs unfolding log_ok_def Let_def by blast

text \<open>Shredding is idempotent for ever. Once a shred of a key succeeded on the signing shredder, every
later shred of that key, after any registrations and shreds of any keys, returns the same receipt and
changes nothing.\<close>
theorem signing_shred_idempotent:
  assumes "signing_shred h D d s = (Inr a, s')"
  shows "signing_shred h D d (fold (signing_step h D) cmds s') = (Inr a, fold (signing_step h D) cmds s')"
proof -
  have r: "signed_receipt D s' d = Some a"
    using signing_sh.shred_ok[of h D d s a s'] assms by (simp add: signing_shredder_ops_def)
  have "signed_receipt D t d = Some a \<Longrightarrow> signed_receipt D (signing_step h D cmd t) d = Some a" for cmd t
  proof (cases cmd)
    case (ShredDek d')
    assume "signed_receipt D t d = Some a"
    from signing_sh.keep[OF this, of h d'] show ?thesis by (simp add: ShredDek signing_shredder_ops_def)
  qed (simp add: signed_receipt_register)
  then have "signed_receipt D t d = Some a \<Longrightarrow> signed_receipt D (fold (signing_step h D) cmds t) d = Some a" for t
    by (induction cmds arbitrary: t) simp_all
  from signing_sh.replay[OF this[OF r], of h] show ?thesis by (simp add: signing_shredder_ops_def)
qed

definition demo_mldsa :: "unit mldsa" where
  "demo_mldsa = \<lparr>mldsa_keygen = (\<lambda>_. ((), replicate 1952 5)), mldsa_sign = (\<lambda>_ m. take 3309 (m @ replicate 3309 0))\<rparr>"

definition demo_signing :: "unit signing_shredder" where
  "demo_signing = signing_register demo_dek (SigningShredder_new MemShredder_new (mldsa65_from_seed demo_mldsa (replicate 32 0)))"

lemma demo_signing_shred: "\<exists>a s'. signing_shred demo_hash demo_mldsa demo_dek demo_signing = (Inr a, s')"
  by (simp add: signing_shred_def mem_shred_def issue_attestation_def demo_signing_def signing_register_def
      mem_register_def SigningShredder_new_def MemShredder_new_def checked_add_def Let_def)

lemma signing_shred_idempotent_witness:
  "\<exists>a s'. signing_shred demo_hash demo_mldsa demo_dek demo_signing = (Inr a, s')
     \<and> signing_shred demo_hash demo_mldsa demo_dek s' = (Inr a, s')"
proof -
  obtain a s' where 1: "signing_shred demo_hash demo_mldsa demo_dek demo_signing = (Inr a, s')"
    using demo_signing_shred by blast
  from signing_shred_idempotent[OF 1, of "[]"] 1 show ?thesis by auto
qed

text \<open>The law of the signature scheme the receipts rely on: a signature made with a key verifies under it,
and signatures and encoded keys have the widths of FIPS 204.\<close>
definition mldsa_correct :: "'sk mldsa \<Rightarrow> 'sk receipt_signer \<Rightarrow> sig_schemes \<Rightarrow> bool" where
  "mldsa_correct D k Sg \<longleftrightarrow> length (verifying_key_bytes k) = MLDSA65_PK_LEN
     \<and> (\<forall>m. length (mldsa_sign D (signing_key k) m) = MLDSA65_SIG_LEN)
     \<and> (\<exists>v. mldsa_verify Sg = Some v \<and> (\<forall>m. v (verifying_key_bytes k) m (mldsa_sign D (signing_key k) m)))"

text \<open>C36: the signed receipt is verifiable evidence. Whatever was registered and shredded before, a receipt
of the signing shredder carries a log index, has class ML-DSA-65 and is accepted by the envelope verifier
under that policy class for the message of exactly that key and index, while the same receipt is refused
under every other policy class; two keys of 16 bytes or two indices never share a message.\<close>
theorem signed_receipt_verifies:
  assumes "mldsa_correct D k Sg"
    and "s = fold (signing_step h D) cmds (SigningShredder_new MemShredder_new k)"
    and "signing_shred h D d s = (Inr a, s')"
  shows "\<exists>i. dsa_log_index a = Some i \<and> dsa_class a = RSC_MlDsa65
     \<and> (verify_receipt_envelope Sg cl (signing_public_key s) (dek_shred_message d i) [] (Some (dsa_bytes a)) = Inr ()
          \<longleftrightarrow> cl = RSC_MlDsa65)
     \<and> (length (dek_id_bytes d) = 16 \<and> length (dek_id_bytes d') = 16 \<and> dek_shred_message d i = dek_shred_message d' j
          \<longleftrightarrow> d = d' \<and> i = j \<and> length (dek_id_bytes d) = 16)"
proof -
  obtain p i' where m: "mem_shred h d (sg_inner s) = (Inr p, i')"
    using assms(3) by (auto simp: signing_shred_def split: prod.splits sum.splits)
  have "log_ok i'" using log_ok_mem_shred[of "sg_inner s" h d] log_ok_runs(2)[of h D cmds k] assms(2) m by simp
  then obtain i where i: "dsa_log_index p = Some i" using log_ok_Some mem_shred_ok[OF m] by blast
  have a: "a = \<lparr>dsa_class = RSC_MlDsa65, dsa_bytes = receipt_sign D (sg_signer s) (dek_shred_message d i), dsa_log_index = Some i\<rparr>"
    using assms(3) m i by (simp add: signing_shred_def Let_def)
  have k: "sg_signer s = k" by (simp add: assms(2) signing_signer_steps SigningShredder_new_def)
  have v: "verify_receipt_envelope Sg cl (signing_public_key s) (dek_shred_message d i) [] (Some (dsa_bytes a)) = Inr ()
      \<longleftrightarrow> cl = RSC_MlDsa65"
    using assms(1) unfolding envelope_ok
    by (cases cl) (auto simp: a k mldsa_correct_def signing_public_key_def public_key_bytes_def receipt_sign_def sig_widths)
  have "length (dek_id_bytes d) = 16 \<and> length (dek_id_bytes d') = 16 \<and> dek_shred_message d i = dek_shred_message d' j
          \<longleftrightarrow> d = d' \<and> i = j \<and> length (dek_id_bytes d) = 16"
    by (cases d; cases d') (auto simp: dek_shred_message_def be_bytes_inject)
  then show ?thesis using v by (simp add: a)
qed

lemma signed_receipt_verifies_witness:
  "\<exists>a s' i. signing_shred demo_hash demo_mldsa demo_dek demo_signing = (Inr a, s') \<and> dsa_log_index a = Some i
     \<and> dsa_class a = RSC_MlDsa65"
proof -
  let ?k = "mldsa65_from_seed demo_mldsa (replicate 32 0)"
  let ?Sg = "\<lparr>ed_strict = (\<lambda>_ _ _. False), mldsa_verify = Some (\<lambda>vk m sg. sg = take 3309 (m @ replicate 3309 0))\<rparr>"
  have 1: "mldsa_correct demo_mldsa ?k ?Sg"
    by (simp add: mldsa_correct_def demo_mldsa_def mldsa65_from_seed_def sig_widths min_def)
  obtain a s' where 2: "signing_shred demo_hash demo_mldsa demo_dek demo_signing = (Inr a, s')"
    using demo_signing_shred by blast
  have 3: "demo_signing = fold (signing_step demo_hash demo_mldsa) [RegisterDek demo_dek] (SigningShredder_new MemShredder_new ?k)"
    by (simp add: demo_signing_def)
  from signed_receipt_verifies[OF 1 3 2] 2 show ?thesis by blast
qed

text \<open>One completion per accepted erasure. However a router over any number of cascade observers is
driven, each observer that is not drained holds one completion per accepted scheduled-erasure event, for
that event's user and in stream order; only the event pinned for retry may be ahead of the stream.\<close>
theorem erasure_exactly_once:
  "let P = cascade_ops pc R S; (acc, r) = run_router P cmds ([], start_router P (map (\<lambda>(rows, sh). Cascade_new rows sh) ini));
       due = \<lambda>es. map (user_of pc) (filter (\<lambda>ev. er_type_code ev = USER_ERASURE_SCHEDULED) es) in
     length (projections r) = length ini
   \<and> list_all (\<lambda>c. map (\<lambda>k. Some (ec_user k)) (cs_completions c) = due acc
        \<or> (\<exists>ev. pinned r = Some ev \<and> map (\<lambda>k. Some (ec_user k)) (cs_completions c) = due (acc @ [ev]))) (projections r)"
  by (rule completions_due)

text \<open>C39: a second erasure request for a user whose cascade already ran gives a completion without evidence:
the in-memory row store no longer knows the user's key, so the observer completes with the empty
placeholder and no regional entry, although the key's receipt is still in the shredder.\<close>
theorem repeated_erasure_unattested:
  assumes "cascade_on_event pc mem_rows_ops S ev cx c = (Inr (), c1)" "user_of pc ev = Some u"
    and "user_of pc ev' = Some u"
  shows "\<exists>c2 k. cascade_on_event pc mem_rows_ops S ev' cx' c1 = (Inr (), c2)
     \<and> cs_completions c2 = cs_completions c1 @ [k] \<and> ec_user k = u
     \<and> ec_attestation k = \<lparr>dsa_class = RSC_None, dsa_bytes = [], dsa_log_index = None\<rparr>
     \<and> ec_regions k = [] \<and> ec_tombstoned_rows k = 0 \<and> cs_shredder c2 = cs_shredder c1"
proof -
  have "mr_users (cs_rows c1) u = None"
    using assms(1,2) by (auto simp: cascade_on_event_def user_of_def mem_rows_ops_def mem_tombstone_def Let_def
        split: option.splits prod.splits sum.splits)
  then show ?thesis using assms(3)
    by (auto simp: cascade_on_event_def user_of_def mem_rows_ops_def mem_rows_for_def mem_tombstone_def no_dek_result_def Let_def)
qed

lemma repeated_erasure_unattested_witness:
  "\<exists>c1 c2 k. cascade_on_event demo_erasure_pc mem_rows_ops (mem_shredder_ops demo_hash) demo_erasure (ProjectionContext_new 7 1) demo_cascade = (Inr (), c1)
     \<and> cascade_on_event demo_erasure_pc mem_rows_ops (mem_shredder_ops demo_hash) demo_erasure (ProjectionContext_new 8 1) c1 = (Inr (), c2)
     \<and> cs_completions c2 = cs_completions c1 @ [k] \<and> dsa_class (ec_attestation k) = RSC_None \<and> shredded (cs_shredder c2) demo_dek \<noteq> None"
proof -
  let ?run = "cascade_on_event demo_erasure_pc mem_rows_ops (mem_shredder_ops demo_hash) demo_erasure"
  have u: "user_of demo_erasure_pc demo_erasure = Some demo_uid"
    by (simp add: user_of_def demo_erasure_def demo_erasure_pc_def table_codec_def)
  have "\<exists>c1. ?run (ProjectionContext_new 7 1) demo_cascade = (Inr (), c1) \<and> shredded (cs_shredder c1) demo_dek \<noteq> None"
    by (simp add: cascade_on_event_def demo_erasure_def demo_erasure_pc_def table_codec_def demo_cascade_def
        Cascade_new_def rows_upsert_def MemRows_new_def mem_rows_ops_def mem_rows_for_def mem_tombstone_def
        mem_shredder_ops_def default_shred_with_regions_def bnd_def ret_def mem_shred_def issue_attestation_def
        mem_register_def MemShredder_new_def checked_add_def Let_def)
  then obtain c1 where 1: "?run (ProjectionContext_new 7 1) demo_cascade = (Inr (), c1)" "shredded (cs_shredder c1) demo_dek \<noteq> None"
    by blast
  from repeated_erasure_unattested[OF 1(1) u u, of "ProjectionContext_new 8 1"] 1 show ?thesis by fastforce
qed

end
