(* ===== verification/Actions.thy ===== *)
theory Actions
  imports Context
begin

text \<open>The action payloads' compute bodies (\<^verbatim>\<open>ActionCompute\<close> impls of \<^verbatim>\<open>user.rs\<close>, \<^verbatim>\<open>actor.rs\<close>,
\<^verbatim>\<open>space.rs\<close> and \<^verbatim>\<open>activity.rs\<close>), the \<^verbatim>\<open>ArkheAction\<close> metadata of \<^verbatim>\<open>action.rs\<close>, and the
functional behaviour of each body: when it succeeds, what it stages, what every error means.\<close>

section \<open>Metadata\<close>

record action_meta =
  am_type_code :: type_code
  am_schema_version :: u16
  am_band :: u8
  am_idempotent :: bool

definition RegisterUser_meta :: action_meta where
  "RegisterUser_meta = \<lparr>am_type_code = 0x00010001, am_schema_version = 1, am_band = 1, am_idempotent = False\<rparr>"
definition GdprEraseUser_meta :: action_meta where
  "GdprEraseUser_meta = \<lparr>am_type_code = 0x00010003, am_schema_version = 1, am_band = 1, am_idempotent = False\<rparr>"
definition RegisterActor_meta :: action_meta where
  "RegisterActor_meta = \<lparr>am_type_code = 0x00010101, am_schema_version = 1, am_band = 1, am_idempotent = False\<rparr>"
definition CreateSpace_meta :: action_meta where
  "CreateSpace_meta = \<lparr>am_type_code = 0x00010201, am_schema_version = 1, am_band = 1, am_idempotent = False\<rparr>"
definition SubmitActivity_meta :: action_meta where
  "SubmitActivity_meta = \<lparr>am_type_code = 0x00010401, am_schema_version = 1, am_band = 1, am_idempotent = True\<rparr>"
definition RetractActivity_meta :: action_meta where
  "RetractActivity_meta = \<lparr>am_type_code = 0x00010402, am_schema_version = 1, am_band = 1, am_idempotent = False\<rparr>"

lemmas meta_defs = RegisterUser_meta_def GdprEraseUser_meta_def RegisterActor_meta_def
  CreateSpace_meta_def SubmitActivity_meta_def RetractActivity_meta_def

section \<open>Compute bodies\<close>

definition compute_RegisterUser :: "blake3 \<Rightarrow> postcards \<Rightarrow> register_user \<Rightarrow> ('ext, unit) ctx_act" where
  "compute_RegisterUser h pc a =
     bnd (ensure_schema_version (am_schema_version RegisterUser_meta) (ru_schema_version a)) (\<lambda>_.
     bnd (ensure_schema_version (SCHEMA_VERSION (UserProfile pc)) (up_schema_version (ru_profile a))) (\<lambda>_.
     bnd (ensure_schema_version (SCHEMA_VERSION (AuthCredential pc)) (ac_schema_version (ru_credential a))) (\<lambda>_.
     bnd (guard (validate_kdf_params (ac_kdf (ru_credential a)) (ac_kdf_params (ru_credential a)))
                (InvalidInput ''KDF params below minimum'')) (\<lambda>_.
     bnd (spawn_entity_for h (UserProfile pc)) (\<lambda>user_entity.
     bnd (set_component (UserProfile pc) user_entity (ru_profile a)) (\<lambda>_.
     bnd (set_component (AuthCredential pc) user_entity (ru_credential a)) (\<lambda>_.
     set_component (UserGdprState pc) user_entity \<lparr>ugs_schema_version = 1, ugs_status = Active\<rparr>)))))))"

definition compute_GdprEraseUser :: "postcards \<Rightarrow> gdpr_erase_user \<Rightarrow> ('ext, unit) ctx_act" where
  "compute_GdprEraseUser pc a =
     bnd (ensure_schema_version (am_schema_version GdprEraseUser_meta) (geu_schema_version a)) (\<lambda>_.
     bnd (set_component (UserGdprState pc) (user_get (geu_user a))
            \<lparr>ugs_schema_version = 1, ugs_status = ErasurePending\<rparr>) (\<lambda>_.
     bnd (gets cur_tick) (\<lambda>t.
     emit_event (UserErasureScheduled pc)
       \<lparr>ues_schema_version = 1, ues_user = geu_user a, ues_scheduled_tick = t\<rparr>)))"

definition compute_RegisterActor :: "blake3 \<Rightarrow> postcards \<Rightarrow> register_actor \<Rightarrow> ('ext, unit) ctx_act" where
  "compute_RegisterActor h pc a =
     bnd (ensure_schema_version (am_schema_version RegisterActor_meta) (ra_schema_version a)) (\<lambda>_.
     bnd (ensure_schema_version (SCHEMA_VERSION (ActorProfile pc)) (ap_schema_version (ra_profile a))) (\<lambda>_.
     bnd (gets (\<lambda>c. actor_by_handle c (ap_shell_id (ra_profile a)) (ap_handle (ra_profile a)))) (\<lambda>found.
     bnd (guard (found = None)
                (ActorHandleCollision (ap_shell_id (ra_profile a)) (ap_handle (ra_profile a)))) (\<lambda>_.
     bnd (spawn_entity_for h (ActorProfile pc)) (\<lambda>actor_entity.
     bnd (set_component (ActorProfile pc) actor_entity (ra_profile a)) (\<lambda>_.
     set_component (UserBinding pc) actor_entity
       \<lparr>ub_schema_version = SCHEMA_VERSION (UserBinding pc), ub_user_id = ra_user a\<rparr>))))))"

text \<open>The depth of a new space: one more than the parent's, saturating, bounded by the maximum.\<close>
definition child_depth_of :: "postcards \<Rightarrow> space_id option \<Rightarrow> ('ext, u8) ctx_act" where
  "child_depth_of pc parent =
     (case parent of
        None \<Rightarrow> ret 0
      | Some p \<Rightarrow>
          bnd (lift_res (read (ParentChainDepth pc) (space_get p))) (\<lambda>r.
          bnd (case r of None \<Rightarrow> throw (InvalidInput ''parent space not found'') | Some d \<Rightarrow> ret d) (\<lambda>d.
          let next = saturating_add (pcd_depth d) 1 in
          bnd (guard (\<not> next > MAX_SPACE_DEPTH) (InvalidInput ''space depth exceeded'')) (\<lambda>_.
          ret next))))"

definition compute_CreateSpace :: "blake3 \<Rightarrow> postcards \<Rightarrow> create_space \<Rightarrow> ('ext, unit) ctx_act" where
  "compute_CreateSpace h pc a =
     bnd (ensure_schema_version (am_schema_version CreateSpace_meta) (cs_schema_version a)) (\<lambda>_.
     bnd (ensure_schema_version (SCHEMA_VERSION (SpaceConfig pc)) (scd_schema_version (cs_config a))) (\<lambda>_.
     bnd (lift_res (\<lambda>c. ok_or (AuthorizationFailed ''space requires an authenticated actor'')
                             (acting_actor c))) (\<lambda>creator.
     bnd (lift_res (\<lambda>c. ensure_actor_eligible pc creator (cur_tick c) c)) (\<lambda>_.
     bnd (child_depth_of pc (scd_parent_space (cs_config a))) (\<lambda>child_depth.
     let config = into_config (cs_config a) creator in
     bnd (spawn_entity_for h (SpaceConfig pc)) (\<lambda>space_entity.
     bnd (set_component (SpaceConfig pc) space_entity config) (\<lambda>_.
     set_component (ParentChainDepth pc) space_entity
       \<lparr>pcd_schema_version = 1, pcd_depth = child_depth\<rparr>)))))))"

definition compute_SubmitActivity :: "blake3 \<Rightarrow> postcards \<Rightarrow> submit_activity \<Rightarrow> ('ext, unit) ctx_act" where
  "compute_SubmitActivity h pc a =
     bnd (ensure_schema_version (am_schema_version SubmitActivity_meta) (sa_schema_version a)) (\<lambda>_.
     bnd (ensure_schema_version (SCHEMA_VERSION (ActivityRecord pc)) (ad_schema_version (sa_draft a))) (\<lambda>_.
     bnd (lift_res (\<lambda>c. ok_or (AuthorizationFailed ''activity requires an authenticated actor'')
                             (acting_actor c))) (\<lambda>actor.
     bnd (lift_res (\<lambda>c. ensure_actor_eligible pc actor (cur_tick c) c)) (\<lambda>_.
     bnd (case sa_idempotency_key a of
            None \<Rightarrow> ret ()
          | Some key \<Rightarrow> bnd (gets (\<lambda>c. idempotency_lookup c key)) (\<lambda>r.
                         guard (r = None) (IdempotencyConflict key))) (\<lambda>_.
     bnd (lift_res (preview_next_id_for h (ActivityRecord pc))) (\<lambda>predicted.
     bnd (case ad_target (sa_draft a) of
            TActivity target \<Rightarrow> guard (activity_get target \<noteq> predicted) (InvalidInput ''activity self-loop'')
          | _ \<Rightarrow> ret ()) (\<lambda>_.
     let record' = into_record (sa_draft a) actor in
     bnd (spawn_entity_for h (ActivityRecord pc)) (\<lambda>activity_entity.
     set_component (ActivityRecord pc) activity_entity record'))))))))"

definition compute_RetractActivity :: "retract_activity \<Rightarrow> ('ext, unit) ctx_act" where
  "compute_RetractActivity a =
     bnd (ensure_schema_version (am_schema_version RetractActivity_meta) (rta_schema_version a)) (\<lambda>_.
     ret ())"

text \<open>The closed family of core actions, with the dispatch on the payload type.\<close>
datatype core_action =
    ARegisterUser register_user | AGdprEraseUser gdpr_erase_user | ARegisterActor register_actor
  | ACreateSpace create_space | ASubmitActivity submit_activity | ARetractActivity retract_activity

fun compute :: "blake3 \<Rightarrow> postcards \<Rightarrow> core_action \<Rightarrow> ('ext, unit) ctx_act" where
  "compute h pc (ARegisterUser a) = compute_RegisterUser h pc a"
| "compute h pc (AGdprEraseUser a) = compute_GdprEraseUser pc a"
| "compute h pc (ARegisterActor a) = compute_RegisterActor h pc a"
| "compute h pc (ACreateSpace a) = compute_CreateSpace h pc a"
| "compute h pc (ASubmitActivity a) = compute_SubmitActivity h pc a"
| "compute h pc (ARetractActivity a) = compute_RetractActivity a"

section \<open>Frame\<close>

lemma preserves_child_depth_of [simp]: "preserves ctx_le (child_depth_of pc p)"
  unfolding child_depth_of_def Let_def
  by (auto split: option.splits intro!: ctx_le_intros)

lemma preserves_compute: "preserves ctx_le (compute h pc a)"
  by (cases a)
     (auto simp: compute_RegisterUser_def compute_GdprEraseUser_def compute_RegisterActor_def
        compute_CreateSpace_def compute_SubmitActivity_def compute_RetractActivity_def Let_def
        split: option.splits target_kind.splits intro!: ctx_le_intros)

section \<open>Success of each body\<close>

definition enc_op :: "'c arkhe_type \<Rightarrow> entity_id \<Rightarrow> 'c \<Rightarrow> 'ext op option" where
  "enc_op C e x = (case cd_enc (postcard C) x of None \<Rightarrow> None
     | Some bs \<Rightarrow> Some (SetComponent e (TYPE_CODE C) bs (len_u64 bs)))"

lemma enc_op_Some: "enc_op C e x = Some p \<longleftrightarrow>
  (\<exists>bs. cd_enc (postcard C) x = Some bs \<and> p = SetComponent e (TYPE_CODE C) bs (len_u64 bs))"
  by (auto simp: enc_op_def split: option.splits)

definition fresh_id :: "blake3 \<Rightarrow> 'c arkhe_type \<Rightarrow> 'ext ctx \<Rightarrow> entity_id option" where
  "fresh_id h C c = (if unat (id_seq c) < 2 ^ 32 - 1
     then derive_entity_id h (world_seed c) (instance_id c) (TYPE_CODE C) (cur_tick c) (id_seq c) else None)"

lemma fresh_id_Some: "fresh_id h C c = Some i \<longleftrightarrow>
   unat (id_seq c) < 2 ^ 32 - 1
   \<and> derive_entity_id h (world_seed c) (instance_id c) (TYPE_CODE C) (cur_tick c) (id_seq c) = Some i"
  by (auto simp: fresh_id_def)

lemmas compute_ok_simps = bnd_Inr ensure_schema_version_apply spawn_entity_for_ok set_component_ok
  emit_event_ok enc_op_Some fresh_id_Some meta_defs

lemma SCHEMA_VERSION_simps [simp]:
  "SCHEMA_VERSION (UserProfile pc) = 1" "SCHEMA_VERSION (AuthCredential pc) = 1"
  "SCHEMA_VERSION (ActorProfile pc) = 1" "SCHEMA_VERSION (UserBinding pc) = 1"
  "SCHEMA_VERSION (SpaceConfig pc) = 1" "SCHEMA_VERSION (ActivityRecord pc) = 1"
  by (simp_all add: arkhe_type_defs)

lemma compute_RegisterUser_ok:
  "compute_RegisterUser h pc a c = (Inr u, c') \<longleftrightarrow>
     ru_schema_version a = 1 \<and> up_schema_version (ru_profile a) = 1
     \<and> ac_schema_version (ru_credential a) = 1
     \<and> validate_kdf_params (ac_kdf (ru_credential a)) (ac_kdf_params (ru_credential a))
     \<and> (\<exists>i p1 p2 p3. fresh_id h (UserProfile pc) c = Some i
         \<and> enc_op (UserProfile pc) i (ru_profile a) = Some p1
         \<and> enc_op (AuthCredential pc) i (ru_credential a) = Some p2
         \<and> enc_op (UserGdprState pc) i \<lparr>ugs_schema_version = 1, ugs_status = Active\<rparr> = Some p3
         \<and> c' = c\<lparr>id_seq := id_seq c + 1, ops := ops c @ [SpawnEntity i (principal c), p1, p2, p3]\<rparr>)"
  by (auto simp: compute_RegisterUser_def compute_ok_simps split: if_splits)

lemma compute_GdprEraseUser_ok:
  "compute_GdprEraseUser pc a c = (Inr u, c') \<longleftrightarrow>
     geu_schema_version a = 1
     \<and> (\<exists>p payload. enc_op (UserGdprState pc) (user_get (geu_user a))
                      \<lparr>ugs_schema_version = 1, ugs_status = ErasurePending\<rparr> = Some p
         \<and> cd_enc (postcard (UserErasureScheduled pc))
             \<lparr>ues_schema_version = 1, ues_user = geu_user a, ues_scheduled_tick = cur_tick c\<rparr> = Some payload
         \<and> c' = c\<lparr>event_seq := saturating_add (event_seq c) 1,
                  events := events c @ [\<lparr>er_type_code = USER_ERASURE_SCHEDULED, er_sequence = event_seq c,
                                         er_tick = cur_tick c, er_payload = payload\<rparr>],
                  ops := ops c @ [p, EmitEvent None USER_ERASURE_SCHEDULED payload]\<rparr>)"
  by (auto simp: compute_GdprEraseUser_def compute_ok_simps UserErasureScheduled_def split: if_splits)

lemma compute_RegisterActor_ok:
  "compute_RegisterActor h pc a c = (Inr u, c') \<longleftrightarrow>
     ra_schema_version a = 1 \<and> ap_schema_version (ra_profile a) = 1
     \<and> actor_by_handle c (ap_shell_id (ra_profile a)) (ap_handle (ra_profile a)) = None
     \<and> (\<exists>i p1 p2. fresh_id h (ActorProfile pc) c = Some i
         \<and> enc_op (ActorProfile pc) i (ra_profile a) = Some p1
         \<and> enc_op (UserBinding pc) i \<lparr>ub_schema_version = 1, ub_user_id = ra_user a\<rparr> = Some p2
         \<and> c' = c\<lparr>id_seq := id_seq c + 1, ops := ops c @ [SpawnEntity i (principal c), p1, p2]\<rparr>)"
  by (auto simp: compute_RegisterActor_def compute_ok_simps split: if_splits)

text \<open>The depth a parent reference yields in a context.\<close>
definition parent_depth :: "postcards \<Rightarrow> 'ext ctx \<Rightarrow> space_id option \<Rightarrow> u8 option" where
  "parent_depth pc c parent =
     (case parent of None \<Rightarrow> Some 0
      | Some p \<Rightarrow>
          (case read (ParentChainDepth pc) (space_get p) c of
             Inr (Some d) \<Rightarrow> if unat (pcd_depth d) < 64 then Some (pcd_depth d + 1) else None
           | _ \<Rightarrow> None))"

lemma sat_depth: "\<not> saturating_add d 1 > MAX_SPACE_DEPTH \<longleftrightarrow> unat (d :: u8) < 64"
  by (auto simp: word_less_nat_alt unat_saturating_add MAX_SPACE_DEPTH_def)

lemma sat_depth_value: "unat (d :: u8) < 64 \<Longrightarrow> saturating_add d 1 = d + 1"
  by (simp add: saturating_add_def)

lemma child_depth_of_ok:
  "child_depth_of pc parent c = (Inr d, c') \<longleftrightarrow> parent_depth pc c parent = Some d \<and> c' = c"
proof (cases parent)
  case None then show ?thesis by (auto simp: child_depth_of_def parent_depth_def)
next
  case (Some p)
  show ?thesis
  proof (cases "read (ParentChainDepth pc) (space_get p) c")
    case (Inl e)
    then show ?thesis using Some by (simp add: child_depth_of_def parent_depth_def bnd_def)
  next
    case (Inr r)
    then show ?thesis using Some
      by (cases r) (auto simp: child_depth_of_def parent_depth_def bnd_def Let_def sat_depth sat_depth_value)
  qed
qed

lemma compute_CreateSpace_ok:
  "compute_CreateSpace h pc a c = (Inr u, c') \<longleftrightarrow>
     cs_schema_version a = 1 \<and> scd_schema_version (cs_config a) = 1
     \<and> (\<exists>creator d i p1 p2. acting_actor c = Some creator
         \<and> eligible pc (staged_view c) creator
         \<and> parent_depth pc c (scd_parent_space (cs_config a)) = Some d
         \<and> fresh_id h (SpaceConfig pc) c = Some i
         \<and> enc_op (SpaceConfig pc) i (into_config (cs_config a) creator) = Some p1
         \<and> enc_op (ParentChainDepth pc) i \<lparr>pcd_schema_version = 1, pcd_depth = d\<rparr> = Some p2
         \<and> c' = c\<lparr>id_seq := id_seq c + 1, ops := ops c @ [SpawnEntity i (principal c), p1, p2]\<rparr>)"
  by (auto simp: compute_CreateSpace_def compute_ok_simps child_depth_of_ok ensure_actor_eligible_ok
      Let_def split: if_splits)

lemma idempotency_check_ok:
  "(case k of None \<Rightarrow> ret ()
    | Some key \<Rightarrow> bnd (gets (\<lambda>c. idempotency_lookup c key)) (\<lambda>r.
                   guard (r = None) (IdempotencyConflict key))) c = (Inr u, c') \<longleftrightarrow>
   (\<forall>key. k = Some key \<longrightarrow> idempotency_lookup c key = None) \<and> c' = c"
  by (cases k) (auto simp: bnd_Inr)

lemma self_loop_check_ok:
  "(case t of TActivity target \<Rightarrow> guard (activity_get target \<noteq> i) e | _ \<Rightarrow> ret ()) c = (Inr u, c') \<longleftrightarrow>
   t \<noteq> TActivity (ActivityId i) \<and> c' = c"
  by (cases t) (auto simp: activity_id.expand)

lemma compute_SubmitActivity_ok:
  "compute_SubmitActivity h pc a c = (Inr u, c') \<longleftrightarrow>
     sa_schema_version a = 1 \<and> ad_schema_version (sa_draft a) = 1
     \<and> (\<forall>key. sa_idempotency_key a = Some key \<longrightarrow> idempotency_lookup c key = None)
     \<and> (\<exists>actor i p. acting_actor c = Some actor
         \<and> eligible pc (staged_view c) actor
         \<and> fresh_id h (ActivityRecord pc) c = Some i
         \<and> ad_target (sa_draft a) \<noteq> TActivity (ActivityId i)
         \<and> enc_op (ActivityRecord pc) i (into_record (sa_draft a) actor) = Some p
         \<and> c' = c\<lparr>id_seq := id_seq c + 1, ops := ops c @ [SpawnEntity i (principal c), p]\<rparr>)"
  unfolding compute_SubmitActivity_def Let_def bnd_Inr idempotency_check_ok self_loop_check_ok
  by (auto simp: compute_ok_simps ensure_actor_eligible_ok preview_next_id_for_def split: if_splits)

lemma compute_RetractActivity_eq:
  "compute_RetractActivity a c =
     (if rta_schema_version a = 1 then Inr () else Inl (SchemaMismatch 1 (rta_schema_version a)), c)"
  by (simp add: compute_RetractActivity_def bnd_def ensure_schema_version_def meta_defs)

section \<open>Reading back what a body staged\<close>

lemma staged_view_append:
  "ops c' = ops c @ ps \<Longrightarrow> view c' = view c \<Longrightarrow> staged_view c' = fold apply_op_view ps (staged_view c)"
  by (simp add: staged_view_def base_view_def)

lemma decode_at_upd:
  "decode_at C e (v(e' := (v e')(tc \<mapsto> bs))) =
     (if e = e' \<and> tc = TYPE_CODE C
      then (case cd_dec (postcard C) bs of None \<Rightarrow> Inl () | Some x \<Rightarrow> Inr (Some x))
      else decode_at C e v)"
  by (auto simp: decode_at_def)

lemma apply_enc_op:
  assumes "enc_op C e' x = Some p"
  shows "decode_at D e (apply_op_view p v) =
     (if e = e' \<and> TYPE_CODE C = TYPE_CODE D
      then (case cd_dec (postcard D) (the (cd_enc (postcard C) x)) of None \<Rightarrow> Inl () | Some y \<Rightarrow> Inr (Some y))
      else decode_at D e v)"
  using assms by (auto simp: enc_op_Some decode_at_upd)

lemma apply_enc_op_same:
  assumes "enc_op C e' x = Some p" "codec_ok (postcard C)"
  shows "decode_at C e (apply_op_view p v) = (if e = e' then Inr (Some x) else decode_at C e v)"
proof -
  from assms obtain bs where "cd_enc (postcard C) x = Some bs" by (auto simp: enc_op_Some)
  with assms show ?thesis by (simp add: apply_enc_op codec_okD)
qed

lemma apply_enc_op_other:
  assumes "enc_op C e' x = Some p" "TYPE_CODE C \<noteq> TYPE_CODE D"
  shows "decode_at D e (apply_op_view p v) = decode_at D e v"
  using assms by (simp add: apply_enc_op)

lemma TYPE_CODE_simps [simp]:
  "TYPE_CODE (UserProfile pc) = 0x00030001" "TYPE_CODE (AuthCredential pc) = 0x00030002"
  "TYPE_CODE (UserGdprState pc) = 0x00030003" "TYPE_CODE (ActorProfile pc) = 0x00030101"
  "TYPE_CODE (UserBinding pc) = 0x00030102" "TYPE_CODE (SpaceConfig pc) = 0x00030201"
  "TYPE_CODE (ParentChainDepth pc) = 0x00030202" "TYPE_CODE (ActivityRecord pc) = 0x00030401"
  by (simp_all add: arkhe_type_defs)

lemma postcard_simps [simp]:
  "postcard (UserProfile pc) = pc_user_profile pc" "postcard (AuthCredential pc) = pc_auth_credential pc"
  "postcard (UserGdprState pc) = pc_user_gdpr_state pc" "postcard (ActorProfile pc) = pc_actor_profile pc"
  "postcard (UserBinding pc) = pc_user_binding pc" "postcard (SpaceConfig pc) = pc_space_config pc"
  "postcard (ParentChainDepth pc) = pc_parent_chain_depth pc"
  "postcard (ActivityRecord pc) = pc_activity_record pc"
  "postcard (UserErasureScheduled pc) = pc_user_erasure_scheduled pc"
  by (simp_all add: arkhe_type_defs)

section \<open>Authorship\<close>

lemma compute_CreateSpace_no_actor:
  "acting_actor c = None \<Longrightarrow> \<exists>e. compute_CreateSpace h pc a c = (Inl e, c)"
  by (auto simp: compute_CreateSpace_def bnd_def ensure_schema_version_def meta_defs)

lemma compute_SubmitActivity_no_actor:
  "acting_actor c = None \<Longrightarrow> \<exists>e. compute_SubmitActivity h pc a c = (Inl e, c)"
  by (auto simp: compute_SubmitActivity_def bnd_def ensure_schema_version_def meta_defs)

lemma create_space_records:
  assumes "codec_ok (pc_space_config pc)" "compute_CreateSpace h pc a c = (Inr (), c')"
  shows "\<exists>i actor. acting_actor c = Some actor \<and> eligible pc (staged_view c) actor
    \<and> decode_at (SpaceConfig pc) i (staged_view c') = Inr (Some (into_config (cs_config a) actor))"
proof -
  from assms(2)[unfolded compute_CreateSpace_ok] obtain actor d i p1 p2 where
    a: "acting_actor c = Some actor" "eligible pc (staged_view c) actor"
    and p1: "enc_op (SpaceConfig pc) i (into_config (cs_config a) actor) = Some p1"
    and p2: "enc_op (ParentChainDepth pc) i \<lparr>pcd_schema_version = 1, pcd_depth = d\<rparr> = Some p2"
    and c': "c' = c\<lparr>id_seq := id_seq c + 1, ops := ops c @ [SpawnEntity i (principal c), p1, p2]\<rparr>"
    by blast
  have "staged_view c' = apply_op_view p2 (apply_op_view p1 (staged_view c))"
    using staged_view_append[of c' c "[SpawnEntity i (principal c), p1, p2]"] c' by simp
  then have "decode_at (SpaceConfig pc) i (staged_view c') = Inr (Some (into_config (cs_config a) actor))"
    using assms(1) by (simp add: apply_enc_op_other[OF p2] apply_enc_op_same[OF p1])
  with a show ?thesis by blast
qed

lemma submit_activity_records:
  assumes "codec_ok (pc_activity_record pc)" "compute_SubmitActivity h pc a c = (Inr (), c')"
  shows "\<exists>i actor. acting_actor c = Some actor \<and> eligible pc (staged_view c) actor
    \<and> ad_target (sa_draft a) \<noteq> TActivity (ActivityId i)
    \<and> decode_at (ActivityRecord pc) i (staged_view c') = Inr (Some (into_record (sa_draft a) actor))"
proof -
  from assms(2)[unfolded compute_SubmitActivity_ok] obtain actor i p where
    a: "acting_actor c = Some actor" "eligible pc (staged_view c) actor"
    and t: "ad_target (sa_draft a) \<noteq> TActivity (ActivityId i)"
    and p: "enc_op (ActivityRecord pc) i (into_record (sa_draft a) actor) = Some p"
    and c': "c' = c\<lparr>id_seq := id_seq c + 1, ops := ops c @ [SpawnEntity i (principal c), p]\<rparr>"
    by blast
  have "staged_view c' = apply_op_view p (staged_view c)"
    using staged_view_append[of c' c "[SpawnEntity i (principal c), p]"] c' by simp
  then have "decode_at (ActivityRecord pc) i (staged_view c') = Inr (Some (into_record (sa_draft a) actor))"
    using assms(1) by (simp add: apply_enc_op_same[OF p])
  with a t show ?thesis by blast
qed

text \<open>C4: no actor substitution. A successful space creation or activity submission ran on behalf of
the injected acting actor, that actor passed the erasure gate, and the component stored under the
fresh entity reads back as the wire draft with exactly that actor stamped in (and an activity never
targets itself); without an injected actor both are rejected with the context untouched.\<close>
theorem acting_actor_is_recorded:
  assumes "codec_ok (pc_space_config pc)" "codec_ok (pc_activity_record pc)"
  shows "(compute_CreateSpace h pc cs c = (Inr (), c') \<longrightarrow>
       (\<exists>i actor. acting_actor c = Some actor \<and> eligible pc (staged_view c) actor
         \<and> decode_at (SpaceConfig pc) i (staged_view c') = Inr (Some (into_config (cs_config cs) actor))))
   \<and> (compute_SubmitActivity h pc sa c = (Inr (), c') \<longrightarrow>
       (\<exists>i actor. acting_actor c = Some actor \<and> eligible pc (staged_view c) actor
         \<and> ad_target (sa_draft sa) \<noteq> TActivity (ActivityId i)
         \<and> decode_at (ActivityRecord pc) i (staged_view c') = Inr (Some (into_record (sa_draft sa) actor))))
   \<and> (acting_actor c = None \<longrightarrow>
       (\<exists>e1 e2. compute_CreateSpace h pc cs c = (Inl e1, c) \<and> compute_SubmitActivity h pc sa c = (Inl e2, c)))"
  using create_space_records[OF assms(1)] submit_activity_records[OF assms(2)]
    compute_CreateSpace_no_actor compute_SubmitActivity_no_actor by metis

lemma demo_create_space:
  "compute_CreateSpace demo_hash demo_pc \<lparr>cs_schema_version = 1, cs_config = demo_draft\<rparr>
      (with_actor (Some demo_aid) demo_ctx)
    = (Inr (), (with_actor (Some demo_aid) demo_ctx)\<lparr>id_seq := 1,
        ops := [SpawnEntity 0x0003020100000000 System,
                SetComponent 0x0003020100000000 0x00030201 [8] 1,
                SetComponent 0x0003020100000000 0x00030202 [9] 1]\<rparr>)"
  by (simp add: compute_CreateSpace_ok demo_ctx_def with_actor_def ActionContext_new_def fresh_id_def
      demo_derive demo_enc enc_op_def parent_depth_def len_u64_def)

lemma acting_actor_is_recorded_witness:
  "\<exists>i. decode_at (SpaceConfig demo_pc) i
     (staged_view (snd (compute_CreateSpace demo_hash demo_pc \<lparr>cs_schema_version = 1, cs_config = demo_draft\<rparr>
        (with_actor (Some demo_aid) demo_ctx)))) = Inr (Some (into_config demo_draft demo_aid))"
  using acting_actor_is_recorded[OF demo_pc_ok(6) demo_pc_ok(8), of demo_hash
      "\<lparr>cs_schema_version = 1, cs_config = demo_draft\<rparr>" "with_actor (Some demo_aid) demo_ctx"]
    demo_create_space by (auto simp: with_actor_def)

section \<open>The space forest\<close>

text \<open>Every stored space has a depth of at most 64; a root has depth 0, and a child exactly one
more than the depth stored for its parent.\<close>
definition space_forest :: "postcards \<Rightarrow> instance_view \<Rightarrow> bool" where
  "space_forest pc v \<longleftrightarrow> (\<forall>e cfg. decode_at (SpaceConfig pc) e v = Inr (Some cfg) \<longrightarrow>
     (\<exists>d. decode_at (ParentChainDepth pc) e v = Inr (Some d) \<and> unat (pcd_depth d) \<le> 64
        \<and> (case sc_parent_space cfg of
             None \<Rightarrow> pcd_depth d = 0
           | Some p \<Rightarrow> \<exists>dp. decode_at (ParentChainDepth pc) (space_get p) v = Inr (Some dp)
                        \<and> unat (pcd_depth d) = unat (pcd_depth dp) + 1)))"

definition parent_edges :: "postcards \<Rightarrow> instance_view \<Rightarrow> (entity_id \<times> entity_id) set" where
  "parent_edges pc v = {(p, e). \<exists>cfg. decode_at (SpaceConfig pc) e v = Inr (Some cfg)
     \<and> sc_parent_space cfg = Some (SpaceId p)}"

definition depth_at :: "postcards \<Rightarrow> instance_view \<Rightarrow> entity_id \<Rightarrow> nat" where
  "depth_at pc v e = (case decode_at (ParentChainDepth pc) e v of Inr (Some d) \<Rightarrow> unat (pcd_depth d) | _ \<Rightarrow> 0)"

lemma space_forest_wf: "space_forest pc v \<Longrightarrow> wf (parent_edges pc v)"
proof (rule wf_subset[OF wf_measure[of "depth_at pc v"]], safe)
  fix p e assume sf: "space_forest pc v" and "(p, e) \<in> parent_edges pc v"
  then obtain cfg where "decode_at (SpaceConfig pc) e v = Inr (Some cfg)"
      "sc_parent_space cfg = Some (SpaceId p)"
    by (auto simp: parent_edges_def)
  with sf show "(p, e) \<in> measure (depth_at pc v)"
    unfolding space_forest_def depth_at_def by fastforce
qed

text \<open>Operations that touch neither of the two components leave the forest as it is.\<close>
lemma space_forest_cong:
  "(\<And>e. decode_at (SpaceConfig pc) e w = decode_at (SpaceConfig pc) e v) \<Longrightarrow>
   (\<And>e. decode_at (ParentChainDepth pc) e w = decode_at (ParentChainDepth pc) e v) \<Longrightarrow>
   space_forest pc w = space_forest pc v"
  by (simp add: space_forest_def split: option.split)

lemma space_forest_add:
  assumes sf: "space_forest pc v"
    and fresh: "decode_at (ParentChainDepth pc) i v = Inr None"
    and cfg: "\<And>e. decode_at (SpaceConfig pc) e w =
          (if e = i then Inr (Some cfg) else decode_at (SpaceConfig pc) e v)"
    and dep: "\<And>e. decode_at (ParentChainDepth pc) e w =
          (if e = i then Inr (Some d) else decode_at (ParentChainDepth pc) e v)"
    and d: "unat (pcd_depth d) \<le> 64"
    and par: "case sc_parent_space cfg of None \<Rightarrow> pcd_depth d = 0
       | Some p \<Rightarrow> \<exists>dp. decode_at (ParentChainDepth pc) (space_get p) v = Inr (Some dp)
                   \<and> unat (pcd_depth d) = unat (pcd_depth dp) + 1"
  shows "space_forest pc w"
  unfolding space_forest_def
proof (intro allI impI)
  fix e c assume e: "decode_at (SpaceConfig pc) e w = Inr (Some c)"
  have keep: "decode_at (ParentChainDepth pc) x v = Inr (Some dx) \<Longrightarrow>
      decode_at (ParentChainDepth pc) x w = Inr (Some dx)" for x dx
    using fresh by (auto simp: dep)
  show "\<exists>d. decode_at (ParentChainDepth pc) e w = Inr (Some d) \<and> unat (pcd_depth d) \<le> 64
        \<and> (case sc_parent_space c of None \<Rightarrow> pcd_depth d = 0
           | Some p \<Rightarrow> \<exists>dp. decode_at (ParentChainDepth pc) (space_get p) w = Inr (Some dp)
                        \<and> unat (pcd_depth d) = unat (pcd_depth dp) + 1)"
  proof (cases "e = i")
    case True
    with e cfg have "c = cfg" by simp
    then show ?thesis using True d par fresh dep by (auto split: option.splits)
  next
    case False
    with e cfg have "decode_at (SpaceConfig pc) e v = Inr (Some c)" by simp
    with sf obtain d' where d': "decode_at (ParentChainDepth pc) e v = Inr (Some d')"
        "unat (pcd_depth d') \<le> 64"
      and p': "case sc_parent_space c of None \<Rightarrow> pcd_depth d' = 0
           | Some p \<Rightarrow> \<exists>dp. decode_at (ParentChainDepth pc) (space_get p) v = Inr (Some dp)
                        \<and> unat (pcd_depth d') = unat (pcd_depth dp) + 1"
      unfolding space_forest_def by blast
    from p' keep have "case sc_parent_space c of None \<Rightarrow> pcd_depth d' = 0
           | Some p \<Rightarrow> \<exists>dp. decode_at (ParentChainDepth pc) (space_get p) w = Inr (Some dp)
                        \<and> unat (pcd_depth d') = unat (pcd_depth dp) + 1"
      by (cases "sc_parent_space c") (simp, simp, blast)
    with d' keep show ?thesis by blast
  qed
qed

lemma parent_depth_bound:
  assumes "parent_depth pc c parent = Some d"
  shows "unat d \<le> 64 \<and> (case parent of None \<Rightarrow> d = 0
     | Some p \<Rightarrow> \<exists>dp. decode_at (ParentChainDepth pc) (space_get p) (base_view c) = Inr (Some dp)
                 \<and> unat d = unat (pcd_depth dp) + 1)"
  using assms
  by (auto simp: parent_depth_def read_decode_at[symmetric] unat_plus_if'
      split: option.splits sum.splits if_splits)

text \<open>Operations that do not write a component code keep the view at that code.\<close>
fun writes_code :: "type_code \<Rightarrow> 'ext op \<Rightarrow> bool" where
  "writes_code C (SetComponent e tc bs sz) \<longleftrightarrow> tc = C"
| "writes_code C (RemoveComponent e tc sz) \<longleftrightarrow> tc = C"
| "writes_code C _ \<longleftrightarrow> False"

lemma fold_apply_not_written:
  "\<forall>p \<in> set ps. \<not> writes_code C p \<Longrightarrow> fold apply_op_view ps v e C = v e C"
proof (induction ps arbitrary: v)
  case Nil then show ?case by simp
next
  case (Cons p ps) then show ?case by (cases p) auto
qed

lemma writes_code_enc_op: "enc_op D e x = Some p \<Longrightarrow> writes_code C p \<longleftrightarrow> TYPE_CODE D = C"
  by (auto simp: enc_op_Some)

text \<open>The space codes are written by no action but \<^verbatim>\<open>CreateSpace\<close>.\<close>
lemma other_actions_write:
  assumes "compute h pc a c = (Inr (), c')" "ops c = []" "\<nexists>cs. a = ACreateSpace cs"
    and C: "C \<in> {0x00030201, 0x00030202}"
  shows "\<forall>p \<in> set (ops c'). \<not> writes_code C p"
proof (cases a)
  case (ARegisterUser r)
  with assms show ?thesis by (auto simp: compute_RegisterUser_ok writes_code_enc_op)
next
  case (AGdprEraseUser r)
  with assms show ?thesis by (auto simp: compute_GdprEraseUser_ok writes_code_enc_op)
next
  case (ARegisterActor r)
  with assms show ?thesis by (auto simp: compute_RegisterActor_ok writes_code_enc_op)
next
  case (ASubmitActivity r)
  with assms show ?thesis by (auto simp: compute_SubmitActivity_ok writes_code_enc_op)
next
  case (ARetractActivity r)
  with assms show ?thesis by (auto simp: compute_RetractActivity_eq split: if_splits)
qed (use assms in simp)

lemma compute_view: "compute h pc a c = (r, c') \<Longrightarrow> view c' = view c"
  using preserves_compute[of h pc a] by (auto simp: preserves_def ctx_le_def ctx_frame_def dest!: spec[of _ c])

lemma other_codes:
  assumes "compute h pc a c = (Inr (), c')" "ops c = []" "\<nexists>cs. a = ACreateSpace cs"
    and "C \<in> {0x00030201, 0x00030202}"
  shows "staged_view c' e C = base_view c e C"
  using fold_apply_not_written[OF other_actions_write[OF assms]] compute_view[OF assms(1)]
  by (simp add: staged_view_def base_view_def)

lemma create_space_forest:
  assumes ok: "codec_ok (pc_space_config pc)" "codec_ok (pc_parent_chain_depth pc)"
    and run: "compute_CreateSpace h pc a c = (Inr (), c')" and empty: "ops c = []"
    and sf: "space_forest pc (base_view c)"
    and fresh: "\<And>i owner. SpawnEntity i owner \<in> set (ops c') \<Longrightarrow> base_view c i = (\<lambda>_. None)"
  shows "space_forest pc (staged_view c')"
proof -
  from run[unfolded compute_CreateSpace_ok] obtain actor d i p1 p2 where
    d: "parent_depth pc c (scd_parent_space (cs_config a)) = Some d"
    and p1: "enc_op (SpaceConfig pc) i (into_config (cs_config a) actor) = Some p1"
    and p2: "enc_op (ParentChainDepth pc) i \<lparr>pcd_schema_version = 1, pcd_depth = d\<rparr> = Some p2"
    and c': "c' = c\<lparr>id_seq := id_seq c + 1, ops := ops c @ [SpawnEntity i (principal c), p1, p2]\<rparr>"
    by blast
  have sv: "staged_view c' = apply_op_view p2 (apply_op_view p1 (base_view c))"
    using empty by (simp add: c' staged_view_def base_view_def)
  have "base_view c i = (\<lambda>_. None)" using fresh[of i "principal c"] by (simp add: c')
  then have fr: "decode_at (ParentChainDepth pc) i (base_view c) = Inr None"
    by (simp add: decode_at_def)
  have cfg: "decode_at (SpaceConfig pc) e (staged_view c') =
      (if e = i then Inr (Some (into_config (cs_config a) actor)) else decode_at (SpaceConfig pc) e (base_view c))" for e
    using ok(1) by (simp add: sv apply_enc_op_other[OF p2] apply_enc_op_same[OF p1])
  have dep: "decode_at (ParentChainDepth pc) e (staged_view c') =
      (if e = i then Inr (Some \<lparr>pcd_schema_version = 1, pcd_depth = d\<rparr>)
       else decode_at (ParentChainDepth pc) e (base_view c))" for e
    using ok(2) by (simp add: sv apply_enc_op_other[OF p1] apply_enc_op_same[OF p2])
  have par: "sc_parent_space (into_config (cs_config a) actor) = scd_parent_space (cs_config a)"
    by (simp add: into_config_def)
  show ?thesis
    using parent_depth_bound[OF d]
    by (intro space_forest_add[OF sf fr cfg dep]) (auto simp: par split: option.splits)
qed

text \<open>C18: the space forest (E-space-4). Whatever core action runs on a context with nothing staged, if it succeeds, the codecs
round-trip and the ids it spawns carry no component yet, then from a forest its operations lead to a state that is again a forest: every
space has a stored depth of at most 64, roots have depth 0, a child is exactly one deeper than its parent, and therefore the parent relation
has no cycle.\<close>
theorem space_forest_preserved:
  assumes "codec_ok (pc_space_config pc)" "codec_ok (pc_parent_chain_depth pc)"
    and "compute h pc a c = (Inr (), c')" "ops c = []"
    and "space_forest pc (base_view c)"
    and "\<And>i owner. SpawnEntity i owner \<in> set (ops c') \<Longrightarrow> base_view c i = (\<lambda>_. None)"
  shows "space_forest pc (staged_view c') \<and> wf (parent_edges pc (staged_view c'))"
proof -
  have "space_forest pc (staged_view c')"
  proof (cases "\<exists>cs. a = ACreateSpace cs")
    case True
    then obtain cs where "a = ACreateSpace cs" by blast
    with assms show ?thesis
      by (intro create_space_forest[where c=c and h=h and a=cs]) auto
  next
    case False
    have "decode_at (SpaceConfig pc) e (staged_view c') = decode_at (SpaceConfig pc) e (base_view c)"
      "decode_at (ParentChainDepth pc) e (staged_view c') = decode_at (ParentChainDepth pc) e (base_view c)" for e
      using other_codes[OF assms(3,4) False, of _ e] by (simp_all add: decode_at_def)
    then show ?thesis using space_forest_cong assms(5) by metis
  qed
  then show ?thesis using space_forest_wf by blast
qed

lemma space_forest_preserved_witness:
  "space_forest demo_pc (staged_view (snd (compute demo_hash demo_pc
      (ACreateSpace \<lparr>cs_schema_version = 1, cs_config = demo_draft\<rparr>) (with_actor (Some demo_aid) demo_ctx))))"
proof -
  have "compute demo_hash demo_pc (ACreateSpace \<lparr>cs_schema_version = 1, cs_config = demo_draft\<rparr>)
      (with_actor (Some demo_aid) demo_ctx)
    = (Inr (), (with_actor (Some demo_aid) demo_ctx)\<lparr>id_seq := 1,
        ops := [SpawnEntity 0x0003020100000000 System,
                SetComponent 0x0003020100000000 0x00030201 [8] 1,
                SetComponent 0x0003020100000000 0x00030202 [9] 1]\<rparr>)"
    using demo_create_space by simp
  moreover have bv: "base_view (with_actor (Some demo_aid) demo_ctx) = (\<lambda>_ _. None)"
    by (simp add: base_view_def with_actor_def demo_ctx_def ActionContext_new_def)
  moreover have "ops (with_actor (Some demo_aid) demo_ctx) = []"
    by (simp add: with_actor_def demo_ctx_def ActionContext_new_def)
  moreover have "space_forest demo_pc (\<lambda>_ _. None)" by (simp add: space_forest_def decode_at_def)
  ultimately show ?thesis
    using space_forest_preserved[OF demo_pc_ok(6,7)] by (metis snd_conv)
qed

end
