(* ===== verification/Dedup.thy ===== *)
theory Dedup
  imports Actions
begin

text \<open>The idempotency index of \<^verbatim>\<open>arkhe-forge-platform/src/dedup.rs\<close>, its contract, and what it gives to
the actions that consult it through the context.\<close>

datatype dedup_error = Conflict bytes

type_synonym mem_index = "bytes \<rightharpoonup> entity_id \<times> tick"

definition MemIndex_new :: mem_index where "MemIndex_new = Map.empty"

definition index_insert :: "bytes \<Rightarrow> entity_id \<Rightarrow> tick \<Rightarrow> (mem_index, dedup_error, unit) act" where
  "index_insert key entity tick = (\<lambda>m.
     case m key of
       Some existing \<Rightarrow> if existing = (entity, tick) then (Inr (), m) else (Inl (Conflict key), m)
     | None \<Rightarrow> (Inr (), m(key \<mapsto> (entity, tick))))"

definition index_len :: "mem_index \<Rightarrow> nat" where "index_len m = card (dom m)"
definition index_is_empty :: "mem_index \<Rightarrow> bool" where "index_is_empty m \<longleftrightarrow> dom m = {}"
definition index_lookup :: "mem_index \<Rightarrow> idempotency_lookup_fn" where "index_lookup m key = m key"

text \<open>The contract: a key is bound once, for good, and a second binding is a conflict.\<close>
locale idempotency_store =
  fixes ins :: "bytes \<Rightarrow> entity_id \<Rightarrow> tick \<Rightarrow> ('s, dedup_error, unit) act"
    and look :: "'s \<Rightarrow> idempotency_lookup_fn"
  assumes look_ins: "look (snd (ins k e t s)) k' = (if k' = k \<and> look s k = None then Some (e, t) else look s k')"
    and ins_result: "fst (ins k e t s) =
      (if look s k = None \<or> look s k = Some (e, t) then Inr () else Inl (Conflict k))"
begin

definition ins_all :: "(bytes \<times> entity_id \<times> tick) list \<Rightarrow> 's \<Rightarrow> 's" where
  "ins_all bs s = fold (\<lambda>(k, e, t) s. snd (ins k e t s)) bs s"

lemma first_binding_wins:
  "look (ins_all bs s) k = (case look s k of Some x \<Rightarrow> Some x | None \<Rightarrow> map_of bs k)"
proof (induction bs arbitrary: s)
  case (Cons b bs)
  obtain k' e t where b: "b = (k', e, t)" by (cases b)
  have "look (ins_all (b # bs) s) k = look (ins_all bs (snd (ins k' e t s))) k" by (simp add: ins_all_def b)
  then show ?case using Cons[of "snd (ins k' e t s)"] by (auto simp: b look_ins split: option.splits)
qed (simp add: ins_all_def split: option.splits)

end

interpretation mem_idx: idempotency_store index_insert index_lookup
  by unfold_locales (auto simp: index_insert_def index_lookup_def split: option.splits)

lemma eligible_error_kind:
  "ensure_actor_eligible pc a t c = Inl e \<Longrightarrow> e \<noteq> IdempotencyConflict k"
proof -
  assume e: "ensure_actor_eligible pc a t c = Inl e"
  let ?B = "decode_at (UserBinding pc) (actor_get a) (staged_view c)"
  let ?G = "\<lambda>b. decode_at (UserGdprState pc) (user_get (ub_user_id b)) (staged_view c)"
  consider x where "?B = Inl x" | "?B = Inr None" | b x where "?B = Inr (Some b)" "?G b = Inl x"
    | b where "?B = Inr (Some b)" "?G b = Inr None" | b s where "?B = Inr (Some b)" "?G b = Inr (Some s)"
    by (metis sum.exhaust option.exhaust)
  then show ?thesis
  proof cases
    case 1
    then show ?thesis using e ensure_actor_eligible_decode(1)[OF 1, of t] by auto
  next
    case 2
    then show ?thesis using e ensure_actor_eligible_ok[of pc a t c] by (simp add: eligible_def)
  next
    case 3
    then show ?thesis using e ensure_actor_eligible_decode(2)[OF 3, of t] by auto
  next
    case 4
    then show ?thesis using e ensure_actor_eligible_unresolved[OF 4, of t] by auto
  next
    case 5
    then show ?thesis
      using e ensure_actor_eligible_pending[OF 5] ensure_actor_eligible_ok[of pc a t c]
      by (cases "ugs_status s = Active") (auto simp: eligible_def)
  qed
qed

lemma submit_with_bound_key:
  assumes "sa_idempotency_key a = Some key" "idempotency_lookup c key = Some b"
  shows "\<exists>e. compute_SubmitActivity h pc a c = (Inl e, c)
     \<and> (e = IdempotencyConflict key \<longleftrightarrow> sa_schema_version a = 1 \<and> ad_schema_version (sa_draft a) = 1
         \<and> (\<exists>actor. acting_actor c = Some actor \<and> eligible pc (staged_view c) actor))"
proof (cases "sa_schema_version a = 1 \<and> ad_schema_version (sa_draft a) = 1 \<and> acting_actor c \<noteq> None")
  case False
  then show ?thesis
    by (auto simp: compute_SubmitActivity_def bnd_def ensure_schema_version_def meta_defs SCHEMA_VERSION_simps split: option.splits)
next
  case True
  then obtain actor where a: "acting_actor c = Some actor" by blast
  show ?thesis
  proof (cases "ensure_actor_eligible pc actor (cur_tick c) c")
    case (Inl e)
    then have "\<not> eligible pc (staged_view c) actor" using ensure_actor_eligible_ok[of pc actor "cur_tick c" c] by simp
    moreover have "e \<noteq> IdempotencyConflict key" by (rule eligible_error_kind[OF Inl])
    ultimately show ?thesis using True a Inl
      by (simp add: compute_SubmitActivity_def bnd_def ensure_schema_version_def meta_defs SCHEMA_VERSION_simps)
  next
    case (Inr u)
    then have "eligible pc (staged_view c) actor" using ensure_actor_eligible_ok[of pc actor "cur_tick c" c] by simp
    then show ?thesis using True a Inr assms
      by (simp add: compute_SubmitActivity_def bnd_def ensure_schema_version_def meta_defs SCHEMA_VERSION_simps)
  qed
qed

section \<open>Properties\<close>

text \<open>The first binding of a key wins. After any sequence of insertions the index answers every key with
its first binding; an insertion fails exactly when the key is bound to something else, and then changes
nothing.\<close>
theorem index_first_binding:
  "let s = fold (\<lambda>(k, e, t) s. snd (index_insert k e t s)) bs MemIndex_new in
     index_lookup s key = map_of bs key
   \<and> index_insert key e t s = (case map_of bs key of
        None \<Rightarrow> (Inr (), s(key \<mapsto> (e, t)))
      | Some b \<Rightarrow> (if b = (e, t) then Inr () else Inl (Conflict key), s))"
proof -
  have "index_lookup (fold (\<lambda>(k, e, t) s. snd (index_insert k e t s)) bs MemIndex_new) k = map_of bs k" for k
    using mem_idx.first_binding_wins[of bs MemIndex_new k]
    by (simp add: mem_idx.ins_all_def) (simp add: index_lookup_def MemIndex_new_def)
  then show ?thesis by (auto simp: index_insert_def index_lookup_def Let_def split: option.splits)
qed

text \<open>C32: an idempotency key admits one activity. Once a key has been inserted into the index, whatever is
inserted afterwards, every submission that carries the key and runs with this index attached is rejected
without staging anything; the rejection is the conflict on that key exactly when the submission would
otherwise have passed the version, authentication and eligibility gates.\<close>
theorem idempotency_key_admits_once:
  assumes "index_insert key e t s = (Inr (), s')" "sa_idempotency_key a = Some key"
    and "ix = fold (\<lambda>(k, e, t) s. snd (index_insert k e t s)) bs s'"
  shows "\<exists>err. compute_SubmitActivity h pc a (with_idempotency_index (index_lookup ix) c)
       = (Inl err, with_idempotency_index (index_lookup ix) c)
     \<and> (err = IdempotencyConflict key \<longleftrightarrow> sa_schema_version a = 1 \<and> ad_schema_version (sa_draft a) = 1
         \<and> (\<exists>actor. acting_actor c = Some actor \<and> eligible pc (staged_view c) actor))"
proof -
  have "index_lookup s' key = Some (e, t)"
    using assms(1) by (auto simp: index_insert_def index_lookup_def split: option.splits if_splits)
  then have "index_lookup ix key = Some (e, t)"
    using mem_idx.first_binding_wins[of bs s' key] by (simp add: mem_idx.ins_all_def assms(3))
  then have l: "idempotency_lookup (with_idempotency_index (index_lookup ix) c) key = Some (e, t)"
    by (simp add: idempotency_lookup_def with_idempotency_index_def)
  have v: "acting_actor (with_idempotency_index (index_lookup ix) c) = acting_actor c"
    "staged_view (with_idempotency_index (index_lookup ix) c) = staged_view c"
    by (simp_all add: with_idempotency_index_def staged_view_def base_view_def)
  show ?thesis using submit_with_bound_key[OF assms(2) l, of h pc] unfolding v .
qed

lemma idempotency_key_admits_once_witness:
  "\<exists>err. compute_SubmitActivity demo_hash demo_pc
       \<lparr>sa_schema_version = 1, sa_draft = demo_activity, sa_idempotency_key = Some [7]\<rparr>
       (with_idempotency_index (index_lookup (MemIndex_new([7] \<mapsto> (1, 2)))) demo_ctx)
     = (Inl err, with_idempotency_index (index_lookup (MemIndex_new([7] \<mapsto> (1, 2)))) demo_ctx)"
  using idempotency_key_admits_once[of "[7]" 1 2 MemIndex_new "MemIndex_new([7] \<mapsto> (1, 2))"
      "\<lparr>sa_schema_version = 1, sa_draft = demo_activity, sa_idempotency_key = Some [7]\<rparr>"
      "MemIndex_new([7] \<mapsto> (1, 2))" "[]" demo_hash demo_pc demo_ctx]
  by (auto simp: index_insert_def MemIndex_new_def)

end
