(* ===== verification/Threshold.thy ===== *)
theory Threshold
  imports Prelude
begin

text \<open>The threshold library of \<^verbatim>\<open>hf2_kms/threshold.rs\<close>: arithmetic in \<^verbatim>\<open>GF(2^8)\<close>, splitting and combining
of a secret.  The OS entropy source is a parameter: the bytes it delivers for a request, or its error
text.  That the arithmetic is a field is shown in \<^verbatim>\<open>Galois_Field\<close>, that the sharing is correct and
hiding in \<^verbatim>\<open>Secret_Sharing\<close>.\<close>

unbundle bit_operations_syntax

section \<open>Configuration, shares, errors\<close>

record threshold_config =
  tc_t :: u8
  tc_n :: u8

definition ThresholdConfig_DEFAULT :: threshold_config where
  "ThresholdConfig_DEFAULT = \<lparr>tc_t = 2, tc_n = 3\<rparr>"

definition is_valid :: "threshold_config \<Rightarrow> bool" where
  "is_valid c \<longleftrightarrow> tc_t c \<ge> 2 \<and> tc_t c \<le> tc_n c"

record share =
  sh_index :: u8
  sh_bytes :: bytes

datatype threshold_error =
    InvalidConfig u8 u8
  | InsufficientShares nat nat
  | InvalidShareIndex u8
  | DuplicateShares
  | ShareLengthMismatch nat nat
  | EntropyFailure string

section \<open>Field arithmetic of the code\<close>

definition GF_REDUCER :: u16 where "GF_REDUCER = 0x11B"

definition gf_add :: "u8 \<Rightarrow> u8 \<Rightarrow> u8" where "gf_add a b = a XOR b"

text \<open>The shift-and-reduce step of the multiplication loop.\<close>
definition xtime :: "u8 \<Rightarrow> u8" where
  "xtime a = (let a' = push_bit 1 a in if a AND 0x80 \<noteq> 0 then a' XOR ucast (GF_REDUCER AND 0xFF) else a')"

lemma half_less: "w \<noteq> 0 \<Longrightarrow> unat (drop_bit 1 w) < unat (w :: 'a::len word)"
proof -
  assume "w \<noteq> 0"
  then have "unat w \<noteq> 0" by (simp add: unat_eq_zero)
  moreover have "unat (drop_bit 1 w) = unat w div 2" by (metis unat_drop_bit_eq drop_bit_eq_div power_one_right)
  ultimately show ?thesis by simp
qed

function gf_mul_loop :: "u8 \<Rightarrow> u8 \<Rightarrow> u16 \<Rightarrow> u16" where
  "gf_mul_loop a b r =
     (if a \<noteq> 0 \<and> b \<noteq> 0 then
        gf_mul_loop (xtime a) (drop_bit 1 b) (if b AND 1 = 1 then r XOR ucast a else r)
      else r)"
  by pat_completeness auto
termination
  by (relation "measure (\<lambda>(_, b, _). unat b)") (auto simp del: One_nat_def dest: half_less)
declare gf_mul_loop.simps [simp del]

definition gf_mul :: "u8 \<Rightarrow> u8 \<Rightarrow> u8" where
  "gf_mul a b = ucast (gf_mul_loop a b 0)"

function gf_pow_loop :: "u8 \<Rightarrow> u8 \<Rightarrow> u8 \<Rightarrow> u8" where
  "gf_pow_loop result base exp =
     (if exp > 0 then
        gf_pow_loop (if exp AND 1 = 1 then gf_mul result base else result) (gf_mul base base) (drop_bit 1 exp)
      else result)"
  by pat_completeness auto
termination
  by (relation "measure (\<lambda>(_, _, e). unat e)") (auto simp: word_gt_0 simp del: One_nat_def dest: half_less)
declare gf_pow_loop.simps [simp del]

definition gf_inv :: "u8 \<Rightarrow> u8" where
  "gf_inv a = (if a = 0 then 0 else gf_pow_loop 1 a 254)"

definition gf_poly_eval_with_const :: "u8 \<Rightarrow> bytes \<Rightarrow> u8 \<Rightarrow> u8" where
  "gf_poly_eval_with_const const_term coeffs x =
     gf_add (gf_mul (foldl (\<lambda>acc c. gf_add (gf_mul acc x) c) 0 (rev coeffs)) x) const_term"

section \<open>Split and combine\<close>

text \<open>\<^verbatim>\<open>entropy n\<close> is the outcome of filling a buffer of \<^verbatim>\<open>n\<close> bytes.\<close>
definition split_secret :: "(nat \<Rightarrow> string + bytes) \<Rightarrow> bytes \<Rightarrow> threshold_config \<Rightarrow> threshold_error + share list" where
  "split_secret entropy secret config =
     (if \<not> is_valid config then Inl (InvalidConfig (tc_t config) (tc_n config))
      else
        let t = unat (tc_t config); n = unat (tc_n config); len = length secret * (t - 1) in
        case (if len = 0 then Inr [] else entropy len) of
          Inl e \<Rightarrow> Inl (EntropyFailure e)
        | Inr random_coeffs \<Rightarrow>
            Inr (map (\<lambda>i. let share_idx = of_nat i in
                   \<lparr>sh_index = share_idx,
                    sh_bytes = map (\<lambda>(byte_idx, secret_byte).
                      gf_poly_eval_with_const secret_byte
                        (take (t - 1) (drop (byte_idx * (t - 1)) random_coeffs)) share_idx) (enumerate 0 secret)\<rparr>)
                 [1..<Suc n]))"

fun has_duplicate :: "share list \<Rightarrow> bool" where
  "has_duplicate [] = False"
| "has_duplicate (a # rest) = (list_ex (\<lambda>b. sh_index a = sh_index b) rest \<or> has_duplicate rest)"

text \<open>The two factors of a Lagrange basis value at zero, accumulated over the other shares.\<close>
definition basis_at_zero :: "share list \<Rightarrow> nat \<Rightarrow> u8" where
  "basis_at_zero selected i =
     (let (num, den) = foldl (\<lambda>(num, den) (j, s_j).
            if i = j then (num, den)
            else (gf_mul num (sh_index s_j), gf_mul den (gf_add (sh_index (selected ! i)) (sh_index s_j))))
          (1, 1) (enumerate 0 selected)
      in gf_mul num (gf_inv den))"

definition combine_byte :: "share list \<Rightarrow> nat \<Rightarrow> u8" where
  "combine_byte selected byte_idx =
     foldl (\<lambda>acc (i, s_i). gf_add acc (gf_mul (sh_bytes s_i ! byte_idx) (basis_at_zero selected i)))
       0 (enumerate 0 selected)"

definition combine_shares :: "share list \<Rightarrow> threshold_config \<Rightarrow> threshold_error + bytes" where
  "combine_shares shares config =
     (if \<not> is_valid config then Inl (InvalidConfig (tc_t config) (tc_n config))
      else if length shares < unat (tc_t config) then Inl (InsufficientShares (unat (tc_t config)) (length shares))
      else if list_ex (\<lambda>s. sh_index s = 0) shares then Inl (InvalidShareIndex 0)
      else if has_duplicate shares then Inl DuplicateShares
      else
        let secret_len = length (sh_bytes (shares ! 0)) in
        case filter (\<lambda>s. length (sh_bytes s) \<noteq> secret_len) shares of
          s # _ \<Rightarrow> Inl (ShareLengthMismatch secret_len (length (sh_bytes s)))
        | [] \<Rightarrow>
            (let selected = take (unat (tc_t config)) shares
             in Inr (map (combine_byte selected) [0..<secret_len])))"

end
