(* ===== verification/Galois_Field.thy ===== *)
theory Galois_Field
  imports Threshold
begin

text \<open>The byte arithmetic of \<^verbatim>\<open>hf2_kms/threshold.rs\<close> is a field: the shift-and-reduce loop is multiplication of
polynomials over two elements modulo the reducing polynomial, the square-and-multiply loop is inversion.
The bytes are wrapped in a type \<^verbatim>\<open>gf\<close> that becomes an instance of the library's field class, so that the
library's algebra applies to them.\<close>

unbundle bit_operations_syntax

section \<open>Multiplication is multiplication of polynomials\<close>

lemma bit_u8_end: "bit (a :: u8) n \<Longrightarrow> n < 8"
  using bit_imp_le_length[of a n] by simp

lemma xtime_alt: "xtime a = push_bit 1 a XOR (if bit a 7 then 0x1B else 0)"
proof -
  have "a AND 2 ^ 7 = 0 \<longleftrightarrow> \<not> bit a 7" by (rule and_exp_eq_0_iff_not_bit)
  then show ?thesis by (simp add: xtime_def Let_def GF_REDUCER_def)
qed

fun gf_bits :: "nat \<Rightarrow> u8 \<Rightarrow> u8 \<Rightarrow> u8" where
  "gf_bits 0 a b = 0"
| "gf_bits (Suc n) a b = (if bit b 0 then a else 0) XOR gf_bits n (xtime a) (drop_bit 1 b)"

lemma xtime_0 [simp]: "xtime 0 = 0" by (simp add: xtime_alt)

lemma gf_bits_0 [simp]: "gf_bits n 0 b = 0"
  by (induction n arbitrary: b) auto

lemma gf_bits_zero_right [simp]: "gf_bits n a 0 = 0"
  by (induction n arbitrary: a) auto

lemma odd_bit: "(b AND 1 = 1) = bit (b :: 'a::len word) 0"
  by (simp add: and_one_eq bit_0 odd_iff_mod_2_eq_one)

lemma gf_mul_loop_bits:
  "\<forall>m\<ge>n. \<not> bit b m \<Longrightarrow> ucast (gf_mul_loop a b r) = (ucast r :: u8) XOR gf_bits n a b"
proof (induction n arbitrary: a b r)
  case 0
  then have "b = 0" by (intro bit_word_eqI) simp
  then show ?case by (simp add: gf_mul_loop.simps)
next
  case (Suc n)
  show ?case
  proof (cases "a = 0 \<or> b = 0")
    case True
    then show ?thesis by (subst gf_mul_loop.simps) (auto simp del: gf_bits.simps)
  next
    case False
    have "\<forall>m\<ge>n. \<not> bit (drop_bit 1 b) m" using Suc.prems by (simp add: bit_simps)
    note IH = Suc.IH[OF this, of "xtime a" "if b AND 1 = 1 then r XOR ucast a else r"]
    have "ucast (gf_mul_loop a b r)
        = (ucast (if b AND 1 = 1 then r XOR ucast a else r) :: u8) XOR gf_bits n (xtime a) (drop_bit 1 b)"
      using False IH by (subst gf_mul_loop.simps) simp
    moreover have "(ucast (if b AND 1 = 1 then r XOR ucast a else r) :: u8) = ucast r XOR (if bit b 0 then a else 0)"
      by (rule bit_word_eqI) (auto simp: odd_bit bit_simps)
    ultimately show ?thesis by (simp add: xor.assoc)
  qed
qed

lemma gf_mul_bits: "gf_mul a b = gf_bits 8 a b"
proof -
  have "\<forall>m\<ge>8. \<not> bit b m" using bit_u8_end[of b] by (metis not_le)
  then show ?thesis using gf_mul_loop_bits[of 8 b a 0] by (simp add: gf_mul_def)
qed

section \<open>The field\<close>

typedef gf = "UNIV :: u8 set" morphisms gf_byte Gf by simp

setup_lifting type_definition_gf

lemmas gf_inject = gf_byte_inject

instantiation gf :: ab_group_add
begin
lift_definition zero_gf :: gf is 0 .
lift_definition plus_gf :: "gf \<Rightarrow> gf \<Rightarrow> gf" is gf_add .
lift_definition uminus_gf :: "gf \<Rightarrow> gf" is "\<lambda>a. a" .
lift_definition minus_gf :: "gf \<Rightarrow> gf \<Rightarrow> gf" is gf_add .
instance
  by standard (transfer, simp add: gf_add_def ac_simps)+
end

lemma gf_add_self [simp]: "(a :: gf) + a = 0"
  by transfer (simp add: gf_add_def)

text \<open>Additive maps are determined by their values on the eight powers of two.\<close>
definition additive :: "(gf \<Rightarrow> gf) \<Rightarrow> bool" where
  "additive f \<longleftrightarrow> (\<forall>a b. f (a + b) = f a + f b)"

lemma additiveI: "(\<And>a b. f (a + b) = f a + f b) \<Longrightarrow> additive f"
  by (simp add: additive_def)

lemma additive_add: "additive f \<Longrightarrow> f (a + b) = f a + f b"
  by (simp add: additive_def)

lemma additive_0: "additive f \<Longrightarrow> f 0 = 0"
  by (metis additive_add add_0 add_cancel_right_left)

definition gf_power_of_two :: "nat \<Rightarrow> gf" where
  "gf_power_of_two i = Gf (push_bit i 1)"

lemma gf_expand: "Gf w = (\<Sum>i<8. if bit w i then gf_power_of_two i else 0)"
proof -
  have step: "Gf (take_bit (Suc n) w) = Gf (take_bit n w) + (if bit w n then gf_power_of_two n else 0)" for n
  proof -
    have "take_bit (Suc n) w = take_bit n w XOR (if bit w n then push_bit n 1 else 0)"
      by (rule bit_word_eqI) (auto simp: bit_simps less_Suc_eq)
    then show ?thesis
      by (simp add: gf_power_of_two_def plus_gf.abs_eq zero_gf.abs_eq gf_add_def split: if_splits)
  qed
  have "Gf (take_bit n w) = (\<Sum>i<n. if bit w i then gf_power_of_two i else 0)" for n
    by (induction n) (simp_all add: step zero_gf.abs_eq del: take_bit_Suc)
  from this[of 8] show ?thesis by (simp add: take_bit_word_eq_self)
qed

lemma additive_sum: "additive f \<Longrightarrow> f (\<Sum>i\<in>A. g i) = (\<Sum>i\<in>A. f (g i))"
  by (induction A rule: infinite_finite_induct) (simp_all add: additive_0 additive_add)

lemma additive_eq:
  assumes "additive f" "additive g" "\<And>i. i < 8 \<Longrightarrow> f (gf_power_of_two i) = g (gf_power_of_two i)"
  shows "f a = g a"
proof (cases a)
  case (Gf w)
  have "f (if bit w i then gf_power_of_two i else 0) = g (if bit w i then gf_power_of_two i else 0)" if "i < 8" for i
    using assms that by (simp add: additive_0)
  then show ?thesis by (simp add: Gf gf_expand additive_sum[OF assms(1)] additive_sum[OF assms(2)])
qed

lift_definition gf_x :: "gf \<Rightarrow> gf" is xtime .

lemma gf_x_add: "gf_x (a + b) = gf_x a + gf_x b"
  by transfer (rule bit_word_eqI, auto simp: gf_add_def xtime_alt bit_simps)

lemma gf_x_0 [simp]: "gf_x 0 = 0" by transfer simp

lemma gf_x_pow_add: "(gf_x ^^ n) (a + b) = (gf_x ^^ n) a + (gf_x ^^ n) b"
  by (induction n) (simp_all add: gf_x_add)

lemma gf_x_pow_0 [simp]: "(gf_x ^^ n) 0 = 0"
  by (induction n) simp_all

lift_definition gf_times :: "gf \<Rightarrow> gf \<Rightarrow> gf" is gf_mul .

lemma gf_times_sum:
  "gf_times a b = (\<Sum>i<8. if bit (gf_byte b) i then (gf_x ^^ i) a else 0)"
proof -
  have "Gf (gf_bits n u w) = (\<Sum>i<n. if bit w i then (gf_x ^^ i) (Gf u) else 0)" for n u w
  proof (induction n arbitrary: u w)
    case (Suc n)
    have "Gf (gf_bits (Suc n) u w) = (if bit w 0 then Gf u else 0) + Gf (gf_bits n (xtime u) (drop_bit 1 w))"
      by (simp add: plus_gf.abs_eq zero_gf.abs_eq gf_add_def)
    also have "Gf (gf_bits n (xtime u) (drop_bit 1 w)) = (\<Sum>i<n. if bit w (Suc i) then (gf_x ^^ Suc i) (Gf u) else 0)"
      unfolding Suc.IH by (intro sum.cong) (simp_all add: bit_simps gf_x.abs_eq funpow_swap1)
    finally show ?case by (simp add: sum.lessThan_Suc_shift del: sum.lessThan_Suc gf_bits.simps)
  qed (simp add: zero_gf.abs_eq)
  from this[of 8 "gf_byte a" "gf_byte b"]
  have "Gf (gf_bits 8 (gf_byte a) (gf_byte b)) = (\<Sum>i<8. if bit (gf_byte b) i then (gf_x ^^ i) a else 0)"
    unfolding gf_byte_inverse .
  moreover have "gf_times a b = Gf (gf_bits 8 (gf_byte a) (gf_byte b))"
    by (metis gf_times.rep_eq gf_byte_inverse gf_mul_bits)
  ultimately show ?thesis by simp
qed

lemma bit_byte_add: "bit (gf_byte (a + b)) i = (bit (gf_byte a) i \<noteq> bit (gf_byte b) i)"
  by transfer (simp add: gf_add_def bit_simps)

lemma gf_times_add_right: "gf_times a (b + c) = gf_times a b + gf_times a c"
  unfolding gf_times_sum sum.distrib[symmetric]
  by (intro sum.cong) (auto simp: bit_byte_add)

lemma gf_times_add_left: "gf_times (a + b) c = gf_times a c + gf_times b c"
  unfolding gf_times_sum sum.distrib[symmetric]
  by (intro sum.cong) (auto simp: gf_x_pow_add)

lemma bit_power_of_two: "bit (gf_byte (gf_power_of_two i)) j \<longleftrightarrow> i = j \<and> j < 8"
  by (auto simp: gf_power_of_two_def Gf_inverse bit_simps)

lemma gf_times_power_of_two: "i < 8 \<Longrightarrow> gf_times a (gf_power_of_two i) = (gf_x ^^ i) a"
  unfolding gf_times_sum bit_power_of_two by (simp add: sum.delta if_distrib cong: if_cong)

lemma gf_x_power_of_two: "i < 7 \<Longrightarrow> gf_x (gf_power_of_two i) = gf_power_of_two (Suc i)"
  by (simp add: gf_power_of_two_def gf_x.abs_eq xtime_alt bit_simps mult.commute)

lemma power_of_two_x: "i < 8 \<Longrightarrow> gf_power_of_two i = (gf_x ^^ i) (gf_power_of_two 0)"
  by (induction i) (simp_all add: gf_x_power_of_two[symmetric])

lemma gf_x_x_pow: "gf_x ((gf_x ^^ i) a) = (gf_x ^^ i) (gf_x a)"
  by (simp add: funpow_swap1)

lemma gf_times_x_left: "gf_times (gf_x a) b = gf_x (gf_times a b)"
proof -
  have x: "additive gf_x" by (simp add: additiveI gf_x_add)
  show ?thesis unfolding gf_times_sum additive_sum[OF x]
    by (intro sum.cong) (simp_all add: gf_x_x_pow)
qed

lemma gf_x_pow_Gf: "(gf_x ^^ n) (Gf w) = Gf ((xtime ^^ n) w)"
  by (induction n) (simp_all add: gf_x.abs_eq)

lemma xtime_pow_8_basis:
  "list_all (\<lambda>i. (xtime ^^ 8) (push_bit i 1)
      = push_bit i 1 XOR xtime (push_bit i 1) XOR (xtime ^^ 3) (push_bit i 1) XOR (xtime ^^ 4) (push_bit i 1)) [0..<8]"
  by code_simp

text \<open>The reducing polynomial: the eighth power of the generator is the sum of four lower powers.\<close>
lemma gf_x_pow_8: "(gf_x ^^ 8) a = a + gf_x a + (gf_x ^^ 3) a + (gf_x ^^ 4) a"
proof (rule additive_eq[where f = "gf_x ^^ 8" and g = "\<lambda>a. a + gf_x a + (gf_x ^^ 3) a + (gf_x ^^ 4) a"])
  show "additive (gf_x ^^ 8)" by (simp add: additiveI gf_x_pow_add)
  show "additive (\<lambda>a. a + gf_x a + (gf_x ^^ 3) a + (gf_x ^^ 4) a)"
    by (rule additiveI) (simp add: gf_x_add gf_x_pow_add algebra_simps)
  fix i :: nat
  assume "i < 8"
  then have "(xtime ^^ 8) (push_bit i 1)
      = push_bit i 1 XOR xtime (push_bit i 1) XOR (xtime ^^ 3) (push_bit i 1) XOR (xtime ^^ 4) (push_bit i 1)"
    using xtime_pow_8_basis unfolding list_all_iff by (metis atLeastLessThan_iff le0 set_upt)
  then show "(gf_x ^^ 8) (gf_power_of_two i) = gf_power_of_two i + gf_x (gf_power_of_two i)
      + (gf_x ^^ 3) (gf_power_of_two i) + (gf_x ^^ 4) (gf_power_of_two i)"
    unfolding gf_power_of_two_def gf_x_pow_Gf by (simp only: gf_x.abs_eq plus_gf.abs_eq gf_add_def xor.assoc)
qed

lemma gf_times_x_right: "gf_times a (gf_x b) = gf_x (gf_times a b)"
proof (rule additive_eq[where a = b])
  show "additive (\<lambda>b. gf_times a (gf_x b))" by (rule additiveI) (simp add: gf_x_add gf_times_add_right)
  show "additive (\<lambda>b. gf_x (gf_times a b))" by (rule additiveI) (simp add: gf_x_add gf_times_add_right)
  fix i :: nat
  assume i: "i < 8"
  show "gf_times a (gf_x (gf_power_of_two i)) = gf_x (gf_times a (gf_power_of_two i))"
  proof (cases "i < 7")
    case True
    then show ?thesis by (simp add: gf_x_power_of_two gf_times_power_of_two)
  next
    case False
    then have i7: "i = 7" using i by simp
    have r: "gf_x (gf_power_of_two 7) = gf_power_of_two 0 + gf_power_of_two 1 + gf_power_of_two 3 + gf_power_of_two 4"
      by (simp add: gf_power_of_two_def gf_x.abs_eq plus_gf.abs_eq gf_add_def xtime_def GF_REDUCER_def Let_def Gf_inject)
    have "gf_times a (gf_x (gf_power_of_two 7)) = a + gf_x a + (gf_x ^^ 3) a + (gf_x ^^ 4) a"
      unfolding r by (simp only: gf_times_add_right gf_times_power_of_two) (simp add: gf_times_power_of_two)
    also have "\<dots> = gf_x ((gf_x ^^ 7) a)" unfolding gf_x_pow_8[symmetric] by (simp add: eval_nat_numeral)
    finally show ?thesis by (simp add: i7 gf_times_power_of_two)
  qed
qed

lemma gf_times_x_pow_right: "gf_times a ((gf_x ^^ i) b) = (gf_x ^^ i) (gf_times a b)"
  by (induction i) (simp_all add: gf_times_x_right)

lemma gf_times_x_pow_left: "gf_times ((gf_x ^^ i) a) b = (gf_x ^^ i) (gf_times a b)"
  by (induction i) (simp_all add: gf_times_x_left)

lemma gf_times_assoc: "gf_times (gf_times a b) c = gf_times a (gf_times b c)"
  by (rule additive_eq[where a = c])
     (simp_all add: additiveI gf_times_add_right gf_times_power_of_two gf_times_x_pow_right)

lemma gf_times_one_left: "gf_times (gf_power_of_two 0) a = a"
  by (rule additive_eq[where a = a])
     (simp_all add: additiveI gf_times_add_right gf_times_power_of_two power_of_two_x[symmetric])

lemma gf_times_commute: "gf_times a b = gf_times b a"
proof (rule additive_eq[where a = b])
  show "gf_times a (gf_power_of_two i) = gf_times (gf_power_of_two i) a" if "i < 8" for i
  proof -
    have "gf_times (gf_power_of_two i) a = (gf_x ^^ i) (gf_times (gf_power_of_two 0) a)"
      unfolding power_of_two_x[OF that] by (rule gf_times_x_pow_left)
    then show ?thesis using that by (simp add: gf_times_power_of_two gf_times_one_left)
  qed
qed (simp_all add: additiveI gf_times_add_right gf_times_add_left)

instantiation gf :: comm_ring_1
begin
lift_definition one_gf :: gf is 1 .
definition times_gf :: "gf \<Rightarrow> gf \<Rightarrow> gf" where "times_gf = gf_times"
instance
proof
  have one: "(1 :: gf) = gf_power_of_two 0" by (simp add: gf_power_of_two_def one_gf.abs_eq)
  show "(0 :: gf) \<noteq> 1" by transfer simp
  show "1 * a = a" for a :: gf by (simp add: one times_gf_def gf_times_one_left)
qed (simp_all add: times_gf_def gf_times_assoc gf_times_add_left, rule gf_times_commute)
end

lemma times_gf_byte: "gf_byte (a * b) = gf_mul (gf_byte a) (gf_byte b)"
  by (simp add: times_gf_def gf_times.rep_eq)

lemma Gf_mul: "Gf (gf_mul u w) = Gf u * Gf w"
  by (simp add: times_gf_def gf_times.abs_eq)

lemma Gf_add: "Gf (gf_add u w) = Gf u + Gf w"
  by (simp add: plus_gf.abs_eq)

lemma gf_pow_loop_power: "Gf (gf_pow_loop r b e) = Gf r * Gf b ^ unat e"
proof (induction r b e rule: gf_pow_loop.induct)
  case (1 r b e)
  show ?case
  proof (cases "e = 0")
    case True
    then show ?thesis by (simp add: gf_pow_loop.simps)
  next
    case False
    let ?h = "unat (drop_bit 1 e)"
    have e: "unat e = 2 * ?h + (if e AND 1 = 1 then 1 else 0)"
    proof -
      have "?h = unat e div 2" by (metis unat_drop_bit_eq drop_bit_eq_div power_one_right)
      moreover have "(e AND 1 = 1) = odd (unat e)"
        by (metis odd_bit bit_0 bit_unsigned_iff possible_bit_nat)
      ultimately show ?thesis by simp
    qed
    have "Gf (gf_pow_loop r b e)
        = Gf (if e AND 1 = 1 then gf_mul r b else r) * Gf (gf_mul b b) ^ ?h"
      using 1 False by (subst gf_pow_loop.simps) (simp add: word_gt_0)
    also have "\<dots> = Gf r * Gf b ^ unat e"
      unfolding e by (simp add: Gf_mul power_add power_mult power_mult_distrib power2_eq_square mult.assoc)
    finally show ?thesis .
  qed
qed

lemma gf_square_add: "(a + b) * (a + b) = a * a + b * (b :: gf)"
proof -
  have "(a + b) * (a + b) = a * a + b * b + (a * b + a * b)" by (simp only: distrib_left distrib_right mult.commute add_ac)
  then show ?thesis by simp
qed

lemma squares_basis:
  "map (\<lambda>i. gf_mul (push_bit i 1) (push_bit i 1)) [0..<8] = [1, 4, 0x10, 0x40, 0x1B, 0x6C, 0xAB, 0x9A]"
  by code_simp

lemma square_additive: "additive (\<lambda>a. a * a)"
  by (simp add: additiveI gf_square_add)

lemma sum_8: "(\<Sum>i<(8::nat). f i) = f 0 + f 1 + f 2 + f 3 + f 4 + f 5 + f 6 + (f 7 :: gf)"
  by (simp add: eval_nat_numeral)

lemma square_bits:
  "bit (gf_byte (a * a)) j =
     ((((((((bit (gf_byte a) 0 \<and> bit (1 :: u8) j) \<noteq> (bit (gf_byte a) 1 \<and> bit (4 :: u8) j))
       \<noteq> (bit (gf_byte a) 2 \<and> bit (0x10 :: u8) j)) \<noteq> (bit (gf_byte a) 3 \<and> bit (0x40 :: u8) j))
       \<noteq> (bit (gf_byte a) 4 \<and> bit (0x1B :: u8) j)) \<noteq> (bit (gf_byte a) 5 \<and> bit (0x6C :: u8) j))
       \<noteq> (bit (gf_byte a) 6 \<and> bit (0xAB :: u8) j)) \<noteq> (bit (gf_byte a) 7 \<and> bit (0x9A :: u8) j))"
proof -
  let ?b = "\<lambda>i. if bit (gf_byte a) i then gf_power_of_two i else 0"
  have a: "a = (\<Sum>i<8. ?b i)" using gf_expand[of "gf_byte a"] by (simp add: gf_byte_inverse)
  have sq: "a * a = (\<Sum>i<8. ?b i * ?b i)"
    using additive_sum[OF square_additive, of ?b "{..<8}"] unfolding a[symmetric] .
  have c: "?b i * ?b i = (if bit (gf_byte a) i then Gf (gf_mul (push_bit i 1) (push_bit i 1)) else 0)" for i
    by (simp add: gf_power_of_two_def Gf_mul)
  have sb: "gf_mul (push_bit 0 1) (push_bit 0 1) = 1" "gf_mul (push_bit 1 1) (push_bit 1 1) = 4"
    "gf_mul (push_bit 2 1) (push_bit 2 1) = 0x10" "gf_mul (push_bit 3 1) (push_bit 3 1) = 0x40"
    "gf_mul (push_bit 4 1) (push_bit 4 1) = 0x1B" "gf_mul (push_bit 5 1) (push_bit 5 1) = 0x6C"
    "gf_mul (push_bit 6 1) (push_bit 6 1) = 0xAB" "gf_mul (push_bit 7 1) (push_bit 7 1) = 0x9A"
    using squares_basis by (simp_all add: upt_rec)
  have b: "bit (gf_byte (if p then Gf w else 0)) j = (p \<and> bit w j)" for p w
    by (simp add: Gf_inverse zero_gf.rep_eq)
  show ?thesis unfolding sq c sum_8 sb bit_byte_add b ..
qed

lemma gf_idempotent: "(a :: gf) * a = a \<Longrightarrow> a = 0 \<or> a = 1"
proof -
  assume a: "a * a = a"
  let ?w = "gf_byte a"
  note bits = square_bits[of a, unfolded a]
  have "\<not> bit ?w 6 \<and> \<not> bit ?w 5 \<and> \<not> bit ?w 4 \<and> \<not> bit ?w 3 \<and> \<not> bit ?w 7 \<and> \<not> bit ?w 1 \<and> \<not> bit ?w 2"
    using bits[of 0] bits[of 1] bits[of 2] bits[of 3] bits[of 4] bits[of 5] bits[of 6] bits[of 7]
    by simp argo
  then have "?w = (if bit ?w 0 then 1 else 0)"
    by (intro bit_word_eqI) (auto simp: bit_simps less_Suc_eq numeral_eq_Suc)
  then show ?thesis by (metis gf_byte_inject one_gf.rep_eq zero_gf.rep_eq)
qed

lemma gf_frobenius: "(a + b) ^ (2 ^ n) = a ^ (2 ^ n) + b ^ (2 ^ n)" for a b :: gf
proof (induction n)
  case (Suc n)
  have "x ^ (2 ^ Suc n) = x ^ (2 ^ n) * x ^ (2 ^ n)" for x :: gf by (simp flip: power_add add: mult_2)
  then show ?case by (simp add: Suc gf_square_add)
qed simp

lemma square_chain:
  "gf_mul 2 2 = 4" "gf_mul 4 4 = 0x10" "gf_mul 0x10 0x10 = 0x1B" "gf_mul 0x1B 0x1B = 0x5E"
  "gf_mul 0x5E 0x5E = 0xE4" "gf_mul 0xE4 0xE4 = 0x4D" "gf_mul 0x4D 0x4D = 0xFA" "gf_mul 0xFA 0xFA = 2"
  by code_simp+

lemma gf_x_generator: "Gf 2 ^ 256 = Gf 2"
proof -
  have sq: "Gf v ^ (2 ^ Suc n) = Gf (gf_mul v v) ^ (2 ^ n)" for v n
    by (simp add: Gf_mul power_mult power2_eq_square[symmetric])
  have "Gf 2 ^ (2 ^ Suc (Suc (Suc (Suc (Suc (Suc (Suc (Suc 0)))))))) = Gf 2"
    unfolding sq square_chain by simp
  then show ?thesis by simp
qed

lemma power_of_two_generator: "i < 8 \<Longrightarrow> gf_power_of_two i = Gf 2 ^ i"
proof (induction i)
  case (Suc i)
  have "gf_x a = a * Gf 2" for a
    using gf_times_power_of_two[of 1 a] by (simp add: times_gf_def gf_power_of_two_def)
  then show ?case using Suc by (simp add: gf_x_power_of_two[symmetric] mult.commute)
qed (simp add: gf_power_of_two_def one_gf.abs_eq)

lemma gf_power_256: "(a :: gf) ^ 256 = a"
proof (rule additive_eq[where f = "\<lambda>a. a ^ 256" and g = "\<lambda>a. a"])
  show "additive (\<lambda>a. a ^ 256)" using gf_frobenius[of _ _ 8] by (simp add: additiveI)
  show "gf_power_of_two i ^ 256 = gf_power_of_two i" if "i < 8" for i
  proof -
    have "(Gf 2 ^ i) ^ 256 = (Gf 2 ^ 256) ^ i" by (simp flip: power_mult add: mult.commute)
    then show ?thesis using that by (simp add: power_of_two_generator gf_x_generator)
  qed
qed (simp add: additiveI)

lemma gf_inverse_power: "(a :: gf) \<noteq> 0 \<Longrightarrow> a ^ 254 * a = 1"
proof -
  assume a: "a \<noteq> 0"
  have e: "a ^ 254 * a = a ^ 255" using power_Suc2[of a 254] by simp
  have "a ^ 255 * a ^ 255 = a ^ 256 * a ^ 254" by (simp flip: power_add)
  then have "a ^ 255 * a ^ 255 = a ^ 255" by (simp add: gf_power_256 e[symmetric] mult.commute)
  moreover have "a ^ 255 \<noteq> 0"
  proof
    assume "a ^ 255 = 0"
    then have "a ^ 256 = 0" using power_Suc[of a 255] by simp
    then show False using a gf_power_256 by simp
  qed
  ultimately show ?thesis using gf_idempotent[of "a ^ 255"] e by simp
qed

instantiation gf :: field
begin
lift_definition inverse_gf :: "gf \<Rightarrow> gf" is gf_inv .
definition divide_gf :: "gf \<Rightarrow> gf \<Rightarrow> gf" where "divide_gf a b = a * inverse b"
instance
proof
  show inv0: "inverse (0 :: gf) = 0" by transfer (simp add: gf_inv_def)
  show "inverse a * a = 1" if "a \<noteq> 0" for a :: gf
  proof (cases a)
    case (Gf w)
    then have "w \<noteq> 0" using that by (auto simp: zero_gf.abs_eq)
    then have "inverse a = a ^ 254"
      by (simp add: Gf inverse_gf.abs_eq gf_inv_def gf_pow_loop_power one_gf.abs_eq[symmetric])
    then show ?thesis using gf_inverse_power[OF that] by simp
  qed
qed (simp add: divide_gf_def)
end

lemma Gf_inv: "Gf (gf_inv w) = inverse (Gf w)"
  by (simp add: inverse_gf.abs_eq)

lemmas Gf_homs = Gf_add Gf_mul Gf_inv

end
