(* ===== verification/Polynomials.thy ===== *)
theory Polynomials
  imports Prelude
begin

text \<open>Polynomials as coefficient lists, evaluated in Horner form: addition, scaling, division by a linear
factor, uniqueness by the number of points, interpolation at zero.\<close>

section \<open>Polynomials as coefficient lists\<close>

definition horner :: "'a::comm_ring_1 list \<Rightarrow> 'a \<Rightarrow> 'a" where
  "horner cs x = foldr (\<lambda>c acc. acc * x + c) cs 0"

lemma horner_simps [simp]: "horner [] x = 0" "horner (c # cs) x = horner cs x * x + c"
  by (simp_all add: horner_def)

lemma horner_zeros: "\<forall>c\<in>set cs. c = 0 \<Longrightarrow> horner cs x = 0"
  by (induction cs) auto

lemma horner_pad: "horner (cs @ replicate k 0) x = horner cs x"
  by (induction cs) (simp_all add: horner_zeros)

lemma horner_add: "length cs = length ds \<Longrightarrow> horner (map2 (+) cs ds) x = horner cs x + horner ds x"
  by (induction cs ds rule: list_induct2) (simp_all add: algebra_simps)

lemma horner_scale: "horner (map ((*) k) cs) x = k * horner cs x"
  by (induction cs) (simp_all add: algebra_simps)

lemma horner_zero: "horner (c # cs) 0 = c" by simp

text \<open>Division by a linear factor.\<close>
lemma horner_divide:
  "cs \<noteq> [] \<Longrightarrow> \<exists>q. length q = length cs - 1 \<and> (\<forall>x. horner cs x = (x - a) * horner q x + horner cs a)
     \<and> ((\<forall>c\<in>set q. c = 0) \<and> horner cs a = 0 \<longrightarrow> (\<forall>c\<in>set cs. c = 0))"
proof (induction cs)
  case (Cons c cs)
  show ?case
  proof (cases "cs = []")
    case True
    then show ?thesis by simp
  next
    case False
    then obtain q where q: "length q = length cs - 1" "\<And>x. horner cs x = (x - a) * horner q x + horner cs a"
      "(\<forall>c\<in>set q. c = 0) \<and> horner cs a = 0 \<longrightarrow> (\<forall>c\<in>set cs. c = 0)" using Cons.IH by blast
    have 1: "horner (c # cs) x = (x - a) * horner (horner cs a # q) x + horner (c # cs) a" for x
      unfolding horner_simps q(2)[of x] by (simp add: algebra_simps)
    have 2: "length (horner cs a # q) = length (c # cs) - 1" using q(1) False by simp
    have 3: "(\<forall>d\<in>set (horner cs a # q). d = 0) \<and> horner (c # cs) a = 0 \<longrightarrow> (\<forall>d\<in>set (c # cs). d = 0)"
    proof
      assume z: "(\<forall>d\<in>set (horner cs a # q). d = 0) \<and> horner (c # cs) a = 0"
      then have h: "horner cs a = 0" "\<forall>d\<in>set q. d = 0" by simp_all
      then have "\<forall>d\<in>set cs. d = 0" using q(3) by blast
      moreover have "horner cs a * a + c = 0" using z by (metis horner_simps(2))
      ultimately show "\<forall>d\<in>set (c # cs). d = 0" using h(1) by simp
    qed
    show ?thesis by (rule exI[of _ "horner cs a # q"], intro conjI allI, rule 2, rule 1, rule 3)
  qed
qed simp

lemma horner_roots:
  fixes cs :: "'a::{comm_ring_1, ring_no_zero_divisors} list"
  shows "length cs = length xs \<Longrightarrow> distinct xs \<Longrightarrow> \<forall>x\<in>set xs. horner cs x = 0 \<Longrightarrow> \<forall>c\<in>set cs. c = 0"
proof (induction xs arbitrary: cs)
  case (Cons a xs)
  then have "cs \<noteq> []" by auto
  then obtain q where q: "length q = length cs - 1" "\<And>x. horner cs x = (x - a) * horner q x + horner cs a"
    "(\<forall>c\<in>set q. c = 0) \<and> horner cs a = 0 \<longrightarrow> (\<forall>c\<in>set cs. c = 0)" using horner_divide[of cs a] by blast
  have a: "horner cs a = 0" using Cons.prems by simp
  have "horner q x = 0" if "x \<in> set xs" for x
  proof -
    have "(x - a) * horner q x = 0" using q(2)[of x] Cons.prems that a by simp
    moreover have "x \<noteq> a" using Cons.prems that by auto
    ultimately show ?thesis by simp
  qed
  then have "\<forall>c\<in>set q. c = 0" using Cons.IH[of q] q(1) Cons.prems by simp
  then show ?case using q(3) a by blast
qed simp

lemma horner_unique:
  fixes cs :: "'a::{comm_ring_1, ring_no_zero_divisors} list"
  assumes "length cs = length xs" "length ds = length xs" "distinct xs" "\<forall>x\<in>set xs. horner cs x = horner ds x"
  shows "cs = ds"
proof -
  let ?e = "map2 (+) cs (map ((*) (- 1)) ds)"
  have "horner ?e x = horner cs x - horner ds x" for x
    using horner_add[of cs "map ((*) (- 1)) ds" x] assms(1,2) horner_scale[of "- 1" ds x] by simp
  then have z: "\<forall>c\<in>set ?e. c = 0" using horner_roots[of ?e xs] assms by simp
  show ?thesis
  proof (rule nth_equalityI)
    show "length cs = length ds" using assms by simp
    fix i assume i: "i < length cs"
    have "?e ! i \<in> set ?e" using i assms by (intro nth_mem) simp
    then have "?e ! i = 0" using z by blast
    then show "cs ! i = ds ! i" using i assms by simp
  qed
qed

section \<open>Interpolation\<close>

lemma horner_linear: "\<exists>ds. length ds = Suc (length cs) \<and> (\<forall>x. horner ds x = (x - a) * horner cs x)"
proof -
  have "horner (map2 (+) (0 # cs) (map ((*) (- a)) cs @ [0])) x = (x - a) * horner cs x" for x
    using horner_add[of "0 # cs" "map ((*) (- a)) cs @ [0]" x] horner_scale[of "- a" cs x]
      horner_pad[of "map ((*) (- a)) cs" 1 x] by (simp add: algebra_simps)
  then show ?thesis by (intro exI[of _ "map2 (+) (0 # cs) (map ((*) (- a)) cs @ [0])"]) simp
qed

lemma horner_product:
  "finite J \<Longrightarrow> \<exists>cs. length cs = Suc (card J) \<and> (\<forall>x. horner cs x = k * (\<Prod>j\<in>J. x - g j))"
proof (induction J rule: finite_induct)
  case empty
  show ?case by (rule exI[of _ "[k]"]) simp
next
  case (insert j J)
  then obtain cs where "length cs = Suc (card J)" "\<And>x. horner cs x = k * (\<Prod>j\<in>J. x - g j)" by blast
  moreover obtain ds where "length ds = Suc (length cs)" "\<And>x. horner ds x = (x - g j) * horner cs x"
    using horner_linear by blast
  ultimately show ?case using insert by (intro exI[of _ ds]) (simp add: ac_simps)
qed

lemma horner_sum:
  "(\<And>i. i < (m :: nat) \<Longrightarrow> \<exists>cs. length cs = n \<and> (\<forall>x. horner cs x = f i x)) \<Longrightarrow>
     \<exists>cs. length cs = n \<and> (\<forall>x. horner cs x = (\<Sum>i<m. f i x))"
proof (induction m)
  case 0
  show ?case by (rule exI[of _ "replicate n 0"]) (simp add: horner_zeros)
next
  case (Suc m)
  then obtain cs ds where "length cs = n" "\<And>x. horner cs x = (\<Sum>i<m. f i x)"
    "length ds = n" "\<And>x. horner ds x = f m x" by (meson lessI less_SucI)
  then show ?case by (intro exI[of _ "map2 (+) cs ds"]) (simp add: horner_add)
qed

lemma lagrange_at_zero:
  fixes cs :: "'a::field list"
  assumes "length cs = length xs" "distinct xs"
  shows "horner cs 0 = (\<Sum>i<length xs. horner cs (xs ! i)
      * (\<Prod>j\<in>{..<length xs} - {i}. xs ! j) / (\<Prod>j\<in>{..<length xs} - {i}. xs ! j - xs ! i))"
proof -
  let ?n = "length xs"
  let ?P = "\<lambda>i x. \<Prod>j\<in>{..<?n} - {i}. x - xs ! j"
  have ne: "?P i (xs ! i) \<noteq> 0" if "i < ?n" for i
    using that assms(2) by (auto simp: nth_eq_iff_index_eq)
  have "\<exists>ls. length ls = ?n \<and> (\<forall>x. horner ls x = horner cs (xs ! i) / ?P i (xs ! i) * ?P i x)" if "i < ?n" for i
  proof -
    have "Suc (card ({..<?n} - {i})) = ?n" using that by (simp add: card_Diff_singleton)
    moreover have "finite ({..<?n} - {i})" by simp
    ultimately show ?thesis
      using horner_product[of "{..<?n} - {i}" "horner cs (xs ! i) / ?P i (xs ! i)" "(!) xs"] by metis
  qed
  then obtain ls where ls: "length ls = ?n"
    "\<And>x. horner ls x = (\<Sum>i<?n. horner cs (xs ! i) / ?P i (xs ! i) * ?P i x)"
    using horner_sum[of ?n ?n "\<lambda>i x. horner cs (xs ! i) / ?P i (xs ! i) * ?P i x"] by blast
  have "horner ls (xs ! k) = horner cs (xs ! k)" if k: "k < ?n" for k
  proof -
    have t: "horner cs (xs ! i) / ?P i (xs ! i) * ?P i (xs ! k) = (if i = k then horner cs (xs ! k) else 0)"
      if "i < ?n" for i
    proof (cases "i = k")
      case True
      then show ?thesis using ne[OF k] by simp
    next
      case False
      have "?P i (xs ! k) = 0" by (rule prod_zero) (use k False in auto)
      then show ?thesis using False by simp
    qed
    have "horner ls (xs ! k) = (\<Sum>i<?n. if i = k then horner cs (xs ! k) else 0)"
      unfolding ls(2) by (intro sum.cong refl) (rule t, simp)
    then show ?thesis using k by simp
  qed
  then have "\<forall>x\<in>set xs. horner ls x = horner cs x" by (metis in_set_conv_nth)
  then have e: "ls = cs" using horner_unique[of ls xs cs] ls(1) assms by blast
  have "horner cs 0 = (\<Sum>i<?n. horner cs (xs ! i) / ?P i (xs ! i) * ?P i 0)" using ls(2)[of 0] unfolding e .
  also have "\<dots> = (\<Sum>i<?n. horner cs (xs ! i) * (\<Prod>j\<in>{..<?n} - {i}. xs ! j) / (\<Prod>j\<in>{..<?n} - {i}. xs ! j - xs ! i))"
  proof (intro sum.cong refl)
    fix i assume "i \<in> {..<?n}"
    have m: "(\<Prod>j\<in>J. - f j) = (- 1) ^ card J * (\<Prod>j\<in>J. f j)" if "finite J" for J and f :: "nat \<Rightarrow> 'a"
      using that by (induction J rule: finite_induct) simp_all
    have 1: "?P i 0 = (- 1) ^ card ({..<?n} - {i}) * (\<Prod>j\<in>{..<?n} - {i}. xs ! j)"
      using m[of "{..<?n} - {i}" "(!) xs"] by simp
    have 2: "?P i (xs ! i) = (- 1) ^ card ({..<?n} - {i}) * (\<Prod>j\<in>{..<?n} - {i}. xs ! j - xs ! i)"
      using m[of "{..<?n} - {i}" "\<lambda>j. xs ! j - xs ! i"] by simp
    show "horner cs (xs ! i) / ?P i (xs ! i) * ?P i 0
        = horner cs (xs ! i) * (\<Prod>j\<in>{..<?n} - {i}. xs ! j) / (\<Prod>j\<in>{..<?n} - {i}. xs ! j - xs ! i)"
      unfolding 1 2 by simp
  qed
  finally show ?thesis .
qed

end
