(* ===== verification/Secret_Sharing.thy ===== *)
theory Secret_Sharing
  imports Galois_Field Polynomials
begin

text \<open>Correctness of the threshold library: any \<^verbatim>\<open>t\<close> shares of a split reconstruct the secret, fewer are refused, and the
bytes of \<^verbatim>\<open>t - 1\<close> shares are independent of the secret.  Both follow from the polynomial behind each byte.\<close>

section \<open>The code's evaluation and interpolation, over the field\<close>

lemma Gf_0 [simp]: "Gf 0 = 0" by (simp add: zero_gf.abs_eq)
lemma Gf_1 [simp]: "Gf 1 = 1" by (simp add: one_gf.abs_eq)
lemma Gf_eq [simp]: "Gf u = Gf v \<longleftrightarrow> u = v" by (simp add: Gf_inject)

lemma Gf_eval: "Gf (gf_poly_eval_with_const c cs x) = horner (Gf c # map Gf cs) (Gf x)"
proof -
  have "Gf (foldl (\<lambda>acc c. gf_add (gf_mul acc x) c) 0 (rev cs)) = horner (map Gf cs) (Gf x)"
    by (induction cs) (simp_all add: Gf_homs)
  then show ?thesis by (simp add: gf_poly_eval_with_const_def Gf_homs)
qed

lemma prod_others_snoc:
  "(\<Prod>j\<in>{..<length (ss @ [s])} - {i}. g ((ss @ [s]) ! j))
     = (if i = length ss then (\<Prod>j\<in>{..<length ss} - {i}. g (ss ! j))
        else (\<Prod>j\<in>{..<length ss} - {i}. g (ss ! j)) * (g s :: gf))"
proof -
  have e: "{..<length (ss @ [s])} - {i}
      = (if i = length ss then {..<length ss} - {i} else insert (length ss) ({..<length ss} - {i}))"
    by (auto simp: less_Suc_eq)
  have c: "(\<Prod>j\<in>{..<length ss} - {i}. g ((ss @ [s]) ! j)) = (\<Prod>j\<in>{..<length ss} - {i}. g (ss ! j))"
    by (rule prod.cong) (auto simp: nth_append)
  show ?thesis
  proof (cases "i = length ss")
    case True
    show ?thesis unfolding e if_P[OF True] by (rule c)
  next
    case False
    have n: "length ss \<notin> {..<length ss} - {i}" by simp
    show ?thesis unfolding e if_not_P[OF False] prod.insert[OF finite_Diff[OF finite_lessThan] n] c
      by (simp add: mult.commute)
  qed
qed

definition basis_step :: "nat \<Rightarrow> u8 \<Rightarrow> u8 \<times> u8 \<Rightarrow> nat \<times> share \<Rightarrow> u8 \<times> u8" where
  "basis_step i x = (\<lambda>(num, den) (j, s_j). if i = j then (num, den)
        else (gf_mul num (sh_index s_j), gf_mul den (gf_add x (sh_index s_j))))"

lemma basis_step_apply:
  "basis_step i x p (j, s) = (if i = j then p else (gf_mul (fst p) (sh_index s), gf_mul (snd p) (gf_add x (sh_index s))))"
  by (simp add: basis_step_def case_prod_beta)

lemma basis_fold:
  "Gf (fst (foldl (basis_step i x) (1, 1) (enumerate 0 ss))) = (\<Prod>j\<in>{..<length ss} - {i}. Gf (sh_index (ss ! j)))"
  "Gf (snd (foldl (basis_step i x) (1, 1) (enumerate 0 ss))) = (\<Prod>j\<in>{..<length ss} - {i}. Gf x + Gf (sh_index (ss ! j)))"
proof (induction ss rule: rev_induct)
  case (snoc s ss)
  { case 1
    show ?case
      unfolding prod_others_snoc[where g = "\<lambda>s. Gf (sh_index s)"]
      unfolding snoc.IH(1)[symmetric] by (simp add: enumerate_append_eq basis_step_apply Gf_homs) }
  { case 2
    show ?case
      unfolding prod_others_snoc[where g = "\<lambda>s. Gf x + Gf (sh_index s)"]
      unfolding snoc.IH(2)[symmetric] by (simp add: enumerate_append_eq basis_step_apply Gf_homs) }
qed simp_all

lemma gf_minus: "(a :: gf) - b = b + a"
  by transfer (simp add: gf_add_def xor.commute)

lemma basis_at_zero_field:
  "Gf (basis_at_zero ss i) = (\<Prod>j\<in>{..<length ss} - {i}. Gf (sh_index (ss ! j)))
     / (\<Prod>j\<in>{..<length ss} - {i}. Gf (sh_index (ss ! j)) - Gf (sh_index (ss ! i)))"
  unfolding basis_at_zero_def basis_step_def[symmetric] Let_def case_prod_beta Gf_homs basis_fold
    gf_minus divide_inverse ..

lemma Gf_sum: "Gf (foldl (\<lambda>acc (i, s). gf_add acc (f i s)) 0 (enumerate 0 ss)) = (\<Sum>i<length ss. Gf (f i (ss ! i)))"
proof (induction ss rule: rev_induct)
  case (snoc s ss)
  have "(\<Sum>i<length ss. Gf (f i ((ss @ [s]) ! i))) = (\<Sum>i<length ss. Gf (f i (ss ! i)))"
    by (intro sum.cong) (auto simp: nth_append)
  then show ?case by (simp add: enumerate_append_eq snoc Gf_homs)
qed simp

text \<open>Shares that agree, at one byte, with a polynomial of at most as many coefficients reconstruct its constant.\<close>
lemma combine_byte_interpolates:
  assumes "length cs \<le> length ss" "distinct (map sh_index ss)"
    and "\<And>i. i < length ss \<Longrightarrow> Gf (sh_bytes (ss ! i) ! b) = horner cs (Gf (sh_index (ss ! i)))"
  shows "Gf (combine_byte ss b) = horner cs 0"
proof -
  let ?cs = "cs @ replicate (length ss - length cs) 0" and ?xs = "map (\<lambda>s. Gf (sh_index s)) ss"
  have d: "distinct ?xs" using assms(2) by (simp add: distinct_map inj_on_def)
  have "horner ?cs 0 = (\<Sum>i<length ?xs. horner ?cs (?xs ! i)
      * (\<Prod>j\<in>{..<length ?xs} - {i}. ?xs ! j) / (\<Prod>j\<in>{..<length ?xs} - {i}. ?xs ! j - ?xs ! i))"
    using assms(1) by (intro lagrange_at_zero[OF _ d]) simp
  also have "\<dots> = (\<Sum>i<length ss. Gf (gf_mul (sh_bytes (ss ! i) ! b) (basis_at_zero ss i)))"
    by (intro sum.cong) (auto simp: assms(3) horner_pad Gf_mul basis_at_zero_field
        intro!: arg_cong2[where f = "(/)"] prod.cong)
  also have "\<dots> = Gf (combine_byte ss b)" unfolding combine_byte_def Gf_sum ..
  finally show ?thesis by (simp add: horner_pad)
qed

section \<open>What a split hands out\<close>

definition coeffs_of :: "threshold_config \<Rightarrow> bytes \<Rightarrow> nat \<Rightarrow> bytes" where
  "coeffs_of config buf b = take (unat (tc_t config) - 1) (drop (b * (unat (tc_t config) - 1)) buf)"

definition share_of :: "threshold_config \<Rightarrow> bytes \<Rightarrow> bytes \<Rightarrow> nat \<Rightarrow> share" where
  "share_of config secret buf i = \<lparr>sh_index = of_nat i,
     sh_bytes = map (\<lambda>b. gf_poly_eval_with_const (secret ! b) (coeffs_of config buf b) (of_nat i)) [0..<length secret]\<rparr>"

lemma map_enumerate: "map (\<lambda>(i, x). f i x) (enumerate 0 xs) = map (\<lambda>i. f i (xs ! i)) [0..<length xs]"
  by (rule nth_equalityI) (simp_all add: nth_enumerate_eq)

lemma split_secret_shares:
  "split_secret entropy secret config = Inr shares \<longleftrightarrow> is_valid config \<and>
     (\<exists>buf. (if length secret * (unat (tc_t config) - 1) = 0 then Inr []
             else entropy (length secret * (unat (tc_t config) - 1))) = Inr buf
        \<and> shares = map (share_of config secret buf) [1..<Suc (unat (tc_n config))])"
  unfolding split_secret_def Let_def map_enumerate share_of_def coeffs_of_def
  by (auto split: sum.splits)

lemma valid_bounds:
  "is_valid config \<Longrightarrow> 2 \<le> unat (tc_t config) \<and> unat (tc_t config) \<le> unat (tc_n config) \<and> unat (tc_n config) < 256"
  using unsigned_less[of "tc_n config"] by (auto simp: is_valid_def word_le_nat_alt)

lemma unat_of_nat_u8: "i < 256 \<Longrightarrow> unat (of_nat i :: u8) = i"
  by (simp add: unat_of_nat take_bit_eq_mod)

lemma of_nat_u8_inject: "i < 256 \<Longrightarrow> j < 256 \<Longrightarrow> (of_nat i :: u8) = of_nat j \<longleftrightarrow> i = j"
  by (metis unat_of_nat_u8)

lemma has_duplicate_iff: "has_duplicate ss \<longleftrightarrow> \<not> distinct (map sh_index ss)"
  by (induction ss) (auto simp: list_ex_iff)

section \<open>Reconstruction\<close>

lemma share_of_inject:
  "\<lbrakk>i < 256; j < 256; share_of c s b i = share_of c s b j\<rbrakk> \<Longrightarrow> i = j"
  by (simp add: share_of_def of_nat_u8_inject)

lemma shares_of_split:
  assumes "is_valid config" "set chosen \<subseteq> set (map (share_of config secret buf) [1..<Suc (unat (tc_n config))])"
    "distinct chosen"
  shows "distinct (map sh_index chosen)" "\<not> list_ex (\<lambda>s. sh_index s = 0) chosen"
    "\<And>s. s \<in> set chosen \<Longrightarrow> s = share_of config secret buf (unat (sh_index s))"
    "\<And>s. s \<in> set chosen \<Longrightarrow> length (sh_bytes s) = length secret"
proof -
  have mem: "\<exists>i. 0 < i \<and> i < 256 \<and> s = share_of config secret buf i" if s: "s \<in> set chosen" for s
  proof -
    obtain i where "i \<in> set [1..<Suc (unat (tc_n config))]" "s = share_of config secret buf i"
      using s assms(2) by auto
    then show ?thesis using valid_bounds[OF assms(1)] by (intro exI[of _ i]) auto
  qed
  show idx: "s = share_of config secret buf (unat (sh_index s))" if s: "s \<in> set chosen" for s
  proof -
    obtain i where i: "i < 256" "s = share_of config secret buf i" using mem[OF s] by blast
    then have "unat (sh_index s) = i" by (simp add: share_of_def unat_of_nat_u8)
    then show ?thesis using i(2) by simp
  qed
  have "inj_on sh_index (set chosen)"
  proof (rule inj_onI)
    fix s s' assume a: "s \<in> set chosen" "s' \<in> set chosen" "sh_index s = sh_index s'"
    show "s = s'" by (subst idx[OF a(1)], subst idx[OF a(2)]) (simp add: a(3))
  qed
  then show "distinct (map sh_index chosen)" using assms(3) by (simp add: distinct_map)
  have "sh_index s \<noteq> 0" if s: "s \<in> set chosen" for s
  proof -
    obtain i where i: "0 < i" "i < 256" "s = share_of config secret buf i" using mem[OF s] by blast
    then have "unat (sh_index s) = i" by (simp add: share_of_def unat_of_nat_u8)
    then show ?thesis using i(1) by auto
  qed
  then show "\<not> list_ex (\<lambda>s. sh_index s = 0) chosen" by (auto simp: list_ex_iff)
  show "length (sh_bytes s) = length secret" if "s \<in> set chosen" for s
    using mem[OF that] by (auto simp: share_of_def)
qed

lemma combine_byte_secret:
  assumes "is_valid config" "b < length secret" "distinct (map sh_index ss)" "length ss = unat (tc_t config)"
    "\<And>s. s \<in> set ss \<Longrightarrow> s = share_of config secret buf (unat (sh_index s))"
  shows "combine_byte ss b = secret ! b"
proof -
  let ?cs = "Gf (secret ! b) # map Gf (coeffs_of config buf b)"
  have l: "length ?cs \<le> length ss"
    using valid_bounds[OF assms(1)] assms(4) unfolding coeffs_of_def by simp linarith
  have "Gf (sh_bytes (ss ! i) ! b) = horner ?cs (Gf (sh_index (ss ! i)))" if "i < length ss" for i
  proof -
    have "sh_bytes (ss ! i) ! b
        = gf_poly_eval_with_const (secret ! b) (coeffs_of config buf b) (of_nat (unat (sh_index (ss ! i))))"
      by (subst assms(5)[OF nth_mem[OF that]]) (simp add: share_of_def assms(2))
    then show ?thesis by (simp add: Gf_eval del: horner_simps)
  qed
  from combine_byte_interpolates[OF l assms(3) this] show ?thesis by simp
qed

lemma combine_shares_split:
  assumes "split_secret entropy secret config = Inr shares" "distinct chosen" "set chosen \<subseteq> set shares"
  shows "combine_shares chosen config =
    (if length chosen < unat (tc_t config) then Inl (InsufficientShares (unat (tc_t config)) (length chosen))
     else Inr secret)"
proof -
  let ?t = "unat (tc_t config)"
  obtain buf where v: "is_valid config" and sh: "shares = map (share_of config secret buf) [1..<Suc (unat (tc_n config))]"
    using assms(1) unfolding split_secret_shares by blast
  note facts = shares_of_split[OF v assms(3)[unfolded sh] assms(2)]
  show ?thesis
  proof (cases "length chosen < ?t")
    case True
    then show ?thesis by (simp add: combine_shares_def v)
  next
    case False
    then have ne: "chosen \<noteq> []" using valid_bounds[OF v] by auto
    then have len: "length (sh_bytes (chosen ! 0)) = length secret" using facts(4) by simp
    have none: "filter (\<lambda>s. length (sh_bytes s) \<noteq> length secret) chosen = []"
      using facts(4) by (simp add: filter_empty_conv)
    have "map (combine_byte (take ?t chosen)) [0..<length secret] = secret"
    proof (rule nth_equalityI)
      fix b assume "b < length (map (combine_byte (take ?t chosen)) [0..<length secret])"
      then have b: "b < length secret" by simp
      have "combine_byte (take ?t chosen) b = secret ! b"
        by (rule combine_byte_secret[where config = config and buf = buf])
           (use v b facts(1,3) False in \<open>auto simp: take_map[symmetric] dest: in_set_takeD intro: distinct_take\<close>)
      then show "map (combine_byte (take ?t chosen)) [0..<length secret] ! b = secret ! b" using b by simp
    qed simp
    then show ?thesis
      using False v facts(1,2) by (simp add: combine_shares_def has_duplicate_iff len none Let_def)
  qed
qed

text \<open>C9: threshold round trip. Whatever bytes the entropy source delivered, any selection of distinct shares of a
split, in any order, reconstructs exactly the secret as soon as it has the threshold many; a smaller selection is
refused with the two counts.\<close>
theorem threshold_roundtrip:
  assumes "split_secret entropy secret config = Inr shares" "distinct chosen" "set chosen \<subseteq> set shares"
  shows "combine_shares chosen config =
    (if length chosen < unat (tc_t config) then Inl (InsufficientShares (unat (tc_t config)) (length chosen))
     else Inr secret)"
  using combine_shares_split[OF assms] .

definition demo_entropy :: "nat \<Rightarrow> string + bytes" where
  "demo_entropy n = Inr (replicate n 7)"

lemma demo_split:
  "split_secret demo_entropy [42] ThresholdConfig_DEFAULT
     = Inr [\<lparr>sh_index = 1, sh_bytes = [45]\<rparr>, \<lparr>sh_index = 2, sh_bytes = [36]\<rparr>, \<lparr>sh_index = 3, sh_bytes = [35]\<rparr>]"
  by code_simp

theorem threshold_roundtrip_witness:
  "combine_shares [\<lparr>sh_index = 3, sh_bytes = [35]\<rparr>, \<lparr>sh_index = 1, sh_bytes = [45]\<rparr>] ThresholdConfig_DEFAULT
     = Inr [42]"
  using threshold_roundtrip[OF demo_split, of "[\<lparr>sh_index = 3, sh_bytes = [35]\<rparr>, \<lparr>sh_index = 1, sh_bytes = [45]\<rparr>]"]
  by (simp add: ThresholdConfig_DEFAULT_def)

section \<open>Hiding\<close>

text \<open>What the holders of the shares with the given indices see of a split with the given random bytes.\<close>
definition observed :: "bytes \<Rightarrow> threshold_config \<Rightarrow> nat list \<Rightarrow> bytes \<Rightarrow> threshold_error + bytes list" where
  "observed secret config holders buf =
     (case split_secret (\<lambda>_. Inr buf) secret config of
        Inl e \<Rightarrow> Inl e
      | Inr shares \<Rightarrow> Inr (map (\<lambda>i. sh_bytes (shares ! (i - 1))) holders))"

lemma observed_shares:
  assumes "is_valid config" "set holders \<subseteq> {1..unat (tc_n config)}" "length buf = length secret * (unat (tc_t config) - 1)"
  shows "observed secret config holders buf = Inr (map (\<lambda>i. sh_bytes (share_of config secret buf i)) holders)"
proof -
  have "split_secret (\<lambda>_. Inr buf) secret config = Inr (map (share_of config secret buf) [1..<Suc (unat (tc_n config))])"
    using assms unfolding split_secret_shares by (cases buf) auto
  moreover have "map (share_of config secret buf) [1..<Suc (unat (tc_n config))] ! (i - 1) = share_of config secret buf i"
    if "i \<in> set holders" for i
  proof -
    have i: "1 \<le> i" "i \<le> unat (tc_n config)" using that assms(2) by auto
    then show ?thesis by (subst nth_map) (simp_all del: upt_Suc)
  qed
  ultimately show ?thesis by (simp add: observed_def del: upt_Suc)
qed

lemma chunk_nth:
  assumes "length buf = l * m" "k < l * m"
  shows "take m (drop ((k div m) * m) buf) ! (k mod m) = buf ! k"
proof -
  have m: "0 < m" using assms(2) by (cases m) simp_all
  then have "k mod m < m" "k div m < l" using assms(2) by (simp_all add: less_mult_imp_div_less mult.commute)
  then have "(k div m) * m + m \<le> length buf"
    by (metis assms(1) Suc_leI mult_Suc mult_le_mono1 add.commute)
  then show ?thesis using \<open>k mod m < m\<close> by simp
qed

lemma chunks_determine:
  assumes "length buf = l * m" "length buf' = l * m"
    "\<And>b. b < l \<Longrightarrow> take m (drop (b * m) buf) = take m (drop (b * m) buf')"
  shows "buf = buf'"
proof (rule nth_equalityI)
  fix k assume "k < length buf"
  then have k: "k < l * m" using assms(1) by simp
  then have "k div m < l" by (simp add: less_mult_imp_div_less mult.commute)
  then show "buf ! k = buf' ! k"
    using chunk_nth[OF assms(1) k] chunk_nth[OF assms(2) k] assms(3) by metis
qed (simp add: assms)

lemma coefficients_determined:
  assumes c: "is_valid config" and h: "distinct holders" "length holders = unat (tc_t config) - 1"
      "set holders \<subseteq> {1..unat (tc_n config)}"
    and l: "length cs = unat (tc_t config) - 1" "length ds = unat (tc_t config) - 1"
    and e: "\<And>i. i \<in> set holders \<Longrightarrow> gf_poly_eval_with_const s cs (of_nat i) = gf_poly_eval_with_const s ds (of_nat i)"
  shows "cs = ds"
proof -
  let ?xs = "map (\<lambda>i. Gf (of_nat i)) holders"
  have r: "0 < i \<and> i < 256" if "i \<in> set holders" for i
    using that h(3) valid_bounds[OF c] by fastforce
  have "inj_on (\<lambda>i. Gf (of_nat i)) (set holders)"
    by (rule inj_onI) (use r of_nat_u8_inject in auto)
  then have d: "distinct ?xs" using h(1) by (simp add: distinct_map)
  have "horner (map Gf cs) (Gf (of_nat i)) = horner (map Gf ds) (Gf (of_nat i))" if i: "i \<in> set holders" for i
  proof -
    have "Gf (gf_poly_eval_with_const s cs (of_nat i)) = Gf (gf_poly_eval_with_const s ds (of_nat i))" using e[OF i] by simp
    then have "horner (map Gf cs) (Gf (of_nat i)) * Gf (of_nat i) = horner (map Gf ds) (Gf (of_nat i)) * Gf (of_nat i)"
      unfolding Gf_eval by simp
    moreover have "Gf (of_nat i) \<noteq> 0" using r[OF i] unat_of_nat_u8[of i] by (metis Gf_0 Gf_eq unat_0 less_not_refl)
    ultimately show ?thesis by simp
  qed
  then have "map Gf cs = map Gf ds" by (intro horner_unique[OF _ _ d]) (use h(2) l in auto)
  then show ?thesis by (simp add: inj_map_eq_map inj_def)
qed

lemma card_byte_lists: "card {xs :: bytes. length xs = k} = 256 ^ k"
  using card_lists_length_eq[of "UNIV :: u8 set" k] by (simp add: card_word)

lemma finite_byte_lists: "finite {xs :: bytes. length xs = k}"
  using finite_lists_length_eq[of "UNIV :: u8 set" k] by simp

lemma byte_matrices:
  "card {v :: bytes list. length v = m \<and> (\<forall>b\<in>set v. length b = k)} = 256 ^ (k * m)"
  "finite {v :: bytes list. length v = m \<and> (\<forall>b\<in>set v. length b = k)}"
proof -
  have e: "{v :: bytes list. length v = m \<and> (\<forall>b\<in>set v. length b = k)} = {v. set v \<subseteq> {xs. length xs = k} \<and> length v = m}"
    by auto
  show "card {v :: bytes list. length v = m \<and> (\<forall>b\<in>set v. length b = k)} = 256 ^ (k * m)"
    unfolding e card_lists_length_eq[OF finite_byte_lists] card_byte_lists power_mult ..
  show "finite {v :: bytes list. length v = m \<and> (\<forall>b\<in>set v. length b = k)}"
    unfolding e by (rule finite_lists_length_eq[OF finite_byte_lists])
qed

lemma observed_injective:
  assumes c: "is_valid config" and h: "distinct holders" "length holders = unat (tc_t config) - 1"
      "set holders \<subseteq> {1..unat (tc_n config)}"
  shows "inj_on (observed secret config holders) {buf. length buf = length secret * (unat (tc_t config) - 1)}"
proof (rule inj_onI)
  fix buf buf'
  let ?m = "unat (tc_t config) - 1"
  assume "buf \<in> {buf. length buf = length secret * ?m}" "buf' \<in> {buf. length buf = length secret * ?m}"
    and o: "observed secret config holders buf = observed secret config holders buf'"
  then have l: "length buf = length secret * ?m" "length buf' = length secret * ?m" by simp_all
  have v: "sh_bytes (share_of config secret buf i) = sh_bytes (share_of config secret buf' i)" if "i \<in> set holders" for i
    using o that unfolding observed_shares[OF c h(3) l(1)] observed_shares[OF c h(3) l(2)] by simp
  show "buf = buf'"
  proof (rule chunks_determine[OF l])
    fix b assume b: "b < length secret"
    have le: "b * ?m + ?m \<le> length secret * ?m" by (metis b Suc_leI mult_Suc mult_le_mono1 add.commute)
    have "coeffs_of config buf b = coeffs_of config buf' b"
    proof (rule coefficients_determined[OF c h, of _ _ "secret ! b"])
      show "gf_poly_eval_with_const (secret ! b) (coeffs_of config buf b) (of_nat i)
          = gf_poly_eval_with_const (secret ! b) (coeffs_of config buf' b) (of_nat i)" if "i \<in> set holders" for i
        using v[OF that] b unfolding share_of_def by simp
    qed (use le l in \<open>simp_all add: coeffs_of_def\<close>)
    then show "take ?m (drop (b * ?m) buf) = take ?m (drop (b * ?m) buf')" by (simp add: coeffs_of_def)
  qed
qed

text \<open>C10: threshold hiding. For every valid configuration, every secret and every group of one holder fewer than the
threshold, the random bytes drawn by the split and the bytes the group sees are in one-to-one correspondence, and
every combination of bytes can be seen: whatever the secret, uniformly drawn randomness shows the group a uniformly
distributed view, so the view says nothing about the secret beyond its length.\<close>
theorem threshold_hiding:
  assumes "is_valid config" "distinct holders" "length holders = unat (tc_t config) - 1"
    "set holders \<subseteq> {1..unat (tc_n config)}"
  shows "bij_betw (observed secret config holders)
     {buf. length buf = length secret * (unat (tc_t config) - 1)}
     (Inr ` {v. length v = unat (tc_t config) - 1 \<and> (\<forall>b\<in>set v. length b = length secret)})"
proof -
  let ?m = "unat (tc_t config) - 1"
  let ?D = "{buf :: bytes. length buf = length secret * ?m}"
  let ?V = "{v :: bytes list. length v = ?m \<and> (\<forall>b\<in>set v. length b = length secret)}"
  let ?R = "Inr ` ?V :: (threshold_error + bytes list) set"
  have inj: "inj_on (observed secret config holders) ?D" by (rule observed_injective[OF assms])
  have sub: "observed secret config holders ` ?D \<subseteq> ?R"
    using assms(3) by (auto simp: observed_shares[OF assms(1,4)] share_of_def)
  have "card (observed secret config holders ` ?D) = card ?R"
    unfolding card_image[OF inj] card_byte_lists card_image[OF inj_Inr] byte_matrices(1) ..
  then have "observed secret config holders ` ?D = ?R"
    by (intro card_subset_eq sub finite_imageI byte_matrices(2))
  then show ?thesis using inj by (simp add: bij_betw_def)
qed

theorem threshold_hiding_witness:
  "bij_betw (observed [42, 99] ThresholdConfig_DEFAULT [3]) {buf. length buf = Suc (Suc 0)}
     (Inr ` {v. length v = Suc 0 \<and> (\<forall>b\<in>set v. length b = Suc (Suc 0))})"
  using threshold_hiding[of ThresholdConfig_DEFAULT "[3]" "[42, 99]"]
  by (simp add: ThresholdConfig_DEFAULT_def is_valid_def)

end
