(* ===== verification/Journal.thy ===== *)
theory Journal
  imports Context
begin

text \<open>The chain-signed audit journal of \<^verbatim>\<open>hf2_kms/journal.rs\<close>.  BLAKE3's key derivation and the Ed25519 crate
are parameters.  Fixed-size arrays are byte lists; \<^verbatim>\<open>token_typed\<close> and \<^verbatim>\<open>entry_typed\<close> say that they have the
length of their type.\<close>

section \<open>Data\<close>

definition JOURNAL_CHAIN_DOMAIN :: string where
  "JOURNAL_CHAIN_DOMAIN = ''arkhe-runtime-doctor-journal-chain''"

definition GENESIS_PREV_HASH :: bytes where
  "GENESIS_PREV_HASH = replicate 32 0"

record consumed_token =
  token_hash :: bytes
  operator_fingerprint :: bytes
  consumed_at_tick :: u64

definition canonical_bytes :: "consumed_token \<Rightarrow> bytes" where
  "canonical_bytes t = token_hash t @ operator_fingerprint t @ be_bytes 8 (consumed_at_tick t)"

record journal_entry =
  je_token :: consumed_token
  prev_hash :: bytes
  entry_hash :: bytes
  je_signature :: bytes
  signer_pubkey :: bytes

definition token_typed :: "consumed_token \<Rightarrow> bool" where
  "token_typed t \<longleftrightarrow> length (token_hash t) = 32 \<and> length (operator_fingerprint t) = 8"

definition entry_typed :: "journal_entry \<Rightarrow> bool" where
  "entry_typed e \<longleftrightarrow> token_typed (je_token e) \<and> length (prev_hash e) = 32 \<and> length (entry_hash e) = 32"

text \<open>The eighty-byte payload is assembled on the stack, slice by slice.\<close>
definition compute_entry_hash :: "blake3 \<Rightarrow> bytes \<Rightarrow> consumed_token \<Rightarrow> bytes" where
  "compute_entry_hash h prev t =
     derive_key h JOURNAL_CHAIN_DOMAIN
       (prev @ token_hash t @ operator_fingerprint t @ be_bytes 8 (consumed_at_tick t))"

datatype journal_error =
    DuplicateToken
  | ChainIntegrity nat
  | SignatureInvalid nat
  | SignerKeyMismatch nat
  | TipMismatch
  | LengthMismatch nat nat
  | BackendIo string

section \<open>Signers\<close>

record journal_signer =
  js_sign :: "bytes \<Rightarrow> bytes"
  js_public_key :: bytes

text \<open>What the code uses of the \<^verbatim>\<open>ed25519_dalek\<close> crate.\<close>
record ('sk, 'vk) ed25519 =
  ed_sign :: "'sk \<Rightarrow> bytes \<Rightarrow> bytes"
  ed_verifying_key :: "'sk \<Rightarrow> 'vk"
  ed_to_bytes :: "'vk \<Rightarrow> bytes"
  ed_from_bytes :: "bytes \<Rightarrow> 'vk option"
  ed_verify :: "'vk \<Rightarrow> bytes \<Rightarrow> bytes \<Rightarrow> bool"

text \<open>The documented round trips of the crate: an encoded key decodes, a signature verifies under its key.\<close>
definition ed25519_ok :: "('sk, 'vk) ed25519 \<Rightarrow> bool" where
  "ed25519_ok E \<longleftrightarrow>
     (\<forall>sk. ed_from_bytes E (ed_to_bytes E (ed_verifying_key E sk)) = Some (ed_verifying_key E sk)) \<and>
     (\<forall>sk m. ed_verify E (ed_verifying_key E sk) m (ed_sign E sk m))"

definition InMemoryJournalSigner :: "('sk, 'vk) ed25519 \<Rightarrow> 'sk \<Rightarrow> journal_signer" where
  "InMemoryJournalSigner E key =
     \<lparr>js_sign = ed_sign E key, js_public_key = ed_to_bytes E (ed_verifying_key E key)\<rparr>"

section \<open>The in-memory journal\<close>

record in_memory_journal =
  entries :: "journal_entry list"
  seen :: "bytes set"

definition InMemoryJournal_new :: in_memory_journal where
  "InMemoryJournal_new = \<lparr>entries = [], seen = {}\<rparr>"

definition journal_len :: "in_memory_journal \<Rightarrow> nat" where
  "journal_len j = length (entries j)"

definition journal_is_empty :: "in_memory_journal \<Rightarrow> bool" where
  "journal_is_empty j \<longleftrightarrow> journal_len j = 0"

definition is_duplicate :: "in_memory_journal \<Rightarrow> bytes \<Rightarrow> bool" where
  "is_duplicate j h \<longleftrightarrow> h \<in> seen j"

definition tip_hash :: "in_memory_journal \<Rightarrow> bytes" where
  "tip_hash j = (if entries j = [] then GENESIS_PREV_HASH else entry_hash (List.last (entries j)))"

definition append_token ::
  "blake3 \<Rightarrow> consumed_token \<Rightarrow> journal_signer \<Rightarrow> (in_memory_journal, journal_error, journal_entry) act" where
  "append_token h token signer j =
     (if is_duplicate j (token_hash token) then (Inl DuplicateToken, j)
      else
        let prev = tip_hash j;
            hash = compute_entry_hash h prev token;
            entry = \<lparr>je_token = token, prev_hash = prev, entry_hash = hash,
                     je_signature = js_sign signer hash, signer_pubkey = js_public_key signer\<rparr>
        in (Inr entry, j\<lparr>seen := insert (token_hash token) (seen j), entries := entries j @ [entry]\<rparr>))"

fun verify_entries ::
  "blake3 \<Rightarrow> ('sk, 'vk) ed25519 \<Rightarrow> bytes \<Rightarrow> nat \<Rightarrow> journal_entry list \<Rightarrow> journal_error + unit" where
  "verify_entries h E expected_prev idx [] = Inr ()"
| "verify_entries h E expected_prev idx (entry # rest) =
     (if prev_hash entry \<noteq> expected_prev then Inl (ChainIntegrity idx)
      else if compute_entry_hash h (prev_hash entry) (je_token entry) \<noteq> entry_hash entry then Inl (ChainIntegrity idx)
      else case ed_from_bytes E (signer_pubkey entry) of
        None \<Rightarrow> Inl (SignatureInvalid idx)
      | Some verifying_key \<Rightarrow>
          if ed_verify E verifying_key (entry_hash entry) (je_signature entry)
          then verify_entries h E (entry_hash entry) (Suc idx) rest
          else Inl (SignatureInvalid idx))"

definition verify_chain :: "blake3 \<Rightarrow> ('sk, 'vk) ed25519 \<Rightarrow> in_memory_journal \<Rightarrow> journal_error + unit" where
  "verify_chain h E j = verify_entries h E GENESIS_PREV_HASH 0 (entries j)"

fun pin_signers :: "bytes \<Rightarrow> nat \<Rightarrow> journal_entry list \<Rightarrow> journal_error + unit" where
  "pin_signers trusted idx [] = Inr ()"
| "pin_signers trusted idx (entry # rest) =
     (if signer_pubkey entry \<noteq> trusted then Inl (SignerKeyMismatch idx) else pin_signers trusted (Suc idx) rest)"

definition verify_chain_anchored ::
  "blake3 \<Rightarrow> ('sk, 'vk) ed25519 \<Rightarrow> in_memory_journal \<Rightarrow> bytes \<Rightarrow> bytes \<Rightarrow> nat \<Rightarrow> journal_error + unit" where
  "verify_chain_anchored h E j trusted_pubkey expected_tip expected_len =
     (if length (entries j) \<noteq> expected_len then Inl (LengthMismatch expected_len (length (entries j)))
      else case verify_chain h E j of
        Inl e \<Rightarrow> Inl e
      | Inr _ \<Rightarrow>
          (case pin_signers trusted_pubkey 0 (entries j) of
             Inl e \<Rightarrow> Inl e
           | Inr _ \<Rightarrow> if tip_hash j \<noteq> expected_tip then Inl TipMismatch else Inr ()))"

section \<open>The chain an accepted journal carries\<close>

lemma compute_entry_hash_canonical:
  "compute_entry_hash h prev t = derive_key h JOURNAL_CHAIN_DOMAIN (prev @ canonical_bytes t)"
  by (simp add: compute_entry_hash_def canonical_bytes_def)

text \<open>An entry that extends the chain ending in \<^verbatim>\<open>prev\<close>, signed validly under its own key.\<close>
definition entry_good :: "blake3 \<Rightarrow> ('sk, 'vk) ed25519 \<Rightarrow> bytes \<Rightarrow> journal_entry \<Rightarrow> bool" where
  "entry_good h E prev e \<longleftrightarrow> prev_hash e = prev \<and> entry_hash e = compute_entry_hash h prev (je_token e)
     \<and> (\<exists>vk. ed_from_bytes E (signer_pubkey e) = Some vk \<and> ed_verify E vk (entry_hash e) (je_signature e))"

definition chain_tip :: "bytes \<Rightarrow> journal_entry list \<Rightarrow> bytes" where
  "chain_tip prev es = (if es = [] then prev else entry_hash (List.last es))"

lemma chain_tip_simps [simp]:
  "chain_tip prev [] = prev" "chain_tip prev (es @ [e]) = entry_hash e" "chain_tip prev (e # es) = chain_tip (entry_hash e) es"
  by (simp_all add: chain_tip_def)

lemma tip_hash_chain: "tip_hash j = chain_tip GENESIS_PREV_HASH (entries j)"
  by (simp add: tip_hash_def chain_tip_def)

lemma verify_entries_Cons:
  "verify_entries h E prev idx (e # es) = Inr () \<longleftrightarrow>
     entry_good h E prev e \<and> verify_entries h E (entry_hash e) (Suc idx) es = Inr ()"
  by (auto simp: entry_good_def split: option.splits)

lemma verify_entries_snoc:
  "verify_entries h E prev idx (es @ [e]) = Inr () \<longleftrightarrow>
     verify_entries h E prev idx es = Inr () \<and> entry_good h E (chain_tip prev es) e"
  by (induction es arbitrary: prev idx) (simp_all add: verify_entries_Cons del: verify_entries.simps(2))

lemma verify_entries_ok:
  "verify_entries h E prev idx es = Inr () \<longleftrightarrow>
     (\<forall>i<length es. entry_good h E (chain_tip prev (take i es)) (es ! i))"
proof (induction es rule: rev_induct)
  case (snoc e es)
  show ?case unfolding verify_entries_snoc snoc
    by (auto simp: nth_append less_Suc_eq)
qed simp

lemma pin_signers_ok: "pin_signers k idx es = Inr () \<longleftrightarrow> (\<forall>e\<in>set es. signer_pubkey e = k)"
  by (induction es arbitrary: idx) auto

lemma verify_anchored_ok:
  "verify_chain_anchored h E j k tip n = Inr () \<longleftrightarrow>
     length (entries j) = n \<and> verify_chain h E j = Inr () \<and> (\<forall>e\<in>set (entries j). signer_pubkey e = k) \<and> tip_hash j = tip"
  unfolding verify_chain_anchored_def pin_signers_ok[of k 0, symmetric] by (auto split: sum.splits)

text \<open>The first entry that does not extend the chain is the one reported.\<close>
lemma verify_entries_first_failure:
  "verify_entries h E prev idx es = Inl e \<Longrightarrow>
     \<exists>i<length es. (e = ChainIntegrity (idx + i) \<or> e = SignatureInvalid (idx + i))
       \<and> \<not> entry_good h E (chain_tip prev (take i es)) (es ! i)
       \<and> (\<forall>k<i. entry_good h E (chain_tip prev (take k es)) (es ! k))"
proof (induction es arbitrary: prev idx)
  case (Cons x es)
  show ?case
  proof (cases "entry_good h E prev x")
    case False
    then have "e = ChainIntegrity idx \<or> e = SignatureInvalid idx"
      using Cons.prems by (auto simp: entry_good_def split: if_splits option.splits)
    then show ?thesis using False by (intro exI[of _ 0]) simp
  next
    case True
    then have "verify_entries h E (entry_hash x) (Suc idx) es = Inl e"
      using Cons.prems by (auto simp: entry_good_def split: option.splits)
    from Cons.IH[OF this] obtain i where i: "i < length es"
      "e = ChainIntegrity (Suc idx + i) \<or> e = SignatureInvalid (Suc idx + i)"
      "\<not> entry_good h E (chain_tip (entry_hash x) (take i es)) (es ! i)"
      "\<forall>k<i. entry_good h E (chain_tip (entry_hash x) (take k es)) (es ! k)" by blast
    have "entry_good h E (chain_tip prev (take k (x # es))) ((x # es) ! k)" if "k < Suc i" for k
      using that True i(4) by (cases k) simp_all
    then show ?thesis using i by (intro exI[of _ "Suc i"]) simp
  qed
qed simp

section \<open>The backend contract and the replay guard\<close>

text \<open>Consuming a sequence of tokens through a backend, each with the signer at hand.\<close>
fun consume_all ::
  "(consumed_token \<Rightarrow> journal_signer \<Rightarrow> ('s, journal_error, journal_entry) act)
     \<Rightarrow> (consumed_token \<times> journal_signer) list \<Rightarrow> 's \<Rightarrow> (journal_error + journal_entry) list \<times> 's" where
  "consume_all app [] s = ([], s)"
| "consume_all app ((t, g) # rest) s =
     (let (r, s') = app t g s; (rs, s'') = consume_all app rest s' in (r # rs, s''))"

text \<open>The contract of \<^verbatim>\<open>PersistentJournal\<close>: a known token is refused and nothing changes, a new one is linked to the tip,
becomes the tip, is counted and is known from then on.\<close>
locale persistent_journal =
  fixes app :: "consumed_token \<Rightarrow> journal_signer \<Rightarrow> ('s, journal_error, journal_entry) act"
    and tip :: "'s \<Rightarrow> bytes" and len :: "'s \<Rightarrow> nat" and known :: "'s \<Rightarrow> bytes \<Rightarrow> bool"
  assumes refused: "known s (token_hash t) \<Longrightarrow> app t g s = (Inl DuplicateToken, s)"
    and accepted: "\<not> known s (token_hash t) \<Longrightarrow> \<exists>e s'. app t g s = (Inr e, s')
      \<and> je_token e = t \<and> prev_hash e = tip s \<and> signer_pubkey e = js_public_key g \<and> tip s' = entry_hash e
      \<and> len s' = Suc (len s) \<and> (\<forall>h. known s' h \<longleftrightarrow> h = token_hash t \<or> known s h)"
begin

lemma known_after: "known (snd (app t g s)) h \<longleftrightarrow> h = token_hash t \<or> known s h"
proof (cases "known s (token_hash t)")
  case True
  then show ?thesis by (auto simp: refused)
next
  case False
  then obtain e s' where "app t g s = (Inr e, s')" "\<forall>h. known s' h \<longleftrightarrow> h = token_hash t \<or> known s h"
    using accepted by blast
  then show ?thesis by simp
qed

lemma one_result:
  "case fst (app t g s) of
     Inl x \<Rightarrow> x = DuplicateToken \<and> known s (token_hash t)
   | Inr e \<Rightarrow> je_token e = t \<and> signer_pubkey e = js_public_key g \<and> \<not> known s (token_hash t)"
proof (cases "known s (token_hash t)")
  case True
  then show ?thesis by (simp add: refused)
next
  case False
  then obtain e s' where "app t g s = (Inr e, s')" "je_token e = t" "signer_pubkey e = js_public_key g"
    using accepted by blast
  then show ?thesis using False by simp
qed

lemma consume_all_results:
  "length (fst (consume_all app ts s)) = length ts \<and>
   (\<forall>i<length ts. case fst (consume_all app ts s) ! i of
      Inl x \<Rightarrow> x = DuplicateToken
        \<and> (known s (token_hash (fst (ts ! i))) \<or> token_hash (fst (ts ! i)) \<in> (\<lambda>k. token_hash (fst (ts ! k))) ` {..<i})
    | Inr e \<Rightarrow> je_token e = fst (ts ! i) \<and> signer_pubkey e = js_public_key (snd (ts ! i))
        \<and> \<not> known s (token_hash (fst (ts ! i))) \<and> token_hash (fst (ts ! i)) \<notin> (\<lambda>k. token_hash (fst (ts ! k))) ` {..<i})"
proof (induction ts arbitrary: s)
  case (Cons tg ts)
  obtain t g where tg: "tg = (t, g)" by (metis surj_pair)
  obtain r s' where a: "app t g s = (r, s')" by (metis surj_pair)
  obtain rs s'' where c: "consume_all app ts s' = (rs, s'')" by (metis surj_pair)
  have res: "fst (consume_all app (tg # ts) s) = r # rs" by (simp add: tg a c)
  have kn: "known s' h \<longleftrightarrow> h = token_hash t \<or> known s h" for h using known_after[of t g s h] a by simp
  have prior: "(\<lambda>k. token_hash (fst ((tg # ts) ! k))) ` {..<Suc i}
      = insert (token_hash t) ((\<lambda>k. token_hash (fst (ts ! k))) ` {..<i})" for i
    by (simp add: tg lessThan_Suc_eq_insert_0 image_image)
  have later: "case rs ! i of
      Inl x \<Rightarrow> x = DuplicateToken
        \<and> (known s' (token_hash (fst (ts ! i))) \<or> token_hash (fst (ts ! i)) \<in> (\<lambda>k. token_hash (fst (ts ! k))) ` {..<i})
    | Inr e \<Rightarrow> je_token e = fst (ts ! i) \<and> signer_pubkey e = js_public_key (snd (ts ! i))
        \<and> \<not> known s' (token_hash (fst (ts ! i))) \<and> token_hash (fst (ts ! i)) \<notin> (\<lambda>k. token_hash (fst (ts ! k))) ` {..<i}"
    if "i < length ts" for i using Cons.IH[of s'] c that by simp
  show ?case unfolding res
  proof (intro conjI allI impI)
    show "length (r # rs) = length (tg # ts)" using Cons.IH[of s'] c by simp
    fix i assume i: "i < length (tg # ts)"
    show "case (r # rs) ! i of
      Inl x \<Rightarrow> x = DuplicateToken \<and> (known s (token_hash (fst ((tg # ts) ! i)))
          \<or> token_hash (fst ((tg # ts) ! i)) \<in> (\<lambda>k. token_hash (fst ((tg # ts) ! k))) ` {..<i})
    | Inr e \<Rightarrow> je_token e = fst ((tg # ts) ! i) \<and> signer_pubkey e = js_public_key (snd ((tg # ts) ! i))
        \<and> \<not> known s (token_hash (fst ((tg # ts) ! i)))
        \<and> token_hash (fst ((tg # ts) ! i)) \<notin> (\<lambda>k. token_hash (fst ((tg # ts) ! k))) ` {..<i}"
    proof (cases i)
      case 0
      then show ?thesis using one_result[of s t g] a by (simp add: tg split: sum.splits)
    next
      case (Suc k)
      then have "k < length ts" using i by simp
      from later[OF this] show ?thesis unfolding Suc prior nth_Cons_Suc kn by (auto split: sum.splits)
    qed
  qed
qed simp

end

definition journal_wf :: "in_memory_journal \<Rightarrow> bool" where
  "journal_wf j \<longleftrightarrow> seen j = (\<lambda>e. token_hash (je_token e)) ` set (entries j)
     \<and> distinct (map (\<lambda>e. token_hash (je_token e)) (entries j))"

interpretation mem: persistent_journal "append_token h" tip_hash journal_len is_duplicate
  by unfold_locales (auto simp: append_token_def is_duplicate_def tip_hash_def journal_len_def Let_def)

lemma append_token_wf: "journal_wf j \<Longrightarrow> journal_wf (snd (append_token h t g j))"
  by (auto simp: journal_wf_def append_token_def is_duplicate_def Let_def)

lemma append_token_entries:
  "append_token h t g j = (Inr e, j') \<Longrightarrow> entries j' = entries j @ [e] \<and> prev_hash e = tip_hash j
     \<and> entry_hash e = compute_entry_hash h (tip_hash j) t \<and> je_token e = t
     \<and> je_signature e = js_sign g (entry_hash e) \<and> signer_pubkey e = js_public_key g"
  by (auto simp: append_token_def Let_def split: if_splits)

lemma append_token_refused: "append_token h t g j = (Inl x, j') \<Longrightarrow> j' = j"
  by (auto simp: append_token_def Let_def split: if_splits)

lemma consume_all_wf: "journal_wf j \<Longrightarrow> journal_wf (snd (consume_all (append_token h) ts j))"
proof (induction ts arbitrary: j)
  case (Cons tg ts)
  obtain t g where tg: "tg = (t, g)" by (metis surj_pair)
  have "journal_wf (snd (append_token h t g j))" by (rule append_token_wf[OF Cons.prems])
  from Cons.IH[OF this] show ?case by (simp add: tg case_prod_beta)
qed simp

definition accepted_entries :: "(journal_error + journal_entry) list \<Rightarrow> journal_entry list" where
  "accepted_entries rs = concat (map (case_sum (\<lambda>_. []) (\<lambda>e. [e])) rs)"

lemma consume_all_entries:
  "entries (snd (consume_all (append_token h) ts j))
     = entries j @ accepted_entries (fst (consume_all (append_token h) ts j))"
proof (induction ts arbitrary: j)
  case (Cons tg ts)
  obtain t g where tg: "tg = (t, g)" by (metis surj_pair)
  obtain r j' where a: "append_token h t g j = (r, j')" by (metis surj_pair)
  have "entries j' = entries j @ accepted_entries [r]"
    using append_token_entries[of h t g j _ j'] append_token_refused[of h t g j _ j'] a
    by (cases r) (auto simp: accepted_entries_def)
  then show ?case using Cons.IH[of j'] by (simp add: tg a case_prod_beta accepted_entries_def)
qed (simp add: accepted_entries_def)

lemma consume_all_fresh:
  assumes c: "consume_all (append_token h) ts InMemoryJournal_new = (rs, j)"
  shows "length rs = length ts" "entries j = accepted_entries rs"
    "distinct (map (\<lambda>e. token_hash (je_token e)) (entries j))"
    "i < length ts \<Longrightarrow> rs ! i = Inl DuplicateToken \<and> token_hash (fst (ts ! i)) \<in> (\<lambda>k. token_hash (fst (ts ! k))) ` {..<i}
       \<or> (\<exists>e. rs ! i = Inr e \<and> je_token e = fst (ts ! i)) \<and> token_hash (fst (ts ! i)) \<notin> (\<lambda>k. token_hash (fst (ts ! k))) ` {..<i}"
proof -
  note res = mem.consume_all_results[of h ts InMemoryJournal_new, unfolded c fst_conv]
  show "length rs = length ts" using res by blast
  show "entries j = accepted_entries rs"
    using consume_all_entries[of h ts InMemoryJournal_new] unfolding c by (simp add: InMemoryJournal_new_def)
  have "journal_wf InMemoryJournal_new" by (simp add: journal_wf_def InMemoryJournal_new_def)
  then have "journal_wf j" using consume_all_wf[of InMemoryJournal_new h ts] c by simp
  then show "distinct (map (\<lambda>e. token_hash (je_token e)) (entries j))" by (simp add: journal_wf_def)
  have k: "\<not> is_duplicate InMemoryJournal_new x" for x by (simp add: is_duplicate_def InMemoryJournal_new_def)
  assume i: "i < length ts"
  from conjunct2[OF res, rule_format, OF i]
  show "rs ! i = Inl DuplicateToken \<and> token_hash (fst (ts ! i)) \<in> (\<lambda>k. token_hash (fst (ts ! k))) ` {..<i}
       \<or> (\<exists>e. rs ! i = Inr e \<and> je_token e = fst (ts ! i)) \<and> token_hash (fst (ts ! i)) \<notin> (\<lambda>k. token_hash (fst (ts ! k))) ` {..<i}"
    by (cases "rs ! i") (simp_all add: k)
qed

text \<open>C16: a token is consumed at most once. Starting from the empty journal and whatever the order and the signers of the
attempts, an attempt is refused as a duplicate exactly when an earlier attempt carried the same token hash, and is
accepted otherwise; the journal holds exactly the accepted entries in order, with pairwise distinct token hashes.\<close>
theorem journal_consumes_once:
  assumes "consume_all (append_token h) ts InMemoryJournal_new = (rs, j)" "i < length ts"
  shows "(rs ! i = Inl DuplicateToken \<longleftrightarrow> token_hash (fst (ts ! i)) \<in> (\<lambda>k. token_hash (fst (ts ! k))) ` {..<i})
    \<and> ((\<exists>e. rs ! i = Inr e \<and> je_token e = fst (ts ! i))
         \<longleftrightarrow> token_hash (fst (ts ! i)) \<notin> (\<lambda>k. token_hash (fst (ts ! k))) ` {..<i})
    \<and> entries j = accepted_entries rs \<and> distinct (map (\<lambda>e. token_hash (je_token e)) (entries j))"
  using consume_all_fresh[OF assms(1)] assms(2) by fastforce

definition demo_token :: "u8 \<Rightarrow> consumed_token" where
  "demo_token b = \<lparr>token_hash = replicate 32 b, operator_fingerprint = replicate 8 1, consumed_at_tick = 5\<rparr>"

definition demo_ed :: "(bytes, bytes) ed25519" where
  "demo_ed = \<lparr>ed_sign = (\<lambda>sk m. sk @ m), ed_verifying_key = (\<lambda>sk. sk), ed_to_bytes = (\<lambda>vk. vk),
     ed_from_bytes = Some, ed_verify = (\<lambda>vk m sg. sg = vk @ m)\<rparr>"

definition demo_attempts :: "(consumed_token \<times> journal_signer) list" where
  "demo_attempts = map (\<lambda>b. (demo_token b, InMemoryJournalSigner demo_ed [9])) [1, 2, 1]"

theorem journal_consumes_once_witness:
  "fst (consume_all (append_token demo_hash) demo_attempts InMemoryJournal_new) ! 2 = Inl DuplicateToken"
proof -
  have "length demo_attempts = 3" by (simp add: demo_attempts_def)
  moreover have "token_hash (fst (demo_attempts ! 2)) \<in> (\<lambda>k. token_hash (fst (demo_attempts ! k))) ` {..<2}"
    by (rule image_eqI[of _ _ 0]) (simp_all add: demo_attempts_def)
  ultimately show ?thesis using journal_consumes_once[OF surjective_pairing, of 2 demo_attempts demo_hash] by simp
qed

section \<open>Verification of honest journals, evidence of tampering\<close>

lemma append_token_verifies:
  assumes E: "ed25519_ok E" and v: "verify_chain h E j = Inr ()"
  shows "verify_chain h E (snd (append_token h t (InMemoryJournalSigner E sk) j)) = Inr ()"
proof (cases "append_token h t (InMemoryJournalSigner E sk) j")
  case (Pair r j')
  show ?thesis
  proof (cases r)
    case (Inl x)
    then show ?thesis using Pair append_token_refused v by fastforce
  next
    case (Inr e)
    note e = append_token_entries[OF Pair[unfolded Inr]]
    have "entry_good h E (tip_hash j) e"
      using e E by (simp add: entry_good_def InMemoryJournalSigner_def ed25519_ok_def)
    then show ?thesis using Pair e v unfolding verify_chain_def by (simp add: verify_entries_snoc tip_hash_chain)
  qed
qed

lemma consume_all_verifies:
  "ed25519_ok E \<Longrightarrow> verify_chain h E j = Inr () \<Longrightarrow>
     verify_chain h E (snd (consume_all (append_token h) (map (\<lambda>(t, sk). (t, InMemoryJournalSigner E sk)) us) j)) = Inr ()"
proof (induction us arbitrary: j)
  case (Cons u us)
  obtain t sk where u: "u = (t, sk)" by (metis surj_pair)
  from Cons.IH[OF Cons.prems(1) append_token_verifies[OF Cons.prems]]
  show ?case by (simp add: u case_prod_beta)
qed simp

text \<open>An honest journal verifies. Whatever tokens are consumed under in-process keys, the journal passes the
self-consistency check, and the anchored check accepts exactly its own length, its own tip and, when every entry was
signed under it, the pinned key.\<close>
theorem journal_honest_verifies:
  assumes "ed25519_ok E"
    "consume_all (append_token h) (map (\<lambda>(t, sk). (t, InMemoryJournalSigner E sk)) us) InMemoryJournal_new = (rs, j)"
  shows "verify_chain h E j = Inr ()"
    "verify_chain_anchored h E j k tip n = Inr () \<longleftrightarrow>
       n = length (entries j) \<and> tip = tip_hash j \<and> (\<forall>e\<in>set (entries j). signer_pubkey e = k)"
proof -
  have "verify_chain h E InMemoryJournal_new = Inr ()" by (simp add: verify_chain_def InMemoryJournal_new_def)
  from consume_all_verifies[OF assms(1) this, of us] show v: "verify_chain h E j = Inr ()" using assms(2) by simp
  show "verify_chain_anchored h E j k tip n = Inr () \<longleftrightarrow>
       n = length (entries j) \<and> tip = tip_hash j \<and> (\<forall>e\<in>set (entries j). signer_pubkey e = k)"
    unfolding verify_anchored_ok v by auto
qed

lemma demo_ed_ok: "ed25519_ok demo_ed" by (simp add: ed25519_ok_def demo_ed_def)

theorem journal_honest_verifies_witness:
  "verify_chain demo_hash demo_ed (snd (consume_all (append_token demo_hash)
     (map (\<lambda>(t, sk). (t, InMemoryJournalSigner demo_ed sk)) [(demo_token 1, [9]), (demo_token 2, [8])]) InMemoryJournal_new)) = Inr ()"
  by (rule journal_honest_verifies(1)[OF demo_ed_ok surjective_pairing])

text \<open>What the hash of an entry has to cover, field by field.\<close>
definition entry_payload :: "journal_entry \<Rightarrow> bytes" where
  "entry_payload e = prev_hash e @ token_hash (je_token e) @ operator_fingerprint (je_token e) @ be_bytes 8 (consumed_at_tick (je_token e))"

text \<open>Two entries carry different payloads that the chain hash maps to the same digest.\<close>
definition entries_collide :: "blake3 \<Rightarrow> journal_entry \<Rightarrow> journal_entry \<Rightarrow> bool" where
  "entries_collide h e f \<longleftrightarrow> entry_payload e \<noteq> entry_payload f
     \<and> derive_key h JOURNAL_CHAIN_DOMAIN (entry_payload e) = derive_key h JOURNAL_CHAIN_DOMAIN (entry_payload f)"

lemma entry_good_hash:
  "entry_good h E prev e \<Longrightarrow> prev_hash e = prev \<and> entry_hash e = derive_key h JOURNAL_CHAIN_DOMAIN (entry_payload e)"
  by (simp add: entry_good_def entry_payload_def compute_entry_hash_def)

lemma entry_payload_inject:
  assumes "entry_typed e" "entry_typed f"
  shows "entry_payload e = entry_payload f \<longleftrightarrow> prev_hash e = prev_hash f \<and> je_token e = je_token f"
  using assms by (auto simp: entry_payload_def entry_typed_def token_typed_def be_bytes_inject intro: consumed_token.equality)

text \<open>Two chains of the same length with the same tip carry the same payloads, or two entries at one place collide.\<close>
lemma chains_agree:
  assumes "length es = length fs"
    and "verify_entries h E prev 0 es = Inr ()" "verify_entries h E prev 0 fs = Inr ()"
    and "\<forall>e\<in>set es. entry_typed e" "\<forall>f\<in>set fs. entry_typed f" "chain_tip prev es = chain_tip prev fs"
  shows "map (\<lambda>e. (je_token e, prev_hash e, entry_hash e)) es = map (\<lambda>f. (je_token f, prev_hash f, entry_hash f)) fs
    \<or> (\<exists>i<length es. entries_collide h (es ! i) (fs ! i))"
  using assms
proof (induction es fs rule: rev_induct2)
  case (4 e es f fs)
  have g: "entry_good h E (chain_tip prev es) e" "entry_good h E (chain_tip prev fs) f"
    using 4(3,4) unfolding verify_entries_snoc by simp_all
  have l: "length es = length fs" using 4(2) by simp
  have eq: "entry_hash e = entry_hash f" using 4(7) by simp
  show ?case
  proof (cases "entry_payload e = entry_payload f")
    case False
    then have "entries_collide h e f" using entry_good_hash[OF g(1)] entry_good_hash[OF g(2)] eq by (simp add: entries_collide_def)
    then show ?thesis using l by (intro disjI2 exI[of _ "length es"]) (simp add: nth_append)
  next
    case True
    then have tok: "prev_hash e = prev_hash f" "je_token e = je_token f"
      using entry_payload_inject[of e f] 4(5,6) by simp_all
    have "map (\<lambda>e. (je_token e, prev_hash e, entry_hash e)) es = map (\<lambda>f. (je_token f, prev_hash f, entry_hash f)) fs
      \<or> (\<exists>i<length es. entries_collide h (es ! i) (fs ! i))"
      using 4(2-6) entry_good_hash[OF g(1)] entry_good_hash[OF g(2)] tok(1) unfolding verify_entries_snoc by (intro 4(1)) simp_all
    then show ?thesis
    proof
      assume "\<exists>i<length es. entries_collide h (es ! i) (fs ! i)"
      then obtain i where "i < length es" "entries_collide h (es ! i) (fs ! i)" by blast
      then show ?thesis using l by (intro disjI2 exI[of _ i]) (simp add: nth_append)
    qed (use tok eq in simp)
  qed
qed simp_all

text \<open>C25: tampering is evident. Any two journals whatsoever, of entries of the right widths, that pass the anchored check
against the same pinned key, tip and length hold the same tokens and hashes in the same order, unless at some place the two
entries differ in the 80 bytes of previous hash, token hash, fingerprint and tick and the chain hash maps these two inputs to
one digest.\<close>
theorem journal_tamper_evident:
  assumes "verify_chain_anchored h E j k tip n = Inr ()" "verify_chain_anchored h E j' k tip n = Inr ()"
    and "\<forall>e\<in>set (entries j). entry_typed e" "\<forall>e\<in>set (entries j'). entry_typed e"
  shows "map (\<lambda>e. (je_token e, prev_hash e, entry_hash e, signer_pubkey e)) (entries j)
       = map (\<lambda>e. (je_token e, prev_hash e, entry_hash e, signer_pubkey e)) (entries j')
    \<or> (\<exists>i<n. entries_collide h (entries j ! i) (entries j' ! i))"
proof -
  note a = assms(1,2)[unfolded verify_anchored_ok tip_hash_chain verify_chain_def]
  have "map (\<lambda>e. (je_token e, prev_hash e, entry_hash e)) (entries j)
      = map (\<lambda>e. (je_token e, prev_hash e, entry_hash e)) (entries j')
    \<or> (\<exists>i<length (entries j). entries_collide h (entries j ! i) (entries j' ! i))"
    using a assms(3,4) by (intro chains_agree[of _ _ h E GENESIS_PREV_HASH]) simp_all
  moreover have "map signer_pubkey (entries j) = map signer_pubkey (entries j')"
    using a by (intro nth_equalityI) simp_all
  ultimately show ?thesis using a by (auto simp: list_eq_iff_nth_eq)
qed

text \<open>A chain hash that keeps the first eight bytes of each hash, the fingerprint and the tick, a journal of two tokens, the same journal
reached with a refused attempt in between, and the journal with the tick of the last entry altered and signed anew.\<close>
definition demo_chain_hash :: blake3 where
  "demo_chain_hash = demo_hash\<lparr>derive_key := \<lambda>_ k. take 8 k @ take 8 (drop 32 k) @ drop 64 k\<rparr>"

definition demo_journal :: "u8 list \<Rightarrow> in_memory_journal" where
  "demo_journal bs = snd (consume_all (append_token demo_chain_hash)
     (map (\<lambda>b. (demo_token b, InMemoryJournalSigner demo_ed [9])) bs) InMemoryJournal_new)"

definition demo_tampered :: in_memory_journal where
  "demo_tampered = snd (append_token demo_chain_hash (demo_token 2\<lparr>consumed_at_tick := 6\<rparr>) (InMemoryJournalSigner demo_ed [9]) (demo_journal [1]))"

lemmas demo_journal_simps = demo_journal_def demo_tampered_def append_token_def is_duplicate_def tip_hash_def
  InMemoryJournal_new_def InMemoryJournalSigner_def demo_ed_def demo_token_def demo_chain_hash_def compute_entry_hash_def
  GENESIS_PREV_HASH_def Let_def

lemma demo_entries:
  "entries (demo_journal [1, 1, 2]) = entries (demo_journal [1, 2])"
  "entries (demo_journal [1, 2]) =
     [\<lparr>je_token = demo_token 1, prev_hash = replicate 32 0, entry_hash = replicate 8 0 @ replicate 8 1 @ replicate 8 1 @ be_bytes 8 (5 :: u64),
       je_signature = [9] @ replicate 8 0 @ replicate 8 1 @ replicate 8 1 @ be_bytes 8 (5 :: u64), signer_pubkey = [9]\<rparr>,
      \<lparr>je_token = demo_token 2, prev_hash = replicate 8 0 @ replicate 8 1 @ replicate 8 1 @ be_bytes 8 (5 :: u64),
       entry_hash = replicate 8 0 @ replicate 8 2 @ replicate 8 1 @ be_bytes 8 (5 :: u64),
       je_signature = [9] @ replicate 8 0 @ replicate 8 2 @ replicate 8 1 @ be_bytes 8 (5 :: u64), signer_pubkey = [9]\<rparr>]"
  "entries demo_tampered =
     [\<lparr>je_token = demo_token 1, prev_hash = replicate 32 0, entry_hash = replicate 8 0 @ replicate 8 1 @ replicate 8 1 @ be_bytes 8 (5 :: u64),
       je_signature = [9] @ replicate 8 0 @ replicate 8 1 @ replicate 8 1 @ be_bytes 8 (5 :: u64), signer_pubkey = [9]\<rparr>,
      \<lparr>je_token = demo_token 2\<lparr>consumed_at_tick := 6\<rparr>, prev_hash = replicate 8 0 @ replicate 8 1 @ replicate 8 1 @ be_bytes 8 (5 :: u64),
       entry_hash = replicate 8 0 @ replicate 8 2 @ replicate 8 1 @ be_bytes 8 (6 :: u64),
       je_signature = [9] @ replicate 8 0 @ replicate 8 2 @ replicate 8 1 @ be_bytes 8 (6 :: u64), signer_pubkey = [9]\<rparr>]"
  by (simp_all add: demo_journal_simps be_bytes_def)

theorem journal_tamper_evident_witness:
  "map (\<lambda>e. (je_token e, prev_hash e, entry_hash e, signer_pubkey e)) (entries (demo_journal [1, 2]))
     = map (\<lambda>e. (je_token e, prev_hash e, entry_hash e, signer_pubkey e)) (entries (demo_journal [1, 1, 2]))
   \<and> verify_chain_anchored demo_chain_hash demo_ed demo_tampered [9] (tip_hash (demo_journal [1, 2])) 2 \<noteq> Inr ()"
proof -
  let ?j = "demo_journal [1, 2]" and ?j' = "demo_journal [1, 1, 2]"
  have typed: "\<forall>e\<in>set (entries ?j). entry_typed e" "\<forall>e\<in>set (entries ?j'). entry_typed e" "\<forall>e\<in>set (entries demo_tampered). entry_typed e"
    unfolding demo_entries by (simp_all add: entry_typed_def token_typed_def demo_token_def)
  have tip: "tip_hash ?j' = tip_hash ?j" by (simp add: tip_hash_def demo_entries(1))
  have ok: "verify_chain_anchored demo_chain_hash demo_ed ?j [9] (tip_hash ?j) 2 = Inr ()"
    unfolding verify_anchored_ok verify_chain_def tip_hash_def demo_entries(2)
    by (simp add: demo_chain_hash_def demo_ed_def demo_token_def compute_entry_hash_def GENESIS_PREV_HASH_def)
  then have ok': "verify_chain_anchored demo_chain_hash demo_ed ?j' [9] (tip_hash ?j) 2 = Inr ()"
    by (simp add: verify_anchored_ok verify_chain_def demo_entries(1) tip)
  have same: "\<not> (\<exists>i<2. entries_collide demo_chain_hash (entries ?j ! i) (entries ?j' ! i))"
    by (simp add: demo_entries(1) entries_collide_def)
  have apart: "\<not> (\<exists>i<2. entries_collide demo_chain_hash (entries ?j ! i) (entries demo_tampered ! i))"
  proof -
    have "entries ?j ! 0 = entries demo_tampered ! 0" by (simp add: demo_entries)
    moreover have "drop 24 (derive_key demo_chain_hash JOURNAL_CHAIN_DOMAIN (entry_payload (entries ?j ! 1))) = be_bytes 8 (5 :: u64)"
      "drop 24 (derive_key demo_chain_hash JOURNAL_CHAIN_DOMAIN (entry_payload (entries demo_tampered ! 1))) = be_bytes 8 (6 :: u64)"
      by (simp_all add: demo_entries entry_payload_def demo_token_def demo_chain_hash_def)
    moreover have "be_bytes 8 (5 :: u64) \<noteq> be_bytes 8 (6 :: u64)" by (simp add: be_bytes_inject)
    ultimately show ?thesis unfolding less_2_cases_iff entries_collide_def One_nat_def by metis
  qed
  have other: "entries demo_tampered \<noteq> [] \<and> je_token (entries ?j ! 1) \<noteq> je_token (entries demo_tampered ! 1)"
    by (simp add: demo_entries(2,3) demo_token_def)
  from journal_tamper_evident[OF ok ok' typed(1,2)] same
  have "map (\<lambda>e. (je_token e, prev_hash e, entry_hash e, signer_pubkey e)) (entries ?j)
       = map (\<lambda>e. (je_token e, prev_hash e, entry_hash e, signer_pubkey e)) (entries ?j')" by blast
  moreover have "verify_chain_anchored demo_chain_hash demo_ed demo_tampered [9] (tip_hash ?j) 2 \<noteq> Inr ()"
  proof
    assume "verify_chain_anchored demo_chain_hash demo_ed demo_tampered [9] (tip_hash ?j) 2 = Inr ()"
    from journal_tamper_evident[OF ok this typed(1,3)] apart
    have "map (\<lambda>e. (je_token e, prev_hash e, entry_hash e, signer_pubkey e)) (entries ?j)
       = map (\<lambda>e. (je_token e, prev_hash e, entry_hash e, signer_pubkey e)) (entries demo_tampered)" by blast
    then have "map fst (map (\<lambda>e. (je_token e, prev_hash e, entry_hash e, signer_pubkey e)) (entries ?j))
       = map fst (map (\<lambda>e. (je_token e, prev_hash e, entry_hash e, signer_pubkey e)) (entries demo_tampered))" by (rule arg_cong)
    then show False using other by (simp add: demo_entries(2,3))
  qed
  ultimately show ?thesis ..
qed

end
