(* ===== verification/Crypto.thy ===== *)
theory Crypto
  imports Pii Component
begin

text \<open>The AEAD coordinator of \<^verbatim>\<open>arkhe-forge-platform/src/crypto.rs\<close>: keys with their message counter, the
envelope, encryption and decryption for the three ciphers, and the rotation of a slice of envelopes to
a new key.  The AEAD crates, the OS random source and postcard are parameters.  The wiping of buffers has
no functional content.\<close>

section \<open>Keys\<close>

record dek_config =
  dc_replica_id :: u32

definition DekConfig_default :: dek_config where
  "DekConfig_default = \<lparr>dc_replica_id = 0\<rparr>"

datatype dek_lifecycle = Ephemeral | LongLived

record dek =
  material :: bytes
  counter :: u64
  replica_id :: u32
  lifecycle :: dek_lifecycle

definition Dek_with_config :: "bytes \<Rightarrow> dek_config \<Rightarrow> dek" where
  "Dek_with_config m config = \<lparr>material = m, counter = 0, replica_id = dc_replica_id config, lifecycle = Ephemeral\<rparr>"

definition Dek_from_bytes :: "bytes \<Rightarrow> dek" where
  "Dek_from_bytes m = Dek_with_config m DekConfig_default"

definition Dek_from_unwrapped :: "bytes \<Rightarrow> dek_config \<Rightarrow> dek" where
  "Dek_from_unwrapped m config = \<lparr>material = m, counter = 0, replica_id = dc_replica_id config, lifecycle = LongLived\<rparr>"

definition Dek_try_from_slice :: "bytes \<Rightarrow> pii_error + dek" where
  "Dek_try_from_slice bs =
     (if length bs \<noteq> 32 then Inl InvalidKeyLength
      else Inr \<lparr>material = bs, counter = 0, replica_id = 0, lifecycle = Ephemeral\<rparr>)"

definition as_bytes :: "dek \<Rightarrow> bytes" where
  "as_bytes d = material d"

definition advance_counter :: "(dek, pii_error, u64) act" where
  "advance_counter = (\<lambda>d.
     let n = counter d in
     if n = - 1 then (Inl DekExhausted, d) else (Inr n, d\<lparr>counter := n + 1\<rparr>))"

definition aes_gcm_nonce_from_counter :: "u32 \<Rightarrow> u64 \<Rightarrow> bytes" where
  "aes_gcm_nonce_from_counter r n = be_bytes 4 r @ be_bytes 8 n"

section \<open>Envelopes\<close>

datatype nonce_bytes = X24 (nonce_slice: bytes) | Short12 (nonce_slice: bytes)

fun expected_len :: "aead_kind \<Rightarrow> nat" where
  "expected_len XChaCha20Poly1305 = 24"
| "expected_len Aes256Gcm = 12"
| "expected_len Aes256GcmSiv = 12"

text \<open>The phantom parameter of the Rust type is the marker passed to the operations; the envelope is the
data that reaches the wire, so decoding one yields whatever \<^verbatim>\<open>pii_code\<close> the bytes hold.\<close>
record encrypted_pii =
  ep_dek_id :: dek_id
  ep_pii_code :: u16
  ep_aead_kind :: aead_kind
  ep_nonce :: nonce_bytes
  ep_ciphertext :: bytes

definition EncryptedPii_new :: "pii_marker \<Rightarrow> dek_id \<Rightarrow> aead_kind \<Rightarrow> nonce_bytes \<Rightarrow> bytes \<Rightarrow> encrypted_pii" where
  "EncryptedPii_new T d kind n c =
     \<lparr>ep_dek_id = d, ep_pii_code = PII_CODE T, ep_aead_kind = kind, ep_nonce = n, ep_ciphertext = c\<rparr>"

definition EncryptedPii_serialize :: "encrypted_pii codec \<Rightarrow> encrypted_pii \<Rightarrow> bytes option" where
  "EncryptedPii_serialize wire e = cd_enc wire e"

definition EncryptedPii_deserialize :: "encrypted_pii codec \<Rightarrow> bytes \<Rightarrow> encrypted_pii option" where
  "EncryptedPii_deserialize wire bs = cd_dec wire bs"

section \<open>The coordinator\<close>

text \<open>What the build provides: which cipher features are compiled in, the nonce source (it may draw on a state),
the AEAD primitives over key, nonce, additional data and message, and the postcard codec of the marker
types, each a newtype over a byte vector.\<close>
record 'n crypto_env =
  tier_1_kms :: bool
  tier_2_multi_kms :: bool
  fill :: "nat \<Rightarrow> 'n \<Rightarrow> bytes \<times> 'n"
  aead_encrypt :: "aead_kind \<Rightarrow> bytes \<Rightarrow> bytes \<Rightarrow> bytes \<Rightarrow> bytes \<Rightarrow> bytes option"
  aead_decrypt :: "aead_kind \<Rightarrow> bytes \<Rightarrow> bytes \<Rightarrow> bytes \<Rightarrow> bytes \<Rightarrow> bytes option"
  pii_codec :: "bytes codec"

record 'n coordinator =
  manifest_cipher :: aead_kind
  nonce_source :: 'n

definition CryptoCoordinator_new :: "aead_kind \<Rightarrow> 'n \<Rightarrow> 'n coordinator" where
  "CryptoCoordinator_new c n = \<lparr>manifest_cipher = c, nonce_source = n\<rparr>"

text \<open>The OS source: the random generator when the cipher crate is compiled in, zeroes otherwise.\<close>
definition OsNonceSource_fill :: "bool \<Rightarrow> (nat \<Rightarrow> 'n \<Rightarrow> bytes \<times> 'n) \<Rightarrow> nat \<Rightarrow> 'n \<Rightarrow> bytes \<times> 'n" where
  "OsNonceSource_fill tier1 rng len s = (if tier1 then rng len s else (replicate len 0, s))"

text \<open>The state an encryption works on: the coordinator's nonce source and the key's counter.\<close>
type_synonym 'n crypt = "'n coordinator \<times> dek"

definition encrypt_xchacha ::
  "'n crypto_env \<Rightarrow> bytes \<Rightarrow> bytes \<Rightarrow> ('n crypt, pii_error, nonce_bytes \<times> bytes) act" where
  "encrypt_xchacha E aad plaintext = (\<lambda>(c, d).
     if \<not> tier_1_kms E then (Inl TierTooLow, (c, d))
     else
       let (nonce, src) = fill E 24 (nonce_source c); c' = c\<lparr>nonce_source := src\<rparr> in
       case aead_encrypt E XChaCha20Poly1305 (as_bytes d) nonce aad plaintext of
         None \<Rightarrow> (Inl EncryptFailed, (c', d))
       | Some ct \<Rightarrow> (Inr (X24 nonce, ct), (c', d)))"

text \<open>The counter nonce and the primitive, the common part of the two AES paths.\<close>
definition encrypt_counter ::
  "'n crypto_env \<Rightarrow> aead_kind \<Rightarrow> bytes \<Rightarrow> bytes \<Rightarrow> ('n crypt, pii_error, nonce_bytes \<times> bytes) act" where
  "encrypt_counter E kind aad plaintext = (\<lambda>(c, d).
     case advance_counter d of
       (Inl e, d') \<Rightarrow> (Inl e, (c, d'))
     | (Inr n, d') \<Rightarrow>
         let nonce = aes_gcm_nonce_from_counter (replica_id d') n in
         case aead_encrypt E kind (as_bytes d') nonce aad plaintext of
           None \<Rightarrow> (Inl EncryptFailed, (c, d'))
         | Some ct \<Rightarrow> (Inr (Short12 nonce, ct), (c, d')))"

definition encrypt_aes_gcm ::
  "'n crypto_env \<Rightarrow> bytes \<Rightarrow> bytes \<Rightarrow> ('n crypt, pii_error, nonce_bytes \<times> bytes) act" where
  "encrypt_aes_gcm E aad plaintext = (\<lambda>(c, d).
     if \<not> tier_2_multi_kms E then (Inl UnsupportedAead, (c, d))
     else if lifecycle d = LongLived then (Inl NonceReuseRisk, (c, d))
     else encrypt_counter E Aes256Gcm aad plaintext (c, d))"

definition encrypt_aes_gcm_siv ::
  "'n crypto_env \<Rightarrow> bytes \<Rightarrow> bytes \<Rightarrow> ('n crypt, pii_error, nonce_bytes \<times> bytes) act" where
  "encrypt_aes_gcm_siv E aad plaintext = (\<lambda>(c, d).
     if \<not> tier_2_multi_kms E then (Inl UnsupportedAead, (c, d))
     else encrypt_counter E Aes256GcmSiv aad plaintext (c, d))"

definition encrypt_raw ::
  "'n crypto_env \<Rightarrow> bytes \<Rightarrow> bytes \<Rightarrow> ('n crypt, pii_error, nonce_bytes \<times> bytes) act" where
  "encrypt_raw E aad plaintext = (\<lambda>(c, d).
     case manifest_cipher c of
       XChaCha20Poly1305 \<Rightarrow> encrypt_xchacha E aad plaintext (c, d)
     | Aes256Gcm \<Rightarrow> encrypt_aes_gcm E aad plaintext (c, d)
     | Aes256GcmSiv \<Rightarrow> encrypt_aes_gcm_siv E aad plaintext (c, d))"

definition decrypt_xchacha :: "'n crypto_env \<Rightarrow> dek \<Rightarrow> nonce_bytes \<Rightarrow> bytes \<Rightarrow> bytes \<Rightarrow> pii_error + bytes" where
  "decrypt_xchacha E d nonce aad ct =
     (if \<not> tier_1_kms E then Inl TierTooLow
      else case nonce of
        Short12 _ \<Rightarrow> Inl AadMismatch
      | X24 b \<Rightarrow> ok_or AadMismatch (aead_decrypt E XChaCha20Poly1305 (as_bytes d) b aad ct))"

definition decrypt_short ::
  "'n crypto_env \<Rightarrow> aead_kind \<Rightarrow> dek \<Rightarrow> nonce_bytes \<Rightarrow> bytes \<Rightarrow> bytes \<Rightarrow> pii_error + bytes" where
  "decrypt_short E kind d nonce aad ct =
     (if \<not> tier_2_multi_kms E then Inl UnsupportedAead
      else case nonce of
        X24 _ \<Rightarrow> Inl AadMismatch
      | Short12 b \<Rightarrow> ok_or AadMismatch (aead_decrypt E kind (as_bytes d) b aad ct))"

definition decrypt_aes_gcm where "decrypt_aes_gcm E = decrypt_short E Aes256Gcm"
definition decrypt_aes_gcm_siv where "decrypt_aes_gcm_siv E = decrypt_short E Aes256GcmSiv"

definition decrypt_raw ::
  "'n crypto_env \<Rightarrow> dek \<Rightarrow> aead_kind \<Rightarrow> nonce_bytes \<Rightarrow> bytes \<Rightarrow> bytes \<Rightarrow> pii_error + bytes" where
  "decrypt_raw E d kind nonce aad ct =
     (case kind of
        XChaCha20Poly1305 \<Rightarrow> decrypt_xchacha E d nonce aad ct
      | Aes256Gcm \<Rightarrow> decrypt_aes_gcm E d nonce aad ct
      | Aes256GcmSiv \<Rightarrow> decrypt_aes_gcm_siv E d nonce aad ct)"

definition encrypt ::
  "'n crypto_env \<Rightarrow> pii_marker \<Rightarrow> bytes \<Rightarrow> dek_id \<Rightarrow> ('n crypt, pii_error, encrypted_pii) act" where
  "encrypt E T plaintext dek_id = (\<lambda>(c, d).
     let aad = compute_aad dek_id (PII_CODE T) (manifest_cipher c) in
     case cd_enc (pii_codec E) plaintext of
       None \<Rightarrow> (Inl EncryptFailed, (c, d))
     | Some pt_bytes \<Rightarrow>
         (case encrypt_raw E aad pt_bytes (c, d) of
            (Inl e, s) \<Rightarrow> (Inl e, s)
          | (Inr (nonce, ct), s) \<Rightarrow> (Inr (EncryptedPii_new T dek_id (manifest_cipher c) nonce ct), s)))"

definition decrypt :: "'n crypto_env \<Rightarrow> 'n coordinator \<Rightarrow> pii_marker \<Rightarrow> encrypted_pii \<Rightarrow> dek \<Rightarrow> pii_error + bytes" where
  "decrypt E c T envelope d =
     (if ep_pii_code envelope \<noteq> PII_CODE T then Inl TypeMismatch
      else if ep_aead_kind envelope \<noteq> manifest_cipher c then Inl CipherDowngrade
      else
        let aad = compute_aad (ep_dek_id envelope) (ep_pii_code envelope) (ep_aead_kind envelope) in
        case decrypt_raw E d (ep_aead_kind envelope) (ep_nonce envelope) aad (ep_ciphertext envelope) of
          Inl e \<Rightarrow> Inl e
        | Inr pt \<Rightarrow> ok_or DecodeFailed (cd_dec (pii_codec E) pt))"

text \<open>The tolerant variant of the rotation: no marker check, no downgrade check.\<close>
definition decrypt_raw_under :: "'n crypto_env \<Rightarrow> dek \<Rightarrow> encrypted_pii \<Rightarrow> pii_error + bytes" where
  "decrypt_raw_under E d envelope =
     (let aad = compute_aad (ep_dek_id envelope) (ep_pii_code envelope) (ep_aead_kind envelope) in
      decrypt_raw E d (ep_aead_kind envelope) (ep_nonce envelope) aad (ep_ciphertext envelope))"

section \<open>Rotation\<close>

text \<open>The index loop, on the slice as it stands; the flag of the result is the error that stops it.\<close>
record 'n rotation =
  ro_slice :: "encrypted_pii list"
  ro_counter :: dek_message_counter
  ro_crypt :: "'n crypt"

definition rotate_step ::
  "'n crypto_env \<Rightarrow> pii_marker \<Rightarrow> dek \<Rightarrow> dek_id \<Rightarrow> bytes \<Rightarrow> nat \<Rightarrow> ('n rotation, pii_error, unit) act" where
  "rotate_step E T old_dek new_dek_id aad idx = (\<lambda>r.
     case decrypt_raw_under E old_dek (ro_slice r ! idx) of
       Inl e \<Rightarrow> (Inl e, r)
     | Inr plaintext \<Rightarrow>
         (case encrypt_raw E aad plaintext (ro_crypt r) of
            (Inl e, s) \<Rightarrow> (Inl e, r\<lparr>ro_crypt := s\<rparr>)
          | (Inr (nonce, new_ct), s) \<Rightarrow>
              (Inr (), r\<lparr>ro_slice := (ro_slice r)[idx := EncryptedPii_new T new_dek_id (manifest_cipher (fst s)) nonce new_ct],
                         ro_counter := record_message (ro_counter r), ro_crypt := s\<rparr>)))"

fun rotate_loop ::
  "'n crypto_env \<Rightarrow> pii_marker \<Rightarrow> dek \<Rightarrow> dek_id \<Rightarrow> bytes \<Rightarrow> nat list \<Rightarrow> ('n rotation, pii_error, unit) act" where
  "rotate_loop E T old_dek new_dek_id aad [] = ret ()"
| "rotate_loop E T old_dek new_dek_id aad (idx # rest) =
     bnd (rotate_step E T old_dek new_dek_id aad idx) (\<lambda>_. rotate_loop E T old_dek new_dek_id aad rest)"

definition rotate_dek ::
  "'n crypto_env \<Rightarrow> pii_marker \<Rightarrow> dek \<Rightarrow> dek_id \<Rightarrow> ('n rotation, pii_error, unit) act" where
  "rotate_dek E T old_dek new_dek_id = (\<lambda>r.
     let originals = ro_slice r; snapshot = ro_counter r;
         aad = compute_aad new_dek_id (PII_CODE T) (manifest_cipher (fst (ro_crypt r))) in
     case rotate_loop E T old_dek new_dek_id aad [0..<length (ro_slice r)] r of
       (Inl e, r') \<Rightarrow> (Inl e, r'\<lparr>ro_slice := originals, ro_counter := snapshot\<rparr>)
     | (Inr _, r') \<Rightarrow> (Inr (), r'))"

definition rotation_advice :: "dek_message_counter \<Rightarrow> rotation_trigger" where
  "rotation_advice c = rotation_trigger c"

section \<open>What an encryption leaves fixed, and that it can be undone\<close>

text \<open>The documented contract of an AEAD: what was sealed opens under the same key, nonce and additional data.\<close>
definition aead_ok :: "'n crypto_env \<Rightarrow> bool" where
  "aead_ok E \<longleftrightarrow> (\<forall>k key n aad m c. aead_encrypt E k key n aad m = Some c \<longrightarrow> aead_decrypt E k key n aad c = Some m)"

lemma aead_okD: "aead_ok E \<Longrightarrow> aead_encrypt E k key n aad m = Some c \<Longrightarrow> aead_decrypt E k key n aad c = Some m"
  by (simp add: aead_ok_def)

lemma advance_counter_cases:
  "advance_counter d = (r, d') \<longleftrightarrow>
     (if counter d = - 1 then r = Inl DekExhausted \<and> d' = d else r = Inr (counter d) \<and> d' = d\<lparr>counter := counter d + 1\<rparr>)"
  by (auto simp: advance_counter_def Let_def)

definition same_key :: "dek \<Rightarrow> dek \<Rightarrow> bool" where
  "same_key d d' \<longleftrightarrow> material d' = material d \<and> replica_id d' = replica_id d \<and> lifecycle d' = lifecycle d"

lemma same_key_refl [simp]: "same_key d d" by (simp add: same_key_def)

lemma same_key_trans: "same_key d d' \<Longrightarrow> same_key d' d'' \<Longrightarrow> same_key d d''" by (simp add: same_key_def)

text \<open>What the counter-based encryptions do to the key: the counter is consumed exactly when it was not exhausted.\<close>
lemma encrypt_counter_effect:
  "encrypt_counter E kind aad pt (c, d) = (r, (c', d')) \<Longrightarrow> c' = c \<and> same_key d d' \<and>
     (case r of
        Inr (n, ct) \<Rightarrow> counter d \<noteq> - 1 \<and> counter d' = counter d + 1
          \<and> n = Short12 (aes_gcm_nonce_from_counter (replica_id d) (counter d))
          \<and> aead_encrypt E kind (material d) (nonce_slice n) aad pt = Some ct
      | Inl e \<Rightarrow> e = DekExhausted \<and> d' = d \<and> counter d = - 1
          \<or> e = EncryptFailed \<and> counter d \<noteq> - 1 \<and> counter d' = counter d + 1)"
  by (auto simp: encrypt_counter_def advance_counter_def same_key_def as_bytes_def Let_def
      split: option.splits if_splits)

lemma encrypt_xchacha_effect:
  "encrypt_xchacha E aad pt (c, d) = (r, (c', d')) \<Longrightarrow> d' = d \<and> manifest_cipher c' = manifest_cipher c \<and>
     (case r of
        Inr (n, ct) \<Rightarrow> tier_1_kms E \<and> n = X24 (fst (fill E 24 (nonce_source c)))
          \<and> aead_encrypt E XChaCha20Poly1305 (material d) (nonce_slice n) aad pt = Some ct
      | Inl e \<Rightarrow> e = TierTooLow \<or> e = EncryptFailed)"
  by (auto simp: encrypt_xchacha_def as_bytes_def Let_def case_prod_beta split: option.splits if_splits)

lemma encrypt_raw_effect:
  assumes "encrypt_raw E aad pt (c, d) = (r, (c', d'))"
  shows "manifest_cipher c' = manifest_cipher c" "same_key d d'" "counter d \<le> counter d'"
    "r = Inr (n, ct) \<Longrightarrow> aead_encrypt E (manifest_cipher c) (material d) (nonce_slice n) aad pt = Some ct"
    "r = Inr (n, ct) \<Longrightarrow> (if manifest_cipher c = XChaCha20Poly1305 then tier_1_kms E \<and> (\<exists>b. n = X24 b)
       else tier_2_multi_kms E \<and> n = Short12 (aes_gcm_nonce_from_counter (replica_id d) (counter d))
         \<and> counter d < counter d' \<and> \<not> (manifest_cipher c = Aes256Gcm \<and> lifecycle d = LongLived))"
proof -
  have lt: "k < k + 1" if "k \<noteq> - 1" for k :: u64
  proof -
    have "checked_add k 1 = Some (k + 1)" using that by (metis checked_add_1_None checked_add_Some option.exhaust)
    then have "unat (k + 1) = unat k + 1" by (simp add: unat_checked_add)
    then show ?thesis by (simp add: word_less_nat_alt)
  qed
  note facts = assms[unfolded encrypt_raw_def] encrypt_xchacha_effect[of E aad pt c d r c' d']
    encrypt_counter_effect[of E _ aad pt c d r c' d']
  have "manifest_cipher c' = manifest_cipher c \<and> same_key d d' \<and> counter d \<le> counter d'
      \<and> (r = Inr (n, ct) \<longrightarrow> aead_encrypt E (manifest_cipher c) (material d) (nonce_slice n) aad pt = Some ct
        \<and> (if manifest_cipher c = XChaCha20Poly1305 then tier_1_kms E \<and> (\<exists>b. n = X24 b)
       else tier_2_multi_kms E \<and> n = Short12 (aes_gcm_nonce_from_counter (replica_id d) (counter d))
         \<and> counter d < counter d' \<and> \<not> (manifest_cipher c = Aes256Gcm \<and> lifecycle d = LongLived)))"
  proof (cases "manifest_cipher c")
    case XChaCha20Poly1305
    then show ?thesis using facts(1,2) by (auto split: sum.splits)
  next
    case Aes256Gcm
    then show ?thesis using facts(1) facts(3)[of Aes256Gcm] lt[of "counter d"]
      by (auto simp: encrypt_aes_gcm_def split: if_splits sum.splits)
  next
    case Aes256GcmSiv
    then show ?thesis using facts(1) facts(3)[of Aes256GcmSiv] lt[of "counter d"]
      by (auto simp: encrypt_aes_gcm_siv_def split: if_splits sum.splits)
  qed
  then show "manifest_cipher c' = manifest_cipher c" "same_key d d'" "counter d \<le> counter d'"
    "r = Inr (n, ct) \<Longrightarrow> aead_encrypt E (manifest_cipher c) (material d) (nonce_slice n) aad pt = Some ct"
    "r = Inr (n, ct) \<Longrightarrow> (if manifest_cipher c = XChaCha20Poly1305 then tier_1_kms E \<and> (\<exists>b. n = X24 b)
       else tier_2_multi_kms E \<and> n = Short12 (aes_gcm_nonce_from_counter (replica_id d) (counter d))
         \<and> counter d < counter d' \<and> \<not> (manifest_cipher c = Aes256Gcm \<and> lifecycle d = LongLived))"
    by simp_all
qed

lemma decrypt_raw_encrypt_raw:
  assumes "aead_ok E" "encrypt_raw E aad pt (c, d) = (Inr (n, ct), (c', d'))" "material d2 = material d"
  shows "decrypt_raw E d2 (manifest_cipher c) n aad ct = Inr pt"
proof -
  have a: "aead_decrypt E (manifest_cipher c) (material d) (nonce_slice n) aad ct = Some pt"
    by (rule aead_okD[OF assms(1) encrypt_raw_effect(4)[OF assms(2) refl]])
  show ?thesis using encrypt_raw_effect(5)[OF assms(2) refl] a assms(3)
    by (cases "manifest_cipher c")
       (auto simp: decrypt_raw_def decrypt_xchacha_def decrypt_aes_gcm_def decrypt_aes_gcm_siv_def decrypt_short_def as_bytes_def)
qed

lemma encrypt_Inr:
  "encrypt E T pt i (c, d) = (Inr e, s) \<longleftrightarrow>
     (\<exists>b n ct. cd_enc (pii_codec E) pt = Some b
        \<and> encrypt_raw E (compute_aad i (PII_CODE T) (manifest_cipher c)) b (c, d) = (Inr (n, ct), s)
        \<and> e = EncryptedPii_new T i (manifest_cipher c) n ct)"
  by (auto simp: encrypt_def Let_def split: option.splits prod.splits sum.splits)

lemma decrypt_encrypt:
  assumes "aead_ok E" "codec_ok (pii_codec E)" "encrypt E T pt i (c, d) = (Inr e, s)" "material d2 = material d"
  shows "decrypt E c2 U e d2 =
    (if U \<noteq> T then Inl TypeMismatch else if manifest_cipher c2 \<noteq> manifest_cipher c then Inl CipherDowngrade else Inr pt)"
proof -
  obtain b n ct where b: "cd_enc (pii_codec E) pt = Some b"
    "encrypt_raw E (compute_aad i (PII_CODE T) (manifest_cipher c)) b (c, d) = (Inr (n, ct), s)"
    "e = EncryptedPii_new T i (manifest_cipher c) n ct" using assms(3) unfolding encrypt_Inr by blast
  obtain c' d' where s: "s = (c', d')" by (metis surj_pair)
  show ?thesis
    using decrypt_raw_encrypt_raw[OF assms(1) b(2)[unfolded s] assms(4)] codec_okD[OF assms(2) b(1)]
    by (auto simp: decrypt_def b(3) EncryptedPii_new_def PII_CODE_inject)
qed

text \<open>C30: envelope round trip. An envelope sealed under a marker opens, under any key object with the same material, to
the plaintext exactly when it is presented under that marker to a coordinator with the same declared cipher; under any
other marker it is a type mismatch and under any other declared cipher a downgrade, whatever the key.\<close>
theorem envelope_roundtrip:
  assumes "aead_ok E" "codec_ok (pii_codec E)" "encrypt E T pt i (c, d) = (Inr e, s)" "material d2 = material d"
  shows "decrypt E c2 U e d2 =
    (if U \<noteq> T then Inl TypeMismatch else if manifest_cipher c2 \<noteq> manifest_cipher c then Inl CipherDowngrade else Inr pt)"
  by (rule decrypt_encrypt[OF assms])

text \<open>A toy environment: sealing prefixes the message with the cipher, the key, the nonce and the additional data.\<close>
definition demo_env :: "nat crypto_env" where
  "demo_env = \<lparr>tier_1_kms = True, tier_2_multi_kms = True, fill = (\<lambda>len n. (replicate len (of_nat n), Suc n)),
     aead_encrypt = (\<lambda>k key n aad m. Some (aead_kind_u8 k # key @ n @ aad @ m)),
     aead_decrypt = (\<lambda>k key n aad c. let p = aead_kind_u8 k # key @ n @ aad in
        if take (length p) c = p then Some (drop (length p) c) else None),
     pii_codec = \<lparr>cd_enc = Some, cd_dec = Some\<rparr>\<rparr>"

lemma demo_env_ok: "aead_ok demo_env" "codec_ok (pii_codec demo_env)"
  by (simp_all add: aead_ok_def codec_ok_def demo_env_def Let_def)

definition demo_key :: dek where "demo_key = Dek_from_bytes (replicate 32 7)"
definition demo_coordinator :: "nat coordinator" where "demo_coordinator = CryptoCoordinator_new Aes256Gcm 0"

lemma demo_encrypt:
  "\<exists>e s. encrypt demo_env ActorHandle [1, 2] (DekId (replicate 16 3)) (demo_coordinator, demo_key) = (Inr e, s)"
  by (simp add: encrypt_def encrypt_raw_def encrypt_aes_gcm_def encrypt_counter_def advance_counter_def demo_env_def
      demo_coordinator_def CryptoCoordinator_new_def demo_key_def Dek_from_bytes_def Dek_with_config_def Let_def)

theorem envelope_roundtrip_witness:
  "\<exists>e. fst (encrypt demo_env ActorHandle [1, 2] (DekId (replicate 16 3)) (demo_coordinator, demo_key)) = Inr e
     \<and> decrypt demo_env demo_coordinator ActorHandle e demo_key = Inr [1, 2]
     \<and> decrypt demo_env demo_coordinator AuthCredentialSecret e demo_key = Inl TypeMismatch"
proof -
  obtain e s where e: "encrypt demo_env ActorHandle [1, 2] (DekId (replicate 16 3)) (demo_coordinator, demo_key) = (Inr e, s)"
    using demo_encrypt by blast
  show ?thesis using envelope_roundtrip[OF demo_env_ok e refl] by (intro exI[of _ e]) (simp add: e)
qed

section \<open>Counter nonces\<close>

text \<open>A series of encryptions under one key object, each by whatever coordinator is at hand.\<close>
fun encrypt_many ::
  "'n crypto_env \<Rightarrow> ('n coordinator \<times> pii_marker \<times> bytes \<times> dek_id) list \<Rightarrow> dek
     \<Rightarrow> (pii_error + encrypted_pii) list \<times> dek" where
  "encrypt_many E [] d = ([], d)"
| "encrypt_many E ((c, T, pt, i) # jobs) d =
     (let (r, (_, d')) = encrypt E T pt i (c, d); (rs, d'') = encrypt_many E jobs d' in (r # rs, d''))"

text \<open>The nonces of the envelopes sealed by one of the two AES ciphers.\<close>
definition counter_nonces :: "(pii_error + encrypted_pii) list \<Rightarrow> bytes list" where
  "counter_nonces rs = concat (map (case_sum (\<lambda>_. [])
     (\<lambda>e. if ep_aead_kind e = XChaCha20Poly1305 then [] else [nonce_slice (ep_nonce e)])) rs)"

lemma counter_nonces_simps [simp]:
  "counter_nonces [] = []" "counter_nonces (Inl x # rs) = counter_nonces rs"
  "counter_nonces (Inr e # rs) =
     (if ep_aead_kind e = XChaCha20Poly1305 then [] else [nonce_slice (ep_nonce e)]) @ counter_nonces rs"
  by (simp_all add: counter_nonces_def)

lemma counter_nonce_inject:
  "aes_gcm_nonce_from_counter r n = aes_gcm_nonce_from_counter r' n' \<longleftrightarrow> r = r' \<and> n = n'"
  by (simp add: aes_gcm_nonce_from_counter_def be_bytes_inject)

lemma encrypt_effect:
  assumes "encrypt E T pt i (c, d) = (r, (c', d'))"
  shows "same_key d d'" "counter d \<le> counter d'"
    "r = Inr e \<Longrightarrow> (if ep_aead_kind e = XChaCha20Poly1305 then True
       else ep_nonce e = Short12 (aes_gcm_nonce_from_counter (replica_id d) (counter d)) \<and> counter d < counter d'
         \<and> \<not> (ep_aead_kind e = Aes256Gcm \<and> lifecycle d = LongLived))"
proof -
  let ?aad = "compute_aad i (PII_CODE T) (manifest_cipher c)"
  have "same_key d d' \<and> counter d \<le> counter d'"
  proof (cases "cd_enc (pii_codec E) pt")
    case None
    then show ?thesis using assms by (simp add: encrypt_def)
  next
    case (Some b)
    obtain r1 c1 d1 where raw: "encrypt_raw E ?aad b (c, d) = (r1, (c1, d1))" by (metis surj_pair)
    have "d' = d1" using assms Some raw by (auto simp: encrypt_def split: sum.splits)
    then show ?thesis using encrypt_raw_effect(2,3)[OF raw] by simp
  qed
  then show "same_key d d'" "counter d \<le> counter d'" by simp_all
  assume r: "r = Inr e"
  obtain b n ct where "encrypt_raw E ?aad b (c, d) = (Inr (n, ct), (c', d'))"
      "e = EncryptedPii_new T i (manifest_cipher c) n ct"
    using assms[unfolded r encrypt_Inr] by blast
  with encrypt_raw_effect(5)[OF this(1) refl]
  show "if ep_aead_kind e = XChaCha20Poly1305 then True
       else ep_nonce e = Short12 (aes_gcm_nonce_from_counter (replica_id d) (counter d)) \<and> counter d < counter d'
         \<and> \<not> (ep_aead_kind e = Aes256Gcm \<and> lifecycle d = LongLived)"
    by (simp add: EncryptedPii_new_def split: if_splits)
qed

lemma encrypt_many_nonces:
  "encrypt_many E jobs d = (rs, d') \<Longrightarrow>
     counter d \<le> counter d' \<and> distinct (counter_nonces rs)
     \<and> set (counter_nonces rs) \<subseteq> aes_gcm_nonce_from_counter (replica_id d) ` {counter d..<counter d'}
     \<and> (\<forall>e. Inr e \<in> set rs \<longrightarrow> \<not> (ep_aead_kind e = Aes256Gcm \<and> lifecycle d = LongLived))"
proof (induction jobs arbitrary: d rs)
  case (Cons job jobs)
  obtain c T pt i where job: "job = (c, T, pt, i)" by (metis surj_pair)
  obtain r c1 d1 where e: "encrypt E T pt i (c, d) = (r, (c1, d1))" by (metis surj_pair)
  obtain rs' where m: "encrypt_many E jobs d1 = (rs', d')" and rs: "rs = r # rs'"
    using Cons.prems by (auto simp: job e case_prod_beta prod_eq_iff)
  note IH = Cons.IH[OF m]
  note fx = encrypt_effect[OF e]
  have rep: "replica_id d1 = replica_id d" "lifecycle d1 = lifecycle d" using fx(1) by (simp_all add: same_key_def)
  have sub: "set (counter_nonces rs') \<subseteq> aes_gcm_nonce_from_counter (replica_id d) ` {counter d1..<counter d'}"
    using IH rep by simp
  have wider: "aes_gcm_nonce_from_counter (replica_id d) ` {counter d1..<counter d'}
      \<subseteq> aes_gcm_nonce_from_counter (replica_id d) ` {counter d..<counter d'}" using fx(2) by auto
  show ?case
  proof (cases r)
    case (Inl x)
    then show ?thesis using IH rep fx(2) sub wider unfolding rs by auto
  next
    case (Inr e)
    show ?thesis
    proof (cases "ep_aead_kind e = XChaCha20Poly1305")
      case True
      then show ?thesis using IH rep fx(2) sub wider Inr unfolding rs by auto
    next
      case False
      then have n: "ep_nonce e = Short12 (aes_gcm_nonce_from_counter (replica_id d) (counter d))" "counter d < counter d1"
        "\<not> (ep_aead_kind e = Aes256Gcm \<and> lifecycle d = LongLived)" using fx(3)[OF Inr] by simp_all
      have fresh: "aes_gcm_nonce_from_counter (replica_id d) (counter d) \<notin> set (counter_nonces rs')"
      proof
        assume "aes_gcm_nonce_from_counter (replica_id d) (counter d) \<in> set (counter_nonces rs')"
        then obtain k where "k \<in> {counter d1..<counter d'}"
          "aes_gcm_nonce_from_counter (replica_id d) (counter d) = aes_gcm_nonce_from_counter (replica_id d) k"
          using sub by blast
        then show False using n(2) by (auto simp: counter_nonce_inject)
      qed
      have "aes_gcm_nonce_from_counter (replica_id d) (counter d)
          \<in> aes_gcm_nonce_from_counter (replica_id d) ` {counter d..<counter d'}"
        using n(2) IH by (auto intro!: imageI intro: less_le_trans)
      then show ?thesis using IH rep fx(2) sub wider Inr False n fresh unfolding rs by auto
    qed
  qed
qed simp

text \<open>C11: no counter nonce is used twice. Whatever is encrypted under a key object, through any coordinators, with any
failures in between, and under a second key object with another replica id, perhaps of the same key material, the AES
nonces of all the envelopes produced are pairwise distinct; and a key restored from durable storage, whose counter has
restarted, never seals under plain AES-GCM.\<close>
theorem counter_nonces_unique:
  assumes "encrypt_many E jobs d = (rs, d')" "encrypt_many E jobs2 d2 = (rs2, d2')" "replica_id d \<noteq> replica_id d2"
  shows "distinct (counter_nonces rs @ counter_nonces rs2)
    \<and> (lifecycle d = LongLived \<and> Inr e \<in> set rs \<longrightarrow> ep_aead_kind e \<noteq> Aes256Gcm)"
proof -
  note a = encrypt_many_nonces[OF assms(1)] and b = encrypt_many_nonces[OF assms(2)]
  have "set (counter_nonces rs) \<inter> set (counter_nonces rs2) = {}"
    using a b assms(3) by (fastforce simp: counter_nonce_inject)
  then have "distinct (counter_nonces rs @ counter_nonces rs2)" using a b by simp
  moreover have "lifecycle d = LongLived \<and> Inr e \<in> set rs \<longrightarrow> ep_aead_kind e \<noteq> Aes256Gcm" using a by blast
  ultimately show ?thesis ..
qed

definition demo_jobs :: "(nat coordinator \<times> pii_marker \<times> bytes \<times> dek_id) list" where
  "demo_jobs = map (\<lambda>k. (CryptoCoordinator_new k 0, ActorHandle, [1], DekId (replicate 16 3))) [Aes256Gcm, Aes256GcmSiv]"

theorem counter_nonces_unique_witness:
  "distinct (counter_nonces (fst (encrypt_many demo_env demo_jobs demo_key))
     @ counter_nonces (fst (encrypt_many demo_env demo_jobs (demo_key\<lparr>replica_id := 1\<rparr>))))"
  by (rule counter_nonces_unique[OF surjective_pairing surjective_pairing, THEN conjunct1])
     (simp add: demo_key_def Dek_from_bytes_def Dek_with_config_def DekConfig_default_def)

section \<open>Rotation\<close>

text \<open>An element re-sealed under the new key: the new id, marker and cipher, the same plaintext under both keys.\<close>
definition resealed ::
  "'n crypto_env \<Rightarrow> pii_marker \<Rightarrow> dek \<Rightarrow> dek_id \<Rightarrow> aead_kind \<Rightarrow> bytes \<Rightarrow> encrypted_pii \<Rightarrow> encrypted_pii \<Rightarrow> bool" where
  "resealed E T old_dek i k m e e' \<longleftrightarrow> ep_dek_id e' = i \<and> ep_pii_code e' = PII_CODE T \<and> ep_aead_kind e' = k \<and>
     (\<exists>p. decrypt_raw_under E old_dek e = Inr p \<and> (\<forall>d. material d = m \<longrightarrow> decrypt_raw_under E d e' = Inr p))"

definition crypt_inv :: "'n crypt \<Rightarrow> 'n crypt \<Rightarrow> bool" where
  "crypt_inv s s' \<longleftrightarrow> manifest_cipher (fst s') = manifest_cipher (fst s) \<and> same_key (snd s) (snd s')
     \<and> counter (snd s) \<le> counter (snd s')"

lemma crypt_inv_refl [simp]: "crypt_inv s s" by (simp add: crypt_inv_def)

lemma crypt_inv_trans: "crypt_inv s s' \<Longrightarrow> crypt_inv s' s'' \<Longrightarrow> crypt_inv s s''"
  by (auto simp: crypt_inv_def intro: same_key_trans order_trans)

lemma rotate_step_inv:
  assumes "rotate_step E T old_dek i aad idx r = (res, r')"
  shows "crypt_inv (ro_crypt r) (ro_crypt r')"
proof -
  obtain c d where s: "ro_crypt r = (c, d)" by (metis surj_pair)
  have e: "crypt_inv (c, d) s'" if "encrypt_raw E aad p (c, d) = (q, s')" for p q s'
  proof -
    obtain c' d' where s': "s' = (c', d')" by (metis surj_pair)
    show ?thesis using encrypt_raw_effect(1-3)[OF that[unfolded s']] by (simp add: s' crypt_inv_def)
  qed
  then show ?thesis using assms s unfolding rotate_step_def
    by (auto split: sum.splits prod.splits)
qed

lemma rotate_step_ok:
  assumes ok: "aead_ok E" and st: "rotate_step E T old_dek i aad idx r = (Inr u, r')" and idx: "idx < length (ro_slice r)"
    and aad: "aad = compute_aad i (PII_CODE T) (manifest_cipher (fst (ro_crypt r)))"
  shows "\<exists>e'. ro_slice r' = (ro_slice r)[idx := e'] \<and> ro_counter r' = record_message (ro_counter r)
     \<and> resealed E T old_dek i (manifest_cipher (fst (ro_crypt r))) (material (snd (ro_crypt r))) (ro_slice r ! idx) e'"
proof -
  obtain c d where s: "ro_crypt r = (c, d)" by (metis surj_pair)
  obtain p where p: "decrypt_raw_under E old_dek (ro_slice r ! idx) = Inr p"
    using st by (auto simp: rotate_step_def split: sum.splits)
  obtain n ct c' d' where e: "encrypt_raw E aad p (c, d) = (Inr (n, ct), (c', d'))"
    and r': "r' = r\<lparr>ro_slice := (ro_slice r)[idx := EncryptedPii_new T i (manifest_cipher c') n ct],
        ro_counter := record_message (ro_counter r), ro_crypt := (c', d')\<rparr>"
    using st by (auto simp: rotate_step_def p s split: sum.splits prod.splits)
  let ?e = "EncryptedPii_new T i (manifest_cipher c') n ct"
  have m: "manifest_cipher c' = manifest_cipher c" by (rule encrypt_raw_effect(1)[OF e])
  have "decrypt_raw_under E d2 ?e = Inr p" if "material d2 = material d" for d2
    using decrypt_raw_encrypt_raw[OF ok e that] aad by (simp add: decrypt_raw_under_def EncryptedPii_new_def m s)
  then have "resealed E T old_dek i (manifest_cipher c) (material d) (ro_slice r ! idx) ?e"
    by (simp add: resealed_def EncryptedPii_new_def m p)
  then show ?thesis unfolding r' s by (intro exI[of _ ?e]) simp
qed

lemma rotate_loop_ok:
  assumes ok: "aead_ok E"
  shows "rotate_loop E T old_dek i aad [k..<n] r = (Inr u, r') \<Longrightarrow> n \<le> length (ro_slice r) \<Longrightarrow>
     aad = compute_aad i (PII_CODE T) (manifest_cipher (fst (ro_crypt r))) \<Longrightarrow>
       length (ro_slice r') = length (ro_slice r) \<and> crypt_inv (ro_crypt r) (ro_crypt r')
     \<and> ro_counter r' = (record_message ^^ (n - k)) (ro_counter r)
     \<and> (\<forall>j<length (ro_slice r). if k \<le> j \<and> j < n
          then resealed E T old_dek i (manifest_cipher (fst (ro_crypt r))) (material (snd (ro_crypt r)))
                 (ro_slice r ! j) (ro_slice r' ! j)
          else ro_slice r' ! j = ro_slice r ! j)"
proof (induction "n - k" arbitrary: k r)
  case 0
  then show ?case by auto
next
  case (Suc m)
  then have k: "k < n" by simp
  then have "[k..<n] = k # [Suc k..<n]" by (rule upt_conv_Cons)
  with Suc.prems(1) obtain r1 v where st: "rotate_step E T old_dek i aad k r = (Inr v, r1)"
    and rest: "rotate_loop E T old_dek i aad [Suc k..<n] r1 = (Inr u, r')" by (auto simp: bnd_Inr)
  from rotate_step_ok[OF ok st] k Suc.prems(2,3)
  obtain e' where e': "ro_slice r1 = (ro_slice r)[k := e']" "ro_counter r1 = record_message (ro_counter r)"
    "resealed E T old_dek i (manifest_cipher (fst (ro_crypt r))) (material (snd (ro_crypt r))) (ro_slice r ! k) e'"
    by auto
  have inv: "crypt_inv (ro_crypt r) (ro_crypt r1)" by (rule rotate_step_inv[OF st])
  then have same: "manifest_cipher (fst (ro_crypt r1)) = manifest_cipher (fst (ro_crypt r))"
    "material (snd (ro_crypt r1)) = material (snd (ro_crypt r))" by (simp_all add: crypt_inv_def same_key_def)
  have "m = n - Suc k" using Suc.hyps(2) by simp
  moreover have l1: "length (ro_slice r1) = length (ro_slice r)" by (simp add: e'(1))
  ultimately have "length (ro_slice r') = length (ro_slice r) \<and> crypt_inv (ro_crypt r1) (ro_crypt r')
     \<and> ro_counter r' = (record_message ^^ (n - Suc k)) (ro_counter r1)
     \<and> (\<forall>j<length (ro_slice r). if Suc k \<le> j \<and> j < n
          then resealed E T old_dek i (manifest_cipher (fst (ro_crypt r))) (material (snd (ro_crypt r)))
                 (ro_slice r1 ! j) (ro_slice r' ! j)
          else ro_slice r' ! j = ro_slice r1 ! j)"
    using Suc.hyps(1)[OF _ rest, unfolded same l1] Suc.prems(2,3) by blast
  then have IH: "length (ro_slice r') = length (ro_slice r)" "crypt_inv (ro_crypt r1) (ro_crypt r')"
    "ro_counter r' = (record_message ^^ (n - Suc k)) (ro_counter r1)"
    "\<And>j. j < length (ro_slice r) \<Longrightarrow> if Suc k \<le> j \<and> j < n
          then resealed E T old_dek i (manifest_cipher (fst (ro_crypt r))) (material (snd (ro_crypt r)))
                 (ro_slice r1 ! j) (ro_slice r' ! j)
          else ro_slice r' ! j = ro_slice r1 ! j" by blast+
  have "n - k = Suc (n - Suc k)" using k by simp
  then have cnt: "ro_counter r' = (record_message ^^ (n - k)) (ro_counter r)"
    by (simp add: IH(3) e'(2) funpow_Suc_right del: funpow.simps)
  have "if k \<le> j \<and> j < n
          then resealed E T old_dek i (manifest_cipher (fst (ro_crypt r))) (material (snd (ro_crypt r)))
                 (ro_slice r ! j) (ro_slice r' ! j)
          else ro_slice r' ! j = ro_slice r ! j" if j: "j < length (ro_slice r)" for j
  proof (cases "j = k")
    case True
    then show ?thesis using IH(4)[OF j] e'(1,3) k j by simp
  next
    case False
    then show ?thesis using IH(4)[OF j] e'(1) by (auto split: if_splits)
  qed
  then show ?case using IH(1) crypt_inv_trans[OF inv IH(2)] cnt by simp
qed

lemma rotate_loop_inv: "rotate_loop E T old_dek i aad idxs r = (res, r') \<Longrightarrow> crypt_inv (ro_crypt r) (ro_crypt r')"
proof (induction idxs arbitrary: r)
  case (Cons idx idxs)
  obtain x r1 where st: "rotate_step E T old_dek i aad idx r = (x, r1)" by (metis surj_pair)
  have inv: "crypt_inv (ro_crypt r) (ro_crypt r1)" by (rule rotate_step_inv[OF st])
  show ?case
  proof (cases x)
    case (Inl e)
    then show ?thesis using Cons.prems st inv by (simp add: bnd_def)
  next
    case (Inr u)
    then have "rotate_loop E T old_dek i aad idxs r1 = (res, r')" using Cons.prems st by (simp add: bnd_def)
    from Cons.IH[OF this] show ?thesis by (rule crypt_inv_trans[OF inv])
  qed
qed simp

lemma rotate_dek_cases:
  assumes "rotate_dek E T old_dek i r = (res, r')"
  obtains (failed) e r1 where "res = Inl e" "r' = r1\<lparr>ro_slice := ro_slice r, ro_counter := ro_counter r\<rparr>"
      "crypt_inv (ro_crypt r) (ro_crypt r1)"
  | (rotated) "res = Inr ()"
      "rotate_loop E T old_dek i (compute_aad i (PII_CODE T) (manifest_cipher (fst (ro_crypt r))))
         [0..<length (ro_slice r)] r = (Inr (), r')"
proof -
  let ?aad = "compute_aad i (PII_CODE T) (manifest_cipher (fst (ro_crypt r)))"
  obtain x r1 where l: "rotate_loop E T old_dek i ?aad [0..<length (ro_slice r)] r = (x, r1)" by (metis surj_pair)
  show thesis
  proof (cases x)
    case (Inl e)
    then show thesis using assms l rotate_loop_inv[OF l] by (intro failed) (auto simp: rotate_dek_def Let_def)
  next
    case (Inr u)
    then show thesis using assms l by (intro rotated) (auto simp: rotate_dek_def Let_def)
  qed
qed

lemma count_funpow:
  "unat (dmc_count ((record_message ^^ n) c)) = min (unat (dmc_count c) + n) (2 ^ 64 - 1)"
proof (induction n)
  case 0
  have "unat (dmc_count c) < 2 ^ 64" using unsigned_less[of "dmc_count c"] by simp
  then show ?case by simp
qed (auto simp: record_message_def unat_saturating_add min_def)

text \<open>C24: rotation is all or nothing. When the rotation of a slice fails, the slice and its message metric are what they
were, and the new key's counter has not gone back, so that no nonce handed out by the failed attempt can recur. When it
succeeds, every envelope, whatever cipher it was under, is re-sealed in place under the new id, the declared cipher and
the new key with the same plaintext, and the metric has counted the whole slice, saturating at the width of the
counter.\<close>
theorem rotation_all_or_nothing:
  assumes "aead_ok E" "rotate_dek E T old_dek i r = (res, r')"
  shows "case res of
      Inl e \<Rightarrow> ro_slice r' = ro_slice r \<and> ro_counter r' = ro_counter r
        \<and> counter (snd (ro_crypt r)) \<le> counter (snd (ro_crypt r'))
    | Inr _ \<Rightarrow> length (ro_slice r') = length (ro_slice r)
        \<and> unat (dmc_count (ro_counter r')) = min (unat (dmc_count (ro_counter r)) + length (ro_slice r)) (2 ^ 64 - 1)
        \<and> (\<forall>j<length (ro_slice r).
             ep_dek_id (ro_slice r' ! j) = i \<and> ep_pii_code (ro_slice r' ! j) = PII_CODE T
             \<and> ep_aead_kind (ro_slice r' ! j) = manifest_cipher (fst (ro_crypt r))
             \<and> (\<exists>p. decrypt_raw_under E old_dek (ro_slice r ! j) = Inr p
                   \<and> decrypt_raw_under E (snd (ro_crypt r')) (ro_slice r' ! j) = Inr p))"
  using assms(2)
proof (cases rule: rotate_dek_cases)
  case (failed e r1)
  then show ?thesis by (simp add: crypt_inv_def)
next
  case rotated
  note ok = rotate_loop_ok[OF assms(1) rotated(2) order_refl refl]
  have "material (snd (ro_crypt r')) = material (snd (ro_crypt r))" using ok by (simp add: crypt_inv_def same_key_def)
  then have "ep_dek_id (ro_slice r' ! j) = i \<and> ep_pii_code (ro_slice r' ! j) = PII_CODE T
             \<and> ep_aead_kind (ro_slice r' ! j) = manifest_cipher (fst (ro_crypt r))
             \<and> (\<exists>p. decrypt_raw_under E old_dek (ro_slice r ! j) = Inr p
                   \<and> decrypt_raw_under E (snd (ro_crypt r')) (ro_slice r' ! j) = Inr p)"
    if "j < length (ro_slice r)" for j
    using ok that unfolding resealed_def by auto
  then show ?thesis using ok by (simp add: rotated(1) count_funpow)
qed

definition demo_envelope :: encrypted_pii where
  "demo_envelope = \<lparr>ep_dek_id = DekId (replicate 16 3), ep_pii_code = 1, ep_aead_kind = Aes256Gcm,
     ep_nonce = Short12 (replicate 12 0),
     ep_ciphertext = 1 # replicate 32 7 @ replicate 12 0 @ replicate 16 3 @ [0, 1, 1] @ [1, 2]\<rparr>"

definition demo_rotation :: "nat rotation" where
  "demo_rotation = \<lparr>ro_slice = [demo_envelope], ro_counter = DekMessageCounter_new (DekId (replicate 16 4)),
     ro_crypt = (demo_coordinator, Dek_from_bytes (replicate 32 8))\<rparr>"

theorem rotation_all_or_nothing_witness:
  "length (ro_slice (snd (rotate_dek demo_env ActorHandle demo_key (DekId (replicate 16 4)) demo_rotation))) = 1"
  using rotation_all_or_nothing[OF demo_env_ok(1) surjective_pairing,
      of ActorHandle demo_key "DekId (replicate 16 4)" demo_rotation]
  by (auto simp: demo_rotation_def split: sum.splits)

text \<open>Rotation launders the marker. An envelope sealed under one marker but presented to the rotation as a slice of
another marker's envelopes, which decoding the wire form permits, is refused by decryption as a type mismatch before the
rotation and opens under the other marker afterwards: the rotation does not check the wire marker it overwrites.\<close>
theorem rotation_launders_marker:
  assumes "aead_ok E" "codec_ok (pii_codec E)" "encrypt E U pt i0 (c, d) = (Inr e, (c', d'))" "T \<noteq> U"
    and "rotate_dek E T d' i \<lparr>ro_slice = [e], ro_counter = n, ro_crypt = (c', nd)\<rparr> = (Inr u, r')"
  shows "decrypt E c' T e d' = Inl TypeMismatch"
    "decrypt E c' T (hd (ro_slice r')) (snd (ro_crypt r')) = Inr pt"
proof -
  have same: "material d' = material d" using encrypt_effect(1)[OF assms(3)] by (simp add: same_key_def)
  show "decrypt E c' T e d' = Inl TypeMismatch"
    using decrypt_encrypt[OF assms(1-3) same] assms(4) by simp
  obtain b m ct where raw: "cd_enc (pii_codec E) pt = Some b"
    "encrypt_raw E (compute_aad i0 (PII_CODE U) (manifest_cipher c)) b (c, d) = (Inr (m, ct), (c', d'))"
    "e = EncryptedPii_new U i0 (manifest_cipher c) m ct" using assms(3) unfolding encrypt_Inr by blast
  have old: "decrypt_raw_under E d' e = Inr b"
    using decrypt_raw_encrypt_raw[OF assms(1) raw(2) same]
    by (simp add: raw(3) decrypt_raw_under_def EncryptedPii_new_def)
  from assms(5) show "decrypt E c' T (hd (ro_slice r')) (snd (ro_crypt r')) = Inr pt"
  proof (cases rule: rotate_dek_cases)
    case (failed x r1)
    then show ?thesis by simp
  next
    case rotated
    note ok = rotate_loop_ok[OF assms(1) rotated(2) order_refl refl, simplified]
    then obtain e' where e': "ro_slice r' = [e']" by (metis One_nat_def length_0_conv length_Suc_conv)
    have key: "material (snd (ro_crypt r')) = material nd" using ok by (simp add: crypt_inv_def same_key_def)
    have "resealed E T d' i (manifest_cipher c') (material nd) e e'" using ok by (simp add: e')
    then have "ep_pii_code e' = PII_CODE T" "ep_aead_kind e' = manifest_cipher c'"
      "decrypt_raw_under E (snd (ro_crypt r')) e' = Inr b" using old key by (auto simp: resealed_def)
    then show ?thesis
      using codec_okD[OF assms(2) raw(1)] by (simp add: e' decrypt_def decrypt_raw_under_def Let_def)
  qed
qed

lemma demo_sealed:
  "encrypt demo_env ActorHandle [1, 2] (DekId (replicate 16 3)) (demo_coordinator, demo_key)
     = (Inr demo_envelope, (demo_coordinator, demo_key\<lparr>counter := 1\<rparr>))"
  by code_simp

lemma demo_env_seals:
  "tier_2_multi_kms demo_env" "aead_encrypt demo_env k key n aad m = Some (aead_kind_u8 k # key @ n @ aad @ m)"
  by (simp_all add: demo_env_def)

lemma demo_opens:
  "decrypt_raw_under demo_env (demo_key\<lparr>counter := 1\<rparr>) demo_envelope = Inr [1, 2]"
  by code_simp

lemma demo_rotates:
  "fst (rotate_dek demo_env AuthCredentialSecret (demo_key\<lparr>counter := 1\<rparr>) (DekId (replicate 16 4)) demo_rotation) = Inr ()"
  by (simp add: rotate_dek_def rotate_step_def demo_rotation_def demo_opens encrypt_raw_def encrypt_aes_gcm_def
      encrypt_counter_def advance_counter_def demo_coordinator_def CryptoCoordinator_new_def Dek_from_bytes_def
      Dek_with_config_def demo_env_seals bnd_def Let_def)

theorem rotation_launders_marker_witness:
  "decrypt demo_env demo_coordinator AuthCredentialSecret demo_envelope (demo_key\<lparr>counter := 1\<rparr>) = Inl TypeMismatch
   \<and> (\<exists>r'. rotate_dek demo_env AuthCredentialSecret (demo_key\<lparr>counter := 1\<rparr>) (DekId (replicate 16 4)) demo_rotation = (Inr (), r')
     \<and> decrypt demo_env demo_coordinator AuthCredentialSecret (hd (ro_slice r')) (snd (ro_crypt r')) = Inr [1, 2])"
proof -
  obtain r' where r': "rotate_dek demo_env AuthCredentialSecret (demo_key\<lparr>counter := 1\<rparr>) (DekId (replicate 16 4)) demo_rotation
      = (Inr (), r')" using demo_rotates by (metis prod.collapse)
  show ?thesis
    using rotation_launders_marker[OF demo_env_ok demo_sealed _ r'[unfolded demo_rotation_def]] r' by simp
qed

end
