(* ===== verification/Kms.thy ===== *)
theory Kms
  imports Crypto Crypto_Erasure
begin

text \<open>The key-management backends of \<^verbatim>\<open>hf2_kms/kms_backend.rs\<close> and \<^verbatim>\<open>hf2_kms/aws_kms.rs\<close>: the trait as a
record of operations over a state, the mock backend, and the AWS backend over the calls of its SDK
client.  BLAKE3 and the SDK are parameters; the async runtime that drives the SDK calls one after the
other is not modelled.\<close>

section \<open>The trait\<close>

datatype kek_ref = KekRef (kek_id: string)

datatype kms_error =
    Transport string | Auth string | KekNotFound string | UnwrapFailed | KekDeleting string | QuotaExceeded
  | KmsBackendError string

record 's kms_ops =
  k_generate_dek :: "kek_ref \<Rightarrow> ('s, kms_error, dek_id \<times> dek) act"
  k_wrap_dek :: "dek \<Rightarrow> kek_ref \<Rightarrow> ('s, kms_error, bytes) act"
  k_unwrap_dek :: "bytes \<Rightarrow> kek_ref \<Rightarrow> ('s, kms_error, dek) act"
  k_delete_key :: "kek_ref \<Rightarrow> ('s, kms_error, dek_shred_attestation) act"
  k_rotate_kek :: "kek_ref \<Rightarrow> kek_ref \<Rightarrow> ('s, kms_error, unit) act"

text \<open>The keyed and the plain hash of BLAKE3; an incremental hasher is the plain hash of the concatenated updates.\<close>
record hasher = blake3 +
  plain_hash :: "bytes \<Rightarrow> bytes"

section \<open>The mock backend\<close>

record mock_kms =
  keks :: "kek_ref \<rightharpoonup> bytes"
  destroyed :: "kek_ref \<rightharpoonup> dek_shred_attestation"
  mock_counter :: u64
  rotations :: "(kek_ref \<times> kek_ref) list"
  destruction_log_index :: u64

definition MockKms_new :: mock_kms where
  "MockKms_new = \<lparr>keks = Map.empty, destroyed = Map.empty, mock_counter = 0, rotations = [], destruction_log_index = 0\<rparr>"

definition register_kek :: "hasher \<Rightarrow> kek_ref \<Rightarrow> mock_kms \<Rightarrow> mock_kms" where
  "register_kek H k s =
     (if keks s k \<noteq> None then s
      else
        let digest = keyed_hash H (plain_hash H (str_bytes ''arkhe-forge-mock-kms-kek-pad'')) (str_bytes (kek_id k))
        in s\<lparr>keks := (keks s)(k \<mapsto> digest)\<rparr>)"

definition destroyed_count :: "mock_kms \<Rightarrow> nat" where
  "destroyed_count s = card (dom (destroyed s))"

definition rotation_log_len :: "mock_kms \<Rightarrow> nat" where
  "rotation_log_len s = length (rotations s)"

definition xor_pad :: "bytes \<Rightarrow> bytes \<Rightarrow> bytes" where
  "xor_pad dst pad = map (\<lambda>(i, b). xor b (pad ! (i mod 32))) (enumerate 0 dst)"

definition mock_generate_dek :: "hasher \<Rightarrow> kek_ref \<Rightarrow> (mock_kms, kms_error, dek_id \<times> dek) act" where
  "mock_generate_dek H k = (\<lambda>s.
     if keks s k = None then (Inl (KekNotFound (kek_id k)), s)
     else
       let s' = s\<lparr>mock_counter := saturating_add (mock_counter s) 1\<rparr>;
           suffix = str_bytes (kek_id k) @ le_bytes 8 (mock_counter s');
           dek_material = plain_hash H (str_bytes ''arkhe-forge-mock-kms-dek-material'' @ suffix);
           dek_id_full = plain_hash H (str_bytes ''arkhe-forge-mock-kms-dek-id'' @ suffix)
       in (Inr (DekId (take 16 dek_id_full), Dek_from_bytes dek_material), s'))"

definition mock_wrap_dek :: "dek \<Rightarrow> kek_ref \<Rightarrow> (mock_kms, kms_error, bytes) act" where
  "mock_wrap_dek d k = (\<lambda>s.
     case keks s k of
       None \<Rightarrow> (Inl (KekNotFound (kek_id k)), s)
     | Some pad \<Rightarrow> (Inr (pad @ xor_pad (as_bytes d) pad), s))"

definition mock_unwrap_dek :: "bytes \<Rightarrow> kek_ref \<Rightarrow> (mock_kms, kms_error, dek) act" where
  "mock_unwrap_dek wrapped k = (\<lambda>s.
     if length wrapped \<noteq> 64 then (Inl UnwrapFailed, s)
     else case keks s k of
       None \<Rightarrow> (Inl (KekNotFound (kek_id k)), s)
     | Some pad \<Rightarrow>
         if take 32 wrapped \<noteq> pad then (Inl UnwrapFailed, s)
         else (Inr (Dek_from_unwrapped (xor_pad (drop 32 wrapped) pad) DekConfig_default), s))"

definition mock_delete_key :: "hasher \<Rightarrow> kek_ref \<Rightarrow> (mock_kms, kms_error, dek_shred_attestation) act" where
  "mock_delete_key H k = (\<lambda>s.
     case destroyed s k of
       Some cached \<Rightarrow> (Inr cached, s)
     | None \<Rightarrow>
         if keks s k = None then (Inl (KekNotFound (kek_id k)), s)
         else
           let log_index = destruction_log_index s;
               payload = plain_hash H (str_bytes ''arkhe-forge-mock-kms-delete-attestation''
                           @ str_bytes (kek_id k) @ le_bytes 8 log_index);
               attestation = \<lparr>dsa_class = RSC_None, dsa_bytes = payload, dsa_log_index = Some log_index\<rparr>
           in (Inr attestation,
               s\<lparr>destruction_log_index := saturating_add log_index 1, keks := (keks s)(k := None),
                 destroyed := (destroyed s)(k \<mapsto> attestation)\<rparr>))"

definition mock_rotate_kek :: "kek_ref \<Rightarrow> kek_ref \<Rightarrow> (mock_kms, kms_error, unit) act" where
  "mock_rotate_kek old new = (\<lambda>s.
     if keks s old = None then (Inl (KekNotFound (kek_id old)), s)
     else if keks s new = None then (Inl (KekNotFound (kek_id new)), s)
     else (Inr (), s\<lparr>rotations := rotations s @ [(old, new)]\<rparr>))"

definition mock_ops :: "hasher \<Rightarrow> mock_kms kms_ops" where
  "mock_ops H = \<lparr>k_generate_dek = mock_generate_dek H, k_wrap_dek = mock_wrap_dek, k_unwrap_dek = mock_unwrap_dek,
     k_delete_key = mock_delete_key H, k_rotate_kek = mock_rotate_kek\<rparr>"

section \<open>The AWS backend\<close>

text \<open>The SDK calls the code makes, over the state of the remote service: an error as its displayed text, or the fields
of the response that the code reads.\<close>
record 'c aws_client =
  aws_generate_data_key :: "string \<Rightarrow> 'c \<Rightarrow> (string + bytes option \<times> bytes option) \<times> 'c"
  aws_encrypt :: "string \<Rightarrow> bytes \<Rightarrow> 'c \<Rightarrow> (string + bytes option) \<times> 'c"
  aws_decrypt :: "string \<Rightarrow> bytes \<Rightarrow> 'c \<Rightarrow> (string + bytes option) \<times> 'c"
  aws_schedule_key_deletion :: "string \<Rightarrow> nat \<Rightarrow> 'c \<Rightarrow> (string + string option \<times> u64 option) \<times> 'c"
  aws_describe_key :: "string \<Rightarrow> 'c \<Rightarrow> (string + unit) \<times> 'c"

record 'c aws_kms =
  aws_remote :: 'c
  aws_log_index :: u64

definition AwsKms_new_in_runtime :: "'c \<Rightarrow> 'c aws_kms" where
  "AwsKms_new_in_runtime client = \<lparr>aws_remote = client, aws_log_index = 0\<rparr>"

definition map_sdk_error :: "string \<Rightarrow> kms_error" where
  "map_sdk_error e = KmsBackendError (''aws-sdk-kms: '' @ e)"

text \<open>One SDK call, its error mapped.\<close>
definition sdk :: "('c \<Rightarrow> (string + 'a) \<times> 'c) \<Rightarrow> (string \<Rightarrow> kms_error) \<Rightarrow> ('c aws_kms, kms_error, 'a) act" where
  "sdk call err = (\<lambda>s.
     case call (aws_remote s) of
       (Inl e, r) \<Rightarrow> (Inl (err e), s\<lparr>aws_remote := r\<rparr>)
     | (Inr x, r) \<Rightarrow> (Inr x, s\<lparr>aws_remote := r\<rparr>))"

definition aws_generate_dek :: "hasher \<Rightarrow> 'c aws_client \<Rightarrow> kek_ref \<Rightarrow> ('c aws_kms, kms_error, dek_id \<times> dek) act" where
  "aws_generate_dek H A k =
     bnd (sdk (aws_generate_data_key A (kek_id k)) map_sdk_error) (\<lambda>(plaintext, ciphertext_blob).
     case plaintext of
       None \<Rightarrow> throw UnwrapFailed
     | Some p \<Rightarrow>
         if length p \<noteq> 32 then throw (KmsBackendError (''unexpected DEK length: '' @ nat_dec (length p)))
         else case ciphertext_blob of
           None \<Rightarrow> throw UnwrapFailed
         | Some ciphertext \<Rightarrow>
             ret (DekId (take 16 (keyed_hash H (plain_hash H (str_bytes ''arkhe-forge-aws-kms-dek-id'')) ciphertext)),
                  Dek_from_bytes p))"

definition aws_wrap_dek :: "'c aws_client \<Rightarrow> dek \<Rightarrow> kek_ref \<Rightarrow> ('c aws_kms, kms_error, bytes) act" where
  "aws_wrap_dek A d k =
     bnd (sdk (aws_encrypt A (kek_id k) (as_bytes d)) map_sdk_error) (\<lambda>blob.
     case blob of None \<Rightarrow> throw UnwrapFailed | Some b \<Rightarrow> ret b)"

definition aws_unwrap_dek :: "'c aws_client \<Rightarrow> bytes \<Rightarrow> kek_ref \<Rightarrow> ('c aws_kms, kms_error, dek) act" where
  "aws_unwrap_dek A wrapped k =
     bnd (sdk (aws_decrypt A (kek_id k) wrapped) map_sdk_error) (\<lambda>plaintext.
     case plaintext of
       None \<Rightarrow> throw UnwrapFailed
     | Some p \<Rightarrow> if length p \<noteq> 32 then throw UnwrapFailed else ret (Dek_from_unwrapped p DekConfig_default))"

text \<open>The index is taken by an atomic increment, which wraps.\<close>
definition aws_delete_key :: "hasher \<Rightarrow> 'c aws_client \<Rightarrow> kek_ref \<Rightarrow> ('c aws_kms, kms_error, dek_shred_attestation) act" where
  "aws_delete_key H A k =
     bnd (sdk (aws_schedule_key_deletion A (kek_id k) 7) map_sdk_error) (\<lambda>(out_key_id, deletion_date).
     let key_id = case_option [] id out_key_id; deletion_ts = case_option 0 id deletion_date in
     (\<lambda>s. (Inr \<lparr>dsa_class = RSC_None,
               dsa_bytes = plain_hash H (str_bytes ''arkhe-forge-aws-kms-delete-attestation''
                             @ str_bytes key_id @ le_bytes 8 deletion_ts),
               dsa_log_index = Some (aws_log_index s)\<rparr>,
           s\<lparr>aws_log_index := aws_log_index s + 1\<rparr>)))"

definition aws_describe :: "'c aws_client \<Rightarrow> kek_ref \<Rightarrow> ('c aws_kms, kms_error, unit) act" where
  "aws_describe A k = sdk (aws_describe_key A (kek_id k)) (\<lambda>e. KekNotFound (kek_id k @ '': '' @ e))"

definition aws_rotate_kek :: "'c aws_client \<Rightarrow> kek_ref \<Rightarrow> kek_ref \<Rightarrow> ('c aws_kms, kms_error, unit) act" where
  "aws_rotate_kek A old new = bnd (aws_describe A old) (\<lambda>_. bnd (aws_describe A new) (\<lambda>_. ret ()))"

definition aws_ops :: "hasher \<Rightarrow> 'c aws_client \<Rightarrow> 'c aws_kms kms_ops" where
  "aws_ops H A = \<lparr>k_generate_dek = aws_generate_dek H A, k_wrap_dek = aws_wrap_dek A, k_unwrap_dek = aws_unwrap_dek A,
     k_delete_key = aws_delete_key H A, k_rotate_kek = aws_rotate_kek A\<rparr>"

section \<open>The envelope contract\<close>

text \<open>What a client of the trait relies on: as long as the state is well formed, a wrapped key comes back with the same
material, marked as restored and with its counter at zero.\<close>
locale kms_envelope =
  fixes Ops :: "'s kms_ops" and wf :: "'s \<Rightarrow> bool"
  assumes wrap_unwrap: "wf s \<Longrightarrow> length (material d) = 32 \<Longrightarrow> k_wrap_dek Ops d k s = (Inr w, s') \<Longrightarrow>
      \<exists>s''. k_unwrap_dek Ops w k s' = (Inr (Dek_from_unwrapped (material d) DekConfig_default), s'')"
begin

lemma envelope_survives:
  assumes "wf s" "length (material d) = 32" "aead_ok E" "codec_ok (pii_codec E)"
    and "encrypt E T pt i (c, d) = (Inr e, (c', d'))" "k_wrap_dek Ops d' k s = (Inr w, s')"
  shows "\<exists>d2 s''. k_unwrap_dek Ops w k s' = (Inr d2, s'') \<and> lifecycle d2 = LongLived
    \<and> decrypt E c' T e d2 = Inr pt"
proof -
  have key: "material d' = material d" using encrypt_effect(1)[OF assms(5)] by (simp add: same_key_def)
  obtain s'' where u: "k_unwrap_dek Ops w k s' = (Inr (Dek_from_unwrapped (material d') DekConfig_default), s'')"
    using wrap_unwrap[OF assms(1) _ assms(6)] assms(2) key by auto
  have m: "manifest_cipher c' = manifest_cipher c"
  proof -
    obtain b n ct where "encrypt_raw E (compute_aad i (PII_CODE T) (manifest_cipher c)) b (c, d) = (Inr (n, ct), (c', d'))"
      using assms(5) unfolding encrypt_Inr by blast
    then show ?thesis by (rule encrypt_raw_effect(1))
  qed
  have "decrypt E c' T e (Dek_from_unwrapped (material d') DekConfig_default) = Inr pt"
    using decrypt_encrypt[OF assms(3-5)] key m by (simp add: Dek_from_unwrapped_def)
  then show ?thesis using u by (intro exI conjI) (auto simp: Dek_from_unwrapped_def)
qed

end

definition mock_wf :: "mock_kms \<Rightarrow> bool" where
  "mock_wf s \<longleftrightarrow> (\<forall>k pad. keks s k = Some pad \<longrightarrow> length pad = 32)"

lemma xor_pad_nth: "i < length dst \<Longrightarrow> xor_pad dst pad ! i = xor (dst ! i) (pad ! (i mod 32))"
  by (simp add: xor_pad_def nth_enumerate_eq)

lemma xor_pad_length [simp]: "length (xor_pad dst pad) = length dst"
  by (simp add: xor_pad_def)

lemma xor_pad_involution [simp]: "xor_pad (xor_pad dst pad) pad = dst"
  by (rule nth_equalityI) (simp_all add: xor_pad_nth bit.xor_self xor.assoc)

interpretation mock: kms_envelope "mock_ops H" mock_wf
  by unfold_locales
     (auto simp: mock_ops_def mock_wf_def mock_wrap_dek_def mock_unwrap_dek_def as_bytes_def split: option.splits)

text \<open>The documented behaviour of the service: what it encrypted under a key it decrypts under that key afterwards.\<close>
definition aws_ok :: "'c aws_client \<Rightarrow> bool" where
  "aws_ok A \<longleftrightarrow> (\<forall>k p c b c'. aws_encrypt A k p c = (Inr (Some b), c') \<longrightarrow> (\<exists>c''. aws_decrypt A k b c' = (Inr (Some p), c'')))"

lemma aws_envelope: "aws_ok A \<Longrightarrow> kms_envelope (aws_ops H A) (\<lambda>_. True)"
proof unfold_locales
  fix d k w and s s' :: "'a aws_kms"
  assume ok: "aws_ok A" and l: "length (material d) = 32" and w: "k_wrap_dek (aws_ops H A) d k s = (Inr w, s')"
  obtain c where c: "aws_encrypt A (kek_id k) (material d) (aws_remote s) = (Inr (Some w), c)" "aws_remote s' = c"
    using w by (auto simp: aws_ops_def aws_wrap_dek_def sdk_def bnd_def as_bytes_def
        split: prod.splits sum.splits option.splits)
  then obtain c'' where "aws_decrypt A (kek_id k) w (aws_remote s') = (Inr (Some (material d)), c'')"
    using ok unfolding aws_ok_def by blast
  then show "\<exists>s''. k_unwrap_dek (aws_ops H A) w k s' = (Inr (Dek_from_unwrapped (material d) DekConfig_default), s'')"
    using l by (auto simp: aws_ops_def aws_unwrap_dek_def sdk_def bnd_def)
qed

text \<open>C27: sealed data survives a restart. What was sealed under a key that is then wrapped by a backend opens, to the same
plaintext, under the key that unwrapping gives back, on the mock backend and on AWS; the restored key object is marked
long-lived, so that whatever is sealed under it, through any coordinators, is never sealed under plain AES-GCM.\<close>
theorem sealed_data_survives_restart:
  assumes "aead_ok E" "codec_ok (pii_codec E)" "length (material d) = 32"
    and "encrypt E T pt i (c, d) = (Inr e, (c', d'))"
  shows "(mock_wf s \<and> mock_wrap_dek d' k s = (Inr w, s') \<longrightarrow>
      (\<exists>d2 s''. mock_unwrap_dek w k s' = (Inr d2, s'') \<and> decrypt E c' T e d2 = Inr pt
        \<and> (\<forall>jobs e2. Inr e2 \<in> set (fst (encrypt_many E jobs d2)) \<longrightarrow> ep_aead_kind e2 \<noteq> Aes256Gcm)))
    \<and> (aws_ok A \<and> aws_wrap_dek A d' k r = (Inr v, r') \<longrightarrow>
      (\<exists>d2 r''. aws_unwrap_dek A v k r' = (Inr d2, r'') \<and> decrypt E c' T e d2 = Inr pt
        \<and> (\<forall>jobs e2. Inr e2 \<in> set (fst (encrypt_many E jobs d2)) \<longrightarrow> ep_aead_kind e2 \<noteq> Aes256Gcm)))"
proof -
  have no_gcm: "ep_aead_kind e2 \<noteq> Aes256Gcm"
    if "lifecycle d2 = LongLived" "Inr e2 \<in> set (fst (encrypt_many E jobs d2))" for d2 jobs e2
    using encrypt_many_nonces[of E jobs d2, OF surjective_pairing] that by blast
  have 1: "\<exists>d2 s''. mock_unwrap_dek w k s' = (Inr d2, s'') \<and> decrypt E c' T e d2 = Inr pt
        \<and> (\<forall>jobs e2. Inr e2 \<in> set (fst (encrypt_many E jobs d2)) \<longrightarrow> ep_aead_kind e2 \<noteq> Aes256Gcm)"
    if "mock_wf s" "mock_wrap_dek d' k s = (Inr w, s')"
  proof -
    have "k_wrap_dek (mock_ops undefined) d' k s = (Inr w, s')" using that(2) by (simp add: mock_ops_def)
    from mock.envelope_survives[OF that(1) assms(3,1,2,4) this] no_gcm show ?thesis
      by (auto simp: mock_ops_def)
  qed
  have 2: "\<exists>d2 r''. aws_unwrap_dek A v k r' = (Inr d2, r'') \<and> decrypt E c' T e d2 = Inr pt
        \<and> (\<forall>jobs e2. Inr e2 \<in> set (fst (encrypt_many E jobs d2)) \<longrightarrow> ep_aead_kind e2 \<noteq> Aes256Gcm)"
    if "aws_ok A" "aws_wrap_dek A d' k r = (Inr v, r')"
  proof -
    have "k_wrap_dek (aws_ops undefined A) d' k r = (Inr v, r')" using that(2) by (simp add: aws_ops_def)
    from kms_envelope.envelope_survives[OF aws_envelope[OF that(1)] TrueI assms(3,1,2,4) this] no_gcm show ?thesis
      by (auto simp: aws_ops_def)
  qed
  show ?thesis using 1 2 by (intro conjI impI) (erule conjE, assumption)+
qed

section \<open>Deletion\<close>

text \<open>One operation on the mock backend, whatever its outcome; registration only of the references in \<^verbatim>\<open>X\<close>.\<close>
inductive mock_step :: "hasher \<Rightarrow> kek_ref set \<Rightarrow> mock_kms \<Rightarrow> mock_kms \<Rightarrow> bool" for H X where
  register: "k \<in> X \<Longrightarrow> mock_step H X s (register_kek H k s)"
| generate: "mock_step H X s (snd (mock_generate_dek H k s))"
| wrap: "mock_step H X s (snd (mock_wrap_dek d k s))"
| unwrap: "mock_step H X s (snd (mock_unwrap_dek w k s))"
| delete: "mock_step H X s (snd (mock_delete_key H k s))"
| rotate: "mock_step H X s (snd (mock_rotate_kek old new s))"

lemma mock_read_only [simp]:
  "snd (mock_wrap_dek d k s) = s" "snd (mock_unwrap_dek w k s) = s"
  by (auto simp: mock_wrap_dek_def mock_unwrap_dek_def split: option.splits)

text \<open>A deleted reference that is not registered again stays gone and keeps its receipt.\<close>
lemma mock_step_gone:
  "mock_step H X s s' \<Longrightarrow> k \<notin> X \<Longrightarrow> keks s k = None \<Longrightarrow> destroyed s k = Some a \<Longrightarrow>
     keks s' k = None \<and> destroyed s' k = Some a"
  by (induction rule: mock_step.induct)
     (auto simp: register_kek_def mock_generate_dek_def mock_delete_key_def mock_rotate_kek_def Let_def split: option.splits)

lemma mock_steps_gone:
  "(mock_step H X)\<^sup>*\<^sup>* s s' \<Longrightarrow> k \<notin> X \<Longrightarrow> keks s k = None \<Longrightarrow> destroyed s k = Some a \<Longrightarrow>
     keks s' k = None \<and> destroyed s' k = Some a"
  by (induction rule: rtranclp_induct) (auto dest: mock_step_gone)

lemma mock_delete_fresh:
  "mock_delete_key H k s = (Inr a, s') \<Longrightarrow> destroyed s k = None \<Longrightarrow> keks s' k = None \<and> destroyed s' k = Some a"
  by (auto simp: mock_delete_key_def Let_def split: if_splits)

text \<open>C26: in the mock backend a deleted key stays dead. After the first deletion of a reference (no receipt was recorded for it before),
through any sequence of operations that does not register it again, no key is generated, wrapped, unwrapped or rotated under it, and every
further deletion returns the same receipt and changes nothing.\<close>
theorem deleted_kek_stays_dead:
  assumes "mock_delete_key H k s = (Inr a, s1)" "destroyed s k = None" "(mock_step H (- {k}))\<^sup>*\<^sup>* s1 s2"
  shows "mock_generate_dek H k s2 = (Inl (KekNotFound (kek_id k)), s2)
    \<and> mock_wrap_dek d k s2 = (Inl (KekNotFound (kek_id k)), s2)
    \<and> mock_unwrap_dek w k s2 = (Inl (if length w \<noteq> 64 then UnwrapFailed else KekNotFound (kek_id k)), s2)
    \<and> mock_rotate_kek k new s2 = (Inl (KekNotFound (kek_id k)), s2)
    \<and> mock_delete_key H k s2 = (Inr a, s2)"
proof -
  have "keks s2 k = None \<and> destroyed s2 k = Some a"
    using mock_steps_gone[OF assms(3)] mock_delete_fresh[OF assms(1,2)] by simp
  then show ?thesis
    by (simp add: mock_generate_dek_def mock_wrap_dek_def mock_unwrap_dek_def mock_rotate_kek_def mock_delete_key_def)
qed

text \<open>A reference registered again after its deletion cannot be deleted any more. The deletion still reports success
with the old receipt, but the key stays and wraps as before.\<close>
theorem reregistered_kek_undeletable:
  assumes "mock_delete_key H k s = (Inr a, s1)" "destroyed s k = None"
  shows "mock_delete_key H k (register_kek H k s1) = (Inr a, register_kek H k s1)"
    "\<exists>w. mock_wrap_dek d k (snd (mock_delete_key H k (register_kek H k s1))) = (Inr w, register_kek H k s1)"
  using mock_delete_fresh[OF assms]
  by (simp_all add: mock_delete_key_def mock_wrap_dek_def register_kek_def Let_def)

text \<open>On AWS two accepted deletions of one key carry different receipts: nothing is cached.\<close>
lemma aws_delete_not_idempotent:
  assumes "aws_delete_key H A k s = (Inr a, s1)" "aws_delete_key H A k s1 = (Inr a2, s2)"
  shows "dsa_log_index a = Some (aws_log_index s)" "dsa_log_index a2 = Some (aws_log_index s + 1)" "a \<noteq> a2"
proof -
  have idx: "dsa_log_index a = Some (aws_log_index s) \<and> aws_log_index s1 = aws_log_index s + 1"
    if "aws_delete_key H A k s = (Inr a, s1)" for a s s1
    using that by (auto simp: aws_delete_key_def sdk_def bnd_def Let_def split: prod.splits sum.splits)
  show "dsa_log_index a = Some (aws_log_index s)" using idx[OF assms(1)] by simp
  moreover show "dsa_log_index a2 = Some (aws_log_index s + 1)" using idx[OF assms(1)] idx[OF assms(2)] by simp
  ultimately show "a \<noteq> a2" by auto
qed

section \<open>Witnesses\<close>

definition demo_hasher :: hasher where
  "demo_hasher = \<lparr>derive_key = (\<lambda>_ k. k), keyed_hash = (\<lambda>_ _. replicate 32 5), plain_hash = (\<lambda>_. replicate 32 6)\<rparr>"

definition demo_kms :: mock_kms where
  "demo_kms = register_kek demo_hasher (KekRef ''k'') MockKms_new"

definition demo_aws :: "unit aws_client" where
  "demo_aws = \<lparr>aws_generate_data_key = (\<lambda>_ c. (Inr (Some (replicate 32 1), Some [1]), c)),
     aws_encrypt = (\<lambda>_ p c. (Inr (Some p), c)), aws_decrypt = (\<lambda>_ b c. (Inr (Some b), c)),
     aws_schedule_key_deletion = (\<lambda>_ _ c. (Inr (None, None), c)), aws_describe_key = (\<lambda>_ c. (Inr (), c))\<rparr>"

lemma demo_aws_ok: "aws_ok demo_aws" by (simp add: aws_ok_def demo_aws_def)

lemma demo_kms_keks: "keks demo_kms (KekRef ''k'') = Some (replicate 32 5)" "mock_wf demo_kms"
  by (simp_all add: demo_kms_def register_kek_def MockKms_new_def demo_hasher_def mock_wf_def)

theorem sealed_data_survives_restart_witness:
  "\<exists>w d2 s''. mock_wrap_dek (demo_key\<lparr>counter := 1\<rparr>) (KekRef ''k'') demo_kms = (Inr w, demo_kms)
     \<and> mock_unwrap_dek w (KekRef ''k'') demo_kms = (Inr d2, s'')
     \<and> decrypt demo_env demo_coordinator ActorHandle demo_envelope d2 = Inr [1, 2]"
proof -
  have l: "length (material demo_key) = 32"
    by (simp add: demo_key_def Dek_from_bytes_def Dek_with_config_def)
  obtain w where w: "mock_wrap_dek (demo_key\<lparr>counter := 1\<rparr>) (KekRef ''k'') demo_kms = (Inr w, demo_kms)"
    by (simp add: mock_wrap_dek_def demo_kms_keks)
  show ?thesis
    using sealed_data_survives_restart[OF demo_env_ok l demo_sealed, of demo_kms] demo_kms_keks(2) w by blast
qed

lemma demo_delete:
  "\<exists>a s1. mock_delete_key demo_hasher (KekRef ''k'') demo_kms = (Inr a, s1)" "destroyed demo_kms (KekRef ''k'') = None"
  by (simp_all add: mock_delete_key_def demo_kms_def register_kek_def MockKms_new_def Let_def)

theorem deleted_kek_stays_dead_witness:
  "\<exists>a s1. mock_delete_key demo_hasher (KekRef ''k'') demo_kms = (Inr a, s1)
     \<and> mock_delete_key demo_hasher (KekRef ''k'') (register_kek demo_hasher (KekRef ''j'') s1)
         = (Inr a, register_kek demo_hasher (KekRef ''j'') s1)"
proof -
  obtain a s1 where d: "mock_delete_key demo_hasher (KekRef ''k'') demo_kms = (Inr a, s1)" using demo_delete(1) by blast
  have "(mock_step demo_hasher (- {KekRef ''k''}))\<^sup>*\<^sup>* s1 (register_kek demo_hasher (KekRef ''j'') s1)"
    by (rule r_into_rtranclp) (rule mock_step.register, simp)
  from deleted_kek_stays_dead[OF d demo_delete(2) this] d show ?thesis by blast
qed

theorem reregistered_kek_undeletable_witness:
  "\<exists>a s1. mock_delete_key demo_hasher (KekRef ''k'') demo_kms = (Inr a, s1)
     \<and> mock_delete_key demo_hasher (KekRef ''k'') (register_kek demo_hasher (KekRef ''k'') s1)
         = (Inr a, register_kek demo_hasher (KekRef ''k'') s1)"
proof -
  obtain a s1 where d: "mock_delete_key demo_hasher (KekRef ''k'') demo_kms = (Inr a, s1)" using demo_delete(1) by blast
  from reregistered_kek_undeletable(1)[OF d demo_delete(2)] d show ?thesis by blast
qed

end
