(* ===== verification/Rand.thy ===== *)
theory Rand
  imports Prelude
begin

text \<open>The random library \<^verbatim>\<open>arkhe-rand\<close>: the buffered byte stream of \<^verbatim>\<open>lib.rs\<close>, the unbiased range sampling of
\<^verbatim>\<open>range.rs\<close> and the shuffle of \<^verbatim>\<open>shuffle.rs\<close>.  The extendable output of BLAKE3 in key-derivation mode is a
parameter: the byte at each position for a context and a seed.  Loops that need not end return an option:
\<^term>\<open>None\<close> is a loop that runs forever.\<close>

section \<open>The stream\<close>

definition KDF_CONTEXT :: string where "KDF_CONTEXT = ''arkhe-rand stream''"

definition XOF_BLOCK_LEN :: nat where "XOF_BLOCK_LEN = 64"

type_synonym xof = "string \<Rightarrow> bytes \<Rightarrow> nat \<Rightarrow> u8"

text \<open>\<^verbatim>\<open>xof_pos\<close> is the position of the output reader.\<close>
record rng_source =
  seed :: bytes
  xof_pos :: nat
  block :: bytes
  pos :: nat

definition from_seed :: "bytes \<Rightarrow> rng_source" where
  "from_seed s = \<lparr>seed = s, xof_pos = 0, block = replicate XOF_BLOCK_LEN 0, pos = XOF_BLOCK_LEN\<rparr>"

definition from_os_entropy :: "string + bytes \<Rightarrow> string + rng_source" where
  "from_os_entropy entropy = (case entropy of Inl e \<Rightarrow> Inl e | Inr s \<Rightarrow> Inr (from_seed s))"

definition xof_fill :: "xof \<Rightarrow> nat \<Rightarrow> rng_source \<Rightarrow> bytes \<times> rng_source" where
  "xof_fill X n r =
     (map (\<lambda>i. X KDF_CONTEXT (seed r) (xof_pos r + i)) [0..<n], r\<lparr>xof_pos := xof_pos r + n\<rparr>)"

text \<open>The buffer is replaced once it is used up.\<close>
definition prefetch :: "xof \<Rightarrow> rng_source \<Rightarrow> rng_source" where
  "prefetch X r =
     (if pos r = XOF_BLOCK_LEN
      then let (bs, r1) = xof_fill X XOF_BLOCK_LEN r in r1\<lparr>block := bs, pos := 0\<rparr>
      else r)"

text \<open>The loop of \<^verbatim>\<open>fill_bytes\<close>; \<^verbatim>\<open>buf\<close> is the part of the buffer filled so far.\<close>
partial_function (option) fill_loop :: "xof \<Rightarrow> nat \<Rightarrow> bytes \<Rightarrow> rng_source \<Rightarrow> (bytes \<times> rng_source) option" where
  "fill_loop X len buf r =
     (if length buf < len then
        if pos r = XOF_BLOCK_LEN \<and> len - length buf \<ge> XOF_BLOCK_LEN then
          (let (bs, r') = xof_fill X (len - length buf) r in Some (buf @ bs, r'))
        else
          (let r' = prefetch X r;
               n = min (len - length buf) (XOF_BLOCK_LEN - pos r')
           in fill_loop X len (buf @ take n (drop (pos r') (block r'))) (r'\<lparr>pos := pos r' + n\<rparr>))
      else Some (buf, r))"

definition fill_bytes :: "xof \<Rightarrow> nat \<Rightarrow> rng_source \<Rightarrow> (bytes \<times> rng_source) option" where
  "fill_bytes X len r = fill_loop X len [] r"

definition split_rng :: "xof \<Rightarrow> rng_source \<Rightarrow> (rng_source \<times> rng_source) option" where
  "split_rng X r = (case fill_bytes X 32 r of None \<Rightarrow> None | Some (child, r') \<Rightarrow> Some (from_seed child, r'))"

section \<open>Range sampling\<close>

text \<open>One draw of the loop: the value sampled, unless it is rejected.  The product is computed at twice the width,
where it cannot overflow.\<close>
definition lemire_draw :: "'a::len word \<Rightarrow> 'a word \<Rightarrow> 'a word option" where
  "lemire_draw n x =
     (let m = unat x * unat n; l = of_nat m :: 'a word in
      if l < n \<and> l < (- n) mod n then None else Some (of_nat (m div 2 ^ LENGTH('a))))"

partial_function (option) lemire_loop :: "xof \<Rightarrow> 'a::len word \<Rightarrow> rng_source \<Rightarrow> ('a word \<times> rng_source) option" where
  "lemire_loop X n r =
     Option.bind (fill_bytes X (LENGTH('a) div 8) r) (\<lambda>(buf, r').
       case lemire_draw n (from_le buf) of
         None \<Rightarrow> lemire_loop X n r'
       | Some v \<Rightarrow> Some (v, r'))"

text \<open>Zero stands for the full range.\<close>
definition lemire :: "xof \<Rightarrow> 'a::len word \<Rightarrow> rng_source \<Rightarrow> ('a word \<times> rng_source) option" where
  "lemire X n r =
     (if n = 0 then map_option (\<lambda>(buf, r'). (from_le buf, r')) (fill_bytes X (LENGTH('a) div 8) r)
      else lemire_loop X n r)"

definition lemire_u32 :: "xof \<Rightarrow> u32 \<Rightarrow> rng_source \<Rightarrow> (u32 \<times> rng_source) option" where "lemire_u32 = lemire"
definition lemire_u64 :: "xof \<Rightarrow> u64 \<Rightarrow> rng_source \<Rightarrow> (u64 \<times> rng_source) option" where "lemire_u64 = lemire"

text \<open>The sealed trait: bounded and inclusive sampling.  The narrow types go through the 32-bit sampler, \<^verbatim>\<open>u64\<close> and
\<^verbatim>\<open>usize\<close> through the 64-bit one; the span is computed in a wider type.\<close>
record 'a rand_int =
  lemire_bounded :: "xof \<Rightarrow> 'a \<Rightarrow> rng_source \<Rightarrow> ('a \<times> rng_source) option"
  lemire_inclusive :: "xof \<Rightarrow> 'a \<Rightarrow> 'a \<Rightarrow> rng_source \<Rightarrow> ('a \<times> rng_source) option"

definition via_u32 :: "'a::len word rand_int" where
  "via_u32 =
     \<lparr>lemire_bounded = (\<lambda>X range_size r. map_option (\<lambda>(v, r'). (ucast v, r')) (lemire_u32 X (ucast range_size) r)),
      lemire_inclusive = (\<lambda>X low high r.
        let span = ucast high - ucast low + 1 :: u64;
            n = (if span = push_bit 32 1 then 0 else ucast span) :: u32
        in map_option (\<lambda>(v, r'). (low + ucast v, r')) (lemire_u32 X n r))\<rparr>"

definition via_u64 :: "'a::len word rand_int" where
  "via_u64 =
     \<lparr>lemire_bounded = (\<lambda>X range_size r. map_option (\<lambda>(v, r'). (ucast v, r')) (lemire_u64 X (ucast range_size) r)),
      lemire_inclusive = (\<lambda>X low high r.
        let span = ucast high - ucast low + 1 :: 128 word;
            n = (if span = push_bit 64 1 then 0 else ucast span) :: u64
        in map_option (\<lambda>(v, r'). (low + ucast v, r')) (lemire_u64 X n r))\<rparr>"

definition rand_u8 :: "u8 rand_int" where "rand_u8 = via_u32"
definition rand_u16 :: "u16 rand_int" where "rand_u16 = via_u32"
definition rand_u32 :: "u32 rand_int" where "rand_u32 = via_u32"
definition rand_u64 :: "u64 rand_int" where "rand_u64 = via_u64"

text \<open>\<^verbatim>\<open>usize\<close> on a 64-bit target.\<close>
definition rand_usize :: "u64 rand_int" where "rand_usize = via_u64"

text \<open>Release builds: an empty range yields its start and draws nothing, an inverted inclusive range is not
checked.\<close>
definition gen_range :: "'a::len word rand_int \<Rightarrow> xof \<Rightarrow> 'a word \<Rightarrow> 'a word \<Rightarrow> rng_source \<Rightarrow> ('a word \<times> rng_source) option" where
  "gen_range I X start end' r =
     (if start \<ge> end' then Some (start, r)
      else map_option (\<lambda>(v, r'). (start + v, r')) (lemire_bounded I X (end' - start) r))"

definition gen_range_inclusive ::
  "'a::len word rand_int \<Rightarrow> xof \<Rightarrow> 'a word \<Rightarrow> 'a word \<Rightarrow> rng_source \<Rightarrow> ('a word \<times> rng_source) option" where
  "gen_range_inclusive I X start end' r = lemire_inclusive I X start end' r"

section \<open>Shuffling\<close>

definition swap :: "'b list \<Rightarrow> nat \<Rightarrow> nat \<Rightarrow> 'b list" where
  "swap xs i j = xs[i := xs ! j, j := xs ! i]"

fun shuffle_loop :: "xof \<Rightarrow> nat \<Rightarrow> 'b list \<Rightarrow> rng_source \<Rightarrow> ('b list \<times> rng_source) option" where
  "shuffle_loop X 0 xs r = Some (xs, r)"
| "shuffle_loop X (Suc i) xs r =
     Option.bind (gen_range_inclusive rand_usize X 0 (of_nat (Suc i)) r) (\<lambda>(j, r').
       shuffle_loop X i (swap xs (Suc i) (unat j)) r')"

definition shuffle :: "xof \<Rightarrow> 'b list \<Rightarrow> rng_source \<Rightarrow> ('b list \<times> rng_source) option" where
  "shuffle X xs r = (if length xs < 2 then Some (xs, r) else shuffle_loop X (length xs - 1) xs r)"

section \<open>The stream, without the buffer\<close>

text \<open>Well-formed sources: the buffer holds the last block read, and its unread part is still to be emitted.\<close>
definition rng_ok :: "xof \<Rightarrow> rng_source \<Rightarrow> bool" where
  "rng_ok X r \<longleftrightarrow> length (block r) = 64 \<and> pos r \<le> 64 \<and>
     (pos r = 64 \<or> (64 \<le> xof_pos r \<and> block r = map (X KDF_CONTEXT (seed r)) [xof_pos r - 64..<xof_pos r]))"

text \<open>The number of bytes emitted, and the bytes of the stream from there.\<close>
definition emitted :: "rng_source \<Rightarrow> nat" where
  "emitted r = xof_pos r - (64 - pos r)"

definition stream :: "xof \<Rightarrow> rng_source \<Rightarrow> nat \<Rightarrow> nat \<Rightarrow> bytes" where
  "stream X r from n = map (X KDF_CONTEXT (seed r)) [emitted r + from..<emitted r + from + n]"

lemma length_stream [simp]: "length (stream X r k n) = n"
  by (simp add: stream_def)

lemma rng_ok_from_seed: "rng_ok X (from_seed s)" "emitted (from_seed s) = 0"
  by (simp_all add: rng_ok_def from_seed_def XOF_BLOCK_LEN_def emitted_def)

definition advanced :: "xof \<Rightarrow> nat \<Rightarrow> rng_source \<Rightarrow> rng_source \<Rightarrow> bool" where
  "advanced X n r r' \<longleftrightarrow> rng_ok X r' \<and> seed r' = seed r \<and> emitted r' = emitted r + n"

lemma advanced_trans: "advanced X m r r' \<Longrightarrow> advanced X n r' r'' \<Longrightarrow> advanced X (m + n) r r''"
  by (simp add: advanced_def)

lemma stream_advanced: "advanced X m r r' \<Longrightarrow> stream X r' k n = stream X r (m + k) n"
  by (simp add: advanced_def stream_def ac_simps)

lemma stream_append: "stream X r k m @ stream X r (k + m) n = stream X r k (m + n)"
proof -
  have "[emitted r + k..<emitted r + k + (m + n)]
      = [emitted r + k..<emitted r + k + m] @ [emitted r + k + m..<emitted r + k + m + n]"
    using upt_add_eq_append[of "emitted r + k" "emitted r + k + m" n] by (simp add: ac_simps)
  then show ?thesis by (simp add: stream_def ac_simps)
qed

text \<open>A source with something in its buffer emits from it.\<close>
lemma buffered_emit:
  assumes ok: "rng_ok X r" and p: "pos r < 64" and n: "n \<le> 64 - pos r"
  shows "take n (drop (pos r) (block r)) = stream X r 0 n" "advanced X n r (r\<lparr>pos := pos r + n\<rparr>)"
proof -
  have b: "64 \<le> xof_pos r" "block r = map (X KDF_CONTEXT (seed r)) [xof_pos r - 64..<xof_pos r]" "length (block r) = 64"
    using ok p by (auto simp: rng_ok_def)
  have e: "emitted r = xof_pos r - 64 + pos r" using b(1) p by (simp add: emitted_def)
  have "emitted r + n \<le> xof_pos r" using n b(1) p by (simp add: e)
  then have "take n (drop (pos r) [xof_pos r - 64..<xof_pos r]) = [emitted r..<emitted r + n]"
    unfolding drop_upt e[symmetric] by (rule take_upt)
  then show "take n (drop (pos r) (block r)) = stream X r 0 n"
    unfolding b(2) take_map drop_map by (simp add: stream_def)
  show "advanced X n r (r\<lparr>pos := pos r + n\<rparr>)"
  proof -
    have "pos r + n \<le> 64" using n p by linarith
    then show ?thesis using b by (auto simp: advanced_def rng_ok_def emitted_def)
  qed
qed

lemma refill:
  assumes ok: "rng_ok X r" and p: "pos r = 64" and f: "xof_fill X 64 r = (bs, r1)"
  shows "rng_ok X (r1\<lparr>block := bs, pos := 0\<rparr>)" "emitted (r1\<lparr>block := bs, pos := 0\<rparr>) = emitted r"
    "seed (r1\<lparr>block := bs, pos := 0\<rparr>) = seed r"
proof -
  have "bs = map (X KDF_CONTEXT (seed r)) [xof_pos r..<xof_pos r + 64]" "r1 = r\<lparr>xof_pos := xof_pos r + 64\<rparr>"
    using f by (auto simp: xof_fill_def intro: nth_equalityI)
  then show "rng_ok X (r1\<lparr>block := bs, pos := 0\<rparr>)" "emitted (r1\<lparr>block := bs, pos := 0\<rparr>) = emitted r"
    "seed (r1\<lparr>block := bs, pos := 0\<rparr>) = seed r"
    using p by (simp_all add: rng_ok_def emitted_def)
qed

lemma fill_loop_stream:
  "rng_ok X r \<Longrightarrow> length buf \<le> len \<Longrightarrow>
     \<exists>r'. fill_loop X len buf r = Some (buf @ stream X r 0 (len - length buf), r') \<and> advanced X (len - length buf) r r'"
proof (induction "len - length buf" arbitrary: buf r rule: less_induct)
  case less
  note ok = less.prems(1)
  consider (full) "length buf = len"
    | (direct) "length buf < len" "pos r = 64" "64 \<le> len - length buf"
    | (buffered) "length buf < len" "\<not> (pos r = 64 \<and> 64 \<le> len - length buf)"
    using less.prems(2) by linarith
  then show ?case
  proof cases
    case full
    then show ?thesis using ok by (simp add: fill_loop.simps advanced_def stream_def)
  next
    case direct
    obtain bs r1 where f: "xof_fill X (len - length buf) r = (bs, r1)" by (metis surj_pair)
    have "bs = stream X r 0 (len - length buf)" "r1 = r\<lparr>xof_pos := xof_pos r + (len - length buf)\<rparr>"
      using f direct(2) by (auto simp: xof_fill_def stream_def emitted_def intro!: nth_equalityI)
    moreover have "advanced X (len - length buf) r (r\<lparr>xof_pos := xof_pos r + (len - length buf)\<rparr>)"
      using ok direct(2) by (simp add: advanced_def rng_ok_def emitted_def)
    ultimately show ?thesis using direct f by (subst fill_loop.simps) (simp add: XOF_BLOCK_LEN_def)
  next
    case buffered
    define r1 where "r1 = prefetch X r"
    have r1: "rng_ok X r1" "emitted r1 = emitted r" "seed r1 = seed r" "pos r1 < 64"
    proof -
      have "rng_ok X r1 \<and> emitted r1 = emitted r \<and> seed r1 = seed r \<and> pos r1 < 64"
      proof (cases "pos r = 64")
        case True
        obtain bs r' where f: "xof_fill X 64 r = (bs, r')" by (metis surj_pair)
        show ?thesis using refill[OF ok True f] True f by (simp add: r1_def prefetch_def XOF_BLOCK_LEN_def)
      next
        case False
        then show ?thesis using ok by (auto simp: r1_def prefetch_def XOF_BLOCK_LEN_def rng_ok_def)
      qed
      then show "rng_ok X r1" "emitted r1 = emitted r" "seed r1 = seed r" "pos r1 < 64" by simp_all
    qed
    define n where "n = min (len - length buf) (64 - pos r1)"
    have n: "0 < n" "n \<le> 64 - pos r1" "n \<le> len - length buf" using r1(4) buffered(1) by (simp_all add: n_def)
    define r2 where "r2 = r1\<lparr>pos := pos r1 + n\<rparr>"
    note em = buffered_emit[OF r1(1,4) n(2), folded r2_def]
    have chunk: "take n (drop (pos r1) (block r1)) = stream X r 0 n" using em(1) r1(2,3) by (simp add: stream_def)
    have adv: "advanced X n r r2" using em(2) r1(2,3) by (simp add: advanced_def)
    let ?buf = "buf @ stream X r 0 n"
    have step: "fill_loop X len buf r = fill_loop X len ?buf r2"
      by (subst fill_loop.simps)
        (use buffered in \<open>auto simp: XOF_BLOCK_LEN_def r1_def[symmetric] n_def[symmetric] r2_def[symmetric] chunk Let_def\<close>)
    have "len - length ?buf < len - length buf" using n by simp
    moreover have "rng_ok X r2" using adv by (simp add: advanced_def)
    moreover have "length ?buf \<le> len" using n by simp
    ultimately obtain r' where r': "fill_loop X len ?buf r2 = Some (?buf @ stream X r2 0 (len - length ?buf), r')"
      "advanced X (len - length ?buf) r2 r'" using less.hyps by blast
    have "n + (len - length ?buf) = len - length buf" using n by simp
    moreover have "?buf @ stream X r2 0 (len - length ?buf) = buf @ stream X r 0 (n + (len - length ?buf))"
      using stream_append[of X r 0 n "len - length ?buf"] stream_advanced[OF adv, of 0] by simp
    ultimately show ?thesis using r' step advanced_trans[OF adv r'(2)] by metis
  qed
qed

lemma fill_bytes_stream:
  "rng_ok X r \<Longrightarrow> \<exists>r'. fill_bytes X n r = Some (stream X r 0 n, r') \<and> advanced X n r r'"
  using fill_loop_stream[of X r "[]" n] by (simp add: fill_bytes_def)

end
