(* ===== verification/Rand_Sampling.thy ===== *)
theory Rand_Sampling
  imports Rand "HOL-Library.Multiset"
begin

text \<open>Correctness of the range sampling of \<^verbatim>\<open>arkhe-rand\<close>: each loop takes the first draw of the stream that is not
rejected, every value of the range is the image of equally many draws, and the inclusive ranges of every
integer type reach exactly their values.\<close>

section \<open>One draw\<close>

text \<open>A draw with the sentinel for the full range taken into account, and the number of values it can take.\<close>
definition sample :: "'a::len word \<Rightarrow> 'a word \<Rightarrow> 'a word option" where
  "sample n x = (if n = 0 then Some x else lemire_draw n x)"

definition range_size :: "'a::len word \<Rightarrow> nat" where
  "range_size n = (if n = 0 then 2 ^ LENGTH('a) else unat n)"

lemma neg_mod: "n \<noteq> 0 \<Longrightarrow> unat (- n mod n) = 2 ^ LENGTH('a) mod unat (n :: 'a::len word)"
proof -
  assume "n \<noteq> 0"
  then have n: "\<not> unat n \<le> 0" by (simp add: unat_eq_zero)
  then have "unat (- n) = 2 ^ LENGTH('a) - unat n" using unat_sub_if'[of 0 n] by simp
  moreover have "unat n \<le> 2 ^ LENGTH('a)" using unsigned_less[of n] by (simp add: less_imp_le)
  ultimately show ?thesis by (simp add: unat_mod_distrib le_mod_geq)
qed

lemma lemire_draw_nat:
  fixes n x :: "'a::len word"
  assumes "n \<noteq> 0"
  shows "lemire_draw n x =
    (if (unat x * unat n) mod 2 ^ LENGTH('a) < 2 ^ LENGTH('a) mod unat n then None
     else Some (of_nat ((unat x * unat n) div 2 ^ LENGTH('a))))"
proof -
  have n: "0 < unat n" using assms by (simp add: unat_gt_0)
  have l: "unat (of_nat m :: 'a word) = m mod 2 ^ LENGTH('a)" for m
    by (simp add: unat_of_nat take_bit_eq_mod)
  have "2 ^ LENGTH('a) mod unat n < unat n" using n by (rule mod_less_divisor)
  then show ?thesis
    by (auto simp: lemire_draw_def Let_def word_less_nat_alt l neg_mod[OF assms] simp flip: of_nat_mult)
qed

lemma product_div_less: "x < p \<Longrightarrow> 0 < n \<Longrightarrow> x * n div p < (n :: nat)"
  by (metis div_less_iff_less_mult gr_implies_not0 mult.commute mult_less_mono1 neq0_conv)

lemma lemire_draw_bound:
  fixes n x v :: "'a::len word"
  shows "n \<noteq> 0 \<Longrightarrow> lemire_draw n x = Some v \<Longrightarrow> unat v = (unat x * unat n) div 2 ^ LENGTH('a) \<and> v < n"
proof -
  assume n: "n \<noteq> 0" and d: "lemire_draw n x = Some v"
  have lt: "(unat x * unat n) div 2 ^ LENGTH('a) < unat n"
    using n by (intro product_div_less) (simp_all add: unat_gt_0)
  moreover have "unat n < 2 ^ LENGTH('a)" by simp
  ultimately have "unat (of_nat ((unat x * unat n) div 2 ^ LENGTH('a)) :: 'a word) = (unat x * unat n) div 2 ^ LENGTH('a)"
    unfolding unat_of_nat take_bit_eq_mod by (intro mod_less) (rule less_trans)
  then show ?thesis using d lt by (auto simp: lemire_draw_nat[OF n] word_less_nat_alt split: if_splits)
qed

text \<open>An interval of a length divisible by \<^verbatim>\<open>n\<close> holds exactly one multiple of \<^verbatim>\<open>n\<close> per step.\<close>
lemma multiples_in_interval:
  assumes "0 < (n :: nat)"
  shows "{k. a \<le> k * n \<and> k * n < a + n * q} = {(a + n - 1) div n..<(a + n - 1) div n + q}"
proof -
  have ceil: "(c + n - 1) div n \<le> k \<longleftrightarrow> c \<le> k * n" for c k
  proof -
    have "(c + n - 1) div n \<le> k \<longleftrightarrow> (c + n - 1) div n < Suc k" by linarith
    also have "\<dots> \<longleftrightarrow> c + n - 1 < Suc k * n" by (rule div_less_iff_less_mult[OF assms])
    also have "\<dots> \<longleftrightarrow> c \<le> k * n" using assms by simp linarith
    finally show ?thesis .
  qed
  have "a + n * q + n - 1 = (a + n - 1) + n * q" using assms by linarith
  also have "((a + n - 1) + n * q) div n = q + (a + n - 1) div n" using assms by (intro div_mult_self2) simp
  finally have shift: "(a + n * q + n - 1) div n = (a + n - 1) div n + q" by linarith
  show ?thesis using ceil[of a] ceil[of "a + n * q"] shift by (auto simp: not_le[symmetric])
qed

text \<open>Each value is the image of equally many draws, and fewer draws are rejected than there are values.\<close>
lemma lemire_draw_uniform:
  fixes n v :: "'a::len word"
  assumes "n \<noteq> 0"
  shows "v < n \<Longrightarrow> card {x. lemire_draw n x = Some v} = 2 ^ LENGTH('a) div unat n"
proof -
  assume v: "v < n"
  let ?p = "2 ^ LENGTH('a) :: nat" and ?n = "unat n"
  let ?t = "?p mod ?n" and ?q = "?p div ?n"
  let ?a = "unat v * ?p + ?t"
  have n: "0 < ?n" using assms by (simp add: unat_gt_0)
  have len: "?a + ?n * ?q = (unat v + 1) * ?p" by (simp add: mult_div_mod_eq)
  have hit: "lemire_draw n x = Some v \<longleftrightarrow> ?a \<le> unat x * ?n \<and> unat x * ?n < ?a + ?n * ?q" for x
  proof -
    let ?m = "unat x * ?n"
    have m: "?m = ?m div ?p * ?p + ?m mod ?p" by (rule div_mult_mod_eq[symmetric])
    have b: "?m mod ?p < ?p" by simp
    have "lemire_draw n x = Some v \<longleftrightarrow> ?m div ?p = unat v \<and> ?t \<le> ?m mod ?p"
    proof
      assume d: "lemire_draw n x = Some v"
      then show "?m div ?p = unat v \<and> ?t \<le> ?m mod ?p"
        using lemire_draw_bound[OF assms d] by (auto simp: lemire_draw_nat[OF assms] split: if_splits)
    qed (auto simp: lemire_draw_nat[OF assms])
    also have "\<dots> \<longleftrightarrow> ?a \<le> ?m \<and> ?m < (unat v + 1) * ?p"
    proof safe
      assume "?m div ?p = unat v" "?t \<le> ?m mod ?p"
      then have "?m = unat v * ?p + ?m mod ?p" "?t \<le> ?m mod ?p" using m by simp_all
      then show "?a \<le> ?m" "?m < (unat v + 1) * ?p" using b unfolding add_mult_distrib by linarith+
    next
      assume h: "?a \<le> ?m" "?m < (unat v + 1) * ?p"
      then show d: "?m div ?p = unat v" by (intro div_nat_eqI) (simp_all add: algebra_simps)
      show "?t \<le> ?m mod ?p" using h(1) m unfolding d by linarith
    qed
    finally show ?thesis unfolding len .
  qed
  have below: "k < ?p" if "k * ?n < ?a + ?n * ?q" for k
  proof -
    have "(unat v + 1) * ?p \<le> ?n * ?p" using v by (intro mult_le_mono1) (simp add: word_less_nat_alt)
    then have "k * ?n < ?n * ?p" using that unfolding len by (rule less_le_trans[rotated])
    then have "k * ?n < ?p * ?n" by (simp only: mult.commute)
    then show ?thesis using n by simp
  qed
  have "unat ` {x. lemire_draw n x = Some v} = {k. ?a \<le> k * ?n \<and> k * ?n < ?a + ?n * ?q}"
  proof (intro set_eqI iffI)
    fix k assume k: "k \<in> {k. ?a \<le> k * ?n \<and> k * ?n < ?a + ?n * ?q}"
    then have "unat (of_nat k :: 'a word) = k" using below[of k] by (simp add: unat_of_nat take_bit_eq_mod)
    then show "k \<in> unat ` {x. lemire_draw n x = Some v}"
      using k by (intro image_eqI[of _ _ "of_nat k"]) (simp_all add: hit)
  qed (auto simp: hit)
  then have "card (unat ` {x. lemire_draw n x = Some v}) = ?q"
    by (simp only: multiples_in_interval[OF n] card_atLeastLessThan diff_add_inverse)
  moreover have "inj_on unat {x. lemire_draw n x = Some v}" by (simp add: inj_on_def word_unat_eq_iff)
  ultimately show ?thesis by (simp add: card_image)
qed

lemma sample_uniform:
  fixes n v :: "'a::len word"
  shows "unat v < range_size n \<Longrightarrow> card {x. sample n x = Some v} = 2 ^ LENGTH('a) div range_size n"
  by (auto simp: sample_def range_size_def word_less_nat_alt lemire_draw_uniform)

lemma sample_bound: "sample n x = Some v \<Longrightarrow> unat v < range_size n"
  by (auto simp: sample_def range_size_def word_less_nat_alt dest: lemire_draw_bound split: if_splits)

section \<open>The loop\<close>

text \<open>The draws of the stream, in order.\<close>
definition draw :: "xof \<Rightarrow> rng_source \<Rightarrow> nat \<Rightarrow> 'a::len word" where
  "draw X r i = from_le (stream X r (LENGTH('a) div 8 * i) (LENGTH('a) div 8))"

text \<open>The first draw that is not rejected.\<close>
definition accepts :: "xof \<Rightarrow> 'a::len word \<Rightarrow> rng_source \<Rightarrow> nat \<Rightarrow> 'a word \<Rightarrow> bool" where
  "accepts X n r i v \<longleftrightarrow> sample n (draw X r i) = Some v \<and> (\<forall>j<i. sample n (draw X r j :: 'a word) = None)"

lemma draw_Suc: "advanced X (LENGTH('a) div 8) r r' \<Longrightarrow> draw X r (Suc i) = (draw X r' i :: 'a::len word)"
  by (simp add: draw_def stream_advanced)

lemma fill_draw:
  "rng_ok X r \<Longrightarrow> \<exists>r'. fill_bytes X (LENGTH('a::len) div 8) r = Some (stream X r 0 (LENGTH('a) div 8), r')
     \<and> advanced X (LENGTH('a) div 8) r r' \<and> from_le (stream X r 0 (LENGTH('a) div 8)) = (draw X r 0 :: 'a word)"
  using fill_bytes_stream[of X r "LENGTH('a) div 8"] by (auto simp: draw_def)

lemma lemire_loop_accepts:
  fixes n v :: "'a::len word"
  shows "rng_ok X r \<Longrightarrow> n \<noteq> 0 \<Longrightarrow> accepts X n r i v \<Longrightarrow>
     \<exists>r'. lemire_loop X n r = Some (v, r') \<and> advanced X (LENGTH('a) div 8 * Suc i) r r'"
proof (induction i arbitrary: r)
  case 0
  obtain r' where r': "fill_bytes X (LENGTH('a) div 8) r = Some (stream X r 0 (LENGTH('a) div 8), r')"
    "advanced X (LENGTH('a) div 8) r r'" "from_le (stream X r 0 (LENGTH('a) div 8)) = (draw X r 0 :: 'a word)"
    using fill_draw[OF 0(1), where 'a = 'a] by blast
  then show ?case using 0 by (subst lemire_loop.simps) (simp add: accepts_def sample_def)
next
  case (Suc i)
  obtain r' where r': "fill_bytes X (LENGTH('a) div 8) r = Some (stream X r 0 (LENGTH('a) div 8), r')"
    "advanced X (LENGTH('a) div 8) r r'" "from_le (stream X r 0 (LENGTH('a) div 8)) = (draw X r 0 :: 'a word)"
    using fill_draw[OF Suc(2), where 'a = 'a] by blast
  have rej: "lemire_draw n (draw X r 0) = None" using Suc.prems by (auto simp: accepts_def sample_def)
  have "accepts X n r' i v"
    using Suc.prems(3) unfolding accepts_def draw_Suc[OF r'(2), symmetric] by auto
  moreover have "rng_ok X r'" using r'(2) by (simp add: advanced_def)
  ultimately obtain r'' where r'': "lemire_loop X n r' = Some (v, r'')"
      "advanced X (LENGTH('a) div 8 * Suc i) r' r''" using Suc.IH Suc.prems(2) by blast
  have "LENGTH('a) div 8 + LENGTH('a) div 8 * Suc i = LENGTH('a) div 8 * Suc (Suc i)" by simp
  then show ?case
    using advanced_trans[OF r'(2) r''(2)] r'' r' rej by (subst lemire_loop.simps) simp
qed

lemma lemire_loop_Some:
  fixes n :: "'a::len word"
  shows "lemire_loop X n r = Some y \<Longrightarrow> rng_ok X r \<Longrightarrow> n \<noteq> 0 \<Longrightarrow> \<exists>i. accepts X n r i (fst y)"
proof (induction X n r y rule: lemire_loop.raw_induct[rotated, consumes 1])
  case (1 f X n r y)
  obtain r' where r': "fill_bytes X (LENGTH('a) div 8) r = Some (stream X r 0 (LENGTH('a) div 8), r')"
    "advanced X (LENGTH('a) div 8) r r'" "from_le (stream X r 0 (LENGTH('a) div 8)) = (draw X r 0 :: 'a word)"
    using fill_draw[OF 1(3), where 'a = 'a] by blast
  show ?case
  proof (cases "lemire_draw n (draw X r 0)")
    case None
    then have "f X n r' = Some y" using 1(2) r' by simp
    moreover have "rng_ok X r'" using r'(2) by (simp add: advanced_def)
    ultimately obtain i where "accepts X n r' i (fst y)" using 1(1) 1(4) by blast
    then have "accepts X n r (Suc i) (fst y)"
      using None 1(4) by (auto simp: accepts_def draw_Suc[OF r'(2)] sample_def less_Suc_eq_0_disj)
    then show ?thesis by blast
  next
    case (Some v)
    then have "y = (v, r')" using 1(2) r' by simp
    then show ?thesis using Some 1(4) by (intro exI[of _ 0]) (simp add: accepts_def sample_def)
  qed
qed

text \<open>The sampler returns exactly when some draw of the stream is accepted, with that draw's value, having consumed the
draws up to it.\<close>
lemma lemire_characterised:
  fixes n :: "'a::len word"
  assumes "rng_ok X r"
  shows "accepts X n r i v \<Longrightarrow> \<exists>r'. lemire X n r = Some (v, r') \<and> advanced X (LENGTH('a) div 8 * Suc i) r r'"
    "lemire X n r = Some (v, r') \<Longrightarrow> \<exists>i. accepts X n r i v"
proof -
  obtain r1 where r1: "fill_bytes X (LENGTH('a) div 8) r = Some (stream X r 0 (LENGTH('a) div 8), r1)"
    "advanced X (LENGTH('a) div 8) r r1" "from_le (stream X r 0 (LENGTH('a) div 8)) = (draw X r 0 :: 'a word)"
    using fill_draw[OF assms, where 'a = 'a] by blast
  show "\<exists>r'. lemire X n r = Some (v, r') \<and> advanced X (LENGTH('a) div 8 * Suc i) r r'" if "accepts X n r i v"
  proof (cases "n = 0")
    case True
    then have "i = 0" using that by (cases i) (auto simp: accepts_def sample_def)
    then show ?thesis using True that r1 by (auto simp: lemire_def accepts_def sample_def)
  next
    case False
    then show ?thesis using lemire_loop_accepts[OF assms False that] by (simp add: lemire_def)
  qed
  show "\<exists>i. accepts X n r i v" if "lemire X n r = Some (v, r')"
  proof (cases "n = 0")
    case True
    then show ?thesis using that r1 by (intro exI[of _ 0]) (auto simp: lemire_def accepts_def sample_def)
  next
    case False
    then show ?thesis using lemire_loop_Some[of X n r "(v, r')"] that assms by (simp add: lemire_def)
  qed
qed

lemma lemire_Some_iff:
  fixes n :: "'a::len word"
  assumes "rng_ok X r"
  shows "lemire X n r = Some (v, r') \<longleftrightarrow> (\<exists>i. accepts X n r i v \<and> lemire X n r = Some (v, r')
     \<and> advanced X (LENGTH('a) div 8 * Suc i) r r')"
  using lemire_characterised[OF assms] by fastforce

section \<open>Inclusive ranges\<close>

text \<open>The size handed to the sampler for a range, and what a raw draw of the sampler gives.\<close>
definition inclusive_size :: "'a::len word \<Rightarrow> 'a word \<Rightarrow> 's::len word" where
  "inclusive_size low high = of_nat (unat high - unat low + 1)"

definition inclusive_draw :: "'a::len word \<Rightarrow> 'a word \<Rightarrow> 's::len word \<Rightarrow> 'a word option" where
  "inclusive_draw low high x = map_option (\<lambda>v. low + ucast v) (sample (inclusive_size low high) x)"

lemma range_size_inclusive:
  fixes low high :: "'a::len word"
  assumes "low \<le> high" "LENGTH('a) \<le> LENGTH('s::len)"
  shows "range_size (inclusive_size low high :: 's word) = unat high - unat low + 1"
proof -
  let ?k = "unat high - unat low + 1"
  have "unat high < 2 ^ LENGTH('a)" by simp
  also have "(2 :: nat) ^ LENGTH('a) \<le> 2 ^ LENGTH('s)" using assms(2) by (intro power_increasing) simp_all
  finally have k: "?k \<le> 2 ^ LENGTH('s)" by simp
  show ?thesis
  proof (cases "?k = 2 ^ LENGTH('s)")
    case True
    then have "(inclusive_size low high :: 's word) = 0" by (simp only: inclusive_size_def) simp
    then show ?thesis using True by (simp add: range_size_def)
  next
    case False
    then have "unat (inclusive_size low high :: 's word) = ?k"
      using k by (simp only: inclusive_size_def unat_of_nat take_bit_eq_mod mod_less le_neq_implies_less)
    then show ?thesis by (auto simp: range_size_def)
  qed
qed

text \<open>The value added to the start of a range neither wraps nor loses bits.\<close>
lemma low_plus:
  fixes low high :: "'a::len word" and v :: "'s::len word"
  assumes "low \<le> high" "unat v < unat high - unat low + 1"
  shows "unat (low + ucast v) = unat low + unat v" "low \<le> low + ucast v" "low + ucast v \<le> high"
proof -
  have le: "unat low \<le> unat high" using assms(1) by (simp add: word_le_nat_alt)
  then have sum: "unat low + unat v \<le> unat high" using assms(2) by linarith
  have b: "unat low + unat v < 2 ^ LENGTH('a)" "unat low + unat v \<le> unat high"
    by (rule le_less_trans[OF sum unsigned_less]) (rule sum)
  have "unat (ucast v :: 'a word) = unat v"
    using b(1) by (simp add: unsigned_ucast_eq take_bit_eq_mod)
  then show e: "unat (low + ucast v) = unat low + unat v" using b(1) by (simp add: unat_plus_if')
  show "low \<le> low + ucast v" "low + ucast v \<le> high" using b e by (simp_all add: word_le_nat_alt)
qed

lemma inclusive_draw_range:
  fixes low high y :: "'a::len word" and x :: "'s::len word"
  assumes "low \<le> high" "LENGTH('a) \<le> LENGTH('s)" "inclusive_draw low high x = Some y"
  shows "low \<le> y \<and> y \<le> high"
proof -
  obtain v where v: "sample (inclusive_size low high) x = Some v" "y = low + ucast v"
    using assms(3) by (auto simp: inclusive_draw_def)
  have "unat v < unat high - unat low + 1"
    using sample_bound[OF v(1)] range_size_inclusive[OF assms(1,2)] by simp
  from low_plus[OF assms(1) this] show ?thesis by (simp add: v(2))
qed

lemma inclusive_draw_uniform:
  fixes low high y :: "'a::len word"
  assumes "low \<le> high" "LENGTH('a) \<le> LENGTH('s)" "low \<le> y" "y \<le> high"
  shows "card {x :: 's::len word. inclusive_draw low high x = Some y} = 2 ^ LENGTH('s) div (unat high - unat low + 1)"
proof -
  note size = range_size_inclusive[where 's = 's, OF assms(1,2)]
  let ?v = "of_nat (unat y - unat low) :: 's word"
  have le: "unat low \<le> unat y" "unat y \<le> unat high" using assms(3,4) by (simp_all add: word_le_nat_alt)
  have "unat y - unat low < 2 ^ LENGTH('s)"
  proof -
    have "unat y < 2 ^ LENGTH('a)" by simp
    also have "(2 :: nat) ^ LENGTH('a) \<le> 2 ^ LENGTH('s)" using assms(2) by (intro power_increasing) simp_all
    finally show ?thesis by simp
  qed
  then have v: "unat ?v = unat y - unat low" by (simp add: unat_of_nat take_bit_eq_mod)
  then have lt: "unat ?v < range_size (inclusive_size low high :: 's word)" using le size by simp
  have "inclusive_draw low high x = Some y \<longleftrightarrow> sample (inclusive_size low high) x = Some ?v" for x :: "'s word"
  proof
    assume "inclusive_draw low high x = Some y"
    then obtain w where w: "sample (inclusive_size low high) x = Some w" "y = low + ucast w"
      by (auto simp: inclusive_draw_def)
    have "unat w < unat high - unat low + 1" using sample_bound[OF w(1)] size by simp
    from low_plus(1)[OF assms(1) this] have "unat w = unat ?v" unfolding v w(2) by simp
    then have "w = ?v" by (rule word_unat_eq_iff[THEN iffD2])
    then show "sample (inclusive_size low high) x = Some ?v" using w(1) by simp
  next
    assume s: "sample (inclusive_size low high) x = Some ?v"
    have "unat ?v < unat high - unat low + 1" using v le by simp
    from low_plus(1)[OF assms(1) this] have "unat (low + ucast ?v) = unat y" unfolding v using le by simp
    then have "low + ucast ?v = y" by (rule word_unat_eq_iff[THEN iffD2])
    then show "inclusive_draw low high x = Some y" using s by (simp add: inclusive_draw_def)
  qed
  then show ?thesis using sample_uniform[OF lt] size by simp
qed

text \<open>The span in the wider type, with its sentinel, is the size.\<close>
lemma span_sentinel:
  fixes low high :: "'a::len word"
  assumes "low \<le> high" "LENGTH('a) \<le> LENGTH('s::len)" "LENGTH('s) < LENGTH('w::len)"
  shows "(if (ucast high - ucast low + 1 :: 'w word) = push_bit LENGTH('s) 1 then 0
      else ucast (ucast high - ucast low + 1 :: 'w word)) = (inclusive_size low high :: 's word)"
proof -
  let ?k = "unat high - unat low + 1"
  have "unat high < 2 ^ LENGTH('a)" by simp
  also have "(2 :: nat) ^ LENGTH('a) \<le> 2 ^ LENGTH('s)" using assms(2) by (intro power_increasing) simp_all
  finally have k: "?k \<le> 2 ^ LENGTH('s)" by simp
  have "(2 :: nat) ^ LENGTH('s) < 2 ^ LENGTH('w)" using assms(3) by (intro power_strict_increasing) simp_all
  then have kw: "?k < 2 ^ LENGTH('w)" "(2 :: nat) ^ LENGTH('s) < 2 ^ LENGTH('w)" using k by linarith+
  have le: "unat low \<le> unat high" using assms(1) by (simp add: word_le_nat_alt)
  have "LENGTH('a) \<le> LENGTH('w)" using assms(2,3) by simp
  then have u: "unat (ucast w :: 'w word) = unat w" for w :: "'a word"
  proof -
    have "unat w < 2 ^ LENGTH('a)" by simp
    also have "(2 :: nat) ^ LENGTH('a) \<le> 2 ^ LENGTH('w)" using \<open>LENGTH('a) \<le> LENGTH('w)\<close> by (intro power_increasing) simp_all
    finally show ?thesis by (simp add: unsigned_ucast_eq take_bit_nat_eq_self)
  qed
  have "(ucast high - ucast low + 1 :: 'w word) = of_nat (unat high) - of_nat (unat low) + 1"
    by (simp only: of_nat_unat)
  then have span: "(ucast high - ucast low + 1 :: 'w word) = of_nat ?k"
    using le by (simp add: of_nat_diff)
  have uk: "unat (of_nat ?k :: 'w word) = ?k"
    using kw(1) by (simp only: unat_of_nat take_bit_eq_mod mod_less)
  have "(push_bit LENGTH('s) 1 :: 'w word) = of_nat (2 ^ LENGTH('s))" by (simp add: push_bit_eq_mult)
  then have "unat (push_bit LENGTH('s) 1 :: 'w word) = 2 ^ LENGTH('s)"
    using kw(2) by (simp only: unat_of_nat take_bit_eq_mod mod_less)
  then have full: "(of_nat ?k :: 'w word) = push_bit LENGTH('s) 1 \<longleftrightarrow> ?k = 2 ^ LENGTH('s)"
    unfolding word_unat_eq_iff uk by simp
  have narrow: "ucast (of_nat ?k :: 'w word) = (of_nat ?k :: 's word)"
    unfolding word_unat_eq_iff unsigned_ucast_eq uk by (simp only: unat_of_nat take_bit_eq_mod)
  show ?thesis unfolding span full narrow inclusive_size_def
  proof (cases "?k = 2 ^ LENGTH('s)")
    case True
    have "(of_nat ?k :: 's word) = 0" unfolding True by simp
    then show "(if ?k = 2 ^ LENGTH('s) then 0 else (of_nat ?k :: 's word)) = of_nat ?k"
      unfolding if_P[OF True] by (rule sym)
  next
    case False
    show "(if ?k = 2 ^ LENGTH('s) then 0 else (of_nat ?k :: 's word)) = of_nat ?k" unfolding if_not_P[OF False] ..
  qed
qed

text \<open>The samplers of the integer types are the samplers of inclusive draws.\<close>
lemma via_u32_inclusive:
  fixes low high :: "'a::len word"
  assumes "low \<le> high" "LENGTH('a) \<le> 32"
  shows "lemire_inclusive via_u32 X low high r
     = map_option (\<lambda>(v, r'). (low + ucast v, r')) (lemire X (inclusive_size low high :: u32) r)"
  using span_sentinel[of low high, where 's = 32 and 'w = 64] assms by (simp add: via_u32_def lemire_u32_def Let_def)

lemma via_u64_inclusive:
  fixes low high :: "'a::len word"
  assumes "low \<le> high" "LENGTH('a) \<le> 64"
  shows "lemire_inclusive via_u64 X low high r
     = map_option (\<lambda>(v, r'). (low + ucast v, r')) (lemire X (inclusive_size low high :: u64) r)"
  using span_sentinel[of low high, where 's = 64 and 'w = 128] assms by (simp add: via_u64_def lemire_u64_def Let_def)

text \<open>The contract of the integer types: an inclusive sample is the first accepted raw draw of a sampler of some width,
shifted to the start of the range.\<close>
locale int_sampler =
  fixes I :: "'a::len word rand_int" and width :: "'s::len itself"
  assumes narrower: "LENGTH('a) \<le> LENGTH('s)"
    and inclusive: "low \<le> high \<Longrightarrow> lemire_inclusive I X low high r
      = map_option (\<lambda>(v, r'). (low + ucast v, r')) (lemire X (inclusive_size low high :: 's word) r)"
begin

lemma accepted_draw:
  assumes "low \<le> high" "rng_ok X r" "gen_range_inclusive I X low high r = Some (y, r')"
  shows "low \<le> y \<and> y \<le> high \<and> (\<exists>i. inclusive_draw low high (draw X r i :: 's word) = Some y
     \<and> (\<forall>j<i. inclusive_draw low high (draw X r j :: 's word) = None) \<and> advanced X (LENGTH('s) div 8 * Suc i) r r')"
proof -
  obtain v where v: "lemire X (inclusive_size low high :: 's word) r = Some (v, r')" "y = low + ucast v"
    using assms(1,3) by (auto simp: gen_range_inclusive_def inclusive)
  then obtain i where i: "accepts X (inclusive_size low high) r i v" "advanced X (LENGTH('s) div 8 * Suc i) r r'"
    using lemire_Some_iff[OF assms(2)] by metis
  then have "inclusive_draw low high (draw X r i :: 's word) = Some y"
    "\<forall>j<i. inclusive_draw low high (draw X r j :: 's word) = None"
    by (simp_all add: accepts_def inclusive_draw_def v(2))
  moreover from inclusive_draw_range[OF assms(1) narrower this(1)] have "low \<le> y \<and> y \<le> high" .
  ultimately show ?thesis using i(2) by blast
qed

lemma returns:
  assumes "low \<le> high" "rng_ok X r" "inclusive_draw low high (draw X r i :: 's word) \<noteq> None"
  shows "gen_range_inclusive I X low high r \<noteq> None"
proof -
  let ?acc = "\<lambda>i. inclusive_draw low high (draw X r i :: 's word) \<noteq> None"
  define k where "k = (LEAST i. ?acc i)"
  have "?acc k" unfolding k_def by (rule LeastI[of ?acc, OF assms(3)])
  then obtain v where v: "sample (inclusive_size low high) (draw X r k :: 's word) = Some v"
    by (auto simp: inclusive_draw_def)
  have "sample (inclusive_size low high) (draw X r j :: 's word) = None" if "j < k" for j
    using not_less_Least[of j ?acc] that unfolding k_def by (auto simp: inclusive_draw_def)
  then have "accepts X (inclusive_size low high) r k v" using v by (simp add: accepts_def)
  then obtain r' where "lemire X (inclusive_size low high :: 's word) r = Some (v, r')"
    using lemire_characterised(1)[OF assms(2)] by blast
  then show ?thesis using assms(1) by (simp add: gen_range_inclusive_def inclusive)
qed

lemma uniform:
  fixes low high y :: "'a word"
  assumes "low \<le> high" "low \<le> y" "y \<le> high"
  shows "card {x :: 's word. inclusive_draw low high x = Some y} = 2 ^ LENGTH('s) div (unat high - unat low + 1)"
  by (rule inclusive_draw_uniform[OF assms(1) narrower assms(2,3)])

end

interpretation u8: int_sampler rand_u8 "TYPE(32)"
  by unfold_locales (simp_all add: rand_u8_def via_u32_inclusive)
interpretation u16: int_sampler rand_u16 "TYPE(32)"
  by unfold_locales (simp_all add: rand_u16_def via_u32_inclusive)
interpretation u32: int_sampler rand_u32 "TYPE(32)"
  by unfold_locales (simp_all add: rand_u32_def via_u32_inclusive)
interpretation u64: int_sampler rand_u64 "TYPE(64)"
  by unfold_locales (simp_all add: rand_u64_def via_u64_inclusive)
interpretation usize: int_sampler rand_usize "TYPE(64)"
  by unfold_locales (simp_all add: rand_usize_def via_u64_inclusive)

section \<open>Fisher-Yates\<close>

text \<open>The shuffle with its choices given, and the choices it can make.\<close>
fun fisher_yates :: "nat \<Rightarrow> nat list \<Rightarrow> 'b list \<Rightarrow> 'b list" where
  "fisher_yates (Suc i) (j # js) xs = fisher_yates i js (swap xs (Suc i) j)"
| "fisher_yates _ _ xs = xs"

fun choice_ok :: "nat \<Rightarrow> nat list \<Rightarrow> bool" where
  "choice_ok 0 js = (js = [])"
| "choice_ok (Suc i) js = (case js of [] \<Rightarrow> False | j # rest \<Rightarrow> j \<le> Suc i \<and> choice_ok i rest)"

text \<open>The choices drawn from the stream.\<close>
fun draw_choices :: "xof \<Rightarrow> nat \<Rightarrow> rng_source \<Rightarrow> (nat list \<times> rng_source) option" where
  "draw_choices X 0 r = Some ([], r)"
| "draw_choices X (Suc i) r =
     Option.bind (gen_range_inclusive rand_usize X 0 (of_nat (Suc i)) r) (\<lambda>(j, r').
       map_option (\<lambda>(js, r''). (unat j # js, r'')) (draw_choices X i r'))"

lemma length_swap [simp]: "length (swap xs i j) = length xs" by (simp add: swap_def)

lemma mset_swap_at: "i < length xs \<Longrightarrow> j < length xs \<Longrightarrow> mset (swap xs i j) = mset xs"
  unfolding swap_def by (rule mset_swap)

lemma distinct_swap_at: "i < length xs \<Longrightarrow> j < length xs \<Longrightarrow> distinct (swap xs i j) = distinct xs"
  by (metis mset_swap_at mset_eq_imp_distinct_iff)

lemma fisher_yates_mset:
  "choice_ok i js \<Longrightarrow> i < length xs \<Longrightarrow> mset (fisher_yates i js xs) = mset xs"
proof (induction i js xs rule: fisher_yates.induct)
  case (1 i j js xs)
  then show ?case by (simp add: mset_swap_at)
qed simp_all

lemma fisher_yates_above:
  "choice_ok i js \<Longrightarrow> i < k \<Longrightarrow> k < length xs \<Longrightarrow> fisher_yates i js xs ! k = xs ! k"
proof (induction i js xs rule: fisher_yates.induct)
  case (1 i j js xs)
  then show ?case by (simp add: swap_def)
qed simp_all

lemma fisher_yates_inj:
  "distinct xs \<Longrightarrow> i < length xs \<Longrightarrow> choice_ok i js \<Longrightarrow> choice_ok i js' \<Longrightarrow>
     fisher_yates i js xs = fisher_yates i js' xs \<Longrightarrow> js = js'"
proof (induction i arbitrary: js js' xs)
  case (Suc i)
  obtain j t where js: "js = j # t" "j \<le> Suc i" "choice_ok i t" using Suc.prems(3) by (auto split: list.splits)
  obtain j' t' where js': "js' = j' # t'" "j' \<le> Suc i" "choice_ok i t'" using Suc.prems(4) by (auto split: list.splits)
  have e: "fisher_yates i t (swap xs (Suc i) j) = fisher_yates i t' (swap xs (Suc i) j')"
    using Suc.prems(5) by (simp add: js(1) js'(1))
  have top: "fisher_yates i u (swap xs (Suc i) k) ! Suc i = xs ! k" if "choice_ok i u" "k \<le> Suc i" for u k
    using fisher_yates_above[OF that(1), of "Suc i" "swap xs (Suc i) k"] Suc.prems(2) that(2)
    by (simp add: swap_def nth_list_update)
  have "xs ! j = xs ! j'" using top[OF js(3,2)] top[OF js'(3,2)] e by simp
  then have jj: "j = j'" using Suc.prems(1,2) js(2) js'(2) by (simp add: nth_eq_iff_index_eq)
  have "t = t'"
    using Suc.IH[of "swap xs (Suc i) j" t t'] e Suc.prems(1,2) js js' jj by (simp add: distinct_swap_at)
  then show ?case by (simp add: js(1) js'(1) jj)
qed simp

lemma choice_set_Suc: "{js. choice_ok (Suc i) js} = case_prod (#) ` ({..Suc i} \<times> {js. choice_ok i js})"
proof (intro set_eqI)
  fix js show "js \<in> {js. choice_ok (Suc i) js} \<longleftrightarrow> js \<in> case_prod (#) ` ({..Suc i} \<times> {js. choice_ok i js})"
    by (cases js) auto
qed

lemma card_choices: "finite {js. choice_ok i js} \<and> card {js. choice_ok i js} = fact (Suc i)"
proof (induction i)
  case (Suc i)
  have "inj_on (case_prod (#)) ({..Suc i} \<times> {js. choice_ok i js})" by (auto simp: inj_on_def)
  then show ?case unfolding choice_set_Suc using Suc by (simp add: card_image card_cartesian_product)
qed simp

lemma card_arrangements: "distinct xs \<Longrightarrow> finite {ys. mset ys = mset xs} \<and> card {ys. mset ys = mset xs} = fact (length xs)"
proof -
  assume d: "distinct xs"
  have e: "{ys. mset ys = mset xs} = {ys. length ys = length xs \<and> distinct ys \<and> set ys \<subseteq> set xs}"
  proof (intro set_eqI iffI)
    fix ys assume "ys \<in> {ys. mset ys = mset xs}"
    then show "ys \<in> {ys. length ys = length xs \<and> distinct ys \<and> set ys \<subseteq> set xs}"
      using d mset_eq_imp_distinct_iff[of ys xs] mset_eq_setD[of ys xs] mset_eq_length[of ys xs] by simp
  next
    fix ys assume y: "ys \<in> {ys. length ys = length xs \<and> distinct ys \<and> set ys \<subseteq> set xs}"
    then have "set ys = set xs" using d by (intro card_subset_eq) (simp_all add: distinct_card)
    then show "ys \<in> {ys. mset ys = mset xs}" using y d by (simp add: set_eq_iff_mset_eq_distinct[symmetric])
  qed
  have c: "card (set xs) = length xs" using d by (rule distinct_card)
  have "card {ys. length ys = length xs \<and> distinct ys \<and> set ys \<subseteq> set xs} = \<Prod>{card (set xs) - length xs + 1..card (set xs)}"
    by (rule card_lists_distinct_length_eq) (simp_all add: c)
  moreover have "finite {ys. length ys = length xs \<and> distinct ys \<and> set ys \<subseteq> set xs}"
    by (rule finite_subset[OF _ finite_lists_length_eq[of "set xs" "length xs"]]) auto
  ultimately show ?thesis unfolding e by (simp add: c fact_prod)
qed

lemma fisher_yates_bijective:
  assumes "distinct xs" "length xs = Suc i"
  shows "bij_betw (\<lambda>js. fisher_yates i js xs) {js. choice_ok i js} {ys. mset ys = mset xs}"
proof -
  have inj: "inj_on (\<lambda>js. fisher_yates i js xs) {js. choice_ok i js}"
    using fisher_yates_inj[OF assms(1), of i] assms(2) by (intro inj_onI) simp
  have "(\<lambda>js. fisher_yates i js xs) ` {js. choice_ok i js} \<subseteq> {ys. mset ys = mset xs}"
    using fisher_yates_mset[of i _ xs] assms(2) by auto
  moreover have "card ((\<lambda>js. fisher_yates i js xs) ` {js. choice_ok i js}) = card {ys. mset ys = mset xs}"
    using card_image[OF inj] card_choices[of i] card_arrangements[OF assms(1)] assms(2) by simp
  ultimately have "(\<lambda>js. fisher_yates i js xs) ` {js. choice_ok i js} = {ys. mset ys = mset xs}"
    using card_arrangements[OF assms(1)] by (intro card_subset_eq) simp_all
  then show ?thesis using inj by (simp add: bij_betw_def)
qed

lemma shuffle_loop_choices:
  "shuffle_loop X i xs r = map_option (\<lambda>(js, r'). (fisher_yates i js xs, r')) (draw_choices X i r)"
proof (induction X i xs r rule: shuffle_loop.induct)
  case (2 X i xs r)
  then show ?case
    by (cases "gen_range_inclusive rand_usize X 0 (of_nat (Suc i)) r")
       (auto simp: option.map_comp comp_def case_prod_beta simp del: of_nat_Suc)
qed simp

lemma draw_choices_ok:
  "rng_ok X r \<Longrightarrow> i < 2 ^ 64 \<Longrightarrow> draw_choices X i r = Some (js, r') \<Longrightarrow> choice_ok i js \<and> rng_ok X r'"
proof (induction i arbitrary: r js)
  case (Suc i)
  obtain j r1 rest where j: "gen_range_inclusive rand_usize X 0 (of_nat (Suc i)) r = Some (j, r1)"
    "draw_choices X i r1 = Some (rest, r')" "js = unat j # rest"
    using Suc.prems(3) by (auto simp: Option.bind_eq_Some_conv simp del: of_nat_Suc)
  have "j \<le> of_nat (Suc i) \<and> rng_ok X r1"
    using usize.accepted_draw[OF word_zero_le Suc.prems(1) j(1)] by (auto simp: advanced_def)
  moreover have "unat (of_nat (Suc i) :: u64) = Suc i"
    using Suc.prems(2) by (simp only: unat_of_nat take_bit_eq_mod mod_less) simp
  ultimately have "unat j \<le> Suc i" "rng_ok X r1" by (simp_all add: word_le_nat_alt del: of_nat_Suc)
  then show ?case using Suc.IH[OF _ _ j(2)] Suc.prems(2) by (simp add: j(3))
qed simp

section \<open>Properties\<close>

text \<open>A series of requests, their answers put together.\<close>
fun fill_all :: "xof \<Rightarrow> nat list \<Rightarrow> rng_source \<Rightarrow> (bytes \<times> rng_source) option" where
  "fill_all X [] r = Some ([], r)"
| "fill_all X (n # ns) r =
     Option.bind (fill_bytes X n r) (\<lambda>(b, r'). map_option (\<lambda>(bs, r''). (b @ bs, r'')) (fill_all X ns r'))"

lemma fill_all_stream:
  "rng_ok X r \<Longrightarrow> \<exists>r'. fill_all X ns r = Some (stream X r 0 (sum_list ns), r') \<and> advanced X (sum_list ns) r r'"
proof (induction ns arbitrary: r)
  case Nil
  then show ?case by (simp add: stream_def advanced_def)
next
  case (Cons n ns)
  obtain r1 where r1: "fill_bytes X n r = Some (stream X r 0 n, r1)" "advanced X n r r1"
    using fill_bytes_stream[OF Cons.prems] by blast
  then obtain r2 where r2: "fill_all X ns r1 = Some (stream X r1 0 (sum_list ns), r2)" "advanced X (sum_list ns) r1 r2"
    using Cons.IH[of r1] by (auto simp: advanced_def)
  show ?case
    using r1 r2 stream_advanced[OF r1(2), of 0 "sum_list ns"] stream_append[of X r 0 n "sum_list ns"]
      advanced_trans[OF r1(2) r2(2)] by simp
qed

lemma seed_from_seed: "seed (from_seed s) = s" by (simp add: from_seed_def)

text \<open>The buffered reader is the plain stream. Whatever the sizes of the requests, every request returns, and the answers
put together are the first bytes of the extendable output for the seed, without gap or repetition; a split takes the next
thirty-two of them as the seed of the child.\<close>
theorem buffered_reader_is_the_stream:
  "(\<exists>r'. fill_all X ns (from_seed s) = Some (map (X KDF_CONTEXT s) [0..<sum_list ns], r')
     \<and> (\<exists>r''. split_rng X r' = Some (from_seed (map (X KDF_CONTEXT s) [sum_list ns..<sum_list ns + 32]), r'')))"
proof -
  obtain r' where r': "fill_all X ns (from_seed s) = Some (stream X (from_seed s) 0 (sum_list ns), r')"
    "advanced X (sum_list ns) (from_seed s) r'" using fill_all_stream[OF rng_ok_from_seed(1)] by blast
  then have "rng_ok X r'" by (simp add: advanced_def)
  from fill_bytes_stream[OF this, of 32] obtain r'' where
    "fill_bytes X 32 r' = Some (stream X r' 0 32, r'')" by blast
  moreover have "stream X r' 0 32 = map (X KDF_CONTEXT s) [sum_list ns..<sum_list ns + 32]"
    using r'(2) by (simp add: stream_def advanced_def rng_ok_from_seed(2) seed_from_seed)
  moreover have "stream X (from_seed s) 0 (sum_list ns) = map (X KDF_CONTEXT s) [0..<sum_list ns]"
    by (simp add: stream_def rng_ok_from_seed(2) seed_from_seed)
  ultimately show ?thesis using r'(1) by (simp add: split_rng_def)
qed

text \<open>C14: sampling is exact. For a range of \<^verbatim>\<open>usize\<close> values from a source in its normal state: a sample lies in the range and
is the image of the first raw 64-bit draw of the stream that is not rejected, nothing beyond it being consumed; the sampler
returns as soon as the stream holds an acceptable draw; and every value of the range is the image of equally many raw draws,
so that the rejection leaves no bias, up to the full range of the type.\<close>
theorem sampling_exact:
  assumes "low \<le> high" "rng_ok X r"
  shows "(gen_range_inclusive rand_usize X low high r = Some (y, r') \<longrightarrow> low \<le> y \<and> y \<le> high
     \<and> (\<exists>i. inclusive_draw low high (draw X r i :: u64) = Some y
          \<and> (\<forall>j<i. inclusive_draw low high (draw X r j :: u64) = None) \<and> advanced X (8 * Suc i) r r'))
    \<and> (inclusive_draw low high (draw X r i :: u64) \<noteq> None \<longrightarrow> gen_range_inclusive rand_usize X low high r \<noteq> None)
    \<and> (low \<le> y \<and> y \<le> high \<longrightarrow>
      card {x :: u64. inclusive_draw low high x = Some y} = 2 ^ 64 div (unat high - unat low + 1))"
proof (intro conjI[of "_ \<longrightarrow> _"] impI)
  show "low \<le> y \<and> y \<le> high \<and> (\<exists>i. inclusive_draw low high (draw X r i :: u64) = Some y
          \<and> (\<forall>j<i. inclusive_draw low high (draw X r j :: u64) = None) \<and> advanced X (8 * Suc i) r r')"
    if "gen_range_inclusive rand_usize X low high r = Some (y, r')"
    using usize.accepted_draw[OF assms that] by simp
  show "gen_range_inclusive rand_usize X low high r \<noteq> None" if "inclusive_draw low high (draw X r i :: u64) \<noteq> None"
    by (rule usize.returns[OF assms that])
  show "card {x :: u64. inclusive_draw low high x = Some y} = 2 ^ 64 div (unat high - unat low + 1)" if "low \<le> y \<and> y \<le> high"
    using usize.uniform[OF assms(1)] that by simp
qed

theorem sampling_exact_witness:
  "card {x :: u64. inclusive_draw (3 :: u64) 8 x = Some 5} = 2 ^ 64 div 6"
  using sampling_exact[of 3 8 "\<lambda>_ _ _. 0" "from_seed []" 5] by (simp add: rng_ok_from_seed)

text \<open>C15: the shuffle is a uniformly chosen rearrangement. The shuffle of a list is the Fisher-Yates rearrangement for the
choices sampled from the source, each within its range; it returns a rearrangement of its input; and for distinct elements
the choice sequences correspond one to one to the rearrangements, so that unbiased choices give every rearrangement the
same chance.\<close>
theorem shuffle_uniform:
  assumes "rng_ok X r" "length xs = Suc n" "Suc n < 2 ^ 64"
  shows "shuffle X xs r = map_option (\<lambda>(js, r'). (fisher_yates n js xs, r')) (draw_choices X n r)
    \<and> (draw_choices X n r = Some (js, r') \<longrightarrow> choice_ok n js)
    \<and> (shuffle X xs r = Some (ys, r') \<longrightarrow> mset ys = mset xs)
    \<and> (distinct xs \<longrightarrow> bij_betw (\<lambda>js. fisher_yates n js xs) {js. choice_ok n js} {ys. mset ys = mset xs})"
proof (intro conjI impI)
  show s: "shuffle X xs r = map_option (\<lambda>(js, r'). (fisher_yates n js xs, r')) (draw_choices X n r)"
    using assms(2) by (cases n) (simp_all add: shuffle_def shuffle_loop_choices)
  show "choice_ok n js" if "draw_choices X n r = Some (js, r')"
    using draw_choices_ok[OF assms(1) _ that] assms(3) by simp
  show "mset ys = mset xs" if "shuffle X xs r = Some (ys, r')"
    using that draw_choices_ok[OF assms(1), of n] assms(2,3) by (auto simp: s intro!: fisher_yates_mset)
  show "bij_betw (\<lambda>js. fisher_yates n js xs) {js. choice_ok n js} {ys. mset ys = mset xs}" if "distinct xs"
    by (rule fisher_yates_bijective[OF that assms(2)])
qed

theorem shuffle_uniform_witness:
  "bij_betw (\<lambda>js. fisher_yates 2 js ''abc'') {js. choice_ok 2 js} {ys. mset ys = mset ''abc''}"
  using shuffle_uniform[OF rng_ok_from_seed(1)[of "\<lambda>_ _ _. 0" "[]"], of "''abc''" 2] by simp

end
