(* ===== verification/Cards.thy ===== *)
theory Cards
  imports Rand_Sampling Component "HOL-Library.Product_Lexorder" "HOL-Library.List_Lexorder"
begin

text \<open>The card and deck primitives of \<^verbatim>\<open>examples/card_primitives\<close> (\<^verbatim>\<open>card.rs\<close>, \<^verbatim>\<open>deck.rs\<close>).  Characters and strings are
bytes; the serde front end is the codec of a byte.\<close>

section \<open>Ranks and suits\<close>

datatype rank = Two | Three | Four | Five | Six | Seven | Eight | Nine | Ten | Jack | Queen | King | Ace

fun face :: "rank \<Rightarrow> u8" where
  "face Two = 2" | "face Three = 3" | "face Four = 4" | "face Five = 5" | "face Six = 6" | "face Seven = 7"
| "face Eight = 8" | "face Nine = 9" | "face Ten = 10" | "face Jack = 11" | "face Queen = 12" | "face King = 13"
| "face Ace = 14"

datatype suit = Clubs | Diamonds | Hearts | Spades

fun suit_index :: "suit \<Rightarrow> u8" where
  "suit_index Clubs = 0" | "suit_index Diamonds = 1" | "suit_index Hearts = 2" | "suit_index Spades = 3"

datatype card_error = InvalidRank u8 | InvalidSuit u8 | InvalidLength nat

definition Rank_ALL :: "rank list" where
  "Rank_ALL = [Two, Three, Four, Five, Six, Seven, Eight, Nine, Ten, Jack, Queen, King, Ace]"

definition Suit_ALL :: "suit list" where
  "Suit_ALL = [Clubs, Diamonds, Hearts, Spades]"

definition try_from_face :: "u8 \<Rightarrow> card_error + rank" where
  "try_from_face f =
     (if f = 2 then Inr Two else if f = 3 then Inr Three else if f = 4 then Inr Four else if f = 5 then Inr Five
      else if f = 6 then Inr Six else if f = 7 then Inr Seven else if f = 8 then Inr Eight else if f = 9 then Inr Nine
      else if f = 10 then Inr Ten else if f = 11 then Inr Jack else if f = 12 then Inr Queen
      else if f = 13 then Inr King else if f = 14 then Inr Ace else Inl (InvalidRank f))"

definition try_from_index :: "u8 \<Rightarrow> card_error + suit" where
  "try_from_index i =
     (if i = 0 then Inr Clubs else if i = 1 then Inr Diamonds else if i = 2 then Inr Hearts
      else if i = 3 then Inr Spades else Inl (InvalidSuit i))"

text \<open>The derived order of the ranks and the explicit one of the suits are those of their discriminants.\<close>
lemma face_inject: "face a = face b \<longleftrightarrow> a = b" by (cases a; cases b; simp)
lemma suit_index_inject: "suit_index a = suit_index b \<longleftrightarrow> a = b" by (cases a; cases b; simp)

instantiation rank :: linorder
begin
definition less_eq_rank :: "rank \<Rightarrow> rank \<Rightarrow> bool" where "less_eq_rank a b \<longleftrightarrow> face a \<le> face b"
definition less_rank :: "rank \<Rightarrow> rank \<Rightarrow> bool" where "less_rank a b \<longleftrightarrow> face a < face b"
instance by standard (auto simp: less_eq_rank_def less_rank_def face_inject order.strict_iff_order)
end

instantiation suit :: linorder
begin
definition less_eq_suit :: "suit \<Rightarrow> suit \<Rightarrow> bool" where "less_eq_suit a b \<longleftrightarrow> suit_index a \<le> suit_index b"
definition less_suit :: "suit \<Rightarrow> suit \<Rightarrow> bool" where "less_suit a b \<longleftrightarrow> suit_index a < suit_index b"
instance by standard (auto simp: less_eq_suit_def less_suit_def suit_index_inject order.strict_iff_order)
end

section \<open>Cards\<close>

datatype card = Card (to_byte: u8)

instantiation card :: linorder
begin
definition less_eq_card :: "card \<Rightarrow> card \<Rightarrow> bool" where "less_eq_card a b \<longleftrightarrow> to_byte a \<le> to_byte b"
definition less_card :: "card \<Rightarrow> card \<Rightarrow> bool" where "less_card a b \<longleftrightarrow> to_byte a < to_byte b"
instance by standard (auto simp: less_eq_card_def less_card_def card.expand)
end

definition Card_new :: "rank \<Rightarrow> suit \<Rightarrow> card" where
  "Card_new r s = Card ((face r - 2) * 4 + suit_index s)"

definition from_byte :: "u8 \<Rightarrow> card_error + card" where
  "from_byte b = (if b > 51 then Inl (InvalidRank (b div 4 + 2)) else Inr (Card b))"

definition card_rank :: "card \<Rightarrow> rank" where
  "card_rank c =
     (let q = to_byte c div 4 in
      if q = 0 then Two else if q = 1 then Three else if q = 2 then Four else if q = 3 then Five else if q = 4 then Six
      else if q = 5 then Seven else if q = 6 then Eight else if q = 7 then Nine else if q = 8 then Ten
      else if q = 9 then Jack else if q = 10 then Queen else if q = 11 then King else Ace)"

definition card_suit :: "card \<Rightarrow> suit" where
  "card_suit c =
     (let q = to_byte c mod 4 in
      if q = 0 then Clubs else if q = 1 then Diamonds else if q = 2 then Hearts else Spades)"

definition Card_deserialize :: "u8 codec \<Rightarrow> bytes \<Rightarrow> card option" where
  "Card_deserialize u8c bs =
     (case cd_dec u8c bs of
        None \<Rightarrow> None
      | Some b \<Rightarrow> (case from_byte b of Inl _ \<Rightarrow> None | Inr c \<Rightarrow> Some c))"

definition rank_char :: "rank \<Rightarrow> char" where
  "rank_char r = (case r of Two \<Rightarrow> CHR ''2'' | Three \<Rightarrow> CHR ''3'' | Four \<Rightarrow> CHR ''4'' | Five \<Rightarrow> CHR ''5'' | Six \<Rightarrow> CHR ''6''
     | Seven \<Rightarrow> CHR ''7'' | Eight \<Rightarrow> CHR ''8'' | Nine \<Rightarrow> CHR ''9'' | Ten \<Rightarrow> CHR ''T'' | Jack \<Rightarrow> CHR ''J''
     | Queen \<Rightarrow> CHR ''Q'' | King \<Rightarrow> CHR ''K'' | Ace \<Rightarrow> CHR ''A'')"

definition suit_char :: "suit \<Rightarrow> char" where
  "suit_char s = (case s of Clubs \<Rightarrow> CHR ''C'' | Diamonds \<Rightarrow> CHR ''D'' | Hearts \<Rightarrow> CHR ''H'' | Spades \<Rightarrow> CHR ''S'')"

definition Card_display :: "card \<Rightarrow> string" where
  "Card_display c = [rank_char (card_rank c), suit_char (card_suit c)]"

definition rank_of_byte :: "char \<Rightarrow> card_error + rank" where
  "rank_of_byte b =
     (if b = CHR ''2'' then Inr Two else if b = CHR ''3'' then Inr Three else if b = CHR ''4'' then Inr Four
      else if b = CHR ''5'' then Inr Five else if b = CHR ''6'' then Inr Six else if b = CHR ''7'' then Inr Seven
      else if b = CHR ''8'' then Inr Eight else if b = CHR ''9'' then Inr Nine else if b = CHR ''T'' then Inr Ten
      else if b = CHR ''J'' then Inr Jack else if b = CHR ''Q'' then Inr Queen else if b = CHR ''K'' then Inr King
      else if b = CHR ''A'' then Inr Ace else Inl (InvalidRank (of_char b)))"

definition suit_of_byte :: "char \<Rightarrow> card_error + suit" where
  "suit_of_byte b =
     (if b = CHR ''C'' then Inr Clubs else if b = CHR ''D'' then Inr Diamonds else if b = CHR ''H'' then Inr Hearts
      else if b = CHR ''S'' then Inr Spades else Inl (InvalidSuit (of_char b)))"

definition Card_from_str :: "string \<Rightarrow> card_error + card" where
  "Card_from_str s =
     (case s of
        [b0, b1] \<Rightarrow>
          (case rank_of_byte b0 of
             Inl e \<Rightarrow> Inl e
           | Inr r \<Rightarrow> (case suit_of_byte b1 of Inl e \<Rightarrow> Inl e | Inr u \<Rightarrow> Inr (Card_new r u)))
      | _ \<Rightarrow> Inl (InvalidLength (length s)))"

section \<open>The deck\<close>

record deck =
  cards :: "card list"
  cursor :: u8

definition Deck_standard :: deck where
  "Deck_standard = \<lparr>cards = concat (map (\<lambda>r. map (Card_new r) Suit_ALL) Rank_ALL), cursor = 0\<rparr>"

fun deck_shuffle_loop :: "xof \<Rightarrow> nat \<Rightarrow> nat \<Rightarrow> card list \<Rightarrow> rng_source \<Rightarrow> (card list \<times> rng_source) option" where
  "deck_shuffle_loop X start 0 cs r = Some (cs, r)"
| "deck_shuffle_loop X start (Suc i) cs r =
     Option.bind (gen_range_inclusive rand_usize X 0 (of_nat (Suc i)) r) (\<lambda>(j, r').
       deck_shuffle_loop X start i (swap cs (start + Suc i) (start + unat j)) r')"

definition Deck_shuffle :: "xof \<Rightarrow> deck \<Rightarrow> rng_source \<Rightarrow> (deck \<times> rng_source) option" where
  "Deck_shuffle X d r =
     (let start = unat (cursor d) in
      if start \<ge> 52 then Some (d, r)
      else
        let len = 52 - start in
        if len < 2 then Some (d, r)
        else map_option (\<lambda>(cs, r'). (d\<lparr>cards := cs\<rparr>, r')) (deck_shuffle_loop X start (len - 1) (cards d) r))"

definition Deck_draw :: "deck \<Rightarrow> card option \<times> deck" where
  "Deck_draw d =
     (if cursor d \<ge> 52 then (None, d)
      else (Some (cards d ! unat (cursor d)), d\<lparr>cursor := cursor d + 1\<rparr>))"

definition Deck_remaining :: "deck \<Rightarrow> nat" where
  "Deck_remaining d = 52 - unat (cursor d)"

section \<open>Every card has one byte and one name\<close>

definition card_ok :: "card \<Rightarrow> bool" where
  "card_ok c \<longleftrightarrow> to_byte c \<le> 51"

lemma ALL_complete: "r \<in> set Rank_ALL" "s \<in> set Suit_ALL"
  by (cases r; simp add: Rank_ALL_def) (cases s; simp add: Suit_ALL_def)

lemma all_names:
  "list_all (\<lambda>r. list_all (\<lambda>s. to_byte (Card_new r s) \<le> 51 \<and> card_rank (Card_new r s) = r \<and> card_suit (Card_new r s) = s
     \<and> Card_from_str [rank_char r, suit_char s] = Inr (Card_new r s)) Suit_ALL) Rank_ALL"
  by code_simp

lemma card_round_trips:
  "to_byte (Card_new r s) \<le> 51 \<and> card_rank (Card_new r s) = r \<and> card_suit (Card_new r s) = s"
  "Card_from_str [rank_char r, suit_char s] = Inr (Card_new r s)"
  using all_names ALL_complete(1)[of r] ALL_complete(2)[of s] unfolding list_all_iff by blast+

lemma all_cards: "list_all (\<lambda>b. Card_new (card_rank (Card (of_nat b))) (card_suit (Card (of_nat b))) = Card (of_nat b)) [0..<52]"
  by code_simp

lemma Card_new_surj:
  assumes "card_ok c"
  shows "Card_new (card_rank c) (card_suit c) = c"
proof -
  have "unat (to_byte c) \<le> 51" using assms by (simp add: card_ok_def word_le_nat_alt)
  then have "Card_new (card_rank (Card (of_nat (unat (to_byte c))))) (card_suit (Card (of_nat (unat (to_byte c)))))
      = Card (of_nat (unat (to_byte c)))" using all_cards unfolding list_all_iff by (auto simp del: of_nat_unat)
  then show ?thesis by simp
qed

lemma rank_of_byte_char: "rank_of_byte b = Inr r \<longleftrightarrow> b = rank_char r"
  by (cases r) (auto simp: rank_of_byte_def rank_char_def)

lemma suit_of_byte_char: "suit_of_byte b = Inr s \<longleftrightarrow> b = suit_char s"
  by (cases s) (auto simp: suit_of_byte_def suit_char_def)

text \<open>Cards, bytes and names. Exactly the bytes up to 51 decode, each to the card it encodes; a card is the card of its
rank and suit; and a string parses to a card exactly when it is the two-character name the card prints as.\<close>
theorem card_encodings:
  "(from_byte b = Inr c \<longleftrightarrow> b = to_byte c \<and> card_ok c)
   \<and> (card_ok (Card_new r u) \<and> card_rank (Card_new r u) = r \<and> card_suit (Card_new r u) = u)
   \<and> (Card_from_str s = Inr c \<longleftrightarrow> s = Card_display c \<and> card_ok c)"
proof (intro conjI)
  show "from_byte b = Inr c \<longleftrightarrow> b = to_byte c \<and> card_ok c"
    by (cases c) (auto simp: from_byte_def card_ok_def)
  show "card_ok (Card_new r u)" "card_rank (Card_new r u) = r" "card_suit (Card_new r u) = u"
    using card_round_trips(1) by (simp_all add: card_ok_def)
  show "Card_from_str s = Inr c \<longleftrightarrow> s = Card_display c \<and> card_ok c"
  proof
    assume p: "Card_from_str s = Inr c"
    then obtain b0 b1 r u where s: "s = [b0, b1]" and "rank_of_byte b0 = Inr r" "suit_of_byte b1 = Inr u"
      and c: "c = Card_new r u"
      by (auto simp: Card_from_str_def split: list.splits sum.splits)
    then have "b0 = rank_char r" "b1 = suit_char u" by (simp_all add: rank_of_byte_char suit_of_byte_char)
    then show "s = Card_display c \<and> card_ok c"
      using card_round_trips(1)[of r u] by (simp add: s c Card_display_def card_ok_def)
  next
    assume "s = Card_display c \<and> card_ok c"
    then show "Card_from_str s = Inr c" using card_round_trips(2) Card_new_surj by (simp add: Card_display_def)
  qed
qed

section \<open>Shuffling and dealing\<close>

lemma Deck_standard_bytes: "map to_byte (cards Deck_standard) = map of_nat [0..<52]"
  by code_simp

lemma Deck_standard_cards: "length (cards Deck_standard) = 52" "distinct (cards Deck_standard)"
proof -
  have "length (map to_byte (cards Deck_standard)) = 52" unfolding Deck_standard_bytes by simp
  then show "length (cards Deck_standard) = 52" by simp
  have "distinct (map (of_nat :: nat \<Rightarrow> u8) [0..<52])" by code_simp
  then have "distinct (map to_byte (cards Deck_standard))" unfolding Deck_standard_bytes .
  then show "distinct (cards Deck_standard)" by (simp add: distinct_map)
qed

lemma swap_append: "swap (pre @ xs) (length pre + i) (length pre + j) = pre @ swap xs i j"
  by (simp add: swap_def list_update_append nth_append)

lemma deck_shuffle_loop_append:
  "deck_shuffle_loop X (length pre) i (pre @ xs) r = map_option (\<lambda>(ys, r'). (pre @ ys, r')) (shuffle_loop X i xs r)"
proof (induction i arbitrary: xs r)
  case (Suc i)
  then show ?case
    by (cases "gen_range_inclusive rand_usize X 0 (of_nat (Suc i)) r")
       (auto simp: swap_append add_Suc_right[symmetric] simp del: of_nat_Suc add_Suc_right)
qed simp

definition deck_ok :: "deck \<Rightarrow> bool" where
  "deck_ok d \<longleftrightarrow> mset (cards d) = mset (cards Deck_standard) \<and> cursor d \<le> 52"

lemma deck_ok_length: "deck_ok d \<Longrightarrow> length (cards d) = 52 \<and> unat (cursor d) \<le> 52"
  using mset_eq_length[of "cards d" "cards Deck_standard"] Deck_standard_cards(1)
  by (simp add: deck_ok_def word_le_nat_alt)

lemma Deck_shuffle_undrawn:
  assumes "deck_ok d"
  shows "Deck_shuffle X d r =
    map_option (\<lambda>(ys, r'). (d\<lparr>cards := take (unat (cursor d)) (cards d) @ ys\<rparr>, r'))
      (shuffle X (drop (unat (cursor d)) (cards d)) r)"
proof -
  let ?k = "unat (cursor d)"
  have k: "length (cards d) = 52" "?k \<le> 52" using deck_ok_length[OF assms] by simp_all
  show ?thesis
  proof (cases "52 - ?k < 2")
    case True
    then show ?thesis using k by (simp add: Deck_shuffle_def shuffle_def Let_def)
  next
    case False
    have "deck_shuffle_loop X ?k (52 - ?k - 1) (cards d) r
        = map_option (\<lambda>(ys, r'). (take ?k (cards d) @ ys, r')) (shuffle_loop X (52 - ?k - 1) (drop ?k (cards d)) r)"
      using deck_shuffle_loop_append[of X "take ?k (cards d)" "52 - ?k - 1" "drop ?k (cards d)" r] k by simp
    then show ?thesis
      using False k by (simp add: Deck_shuffle_def shuffle_def Let_def option.map_comp comp_def case_prod_unfold)
  qed
qed

lemma shuffle_mset:
  assumes "rng_ok X r" "length xs < 2 ^ 64" "shuffle X xs r = Some (ys, r')"
  shows "mset ys = mset xs" "rng_ok X r'"
proof -
  have "mset ys = mset xs \<and> rng_ok X r'"
  proof (cases "length xs < 2")
    case True
    then show ?thesis using assms by (simp add: shuffle_def)
  next
    case False
    then obtain n where n: "length xs = Suc n" by (cases xs) auto
    then obtain js where js: "draw_choices X n r = Some (js, r')" "ys = fisher_yates n js xs"
      using assms(3) False by (auto simp: shuffle_def shuffle_loop_choices)
    have "choice_ok n js \<and> rng_ok X r'"
      using draw_choices_ok[OF assms(1) _ js(1)] assms(2) n by simp
    then show ?thesis using fisher_yates_mset[of n js xs] n js(2) by simp
  qed
  then show "mset ys = mset xs" "rng_ok X r'" by simp_all
qed

text \<open>A dealer starts from the standard deck and a seed, shuffles and draws in any order; the cards dealt are recorded.\<close>
inductive deck_run :: "xof \<Rightarrow> card list \<Rightarrow> deck \<Rightarrow> rng_source \<Rightarrow> bool" for X where
  start: "deck_run X [] Deck_standard (from_seed s)"
| shuffled: "deck_run X dealt d r \<Longrightarrow> Deck_shuffle X d r = Some (d', r') \<Longrightarrow> deck_run X dealt d' r'"
| drawn: "deck_run X dealt d r \<Longrightarrow> Deck_draw d = (Some c, d') \<Longrightarrow> deck_run X (dealt @ [c]) d' r"

lemma deck_run_invariant:
  "deck_run X dealt d r \<Longrightarrow> deck_ok d \<and> rng_ok X r \<and> dealt = take (unat (cursor d)) (cards d)"
proof (induction rule: deck_run.induct)
  case (start s)
  then show ?case by (simp add: deck_ok_def rng_ok_from_seed) (simp add: Deck_standard_def)
next
  case (shuffled dealt d r d' r')
  let ?k = "unat (cursor d)"
  have ok: "deck_ok d" "rng_ok X r" using shuffled.IH by simp_all
  obtain ys where ys: "shuffle X (drop ?k (cards d)) r = Some (ys, r')" "d' = d\<lparr>cards := take ?k (cards d) @ ys\<rparr>"
    using shuffled.hyps(2) unfolding Deck_shuffle_undrawn[OF ok(1)] by auto
  have len: "length (cards d) = 52" "?k \<le> 52" using deck_ok_length[OF ok(1)] by simp_all
  have "length (drop ?k (cards d)) < 2 ^ 64" using len by simp
  from shuffle_mset[OF ok(2) this ys(1)]
  have m: "mset ys = mset (drop ?k (cards d))" "rng_ok X r'" by simp_all
  have "mset (take ?k (cards d) @ ys) = mset (cards d)" using m(1) by (metis append_take_drop_id mset_append)
  then show ?case using ok m(2) shuffled.IH len by (simp add: ys(2) deck_ok_def)
next
  case (drawn dealt d r c d')
  let ?k = "unat (cursor d)"
  have ok: "deck_ok d" "dealt = take ?k (cards d)" using drawn.IH by simp_all
  have lt: "cursor d < 52" and c: "c = cards d ! ?k" "d' = d\<lparr>cursor := cursor d + 1\<rparr>"
    using drawn.hyps(2) by (auto simp: Deck_draw_def not_le split: if_splits)
  have k: "?k < 52" using lt by (simp add: word_less_nat_alt)
  then have k': "unat (cursor d + 1) = Suc ?k" by (simp add: unat_plus_if')
  then have "cursor d + 1 \<le> 52" using k by (simp add: word_le_nat_alt)
  then show ?case
    using ok k k' c deck_ok_length[OF ok(1)] drawn.IH by (simp add: deck_ok_def take_Suc_conv_app_nth)
qed

lemma Deck_draw_None: "fst (Deck_draw d) = None \<longleftrightarrow> 52 \<le> cursor d"
  by (simp add: Deck_draw_def)

text \<open>C35: fair dealing. However shuffles and draws are interleaved, the deck holds each of the fifty-two cards exactly once,
the cards dealt so far are its first ones in the order dealt, hence no card is dealt twice, and the deck refuses a draw
exactly when all are dealt.\<close>
theorem deck_deals_every_card_once:
  assumes "deck_run X dealt d r"
  shows "map to_byte (sort (cards d)) = map of_nat [0..<52] \<and> dealt = take (length dealt) (cards d) \<and> distinct dealt
    \<and> length dealt + Deck_remaining d = 52 \<and> (fst (Deck_draw d) = None \<longleftrightarrow> length dealt = 52)"
proof (intro conjI)
  note inv = deck_run_invariant[OF assms]
  have k: "length (cards d) = 52" "unat (cursor d) \<le> 52" using deck_ok_length inv by auto
  then have l: "length dealt = unat (cursor d)" using inv by simp
  show "dealt = take (length dealt) (cards d)" using inv l by simp
  have "distinct (cards d)"
    using inv Deck_standard_cards(2) mset_eq_imp_distinct_iff by (auto simp: deck_ok_def)
  then show "distinct dealt" using inv by (simp add: distinct_take)
  show "length dealt + Deck_remaining d = 52" using l k by (simp add: Deck_remaining_def)
  show "fst (Deck_draw d) = None \<longleftrightarrow> length dealt = 52"
    unfolding Deck_draw_None l using k by (auto simp: word_le_nat_alt)
  have "sort (cards d) = sort (cards Deck_standard)"
    using inv by (intro properties_for_sort) (simp_all add: deck_ok_def)
  moreover have "map to_byte (sort (cards Deck_standard)) = map of_nat [0..<52]" by code_simp
  ultimately show "map to_byte (sort (cards d)) = map of_nat [0..<52]" by simp
qed

theorem deck_deals_every_card_once_witness:
  "map to_byte (sort (cards Deck_standard)) = map of_nat [0..<52]"
  by (rule deck_deals_every_card_once[OF deck_run.start[of "\<lambda>_ _ _. 0" "[]"], THEN conjunct1])

end
