(* ===== verification/Hands.thy ===== *)
theory Hands
  imports Cards
begin

text \<open>The hand evaluator of \<^verbatim>\<open>examples/card_primitives/src/hand_eval.rs\<close>: strengths and their order and encoding, the
evaluation of five cards and of the best five of seven.  Fixed-size arrays are lists.\<close>

section \<open>Strengths\<close>

datatype hand_rank =
    HighCard "rank list"
  | OnePair rank "rank list"
  | TwoPair rank rank rank
  | ThreeOfAKind rank "rank list"
  | Straight rank
  | Flush "rank list"
  | FullHouse rank rank
  | FourOfAKind rank rank
  | StraightFlush rank

fun category_index :: "hand_rank \<Rightarrow> u8" where
  "category_index (HighCard _) = 0" | "category_index (OnePair _ _) = 1" | "category_index (TwoPair _ _ _) = 2"
| "category_index (ThreeOfAKind _ _) = 3" | "category_index (Straight _) = 4" | "category_index (Flush _) = 5"
| "category_index (FullHouse _ _) = 6" | "category_index (FourOfAKind _ _) = 7" | "category_index (StraightFlush _) = 8"

fun category_label :: "hand_rank \<Rightarrow> string" where
  "category_label (HighCard _) = ''High Card''" | "category_label (OnePair _ _) = ''Pair''"
| "category_label (TwoPair _ _ _) = ''Two Pair''" | "category_label (ThreeOfAKind _ _) = ''Three of a Kind''"
| "category_label (Straight _) = ''Straight''" | "category_label (Flush _) = ''Flush''"
| "category_label (FullHouse _ _) = ''Full House''" | "category_label (FourOfAKind _ _) = ''Four of a Kind''"
| "category_label (StraightFlush t) =
     (case t of Ace \<Rightarrow> ''Royal Flush'' | Five \<Rightarrow> ''Steel Wheel'' | _ \<Rightarrow> ''Straight Flush'')"

text \<open>The fields in their declared order; with the category they make the derived order.\<close>
fun hand_fields :: "hand_rank \<Rightarrow> rank list" where
  "hand_fields (HighCard r) = r" | "hand_fields (OnePair p k) = p # k" | "hand_fields (TwoPair hi lo k) = [hi, lo, k]"
| "hand_fields (ThreeOfAKind t k) = t # k" | "hand_fields (Straight t) = [t]" | "hand_fields (Flush r) = r"
| "hand_fields (FullHouse t p) = [t, p]" | "hand_fields (FourOfAKind q k) = [q, k]"
| "hand_fields (StraightFlush t) = [t]"

lemma hand_key_inject: "category_index a = category_index b \<and> hand_fields a = hand_fields b \<longleftrightarrow> a = b"
  by (cases a; cases b) auto

instantiation hand_rank :: linorder
begin
definition less_eq_hand_rank :: "hand_rank \<Rightarrow> hand_rank \<Rightarrow> bool" where
  "less_eq_hand_rank a b \<longleftrightarrow> (category_index a, hand_fields a) \<le> (category_index b, hand_fields b)"
definition less_hand_rank :: "hand_rank \<Rightarrow> hand_rank \<Rightarrow> bool" where
  "less_hand_rank a b \<longleftrightarrow> (category_index a, hand_fields a) < (category_index b, hand_fields b)"
instance
proof
  fix a b c :: hand_rank
  show "a < b \<longleftrightarrow> a \<le> b \<and> \<not> b \<le> a" unfolding less_eq_hand_rank_def less_hand_rank_def by (rule less_le_not_le)
  show "a \<le> a" unfolding less_eq_hand_rank_def by (rule order_refl)
  show "a \<le> c" if "a \<le> b" "b \<le> c" using that unfolding less_eq_hand_rank_def by (rule order_trans)
  show "a = b" if "a \<le> b" "b \<le> a"
    using order_antisym[OF that[unfolded less_eq_hand_rank_def]] by (simp flip: hand_key_inject)
  show "a \<le> b \<or> b \<le> a" unfolding less_eq_hand_rank_def by (rule linear)
qed
end

text \<open>Six bytes: the category, then the face values of the fields, padded with zeroes.\<close>
definition to_chain_hash_bytes :: "hand_rank \<Rightarrow> bytes" where
  "to_chain_hash_bytes h =
     (let fs = map face (hand_fields h) in category_index h # fs @ replicate (5 - length fs) 0)"

datatype ordering = Less | Equal | Greater

definition compare_hands :: "hand_rank \<Rightarrow> hand_rank \<Rightarrow> ordering" where
  "compare_hands a b = (if a < b then Less else if a = b then Equal else Greater)"

section \<open>Evaluation\<close>

definition ranks_are_consecutive_desc :: "rank list \<Rightarrow> bool" where
  "ranks_are_consecutive_desc ranks \<longleftrightarrow> list_all (\<lambda>i. face (ranks ! i) = face (ranks ! (i + 1)) + 1) [0..<4]"

function group_runs :: "rank list \<Rightarrow> (nat \<times> rank) list" where
  "group_runs [] = []"
| "group_runs (r # rs) =
     (Suc (length (takeWhile (\<lambda>x. x = r) rs)), r) # group_runs (dropWhile (\<lambda>x. x = r) rs)"
  by pat_completeness auto
termination by (relation "measure length") (simp_all add: less_Suc_eq_le length_dropWhile_le)

definition evaluate_5 :: "card list \<Rightarrow> hand_rank" where
  "evaluate_5 cs =
     (let ranks = rev (sort (map card_rank cs));
          suit0 = card_suit (cs ! 0);
          is_flush = list_all (\<lambda>c. card_suit c = suit0) cs;
          is_normal_straight = ranks_are_consecutive_desc ranks;
          is_wheel = (ranks ! 0 = Ace \<and> ranks ! 1 = Five \<and> ranks ! 2 = Four \<and> ranks ! 3 = Three \<and> ranks ! 4 = Two);
          is_straight = (is_normal_straight \<or> is_wheel);
          straight_top = (if is_wheel then Five else ranks ! 0)
      in if is_flush \<and> is_straight then StraightFlush straight_top
      else
        let active = rev (sort (group_runs ranks));
            groups = active @ replicate (5 - length active) (0, Two);
            c0 = fst (groups ! 0); c1 = fst (groups ! 1); g = (\<lambda>i. snd (groups ! i))
        in if c0 = 4 then FourOfAKind (g 0) (g 1)
           else if c0 = 3 \<and> c1 = 2 then FullHouse (g 0) (g 1)
           else if c0 = 3 then ThreeOfAKind (g 0) [g 1, g 2]
           else if c0 = 2 \<and> c1 = 2 then TwoPair (g 0) (g 1) (g 2)
           else if c0 = 2 then OnePair (g 0) [g 1, g 2, g 3]
           else if c0 = 1 then
             (if is_flush then Flush ranks else if is_straight then Straight straight_top else HighCard ranks)
           else HighCard ranks)"

text \<open>The five cards left when two positions are taken out.\<close>
definition sub_hand :: "card list \<Rightarrow> nat \<Rightarrow> nat \<Rightarrow> card list" where
  "sub_hand cs i j = map snd (filter (\<lambda>(k, _). k \<noteq> i \<and> k \<noteq> j) (enumerate 0 cs))"

definition evaluate_7 :: "card list \<Rightarrow> hand_rank" where
  "evaluate_7 cs =
     foldl (\<lambda>best (i, j). let candidate = evaluate_5 (sub_hand cs i j) in if candidate > best then candidate else best)
       (HighCard (replicate 5 Two))
       (concat (map (\<lambda>i. map (\<lambda>j. (i, j)) [i + 1..<7]) [0..<7]))"

section \<open>The encoding preserves the order\<close>

text \<open>Values of the Rust type: the arrays have their length.\<close>
fun hand_typed :: "hand_rank \<Rightarrow> bool" where
  "hand_typed (HighCard r) = (length r = 5)" | "hand_typed (OnePair p k) = (length k = 3)"
| "hand_typed (ThreeOfAKind t k) = (length k = 2)" | "hand_typed (Flush r) = (length r = 5)"
| "hand_typed _ = True"

lemma lex_map_face: "length xs = length ys \<Longrightarrow> map face xs @ zs \<le> map face ys @ zs \<longleftrightarrow> xs \<le> (ys :: rank list)"
proof (induction xs ys rule: list_induct2)
  case (Cons x xs y ys)
  have "face x < face y \<longleftrightarrow> x < y" by (simp add: less_rank_def)
  then show ?case using Cons by (simp add: face_inject)
qed simp

lemma hand_fields_length: "hand_typed a \<Longrightarrow> hand_typed b \<Longrightarrow> category_index a = category_index b \<Longrightarrow>
    length (hand_fields a) = length (hand_fields b) \<and> length (hand_fields a) \<le> 5"
  by (cases a; cases b) simp_all

text \<open>Encodings order like hands. On values of the type, one hand is weaker than or equal to another exactly when its
six-byte encoding is lexicographically below or equal; in particular the encoding is injective.\<close>
theorem encoding_preserves_strength:
  assumes "hand_typed a" "hand_typed b"
  shows "to_chain_hash_bytes a \<le> to_chain_hash_bytes b \<longleftrightarrow> a \<le> b" "to_chain_hash_bytes a = to_chain_hash_bytes b \<longleftrightarrow> a = b"
proof -
  have le: "to_chain_hash_bytes a \<le> to_chain_hash_bytes b \<longleftrightarrow> a \<le> b" if "hand_typed a" "hand_typed b" for a b
  proof (cases "category_index a = category_index b")
    case True
    then show ?thesis
      using hand_fields_length[OF that True] lex_map_face[of "hand_fields a" "hand_fields b"]
      by (simp add: to_chain_hash_bytes_def less_eq_hand_rank_def Let_def)
  next
    case False
    then show ?thesis
      by (auto simp: to_chain_hash_bytes_def less_eq_hand_rank_def Let_def order.strict_iff_order)
  qed
  show "to_chain_hash_bytes a \<le> to_chain_hash_bytes b \<longleftrightarrow> a \<le> b" by (rule le[OF assms])
  show "to_chain_hash_bytes a = to_chain_hash_bytes b \<longleftrightarrow> a = b"
    using le[OF assms] le[OF assms(2,1)] by (metis order_antisym order_refl)
qed

theorem encoding_preserves_strength_witness:
  "to_chain_hash_bytes (OnePair Ace [Four, Three, Two]) \<le> to_chain_hash_bytes (TwoPair Three Two Four)"
  using encoding_preserves_strength(1)[of "OnePair Ace [Four, Three, Two]" "TwoPair Three Two Four"]
  by (simp add: less_eq_hand_rank_def)

section \<open>Best of seven\<close>

lemma rank_least: "Two \<le> r" by (cases r) (simp_all add: less_eq_rank_def)

lemma twos_least: "length r = n \<Longrightarrow> replicate n Two \<le> (r :: rank list)"
proof (induction r arbitrary: n)
  case (Cons x xs)
  then show ?case using rank_least[of x] by (cases n) (auto simp: order.order_iff_strict)
qed simp

lemma evaluate_5_typed: "length cs = 5 \<Longrightarrow> hand_typed (evaluate_5 cs)"
  by (simp add: evaluate_5_def Let_def)

lemma sentinel_least: "hand_typed h \<Longrightarrow> HighCard (replicate 5 Two) \<le> h"
  using twos_least[of _ 5] by (cases h) (simp_all add: less_eq_hand_rank_def order.order_iff_strict)

lemma best_fold:
  "(b :: 'b::linorder) \<in> S \<Longrightarrow> finite S \<Longrightarrow> (\<forall>s\<in>S. s \<le> b) \<Longrightarrow>
     foldl (\<lambda>best x. if f x > best then f x else best) b xs = Max (S \<union> f ` set xs)"
proof (induction xs arbitrary: b S)
  case Nil
  then show ?case by (simp add: Max_eqI[symmetric])
next
  case (Cons x xs)
  let ?b = "if f x > b then f x else b"
  have "?b \<in> insert (f x) S" "finite (insert (f x) S)" "\<forall>s\<in>insert (f x) S. s \<le> ?b"
    using Cons.prems by auto
  from Cons.IH[OF this] show ?case by simp
qed

definition pairs_7 :: "(nat \<times> nat) list" where
  "pairs_7 = concat (map (\<lambda>i. map (\<lambda>j. (i, j)) [i + 1..<7]) [0..<7])"

lemma set_pairs_7: "set pairs_7 = {(i, j). i < j \<and> j < 7}"
proof -
  have "(i, j) \<in> set pairs_7 \<longleftrightarrow> i < j \<and> j < 7" for i j
  proof -
    have "(i, j) \<in> set pairs_7 \<longleftrightarrow> (\<exists>x<7. x = i \<and> j \<in> {Suc x..<7})"
      by (auto simp: pairs_7_def intro!: bexI[of _ i])
    then show ?thesis by auto
  qed
  then show ?thesis by auto
qed

lemma evaluate_7_fold:
  "evaluate_7 cs = foldl (\<lambda>best x. if evaluate_5 (sub_hand cs (fst x) (snd x)) > best
     then evaluate_5 (sub_hand cs (fst x) (snd x)) else best) (HighCard (replicate 5 Two)) pairs_7"
  by (simp add: evaluate_7_def pairs_7_def case_prod_unfold Let_def)

lemma sub_hand_length:
  assumes "length cs = 7" "(i, j) \<in> set pairs_7"
  shows "length (sub_hand cs i j) = 5"
proof -
  let ?P = "\<lambda>k. k \<noteq> i \<and> k \<noteq> j"
  have *: "list_all (\<lambda>(i, j). length (filter (\<lambda>k. k \<noteq> i \<and> k \<noteq> j) [0..<7]) = 5) pairs_7" by code_simp
  have "length (filter ?P [0..<7]) = 5" using bspec[OF *[unfolded list_all_iff] assms(2)] by simp
  moreover have "length (filter ?P (map fst (enumerate 0 cs))) = length (sub_hand cs i j)"
    unfolding filter_map length_map sub_hand_def by (simp add: comp_def case_prod_unfold)
  ultimately show ?thesis by (simp add: assms(1))
qed


text \<open>C33: best of seven. The value of seven cards is the strength of the best five-card hand among the twenty-one that
leaving two cards out gives: some choice attains it, and none exceeds it.\<close>
theorem evaluate_7_max:
  assumes "length cs = 7"
  shows "evaluate_7 cs = Max {evaluate_5 (sub_hand cs i j) | i j. i < j \<and> j < 7}"
proof -
  let ?f = "\<lambda>x. evaluate_5 (sub_hand cs (fst x) (snd x))" and ?s = "HighCard (replicate 5 Two)"
  have "?s \<le> ?f x" if "x \<in> set pairs_7" for x
    using that sub_hand_length[OF assms, of "fst x" "snd x"] by (intro sentinel_least evaluate_5_typed) simp
  then have le: "\<forall>h\<in>?f ` set pairs_7. ?s \<le> h" by blast
  have "(0, 1) \<in> set pairs_7" by (simp add: set_pairs_7)
  then have ne: "?f ` set pairs_7 \<noteq> {}" by auto
  have "evaluate_7 cs = Max (insert ?s (?f ` set pairs_7))"
    unfolding evaluate_7_fold using best_fold[of ?s "{?s}" ?f pairs_7] by simp
  also have "\<dots> = max ?s (Max (?f ` set pairs_7))" using ne by (intro Max_insert) simp_all
  also have "\<dots> = Max (?f ` set pairs_7)"
    using le ne by (intro max_absorb2 Max_in[THEN bspec[OF le]]) simp_all
  also have "?f ` set pairs_7 = {evaluate_5 (sub_hand cs i j) | i j. i < j \<and> j < 7}"
    unfolding set_pairs_7 by force
  finally show ?thesis .
qed

theorem evaluate_7_max_witness:
  "length (take 7 (cards Deck_standard)) = 7
   \<and> evaluate_7 (take 7 (cards Deck_standard))
     = Max {evaluate_5 (sub_hand (take 7 (cards Deck_standard)) i j) | i j. i < j \<and> j < 7}"
proof
  show l: "length (take 7 (cards Deck_standard)) = 7" by (simp add: Deck_standard_cards)
  show "evaluate_7 (take 7 (cards Deck_standard))
     = Max {evaluate_5 (sub_hand (take 7 (cards Deck_standard)) i j) | i j. i < j \<and> j < 7}"
    by (rule evaluate_7_max[OF l])
qed

section \<open>What a strength says of the cards\<close>

definition flush :: "card list \<Rightarrow> bool" where
  "flush cs \<longleftrightarrow> (\<exists>s. card_suit ` set cs \<subseteq> {s})"

text \<open>The ten runs, the top card first; in the last one the ace is low.\<close>
definition runs :: "rank list list" where
  "runs = [[Ace, King, Queen, Jack, Ten], [King, Queen, Jack, Ten, Nine], [Queen, Jack, Ten, Nine, Eight],
     [Jack, Ten, Nine, Eight, Seven], [Ten, Nine, Eight, Seven, Six], [Nine, Eight, Seven, Six, Five],
     [Eight, Seven, Six, Five, Four], [Seven, Six, Five, Four, Three], [Six, Five, Four, Three, Two],
     [Five, Four, Three, Two, Ace]]"

definition run_of :: "rank \<Rightarrow> rank multiset \<Rightarrow> bool" where
  "run_of t M \<longleftrightarrow> list_ex (\<lambda>l. t = l ! 0 \<and> M = mset l) runs"

text \<open>The rules of the game, on the multiset of ranks and whether the suits agree.\<close>
fun says :: "hand_rank \<Rightarrow> rank multiset \<Rightarrow> bool \<Rightarrow> bool" where
  "says (StraightFlush t) M fl = (fl \<and> run_of t M)"
| "says (Straight t) M fl = (\<not> fl \<and> run_of t M)"
| "says (FourOfAKind q k) M fl = (M = {#q, q, q, q, k#} \<and> q \<noteq> k)"
| "says (FullHouse t p) M fl = (M = {#t, t, t, p, p#} \<and> t \<noteq> p)"
| "says (ThreeOfAKind t ks) M fl = (M = {#t, t, t#} + mset ks \<and> t \<notin> set ks \<and> sorted_wrt (>) ks)"
| "says (TwoPair h l k) M fl = (M = {#h, h, l, l, k#} \<and> h > l \<and> k \<noteq> h \<and> k \<noteq> l)"
| "says (OnePair p ks) M fl = (M = {#p, p#} + mset ks \<and> p \<notin> set ks \<and> sorted_wrt (>) ks)"
| "says (Flush rs) M fl = (fl \<and> M = mset rs \<and> sorted_wrt (>) rs \<and> \<not> (\<exists>t. run_of t M))"
| "says (HighCard rs) M fl = (\<not> fl \<and> M = mset rs \<and> sorted_wrt (>) rs \<and> \<not> (\<exists>t. run_of t M))"

definition evaluate_ranks :: "rank list \<Rightarrow> bool \<Rightarrow> hand_rank" where
  "evaluate_ranks ranks is_flush =
     (let is_normal_straight = ranks_are_consecutive_desc ranks;
          is_wheel = (ranks ! 0 = Ace \<and> ranks ! 1 = Five \<and> ranks ! 2 = Four \<and> ranks ! 3 = Three \<and> ranks ! 4 = Two);
          is_straight = (is_normal_straight \<or> is_wheel);
          straight_top = (if is_wheel then Five else ranks ! 0)
      in if is_flush \<and> is_straight then StraightFlush straight_top
      else
        let active = rev (sort (group_runs ranks));
            groups = active @ replicate (5 - length active) (0, Two);
            c0 = fst (groups ! 0); c1 = fst (groups ! 1); g = (\<lambda>i. snd (groups ! i))
        in if c0 = 4 then FourOfAKind (g 0) (g 1)
           else if c0 = 3 \<and> c1 = 2 then FullHouse (g 0) (g 1)
           else if c0 = 3 then ThreeOfAKind (g 0) [g 1, g 2]
           else if c0 = 2 \<and> c1 = 2 then TwoPair (g 0) (g 1) (g 2)
           else if c0 = 2 then OnePair (g 0) [g 1, g 2, g 3]
           else if c0 = 1 then
             (if is_flush then Flush ranks else if is_straight then Straight straight_top else HighCard ranks)
           else HighCard ranks)"

lemma evaluate_5_ranks: "evaluate_5 cs = evaluate_ranks (rev (sort (map card_rank cs)))
    (list_all (\<lambda>c. card_suit c = card_suit (cs ! 0)) cs)"
  unfolding evaluate_5_def evaluate_ranks_def Let_def ..

definition is_wheel :: "rank list \<Rightarrow> bool" where
  "is_wheel ranks \<longleftrightarrow> ranks ! 0 = Ace \<and> ranks ! 1 = Five \<and> ranks ! 2 = Four \<and> ranks ! 3 = Three \<and> ranks ! 4 = Two"

definition above :: "rank \<Rightarrow> rank \<Rightarrow> bool" where
  "above a b \<longleftrightarrow> face a = face b + 1"

lemma face_next:
  "above Ace b \<longleftrightarrow> b = King" "above King b \<longleftrightarrow> b = Queen" "above Queen b \<longleftrightarrow> b = Jack"
  "above Jack b \<longleftrightarrow> b = Ten" "above Ten b \<longleftrightarrow> b = Nine" "above Nine b \<longleftrightarrow> b = Eight"
  "above Eight b \<longleftrightarrow> b = Seven" "above Seven b \<longleftrightarrow> b = Six" "above Six b \<longleftrightarrow> b = Five"
  "above Five b \<longleftrightarrow> b = Four" "above Four b \<longleftrightarrow> b = Three" "above Three b \<longleftrightarrow> b = Two"
  "\<not> above Two b"
  by (cases b; simp add: above_def)+

lemma consecutive_runs:
  "ranks_are_consecutive_desc [a, b, c, d, e] \<longleftrightarrow> [a, b, c, d, e] \<in> set (butlast runs)"
proof -
  have "ranks_are_consecutive_desc [a, b, c, d, e] \<longleftrightarrow>
      above a b \<and> above b c \<and> above c d \<and> above d e"
    by (simp add: above_def ranks_are_consecutive_desc_def upt_rec numeral_eq_Suc del: face.simps)
  then show ?thesis
    by (cases a) (auto simp: face_next runs_def simp del: face.simps)
qed

lemma desc_unique: "sorted_wrt (\<ge>) xs \<Longrightarrow> mset xs = mset l \<Longrightarrow> xs = rev (sort (l :: 'b::linorder list))"
  using properties_for_sort[of "rev xs" l] by (simp add: sorted_wrt_rev rev_swap[symmetric])

lemma sorted_runs: "map (\<lambda>l. rev (sort l)) runs = butlast runs @ [[Ace, Five, Four, Three, Two]]"
  by (simp add: runs_def less_eq_rank_def)

definition is_straight :: "rank list \<Rightarrow> bool" where
  "is_straight rs \<longleftrightarrow> ranks_are_consecutive_desc rs \<or> is_wheel rs"

definition straight_top :: "rank list \<Rightarrow> rank" where
  "straight_top rs = (if is_wheel rs then Five else rs ! 0)"

definition desc5 :: "rank list \<Rightarrow> bool" where
  "desc5 rs \<longleftrightarrow> length rs = 5 \<and> sorted_wrt (\<ge>) rs"

lemma is_straight_runs:
  assumes "desc5 rs"
  shows "is_straight rs \<longleftrightarrow> rs \<in> set (map (\<lambda>l. rev (sort l)) runs)"
proof -
  obtain a b c d e where rs: "rs = [a, b, c, d, e]"
    using assms by (auto simp: desc5_def length_Suc_conv numeral_eq_Suc)
  show ?thesis unfolding is_straight_def sorted_runs rs consecutive_runs by (auto simp: is_wheel_def)
qed

lemma run_of_straight:
  assumes "desc5 rs"
  shows "(\<exists>t. run_of t (mset rs)) \<longleftrightarrow> is_straight rs" "is_straight rs \<Longrightarrow> run_of (straight_top rs) (mset rs)"
proof -
  have eq: "mset rs = mset l \<longleftrightarrow> rs = rev (sort l)" for l
    using desc_unique[of rs l] assms by (auto simp: desc5_def)
  show "(\<exists>t. run_of t (mset rs)) \<longleftrightarrow> is_straight rs"
    unfolding is_straight_runs[OF assms] by (auto simp: run_of_def list_ex_iff eq)
  show "run_of (straight_top rs) (mset rs)" if "is_straight rs"
  proof (cases "is_wheel rs")
    case True
    then have "rs = [Ace, Five, Four, Three, Two]"
      using assms by (auto simp: is_wheel_def desc5_def length_Suc_conv numeral_eq_Suc)
    then show ?thesis using True by (simp add: run_of_def straight_top_def runs_def)
  next
    case False
    then have "rs \<in> set (butlast runs)"
      using that assms consecutive_runs by (auto simp: is_straight_def desc5_def length_Suc_conv numeral_eq_Suc)
    then show ?thesis using False in_set_butlastD[of rs runs]
      by (auto simp: run_of_def straight_top_def list_ex_iff)
  qed
qed

definition evaluate_groups :: "rank list \<Rightarrow> bool \<Rightarrow> hand_rank" where
  "evaluate_groups rs fl =
     (let active = rev (sort (group_runs rs));
          groups = active @ replicate (5 - length active) (0, Two);
          c0 = fst (groups ! 0); c1 = fst (groups ! 1); g = (\<lambda>i. snd (groups ! i))
      in if c0 = 4 then FourOfAKind (g 0) (g 1)
         else if c0 = 3 \<and> c1 = 2 then FullHouse (g 0) (g 1)
         else if c0 = 3 then ThreeOfAKind (g 0) [g 1, g 2]
         else if c0 = 2 \<and> c1 = 2 then TwoPair (g 0) (g 1) (g 2)
         else if c0 = 2 then OnePair (g 0) [g 1, g 2, g 3]
         else if c0 = 1 then
           (if fl then Flush rs else if is_straight rs then Straight (straight_top rs) else HighCard rs)
         else HighCard rs)"

lemma evaluate_ranks_split:
  "evaluate_ranks rs fl =
     (if fl \<and> is_straight rs then StraightFlush (straight_top rs) else evaluate_groups rs fl)"
  unfolding evaluate_ranks_def evaluate_groups_def Let_def is_straight_def straight_top_def is_wheel_def by simp

lemma gt_facts: "(x :: rank) > y \<Longrightarrow> \<not> x \<le> y \<and> y \<le> x \<and> x \<noteq> y \<and> y \<noteq> x"
  by auto

lemma says_two:
  assumes "x > y"
  shows "says (evaluate_groups [x, x, x, x, y] fl) {#x, x, x, x, y#} fl"
    "says (evaluate_groups [x, x, x, y, y] fl) {#x, x, x, y, y#} fl"
    "says (evaluate_groups [x, x, y, y, y] fl) {#x, x, y, y, y#} fl"
    "says (evaluate_groups [x, y, y, y, y] fl) {#x, y, y, y, y#} fl"
  using gt_facts[OF assms] by (simp_all add: evaluate_groups_def)

lemma says_three:
  assumes "x > y" "y > z"
  shows "says (evaluate_groups [x, x, x, y, z] fl) {#x, x, x, y, z#} fl"
    "says (evaluate_groups [x, x, y, y, z] fl) {#x, x, y, y, z#} fl"
    "says (evaluate_groups [x, x, y, z, z] fl) {#x, x, y, z, z#} fl"
    "says (evaluate_groups [x, y, y, y, z] fl) {#x, y, y, y, z#} fl"
    "says (evaluate_groups [x, y, y, z, z] fl) {#x, y, y, z, z#} fl"
    "says (evaluate_groups [x, y, z, z, z] fl) {#x, y, z, z, z#} fl"
  using gt_facts[OF assms(1)] gt_facts[OF assms(2)] gt_facts[OF less_trans[OF assms(2,1)]]
  by (simp_all add: evaluate_groups_def less_trans[OF assms(2,1)] assms)

lemma says_four:
  assumes "x > y" "y > z" "z > w"
  shows "says (evaluate_groups [x, x, y, z, w] fl) {#x, x, y, z, w#} fl"
    "says (evaluate_groups [x, y, y, z, w] fl) {#x, y, y, z, w#} fl"
    "says (evaluate_groups [x, y, z, z, w] fl) {#x, y, z, z, w#} fl"
    "says (evaluate_groups [x, y, z, w, w] fl) {#x, y, z, w, w#} fl"
proof -
  have t: "x > z" "y > w" "x > w" using assms by order+
  note g = gt_facts[OF assms(1)] gt_facts[OF assms(2)] gt_facts[OF assms(3)]
    gt_facts[OF t(1)] gt_facts[OF t(2)] gt_facts[OF t(3)]
  show "says (evaluate_groups [x, x, y, z, w] fl) {#x, x, y, z, w#} fl"
    "says (evaluate_groups [x, y, y, z, w] fl) {#x, y, y, z, w#} fl"
    "says (evaluate_groups [x, y, z, z, w] fl) {#x, y, z, z, w#} fl"
    "says (evaluate_groups [x, y, z, w, w] fl) {#x, y, z, w, w#} fl"
    using g by (simp_all add: evaluate_groups_def assms t)
qed

lemma says_five:
  assumes "x > y" "y > z" "z > w" "w > v" "\<not> (fl \<and> is_straight [x, y, z, w, v])"
  shows "says (evaluate_groups [x, y, z, w, v] fl) {#x, y, z, w, v#} fl"
proof -
  let ?rs = "[x, y, z, w, v]"
  have t: "x > z" "y > w" "x > w" "z > v" "y > v" "x > v" using assms by order+
  note g = gt_facts[OF assms(1)] gt_facts[OF assms(2)] gt_facts[OF assms(3)] gt_facts[OF assms(4)]
    gt_facts[OF t(1)] gt_facts[OF t(2)] gt_facts[OF t(3)] gt_facts[OF t(4)] gt_facts[OF t(5)] gt_facts[OF t(6)]
  have e: "evaluate_groups ?rs fl
      = (if fl then Flush ?rs else if is_straight ?rs then Straight (straight_top ?rs) else HighCard ?rs)"
    using g by (simp add: evaluate_groups_def)
  have "desc5 ?rs" using g by (simp add: desc5_def)
  note st = run_of_straight[OF this]
  have "sorted_wrt (>) ?rs" using assms t by simp
  then have "says (evaluate_groups ?rs fl) (mset ?rs) fl"
    using st assms(5) unfolding e by (cases fl; cases "is_straight ?rs") (simp_all del: mset.simps)
  then show ?thesis by simp
qed

lemma evaluate_ranks_says:
  assumes "desc5 rs" "\<not> (\<exists>r. set rs = {r})"
  shows "says (evaluate_ranks rs fl) (mset rs) fl"
proof (cases "fl \<and> is_straight rs")
  case True
  then show ?thesis using run_of_straight[OF assms(1)] by (simp add: evaluate_ranks_split)
next
  case False
  obtain a b c d e where rs: "rs = [a, b, c, d, e]" and o: "a \<ge> b" "b \<ge> c" "c \<ge> d" "d \<ge> e"
    using assms(1) by (auto simp: desc5_def length_Suc_conv numeral_eq_Suc)
  have split: "a = b \<or> a > b" "b = c \<or> b > c" "c = d \<or> c > d" "d = e \<or> d > e" using o by auto
  have "says (evaluate_groups rs fl) (mset rs) fl"
    using split assms(2) False unfolding rs
    by (elim disjE) (simp_all add: says_two says_three says_four says_five)
  then show ?thesis using False by (simp only: evaluate_ranks_split if_False)
qed

lemma flush_first: "length cs = 5 \<Longrightarrow> list_all (\<lambda>c. card_suit c = card_suit (cs ! 0)) cs \<longleftrightarrow> flush cs"
  by (cases cs) (auto simp: flush_def list_all_iff)

text \<open>C34: the evaluator follows the rules of the game. Unless all five ranks agree, which no deck allows, the strength of
five cards states the truth about them: its category, its main ranks and its kickers in descending order describe exactly
the multiset of ranks and whether the suits agree; and the order in which the cards are given does not matter.\<close>
theorem evaluate_5_says:
  assumes "length cs = 5" "\<not> (\<exists>r. card_rank ` set cs = {r})" "mset cs' = mset cs"
  shows "says (evaluate_5 cs) (image_mset card_rank (mset cs)) (flush cs) \<and> evaluate_5 cs' = evaluate_5 cs"
proof -
  have "desc5 (rev (sort (map card_rank cs)))"
    using assms(1) by (simp add: desc5_def sorted_wrt_rev)
  then have s: "says (evaluate_5 cs) (image_mset card_rank (mset cs)) (flush cs)"
    using evaluate_ranks_says[of "rev (sort (map card_rank cs))"] assms(1,2)
    by (simp add: evaluate_5_ranks flush_first)
  have "sort (map card_rank cs') = sort (map card_rank cs)" using assms(3) by (intro properties_for_sort) simp_all
  moreover have "length cs' = 5" "flush cs' = flush cs"
    using assms(1) mset_eq_length[OF assms(3)] mset_eq_setD[OF assms(3)] by (simp_all add: flush_def)
  ultimately have "evaluate_5 cs' = evaluate_5 cs" using assms(1) by (simp add: evaluate_5_ranks flush_first)
  then show ?thesis using s by blast
qed

theorem evaluate_5_says_witness:
  "says (evaluate_5 [Card 51, Card 14, Card 9, Card 4, Card 3]) {#Ace, Five, Four, Three, Two#}
     (flush [Card 51, Card 14, Card 9, Card 4, Card 3])
   \<and> evaluate_5 [Card 3, Card 51, Card 14, Card 9, Card 4] = evaluate_5 [Card 51, Card 14, Card 9, Card 4, Card 3]"
proof -
  have r: "map card_rank [Card 51, Card 14, Card 9, Card 4, Card 3] = [Ace, Five, Four, Three, Two]" by code_simp
  have "card_rank ` set [Card 51, Card 14, Card 9, Card 4, Card 3] = set [Ace, Five, Four, Three, Two]"
    unfolding r[symmetric] by (simp only: set_map)
  then have "\<not> (\<exists>q. card_rank ` set [Card 51, Card 14, Card 9, Card 4, Card 3] = {q})" by auto
  note claim = evaluate_5_says[OF _ this, of "[Card 3, Card 51, Card 14, Card 9, Card 4]"]
  have "image_mset card_rank (mset [Card 51, Card 14, Card 9, Card 4, Card 3]) = mset [Ace, Five, Four, Three, Two]"
    unfolding r[symmetric] by (simp only: mset_map)
  then show ?thesis using claim by simp
qed

end
