(* ===== verification/Shuffle_Proof.thy ===== *)
theory Shuffle_Proof
  imports Hands Context
begin

text \<open>The commit-reveal shuffle proof of \<^verbatim>\<open>examples/card_primitives/src/shuffle_proof.rs\<close>, the runtime action of
\<^verbatim>\<open>forge_integration.rs\<close> and the hand that \<^verbatim>\<open>main.rs\<close> plays with them.  The unkeyed BLAKE3 digest and the extendable
output of the random library are parameters; a shuffle that does not return is \<^term>\<open>None\<close>.\<close>

section \<open>Commitments\<close>

definition DOMAIN_COMMIT :: bytes where
  "DOMAIN_COMMIT = map of_char ''arkhe-forge::shuffle_proof::v1::commit::''"

definition DOMAIN_SHOWDOWN :: bytes where
  "DOMAIN_SHOWDOWN = map of_char ''arkhe-forge::shuffle_proof::v1::showdown::''"

type_synonym digest = "bytes \<Rightarrow> bytes"

datatype shuffle_commitment = ShuffleCommitment (commitment_bytes: bytes)

definition commit_seed :: "digest \<Rightarrow> bytes \<Rightarrow> shuffle_commitment" where
  "commit_seed H s = ShuffleCommitment (H (DOMAIN_COMMIT @ s))"

datatype proof_error = CommitmentMismatch | DeckMismatch

definition verify_commitment :: "digest \<Rightarrow> shuffle_commitment \<Rightarrow> bytes \<Rightarrow> proof_error + unit" where
  "verify_commitment H c s = (if commit_seed H s \<noteq> c then Inl CommitmentMismatch else Inr ())"

section \<open>The two verifiers\<close>

definition deck_bytes :: "deck \<Rightarrow> bytes" where
  "deck_bytes d = map to_byte (cards d)"

definition verify_shuffle :: "digest \<Rightarrow> xof \<Rightarrow> shuffle_commitment \<Rightarrow> bytes \<Rightarrow> deck \<Rightarrow> (proof_error + unit) option" where
  "verify_shuffle H X c s expected =
     (case verify_commitment H c s of
        Inl e \<Rightarrow> Some (Inl e)
      | Inr _ \<Rightarrow>
          map_option (\<lambda>(replay, _). if replay \<noteq> expected then Inl DeckMismatch else Inr ())
            (Deck_shuffle X Deck_standard (from_seed s)))"

definition verify_shuffle_order ::
  "digest \<Rightarrow> xof \<Rightarrow> shuffle_commitment \<Rightarrow> bytes \<Rightarrow> bytes \<Rightarrow> (proof_error + unit) option" where
  "verify_shuffle_order H X c s expected =
     (case verify_commitment H c s of
        Inl e \<Rightarrow> Some (Inl e)
      | Inr _ \<Rightarrow>
          map_option (\<lambda>(replay, _). if deck_bytes replay \<noteq> expected then Inl DeckMismatch else Inr ())
            (Deck_shuffle X Deck_standard (from_seed s)))"

section \<open>The receipt\<close>

record showdown_receipt =
  deck_order :: bytes
  hand_rank :: hand_rank

definition from_deck_and_hand :: "deck \<Rightarrow> hand_rank \<Rightarrow> showdown_receipt" where
  "from_deck_and_hand d h = \<lparr>deck_order = map to_byte (cards d), hand_rank = h\<rparr>"

definition from_cards_and_hand :: "card list \<Rightarrow> hand_rank \<Rightarrow> showdown_receipt" where
  "from_cards_and_hand cs h = \<lparr>deck_order = map to_byte cs, hand_rank = h\<rparr>"

definition chain_hash :: "digest \<Rightarrow> showdown_receipt \<Rightarrow> bytes" where
  "chain_hash H r = H (DOMAIN_SHOWDOWN @ deck_order r @ to_chain_hash_bytes (hand_rank r))"

section \<open>The action\<close>

datatype deck_order_bytes = DeckOrderBytes (dob_inner: bytes)

definition DeckOrderBytes_deserialize :: "bytes codec \<Rightarrow> bytes \<Rightarrow> deck_order_bytes option" where
  "DeckOrderBytes_deserialize vec bs =
     (case cd_dec vec bs of
        None \<Rightarrow> None
      | Some inner \<Rightarrow> if length inner \<noteq> 52 then None else Some (DeckOrderBytes inner))"

definition DeckOrderBytes_serialize :: "bytes codec \<Rightarrow> deck_order_bytes \<Rightarrow> bytes option" where
  "DeckOrderBytes_serialize vec d = cd_enc vec (dob_inner d)"

record record_hand_showdown =
  rhs_schema_version :: u16
  rhs_commitment :: bytes
  rhs_seed :: bytes
  rhs_deck_order :: deck_order_bytes
  rhs_hand_rank_bytes :: bytes

record hand_showdown_landed =
  hsl_schema_version :: u16
  hsl_chain_hash :: bytes

definition HandShowdownLanded :: "hand_showdown_landed codec \<Rightarrow> hand_showdown_landed arkhe_type" where
  "HandShowdownLanded pc = \<lparr>TYPE_CODE = 0x01000002, SCHEMA_VERSION = 1, postcard = pc\<rparr>"

definition compute_RecordHandShowdown ::
  "digest \<Rightarrow> xof \<Rightarrow> hand_showdown_landed codec \<Rightarrow> record_hand_showdown \<Rightarrow> 'ext ctx
     \<Rightarrow> ((action_error + unit) \<times> 'ext ctx) option" where
  "compute_RecordHandShowdown H X pc a c =
     (case ensure_schema_version 1 (rhs_schema_version a) c of
        (Inl e, c') \<Rightarrow> Some (Inl e, c')
      | (Inr _, c') \<Rightarrow>
          (let recomputed = commit_seed H (rhs_seed a);
               provided = ShuffleCommitment (rhs_commitment a)
           in if recomputed \<noteq> provided then Some (Inl (InvalidInput ''commitment mismatch''), c')
              else
                map_option (\<lambda>v. case v of
                    Inl _ \<Rightarrow> (Inl (InvalidInput ''shuffle order invalid''), c')
                  | Inr _ \<Rightarrow>
                      (let ch = H (DOMAIN_SHOWDOWN @ dob_inner (rhs_deck_order a) @ rhs_hand_rank_bytes a)
                       in emit_event (HandShowdownLanded pc) \<lparr>hsl_schema_version = 1, hsl_chain_hash = ch\<rparr> c'))
                  (verify_shuffle_order H X recomputed (rhs_seed a) (dob_inner (rhs_deck_order a)))))"

section \<open>The hand the demonstration plays\<close>

fun draw_n :: "nat \<Rightarrow> deck \<Rightarrow> (card list \<times> deck) option" where
  "draw_n 0 d = Some ([], d)"
| "draw_n (Suc n) d =
     (case Deck_draw d of
        (None, _) \<Rightarrow> None
      | (Some c, d') \<Rightarrow> map_option (\<lambda>(cs, d''). (c # cs, d'')) (draw_n n d'))"

text \<open>Hole cards are dealt in turn and one card is burnt before the flop, the turn and the river.\<close>
definition deal_hand :: "deck \<Rightarrow> (card list \<times> card list \<times> deck) option" where
  "deal_hand d =
     map_option (\<lambda>(cs, d').
       let board = [cs ! 5, cs ! 6, cs ! 7, cs ! 9, cs ! 11]
       in ([cs ! 0, cs ! 2] @ board, [cs ! 1, cs ! 3] @ board, d')) (draw_n 12 d)"

definition winner_rank :: "hand_rank \<Rightarrow> hand_rank \<Rightarrow> hand_rank" where
  "winner_rank p1 p2 = (case compare_hands p1 p2 of Greater \<Rightarrow> p1 | Less \<Rightarrow> p2 | Equal \<Rightarrow> p1)"

definition play_hand :: "xof \<Rightarrow> bytes \<Rightarrow> (card list \<times> card list \<times> showdown_receipt) option" where
  "play_hand X s =
     Option.bind (Deck_shuffle X Deck_standard (from_seed s)) (\<lambda>(d, _).
     Option.bind (deal_hand d) (\<lambda>(p1, p2, d').
       Some (p1, p2, from_deck_and_hand d' (winner_rank (evaluate_7 p1) (evaluate_7 p2)))))"

definition showdown_action :: "digest \<Rightarrow> bytes \<Rightarrow> showdown_receipt \<Rightarrow> record_hand_showdown" where
  "showdown_action H s r =
     \<lparr>rhs_schema_version = 1, rhs_commitment = commitment_bytes (commit_seed H s), rhs_seed = s,
      rhs_deck_order = DeckOrderBytes (deck_order r), rhs_hand_rank_bytes = to_chain_hash_bytes (hand_rank r)\<rparr>"

section \<open>Acceptance\<close>

lemma verify_commitment_ok: "verify_commitment H c s = Inr u \<longleftrightarrow> c = commit_seed H s"
  by (auto simp: verify_commitment_def)

lemma verify_shuffle_order_ok:
  "verify_shuffle_order H X c s ord = Some (Inr ()) \<longleftrightarrow>
     c = commit_seed H s \<and> (\<exists>d r. Deck_shuffle X Deck_standard (from_seed s) = Some (d, r) \<and> deck_bytes d = ord)"
  by (auto simp: verify_shuffle_order_def verify_commitment_def)

lemma verify_shuffle_ok:
  "verify_shuffle H X c s d = Some (Inr ()) \<longleftrightarrow>
     c = commit_seed H s \<and> (\<exists>r. Deck_shuffle X Deck_standard (from_seed s) = Some (d, r))"
  by (auto simp: verify_shuffle_def verify_commitment_def)

lemma commit_seed_inject: "commit_seed H s = commit_seed H s' \<longleftrightarrow> H (DOMAIN_COMMIT @ s) = H (DOMAIN_COMMIT @ s')"
  by (simp add: commit_seed_def)

text \<open>The cards of a shuffled deck are all different, so that exchanging two of them shows.\<close>
lemma swapped_order_differs:
  assumes "Deck_shuffle X Deck_standard (from_seed s) = Some (d, r)"
  shows "swap (deck_bytes d) 0 1 \<noteq> deck_bytes d"
proof -
  have d: "deck_ok d" using deck_run_invariant[OF deck_run.shuffled[OF deck_run.start assms]] by simp
  have l: "length (cards d) = 52" using deck_ok_length[OF d] by simp
  have "distinct (cards d)" using d Deck_standard_cards(2) mset_eq_imp_distinct_iff by (auto simp: deck_ok_def)
  then have "distinct (deck_bytes d)" by (simp add: deck_bytes_def distinct_map inj_on_def card.expand)
  then have "deck_bytes d ! 0 \<noteq> deck_bytes d ! 1" using l by (simp add: nth_eq_iff_index_eq deck_bytes_def del: nth_map)
  moreover have "swap (deck_bytes d) 0 1 ! 0 = deck_bytes d ! 1" using l by (simp add: swap_def deck_bytes_def)
  ultimately show ?thesis by metis
qed

definition collision :: "digest \<Rightarrow> bytes \<Rightarrow> bytes \<Rightarrow> bool" where
  "collision H x y \<longleftrightarrow> x \<noteq> y \<and> H x = H y"

text \<open>A commitment binds the deck. A dealer who, for one broadcast commitment, gets two deck orders accepted with
two revealed seeds has either broadcast the same order or found a collision of the hash on the two commitment inputs; and
an accepted order always holds each of the fifty-two cards exactly once.\<close>
theorem commitment_binds_order:
  assumes "verify_shuffle_order H X c s ord = Some (Inr ())" "verify_shuffle_order H X c s' ord' = Some (Inr ())"
  shows "(ord = ord' \<or> collision H (DOMAIN_COMMIT @ s) (DOMAIN_COMMIT @ s')) \<and> sort ord = map of_nat [0..<52]"
proof -
  have 1: "ord = ord' \<or> collision H (DOMAIN_COMMIT @ s) (DOMAIN_COMMIT @ s')"
    using assms by (auto simp: verify_shuffle_order_ok commit_seed_inject collision_def)
  obtain d r where d: "Deck_shuffle X Deck_standard (from_seed s) = Some (d, r)" "deck_bytes d = ord"
    using assms(1) unfolding verify_shuffle_order_ok by blast
  from deck_run_invariant[OF deck_run.shuffled[OF deck_run.start d(1)]]
  have "mset ord = mset (map to_byte (cards Deck_standard))"
    by (simp add: deck_ok_def d(2)[symmetric] deck_bytes_def)
  then have "sort ord = sort (map of_nat [0..<52])"
    unfolding Deck_standard_bytes by (intro properties_for_sort) simp_all
  also have "\<dots> = map of_nat [0..<52]" by code_simp
  finally show ?thesis using 1 by blast
qed

section \<open>An honest hand\<close>

lemma Deck_draw_cards: "Deck_draw d = (o', d') \<Longrightarrow> cards d' = cards d"
  by (auto simp: Deck_draw_def split: if_splits)

lemma draw_n_take:
  "deck_ok d \<Longrightarrow> unat (cursor d) + n \<le> 52 \<Longrightarrow>
     \<exists>d'. draw_n n d = Some (take n (drop (unat (cursor d)) (cards d)), d') \<and> cards d' = cards d"
proof (induction n arbitrary: d)
  case (Suc n)
  let ?k = "unat (cursor d)" and ?d = "d\<lparr>cursor := cursor d + 1\<rparr>"
  have k: "?k < 52" using Suc.prems(2) by simp
  then have lt: "\<not> 52 \<le> cursor d" by (simp add: word_le_nat_alt)
  have k': "unat (cursor d + 1) = Suc ?k" using k by (simp add: unat_plus_if')
  then have "deck_ok ?d" using Suc.prems(1) k by (simp add: deck_ok_def word_le_nat_alt)
  from Suc.IH[OF this] k' Suc.prems(2)
  obtain d' where d': "draw_n n ?d = Some (take n (drop (Suc ?k) (cards d)), d')" "cards d' = cards d" by auto
  have "take (Suc n) (drop ?k (cards d)) = cards d ! ?k # take n (drop (Suc ?k) (cards d))"
    using k deck_ok_length[OF Suc.prems(1)] by (simp flip: Cons_nth_drop_Suc)
  then show ?case using d' lt by (simp add: Deck_draw_def)
qed simp

lemma play_hand_deck:
  assumes "play_hand X s = Some (p1, p2, r)"
  obtains d rng where "Deck_shuffle X Deck_standard (from_seed s) = Some (d, rng)" "deck_order r = deck_bytes d"
    "deck_ok d" "hand_rank r = winner_rank (evaluate_7 p1) (evaluate_7 p2)"
    "p1 = map (\<lambda>i. cards d ! i) [0, 2, 5, 6, 7, 9, 11]" "p2 = map (\<lambda>i. cards d ! i) [1, 3, 5, 6, 7, 9, 11]"
proof -
  from assms obtain d rng where sh: "Deck_shuffle X Deck_standard (from_seed s) = Some (d, rng)"
    by (auto simp: play_hand_def bind_eq_Some_conv)
  from deck_run_invariant[OF deck_run.shuffled[OF deck_run.start sh]] have ok: "deck_ok d" by simp
  have cur: "cursor d = 0"
    using sh by (auto simp: Deck_shuffle_def Let_def Deck_standard_def split: if_splits)
  from draw_n_take[OF ok, of 12] cur
  obtain d' where d': "draw_n 12 d = Some (take 12 (cards d), d')" "cards d' = cards d" by auto
  have deal: "deal_hand d = Some (map (\<lambda>i. cards d ! i) [0, 2, 5, 6, 7, 9, 11], map (\<lambda>i. cards d ! i) [1, 3, 5, 6, 7, 9, 11], d')"
    by (simp add: deal_hand_def d'(1) Let_def)
  have "play_hand X s = Some (map (\<lambda>i. cards d ! i) [0, 2, 5, 6, 7, 9, 11], map (\<lambda>i. cards d ! i) [1, 3, 5, 6, 7, 9, 11],
      from_deck_and_hand d' (winner_rank (evaluate_7 (map (\<lambda>i. cards d ! i) [0, 2, 5, 6, 7, 9, 11]))
        (evaluate_7 (map (\<lambda>i. cards d ! i) [1, 3, 5, 6, 7, 9, 11]))))"
    by (simp only: play_hand_def sh deal Option.bind.bind_lunit prod.case)
  then have p: "p1 = map (\<lambda>i. cards d ! i) [0, 2, 5, 6, 7, 9, 11]" "p2 = map (\<lambda>i. cards d ! i) [1, 3, 5, 6, 7, 9, 11]"
    and r: "r = from_deck_and_hand d' (winner_rank (evaluate_7 p1) (evaluate_7 p2))"
    unfolding assms by (simp_all only: option.inject prod.inject)
  show thesis
    by (rule that[OF sh _ ok _ p]) (simp_all add: r from_deck_and_hand_def deck_bytes_def d'(2))
qed

lemma winner_rank_max: "winner_rank a b = max a b"
  by (auto simp: winner_rank_def compare_hands_def max_def)

text \<open>A fair hand is accepted and lands. Whatever the seed, when the shuffle returns, the hand is dealt from the
shuffled deck, two hole cards each in turn and the board after the burnt cards; the strength in the receipt is the greater
of the two; the audience accepts the receipt against the commitment although cards have been drawn; and the runtime action
built from it succeeds, staging exactly one event whose payload encodes the receipt's chain hash.\<close>
theorem honest_hand_lands:
  assumes "play_hand X s = Some (p1, p2, r)"
    and "cd_enc pc \<lparr>hsl_schema_version = 1, hsl_chain_hash = chain_hash H r\<rparr> = Some payload"
  shows "(\<exists>d rng. Deck_shuffle X Deck_standard (from_seed s) = Some (d, rng) \<and> deck_order r = map to_byte (cards d)
      \<and> p1 = map (\<lambda>i. cards d ! i) [0, 2, 5, 6, 7, 9, 11] \<and> p2 = map (\<lambda>i. cards d ! i) [1, 3, 5, 6, 7, 9, 11])
    \<and> hand_rank r = max (evaluate_7 p1) (evaluate_7 p2)
    \<and> verify_shuffle_order H X (commit_seed H s) s (deck_order r) = Some (Inr ())
    \<and> (\<exists>c'. compute_RecordHandShowdown H X pc (showdown_action H s r) c = Some (Inr (), c')
      \<and> events c' = events c @ [\<lparr>er_type_code = 0x01000002, er_sequence = event_seq c, er_tick = cur_tick c,
          er_payload = payload\<rparr>]
      \<and> ops c' = ops c @ [EmitEvent None 0x01000002 payload])"
proof -
  obtain d rng where d: "Deck_shuffle X Deck_standard (from_seed s) = Some (d, rng)" "deck_order r = deck_bytes d"
    "hand_rank r = winner_rank (evaluate_7 p1) (evaluate_7 p2)"
    "p1 = map (\<lambda>i. cards d ! i) [0, 2, 5, 6, 7, 9, 11]" "p2 = map (\<lambda>i. cards d ! i) [1, 3, 5, 6, 7, 9, 11]"
    using play_hand_deck[OF assms(1)] by metis
  have 1: "\<exists>d rng. Deck_shuffle X Deck_standard (from_seed s) = Some (d, rng) \<and> deck_order r = map to_byte (cards d)
      \<and> p1 = map (\<lambda>i. cards d ! i) [0, 2, 5, 6, 7, 9, 11] \<and> p2 = map (\<lambda>i. cards d ! i) [1, 3, 5, 6, 7, 9, 11]"
    using d unfolding deck_bytes_def by blast
  have 2: "hand_rank r = max (evaluate_7 p1) (evaluate_7 p2)" using d(3) by (simp only: winner_rank_max)
  have v: "verify_shuffle_order H X (commit_seed H s) s (deck_order r) = Some (Inr ())"
    using d(1) d(2)[symmetric] unfolding verify_shuffle_order_ok by blast
  have 4: "\<exists>c'. compute_RecordHandShowdown H X pc (showdown_action H s r) c = Some (Inr (), c')
      \<and> events c' = events c @ [\<lparr>er_type_code = 0x01000002, er_sequence = event_seq c, er_tick = cur_tick c,
          er_payload = payload\<rparr>]
      \<and> ops c' = ops c @ [EmitEvent None 0x01000002 payload]"
    using v assms(2)
    by (simp add: compute_RecordHandShowdown_def showdown_action_def ensure_schema_version_apply emit_event_def
        HandShowdownLanded_def chain_hash_def)
  show ?thesis by (intro conjI 1 2 v 4)
qed

section \<open>Concrete hands\<close>

text \<open>A stream on which every sample is accepted at the first draw.\<close>
definition ones :: xof where
  "ones = (\<lambda>_ _ _. - 1)"

lemma ones_accepted: "sample n (- 1) \<noteq> None"
proof (cases "n = 0")
  case False
  have l: "(of_nat (unat (- 1 :: 'a word) * unat n) :: 'a word) = - n" by simp
  have "(- n) mod n \<le> - n" by (simp add: word_le_nat_alt unat_mod)
  then show ?thesis unfolding sample_def lemire_draw_def Let_def l using False by (auto simp: not_less)
qed (simp add: sample_def)

lemma ones_returns:
  assumes "rng_ok ones r"
  shows "\<exists>j r'. gen_range_inclusive rand_usize ones 0 i r = Some (j, r') \<and> rng_ok ones r'"
proof -
  have "from_le (replicate 8 (- 1)) = (- 1 :: u64)" by code_simp
  moreover have "stream ones r 0 8 = replicate 8 (- 1)"
    by (simp add: stream_def ones_def map_replicate_const)
  ultimately have "draw ones r 0 = (- 1 :: u64)" by (simp add: draw_def)
  then have "inclusive_draw (0 :: u64) i (draw ones r 0 :: u64) \<noteq> None"
    using ones_accepted by (auto simp: inclusive_draw_def)
  from usize.returns[OF word_zero_le assms this]
  obtain j r' where jr: "gen_range_inclusive rand_usize ones 0 i r = Some (j, r')" by auto
  then show ?thesis using usize.accepted_draw[OF word_zero_le assms jr] by (auto simp: advanced_def)
qed

lemma ones_shuffle_loop: "rng_ok ones r \<Longrightarrow> deck_shuffle_loop ones k i cs r \<noteq> None"
proof (induction i arbitrary: cs r)
  case (Suc i)
  obtain j r' where "gen_range_inclusive rand_usize ones 0 (of_nat (Suc i)) r = Some (j, r')" "rng_ok ones r'"
    using ones_returns[OF Suc.prems] by metis
  then show ?case using Suc.IH by (simp del: of_nat_Suc)
qed simp

lemma ones_shuffles: "\<exists>d r. Deck_shuffle ones Deck_standard (from_seed s) = Some (d, r)"
proof -
  have "deck_shuffle_loop ones 0 51 (cards Deck_standard) (from_seed s) \<noteq> None"
    by (rule ones_shuffle_loop) (simp add: rng_ok_from_seed)
  moreover have "cursor Deck_standard = 0" by (simp add: Deck_standard_def)
  ultimately show ?thesis by (auto simp: Deck_shuffle_def Let_def)
qed

lemma ones_plays: "\<exists>p1 p2 r. play_hand ones s = Some (p1, p2, r)"
proof -
  obtain d rng where sh: "Deck_shuffle ones Deck_standard (from_seed s) = Some (d, rng)" using ones_shuffles by blast
  from deck_run_invariant[OF deck_run.shuffled[OF deck_run.start sh]] have ok: "deck_ok d" by simp
  have "cursor d = 0" using sh by (auto simp: Deck_shuffle_def Let_def Deck_standard_def split: if_splits)
  with draw_n_take[OF ok, of 12] obtain d' where "draw_n 12 d = Some (take 12 (cards d), d')" by auto
  then show ?thesis by (simp add: play_hand_def sh deal_hand_def Let_def)
qed

theorem honest_hand_lands_witness:
  "\<exists>r. verify_shuffle_order (\<lambda>x. x) ones (commit_seed (\<lambda>x. x) [1]) [1] (deck_order r) = Some (Inr ())
     \<and> (\<exists>c'. compute_RecordHandShowdown (\<lambda>x. x) ones \<lparr>cd_enc = \<lambda>x. Some (hsl_chain_hash x), cd_dec = \<lambda>b. None\<rparr>
          (showdown_action (\<lambda>x. x) [1] r) demo_ctx = Some (Inr (), c') \<and> length (events c') = 1)"
proof -
  obtain p1 p2 r where p: "play_hand ones [1] = Some (p1, p2, r)" using ones_plays by blast
  let ?pc = "\<lparr>cd_enc = \<lambda>x. Some (hsl_chain_hash x), cd_dec = \<lambda>b. None\<rparr>"
  have e: "cd_enc ?pc \<lparr>hsl_schema_version = 1, hsl_chain_hash = chain_hash (\<lambda>x. x) r\<rparr> = Some (chain_hash (\<lambda>x. x) r)" by simp
  note claim = honest_hand_lands[OF p e, THEN conjunct2, THEN conjunct2]
  obtain c' where "compute_RecordHandShowdown (\<lambda>x. x) ones ?pc (showdown_action (\<lambda>x. x) [1] r) demo_ctx = Some (Inr (), c')"
    "events c' = events demo_ctx @ [\<lparr>er_type_code = 0x01000002, er_sequence = event_seq demo_ctx,
      er_tick = cur_tick demo_ctx, er_payload = chain_hash (\<lambda>x. x) r\<rparr>]"
    using claim[of demo_ctx] by blast
  moreover from this(2) have "length (events c') = 1" by (simp add: demo_ctx_def ActionContext_new_def)
  ultimately show ?thesis using claim[of demo_ctx] by blast
qed

theorem commitment_binds_order_witness:
  "\<exists>ord. verify_shuffle_order (\<lambda>_. []) ones (ShuffleCommitment []) [1] ord = Some (Inr ())
     \<and> verify_shuffle_order (\<lambda>_. []) ones (ShuffleCommitment []) [2] (deck_bytes (fst (the (Deck_shuffle ones Deck_standard (from_seed [2])))))
         = Some (Inr ())
     \<and> sort ord = map of_nat [0..<52]"
proof -
  have acc: "verify_shuffle_order (\<lambda>_. []) ones (ShuffleCommitment []) s
      (deck_bytes (fst (the (Deck_shuffle ones Deck_standard (from_seed s))))) = Some (Inr ())" for s
    using ones_shuffles[of s] by (auto simp: verify_shuffle_order_ok commit_seed_def)
  show ?thesis using commitment_binds_order[OF acc acc] acc by blast
qed

end
