(* ===== verification/Service.thy ===== *)
theory Service
  imports Actions
begin

text \<open>The paths that run a compute body: the L1 pipeline (\<^verbatim>\<open>pipeline.rs\<close>), the bridge the kernel
calls (\<^verbatim>\<open>bridge.rs\<close>) and the L2 service with its admission gate (\<^verbatim>\<open>dispatcher.rs\<close>).  The
kernel is a third-party crate: its calls are the fields of \<^verbatim>\<open>kernel_api\<close>.  \<^verbatim>\<open>ledger\<close> is the
reference semantics of the operations a compute body stages: a component write to an entity that
was never spawned has no effect.\<close>

section \<open>Pipeline\<close>

text \<open>\<^verbatim>\<open>CapabilityMask::is_empty\<close>: no bit set.\<close>
definition ensure_caps :: "caps \<Rightarrow> ('ext, unit) ctx_act" where
  "ensure_caps cs = guard (cs \<noteq> 0) (CapabilityDenied ''empty capability mask'')"

definition process_action :: "('ext, unit) ctx_act \<Rightarrow> ('ext, event_record list) ctx_act" where
  "process_action body =
     bnd (gets caps) (\<lambda>cs.
     bnd (ensure_caps cs) (\<lambda>_.
     bnd body (\<lambda>_.
     (\<lambda>c. let (es, c') = drain_events c in (Inr es, c')))))"

section \<open>Bridge\<close>

text \<open>\<^term>\<open>SYS\<close> is the kernel's \<^verbatim>\<open>CapabilityMask::SYSTEM\<close>.\<close>
definition bridge_ctx :: "caps \<Rightarrow> instance_id \<Rightarrow> tick \<Rightarrow> entity_id option \<Rightarrow> 'ext ctx" where
  "bridge_ctx SYS inst now actor =
     with_actor (map_option ActorId actor) (ActionContext_new (replicate 32 0) inst now System SYS)"

definition kernel_compute_inner ::
  "caps \<Rightarrow> ('ext, unit) ctx_act \<Rightarrow> instance_id \<Rightarrow> tick \<Rightarrow> entity_id option \<Rightarrow> 'ext op list" where
  "kernel_compute_inner SYS body inst now actor =
     (case body (bridge_ctx SYS inst now actor) of
        (Inr _, c) \<Rightarrow> fst (drain_ops c)
      | (Inl _, _) \<Rightarrow> [])"

text \<open>The fields of the kernel's compute context the bridge reads.\<close>
record kernel_ctx =
  kc_instance_id :: instance_id
  kc_now :: tick
  kc_actor :: "entity_id option"

definition kernel_compute :: "caps \<Rightarrow> ('ext, unit) ctx_act \<Rightarrow> kernel_ctx \<Rightarrow> 'ext op list" where
  "kernel_compute SYS body kc = kernel_compute_inner SYS body (kc_instance_id kc) (kc_now kc) (kc_actor kc)"

section \<open>Service\<close>

record ('k, 'ext, 'kerr, 'rep, 'cfg, 'wal) kernel_api =
  k_new_with_wal :: "bytes \<Rightarrow> bytes \<Rightarrow> 'k"
  k_register_action :: "'k \<Rightarrow> type_code \<Rightarrow> 'k"
  k_create_instance :: "'k \<Rightarrow> 'cfg \<Rightarrow> instance_id \<times> 'k"
  k_instance_view :: "'k \<Rightarrow> instance_id \<Rightarrow> instance_view option"
  k_submit :: "'k \<Rightarrow> instance_id \<Rightarrow> 'ext principal \<Rightarrow> entity_id option \<Rightarrow> caps \<Rightarrow> tick \<Rightarrow> type_code \<Rightarrow> bytes
               \<Rightarrow> ('kerr + unit) \<times> 'k"
  k_step :: "'k \<Rightarrow> tick \<Rightarrow> caps \<Rightarrow> 'rep \<times> 'k"
  k_export_wal :: "'k \<Rightarrow> 'wal option"
  k_InstanceNotFound :: 'kerr

datatype 'kerr dispatch_error =
    DKernel 'kerr
  | DErasurePending (dep_user: user_id) (dep_tick: tick)
  | DUnboundUserLifecycle (dul_user: user_id)
  | DProbeViewCorrupt

definition RuntimeService_new where
  "RuntimeService_new K world_id manifest_digest = k_new_with_wal K world_id manifest_digest"

definition RuntimeService_register_action where
  "RuntimeService_register_action K k tc = k_register_action K k tc"

definition RuntimeService_create_instance where
  "RuntimeService_create_instance K k config = k_create_instance K k config"

definition RuntimeService_export_wal where
  "RuntimeService_export_wal K k = k_export_wal K k"

fun gate_error :: "tick \<Rightarrow> action_error \<Rightarrow> 'kerr dispatch_error" where
  "gate_error at (UserErasurePending user t) = DErasurePending user at"
| "gate_error at (UserLifecycleUnresolved user) = DUnboundUserLifecycle user"
| "gate_error at _ = DProbeViewCorrupt"

definition admission_gate ::
  "('k, 'ext, 'kerr, 'rep, 'cfg, 'wal) kernel_api \<Rightarrow> postcards \<Rightarrow> 'k \<Rightarrow> instance_id \<Rightarrow> 'ext principal \<Rightarrow> tick
    \<Rightarrow> caps \<Rightarrow> actor_id option \<Rightarrow> 'kerr dispatch_error + unit" where
  "admission_gate K pc k inst p at cs authenticated_actor =
     (case authenticated_actor of
        None \<Rightarrow> Inr ()
      | Some actor \<Rightarrow>
          (case k_instance_view K k inst of
             None \<Rightarrow> Inl (DKernel (k_InstanceNotFound K))
           | Some v \<Rightarrow>
               let probe = with_view v (ActionContext_new (replicate 32 0) inst at p cs) in
               (case ensure_actor_eligible pc actor at probe of
                  Inl err \<Rightarrow> Inl (gate_error at err)
                | Inr _ \<Rightarrow> Inr ())))"

definition dispatch ::
  "('k, 'ext, 'kerr, 'rep, 'cfg, 'wal) kernel_api \<Rightarrow> postcards \<Rightarrow> instance_id \<Rightarrow> 'ext principal \<Rightarrow> type_code
    \<Rightarrow> bytes \<Rightarrow> tick \<Rightarrow> caps \<Rightarrow> actor_id option \<Rightarrow> ('k, 'kerr dispatch_error, 'rep) act" where
  "dispatch K pc inst p tc action_bytes at cs authenticated_actor = (\<lambda>k.
     case admission_gate K pc k inst p at cs authenticated_actor of
       Inl e \<Rightarrow> (Inl e, k)
     | Inr _ \<Rightarrow>
         (case k_submit K k inst p (map_option actor_get authenticated_actor) cs at tc action_bytes of
            (Inl e, k') \<Rightarrow> (Inl (DKernel e), k')
          | (Inr _, k') \<Rightarrow> (let (rep, k'') = k_step K k' at cs in (Inr rep, k''))))"

section \<open>Reference ledger\<close>

record ledger =
  lg_spawned :: "entity_id set"
  lg_comps :: instance_view

fun ledger_apply :: "'ext op \<Rightarrow> ledger \<Rightarrow> ledger" where
  "ledger_apply (SpawnEntity i owner) L = L\<lparr>lg_spawned := insert i (lg_spawned L)\<rparr>"
| "ledger_apply (SetComponent e tc bs sz) L =
     (if e \<in> lg_spawned L then L\<lparr>lg_comps := (lg_comps L)(e := (lg_comps L e)(tc \<mapsto> bs))\<rparr> else L)"
| "ledger_apply (RemoveComponent e tc sz) L = L\<lparr>lg_comps := (lg_comps L)(e := (lg_comps L e)(tc := None))\<rparr>"
| "ledger_apply (EmitEvent a tc bs) L = L"

definition ledger_run :: "'ext op list \<Rightarrow> ledger \<Rightarrow> ledger" where
  "ledger_run ps L = fold ledger_apply ps L"

section \<open>Lemmas\<close>

lemma bridge_ctx_simps [simp]:
  "ops (bridge_ctx SYS i t a) = []" "view (bridge_ctx SYS i t a) = None"
  "acting_actor (bridge_ctx SYS i t a) = map_option ActorId a"
  "cur_tick (bridge_ctx SYS i t a) = t" "instance_id (bridge_ctx SYS i t a) = i"
  "id_seq (bridge_ctx SYS i t a) = 0" "world_seed (bridge_ctx SYS i t a) = replicate 32 0"
  "principal (bridge_ctx SYS i t a) = System" "event_seq (bridge_ctx SYS i t a) = 0"
  "idempotency_lookup (bridge_ctx SYS i t a) = (\<lambda>_. None)"
  "actor_by_handle (bridge_ctx SYS i t a) = (\<lambda>_ _. None)"
  by (simp_all add: bridge_ctx_def with_actor_def ActionContext_new_def idempotency_lookup_def
      actor_by_handle_def fun_eq_iff)

lemma kernel_compute_inner_cases:
  "(\<exists>c. body (bridge_ctx SYS i t a) = (Inr (), c) \<and> kernel_compute_inner SYS body i t a = ops c)
   \<or> (\<exists>e c. body (bridge_ctx SYS i t a) = (Inl e, c) \<and> kernel_compute_inner SYS body i t a = [])"
  by (cases "body (bridge_ctx SYS i t a)"; cases "fst (body (bridge_ctx SYS i t a))")
     (auto simp: kernel_compute_inner_def drain_ops_def)

lemma kernel_compute_inner_induct:
  "P [] \<Longrightarrow> (\<And>c. body (bridge_ctx SYS i t a) = (Inr (), c) \<Longrightarrow> P (ops c)) \<Longrightarrow>
   P (kernel_compute_inner SYS body i t a)"
  using kernel_compute_inner_cases[of body SYS i t a] by auto

lemma kernel_compute_inner_ok:
  "body (bridge_ctx SYS i t a) = (Inr u, c) \<Longrightarrow> kernel_compute_inner SYS body i t a = ops c"
  by (simp add: kernel_compute_inner_def drain_ops_def)

lemma kernel_compute_inner_exI:
  "\<exists>c. body (bridge_ctx SYS i t a) = (Inr (), c) \<and> ops c = ps \<Longrightarrow> kernel_compute_inner SYS body i t a = ps"
  using kernel_compute_inner_ok by blast

lemma kernel_compute_inner_nonempty:
  "kernel_compute_inner SYS body i t a \<noteq> [] \<Longrightarrow>
    \<exists>c. body (bridge_ctx SYS i t a) = (Inr (), c) \<and> kernel_compute_inner SYS body i t a = ops c"
  using kernel_compute_inner_cases[of body SYS i t a] by auto

lemma staged_view_probe [simp]: "staged_view (with_view v (ActionContext_new sd i t p cs)) = v"
  by (simp add: staged_view_def base_view_def with_view_def ActionContext_new_def)

lemma admission_gate_cases:
  "admission_gate K pc k inst p at cs actor =
     (case actor of None \<Rightarrow> Inr ()
      | Some a \<Rightarrow> (case k_instance_view K k inst of None \<Rightarrow> Inl (DKernel (k_InstanceNotFound K))
          | Some v \<Rightarrow> if eligible pc v a then Inr ()
             else Inl (gate_error at (projl (ensure_actor_eligible pc a at
                    (with_view v (ActionContext_new (replicate 32 0) inst at p cs)))))))"
proof (cases actor)
  case None then show ?thesis by (simp add: admission_gate_def)
next
  case a: (Some a)
  show ?thesis
  proof (cases "k_instance_view K k inst")
    case None then show ?thesis using a by (simp add: admission_gate_def)
  next
    case (Some v)
    then show ?thesis
      using a ensure_actor_eligible_ok[of pc a at "with_view v (ActionContext_new (replicate 32 0) inst at p cs)"]
      by (cases "ensure_actor_eligible pc a at (with_view v (ActionContext_new (replicate 32 0) inst at p cs))")
         (simp_all add: admission_gate_def)
  qed
qed

lemma gate_error_not_kernel: "gate_error at e \<noteq> DKernel x"
  by (cases e) simp_all

text \<open>C5: the admission gate of \<^verbatim>\<open>dispatch\<close>. A call with an authenticated actor reaches the kernel
only if the instance has a view and the actor is eligible in it; every rejection leaves the kernel
untouched (nothing is submitted, so nothing reaches the log) and is the kernel's own missing-instance
error or a gate error; a call without an actor is submitted unconditionally.\<close>
theorem dispatch_admission:
  "dispatch K pc inst p tc body at cs actor k =
     (if (case actor of None \<Rightarrow> True
          | Some a \<Rightarrow> (case k_instance_view K k inst of None \<Rightarrow> False | Some v \<Rightarrow> eligible pc v a))
      then (case k_submit K k inst p (map_option actor_get actor) cs at tc body of
              (Inl e, k') \<Rightarrow> (Inl (DKernel e), k')
            | (Inr _, k') \<Rightarrow> (let (rep, k'') = k_step K k' at cs in (Inr rep, k'')))
      else (Inl (projl (admission_gate K pc k inst p at cs actor)), k))
   \<and> (admission_gate K pc k inst p at cs actor = Inl (DKernel e) \<longleftrightarrow>
        actor \<noteq> None \<and> k_instance_view K k inst = None \<and> e = k_InstanceNotFound K)"
proof (cases actor)
  case None
  then show ?thesis by (simp add: dispatch_def admission_gate_cases)
next
  case (Some a)
  show ?thesis
  proof (cases "k_instance_view K k inst")
    case None
    then show ?thesis using Some by (auto simp: dispatch_def admission_gate_cases)
  next
    case v: (Some v)
    then show ?thesis using Some
      by (simp add: dispatch_def admission_gate_cases gate_error_not_kernel)
  qed
qed

section \<open>What the bridge drains\<close>

lemma bridge_parent_depth:
  "parent_depth pc (bridge_ctx SYS i t a) parent = (if parent = None then Some 0 else None)"
  by (auto simp: parent_depth_def read_def split: option.splits)

text \<open>C38: the bridge path of \<^verbatim>\<open>CreateSpace\<close>. The kernel gets exactly the three operations of a new
root space (spawn, configuration with the injected actor, depth 0) when both wire versions are 1,
an actor was injected, the draft names no parent, the id derivation succeeds and both components
encode; in every other case it gets nothing. In particular a nested space can never be created on
this path: the bridge context has no view, so the parent's depth is never found.\<close>
theorem bridge_create_space:
  "kernel_compute_inner SYS (compute_CreateSpace h pc a) inst now actor =
     (case (actor, derive_entity_id h (replicate 32 0) inst 0x00030201 now 0) of
        (Some x, Some i) \<Rightarrow>
          (case (enc_op (SpaceConfig pc) i (into_config (cs_config a) (ActorId x)),
                 enc_op (ParentChainDepth pc) i \<lparr>pcd_schema_version = 1, pcd_depth = 0\<rparr>) of
             (Some p1, Some p2) \<Rightarrow>
               if cs_schema_version a = 1 \<and> scd_schema_version (cs_config a) = 1
                  \<and> scd_parent_space (cs_config a) = None
               then [SpawnEntity i System, p1, p2] else []
           | _ \<Rightarrow> [])
      | _ \<Rightarrow> ([] :: 'ext op list))"
  (is "?L = ?R")
proof -
  let ?c = "bridge_ctx SYS inst now actor :: 'ext ctx"
  have fid: "fresh_id h (SpaceConfig pc) ?c = derive_entity_id h (replicate 32 0) inst 0x00030201 now 0"
    by (simp add: fresh_id_def)
  show ?thesis
  proof (cases "\<exists>c. compute_CreateSpace h pc a ?c = (Inr (), c)")
    case True
    then obtain c where c: "compute_CreateSpace h pc a ?c = (Inr (), c)" by blast
    then have "?L = ops c" by (rule kernel_compute_inner_ok)
    moreover have "ops c = ?R"
      using c by (auto simp: compute_CreateSpace_ok bridge_parent_depth fid[simplified] split: if_splits)
    ultimately show ?thesis by simp
  next
    case False
    then have "?L = []" using kernel_compute_inner_cases[of _ SYS inst now actor] by metis
    moreover have "?R = []"
      using False by (auto simp: compute_CreateSpace_ok bridge_parent_depth fid split: option.splits)
    ultimately show ?thesis by simp
  qed
qed

section \<open>Erasure, end to end\<close>

lemma ledger_run_append: "ledger_run (ps @ qs) L = ledger_run qs (ledger_run ps L)"
  by (simp add: ledger_run_def)

lemma ledger_run_simps [simp]:
  "ledger_run [] L = L" "ledger_run (p # ps) L = ledger_run ps (ledger_apply p L)"
  by (simp_all add: ledger_run_def)

lemma ledger_spawned_mono: "e \<in> lg_spawned L \<Longrightarrow> e \<in> lg_spawned (ledger_run ps L)"
proof (induction ps arbitrary: L)
  case (Cons p ps) then show ?case by (cases p) auto
qed simp

lemma ledger_not_written:
  "\<forall>p \<in> set ps. \<not> writes_code (TYPE_CODE C) p \<Longrightarrow>
     decode_at C e (lg_comps (ledger_run ps L)) = decode_at C e (lg_comps L)"
proof (induction ps arbitrary: L)
  case (Cons p ps) then show ?case by (cases p) (auto simp: decode_at_def)
qed simp

lemma enc_op_spawned: "enc_op C i x = Some p \<Longrightarrow> lg_spawned (ledger_apply p L) = lg_spawned L"
  by (auto simp: enc_op_Some split: if_splits)

lemma ledger_enc_op:
  assumes "enc_op C i x = Some p" "i \<in> lg_spawned L" "codec_ok (postcard C)"
  shows "decode_at C e (lg_comps (ledger_apply p L)) =
      (if e = i then Inr (Some x) else decode_at C e (lg_comps L))"
  using assms by (auto simp: enc_op_Some decode_at_def codec_okD)

lemma ledger_enc_op_other:
  assumes "enc_op C i x = Some p" "TYPE_CODE C \<noteq> TYPE_CODE D"
  shows "decode_at D e (lg_comps (ledger_apply p L)) = decode_at D e (lg_comps L)"
  using assms by (auto simp: enc_op_Some decode_at_def split: if_splits)

lemma bridge_register_user:
  assumes "kernel_compute_inner SYS (compute_RegisterUser h pc ru) inst t actor = U" "U \<noteq> []"
  obtains uid p1 p2 p3 where "U = [SpawnEntity uid System, p1, p2, p3]"
    "enc_op (UserProfile pc) uid (ru_profile ru) = Some p1"
    "enc_op (AuthCredential pc) uid (ru_credential ru) = Some p2"
    "enc_op (UserGdprState pc) uid \<lparr>ugs_schema_version = 1, ugs_status = Active\<rparr> = Some p3"
proof -
  obtain c where c: "compute_RegisterUser h pc ru (bridge_ctx SYS inst t actor) = (Inr (), c)" "U = ops c"
    using kernel_compute_inner_nonempty assms by metis
  then show ?thesis using that by (auto simp: compute_RegisterUser_ok)
qed

lemma bridge_register_actor:
  assumes "kernel_compute_inner SYS (compute_RegisterActor h pc ra) inst t actor = A" "A \<noteq> []"
  obtains aid p1 p2 where "A = [SpawnEntity aid System, p1, p2]"
    "enc_op (ActorProfile pc) aid (ra_profile ra) = Some p1"
    "enc_op (UserBinding pc) aid \<lparr>ub_schema_version = 1, ub_user_id = ra_user ra\<rparr> = Some p2"
proof -
  obtain c where c: "compute_RegisterActor h pc ra (bridge_ctx SYS inst t actor) = (Inr (), c)" "A = ops c"
    using kernel_compute_inner_nonempty assms by metis
  then show ?thesis using that by (auto simp: compute_RegisterActor_ok)
qed

lemma bridge_erase:
  assumes "kernel_compute_inner SYS (compute_GdprEraseUser pc eu) inst t actor = E" "E \<noteq> []"
  obtains p bs where "E = [p, EmitEvent None USER_ERASURE_SCHEDULED bs]"
    "enc_op (UserGdprState pc) (user_get (geu_user eu)) \<lparr>ugs_schema_version = 1, ugs_status = ErasurePending\<rparr> = Some p"
proof -
  obtain c where c: "compute_GdprEraseUser pc eu (bridge_ctx SYS inst t actor) = (Inr (), c)" "E = ops c"
    using kernel_compute_inner_nonempty assms by metis
  then show ?thesis using that by (auto simp: compute_GdprEraseUser_ok)
qed

text \<open>Operations that leave the lifecycle of one user and the binding of one actor alone: whatever they write is on another entity or
under another code.\<close>
fun writes_at :: "entity_id \<Rightarrow> type_code \<Rightarrow> 'ext op \<Rightarrow> bool" where
  "writes_at i C (SetComponent e tc bs sz) \<longleftrightarrow> e = i \<and> tc = C"
| "writes_at i C (RemoveComponent e tc sz) \<longleftrightarrow> e = i \<and> tc = C"
| "writes_at i C _ \<longleftrightarrow> False"

definition spares :: "entity_id \<Rightarrow> entity_id \<Rightarrow> 'ext op list \<Rightarrow> bool" where
  "spares uid aid ps \<longleftrightarrow> list_all (\<lambda>p. \<not> writes_at uid 0x00030003 p \<and> \<not> writes_at aid 0x00030102 p) ps"

lemma ledger_not_written_at:
  "list_all (\<lambda>p. \<not> writes_at e (TYPE_CODE C) p) ps \<Longrightarrow> decode_at C e (lg_comps (ledger_run ps L)) = decode_at C e (lg_comps L)"
proof (induction ps arbitrary: L)
  case (Cons p ps) then show ?case by (cases p) (auto simp: decode_at_def)
qed simp

lemma spares_decode:
  assumes "spares uid aid ps"
  shows "decode_at (UserGdprState pc) uid (lg_comps (ledger_run ps L)) = decode_at (UserGdprState pc) uid (lg_comps L)"
    and "decode_at (UserBinding pc) aid (lg_comps (ledger_run ps L)) = decode_at (UserBinding pc) aid (lg_comps L)"
  using assms by (auto simp: spares_def list_all_iff intro!: ledger_not_written_at)

lemma writes_at_enc_op: "enc_op D e x = Some p \<Longrightarrow> writes_at i C p \<longleftrightarrow> e = i \<and> TYPE_CODE D = C"
  by (auto simp: enc_op_Some)

text \<open>The space and activity actions spare every user and actor, the erasure of a user every other one, and a registration every user and
actor but the one whose id it takes.\<close>
lemma bridge_spares:
  "spares uid aid (kernel_compute_inner SYS (compute_CreateSpace h pc cs) inst t actor)"
  "spares uid aid (kernel_compute_inner SYS (compute_SubmitActivity h pc sa) inst t actor)"
  "user_get (geu_user eu) \<noteq> uid \<Longrightarrow> spares uid aid (kernel_compute_inner SYS (compute_GdprEraseUser pc eu) inst t actor :: 'ext op list)"
  "kernel_compute_inner SYS (compute_RegisterUser h pc ru) inst t actor = SpawnEntity i ow # ps \<Longrightarrow> i \<noteq> uid \<Longrightarrow> spares uid aid ps"
  "kernel_compute_inner SYS (compute_RegisterActor h pc ra) inst t actor = SpawnEntity i ow # ps \<Longrightarrow> i \<noteq> aid \<Longrightarrow> spares uid aid ps"
proof -
  show "spares uid aid (kernel_compute_inner SYS (compute_CreateSpace h pc cs) inst t actor)"
    "spares uid aid (kernel_compute_inner SYS (compute_SubmitActivity h pc sa) inst t actor)"
    by (rule kernel_compute_inner_induct;
        auto simp: spares_def compute_CreateSpace_ok compute_SubmitActivity_ok writes_at_enc_op)+
  show "spares uid aid (kernel_compute_inner SYS (compute_GdprEraseUser pc eu) inst t actor :: 'ext op list)" if "user_get (geu_user eu) \<noteq> uid"
  proof (cases "kernel_compute_inner SYS (compute_GdprEraseUser pc eu) inst t actor = ([] :: 'ext op list)")
    case False
    obtain p bs where
      "kernel_compute_inner SYS (compute_GdprEraseUser pc eu) inst t actor = [p, EmitEvent None USER_ERASURE_SCHEDULED bs :: 'ext op]"
      "enc_op (UserGdprState pc) (user_get (geu_user eu)) \<lparr>ugs_schema_version = 1, ugs_status = ErasurePending\<rparr> = Some p" by (rule bridge_erase[OF refl False])
    then show ?thesis using that by (simp add: spares_def writes_at_enc_op)
  qed (simp add: spares_def)
  show "spares uid aid ps" if r: "kernel_compute_inner SYS (compute_RegisterUser h pc ru) inst t actor = SpawnEntity i ow # ps" "i \<noteq> uid"
  proof -
    obtain p1 p2 p3 where "SpawnEntity i ow # ps = [SpawnEntity i System, p1, p2, p3]" "enc_op (UserProfile pc) i (ru_profile ru) = Some p1"
      "enc_op (AuthCredential pc) i (ru_credential ru) = Some p2"
      "enc_op (UserGdprState pc) i \<lparr>ugs_schema_version = 1, ugs_status = Active\<rparr> = Some p3"
      using bridge_register_user[OF r(1)] by (metis list.distinct(1) list.inject op.inject(1))
    then show ?thesis using r(2) by (simp add: spares_def writes_at_enc_op)
  qed
  show "spares uid aid ps" if r: "kernel_compute_inner SYS (compute_RegisterActor h pc ra) inst t actor = SpawnEntity i ow # ps" "i \<noteq> aid"
  proof -
    obtain p1 p2 where "SpawnEntity i ow # ps = [SpawnEntity i System, p1, p2]" "enc_op (ActorProfile pc) i (ra_profile ra) = Some p1"
      "enc_op (UserBinding pc) i \<lparr>ub_schema_version = 1, ub_user_id = ra_user ra\<rparr> = Some p2"
      using bridge_register_actor[OF r(1)] by (metis list.distinct(1) list.inject op.inject(1))
    then show ?thesis using r(2) by (simp add: spares_def writes_at_enc_op)
  qed
qed

text \<open>After the registration of a user and of an actor bound to it, whatever else ran in between, the
ledger holds the binding and the Active pointer.\<close>
lemma registered_ledger:
  fixes L0 :: ledger
  assumes ok: "codec_ok (pc_user_binding pc)" "codec_ok (pc_user_gdpr_state pc)"
    and U: "U = [SpawnEntity uid System, p1, p2, p3]"
      "enc_op (UserProfile pc) uid up = Some p1" "enc_op (AuthCredential pc) uid ac = Some p2"
      "enc_op (UserGdprState pc) uid \<lparr>ugs_schema_version = 1, ugs_status = Active\<rparr> = Some p3"
    and A: "A = [SpawnEntity aid System, q1, q2]"
      "enc_op (ActorProfile pc) aid ap = Some q1"
      "enc_op (UserBinding pc) aid \<lparr>ub_schema_version = 1, ub_user_id = UserId uid\<rparr> = Some q2"
    and X: "spares uid aid X1" "spares uid aid X2"
  defines "L \<equiv> ledger_run (U @ X1 @ A @ X2) L0"
  shows "decode_at (UserGdprState pc) uid (lg_comps L) = Inr (Some \<lparr>ugs_schema_version = 1, ugs_status = Active\<rparr>)"
    and "decode_at (UserBinding pc) aid (lg_comps L) = Inr (Some \<lparr>ub_schema_version = 1, ub_user_id = UserId uid\<rparr>)"
    and "uid \<in> lg_spawned L"
proof -
  let ?LU = "ledger_run U L0"
  note spU = enc_op_spawned[OF U(2)] enc_op_spawned[OF U(3)] enc_op_spawned[OF U(4)]
  have sU: "uid \<in> lg_spawned ?LU" by (simp add: U(1) spU)
  have gU: "decode_at (UserGdprState pc) uid (lg_comps ?LU) = Inr (Some \<lparr>ugs_schema_version = 1, ugs_status = Active\<rparr>)"
    using ok(2) by (simp add: U(1) ledger_enc_op[OF U(4)] spU)
  let ?LX = "ledger_run X1 ?LU"
  let ?LA = "ledger_run A ?LX"
  have "decode_at (UserGdprState pc) uid (lg_comps ?LA) = decode_at (UserGdprState pc) uid (lg_comps ?LX)"
    by (simp add: A(1) ledger_enc_op_other[OF A(2)] ledger_enc_op_other[OF A(3)])
  then have gA: "decode_at (UserGdprState pc) uid (lg_comps ?LA) = decode_at (UserGdprState pc) uid (lg_comps ?LU)"
    by (simp add: spares_decode[OF X(1)])
  have bA: "decode_at (UserBinding pc) aid (lg_comps ?LA) = Inr (Some \<lparr>ub_schema_version = 1, ub_user_id = UserId uid\<rparr>)"
    using ok(1) by (simp add: A(1) ledger_enc_op[OF A(3)] enc_op_spawned[OF A(2)])
  have L: "L = ledger_run X2 ?LA" by (simp add: L_def ledger_run_append)
  show "decode_at (UserGdprState pc) uid (lg_comps L) = Inr (Some \<lparr>ugs_schema_version = 1, ugs_status = Active\<rparr>)"
    by (simp add: L spares_decode[OF X(2)] gA gU)
  show "decode_at (UserBinding pc) aid (lg_comps L) = Inr (Some \<lparr>ub_schema_version = 1, ub_user_id = UserId uid\<rparr>)"
    by (simp add: L spares_decode[OF X(2)] bA)
  show "uid \<in> lg_spawned L"
    by (simp add: L ledger_spawned_mono sU)
qed

lemma erased_ledger:
  assumes ok: "codec_ok (pc_user_binding pc)" "codec_ok (pc_user_gdpr_state pc)"
    and E: "E = [p, EmitEvent None USER_ERASURE_SCHEDULED bs]"
      "enc_op (UserGdprState pc) uid \<lparr>ugs_schema_version = 1, ugs_status = ErasurePending\<rparr> = Some p"
    and X: "spares uid aid X3" and spawned: "uid \<in> lg_spawned L"
  shows "decode_at (UserGdprState pc) uid (lg_comps (ledger_run (E @ X3) L))
           = Inr (Some \<lparr>ugs_schema_version = 1, ugs_status = ErasurePending\<rparr>)"
    and "decode_at (UserBinding pc) aid (lg_comps (ledger_run (E @ X3) L)) = decode_at (UserBinding pc) aid (lg_comps L)"
  using ok(2)
  by (simp_all add: ledger_run_append spares_decode[OF X] E(1) ledger_enc_op[OF E(2) spawned]
      ledger_enc_op_other[OF E(2)])

text \<open>C1: the erasure gate is live end to end. A user is registered and an actor is registered for that user through the bridge; other
operations run before, between and after, by anyone, as long as none of them writes the lifecycle component of this user or the binding of
this actor (other users may register and be erased meanwhile); the kernel's view shows all of them applied in order. Then until an erasure is requested the gate admits the actor, and once
\<^verbatim>\<open>GdprEraseUser\<close> for that user has run, every later dispatch by the actor is refused with \<^verbatim>\<open>ErasurePending\<close> before anything is
submitted.  The condition is needed: a registration at the tick of the first takes the user's own id.\<close>
theorem erasure_gate_live:
  assumes "codec_ok (pc_user_binding pc)" "codec_ok (pc_user_gdpr_state pc)"
    and "kernel_compute_inner SYS (compute_RegisterUser h pc ru) inst t1 n1 = SpawnEntity uid o1 # U"
    and "kernel_compute_inner SYS (compute_RegisterActor h pc ra) inst t2 n2 = SpawnEntity aid o2 # A"
    and "kernel_compute_inner SYS (compute_GdprEraseUser pc eu) inst t3 n3 = e # E"
    and "ra_user ra = UserId uid" "geu_user eu = UserId uid"
    and "spares uid aid X1" "spares uid aid X2" "spares uid aid X3"
    and "before = SpawnEntity uid o1 # U @ X1 @ SpawnEntity aid o2 # A @ X2"
    and "k_instance_view K k inst = Some (lg_comps (ledger_run before L0))"
    and "k_instance_view K k' inst = Some (lg_comps (ledger_run (before @ e # E @ X3) L0))"
  shows "admission_gate K pc k inst p at cs (Some (ActorId aid)) = Inr ()
    \<and> dispatch K pc inst p tc body at cs (Some (ActorId aid)) k' = (Inl (DErasurePending (UserId uid) at), k')"
proof -
  obtain p1 p2 p3 where U: "SpawnEntity uid o1 # U = [SpawnEntity uid System, p1, p2, p3]"
    "enc_op (UserProfile pc) uid (ru_profile ru) = Some p1"
    "enc_op (AuthCredential pc) uid (ru_credential ru) = Some p2"
    "enc_op (UserGdprState pc) uid \<lparr>ugs_schema_version = 1, ugs_status = Active\<rparr> = Some p3"
    using bridge_register_user[OF assms(3)] by (metis list.distinct(1) list.inject op.inject(1))
  obtain q1 q2 where A: "SpawnEntity aid o2 # A = [SpawnEntity aid System, q1, q2]"
    "enc_op (ActorProfile pc) aid (ra_profile ra) = Some q1"
    "enc_op (UserBinding pc) aid \<lparr>ub_schema_version = 1, ub_user_id = UserId uid\<rparr> = Some q2"
    using bridge_register_actor[OF assms(4)] assms(6) by (metis list.distinct(1) list.inject op.inject(1))
  obtain ep bs where E: "e # E = [ep, EmitEvent None USER_ERASURE_SCHEDULED bs]"
    "enc_op (UserGdprState pc) uid \<lparr>ugs_schema_version = 1, ugs_status = ErasurePending\<rparr> = Some ep"
    using bridge_erase[OF assms(5)] assms(7) by (metis list.distinct(1) user_id.sel)
  define L where "L = ledger_run ((SpawnEntity uid o1 # U) @ X1 @ (SpawnEntity aid o2 # A) @ X2) L0"
  note reg = registered_ledger[OF assms(1,2) U A assms(8,9), of L0, folded L_def]
  have before: "ledger_run before L0 = L" by (simp add: L_def assms(11))
  have after: "ledger_run (before @ e # E @ X3) L0 = ledger_run ((e # E) @ X3) L"
    by (simp add: ledger_run_append before del: ledger_run_simps)
  note er = erased_ledger[OF assms(1,2) E assms(10) reg(3)]
  have "eligible pc (lg_comps L) (ActorId aid)" using reg by (simp add: eligible_def)
  then have "admission_gate K pc k inst p at cs (Some (ActorId aid)) = Inr ()"
    using assms(12) by (simp add: admission_gate_cases before)
  moreover have "ensure_actor_eligible pc (ActorId aid) at
      (with_view (lg_comps (ledger_run ((e # E) @ X3) L)) (ActionContext_new (replicate 32 0) inst at p cs))
      = Inl (UserErasurePending (UserId uid) at)"
    using ensure_actor_eligible_pending[where b="\<lparr>ub_schema_version = 1, ub_user_id = UserId uid\<rparr>"
        and s="\<lparr>ugs_schema_version = 1, ugs_status = ErasurePending\<rparr>"
        and c="with_view (lg_comps (ledger_run ((e # E) @ X3) L)) (ActionContext_new (replicate 32 0) inst at p cs)"
        and pc=pc and a="ActorId aid" and t=at] er reg(2)
    by simp
  then have "dispatch K pc inst p tc body at cs (Some (ActorId aid)) k'
      = (Inl (DErasurePending (UserId uid) at), k')"
    using assms(13) by (simp add: dispatch_def admission_gate_def after)
  ultimately show ?thesis by blast
qed

text \<open>A kernel whose state is the operation list executed so far, over the reference ledger.\<close>
definition demo_kernel :: "(unit op list, unit, unit, unit, unit, unit) kernel_api" where
  "demo_kernel = \<lparr>k_new_with_wal = (\<lambda>_ _. []), k_register_action = (\<lambda>k _. k),
     k_create_instance = (\<lambda>k _. (1, k)),
     k_instance_view = (\<lambda>k _. Some (lg_comps (ledger_run k \<lparr>lg_spawned = {}, lg_comps = \<lambda>_ _. None\<rparr>))),
     k_submit = (\<lambda>k _ _ _ _ _ _ _. (Inr (), k)), k_step = (\<lambda>k _ _. ((), k)),
     k_export_wal = (\<lambda>_. None), k_InstanceNotFound = ()\<rparr>"

definition demo_register_user :: register_user where
  "demo_register_user = \<lparr>ru_schema_version = 1, ru_profile = demo_profile, ru_credential = demo_credential\<rparr>"
definition demo_register_actor :: register_actor where
  "demo_register_actor = \<lparr>ra_schema_version = 1, ra_profile = demo_actor_profile, ra_user = demo_uid\<rparr>"
definition demo_erase :: gdpr_erase_user where
  "demo_erase = \<lparr>geu_schema_version = 1, geu_user = demo_uid\<rparr>"

lemma demo_bridge_runs:
  "kernel_compute_inner 1 (compute_RegisterUser demo_hash demo_pc demo_register_user) 1 5 None
     = SpawnEntity 0x0003000100000000 System #
        [SetComponent 0x0003000100000000 0x00030001 [1] 1, SetComponent 0x0003000100000000 0x00030002 [2] 1,
         SetComponent 0x0003000100000000 0x00030003 [3] 1]"
  "kernel_compute_inner 1 (compute_RegisterActor demo_hash demo_pc demo_register_actor) 1 5 None
     = SpawnEntity 0x0003010100000000 System #
        [SetComponent 0x0003010100000000 0x00030101 [6] 1, SetComponent 0x0003010100000000 0x00030102 [7] 1]"
  "kernel_compute_inner 1 (compute_GdprEraseUser demo_pc demo_erase) 1 7 None
     = SetComponent 0x0003000100000000 0x00030003 [4] 1 # [EmitEvent None USER_ERASURE_SCHEDULED [12]]"
proof -
  show "kernel_compute_inner 1 (compute_RegisterUser demo_hash demo_pc demo_register_user) 1 5 None
     = SpawnEntity 0x0003000100000000 System #
        [SetComponent 0x0003000100000000 0x00030001 [1] 1, SetComponent 0x0003000100000000 0x00030002 [2] 1,
         SetComponent 0x0003000100000000 0x00030003 [3] 1]"
    by (rule kernel_compute_inner_exI)
       (simp add: compute_RegisterUser_ok demo_register_user_def fresh_id_def demo_derive
        enc_op_def demo_enc len_u64_def kdf_min_defs word_le_nat_alt)
  show "kernel_compute_inner 1 (compute_RegisterActor demo_hash demo_pc demo_register_actor) 1 5 None
     = SpawnEntity 0x0003010100000000 System #
        [SetComponent 0x0003010100000000 0x00030101 [6] 1, SetComponent 0x0003010100000000 0x00030102 [7] 1]"
    by (rule kernel_compute_inner_exI)
       (simp add: compute_RegisterActor_ok demo_register_actor_def fresh_id_def demo_derive
        enc_op_def demo_enc len_u64_def)
  show "kernel_compute_inner 1 (compute_GdprEraseUser demo_pc demo_erase) 1 7 None
     = SetComponent 0x0003000100000000 0x00030003 [4] 1 # [EmitEvent None USER_ERASURE_SCHEDULED [12]]"
    by (rule kernel_compute_inner_exI)
       (simp add: compute_GdprEraseUser_ok demo_erase_def enc_op_def demo_enc len_u64_def,
        simp add: demo_uid_def)
qed

lemma erasure_gate_live_witness:
  "\<exists>k'. dispatch demo_kernel demo_pc 1 System 0x00010401 [] 9 1 (Some (ActorId 0x0003010100000000)) k'
     = (Inl (DErasurePending (UserId 0x0003000100000000) 9), k')"
proof -
  have kv: "k_instance_view demo_kernel k 1
      = Some (lg_comps (ledger_run k \<lparr>lg_spawned = {}, lg_comps = \<lambda>_ _. None\<rparr>))" for k
    by (simp add: demo_kernel_def)
  have u: "ra_user demo_register_actor = UserId 0x0003000100000000"
    "geu_user demo_erase = UserId 0x0003000100000000"
    by (simp_all add: demo_register_actor_def demo_erase_def demo_uid_def)
  have x: "spares 0x0003000100000000 0x0003010100000000 []"
    "spares 0x0003000100000000 0x0003010100000000 [SpawnEntity 9 System, SetComponent 9 0x00030003 [4] 1]" by (simp_all add: spares_def)
  show ?thesis
    using erasure_gate_live[OF demo_pc_ok(5,3) demo_bridge_runs u x(1,2,1) refl kv kv] by blast
qed

end
