(* ===== verification/WalExport.thy ===== *)
theory WalExport
  imports Prelude
begin

text \<open>The WAL streaming export of \<^verbatim>\<open>arkhe-forge-platform/src/wal_export\<close>: the stream format, the
buffered sink over an arbitrary writer, the streaming reader, and the exporter \<^verbatim>\<open>wal_to_sink\<close> of
\<^verbatim>\<open>dispatcher.rs\<close>.  A writer is a pair of operations on a writer state; a byte source is the bytes it
still delivers and the I/O error, if any, it fails with after them.  \<^verbatim>\<open>usize\<close> values are naturals.\<close>

section \<open>Format and errors\<close>

definition STREAM_HEADER_MAGIC :: bytes where
  "STREAM_HEADER_MAGIC = [0x41, 0x52, 0x4B, 0x48, 0x45, 0x58, 0x50, 0x31]"

datatype stream_magic = V1

fun StreamMagic_bytes :: "stream_magic \<Rightarrow> bytes" where
  "StreamMagic_bytes V1 = [0x41, 0x52, 0x4B, 0x48, 0x45, 0x58, 0x50, 0x31]"

definition StreamMagic_recognize :: "bytes \<Rightarrow> stream_magic option" where
  "StreamMagic_recognize bs =
     (if bs = [0x41, 0x52, 0x4B, 0x48, 0x45, 0x58, 0x50, 0x31] then Some V1 else None)"

definition MAX_RECORD_BYTES :: u64 where "MAX_RECORD_BYTES = push_bit 24 1"

datatype invalid_framing_reason =
    LengthExceedsMax (lem_prefix: u64) (lem_max: u64)
  | LengthZero | Truncated | HeaderMissing

datatype 'io wal_export_error =
    Io 'io
  | InvalidFraming invalid_framing_reason
  | AppendOnlyViolation (aov_expected_seq: u64) (aov_got_seq: u64) (aov_previous_seq: "u64 option")
  | SeqExhausted (se_last_seq: u64)
  | UnsupportedStreamVersion (usv_magic: bytes)
  | BufferOverflow (bo_capacity: nat) (bo_requested: nat) (bo_current_buffer: nat)

section \<open>The buffered sink\<close>

text \<open>\<^verbatim>\<open>std::io::Write\<close> of the caller's writer.\<close>
record ('w, 'io) write_ops =
  wr_write_all :: "bytes \<Rightarrow> ('w, 'io, unit) act"
  wr_flush :: "('w, 'io, unit) act"

record 'w sink =
  sk_writer :: 'w
  sk_buffer :: bytes
  sk_capacity :: nat
  sk_header_emitted :: bool
  sk_last_seq :: "u64 option"

definition DEFAULT_CAPACITY :: nat where
  "DEFAULT_CAPACITY = unat MAX_RECORD_BYTES + 16"

definition BufferedWalSink_with_capacity :: "'w \<Rightarrow> nat \<Rightarrow> 'w sink" where
  "BufferedWalSink_with_capacity w cap =
     \<lparr>sk_writer = w, sk_buffer = [], sk_capacity = cap, sk_header_emitted = False, sk_last_seq = None\<rparr>"

definition BufferedWalSink_new :: "'w \<Rightarrow> 'w sink" where
  "BufferedWalSink_new w = BufferedWalSink_with_capacity w DEFAULT_CAPACITY"

text \<open>The returned length is the record's, as a natural; a slice length always fits \<^verbatim>\<open>u64\<close>.\<close>
definition validate_length :: "bytes \<Rightarrow> 'io wal_export_error + nat" where
  "validate_length record_bytes =
     (let len = length record_bytes in
      if len = 0 then Inl (InvalidFraming LengthZero)
      else if len > unat MAX_RECORD_BYTES
        then Inl (InvalidFraming (LengthExceedsMax (of_nat len) MAX_RECORD_BYTES))
      else Inr len)"

definition ensure_header :: "'w sink \<Rightarrow> 'w sink" where
  "ensure_header s =
     (if \<not> sk_header_emitted s
      then s\<lparr>sk_buffer := sk_buffer s @ StreamMagic_bytes V1, sk_header_emitted := True\<rparr> else s)"

text \<open>Step 2 of an append: the declared sequence number must follow the last one.\<close>
definition check_seq :: "u64 option \<Rightarrow> u64 \<Rightarrow> 'io wal_export_error + unit" where
  "check_seq last_seq seq =
     (case last_seq of
        None \<Rightarrow> Inr ()
      | Some prev \<Rightarrow>
          (case checked_add prev 1 of
             None \<Rightarrow> Inl (SeqExhausted prev)
           | Some expected \<Rightarrow>
               if seq \<noteq> expected then Inl (AppendOnlyViolation expected seq (Some prev)) else Inr ()))"

definition append_record :: "u64 \<Rightarrow> bytes \<Rightarrow> ('w sink, 'io wal_export_error, unit) act" where
  "append_record seq record_bytes = (\<lambda>s.
     case validate_length record_bytes of
       Inl e \<Rightarrow> (Inl e, s)
     | Inr len \<Rightarrow>
         (case check_seq (sk_last_seq s) seq of
            Inl e \<Rightarrow> (Inl e, s)
          | Inr _ \<Rightarrow>
              (let s1 = ensure_header s;
                   frame_size = 8 + len;
                   current_buffer = length (sk_buffer s1)
               in if current_buffer + frame_size > sk_capacity s1
                  then (Inl (BufferOverflow (sk_capacity s1) frame_size current_buffer), s1)
                  else (Inr (), s1\<lparr>sk_buffer := sk_buffer s1 @ be_bytes 8 (of_nat len :: u64) @ record_bytes,
                                   sk_last_seq := Some seq\<rparr>))))"

definition sink_flush :: "('w, 'io) write_ops \<Rightarrow> ('w sink, 'io wal_export_error, unit) act" where
  "sink_flush W = (\<lambda>s.
     let s1 = ensure_header s in
     if sk_buffer s1 = [] then (Inr (), s1)
     else (case wr_write_all W (sk_buffer s1) (sk_writer s1) of
             (Inl e, w) \<Rightarrow> (Inl (Io e), s1\<lparr>sk_writer := w\<rparr>)
           | (Inr _, w) \<Rightarrow>
               (case wr_flush W w of
                  (Inl e, w') \<Rightarrow> (Inl (Io e), s1\<lparr>sk_writer := w'\<rparr>)
                | (Inr _, w') \<Rightarrow> (Inr (), s1\<lparr>sk_writer := w', sk_buffer := []\<rparr>))))"

section \<open>The exporter\<close>

datatype 'io wal_sink_error = WSEncode | WSSink "'io wal_export_error"

definition as_sink_error :: "('s, 'io wal_export_error, 'a) act \<Rightarrow> ('s, 'io wal_sink_error, 'a) act" where
  "as_sink_error m = (\<lambda>s. case m s of (Inl e, t) \<Rightarrow> (Inl (WSSink e), t) | (Inr x, t) \<Rightarrow> (Inr x, t))"

lemma as_sink_error_ok [simp]: "as_sink_error m s = (Inr x, t) \<longleftrightarrow> m s = (Inr x, t)"
  by (auto simp: as_sink_error_def split: prod.splits sum.splits)

text \<open>\<^verbatim>\<open>wal_to_sink\<close>, over the two operations of the sink trait; \<^term>\<open>seq_of\<close> and \<^term>\<open>enc\<close> are the
kernel record's accessor and its postcard encoding.\<close>

fun export_records ::
  "(u64 \<Rightarrow> bytes \<Rightarrow> ('s, 'io wal_export_error, unit) act) \<Rightarrow> ('s, 'io wal_export_error, unit) act
   \<Rightarrow> ('r \<Rightarrow> u64) \<Rightarrow> ('r \<Rightarrow> bytes option) \<Rightarrow> 'r list \<Rightarrow> ('s, 'io wal_sink_error, unit) act" where
  "export_records app fl seq_of enc [] = ret ()"
| "export_records app fl seq_of enc (r # rs) =
     (case enc r of
        None \<Rightarrow> throw WSEncode
      | Some scratch \<Rightarrow> (\<lambda>s.
          case app (seq_of r) scratch s of
            (Inr _, s1) \<Rightarrow> export_records app fl seq_of enc rs s1
          | (Inl (BufferOverflow c q b), s1) \<Rightarrow>
              bnd (as_sink_error fl) (\<lambda>_.
              bnd (as_sink_error (app (seq_of r) scratch)) (\<lambda>_.
              export_records app fl seq_of enc rs)) s1
          | (Inl e, s1) \<Rightarrow> (Inl (WSSink e), s1)))"

definition export_all ::
  "(u64 \<Rightarrow> bytes \<Rightarrow> ('s, 'io wal_export_error, unit) act) \<Rightarrow> ('s, 'io wal_export_error, unit) act
   \<Rightarrow> ('r \<Rightarrow> u64) \<Rightarrow> ('r \<Rightarrow> bytes option) \<Rightarrow> 'r list \<Rightarrow> ('s, 'io wal_sink_error, unit) act" where
  "export_all app fl seq_of enc rs =
     bnd (export_records app fl seq_of enc rs) (\<lambda>_. as_sink_error fl)"

definition wal_to_sink ::
  "('w, 'io) write_ops \<Rightarrow> ('r \<Rightarrow> u64) \<Rightarrow> ('r \<Rightarrow> bytes option) \<Rightarrow> 'r list
   \<Rightarrow> ('w sink, 'io wal_sink_error, unit) act" where
  "wal_to_sink W seq_of enc rs = export_all append_record (sink_flush W) seq_of enc rs"

section \<open>The reader\<close>

text \<open>A byte source: what it still delivers, and the error it ends with (\<^term>\<open>None\<close> is end of file).\<close>
record 'io source =
  so_bytes :: bytes
  so_fault :: "'io option"

datatype 'io read_error = UnexpectedEof | OtherIo 'io

definition read_exact :: "nat \<Rightarrow> ('io source, 'io read_error, bytes) act" where
  "read_exact n = (\<lambda>r.
     if n \<le> length (so_bytes r) then (Inr (take n (so_bytes r)), r\<lparr>so_bytes := drop n (so_bytes r)\<rparr>)
     else (Inl (case so_fault r of None \<Rightarrow> UnexpectedEof | Some e \<Rightarrow> OtherIo e), r\<lparr>so_bytes := []\<rparr>))"

text \<open>\<^verbatim>\<open>read\<close> into a one-byte buffer: no byte at end of file.\<close>
definition read_one :: "('io source, 'io, u8 option) act" where
  "read_one = (\<lambda>r. case so_bytes r of
      b # bs \<Rightarrow> (Inr (Some b), r\<lparr>so_bytes := bs\<rparr>)
    | [] \<Rightarrow> (case so_fault r of None \<Rightarrow> (Inr None, r) | Some e \<Rightarrow> (Inl e, r)))"

record 'io wal_reader =
  rd_reader :: "'io source"
  rd_cumulative_pos :: u64
  rd_magic :: stream_magic

definition open_v1 :: "'io source \<Rightarrow> 'io wal_export_error + 'io wal_reader" where
  "open_v1 r =
     (case read_exact 8 r of
        (Inl UnexpectedEof, _) \<Rightarrow> Inl (InvalidFraming HeaderMissing)
      | (Inl (OtherIo e), _) \<Rightarrow> Inl (Io e)
      | (Inr magic_bytes, r1) \<Rightarrow>
          (case StreamMagic_recognize magic_bytes of
             None \<Rightarrow> Inl (UnsupportedStreamVersion magic_bytes)
           | Some mg \<Rightarrow> Inr \<lparr>rd_reader = r1, rd_cumulative_pos = 8, rd_magic = mg\<rparr>))"

definition eof_as_truncated :: "'io read_error \<Rightarrow> 'io wal_export_error" where
  "eof_as_truncated e = (case e of UnexpectedEof \<Rightarrow> InvalidFraming Truncated | OtherIo x \<Rightarrow> Io x)"

definition next_record :: "('io wal_reader, 'io wal_export_error, bytes option) act" where
  "next_record = (\<lambda>s.
     case read_one (rd_reader s) of
       (Inl e, r1) \<Rightarrow> (Inl (Io e), s\<lparr>rd_reader := r1\<rparr>)
     | (Inr None, r1) \<Rightarrow> (Inr None, s\<lparr>rd_reader := r1\<rparr>)
     | (Inr (Some first_byte), r1) \<Rightarrow>
         (case read_exact 7 r1 of
            (Inl e, r2) \<Rightarrow> (Inl (eof_as_truncated e), s\<lparr>rd_reader := r2\<rparr>)
          | (Inr rest, r2) \<Rightarrow>
              (let len = (from_be (first_byte # rest) :: u64);
                   s2 = s\<lparr>rd_reader := r2, rd_cumulative_pos := rd_cumulative_pos s + 8\<rparr>
               in if len = 0 then (Inl (InvalidFraming LengthZero), s2)
                  else if len > MAX_RECORD_BYTES
                    then (Inl (InvalidFraming (LengthExceedsMax len MAX_RECORD_BYTES)), s2)
                  else (case read_exact (unat len) r2 of
                          (Inl e, r3) \<Rightarrow> (Inl (eof_as_truncated e), s2\<lparr>rd_reader := r3\<rparr>)
                        | (Inr payload, r3) \<Rightarrow>
                            (Inr (Some payload),
                             s2\<lparr>rd_reader := r3, rd_cumulative_pos := rd_cumulative_pos s2 + len\<rparr>)))))"

section \<open>Reading a stream to its end\<close>

lemma read_exact_length:
  "read_exact n r = (Inr bs, r') \<Longrightarrow> length bs = n \<and> so_bytes r = bs @ so_bytes r' \<and> so_fault r' = so_fault r"
  by (auto simp: read_exact_def split: if_splits)

lemma next_record_progress:
  assumes "next_record s = (Inr (Some p), s')"
  shows "length (so_bytes (rd_reader s')) + 9 \<le> length (so_bytes (rd_reader s))"
proof -
  obtain b bs where b: "so_bytes (rd_reader s) = b # bs"
    using assms by (auto simp: next_record_def read_one_def split: list.splits option.splits)
  let ?r1 = "(rd_reader s)\<lparr>so_bytes := bs\<rparr>"
  from assms b obtain rest r2 where r2: "read_exact 7 ?r1 = (Inr rest, r2)"
    by (auto simp: next_record_def read_one_def split: prod.splits sum.splits)
  from assms b r2 obtain r3 where r3: "read_exact (unat (from_be (b # rest) :: u64)) r2 = (Inr p, r3)"
      "rd_reader s' = r3" "(from_be (b # rest) :: u64) \<noteq> 0"
    by (auto simp: next_record_def read_one_def Let_def split: prod.splits sum.splits if_splits)
  have "0 < unat (from_be (b # rest) :: u64)" using r3(3) by (simp add: unat_gt_0)
  with read_exact_length[OF r2] read_exact_length[OF r3(1)] b r3(2) show ?thesis by simp
qed

text \<open>The caller's loop over \<^verbatim>\<open>next_record\<close>: the payloads it sees, and the error that ends it.\<close>
function read_all :: "'io wal_reader \<Rightarrow> bytes list \<times> 'io wal_export_error option \<times> 'io wal_reader" where
  "read_all s =
     (case next_record s of
        (Inl e, s') \<Rightarrow> ([], Some e, s')
      | (Inr None, s') \<Rightarrow> ([], None, s')
      | (Inr (Some p), s') \<Rightarrow> (let (ps, e, s'') = read_all s' in (p # ps, e, s'')))"
  by pat_completeness auto
termination
  by (relation "measure (\<lambda>s. length (so_bytes (rd_reader s)))") (auto dest: next_record_progress[OF sym])

declare read_all.simps [simp del]

definition read_stream :: "'io source \<Rightarrow> bytes list \<times> 'io wal_export_error option" where
  "read_stream r = (case open_v1 r of
       Inl e \<Rightarrow> ([], Some e)
     | Inr s \<Rightarrow> (let (ps, e, _) = read_all s in (ps, e)))"

section \<open>Frames\<close>

definition frame :: "bytes \<Rightarrow> bytes" where
  "frame b = be_bytes 8 (of_nat (length b) :: u64) @ b"

definition payload_ok :: "bytes \<Rightarrow> bool" where
  "payload_ok b \<longleftrightarrow> 0 < length b \<and> length b \<le> unat MAX_RECORD_BYTES"

definition frames :: "bytes list \<Rightarrow> bytes" where
  "frames ps = concat (map frame ps)"

lemma frames_simps [simp]: "frames [] = []" "frames (p # ps) = frame p @ frames ps"
  "frames (ps @ qs) = frames ps @ frames qs"
  by (simp_all add: frames_def)

lemma unat_MAX [simp]: "unat MAX_RECORD_BYTES = 16777216"
  by (simp add: MAX_RECORD_BYTES_def push_bit_eq_mult)

lemma payload_len:
  "payload_ok b \<Longrightarrow> unat (of_nat (length b) :: u64) = length b"
  by (simp add: payload_ok_def unat_of_nat)

lemma frame_header:
  assumes "payload_ok b"
  obtains f rest where "be_bytes 8 (of_nat (length b) :: u64) = f # rest" "length rest = 7"
    "from_be (f # rest) = (of_nat (length b) :: u64)"
proof -
  have "length (be_bytes 8 (of_nat (length b) :: u64)) = 8" by simp
  then obtain f rest where "be_bytes 8 (of_nat (length b) :: u64) = f # rest" "length rest = 7"
    by (cases "be_bytes 8 (of_nat (length b) :: u64)") auto
  then show ?thesis using that from_be_be_bytes[of 8 "of_nat (length b) :: u64"] by simp
qed

lemma next_record_frame:
  assumes "payload_ok b" "so_bytes (rd_reader s) = frame b @ rest"
  shows "next_record s = (Inr (Some b), s\<lparr>rd_reader := (rd_reader s)\<lparr>so_bytes := rest\<rparr>,
           rd_cumulative_pos := rd_cumulative_pos s + 8 + of_nat (length b)\<rparr>)"
proof -
  obtain f r where fr: "be_bytes 8 (of_nat (length b) :: u64) = f # r" "length r = 7"
    "from_be (f # r) = (of_nat (length b) :: u64)"
    using frame_header[OF assms(1)] .
  have z: "(of_nat (length b) :: u64) \<noteq> 0" "\<not> (of_nat (length b) :: u64) > MAX_RECORD_BYTES"
    using assms(1) payload_len[OF assms(1)]
    by (auto simp: payload_ok_def word_less_nat_alt simp flip: unat_gt_0)
  show ?thesis
    using assms(2) fr z payload_len[OF assms(1)]
    by (simp add: next_record_def read_one_def read_exact_def frame_def Let_def)
qed

lemma next_record_eof:
  "so_bytes (rd_reader s) = [] \<Longrightarrow> so_fault (rd_reader s) = None \<Longrightarrow> next_record s = (Inr None, s)"
  by (simp add: next_record_def read_one_def)

lemma rd_reader_id: "so_bytes (rd_reader s) = bs \<Longrightarrow> s\<lparr>rd_reader := (rd_reader s)\<lparr>so_bytes := bs\<rparr>\<rparr> = s"
  by (cases s; cases "rd_reader s") simp

lemma read_all_frames:
  "\<forall>p \<in> set ps. payload_ok p \<Longrightarrow> so_bytes (rd_reader s) = frames ps @ rest \<Longrightarrow>
   read_all s = (let (qs, e, t) = read_all (s\<lparr>rd_reader := (rd_reader s)\<lparr>so_bytes := rest\<rparr>,
        rd_cumulative_pos := rd_cumulative_pos s + of_nat (length (frames ps))\<rparr>) in (ps @ qs, e, t))"
proof (induction ps arbitrary: s)
  case Nil
  then show ?case by (simp add: split_beta rd_reader_id)
next
  case (Cons p ps)
  let ?s' = "s\<lparr>rd_reader := (rd_reader s)\<lparr>so_bytes := frames ps @ rest\<rparr>,
           rd_cumulative_pos := rd_cumulative_pos s + 8 + of_nat (length p)\<rparr>"
  have n: "next_record s = (Inr (Some p), ?s')"
    using Cons.prems by (intro next_record_frame) auto
  have "read_all s = (let (ps', e, s'') = read_all ?s' in (p # ps', e, s''))"
    by (subst read_all.simps) (simp add: n)
  also have "read_all ?s' = (let (qs, e, t) = read_all (?s'\<lparr>rd_reader := (rd_reader ?s')\<lparr>so_bytes := rest\<rparr>,
        rd_cumulative_pos := rd_cumulative_pos ?s' + of_nat (length (frames ps))\<rparr>) in (ps @ qs, e, t))"
    using Cons.prems by (intro Cons.IH) auto
  finally show ?case by (simp add: split_beta frame_def algebra_simps Let_def)
qed

lemma open_v1_magic:
  "so_bytes r = STREAM_HEADER_MAGIC @ bs \<Longrightarrow>
    open_v1 r = Inr \<lparr>rd_reader = r\<lparr>so_bytes := bs\<rparr>, rd_cumulative_pos = 8, rd_magic = V1\<rparr>"
  by (simp add: open_v1_def read_exact_def STREAM_HEADER_MAGIC_def StreamMagic_recognize_def)

lemma read_stream_frames:
  assumes "\<forall>p \<in> set ps. payload_ok p"
  shows "read_stream (\<lparr>so_bytes = STREAM_HEADER_MAGIC @ frames ps, so_fault = None\<rparr> :: 'io source) = (ps, None)"
proof -
  let ?s = "\<lparr>rd_reader = \<lparr>so_bytes = frames ps, so_fault = None\<rparr>, rd_cumulative_pos = 8, rd_magic = V1\<rparr> :: 'io wal_reader"
  have "read_all t = ([], None, t)" if "so_bytes (rd_reader t) = []" "so_fault (rd_reader t) = None"
    for t :: "'io wal_reader"
    by (subst read_all.simps) (simp add: next_record_eof that)
  then show ?thesis
    using read_all_frames[OF assms, of ?s "[]"]
    by (simp add: read_stream_def open_v1_magic split_beta)
qed

section \<open>What every byte stream reads as\<close>

text \<open>The error that ends the reading of a tail that does not start with a complete frame.\<close>
definition eof_error :: "'io option \<Rightarrow> 'io wal_export_error" where
  "eof_error fault = (case fault of None \<Rightarrow> InvalidFraming Truncated | Some e \<Rightarrow> Io e)"

definition tail_error :: "'io option \<Rightarrow> bytes \<Rightarrow> 'io wal_export_error option" where
  "tail_error fault tail =
     (if tail = [] then map_option Io fault
      else if length tail < 8 then Some (eof_error fault)
      else let len = (from_be (take 8 tail) :: u64) in
        if len = 0 then Some (InvalidFraming LengthZero)
        else if len > MAX_RECORD_BYTES then Some (InvalidFraming (LengthExceedsMax len MAX_RECORD_BYTES))
        else Some (eof_error fault))"

definition starts_with_frame :: "bytes \<Rightarrow> bool" where
  "starts_with_frame tail \<longleftrightarrow> 8 \<le> length tail \<and> (let len = unat (from_be (take 8 tail) :: u64) in
      0 < len \<and> len \<le> unat MAX_RECORD_BYTES \<and> 8 + len \<le> length tail)"

lemma starts_with_frame_frame:
  assumes "starts_with_frame tail"
  obtains b rest where "payload_ok b" "tail = frame b @ rest"
proof -
  let ?len = "unat (from_be (take 8 tail) :: u64)"
  let ?b = "take ?len (drop 8 tail)"
  have l: "8 \<le> length tail" "0 < ?len" "?len \<le> 16777216" "8 + ?len \<le> length tail"
    using assms by (simp_all add: starts_with_frame_def Let_def)
  then have lb: "length ?b = ?len" by simp
  have "be_bytes 8 (of_nat (length ?b) :: u64) = take 8 tail"
    unfolding lb using be_bytes_from_be[of "take 8 tail" 8, where 'a=64] l by simp
  then have "tail = frame ?b @ drop ?len (drop 8 tail)"
    unfolding frame_def by (metis append.assoc append_take_drop_id)
  moreover have "payload_ok ?b" unfolding payload_ok_def lb using l by simp
  ultimately show ?thesis using that by blast
qed

lemma next_record_tail:
  assumes "so_bytes (rd_reader s) = tail" "\<not> starts_with_frame tail"
  shows "fst (next_record s) = (case tail_error (so_fault (rd_reader s)) tail of
            None \<Rightarrow> Inr None | Some e \<Rightarrow> Inl e)"
proof (cases tail)
  case Nil
  then show ?thesis using assms(1)
    by (auto simp: next_record_def read_one_def tail_error_def split: option.splits)
next
  case (Cons b bs)
  show ?thesis
  proof (cases "length bs < 7")
    case True
    then show ?thesis using assms(1) Cons
      by (auto simp: next_record_def read_one_def read_exact_def tail_error_def eof_error_def
          eof_as_truncated_def split: option.splits)
  next
    case False
    let ?len = "from_be (b # take 7 bs) :: u64"
    have t8: "take 8 tail = b # take 7 bs" using Cons by simp
    have short: "0 < unat ?len \<Longrightarrow> unat ?len \<le> 16777216 \<Longrightarrow> length (drop 7 bs) < unat ?len"
      using assms(2) False unfolding starts_with_frame_def t8 by (auto simp: Cons Let_def)
    show ?thesis
    proof (cases "?len = 0 \<or> ?len > MAX_RECORD_BYTES")
      case True
      then show ?thesis using assms(1) Cons False t8
        by (auto simp: next_record_def read_one_def read_exact_def tail_error_def Let_def)
    next
      case l: False
      then have "\<not> unat ?len \<le> length (drop 7 bs)"
        using short by (auto simp: word_less_nat_alt unat_gt_0 not_less)
      then show ?thesis using assms(1) Cons False t8 l
        by (auto simp: next_record_def read_one_def read_exact_def tail_error_def Let_def eof_error_def
            eof_as_truncated_def split: option.splits)
    qed
  qed
qed

lemma read_all_classifies:
  "\<exists>tail. so_bytes (rd_reader s) = frames (fst (read_all s)) @ tail
     \<and> list_all payload_ok (fst (read_all s))
     \<and> \<not> starts_with_frame tail
     \<and> fst (snd (read_all s)) = tail_error (so_fault (rd_reader s)) tail"
proof (induction s rule: read_all.induct)
  case (1 s)
  show ?case
  proof (cases "starts_with_frame (so_bytes (rd_reader s))")
    case True
    then obtain b rest where b: "payload_ok b" "so_bytes (rd_reader s) = frame b @ rest"
      using starts_with_frame_frame by blast
    note n = next_record_frame[OF b]
    let ?s' = "s\<lparr>rd_reader := (rd_reader s)\<lparr>so_bytes := rest\<rparr>,
           rd_cumulative_pos := rd_cumulative_pos s + 8 + of_nat (length b)\<rparr>"
    from 1[OF n[symmetric] refl refl] obtain tail where
      IH: "rest = frames (fst (read_all ?s')) @ tail" "list_all payload_ok (fst (read_all ?s'))"
        "\<not> starts_with_frame tail" "fst (snd (read_all ?s')) = tail_error (so_fault (rd_reader s)) tail"
      by auto
    have "read_all s = (b # fst (read_all ?s'), snd (read_all ?s'))"
      by (subst read_all.simps) (simp add: n split_beta Let_def)
    then show ?thesis using IH b by auto
  next
    case False
    note n = next_record_tail[OF refl False]
    have "fst (read_all s) = [] \<and> fst (snd (read_all s)) = tail_error (so_fault (rd_reader s)) (so_bytes (rd_reader s))"
      using n by (subst (1 2) read_all.simps) (auto split: prod.splits option.splits)
    then show ?thesis using False by auto
  qed
qed

text \<open>C28: the reader is fail-secure and total. For every byte source the reading loop ends; the bytes
it accepted are exactly the stream magic followed by well-formed frames of the payloads it returned,
and the way it ends is determined by what is left: a clean end only at a frame boundary, a short
remainder as truncation (or the source's own error), a zero length and an oversized length before
the payload is touched, a wrong magic or a short header before any record.\<close>
theorem reader_fail_secure:
  "case read_stream r of (ps, e) \<Rightarrow>
     if length (so_bytes r) < 8
     then ps = [] \<and> e = Some (case so_fault r of None \<Rightarrow> InvalidFraming HeaderMissing | Some x \<Rightarrow> Io x)
     else if take 8 (so_bytes r) \<noteq> STREAM_HEADER_MAGIC
     then ps = [] \<and> e = Some (UnsupportedStreamVersion (take 8 (so_bytes r)))
     else \<exists>tail. so_bytes r = STREAM_HEADER_MAGIC @ frames ps @ tail
        \<and> list_all payload_ok ps \<and> \<not> starts_with_frame tail \<and> e = tail_error (so_fault r) tail"
proof -
  consider (short) "length (so_bytes r) < 8" | (magic) "\<not> length (so_bytes r) < 8" "take 8 (so_bytes r) \<noteq> STREAM_HEADER_MAGIC"
    | (ok) "\<not> length (so_bytes r) < 8" "take 8 (so_bytes r) = STREAM_HEADER_MAGIC" by blast
  then show ?thesis
  proof cases
    case short
    then show ?thesis by (auto simp: read_stream_def open_v1_def read_exact_def split: option.splits)
  next
    case magic
    then show ?thesis
      by (auto simp: read_stream_def open_v1_def read_exact_def StreamMagic_recognize_def
          STREAM_HEADER_MAGIC_def)
  next
    case ok
    then have b: "so_bytes r = STREAM_HEADER_MAGIC @ drop 8 (so_bytes r)"
      by (metis append_take_drop_id)
    let ?s = "\<lparr>rd_reader = r\<lparr>so_bytes := drop 8 (so_bytes r)\<rparr>, rd_cumulative_pos = 8, rd_magic = V1\<rparr>"
    have rs: "read_stream r = (fst (read_all ?s), fst (snd (read_all ?s)))"
      using open_v1_magic[OF b] by (simp add: read_stream_def split_beta Let_def)
    obtain tail where t: "drop 8 (so_bytes r) = frames (fst (read_all ?s)) @ tail"
        "list_all payload_ok (fst (read_all ?s))" "\<not> starts_with_frame tail"
        "fst (snd (read_all ?s)) = tail_error (so_fault r) tail"
      using read_all_classifies[of ?s] by auto
    have "so_bytes r = STREAM_HEADER_MAGIC @ frames (fst (read_all ?s)) @ tail"
      using b t(1) by simp
    with t(2-4) have "\<exists>tail. so_bytes r = STREAM_HEADER_MAGIC @ frames (fst (read_all ?s)) @ tail
        \<and> list_all payload_ok (fst (read_all ?s)) \<and> \<not> starts_with_frame tail
        \<and> fst (snd (read_all ?s)) = tail_error (so_fault r) tail" by blast
    then show ?thesis using ok unfolding rs prod.case by simp
  qed
qed

section \<open>Torn streams\<close>

lemma take_frames:
  "\<exists>j tail. take k (frames ps) = frames (take j ps) @ tail \<and> j \<le> length ps
     \<and> (tail = [] \<or> (\<exists>p n. p \<in> set ps \<and> 0 < n \<and> n < length (frame p) \<and> tail = take n (frame p)))"
proof (induction ps arbitrary: k)
  case Nil then show ?case by auto
next
  case (Cons p ps)
  show ?case
  proof (cases "k < length (frame p)")
    case True
    then have "take k (frames (p # ps)) = frames (take 0 (p # ps)) @ take k (frame p)" by simp
    with True show ?thesis
      by (intro exI[of _ 0] exI[of _ "take k (frame p)"]) auto
  next
    case False
    obtain j tail where j: "take (k - length (frame p)) (frames ps) = frames (take j ps) @ tail"
      "j \<le> length ps"
      "tail = [] \<or> (\<exists>q n. q \<in> set ps \<and> 0 < n \<and> n < length (frame q) \<and> tail = take n (frame q))"
      using Cons.IH by blast
    then have "take k (frames (p # ps)) = frames (take (Suc j) (p # ps)) @ tail" using False by simp
    with j show ?thesis by (intro exI[of _ "Suc j"] exI[of _ tail]) auto
  qed
qed

lemma torn_frame:
  assumes "payload_ok p" "0 < n" "n < length (frame p)"
  shows "\<not> starts_with_frame (take n (frame p)) \<and> tail_error None (take n (frame p)) = Some (InvalidFraming Truncated)"
proof (cases "n < 8")
  case True
  then show ?thesis using assms by (auto simp: starts_with_frame_def tail_error_def eof_error_def frame_def)
next
  case False
  have "take 8 (take n (frame p)) = be_bytes 8 (of_nat (length p) :: u64)"
    using False by (simp add: frame_def min_def)
  then have len: "(from_be (take 8 (take n (frame p))) :: u64) = of_nat (length p)"
    by (simp add: from_be_be_bytes)
  have "0 < length p" "length p \<le> 16777216" using assms(1) by (simp_all add: payload_ok_def)
  then have "(of_nat (length p) :: u64) \<noteq> 0" "\<not> (of_nat (length p) :: u64) > MAX_RECORD_BYTES"
    using payload_len[OF assms(1)] by (auto simp: word_less_nat_alt simp flip: unat_gt_0)
  moreover define t where "t = take n (frame p)"
  moreover have "8 \<le> length t" "length t < 8 + length p"
    using False assms(3) by (simp_all add: frame_def t_def)
  ultimately show ?thesis using payload_len[OF assms(1)] len unfolding t_def[symmetric]
    by (auto simp: starts_with_frame_def tail_error_def eof_error_def Let_def)
qed

lemma frame_nonempty [simp]: "frame p \<noteq> []"
  using length_be_bytes[of 8 "of_nat (length p) :: u64"] by (auto simp: frame_def simp del: length_be_bytes)

lemma read_stream_append:
  assumes "list_all payload_ok ps" "\<not> starts_with_frame tail"
  shows "read_stream (\<lparr>so_bytes = STREAM_HEADER_MAGIC @ frames ps @ tail, so_fault = f\<rparr> :: 'io source)
     = (ps, tail_error f tail)"
proof -
  let ?s = "\<lparr>rd_reader = \<lparr>so_bytes = frames ps @ tail, so_fault = f\<rparr>, rd_cumulative_pos = 8, rd_magic = V1\<rparr> :: 'io wal_reader"
  have last: "fst (read_all t) = [] \<and> fst (snd (read_all t)) = tail_error f tail"
    if "so_bytes (rd_reader t) = tail" "so_fault (rd_reader t) = f" for t :: "'io wal_reader"
    using next_record_tail[OF that(1) assms(2)] that
    by (subst (1 2) read_all.simps) (auto split: prod.splits option.splits)
  have "read_all ?s = (let (qs, e, t) = read_all (?s\<lparr>rd_reader := (rd_reader ?s)\<lparr>so_bytes := tail\<rparr>,
        rd_cumulative_pos := rd_cumulative_pos ?s + of_nat (length (frames ps))\<rparr>) in (ps @ qs, e, t))"
    using assms(1) by (intro read_all_frames) (auto simp: list_all_iff)
  then show ?thesis
    using last[of "?s\<lparr>rd_reader := (rd_reader ?s)\<lparr>so_bytes := tail\<rparr>,
        rd_cumulative_pos := rd_cumulative_pos ?s + of_nat (length (frames ps))\<rparr>"]
    by (simp add: read_stream_def open_v1_magic split_beta Let_def)
qed

text \<open>Torn exports. Cutting a valid stream at any byte yields a prefix of its payloads and never a
fabricated record; the reader reports a clean end exactly when the cut is at a frame boundary, a
missing header when it lies inside the magic, and truncation otherwise.\<close>
theorem torn_stream:
  assumes "list_all payload_ok ps"
  shows "\<exists>j e. read_stream (\<lparr>so_bytes = take k (STREAM_HEADER_MAGIC @ frames ps), so_fault = None\<rparr> :: 'io source)
       = (take j ps, e)
     \<and> (e = None \<longleftrightarrow> take k (STREAM_HEADER_MAGIC @ frames ps) = STREAM_HEADER_MAGIC @ frames (take j ps))
     \<and> e \<in> {None, Some (InvalidFraming (if k < 8 then HeaderMissing else Truncated))}"
proof (cases "k < 8")
  case True
  have l8: "length STREAM_HEADER_MAGIC = 8" by (simp add: STREAM_HEADER_MAGIC_def)
  have "length (take k (STREAM_HEADER_MAGIC @ frames ps)) < 8" using True by simp
  then have "read_stream (\<lparr>so_bytes = take k (STREAM_HEADER_MAGIC @ frames ps), so_fault = None\<rparr> :: 'io source)
      = ([], Some (InvalidFraming HeaderMissing))"
    by (simp add: read_stream_def open_v1_def read_exact_def)
  moreover have "take k (STREAM_HEADER_MAGIC @ frames ps) \<noteq> STREAM_HEADER_MAGIC @ frames (take 0 ps)"
    using True l8 by (metis append_Nil2 frames_simps(1) length_take less_irrefl min.strict_order_iff min_less_iff_disj take_0)
  ultimately show ?thesis using True by (intro exI[of _ 0]) auto
next
  case False
  have "length STREAM_HEADER_MAGIC = 8" by (simp add: STREAM_HEADER_MAGIC_def)
  then have k: "take k (STREAM_HEADER_MAGIC @ frames ps) = STREAM_HEADER_MAGIC @ take (k - 8) (frames ps)"
    using False by simp
  obtain j tail where j: "take (k - 8) (frames ps) = frames (take j ps) @ tail"
    "tail = [] \<or> (\<exists>p n. p \<in> set ps \<and> 0 < n \<and> n < length (frame p) \<and> tail = take n (frame p))"
    using take_frames by blast
  have pj: "list_all payload_ok (take j ps)" using assms by (auto simp: list_all_iff dest: in_set_takeD)
  have t: "\<not> starts_with_frame tail \<and> tail_error (None :: 'io option) tail = (if tail = [] then None else Some (InvalidFraming Truncated))"
  proof (cases "tail = []")
    case True then show ?thesis by (simp add: starts_with_frame_def tail_error_def)
  next
    case False
    with j(2) obtain p n where "p \<in> set ps" "0 < n" "n < length (frame p)" "tail = take n (frame p)" by blast
    with torn_frame[of p n] assms False show ?thesis by (auto simp: list_all_iff)
  qed
  then have "read_stream (\<lparr>so_bytes = take k (STREAM_HEADER_MAGIC @ frames ps), so_fault = None\<rparr> :: 'io source)
      = (take j ps, if tail = [] then None else Some (InvalidFraming Truncated))"
    unfolding k j(1) using t by (simp add: read_stream_append[OF pj])
  then show ?thesis using False k j(1)
    by (intro exI[of _ j] exI[of _ "if tail = [] then None else Some (InvalidFraming Truncated)"]) auto
qed

lemma torn_stream_witness:
  "\<exists>j e. read_stream (\<lparr>so_bytes = take 12 (STREAM_HEADER_MAGIC @ frames [[1, 2], [3]]), so_fault = None\<rparr> :: unit source)
     = (take j [[1, 2], [3]], e)"
  using torn_stream[of "[[1, 2], [3]]" 12] by (auto simp: payload_ok_def)

section \<open>The sink interface and its client\<close>

text \<open>What \<^verbatim>\<open>WalRecordSink\<close> promises: an accepted append adds exactly the record to the log under the
successor of the last sequence number, a rejected one and a flush leave the log alone.\<close>
locale wal_record_sink =
  fixes app :: "u64 \<Rightarrow> bytes \<Rightarrow> ('s, 'io wal_export_error, unit) act"
    and fl :: "('s, 'io wal_export_error, unit) act"
    and inv :: "'s \<Rightarrow> bool"
    and log :: "'s \<Rightarrow> bytes list"
    and last :: "'s \<Rightarrow> u64 option"
  assumes app_ok: "inv s \<Longrightarrow> app q b s = (Inr u, t) \<Longrightarrow>
      inv t \<and> log t = log s @ [b] \<and> last t = Some q
      \<and> (\<forall>p. last s = Some p \<longrightarrow> checked_add p 1 = Some q)"
    and app_err: "inv s \<Longrightarrow> app q b s = (Inl e, t) \<Longrightarrow> inv t \<and> log t = log s \<and> last t = last s"
    and fl_ok: "inv s \<Longrightarrow> fl s = (Inr u, t) \<Longrightarrow> inv t \<and> log t = log s \<and> last t = last s"
begin

lemma export_records_log:
  "inv s \<Longrightarrow> export_records app fl seq_of enc rs s = (Inr u, t) \<Longrightarrow>
     inv t \<and> log t = log s @ map (the \<circ> enc) rs \<and> list_all (\<lambda>r. enc r \<noteq> None) rs"
proof (induction rs arbitrary: s u)
  case Nil then show ?case by simp
next
  case (Cons r rs)
  from Cons.prems(2) obtain b where b: "enc r = Some b" by (auto split: option.splits)
  obtain res s1 where a: "app (seq_of r) b s = (res, s1)" by fastforce
  have "\<exists>s2. inv s2 \<and> log s2 = log s @ [b] \<and> export_records app fl seq_of enc rs s2 = (Inr u, t)"
  proof (cases res)
    case (Inr v)
    then show ?thesis using a b Cons.prems app_ok[OF Cons.prems(1), of "seq_of r" b v s1] by auto
  next
    case (Inl e)
    then obtain c q n where e: "e = BufferOverflow c q n" using Cons.prems(2) a b by (cases e) auto
    from Cons.prems(2) a b Inl e obtain v1 s2 v2 s3 where f: "fl s1 = (Inr v1, s2)"
      and g: "app (seq_of r) b s2 = (Inr v2, s3)" "export_records app fl seq_of enc rs s3 = (Inr u, t)"
      by (auto simp: bnd_Inr)
    have "inv s1 \<and> log s1 = log s" using app_err[OF Cons.prems(1)] a Inl by blast
    then have "inv s2 \<and> log s2 = log s" using fl_ok f by metis
    then have "inv s3 \<and> log s3 = log s @ [b]" using app_ok g(1) by metis
    then show ?thesis using g(2) by blast
  qed
  then show ?case using Cons.IH b by fastforce
qed

lemma export_all_log:
  assumes "inv s" "export_all app fl seq_of enc rs s = (Inr u, t)"
  shows "inv t \<and> log t = log s @ map (the \<circ> enc) rs \<and> list_all (\<lambda>r. enc r \<noteq> None) rs"
proof -
  from assms(2) obtain s1 where s1: "export_records app fl seq_of enc rs s = (Inr (), s1)" "fl s1 = (Inr u, t)"
    by (auto simp: export_all_def bnd_Inr)
  then show ?thesis using export_records_log[OF assms(1)] fl_ok by metis
qed

end

section \<open>The buffered sink provides the interface\<close>

text \<open>A writer whose successful calls append: \<^term>\<open>cont\<close> is what has reached it.\<close>
locale byte_writer =
  fixes W :: "('w, 'io) write_ops" and cont :: "'w \<Rightarrow> bytes"
  assumes write_all_ok: "wr_write_all W b w = (Inr u, w') \<Longrightarrow> cont w' = cont w @ b"
    and flush_ok: "wr_flush W w = (Inr u, w') \<Longrightarrow> cont w' = cont w"

definition sink_stream :: "('w \<Rightarrow> bytes) \<Rightarrow> 'w sink \<Rightarrow> bytes" where
  "sink_stream cont s = cont (sk_writer s) @ sk_buffer s"

definition sink_inv :: "('w \<Rightarrow> bytes) \<Rightarrow> 'w sink \<Rightarrow> bool" where
  "sink_inv cont s \<longleftrightarrow>
     (if sk_header_emitted s
      then \<exists>ps. list_all payload_ok ps \<and> sink_stream cont s = STREAM_HEADER_MAGIC @ frames ps
      else sink_stream cont s = [] \<and> sk_last_seq s = None)"

definition sink_log :: "('w \<Rightarrow> bytes) \<Rightarrow> 'w sink \<Rightarrow> bytes list" where
  "sink_log cont s = fst (read_stream (\<lparr>so_bytes = sink_stream cont s, so_fault = None\<rparr> :: unit source))"

lemma sink_log_header:
  "list_all payload_ok ps \<Longrightarrow> sink_stream cont s = STREAM_HEADER_MAGIC @ frames ps \<Longrightarrow> sink_log cont s = ps"
  by (simp add: sink_log_def list_all_iff read_stream_frames)

lemma sink_log_empty: "sink_stream cont s = [] \<Longrightarrow> sink_log cont s = []"
  by (simp add: sink_log_def read_stream_def open_v1_def read_exact_def)

text \<open>After \<^verbatim>\<open>ensure_header\<close> the stream starts with the magic and holds the same log.\<close>
lemma ensure_header_inv:
  assumes "sink_inv cont s"
  shows "list_all payload_ok (sink_log cont s)
    \<and> sink_stream cont (ensure_header s) = STREAM_HEADER_MAGIC @ frames (sink_log cont s)
    \<and> sk_header_emitted (ensure_header s) \<and> sk_last_seq (ensure_header s) = sk_last_seq s
    \<and> sk_capacity (ensure_header s) = sk_capacity s \<and> sk_writer (ensure_header s) = sk_writer s"
proof (cases "sk_header_emitted s")
  case True
  then obtain ps where "list_all payload_ok ps" "sink_stream cont s = STREAM_HEADER_MAGIC @ frames ps"
    using assms by (auto simp: sink_inv_def)
  then show ?thesis using True by (simp add: ensure_header_def sink_log_header)
next
  case False
  then have "sink_stream cont s = []" using assms by (simp add: sink_inv_def)
  then show ?thesis using False sink_log_empty[of cont s]
    by (simp add: ensure_header_def sink_stream_def STREAM_HEADER_MAGIC_def)
qed

lemma sink_invI:
  "list_all payload_ok ps \<Longrightarrow> sink_stream cont s = STREAM_HEADER_MAGIC @ frames ps \<Longrightarrow> sk_header_emitted s \<Longrightarrow>
   sink_inv cont s \<and> sink_log cont s = ps"
  by (auto simp: sink_inv_def sink_log_header)

lemma validate_length_cases:
  "(case validate_length b of Inl e \<Rightarrow> f e | Inr n \<Rightarrow> g n) =
     (if payload_ok b then g (length b) else f (projl (validate_length b)))"
  by (auto simp: validate_length_def payload_ok_def Let_def)

lemma check_seq_cases:
  "(case check_seq l q of Inl e \<Rightarrow> f e | Inr u \<Rightarrow> g u) =
     (if \<forall>p. l = Some p \<longrightarrow> checked_add p 1 = Some q then g () else f (projl (check_seq l q)))"
  by (auto simp: check_seq_def split: option.splits)

lemma append_record_ok:
  "append_record q b s = (Inr u, t) \<longleftrightarrow>
     payload_ok b \<and> (\<forall>p. sk_last_seq s = Some p \<longrightarrow> checked_add p 1 = Some q)
     \<and> length (sk_buffer (ensure_header s)) + 8 + length b \<le> sk_capacity (ensure_header s)
     \<and> t = (ensure_header s)\<lparr>sk_buffer := sk_buffer (ensure_header s) @ frame b, sk_last_seq := Some q\<rparr>"
  unfolding append_record_def validate_length_cases check_seq_cases Let_def
  by (auto simp: frame_def)

lemma append_record_err:
  "append_record q b s = (Inl e, t) \<Longrightarrow> t = s \<or> t = ensure_header s"
  by (auto simp: append_record_def Let_def split: sum.splits if_splits)

lemma append_inv_ok:
  assumes "sink_inv cont s" "append_record q b s = (Inr u, t)"
  shows "sink_inv cont t \<and> sink_log cont t = sink_log cont s @ [b] \<and> sk_last_seq t = Some q
      \<and> (\<forall>p. sk_last_seq s = Some p \<longrightarrow> checked_add p 1 = Some q)"
proof -
  note h = ensure_header_inv[OF assms(1)]
  have b: "payload_ok b" "t = (ensure_header s)\<lparr>sk_buffer := sk_buffer (ensure_header s) @ frame b, sk_last_seq := Some q\<rparr>"
    "\<forall>p. sk_last_seq s = Some p \<longrightarrow> checked_add p 1 = Some q"
    using assms(2) by (auto simp: append_record_ok)
  have "sink_stream cont t = sink_stream cont (ensure_header s) @ frame b"
    using b(2) by (simp add: sink_stream_def)
  then have "sink_stream cont t = STREAM_HEADER_MAGIC @ frames (sink_log cont s @ [b])"
    using h by simp
  then show ?thesis using sink_invI[of "sink_log cont s @ [b]" cont t] h b by simp
qed

lemma ensure_header_log:
  assumes "sink_inv cont s"
  shows "sink_inv cont (ensure_header s) \<and> sink_log cont (ensure_header s) = sink_log cont s"
  using ensure_header_inv[OF assms] sink_invI[of "sink_log cont s" cont "ensure_header s"] by simp

lemma append_inv_err:
  assumes "sink_inv cont s" "append_record q b s = (Inl e, t)"
  shows "sink_inv cont t \<and> sink_log cont t = sink_log cont s \<and> sk_last_seq t = sk_last_seq s"
  using append_record_err[OF assms(2)] ensure_header_log[OF assms(1)] ensure_header_inv[OF assms(1)] assms(1)
  by auto

context byte_writer
begin

lemma flush_inv:
  assumes "sink_inv cont s" "sink_flush W s = (Inr u, t)"
  shows "sink_inv cont t \<and> sink_log cont t = sink_log cont s \<and> sk_last_seq t = sk_last_seq s"
proof -
  note h = ensure_header_inv[OF assms(1)]
  have "sink_stream cont t = sink_stream cont (ensure_header s)
      \<and> sk_header_emitted t = sk_header_emitted (ensure_header s) \<and> sk_last_seq t = sk_last_seq (ensure_header s)"
    using assms(2)
    by (auto simp: sink_flush_def Let_def sink_stream_def split: if_splits prod.splits sum.splits
        dest!: write_all_ok flush_ok)
  then show ?thesis using h sink_invI[of "sink_log cont s" cont t] by simp
qed

end

sublocale byte_writer \<subseteq> sink: wal_record_sink append_record "sink_flush W" "sink_inv cont" "sink_log cont" sk_last_seq
  by unfold_locales (use append_inv_ok append_inv_err flush_inv in blast)+

text \<open>The in-memory writer \<^verbatim>\<open>Vec<u8>\<close>: every write appends, nothing fails (so its
error type carries nothing).\<close>
definition vec_writer :: "(bytes, unit) write_ops" where
  "vec_writer = \<lparr>wr_write_all = (\<lambda>b w. (Inr (), w @ b)), wr_flush = (\<lambda>w. (Inr (), w))\<rparr>"

interpretation vec: byte_writer vec_writer "\<lambda>w. w"
  by unfold_locales (auto simp: vec_writer_def)

section \<open>Any sequence of calls\<close>

datatype sink_call = CAppend u64 bytes | CFlush

text \<open>The accepted records and the state after a caller's sequence of calls.\<close>
fun run_calls ::
  "(u64 \<Rightarrow> bytes \<Rightarrow> ('s, 'io wal_export_error, unit) act) \<Rightarrow> ('s, 'io wal_export_error, unit) act
   \<Rightarrow> sink_call list \<Rightarrow> 's \<Rightarrow> (u64 \<times> bytes) list \<times> 's" where
  "run_calls app fl [] s = ([], s)"
| "run_calls app fl (CAppend q b # cs) s =
     (case app q b s of
        (Inr _, s1) \<Rightarrow> (let (acc, t) = run_calls app fl cs s1 in ((q, b) # acc, t))
      | (Inl _, s1) \<Rightarrow> run_calls app fl cs s1)"
| "run_calls app fl (CFlush # cs) s = run_calls app fl cs (snd (fl s))"

text \<open>Strict succession: each number is one more than the one before, without wrapping.\<close>
fun chained :: "u64 option \<Rightarrow> u64 list \<Rightarrow> bool" where
  "chained l [] \<longleftrightarrow> True"
| "chained l (q # qs) \<longleftrightarrow> (case l of None \<Rightarrow> True | Some p \<Rightarrow> checked_add p 1 = Some q) \<and> chained (Some q) qs"

locale reliable_sink = wal_record_sink +
  assumes fl_total: "\<exists>t. fl s = (Inr (), t)"
begin

lemma run_calls_log:
  "inv s \<Longrightarrow> run_calls app fl cs s = (acc, t) \<Longrightarrow>
     inv t \<and> log t = log s @ map snd acc \<and> chained (last s) (map fst acc)
     \<and> last t = (if acc = [] then last s else Some (fst (List.last acc)))"
proof (induction cs arbitrary: s acc)
  case Nil then show ?case by simp
next
  case (Cons c cs)
  show ?case
  proof (cases c)
    case (CAppend q b)
    obtain res s1 where a: "app q b s = (res, s1)" by fastforce
    show ?thesis
    proof (cases res)
      case (Inl e)
      then show ?thesis using Cons.IH[of s1 acc] Cons.prems CAppend a app_err[OF Cons.prems(1)] by auto
    next
      case (Inr u)
      with Cons.prems CAppend a obtain acc1 where r: "run_calls app fl cs s1 = (acc1, t)" "acc = (q, b) # acc1"
        by (auto split: prod.splits)
      have "inv s1 \<and> log s1 = log s @ [b] \<and> last s1 = Some q \<and> (\<forall>p. last s = Some p \<longrightarrow> checked_add p 1 = Some q)"
        using app_ok[OF Cons.prems(1)] a Inr by blast
      then show ?thesis using Cons.IH[of s1 acc1] r by (auto split: option.splits)
    qed
  next
    case CFlush
    obtain t1 where "fl s = (Inr (), t1)" using fl_total by blast
    then show ?thesis using Cons.IH[of t1 acc] Cons.prems CFlush fl_ok[OF Cons.prems(1)] by auto
  qed
qed

end

interpretation vec_sink: reliable_sink append_record "sink_flush vec_writer" "sink_inv (\<lambda>w. w)" "sink_log (\<lambda>w. w)" sk_last_seq
  by unfold_locales (auto simp: sink_flush_def vec_writer_def Let_def)

lemma fresh_sink [simp]:
  "sink_inv (\<lambda>w. w) (BufferedWalSink_with_capacity [] cap)"
  "sink_log (\<lambda>w. w) (BufferedWalSink_with_capacity [] cap) = []"
  "sk_last_seq (BufferedWalSink_with_capacity w cap) = None"
  by (simp_all add: sink_inv_def BufferedWalSink_with_capacity_def sink_stream_def sink_log_empty)

text \<open>C29: append-only export, over a writer that never fails. Whatever records a caller appends to a fresh sink over an in-memory
writer, accepted or rejected, and whenever it flushes, the bytes written and buffered are the magic once and then exactly the frames of the
accepted records in order; their sequence numbers follow each other by one without wrapping, and every accepted payload is within the
bounds. A flush that fails and is repeated is outside the statement: it may write a prefix twice.\<close>
theorem sink_append_only:
  "case run_calls append_record (sink_flush vec_writer) cs (BufferedWalSink_with_capacity [] cap) of (acc, t) \<Rightarrow>
     sk_writer t @ sk_buffer t =
       (if sk_header_emitted t then STREAM_HEADER_MAGIC @ frames (map snd acc) else [])
     \<and> list_all payload_ok (map snd acc)
     \<and> chained None (map fst acc)
     \<and> sk_last_seq t = (if acc = [] then None else Some (fst (last acc)))"
proof -
  obtain acc t where r: "run_calls append_record (sink_flush vec_writer) cs
      (BufferedWalSink_with_capacity [] cap) = (acc, t)" by fastforce
  from vec_sink.run_calls_log[OF fresh_sink(1) r]
  have t: "sink_inv (\<lambda>w. w) t" "sink_log (\<lambda>w. w) t = map snd acc" "chained None (map fst acc)"
    "sk_last_seq t = (if acc = [] then None else Some (fst (last acc)))" by auto
  have "sk_writer t @ sk_buffer t =
       (if sk_header_emitted t then STREAM_HEADER_MAGIC @ frames (map snd acc) else [])"
    using ensure_header_inv[OF t(1)] t(1,2)
    by (auto simp: sink_stream_def ensure_header_def sink_inv_def split: if_splits)
  moreover have "list_all payload_ok (map snd acc)" using ensure_header_inv[OF t(1)] t(2) by simp
  ultimately show ?thesis using r t by simp
qed

section \<open>Export of a whole log\<close>

lemma vec_flush:
  "sink_flush vec_writer s = (Inr (), (ensure_header s)\<lparr>sk_writer := sk_writer (ensure_header s) @ sk_buffer (ensure_header s),
      sk_buffer := []\<rparr>)"
  by (cases "ensure_header s") (auto simp: sink_flush_def vec_writer_def Let_def)

lemma append_overflow:
  assumes "payload_ok b" "\<forall>p. sk_last_seq s = Some p \<longrightarrow> checked_add p 1 = Some q"
  shows "(\<exists>t. append_record q b s = (Inr (), t)) \<or> (\<exists>c n m. append_record q b s = (Inl (BufferOverflow c n m), ensure_header s))"
  unfolding append_record_def validate_length_cases check_seq_cases Let_def using assms by auto

lemma ensure_header_simps [simp]:
  "sk_last_seq (ensure_header s) = sk_last_seq s" "sk_capacity (ensure_header s) = sk_capacity s"
  "sk_header_emitted (ensure_header s)" "ensure_header (ensure_header s) = ensure_header s"
  "sk_header_emitted s \<Longrightarrow> ensure_header s = s"
  by (simp_all add: ensure_header_def)

lemma export_records_succeeds:
  "list_all (\<lambda>r. \<exists>b. enc r = Some b \<and> payload_ok b \<and> 8 + length b \<le> sk_capacity s) rs \<Longrightarrow>
   chained (sk_last_seq s) (map seq_of rs) \<Longrightarrow>
   \<exists>t. export_records append_record (sink_flush vec_writer) seq_of enc rs s = (Inr (), t)"
proof (induction rs arbitrary: s)
  case Nil then show ?case by simp
next
  case (Cons r rs)
  then obtain b where b: "enc r = Some b" "payload_ok b" "8 + length b \<le> sk_capacity s" by auto
  have q: "\<forall>p. sk_last_seq s = Some p \<longrightarrow> checked_add p 1 = Some (seq_of r)" using Cons.prems(2) by auto
  have next': "\<exists>t. export_records append_record (sink_flush vec_writer) seq_of enc rs s' = (Inr (), t)"
    if "sk_capacity s' = sk_capacity s" "sk_last_seq s' = Some (seq_of r)" for s'
    using Cons.IH[of s'] Cons.prems that by simp
  consider (ok) t where "append_record (seq_of r) b s = (Inr () :: unit wal_export_error + unit, t)"
    | (full) c n m where "append_record (seq_of r) b s
        = (Inl (BufferOverflow c n m) :: unit wal_export_error + unit, ensure_header s)"
    using append_overflow[OF b(2) q] by blast
  then show ?case
  proof cases
    case ok
    then have "sk_capacity t = sk_capacity s" "sk_last_seq t = Some (seq_of r)" by (auto simp: append_record_ok)
    then show ?thesis using next'[of t] ok b(1) by simp
  next
    case full
    let ?s2 = "(ensure_header s)\<lparr>sk_writer := sk_writer (ensure_header s) @ sk_buffer (ensure_header s), sk_buffer := []\<rparr>"
    have f: "sink_flush vec_writer (ensure_header s) = (Inr (), ?s2)" using vec_flush[of "ensure_header s"] by simp
    have eh: "ensure_header ?s2 = ?s2" by simp
    obtain t where t: "append_record (seq_of r) b ?s2 = (Inr () :: unit wal_export_error + unit, t)"
      "sk_capacity t = sk_capacity s" "sk_last_seq t = Some (seq_of r)"
      using b q by (simp add: append_record_ok eh)
    then show ?thesis using next'[of t] full f b(1) by (simp add: bnd_def as_sink_error_def)
  qed
qed

lemma export_stream:
  assumes "list_all (\<lambda>r. \<exists>b. enc r = Some b \<and> payload_ok b \<and> 8 + length b \<le> cap) rs"
    and "chained None (map seq_of rs)"
  shows "\<exists>t. wal_to_sink vec_writer seq_of enc rs (BufferedWalSink_with_capacity [] cap) = (Inr (), t)
     \<and> sk_buffer t = [] \<and> list_all payload_ok (map (the \<circ> enc) rs)
     \<and> sk_writer t = STREAM_HEADER_MAGIC @ frames (map (the \<circ> enc) rs)"
proof -
  let ?s = "BufferedWalSink_with_capacity [] cap :: bytes sink"
  obtain t1 where t1: "export_records append_record (sink_flush vec_writer) seq_of enc rs ?s = (Inr (), t1)"
    using export_records_succeeds[of enc ?s rs seq_of] assms by (auto simp: BufferedWalSink_with_capacity_def)
  obtain t where t: "sink_flush vec_writer t1 = (Inr (), t)" "sk_buffer t = []" "sk_header_emitted t"
    by (simp add: vec_flush)
  have w: "wal_to_sink vec_writer seq_of enc rs ?s = (Inr (), t)"
    using t1 t(1) by (simp add: wal_to_sink_def export_all_def bnd_def)
  note log = vec.sink.export_all_log[OF fresh_sink(1) w[unfolded wal_to_sink_def]]
  then have "list_all payload_ok (map (the \<circ> enc) rs)" "sk_writer t = STREAM_HEADER_MAGIC @ frames (map (the \<circ> enc) rs)"
    using ensure_header_inv[of "\<lambda>w. w" t] t by (auto simp: sink_stream_def)
  then show ?thesis using w t by blast
qed

text \<open>C12: export and read back. If every record of a log encodes, to a payload within the bounds whose frame (8 bytes and the
payload) fits the capacity of the sink, and the sequence numbers follow each other by one, then the log is exported completely through a sink of
that capacity over an in-memory writer, which never fails (flushing in mid-stream as often as needed), and the reader returns exactly the
encoded records and ends cleanly. Without a fitting capacity the export reports an error instead.\<close>
theorem export_then_read:
  assumes "list_all (\<lambda>r. \<exists>b. enc r = Some b \<and> payload_ok b \<and> 8 + length b \<le> cap) rs"
    and "chained None (map seq_of rs)"
  shows "\<exists>t. wal_to_sink vec_writer seq_of enc rs (BufferedWalSink_with_capacity [] cap) = (Inr (), t)
     \<and> sk_buffer t = []
     \<and> read_stream (\<lparr>so_bytes = sk_writer t, so_fault = None\<rparr> :: 'io source) = (map (the \<circ> enc) rs, None)"
  using export_stream[OF assms] read_stream_frames[of "map (the \<circ> enc) rs"] by (auto simp: list_all_iff)

lemma export_then_read_witness:
  "\<exists>t. wal_to_sink vec_writer fst (Some \<circ> snd) [(7, [1, 2, 3]), (8, [4])] (BufferedWalSink_with_capacity [] 12) = (Inr (), t)
     \<and> read_stream (\<lparr>so_bytes = sk_writer t, so_fault = None\<rparr> :: unit source) = ([[1, 2, 3], [4]], None)"
  using export_then_read[of "Some \<circ> snd" 12 "[(7, [1, 2, 3]), (8, [4])]" fst]
  by (auto simp: payload_ok_def checked_add_def)

section \<open>A failed flush that is retried\<close>

text \<open>A writer that takes every write but reports an error on its first flush.\<close>
definition flaky_writer :: "(bytes \<times> bool, unit) write_ops" where
  "flaky_writer = \<lparr>wr_write_all = (\<lambda>b (w, bad). (Inr (), (w @ b, bad))),
     wr_flush = (\<lambda>(w, bad). if bad then (Inl (), (w, False)) else (Inr (), (w, False)))\<rparr>"

lemma magic_not_frame: "\<not> starts_with_frame (STREAM_HEADER_MAGIC @ bs)"
  "tail_error f (STREAM_HEADER_MAGIC @ bs) = Some (InvalidFraming (LengthExceedsMax 0x41524B4845585031 MAX_RECORD_BYTES))"
proof -
  have l: "(from_be STREAM_HEADER_MAGIC :: u64) = 0x41524B4845585031" by code_simp
  have t: "take 8 (STREAM_HEADER_MAGIC @ bs) = STREAM_HEADER_MAGIC" "8 \<le> length (STREAM_HEADER_MAGIC @ bs)"
    by (simp_all add: STREAM_HEADER_MAGIC_def)
  show "\<not> starts_with_frame (STREAM_HEADER_MAGIC @ bs)"
    unfolding starts_with_frame_def t(1) l by (simp add: Let_def)
  show "tail_error f (STREAM_HEADER_MAGIC @ bs) = Some (InvalidFraming (LengthExceedsMax 0x41524B4845585031 MAX_RECORD_BYTES))"
    unfolding tail_error_def t(1) l using t(2)
    by (auto simp: Let_def MAX_RECORD_BYTES_def push_bit_eq_mult word_less_nat_alt STREAM_HEADER_MAGIC_def)
qed

text \<open>A flush whose write succeeded but whose inner flush failed keeps its buffer, so retrying it
writes everything again, the header included: the exported stream then reads as its records followed
by a framing error at the second header, and everything after it is lost to the reader.\<close>
theorem flush_retry_duplicates:
  assumes "list_all payload_ok ps" "sk_header_emitted s" "sk_writer s = ([], True)"
    and "sk_buffer s = STREAM_HEADER_MAGIC @ frames ps"
  shows "\<exists>s1 s2. sink_flush flaky_writer s = (Inl (Io ()), s1) \<and> sink_flush flaky_writer s1 = (Inr (), s2)
     \<and> fst (sk_writer s2) = (STREAM_HEADER_MAGIC @ frames ps) @ (STREAM_HEADER_MAGIC @ frames ps)
     \<and> read_stream (\<lparr>so_bytes = fst (sk_writer s2), so_fault = None\<rparr> :: unit source)
         = (ps, Some (InvalidFraming (LengthExceedsMax 0x41524B4845585031 MAX_RECORD_BYTES)))"
proof -
  have ne: "STREAM_HEADER_MAGIC \<noteq> []" by (simp add: STREAM_HEADER_MAGIC_def)
  show ?thesis
    using assms ne read_stream_append[OF assms(1) magic_not_frame(1)[of "frames ps"]]
    by (simp add: sink_flush_def flaky_writer_def Let_def magic_not_frame)
qed

lemma flush_retry_duplicates_witness:
  "\<exists>s1 s2. sink_flush flaky_writer \<lparr>sk_writer = ([], True), sk_buffer = STREAM_HEADER_MAGIC @ frames [[5]],
       sk_capacity = 100, sk_header_emitted = True, sk_last_seq = Some 0\<rparr> = (Inl (Io ()), s1)
     \<and> sink_flush flaky_writer s1 = (Inr (), s2)"
  using flush_retry_duplicates[of "[[5]]" "\<lparr>sk_writer = ([], True), sk_buffer = STREAM_HEADER_MAGIC @ frames [[5]],
       sk_capacity = 100, sk_header_emitted = True, sk_last_seq = Some 0\<rparr>"]
  by (auto simp: payload_ok_def)

end
