(* ===== verification/Kernel_Log.thy ===== *)
theory Kernel_Log
  imports Shuffle_Proof Service WalExport
begin

text \<open>What the two examples share: the kernel with its log, its record type and the codecs, collected as the environment
they run in; the kernel's documented logging; what a dispatch appends and what the export writes; and one concrete kernel.\<close>

section \<open>The environment\<close>

record ('k, 'ext, 'kerr, 'rep, 'cfg, 'r, 'a) log_env =
  de_kernel :: "('k, 'ext, 'kerr, 'rep, 'cfg, 'r list) kernel_api"
  de_postcards :: postcards
  de_config :: 'cfg
  de_system :: caps
  de_canonical :: "'a \<Rightarrow> bytes"
  de_seq :: "'r \<Rightarrow> u64"
  de_encode :: "'r \<Rightarrow> bytes option"
  de_decode :: "bytes \<Rightarrow> 'r option"
  de_submit :: "'r \<Rightarrow> (type_code \<times> bytes) option"
  de_action :: "bytes \<Rightarrow> 'a option"
  de_digest :: digest
  de_xof :: xof

section \<open>The kernel's log\<close>

definition storable :: "('k, 'ext, 'kerr, 'rep, 'cfg, 'r, 'a, 'z) log_env_scheme \<Rightarrow> 'a \<Rightarrow> bool" where
  "storable P a \<longleftrightarrow> length (de_canonical P a) < 2 ^ 20 \<and> de_action P (de_canonical P a) = Some a"

definition encodable :: "('k, 'ext, 'kerr, 'rep, 'cfg, 'r, 'a, 'z) log_env_scheme \<Rightarrow> 'r \<Rightarrow> bool" where
  "encodable P w \<longleftrightarrow> (\<exists>b. de_encode P w = Some b \<and> payload_ok b \<and> de_decode P b = Some w)"

text \<open>The documented behaviour of the kernel: every submission to an instance it created appends one submit record with
the submitted bytes and every step one other record, whatever the action does; records of moderate size encode; the log
is exported whole, with consecutive sequence numbers.\<close>
definition kernel_logs ::
  "('k, 'ext, 'kerr, 'rep, 'cfg, 'r, 'a, 'z) log_env_scheme \<Rightarrow> ('k \<Rightarrow> 'r list) \<Rightarrow> ('k \<Rightarrow> instance_id \<Rightarrow> bool) \<Rightarrow> bool" where
  "kernel_logs P log ready \<longleftrightarrow>
     (\<forall>a b. log (k_new_with_wal (de_kernel P) a b) = [])
   \<and> (\<forall>k tc. log (k_register_action (de_kernel P) k tc) = log k)
   \<and> (\<forall>k cfg. log k = [] \<longrightarrow> log (snd (k_create_instance (de_kernel P) k cfg)) = []
        \<and> ready (snd (k_create_instance (de_kernel P) k cfg)) (fst (k_create_instance (de_kernel P) k cfg)))
   \<and> (\<forall>k i cs t tc b. ready k i \<longrightarrow> (\<exists>k' w. k_submit (de_kernel P) k i System None cs t tc b = (Inr (), k')
        \<and> log k' = log k @ [w] \<and> ready k' i \<and> de_submit P w = Some (tc, b) \<and> (length b < 2 ^ 20 \<longrightarrow> encodable P w)))
   \<and> (\<forall>k i t cs. ready k i \<longrightarrow> (\<exists>w. log (snd (k_step (de_kernel P) k t cs)) = log k @ [w]
        \<and> ready (snd (k_step (de_kernel P) k t cs)) i \<and> de_submit P w = None \<and> encodable P w))
   \<and> (\<forall>k. k_export_wal (de_kernel P) k = Some (log k))
   \<and> (\<forall>k i. ready k i \<and> length (log k) < 2 ^ 64 \<longrightarrow> chained None (map (de_seq P) (log k)))"

lemmas kernel_logsD = kernel_logs_def[THEN iffD1, THEN conjunct1]
  kernel_logs_def[THEN iffD1, THEN conjunct2, THEN conjunct1]
  kernel_logs_def[THEN iffD1, THEN conjunct2, THEN conjunct2, THEN conjunct1, THEN spec, THEN spec, THEN mp]
  kernel_logs_def[THEN iffD1, THEN conjunct2, THEN conjunct2, THEN conjunct2, THEN conjunct1, rule_format]
  kernel_logs_def[THEN iffD1, THEN conjunct2, THEN conjunct2, THEN conjunct2, THEN conjunct2, THEN conjunct1, rule_format]
  kernel_logs_def[THEN iffD1, THEN conjunct2, THEN conjunct2, THEN conjunct2, THEN conjunct2, THEN conjunct2, THEN conjunct1]
  kernel_logs_def[THEN iffD1, THEN conjunct2, THEN conjunct2, THEN conjunct2, THEN conjunct2, THEN conjunct2, THEN conjunct2]

lemma encodable_fits: "encodable P w \<Longrightarrow> \<exists>b. de_encode P w = Some b \<and> payload_ok b \<and> 8 + length b \<le> DEFAULT_CAPACITY"
  unfolding encodable_def DEFAULT_CAPACITY_def payload_ok_def by (elim exE conjE) (intro exI conjI, assumption+, simp)

text \<open>A dispatch without an actor appends the record of the submission and the record of the step.\<close>
lemma dispatch_appends:
  assumes "kernel_logs P log ready" "ready k i" "length b < 2 ^ 20"
  shows "\<exists>k1 w v k'. k_submit (de_kernel P) k i System None cs t tc b = (Inr (), k1)
     \<and> dispatch (de_kernel P) pc i System tc b t cs None k = (Inr (fst (k_step (de_kernel P) k1 t cs)), k')
     \<and> ready k' i \<and> log k' = log k @ [w, v] \<and> encodable P w \<and> encodable P v
     \<and> de_submit P w = Some (tc, b) \<and> de_submit P v = None"
proof -
  obtain k1 w where w: "k_submit (de_kernel P) k i System None cs t tc b = (Inr (), k1)" "log k1 = log k @ [w]" "ready k1 i"
    "de_submit P w = Some (tc, b)" "encodable P w"
    using kernel_logsD(4)[OF assms(1,2)] assms(3) by metis
  obtain v where v: "log (snd (k_step (de_kernel P) k1 t cs)) = log k1 @ [v]" "ready (snd (k_step (de_kernel P) k1 t cs)) i"
    "de_submit P v = None" "encodable P v"
    using kernel_logsD(5)[OF assms(1) w(3)] by metis
  have "dispatch (de_kernel P) pc i System tc b t cs None k = (Inr (fst (k_step (de_kernel P) k1 t cs)), snd (k_step (de_kernel P) k1 t cs))"
    using w(1) by (simp add: dispatch_def admission_gate_def split_beta)
  then show ?thesis using w v by (intro exI[of _ k1] exI[of _ w] exI[of _ v] exI[of _ "snd (k_step (de_kernel P) k1 t cs)"]) simp
qed

text \<open>The fresh service: nothing is logged and the instance is ready.\<close>
lemma fresh_service:
  assumes "kernel_logs P log ready"
    and "k_create_instance (de_kernel P) (k_register_action (de_kernel P) (k_new_with_wal (de_kernel P) a b) tc) cfg = (i, k)"
  shows "log k = [] \<and> ready k i"
  using kernel_logsD(1,2)[OF assms(1)] kernel_logsD(3)[OF assms(1), of "k_register_action (de_kernel P) (k_new_with_wal (de_kernel P) a b) tc" cfg]
    assms(2) by auto

text \<open>The log of a ready kernel exports to the stream of its encoded records.\<close>
lemma export_log:
  assumes "kernel_logs P log ready" "ready k i" "\<forall>w\<in>set (log k). encodable P w" "length (log k) < 2 ^ 64"
  shows "\<exists>t. wal_to_sink vec_writer (de_seq P) (de_encode P) (log k) (BufferedWalSink_new []) = (Inr (), t)
     \<and> sk_writer t = STREAM_HEADER_MAGIC @ frames (map (the \<circ> de_encode P) (log k))"
proof -
  have "list_all (\<lambda>r. \<exists>b. de_encode P r = Some b \<and> payload_ok b \<and> 8 + length b \<le> DEFAULT_CAPACITY) (log k)"
    unfolding list_all_iff by (rule ballI, rule encodable_fits, rule assms(3)[THEN bspec])
  moreover have "chained None (map (de_seq P) (log k))"
    using kernel_logsD(7)[OF assms(1), THEN spec, THEN spec, of k i] assms(2,4) by simp
  ultimately show ?thesis unfolding BufferedWalSink_new_def using export_stream[of "de_encode P" DEFAULT_CAPACITY "log k" "de_seq P"] by blast
qed

section \<open>A concrete kernel\<close>

type_synonym demo_record = "u64 \<times> (type_code \<times> bytes) option"

fun demo_encode :: "demo_record \<Rightarrow> bytes option" where
  "demo_encode (q, None) = Some (0 # be_bytes 8 q)"
| "demo_encode (q, Some (tc, b)) = Some (1 # be_bytes 8 q @ be_bytes 4 tc @ b)"

definition demo_decode :: "bytes \<Rightarrow> demo_record option" where
  "demo_decode bs =
     (if hd bs = 0 then Some (from_be (take 8 (tl bs)), None)
      else Some (from_be (take 8 (tl bs)), Some (from_be (take 4 (drop 8 (tl bs))), drop 12 (tl bs))))"

definition demo_log_kernel :: "(demo_record list, unit, unit, unit, unit, demo_record list) kernel_api" where
  "demo_log_kernel = \<lparr>k_new_with_wal = (\<lambda>_ _. []), k_register_action = (\<lambda>k _. k), k_create_instance = (\<lambda>k _. (1, k)),
     k_instance_view = (\<lambda>_ _. None),
     k_submit = (\<lambda>k _ _ _ _ _ tc b. (Inr (), k @ [(of_nat (length k), Some (tc, b))])),
     k_step = (\<lambda>k _ _. ((), k @ [(of_nat (length k), None)])), k_export_wal = Some, k_InstanceNotFound = ()\<rparr>"

definition demo_log_env :: "'a \<Rightarrow> (demo_record list, unit, unit, unit, unit, demo_record, 'a) log_env" where
  "demo_log_env a = \<lparr>de_kernel = demo_log_kernel, de_postcards = demo_pc, de_config = (), de_system = 1,
     de_canonical = (\<lambda>_. [1]), de_seq = fst, de_encode = demo_encode, de_decode = demo_decode, de_submit = snd,
     de_action = (\<lambda>_. Some a), de_digest = (\<lambda>x. x), de_xof = ones\<rparr>"

lemma demo_encodable: "case snd w of None \<Rightarrow> True | Some (tc, b) \<Rightarrow> length b < 2 ^ 20 \<Longrightarrow> encodable (demo_log_env a) w"
proof -
  assume h: "case snd w of None \<Rightarrow> True | Some (tc, b) \<Rightarrow> length b < 2 ^ 20"
  have n: "from_be (be_bytes 8 q) = (q :: u64)" "from_be (be_bytes 4 c) = (c :: u32)" for q c
    by (simp_all add: from_be_be_bytes)
  obtain q r where w: "w = (q, r)" by (cases w)
  show ?thesis
  proof (cases r)
    case None
    then show ?thesis using n by (simp add: w encodable_def demo_log_env_def demo_decode_def payload_ok_def)
  next
    case (Some x)
    then obtain tc b where x: "r = Some (tc, b)" by (cases x) auto
    then show ?thesis using n h by (simp add: w encodable_def demo_log_env_def demo_decode_def payload_ok_def)
  qed
qed

lemma chained_of_nat:
  "m + n < 2 ^ 64 \<Longrightarrow> chained (if m = 0 then None else Some (of_nat (m - 1))) (map of_nat [m..<m + n])"
proof (induction n arbitrary: m)
  case (Suc n)
  have "chained (Some (of_nat m)) (map of_nat [Suc m..<Suc m + n])" using Suc.IH[of "Suc m"] Suc.prems by simp
  moreover have "checked_add (of_nat (m - 1)) 1 = Some (of_nat m :: u64)" if "m \<noteq> 0"
  proof -
    have "unat (of_nat (m - 1) :: u64) = m - 1" using Suc.prems by (simp add: unat_of_nat take_bit_eq_mod)
    moreover have "of_nat (m - 1) + 1 = (of_nat m :: u64)" using that by (simp add: of_nat_diff)
    ultimately show ?thesis using that Suc.prems by (simp add: checked_add_Some)
  qed
  moreover have "[m..<m + Suc n] = m # [Suc m..<Suc m + n]" by (simp add: upt_conv_Cons)
  ultimately show ?case by (simp del: upt_Suc of_nat_Suc)
qed simp

definition demo_ready :: "demo_record list \<Rightarrow> instance_id \<Rightarrow> bool" where
  "demo_ready k i \<longleftrightarrow> i = 1 \<and> map fst k = map of_nat [0..<length k]"

lemma demo_kernel_logs: "kernel_logs (demo_log_env a) (\<lambda>k. k) demo_ready"
  unfolding kernel_logs_def
proof (intro conjI allI impI)
  fix k :: "demo_record list" and i
  assume "demo_ready k i \<and> length k < 2 ^ 64"
  then show "chained None (map (de_seq (demo_log_env a)) k)"
    using chained_of_nat[of 0 "length k"] by (simp add: demo_ready_def demo_log_env_def)
next
  fix k :: "demo_record list" and i cs t tc b
  assume r: "demo_ready k i"
  let ?w = "(of_nat (length k), Some (tc, b)) :: demo_record"
  have "encodable (demo_log_env a) ?w" if "length b < 2 ^ 20" using that by (intro demo_encodable) simp
  then show "\<exists>k' w. k_submit (de_kernel (demo_log_env a)) k i System None cs t tc b = (Inr (), k')
        \<and> k' = k @ [w] \<and> demo_ready k' i \<and> de_submit (demo_log_env a) w = Some (tc, b)
        \<and> (length b < 2 ^ 20 \<longrightarrow> encodable (demo_log_env a) w)"
    using r by (intro exI[of _ "k @ [?w]"] exI[of _ ?w]) (simp add: demo_log_env_def demo_log_kernel_def demo_ready_def)
next
  fix k :: "demo_record list" and i t cs
  assume r: "demo_ready k i"
  let ?w = "(of_nat (length k), None) :: demo_record"
  have "encodable (demo_log_env a) ?w" by (rule demo_encodable) simp
  then show "\<exists>w. snd (k_step (de_kernel (demo_log_env a)) k t cs) = k @ [w]
        \<and> demo_ready (snd (k_step (de_kernel (demo_log_env a)) k t cs)) i \<and> de_submit (demo_log_env a) w = None
        \<and> encodable (demo_log_env a) w"
    using r by (intro exI[of _ ?w]) (simp add: demo_log_env_def demo_log_kernel_def demo_ready_def)
qed (simp_all add: demo_log_env_def demo_log_kernel_def demo_ready_def)

lemma demo_storable: "storable (demo_log_env a) a"
  by (simp add: storable_def demo_log_env_def)

end
