(* ===== verification/Dice.thy ===== *)
theory Dice
  imports Kernel_Log
begin

text \<open>The dice example \<^verbatim>\<open>examples/dice\<close>: the roll action of \<^verbatim>\<open>action.rs\<close>, the history loader of \<^verbatim>\<open>history.rs\<close>, and
the roll and verify modes of \<^verbatim>\<open>main.rs\<close>, over the service and the stream export of the platform.  The kernel, its
record type and the codecs are parameters, those of \<^verbatim>\<open>log_env\<close>.\<close>

section \<open>The action\<close>

definition DOMAIN_DICE_COMMIT :: bytes where
  "DOMAIN_DICE_COMMIT = map of_char ''arkhe-forge::dice::v1::commit::''"
definition DOMAIN_DICE_COMBINED :: bytes where
  "DOMAIN_DICE_COMBINED = map of_char ''arkhe-forge::dice::v1::combined::''"
definition DOMAIN_DICE_CHAIN :: bytes where
  "DOMAIN_DICE_CHAIN = map of_char ''arkhe-forge::dice::v1::chain::''"

record record_dice_roll =
  dr_schema_version :: u16
  dr_commitment_server :: bytes
  dr_server_seed :: bytes
  dr_user_input :: string
  dr_nonce :: u64
  dr_combined_seed :: bytes
  dr_dice :: bytes

record dice_roll_landed =
  dl_schema_version :: u16
  dl_chain_hash :: bytes
  dl_user_input :: string
  dl_dice :: bytes
  dl_tick :: u64

definition DiceRollLanded :: "dice_roll_landed codec \<Rightarrow> dice_roll_landed arkhe_type" where
  "DiceRollLanded pc = \<lparr>TYPE_CODE = 0x02000002, SCHEMA_VERSION = 2, postcard = pc\<rparr>"

definition input_bytes :: "string \<Rightarrow> bytes" where
  "input_bytes u = map of_char u"

definition commit_hash :: "digest \<Rightarrow> bytes \<Rightarrow> bytes" where
  "commit_hash H s = H (DOMAIN_DICE_COMMIT @ s)"

definition combined_hash :: "digest \<Rightarrow> bytes \<Rightarrow> string \<Rightarrow> u64 \<Rightarrow> bytes" where
  "combined_hash H s u n = H (DOMAIN_DICE_COMBINED @ s @ input_bytes u @ le_bytes 8 n)"

definition anchor_hash :: "digest \<Rightarrow> bytes \<Rightarrow> string \<Rightarrow> bytes" where
  "anchor_hash H dice u = H (DOMAIN_DICE_CHAIN @ dice @ input_bytes u)"

text \<open>Three samples in sequence, each cast to a byte.\<close>
definition roll3 :: "xof \<Rightarrow> bytes \<Rightarrow> bytes option" where
  "roll3 X s =
     Option.bind (gen_range_inclusive rand_u32 X 1 6 (from_seed s)) (\<lambda>(d1, r1).
     Option.bind (gen_range_inclusive rand_u32 X 1 6 r1) (\<lambda>(d2, r2).
     Option.bind (gen_range_inclusive rand_u32 X 1 6 r2) (\<lambda>(d3, r3).
     Some [ucast d1, ucast d2, ucast d3])))"

definition compute_RecordDiceRoll ::
  "digest \<Rightarrow> xof \<Rightarrow> dice_roll_landed codec \<Rightarrow> record_dice_roll \<Rightarrow> 'ext ctx \<Rightarrow> ((action_error + unit) \<times> 'ext ctx) option" where
  "compute_RecordDiceRoll H X pc a c =
     (case ensure_schema_version 2 (dr_schema_version a) c of
        (Inl e, c') \<Rightarrow> Some (Inl e, c')
      | (Inr _, c') \<Rightarrow>
          if commit_hash H (dr_server_seed a) \<noteq> dr_commitment_server a
            then Some (Inl (InvalidInput ''server commitment mismatch''), c')
          else if combined_hash H (dr_server_seed a) (dr_user_input a) (dr_nonce a) \<noteq> dr_combined_seed a
            then Some (Inl (InvalidInput ''combined seed mismatch''), c')
          else map_option (\<lambda>rolled.
            if rolled \<noteq> dr_dice a then (Inl (InvalidInput ''dice mismatch''), c')
            else emit_event (DiceRollLanded pc)
                   \<lparr>dl_schema_version = 2, dl_chain_hash = anchor_hash H (dr_dice a) (dr_user_input a),
                    dl_user_input = dr_user_input a, dl_dice = dr_dice a, dl_tick = cur_tick c'\<rparr> c')
            (roll3 X (dr_combined_seed a)))"

type_synonym ('k, 'ext, 'kerr, 'rep, 'cfg, 'r) dice_env = "('k, 'ext, 'kerr, 'rep, 'cfg, 'r, record_dice_roll) log_env"

section \<open>Loading the history\<close>

datatype 'io open_result = NotFound | OpenFailed 'io | Opened "'io source"

datatype 'io history_error =
    HIo 'io
  | HFraming "'io wal_export_error"
  | HRecordDecode
  | HActionDecode

definition RECORD_DICE_ROLL_TYPE_CODE :: type_code where
  "RECORD_DICE_ROLL_TYPE_CODE = 0x02000001"

text \<open>What one payload contributes: nothing for other records, or an error.\<close>
definition history_entry ::
  "('k, 'ext, 'kerr, 'rep, 'cfg, 'r) dice_env \<Rightarrow> bytes \<Rightarrow> 'io history_error + record_dice_roll option" where
  "history_entry P payload =
     (case de_decode P payload of
        None \<Rightarrow> Inl HRecordDecode
      | Some w \<Rightarrow>
          (case de_submit P w of
             None \<Rightarrow> Inr None
           | Some (tc, action_bytes) \<Rightarrow>
               if tc \<noteq> RECORD_DICE_ROLL_TYPE_CODE then Inr None
               else (case de_action P action_bytes of None \<Rightarrow> Inl HActionDecode | Some a \<Rightarrow> Inr (Some a))))"

function load_loop ::
  "('k, 'ext, 'kerr, 'rep, 'cfg, 'r) dice_env \<Rightarrow> 'io wal_reader \<Rightarrow> record_dice_roll list
     \<Rightarrow> 'io history_error + record_dice_roll list" where
  "load_loop P rd out =
     (case next_record rd of
        (Inl e, _) \<Rightarrow> Inl (HFraming e)
      | (Inr None, _) \<Rightarrow> Inr out
      | (Inr (Some payload), rd') \<Rightarrow>
          (case history_entry P payload of
             Inl e \<Rightarrow> Inl e
           | Inr None \<Rightarrow> load_loop P rd' out
           | Inr (Some a) \<Rightarrow> load_loop P rd' (out @ [a])))"
  by pat_completeness auto
termination
  by (relation "measure (\<lambda>(_, rd, _). length (so_bytes (rd_reader rd)))") (auto dest: next_record_progress[OF sym])

declare load_loop.simps [simp del]

definition load_history ::
  "('k, 'ext, 'kerr, 'rep, 'cfg, 'r) dice_env \<Rightarrow> 'io open_result \<Rightarrow> 'io history_error + record_dice_roll list" where
  "load_history P file =
     (case file of
        NotFound \<Rightarrow> Inr []
      | OpenFailed e \<Rightarrow> Inl (HIo e)
      | Opened src \<Rightarrow> (case open_v1 src of Inl e \<Rightarrow> Inl (HFraming e) | Inr rd \<Rightarrow> load_loop P rd []))"

section \<open>Replaying into a fresh service\<close>

fun replay_loop ::
  "('k, 'ext, 'kerr, 'rep, 'cfg, 'r) dice_env \<Rightarrow> instance_id \<Rightarrow> tick \<Rightarrow> record_dice_roll list
     \<Rightarrow> ('k, 'kerr dispatch_error, tick) act" where
  "replay_loop P inst t [] = ret t"
| "replay_loop P inst t (a # as) =
     bnd (dispatch (de_kernel P) (de_postcards P) inst System RECORD_DICE_ROLL_TYPE_CODE (de_canonical P a) t
            (de_system P) None)
         (\<lambda>_. replay_loop P inst (t + 1) as)"

definition compose_service_with_replay ::
  "('k, 'ext, 'kerr, 'rep, 'cfg, 'r) dice_env \<Rightarrow> record_dice_roll list \<Rightarrow> record_dice_roll option
     \<Rightarrow> 'kerr dispatch_error + 'k" where
  "compose_service_with_replay P prior new =
     (let k = RuntimeService_new (de_kernel P) (replicate 32 0) (replicate 32 0);
          k1 = RuntimeService_register_action (de_kernel P) k RECORD_DICE_ROLL_TYPE_CODE;
          (inst, k2) = RuntimeService_create_instance (de_kernel P) k1 (de_config P)
      in case replay_loop P inst 1 prior k2 of
           (Inl e, _) \<Rightarrow> Inl e
         | (Inr t, k3) \<Rightarrow>
             (case new of
                None \<Rightarrow> Inr k3
              | Some a \<Rightarrow>
                  (case dispatch (de_kernel P) (de_postcards P) inst System RECORD_DICE_ROLL_TYPE_CODE (de_canonical P a)
                          t (de_system P) None k3 of
                     (Inl e, _) \<Rightarrow> Inl e
                   | (Inr _, k4) \<Rightarrow> Inr k4)))"

section \<open>The user's input\<close>

definition MAX_USER_INPUT_BYTES :: nat where "MAX_USER_INPUT_BYTES = 256"
definition MAX_EMPTY_INPUT_ATTEMPTS :: u8 where "MAX_EMPTY_INPUT_ATTEMPTS = 3"

datatype 'io seed_error = StdinIo 'io | StdinClosed | SeedTooLong nat nat | NoSeed u8

definition trim_eol :: "string \<Rightarrow> string" where
  "trim_eol s = rev (dropWhile (\<lambda>c. c = CHR 0x0A \<or> c = CHR 0x0D) (rev s))"

text \<open>The lines standard input still delivers; the empty line without a terminator is its end.\<close>
fun read_attempts :: "u8 \<Rightarrow> nat \<Rightarrow> nat \<Rightarrow> ('io + string) list \<Rightarrow> 'io seed_error + string" where
  "read_attempts ma cap 0 ls = Inl (NoSeed ma)"
| "read_attempts ma cap (Suc n) [] = Inl StdinClosed"
| "read_attempts ma cap (Suc n) (Inl e # ls) = Inl (StdinIo e)"
| "read_attempts ma cap (Suc n) (Inr line # ls) =
     (if line = [] then Inl StdinClosed
      else
        let t = trim_eol line in
        if t = [] then read_attempts ma cap n ls
        else if length t > cap then Inl (SeedTooLong (length t) cap)
        else Inr t)"

definition read_user_seed :: "u8 \<Rightarrow> nat \<Rightarrow> ('io + string) list \<Rightarrow> 'io seed_error + string" where
  "read_user_seed max_attempts max_bytes ls = read_attempts max_attempts max_bytes (unat max_attempts) ls"

section \<open>The two modes\<close>

datatype ('kerr, 'io, 'sio) dice_error =
    DHistory "'io history_error"
  | DEntropy string
  | DSeed "'io seed_error"
  | DDispatch "'kerr dispatch_error"
  | DNoWal
  | DSink "'sio wal_sink_error"
  | DReadBack 'io
  | DVerifyFailed nat nat

definition new_roll :: "digest \<Rightarrow> xof \<Rightarrow> bytes \<Rightarrow> string \<Rightarrow> u64 \<Rightarrow> record_dice_roll option" where
  "new_roll H X server_seed u nonce =
     (let combined = combined_hash H server_seed u nonce in
      map_option (\<lambda>dice.
        \<lparr>dr_schema_version = 2, dr_commitment_server = commit_hash H server_seed, dr_server_seed = server_seed,
         dr_user_input = u, dr_nonce = nonce, dr_combined_seed = combined, dr_dice = dice\<rparr>) (roll3 X combined))"

text \<open>The record rolled and the content of the file after the run, if it was created; \<^term>\<open>None\<close> is a roll that does not
return.\<close>
definition roll_mode ::
  "('k, 'ext, 'kerr, 'rep, 'cfg, 'r) dice_env \<Rightarrow> ('w, 'sio) write_ops \<Rightarrow> 'w \<Rightarrow> 'io open_result \<Rightarrow> string + bytes
     \<Rightarrow> ('io + string) list \<Rightarrow> ((('kerr, 'io, 'sio) dice_error + record_dice_roll) \<times> 'w option) option" where
  "roll_mode P W w0 file entropy stdin =
     (case load_history P file of
        Inl e \<Rightarrow> Some (Inl (DHistory e), None)
      | Inr history \<Rightarrow>
     (case entropy of
        Inl e \<Rightarrow> Some (Inl (DEntropy e), None)
      | Inr server_seed \<Rightarrow>
     (case read_user_seed MAX_EMPTY_INPUT_ATTEMPTS MAX_USER_INPUT_BYTES stdin of
        Inl e \<Rightarrow> Some (Inl (DSeed e), None)
      | Inr u \<Rightarrow>
     map_option (\<lambda>new_record.
       case compose_service_with_replay P history (Some new_record) of
         Inl e \<Rightarrow> (Inl (DDispatch e), None)
       | Inr k \<Rightarrow>
           (case RuntimeService_export_wal (de_kernel P) k of
              None \<Rightarrow> (Inl DNoWal, None)
            | Some wal \<Rightarrow>
                (case wal_to_sink W (de_seq P) (de_encode P) wal (BufferedWalSink_new w0) of
                   (Inl e, s) \<Rightarrow> (Inl (DSink e), Some (sk_writer s))
                 | (Inr _, s) \<Rightarrow> (Inr new_record, Some (sk_writer s)))))
       (new_roll (de_digest P) (de_xof P) server_seed u (of_nat (length history))))))"

text \<open>The in-memory sink cannot fail on its writer; \<^term>\<open>on_disk\<close> is the second read of the file.\<close>
definition verify_mode ::
  "('k, 'ext, 'kerr, 'rep, 'cfg, 'r) dice_env \<Rightarrow> 'io open_result \<Rightarrow> 'io + bytes \<Rightarrow> ('kerr, 'io, unit) dice_error + unit" where
  "verify_mode P file on_disk =
     (case load_history P file of
        Inl e \<Rightarrow> Inl (DHistory e)
      | Inr history \<Rightarrow>
          if history = [] then Inr ()
          else
     (case compose_service_with_replay P history None of
        Inl e \<Rightarrow> Inl (DDispatch e)
      | Inr k \<Rightarrow>
     (case RuntimeService_export_wal (de_kernel P) k of
        None \<Rightarrow> Inl DNoWal
      | Some replayed \<Rightarrow>
     (case wal_to_sink vec_writer (de_seq P) (de_encode P) replayed (BufferedWalSink_new []) of
        (Inl e, _) \<Rightarrow> Inl (DSink e)
      | (Inr _, s) \<Rightarrow>
     (case on_disk of
        Inl e \<Rightarrow> Inl (DReadBack e)
      | Inr bytes \<Rightarrow>
          if sk_writer s = bytes then Inr () else Inl (DVerifyFailed (length (sk_writer s)) (length bytes)))))))"

section \<open>Display\<close>

definition DISPLAY_CAP :: nat where "DISPLAY_CAP = 5"

record display_row =
  ro_user_input :: string
  ro_dice :: bytes
  ro_server_seed :: bytes
  ro_commitment :: bytes
  ro_combined_seed :: bytes
  ro_chain_hash :: bytes

definition from_history_entry :: "digest \<Rightarrow> record_dice_roll \<Rightarrow> display_row" where
  "from_history_entry H r =
     \<lparr>ro_user_input = dr_user_input r, ro_dice = dr_dice r, ro_server_seed = dr_server_seed r,
      ro_commitment = dr_commitment_server r, ro_combined_seed = dr_combined_seed r,
      ro_chain_hash = anchor_hash H (dr_dice r) (dr_user_input r)\<rparr>"

definition from_new :: "record_dice_roll \<Rightarrow> bytes \<Rightarrow> display_row" where
  "from_new r chain =
     \<lparr>ro_user_input = dr_user_input r, ro_dice = dr_dice r, ro_server_seed = dr_server_seed r,
      ro_commitment = dr_commitment_server r, ro_combined_seed = dr_combined_seed r, ro_chain_hash = chain\<rparr>"

text \<open>The rows of a roll run: those of the history and the new one.\<close>
definition roll_rows :: "digest \<Rightarrow> record_dice_roll list \<Rightarrow> record_dice_roll \<Rightarrow> display_row list" where
  "roll_rows H history new_record =
     map (from_history_entry H) history @ [from_new new_record (anchor_hash H (dr_dice new_record) (dr_user_input new_record))]"

text \<open>The rows printed, each with the number shown beside it.\<close>
definition print_history :: "display_row list \<Rightarrow> nat \<Rightarrow> (nat \<times> display_row) list" where
  "print_history rows cap =
     (let start = length rows - cap in map (\<lambda>(i, row). (start + i + 1, row)) (enumerate 0 (drop start rows)))"

definition hex_digit :: "u8 \<Rightarrow> char" where
  "hex_digit d = ''0123456789abcdef'' ! unat d"

definition hex32 :: "bytes \<Rightarrow> string" where
  "hex32 bs = concat (map (\<lambda>b. [hex_digit (b div 16), hex_digit (b mod 16)]) bs)"

text \<open>What is on the screen when the user is asked for input.\<close>
definition stage_1_banner :: "digest \<Rightarrow> bytes \<Rightarrow> string list" where
  "stage_1_banner H server_seed =
     [''[1/5] Server commits seed (BLAKE3 of OS entropy):'',
      ''      server_seed (revealed): '' @ hex32 server_seed,
      ''      commitment:             '' @ hex32 (commit_hash H server_seed)]"

section \<open>Timings\<close>

text \<open>A duration is a number of nanoseconds.\<close>
record stage_timings =
  server_commit :: nat
  combined_seed :: nat
  roll :: nat
  verify_dispatch :: nat
  wal_write :: nat

definition total_compute :: "stage_timings \<Rightarrow> nat" where
  "total_compute t = server_commit t + combined_seed t + roll t + verify_dispatch t + wal_write t"

definition as_micros :: "nat \<Rightarrow> nat" where
  "as_micros d = d div 1000"

definition decimal_digit :: "nat \<Rightarrow> char" where
  "decimal_digit n = ''0123456789'' ! n"

fun decimal :: "nat \<Rightarrow> string" where
  "decimal n = (if n < 10 then [decimal_digit n] else decimal (n div 10) @ [decimal_digit (n mod 10)])"

declare decimal.simps [simp del]

definition format_duration :: "nat \<Rightarrow> string" where
  "format_duration d =
     (let micros = as_micros d in
      if micros \<ge> 1000
      then decimal (micros div 1000) @ ''.'' @ decimal ((micros mod 1000) div 100) @ '' ms''
      else decimal micros @ [CHR '' '', CHR 0xCE, CHR 0xBC, CHR ''s''])"

text \<open>The rolls per second of the summary; \<^term>\<open>None\<close> below the measurement floor.\<close>
definition throughput :: "stage_timings \<Rightarrow> nat option" where
  "throughput t = (let total_micros = as_micros (total_compute t) in if total_micros = 0 then None else Some (1000000 div total_micros))"

section \<open>The command line\<close>

datatype 'io remove_result = Removed | RemoveNotFound | RemoveFailed 'io

text \<open>The line printed, or the error.\<close>
definition reset_mode :: "'io remove_result \<Rightarrow> 'io + string" where
  "reset_mode r =
     (case r of
        Removed \<Rightarrow> Inr ''dice.wal reset.''
      | RemoveNotFound \<Rightarrow> Inr ''dice.wal absent; nothing to reset.''
      | RemoveFailed e \<Rightarrow> Inl e)"

datatype mode = RollMode | ResetMode | VerifyMode

text \<open>The exit code, given what each mode returns.\<close>
definition dice_main :: "string list \<Rightarrow> (mode \<Rightarrow> 'e + unit) \<Rightarrow> nat" where
  "dice_main args run =
     (let mode = (case args of
          [] \<Rightarrow> Some RollMode
        | [s] \<Rightarrow> if s = ''--reset'' then Some ResetMode else if s = ''--verify'' then Some VerifyMode else None
        | _ \<Rightarrow> None)
      in case mode of None \<Rightarrow> 2 | Some md \<Rightarrow> (case run md of Inr _ \<Rightarrow> 0 | Inl _ \<Rightarrow> 1))"

text \<open>The row shown at once is the row a later run shows.\<close>
lemma roll_rows_reload: "roll_rows H history a = map (from_history_entry H) (history @ [a])"
  by (simp add: roll_rows_def from_new_def from_history_entry_def)

lemma print_history_bottom:
  "map snd (print_history rows cap) = drop (length rows - cap) rows"
  "length (print_history rows cap) = min cap (length rows)"
  by (simp_all add: print_history_def Let_def comp_def split_beta)

section \<open>Accepted rolls\<close>

lemma roll3_faces: "roll3 X s = Some dice \<Longrightarrow> length dice = 3 \<and> set dice \<subseteq> {1..6}"
proof -
  have r: "(ucast d :: u8) \<in> {1..6}" if "gen_range_inclusive rand_u32 X 1 6 r = Some (d, r')" "rng_ok X r" for d r r'
  proof -
    have "1 \<le> d \<and> d \<le> 6" using u32.accepted_draw[OF _ that(2,1)] by simp
    then show ?thesis by (simp add: word_le_nat_alt unsigned_ucast_eq take_bit_eq_mod)
  qed
  have ok: "rng_ok X r'" if "gen_range_inclusive rand_u32 X 1 6 r = Some (d, r')" "rng_ok X r" for d r r'
    using u32.accepted_draw[OF _ that(2,1)] by (auto simp: advanced_def)
  assume "roll3 X s = Some dice"
  then obtain d1 r1 d2 r2 d3 r3 where g: "gen_range_inclusive rand_u32 X 1 6 (from_seed s) = Some (d1, r1)"
    "gen_range_inclusive rand_u32 X 1 6 r1 = Some (d2, r2)" "gen_range_inclusive rand_u32 X 1 6 r2 = Some (d3, r3)"
    and dice: "dice = [ucast d1, ucast d2, ucast d3]"
    by (auto simp: roll3_def Option.bind_eq_Some_conv)
  note o1 = ok[OF g(1) rng_ok_from_seed(1)] and o2 = ok[OF g(2) ok[OF g(1) rng_ok_from_seed(1)]]
  show ?thesis using r[OF g(1) rng_ok_from_seed(1)] r[OF g(2) o1] r[OF g(3) o2] by (simp add: dice)
qed

lemma compute_RecordDiceRoll_ok:
  "compute_RecordDiceRoll H X pc a c = Some (Inr (), c') \<longleftrightarrow>
     dr_schema_version a = 2 \<and> dr_commitment_server a = commit_hash H (dr_server_seed a)
     \<and> dr_combined_seed a = combined_hash H (dr_server_seed a) (dr_user_input a) (dr_nonce a)
     \<and> roll3 X (dr_combined_seed a) = Some (dr_dice a)
     \<and> (\<exists>payload. cd_enc pc \<lparr>dl_schema_version = 2, dl_chain_hash = anchor_hash H (dr_dice a) (dr_user_input a),
                              dl_user_input = dr_user_input a, dl_dice = dr_dice a, dl_tick = cur_tick c\<rparr> = Some payload
        \<and> c' = c\<lparr>event_seq := saturating_add (event_seq c) 1,
                 events := events c @ [\<lparr>er_type_code = 0x02000002, er_sequence = event_seq c, er_tick = cur_tick c,
                                        er_payload = payload\<rparr>],
                 ops := ops c @ [EmitEvent None 0x02000002 payload]\<rparr>)"
  by (auto simp: compute_RecordDiceRoll_def ensure_schema_version_apply emit_event_ok DiceRollLanded_def
      split: if_splits)

text \<open>A record that loads, and the rolls a log holds.\<close>
definition loads :: "('k, 'ext, 'kerr, 'rep, 'cfg, 'r) dice_env \<Rightarrow> 'r \<Rightarrow> record_dice_roll option \<Rightarrow> bool" where
  "loads P w o' \<longleftrightarrow> encodable P w \<and> (history_entry P (the (de_encode P w)) :: unit history_error + _) = Inr o'"

fun log_of :: "('k, 'ext, 'kerr, 'rep, 'cfg, 'r) dice_env \<Rightarrow> 'r list \<Rightarrow> record_dice_roll list \<Rightarrow> bool" where
  "log_of P [] as \<longleftrightarrow> as = []"
| "log_of P (w # ws) as \<longleftrightarrow> loads P w None \<and> log_of P ws as
     \<or> (\<exists>a as'. as = a # as' \<and> loads P w (Some a) \<and> log_of P ws as')"

lemma log_of_append: "log_of P ws as \<Longrightarrow> log_of P vs bs \<Longrightarrow> log_of P (ws @ vs) (as @ bs)"
  by (induction ws arbitrary: as) auto

lemma log_of_encodable: "log_of P ws as \<Longrightarrow> \<forall>w\<in>set ws. encodable P w"
  by (induction ws arbitrary: as) (auto simp: loads_def)

lemma loads_submit: "encodable P w \<Longrightarrow> de_submit P w = Some (RECORD_DICE_ROLL_TYPE_CODE, b) \<Longrightarrow> de_action P b = Some a \<Longrightarrow> loads P w (Some a)"
  by (auto simp: loads_def encodable_def history_entry_def)

lemma loads_step: "encodable P w \<Longrightarrow> de_submit P w = None \<Longrightarrow> loads P w None"
  by (auto simp: loads_def encodable_def history_entry_def)

lemma load_loop_log:
  assumes "log_of P ws as" "so_bytes (rd_reader rd) = frames (map (the \<circ> de_encode P) ws)" "so_fault (rd_reader rd) = None"
  shows "load_loop P rd out = Inr (out @ as)"
  using assms
proof (induction ws arbitrary: as rd out)
  case Nil
  then show ?case by (subst load_loop.simps) (simp add: next_record_eof)
next
  case (Cons w ws)
  have "encodable P w" using log_of_encodable[OF Cons.prems(1)] by simp
  then obtain b where b: "de_encode P w = Some b" "payload_ok b" "de_decode P b = Some w" by (auto simp: encodable_def)
  let ?rd = "rd\<lparr>rd_reader := (rd_reader rd)\<lparr>so_bytes := frames (map (the \<circ> de_encode P) ws)\<rparr>,
           rd_cumulative_pos := rd_cumulative_pos rd + 8 + of_nat (length b)\<rparr>"
  have n: "next_record rd = (Inr (Some b), ?rd)"
    using Cons.prems(2) b by (intro next_record_frame) (simp_all add: comp_def)
  have h: "history_entry P b = Inr o'" if "loads P w o'" for o'
    using that b by (auto simp: loads_def history_entry_def split: option.splits if_splits)
  have rd: "so_bytes (rd_reader ?rd) = frames (map (the \<circ> de_encode P) ws)" "so_fault (rd_reader ?rd) = None"
    using Cons.prems(3) by simp_all
  show ?case
    using Cons.prems(1) Cons.IH[OF _ rd] by (subst load_loop.simps) (auto simp: n h)
qed

section \<open>Replay\<close>

lemma dispatch_logs:
  assumes "kernel_logs P log ready" "ready k i" "storable P a"
  shows "\<exists>rep k' ws. dispatch (de_kernel P) (de_postcards P) i System RECORD_DICE_ROLL_TYPE_CODE (de_canonical P a) t
       (de_system P) None k = (Inr rep, k') \<and> ready k' i \<and> log k' = log k @ ws \<and> log_of P ws [a] \<and> length ws = 2"
proof -
  have l: "length (de_canonical P a) < 2 ^ 20" using assms(3) by (simp add: storable_def)
  obtain rep k' w v where wv: "dispatch (de_kernel P) (de_postcards P) i System RECORD_DICE_ROLL_TYPE_CODE (de_canonical P a) t
       (de_system P) None k = (Inr rep, k')" "ready k' i" "log k' = log k @ [w, v]" "encodable P w" "encodable P v"
    "de_submit P w = Some (RECORD_DICE_ROLL_TYPE_CODE, de_canonical P a)" "de_submit P v = None"
    using dispatch_appends[OF assms(1,2) l] by metis
  have "log_of P [w, v] [a]"
    using loads_submit[OF wv(4,6)] loads_step[OF wv(5,7)] assms(3) by (simp add: storable_def)
  then show ?thesis using wv by (intro exI[of _ rep] exI[of _ k'] exI[of _ "[w, v]"]) simp
qed

lemma replay_loop_logs:
  assumes "kernel_logs P log ready" "ready k i" "\<forall>a\<in>set as. storable P a"
  shows "\<exists>k' ws. replay_loop P i t as k = (Inr (t + of_nat (length as)), k') \<and> ready k' i \<and> log k' = log k @ ws
     \<and> log_of P ws as \<and> length ws = 2 * length as"
  using assms(2,3)
proof (induction as arbitrary: k t)
  case (Cons a as)
  obtain rep k1 ws where 1: "dispatch (de_kernel P) (de_postcards P) i System RECORD_DICE_ROLL_TYPE_CODE (de_canonical P a) t
       (de_system P) None k = (Inr rep, k1)" "ready k1 i" "log k1 = log k @ ws" "log_of P ws [a]" "length ws = 2"
    using dispatch_logs[OF assms(1) Cons.prems(1)] Cons.prems(2) by (metis list.set_intros(1))
  obtain k2 vs where 2: "replay_loop P i (t + 1) as k1 = (Inr (t + 1 + of_nat (length as)), k2)" "ready k2 i"
    "log k2 = log k1 @ vs" "log_of P vs as" "length vs = 2 * length as"
    using Cons.IH[OF 1(2)] Cons.prems(2) by (metis list.set_intros(2))
  have "log_of P (ws @ vs) (a # as)" using log_of_append[OF 1(4) 2(4)] by simp
  then show ?case
    using 1 2 by (auto simp: bnd_def add.assoc intro!: exI[of _ "ws @ vs"])
qed (auto intro!: exI[of _ "[]"])

lemma replay_loop_snoc:
  "replay_loop P i t (as @ [a]) k = (case replay_loop P i t as k of
      (Inl e, k') \<Rightarrow> (Inl e, k')
    | (Inr t', k') \<Rightarrow> replay_loop P i t' [a] k')"
  by (induction as arbitrary: t k) (auto simp: bnd_def split: prod.splits sum.splits)

text \<open>Appending the new roll is replaying the longer history.\<close>
lemma compose_snoc: "compose_service_with_replay P prior (Some a) = compose_service_with_replay P (prior @ [a]) None"
  by (auto simp: compose_service_with_replay_def Let_def split_beta replay_loop_snoc bnd_def ret_def
      split: prod.splits sum.splits)

text \<open>A service that has replayed storable rolls exports a stream that loads back to them.\<close>
lemma composed_stream:
  assumes "kernel_logs P log ready" "\<forall>a\<in>set as. storable P a" "2 * length as < 2 ^ 64"
  shows "\<exists>k t. compose_service_with_replay P as None = Inr k
     \<and> wal_to_sink vec_writer (de_seq P) (de_encode P) (log k) (BufferedWalSink_new []) = (Inr (), t)
     \<and> load_history P (Opened \<lparr>so_bytes = sk_writer t, so_fault = None\<rparr> :: 'io open_result) = Inr as"
proof -
  let ?k = "k_register_action (de_kernel P) (k_new_with_wal (de_kernel P) (replicate 32 0) (replicate 32 0)) RECORD_DICE_ROLL_TYPE_CODE"
  obtain i k2 where c: "k_create_instance (de_kernel P) ?k (de_config P) = (i, k2)" by force
  have k2: "ready k2 i" "log k2 = []" using fresh_service[OF assms(1) c] by simp_all
  obtain k ws where k: "replay_loop P i 1 as k2 = (Inr (1 + of_nat (length as)), k)" "ready k i" "log k = ws"
    "log_of P ws as" "length ws = 2 * length as"
    using replay_loop_logs[OF assms(1) k2(1) assms(2), of 1] k2(2) by auto
  have comp: "compose_service_with_replay P as None = Inr k"
    using c k(1) by (simp add: compose_service_with_replay_def Let_def RuntimeService_new_def
        RuntimeService_register_action_def RuntimeService_create_instance_def)
  have "\<forall>w\<in>set (log k). encodable P w" "length (log k) < 2 ^ 64" using k(3,5) log_of_encodable[OF k(4)] assms(3) by simp_all
  from export_log[OF assms(1) k(2) this] k(3)
  obtain t where t: "wal_to_sink vec_writer (de_seq P) (de_encode P) ws (BufferedWalSink_new []) = (Inr (), t)"
    "sk_writer t = STREAM_HEADER_MAGIC @ frames (map (the \<circ> de_encode P) ws)"
    by auto
  have "load_history P (Opened \<lparr>so_bytes = sk_writer t, so_fault = None\<rparr> :: 'io open_result) = Inr as"
    using t(2) load_loop_log[OF k(4), of "\<lparr>rd_reader = \<lparr>so_bytes = frames (map (the \<circ> de_encode P) ws), so_fault = None\<rparr>,
        rd_cumulative_pos = 8, rd_magic = V1\<rparr> :: 'io wal_reader" "[]"]
    by (simp add: load_history_def open_v1_magic)
  then show ?thesis using comp t(1) k(3) by auto
qed

text \<open>Histories grow by one roll and verify. For a kernel that logs what is submitted, a run of the roll mode on a file
that loads to storable rolls, with entropy and an accepted input, writes a file that loads to the old rolls followed by the
new one, in order, and that the verify mode accepts. The rolls of the old file need not be valid ones.\<close>
theorem dice_history_grows:
  assumes "kernel_logs P log ready" "load_history P file = Inr history"
    and "read_user_seed MAX_EMPTY_INPUT_ATTEMPTS MAX_USER_INPUT_BYTES stdin = Inr u"
    and "new_roll (de_digest P) (de_xof P) server_seed u (of_nat (length history)) = Some a"
    and "\<forall>r\<in>set (history @ [a]). storable P r" "2 * length (history @ [a]) < 2 ^ 64"
  shows "\<exists>out. roll_mode P vec_writer [] file (Inr server_seed) stdin = Some (Inr a, Some out)
    \<and> load_history P (Opened \<lparr>so_bytes = out, so_fault = None\<rparr> :: 'io open_result) = Inr (history @ [a])
    \<and> verify_mode P (Opened \<lparr>so_bytes = out, so_fault = None\<rparr> :: 'io open_result) (Inr out) = Inr ()"
proof -
  obtain k t where kt: "compose_service_with_replay P (history @ [a]) None = Inr k"
    "wal_to_sink vec_writer (de_seq P) (de_encode P) (log k) (BufferedWalSink_new []) = (Inr (), t)"
    "load_history P (Opened \<lparr>so_bytes = sk_writer t, so_fault = None\<rparr> :: 'io open_result) = Inr (history @ [a])"
    using composed_stream[OF assms(1,5,6)] by auto
  have e: "k_export_wal (de_kernel P) k = Some (log k)" using kernel_logsD(6)[OF assms(1)] by blast
  show ?thesis
    using assms(2-4) kt e
    by (simp add: roll_mode_def verify_mode_def compose_snoc RuntimeService_export_wal_def)
qed

text \<open>The verify mode does not check the rolls. Any list of storable records whatever, invalid rolls included, is the
content of a file that loads and that the verify mode accepts: a rejected roll is executed as an action without effect, and
replaying it reproduces the stream.\<close>
theorem verify_accepts_any_rolls:
  assumes "kernel_logs P log ready" "\<forall>r\<in>set as. storable P r" "2 * length as < 2 ^ 64"
  shows "\<exists>out. load_history P (Opened \<lparr>so_bytes = out, so_fault = None\<rparr> :: 'io open_result) = Inr as
    \<and> verify_mode P (Opened \<lparr>so_bytes = out, so_fault = None\<rparr> :: 'io open_result) (Inr out) = Inr ()"
proof -
  obtain k t where kt: "compose_service_with_replay P as None = Inr k"
    "wal_to_sink vec_writer (de_seq P) (de_encode P) (log k) (BufferedWalSink_new []) = (Inr (), t)"
    "load_history P (Opened \<lparr>so_bytes = sk_writer t, so_fault = None\<rparr> :: 'io open_result) = Inr as"
    using composed_stream[OF assms] by auto
  have e: "k_export_wal (de_kernel P) k = Some (log k)" using kernel_logsD(6)[OF assms(1)] by blast
  show ?thesis using kt e by (auto simp: verify_mode_def RuntimeService_export_wal_def intro!: exI[of _ "sk_writer t"])
qed

section \<open>The seed is shown before the input is asked for\<close>

lemma hex_digit_inject: "a < 16 \<Longrightarrow> b < 16 \<Longrightarrow> hex_digit a = hex_digit b \<Longrightarrow> a = b"
proof -
  assume "a < 16" "b < 16" "hex_digit a = hex_digit b"
  then have "''0123456789abcdef'' ! unat a = ''0123456789abcdef'' ! unat b" "unat a < 16" "unat b < 16"
    by (simp_all add: hex_digit_def word_less_nat_alt)
  moreover have "distinct ''0123456789abcdef''" "length ''0123456789abcdef'' = 16" by simp_all
  ultimately have "unat a = unat b" by (simp only: nth_eq_iff_index_eq)
  then show "a = b" by (simp add: word_unat_eq_iff)
qed

lemma hex_byte_inject: "hex_digit (a div 16) = hex_digit (b div 16) \<Longrightarrow> hex_digit (a mod 16) = hex_digit (b mod 16) \<Longrightarrow> a = b"
proof -
  have lt: "c div 16 < 16" "c mod 16 < 16" for c :: u8
  proof -
    have "unat c < 2 ^ LENGTH(8)" by (rule unsigned_less)
    then show "c div 16 < 16" "c mod 16 < 16" by (simp_all add: word_less_nat_alt unat_div unat_mod less_mult_imp_div_less)
  qed
  assume "hex_digit (a div 16) = hex_digit (b div 16)" "hex_digit (a mod 16) = hex_digit (b mod 16)"
  then have "a div 16 = b div 16" "a mod 16 = b mod 16" using hex_digit_inject lt by blast+
  then show "a = b" by (metis div_mult_mod_eq)
qed

lemma hex32_inject: "hex32 a = hex32 b \<Longrightarrow> a = b"
proof (induction a arbitrary: b)
  case Nil
  then show ?case by (cases b) (simp_all add: hex32_def)
next
  case (Cons x xs)
  then show ?case by (cases b) (auto simp: hex32_def intro: hex_byte_inject)
qed

text \<open>From what is on the screen the user can compute the dice every input would give, before giving it.\<close>
lemma dice_predictable:
  "\<exists>predict. \<forall>server_seed u nonce.
     predict (stage_1_banner H server_seed) u nonce = map_option dr_dice (new_roll H X server_seed u nonce)"
proof -
  have inj: "stage_1_banner H a = stage_1_banner H b \<Longrightarrow> a = b" for a b
    by (simp add: stage_1_banner_def hex32_inject)
  have "inv (stage_1_banner H) (stage_1_banner H s) = s" for s
    using inj by (intro inv_f_f injI)
  then show ?thesis
    by (intro exI[of _ "\<lambda>b u nonce. map_option dr_dice (new_roll H X (inv (stage_1_banner H) b) u nonce)"]) simp
qed

section \<open>Concrete runs\<close>

lemma ones_returns_u32:
  assumes "rng_ok ones r"
  shows "\<exists>j r'. gen_range_inclusive rand_u32 ones 1 6 r = Some (j, r') \<and> rng_ok ones r'"
proof -
  have "from_le (replicate 4 (- 1)) = (- 1 :: u32)" by code_simp
  moreover have "stream ones r 0 4 = replicate 4 (- 1)"
    by (simp add: stream_def ones_def map_replicate_const)
  ultimately have "draw ones r 0 = (- 1 :: u32)" by (simp add: draw_def)
  then have d: "inclusive_draw (1 :: u32) 6 (draw ones r 0 :: u32) \<noteq> None"
    using ones_accepted by (auto simp: inclusive_draw_def)
  have le: "(1 :: u32) \<le> 6" by simp
  from u32.returns[OF le assms d] obtain j r' where jr: "gen_range_inclusive rand_u32 ones 1 6 r = Some (j, r')" by auto
  then show ?thesis using u32.accepted_draw[OF le assms jr] by (auto simp: advanced_def)
qed

lemma ones_roll3: "\<exists>dice. roll3 ones s = Some dice"
proof -
  obtain d1 r1 where 1: "gen_range_inclusive rand_u32 ones 1 6 (from_seed s) = Some (d1, r1)" "rng_ok ones r1"
    using ones_returns_u32[OF rng_ok_from_seed(1)] by blast
  obtain d2 r2 where 2: "gen_range_inclusive rand_u32 ones 1 6 r1 = Some (d2, r2)" "rng_ok ones r2"
    using ones_returns_u32[OF 1(2)] by blast
  obtain d3 r3 where "gen_range_inclusive rand_u32 ones 1 6 r2 = Some (d3, r3)"
    using ones_returns_u32[OF 2(2)] by blast
  with 1 2 show ?thesis by (simp add: roll3_def)
qed

theorem dice_history_grows_witness:
  "\<exists>a out. roll_mode (demo_log_env a) vec_writer [] (NotFound :: unit open_result) (Inr [1]) [Inr ''hi'']
       = Some (Inr a, Some out)
     \<and> load_history (demo_log_env a) (Opened \<lparr>so_bytes = out, so_fault = None\<rparr> :: unit open_result) = Inr [a]"
proof -
  obtain dice where "roll3 ones (combined_hash (\<lambda>x. x) [1] ''hi'' 0) = Some dice" using ones_roll3 by blast
  then obtain a where a: "new_roll (\<lambda>x. x) ones [1] ''hi'' 0 = Some a" by (simp add: new_roll_def)
  have s: "read_user_seed MAX_EMPTY_INPUT_ATTEMPTS MAX_USER_INPUT_BYTES [Inr ''hi''] = Inr ''hi''"
  proof -
    have "unat MAX_EMPTY_INPUT_ATTEMPTS = Suc 2" by (simp add: MAX_EMPTY_INPUT_ATTEMPTS_def)
    then show ?thesis by (simp add: read_user_seed_def MAX_USER_INPUT_BYTES_def trim_eol_def numeral_3_eq_3)
  qed
  have l: "load_history (demo_log_env a) (NotFound :: unit open_result) = Inr []" by (simp add: load_history_def)
  have "new_roll (de_digest (demo_log_env a)) (de_xof (demo_log_env a)) [1] ''hi'' (of_nat (length [])) = Some a"
    using a by (simp add: demo_log_env_def)
  from dice_history_grows[OF demo_kernel_logs l s this] demo_storable show ?thesis by fastforce
qed

definition forged_roll :: record_dice_roll where
  "forged_roll = \<lparr>dr_schema_version = 2, dr_commitment_server = [], dr_server_seed = [1], dr_user_input = ''hi'',
     dr_nonce = 0, dr_combined_seed = [], dr_dice = [6, 6, 6]\<rparr>"

theorem verify_accepts_any_rolls_witness:
  "compute_RecordDiceRoll (\<lambda>x. x) ones \<lparr>cd_enc = \<lambda>_. Some [], cd_dec = \<lambda>_. None\<rparr> forged_roll demo_ctx
       = Some (Inl (InvalidInput ''server commitment mismatch''), demo_ctx)
   \<and> (\<exists>out. load_history (demo_log_env forged_roll) (Opened \<lparr>so_bytes = out, so_fault = None\<rparr> :: unit open_result)
         = Inr [forged_roll]
       \<and> verify_mode (demo_log_env forged_roll) (Opened \<lparr>so_bytes = out, so_fault = None\<rparr> :: unit open_result) (Inr out) = Inr ())"
proof
  show "compute_RecordDiceRoll (\<lambda>x. x) ones \<lparr>cd_enc = \<lambda>_. Some [], cd_dec = \<lambda>_. None\<rparr> forged_roll demo_ctx
       = Some (Inl (InvalidInput ''server commitment mismatch''), demo_ctx)"
    by (simp add: compute_RecordDiceRoll_def forged_roll_def ensure_schema_version_apply commit_hash_def)
  show "\<exists>out. load_history (demo_log_env forged_roll) (Opened \<lparr>so_bytes = out, so_fault = None\<rparr> :: unit open_result)
         = Inr [forged_roll]
       \<and> verify_mode (demo_log_env forged_roll) (Opened \<lparr>so_bytes = out, so_fault = None\<rparr> :: unit open_result) (Inr out) = Inr ()"
    by (rule verify_accepts_any_rolls[OF demo_kernel_logs]) (simp_all add: demo_storable)
qed

end
