(* ===== verification/Hand_Demo.thy ===== *)
theory Hand_Demo
  imports Kernel_Log
begin

text \<open>The demonstration of \<^verbatim>\<open>examples/card_primitives/src/main.rs\<close>: its nine stages, from the dealer's commitment to the
records read back from the exported stream.  An \<^verbatim>\<open>expect\<close>, an \<^verbatim>\<open>unwrap\<close> or an \<^verbatim>\<open>assert\<close> that fails is a panic.  Around the
environment of \<^verbatim>\<open>log_env\<close> it uses the event codec, the hash a log record ends with and the number of actions of a report.\<close>

section \<open>The stages\<close>

record ('k, 'ext, 'kerr, 'rep, 'cfg, 'r) hand_env = "('k, 'ext, 'kerr, 'rep, 'cfg, 'r, record_hand_showdown) log_env" +
  he_event :: "hand_showdown_landed codec"
  he_chain_hash :: "'r \<Rightarrow> bytes"
  he_executed :: "'rep \<Rightarrow> nat"

definition demo_seed :: bytes where
  "demo_seed = map (\<lambda>i. of_nat i * 17 + 3) [0..<32]"

definition RECORD_HAND_SHOWDOWN_TYPE_CODE :: type_code where
  "RECORD_HAND_SHOWDOWN_TYPE_CODE = 0x01000001"

text \<open>Stage 5: the order of the receipt, and a local replay of the shuffle.\<close>
definition audience_verification ::
  "digest \<Rightarrow> xof \<Rightarrow> shuffle_commitment \<Rightarrow> bytes \<Rightarrow> showdown_receipt \<Rightarrow> ((proof_error + unit) \<times> (proof_error + unit)) option" where
  "audience_verification H X commitment s receipt =
     Option.bind (verify_shuffle_order H X commitment s (deck_order receipt)) (\<lambda>a.
     Option.bind (Deck_shuffle X Deck_standard (from_seed s)) (\<lambda>(replay, _).
     map_option (\<lambda>b. (a, b)) (verify_shuffle H X commitment s replay)))"

text \<open>Stage 6: the action through the L1 pipeline; the compute body runs on the context as it is, or does not return.
The result is the anchor of the event, \<^term>\<open>None\<close> when the pipeline reported an error.\<close>
definition l1_ctx :: "caps \<Rightarrow> 'ext ctx" where
  "l1_ctx SYS = ActionContext_new (replicate 32 0x11) 1 0 System SYS"

definition l1_pipeline ::
  "('k, 'ext, 'kerr, 'rep, 'cfg, 'r) hand_env \<Rightarrow> record_hand_showdown \<Rightarrow> showdown_receipt \<Rightarrow> (string + bytes option) option" where
  "l1_pipeline P action receipt =
     map_option (\<lambda>r.
       case process_action (\<lambda>_. r) (l1_ctx (de_system P) :: 'ext ctx) of
         (Inl e, _) \<Rightarrow> Inr None
       | (Inr es, _) \<Rightarrow>
           if length es \<noteq> 1 then Inl ''exactly one HandShowdownLanded expected''
           else if er_type_code (es ! 0) \<noteq> TYPE_CODE (HandShowdownLanded (he_event P))
             then Inl ''drained Event must be HandShowdownLanded''
           else
             (case cd_dec (he_event P) (er_payload (es ! 0)) of
                None \<Rightarrow> Inl ''payload is a valid HandShowdownLanded''
              | Some landed \<Rightarrow>
                  if hsl_chain_hash landed \<noteq> chain_hash (de_digest P) receipt
                  then Inl ''Action-emitted chain_hash must match audience-side ShowdownReceipt::chain_hash()''
                  else Inr (Some (hsl_chain_hash landed))))
       (compute_RecordHandShowdown (de_digest P) (de_xof P) (he_event P) action (l1_ctx (de_system P) :: 'ext ctx))"

text \<open>Stage 7: the action through the service.\<close>
definition l2_dispatch :: "('k, 'ext, 'kerr, 'rep, 'cfg, 'r) hand_env \<Rightarrow> record_hand_showdown \<Rightarrow> string + ('rep \<times> 'k)" where
  "l2_dispatch P action =
     (let k = RuntimeService_new (de_kernel P) (replicate 32 0x11) (replicate 32 0x22);
          k1 = RuntimeService_register_action (de_kernel P) k RECORD_HAND_SHOWDOWN_TYPE_CODE;
          (inst, k2) = RuntimeService_create_instance (de_kernel P) k1 (de_config P)
      in case dispatch (de_kernel P) (de_postcards P) inst System RECORD_HAND_SHOWDOWN_TYPE_CODE (de_canonical P action) 1
                (de_system P) None k2 of
           (Inl _, _) \<Rightarrow> Inl ''dispatch must succeed''
         | (Inr report, k3) \<Rightarrow>
             if he_executed P report \<noteq> 1 then Inl ''exactly one action executes per submit+step pair'' else Inr (report, k3))"

text \<open>Stage 8: the log, its tip and the exported bytes.\<close>
definition wal_export ::
  "('k, 'ext, 'kerr, 'rep, 'cfg, 'r) hand_env \<Rightarrow> 'k \<Rightarrow> string + ('r list \<times> bytes \<times> bytes)" where
  "wal_export P k =
     (case RuntimeService_export_wal (de_kernel P) k of
        None \<Rightarrow> Inl ''WAL is configured''
      | Some wal \<Rightarrow>
          if length wal \<noteq> 2 then Inl ''one dispatch -> one Submit + Step record pair''
          else
            let chain_tip = (if wal = [] then replicate 32 0 else he_chain_hash P (last wal)) in
            case wal_to_sink vec_writer (de_seq P) (de_encode P) wal (BufferedWalSink_new []) of
              (Inl _, _) \<Rightarrow> Inl ''wal_to_sink must succeed''
            | (Inr _, t) \<Rightarrow> Inr (wal, chain_tip, sk_writer t))"

text \<open>Stage 9: the records read back, each the encoding of the original.\<close>
definition round_trip ::
  "('k, 'ext, 'kerr, 'rep, 'cfg, 'r) hand_env \<Rightarrow> 'r list \<Rightarrow> bytes \<Rightarrow> string + bytes list" where
  "round_trip P wal buffer =
     (case open_v1 (\<lparr>so_bytes = buffer, so_fault = None\<rparr> :: unit source) of
        Inl _ \<Rightarrow> Inl ''stream header `ARKHEXP1` must decode''
      | Inr reader \<Rightarrow>
     (case read_all reader of
        (_, Some _, _) \<Rightarrow> Inl ''framed record must decode''
      | (recovered, None, _) \<Rightarrow>
          if length recovered \<noteq> length wal then Inl ''reader recovered the same record count''
          else if list_ex (\<lambda>(orig, back). de_encode P orig = None) (zip wal recovered) then Inl ''re-encode original''
          else if list_ex (\<lambda>(orig, back). de_encode P orig \<noteq> Some back) (zip wal recovered)
            then Inl ''record must round-trip byte-identical''
          else Inr recovered))"

record ('rep, 'r) demo_run =
  run_receipt :: showdown_receipt
  run_verified :: "(proof_error + unit) \<times> (proof_error + unit)"
  run_anchor :: "bytes option"
  run_report :: 'rep
  run_wal :: "'r list"
  run_chain_tip :: bytes
  run_recovered :: "bytes list"

text \<open>The whole program: \<^term>\<open>None\<close> is a shuffle that does not return, a left value the first panic.\<close>
definition demo_main :: "('k, 'ext, 'kerr, 'rep, 'cfg, 'r) hand_env \<Rightarrow> (string + ('rep, 'r) demo_run) option" where
  "demo_main P =
     (let H = de_digest P; X = de_xof P; commitment = commit_seed H demo_seed in
      Option.bind (play_hand X demo_seed) (\<lambda>(_, _, receipt).
      Option.bind (audience_verification H X commitment demo_seed receipt) (\<lambda>verified.
      let action = showdown_action H demo_seed receipt in
      map_option (\<lambda>l1. case l1 of
          Inl panic \<Rightarrow> Inl panic
        | Inr anchor \<Rightarrow>
     (case l2_dispatch P action of
          Inl panic \<Rightarrow> Inl panic
        | Inr (report, k) \<Rightarrow>
     (case wal_export P k of
          Inl panic \<Rightarrow> Inl panic
        | Inr (wal, tip, buffer) \<Rightarrow>
     (case round_trip P wal buffer of
          Inl panic \<Rightarrow> Inl panic
        | Inr recovered \<Rightarrow>
            Inr \<lparr>run_receipt = receipt, run_verified = verified, run_anchor = anchor, run_report = report, run_wal = wal,
                 run_chain_tip = tip, run_recovered = recovered\<rparr>))))
        (l1_pipeline P action receipt))))"

section \<open>The demonstration runs to its end\<close>

lemma play_hand_verified:
  assumes "play_hand X s = Some (p1, p2, r)"
  shows "audience_verification H X (commit_seed H s) s r = Some (Inr (), Inr ())"
proof -
  obtain d rng where d: "Deck_shuffle X Deck_standard (from_seed s) = Some (d, rng)" "deck_order r = deck_bytes d"
    using play_hand_deck[OF assms] by metis
  have "verify_shuffle_order H X (commit_seed H s) s (deck_order r) = Some (Inr ())"
    "verify_shuffle H X (commit_seed H s) s d = Some (Inr ())"
    using d d(2)[symmetric] unfolding verify_shuffle_order_ok verify_shuffle_ok by blast+
  then show ?thesis using d(1) by (simp add: audience_verification_def)
qed

lemma honest_hand_event:
  assumes "play_hand X s = Some (p1, p2, r)"
    and "cd_enc pc \<lparr>hsl_schema_version = 1, hsl_chain_hash = chain_hash H r\<rparr> = Some payload"
  shows "\<exists>c'. compute_RecordHandShowdown H X pc (showdown_action H s r) c = Some (Inr (), c')
      \<and> events c' = events c @ [\<lparr>er_type_code = 0x01000002, er_sequence = event_seq c, er_tick = cur_tick c, er_payload = payload\<rparr>]"
proof -
  obtain d rng where d: "Deck_shuffle X Deck_standard (from_seed s) = Some (d, rng)" "deck_order r = deck_bytes d"
    using play_hand_deck[OF assms(1)] by metis
  then have "verify_shuffle_order H X (commit_seed H s) s (deck_order r) = Some (Inr ())"
    unfolding verify_shuffle_order_ok using d(2)[symmetric] by blast
  then show ?thesis using assms(2)
    by (simp add: compute_RecordHandShowdown_def showdown_action_def ensure_schema_version_apply emit_event_def
        HandShowdownLanded_def chain_hash_def)
qed

lemma l1_pipeline_anchors:
  fixes P :: "('k, 'ext, 'kerr, 'rep, 'cfg, 'r) hand_env"
  assumes "play_hand (de_xof P) s = Some (p1, p2, r)" "codec_ok (he_event P)" "codec_total (he_event P)" "de_system P \<noteq> 0"
  shows "l1_pipeline P (showdown_action (de_digest P) s r) r = Some (Inr (Some (chain_hash (de_digest P) r)))"
proof -
  let ?c = "l1_ctx (de_system P) :: 'ext ctx"
  let ?e = "\<lparr>hsl_schema_version = 1, hsl_chain_hash = chain_hash (de_digest P) r\<rparr>"
  obtain payload where p: "cd_enc (he_event P) ?e = Some payload" using assms(3) by (auto simp: codec_total_def)
  have c: "caps ?c = de_system P" "events ?c = []" by (simp_all add: l1_ctx_def ActionContext_new_def)
  obtain c' where c': "compute_RecordHandShowdown (de_digest P) (de_xof P) (he_event P) (showdown_action (de_digest P) s r) ?c = Some (Inr (), c')"
    "events c' = [\<lparr>er_type_code = 0x01000002, er_sequence = event_seq ?c, er_tick = cur_tick ?c, er_payload = payload\<rparr>]"
    using honest_hand_event[OF assms(1) p, of ?c] c(2) by auto
  have "process_action (\<lambda>_. (Inr (), c')) ?c = (Inr (events c'), c'\<lparr>events := []\<rparr>)"
    using c(1) assms(4) by (simp add: process_action_def ensure_caps_def drain_events_def bnd_def)
  then show ?thesis
    unfolding l1_pipeline_def c'(1) option.map using codec_okD[OF assms(2) p] by (simp add: c'(2) HandShowdownLanded_def)
qed

lemma round_trip_frames:
  assumes "\<forall>w\<in>set wal. encodable P w"
  shows "round_trip P wal (STREAM_HEADER_MAGIC @ frames (map (the \<circ> de_encode P) wal)) = Inr (map (the \<circ> de_encode P) wal)"
proof -
  have ok: "\<forall>p\<in>set (map (the \<circ> de_encode P) wal). payload_ok p" and some: "\<forall>w\<in>set wal. de_encode P w = Some (the (de_encode P w))"
    using assms by (auto simp: encodable_def)
  obtain rd rd' where rd: "open_v1 (\<lparr>so_bytes = STREAM_HEADER_MAGIC @ frames (map (the \<circ> de_encode P) wal), so_fault = None\<rparr> :: unit source) = Inr rd"
    "read_all rd = (map (the \<circ> de_encode P) wal, None, rd')"
    using read_stream_frames[OF ok, where 'io = unit] by (auto simp: read_stream_def Let_def split: sum.splits prod.splits)
  have z: "list_ex Q (zip wal (map f wal)) = list_ex (\<lambda>w. Q (w, f w)) wal" for Q f
    by (induction wal) auto
  have "list_ex (\<lambda>(orig, back). de_encode P orig = None) (zip wal (map (the \<circ> de_encode P) wal)) = False"
    "list_ex (\<lambda>(orig, back). de_encode P orig \<noteq> Some back) (zip wal (map (the \<circ> de_encode P) wal)) = False"
    unfolding z using some by (auto simp: list_ex_iff)
  then show ?thesis by (simp add: round_trip_def rd)
qed

text \<open>The documented execution of the kernel: an action is executed when scheduled if its type was registered. Registering and creating
instances schedule nothing; submitting the bytes of an action under the registered code \<^verbatim>\<open>tc\<close> schedules one execution at its tick; the
report of a step counts what was due at its tick. Of other codes and of bytes that do not decode nothing is said.\<close>
definition kernel_schedules ::
  "('k, 'ext, 'kerr, 'rep, 'cfg, 'r) hand_env \<Rightarrow> type_code \<Rightarrow> ('k \<Rightarrow> bool) \<Rightarrow> ('k \<Rightarrow> tick \<Rightarrow> nat) \<Rightarrow> bool" where
  "kernel_schedules P tc registered due \<longleftrightarrow>
     (\<forall>a b t. due (k_new_with_wal (de_kernel P) a b) t = 0)
   \<and> (\<forall>k c t. due (k_register_action (de_kernel P) k c) t = due k t)
   \<and> (\<forall>k. registered (k_register_action (de_kernel P) k tc))
   \<and> (\<forall>k cfg t. due (snd (k_create_instance (de_kernel P) k cfg)) t = due k t)
   \<and> (\<forall>k cfg. registered k \<longrightarrow> registered (snd (k_create_instance (de_kernel P) k cfg)))
   \<and> (\<forall>k i cs at b k' t. registered k \<and> de_action P b \<noteq> None \<and> k_submit (de_kernel P) k i System None cs at tc b = (Inr (), k')
        \<longrightarrow> due k' t = due k t + (if at \<le> t then 1 else 0))
   \<and> (\<forall>k t cs. he_executed P (fst (k_step (de_kernel P) k t cs)) = due k t)"

lemma first_submission_executes:
  assumes "kernel_schedules P tc registered due" "de_action P b \<noteq> None"
    and "k = snd (k_create_instance (de_kernel P) (k_register_action (de_kernel P) (k_new_with_wal (de_kernel P) x y) tc) cfg)"
    and "k_submit (de_kernel P) k i System None cs at tc b = (Inr (), k1)"
  shows "he_executed P (fst (k_step (de_kernel P) k1 at cs')) = 1"
proof -
  have "registered k" "due k at = 0" using assms(1) by (simp_all add: kernel_schedules_def assms(3))
  then have "due k1 at = 1" using assms(1,2,4) unfolding kernel_schedules_def by fastforce
  then show ?thesis using assms(1) by (simp add: kernel_schedules_def)
qed

text \<open>The last three stages, for any action whose bytes fit the log.\<close>
lemma service_stages:
  assumes "kernel_logs P log ready" "kernel_schedules P RECORD_HAND_SHOWDOWN_TYPE_CODE registered due" "storable P a"
  obtains report k w v where "l2_dispatch P a = Inr (report, k)" "he_executed P report = 1"
    "wal_export P k = Inr ([w, v], he_chain_hash P v, STREAM_HEADER_MAGIC @ frames (map (the \<circ> de_encode P) [w, v]))"
    "round_trip P [w, v] (STREAM_HEADER_MAGIC @ frames (map (the \<circ> de_encode P) [w, v])) = Inr (map (the \<circ> de_encode P) [w, v])"
    "de_submit P w = Some (RECORD_HAND_SHOWDOWN_TYPE_CODE, de_canonical P a)" "encodable P w" "encodable P v"
proof -
  let ?k = "k_register_action (de_kernel P) (k_new_with_wal (de_kernel P) (replicate 32 0x11) (replicate 32 0x22)) RECORD_HAND_SHOWDOWN_TYPE_CODE"
  obtain i k where c: "k_create_instance (de_kernel P) ?k (de_config P) = (i, k)" by force
  have k: "log k = []" "ready k i" using fresh_service[OF assms(1) c] by simp_all
  obtain k1 w v k' where d: "k_submit (de_kernel P) k i System None (de_system P) 1 RECORD_HAND_SHOWDOWN_TYPE_CODE (de_canonical P a) = (Inr (), k1)"
    "dispatch (de_kernel P) (de_postcards P) i System RECORD_HAND_SHOWDOWN_TYPE_CODE (de_canonical P a) 1 (de_system P) None k
       = (Inr (fst (k_step (de_kernel P) k1 1 (de_system P))), k')"
    "ready k' i" "log k' = [w, v]" "encodable P w" "encodable P v"
    "de_submit P w = Some (RECORD_HAND_SHOWDOWN_TYPE_CODE, de_canonical P a)"
    using dispatch_appends[OF assms(1) k(2) conjunct1[OF assms(3)[unfolded storable_def]], of "de_system P" 1 RECORD_HAND_SHOWDOWN_TYPE_CODE "de_postcards P"] k(1) by auto
  let ?rep = "fst (k_step (de_kernel P) k1 1 (de_system P))"
  have x: "he_executed P ?rep = 1"
    by (rule first_submission_executes[where x = "replicate 32 0x11" and y = "replicate 32 0x22" and cfg = "de_config P", OF assms(2) _ _ d(1)]) (use assms(3) c in \<open>simp_all add: storable_def\<close>)
  then have l2: "l2_dispatch P a = Inr (?rep, k')"
    using c d(2) by (simp add: l2_dispatch_def Let_def RuntimeService_new_def RuntimeService_register_action_def RuntimeService_create_instance_def)
  have enc: "\<forall>w\<in>set (log k'). encodable P w" using d(4,5,6) by simp
  obtain t where t: "wal_to_sink vec_writer (de_seq P) (de_encode P) (log k') (BufferedWalSink_new []) = (Inr (), t)"
    "sk_writer t = STREAM_HEADER_MAGIC @ frames (map (the \<circ> de_encode P) (log k'))"
    using export_log[OF assms(1) d(3) enc] d(4) by auto
  have "k_export_wal (de_kernel P) k' = Some (log k')" using kernel_logsD(6)[OF assms(1)] by blast
  then have ex: "wal_export P k' = Inr ([w, v], he_chain_hash P v, sk_writer t)"
    using t(1) d(4) by (simp add: wal_export_def RuntimeService_export_wal_def)
  show thesis
    by (rule that[OF l2 x ex[unfolded t(2) d(4)] round_trip_frames[OF enc, unfolded d(4)] d(7,5,6)])
qed

text \<open>C22: the demonstration runs to its end. For a kernel that logs what is submitted and executes at a step the decodable actions of the
registered type that are due, codecs that encode, an action whose bytes decode and fit the log, and any hash and seed expansion: if the
shuffle returns then no assertion of the nine stages fails, the audience's checks pass, the event of the pipeline and the receipt have the
same anchor, and the records read back are the encodings of the two records of the log.\<close>
theorem demo_runs_to_end:
  assumes "kernel_logs P log ready" "play_hand (de_xof P) demo_seed = Some (p1, p2, r)"
    and "codec_ok (he_event P)" "codec_total (he_event P)" "de_system P \<noteq> 0"
    and "kernel_schedules P RECORD_HAND_SHOWDOWN_TYPE_CODE registered due"
    and "storable P (showdown_action (de_digest P) demo_seed r)"
  shows "\<exists>run. demo_main P = Some (Inr run) \<and> run_receipt run = r \<and> hand_rank r = max (evaluate_7 p1) (evaluate_7 p2)
     \<and> run_verified run = (Inr (), Inr ()) \<and> run_anchor run = Some (chain_hash (de_digest P) r)
     \<and> length (run_wal run) = 2 \<and> map Some (run_recovered run) = map (de_encode P) (run_wal run)"
proof -
  let ?a = "showdown_action (de_digest P) demo_seed r"
  from service_stages[OF assms(1,6,7)] obtain report k w v where
    l2: "l2_dispatch P ?a = Inr (report, k)" and ex: "wal_export P k = Inr ([w, v], he_chain_hash P v, STREAM_HEADER_MAGIC @ frames (map (the \<circ> de_encode P) [w, v]))"
    and rt: "round_trip P [w, v] (STREAM_HEADER_MAGIC @ frames (map (the \<circ> de_encode P) [w, v])) = Inr (map (the \<circ> de_encode P) [w, v])"
    and enc: "encodable P w" "encodable P v" by metis
  have "demo_main P = Some (Inr \<lparr>run_receipt = r, run_verified = (Inr (), Inr ()), run_anchor = Some (chain_hash (de_digest P) r),
      run_report = report, run_wal = [w, v], run_chain_tip = he_chain_hash P v, run_recovered = map (the \<circ> de_encode P) [w, v]\<rparr>)"
    unfolding demo_main_def Let_def assms(2) Option.bind.bind_lunit prod.case play_hand_verified[OF assms(2)]
      l1_pipeline_anchors[OF assms(2,3,4,5)] option.map sum.case l2 ex rt ..
  moreover have "hand_rank r = max (evaluate_7 p1) (evaluate_7 p2)" using play_hand_deck[OF assms(2)] winner_rank_max by metis
  moreover have "map Some (map (the \<circ> de_encode P) [w, v]) = map (de_encode P) [w, v]" using enc by (auto simp: encodable_def)
  ultimately show ?thesis by simp
qed

text \<open>A concrete run.\<close>
definition demo_landed_codec :: "hand_showdown_landed codec" where
  "demo_landed_codec = \<lparr>cd_enc = \<lambda>x. Some (le_bytes 2 (hsl_schema_version x) @ hsl_chain_hash x),
     cd_dec = \<lambda>b. Some \<lparr>hsl_schema_version = from_le (take 2 b), hsl_chain_hash = drop 2 b\<rparr>\<rparr>"

text \<open>The kernel of the log with its schedule: whether the action is registered, and the ticks of what waits.\<close>
type_synonym demo_scheduler = "demo_record list \<times> bool \<times> tick list"

definition demo_exec_kernel :: "(demo_scheduler, unit, unit, nat, unit, demo_record list) kernel_api" where
  "demo_exec_kernel = \<lparr>k_new_with_wal = (\<lambda>_ _. ([], False, [])),
     k_register_action = (\<lambda>(l, r, q) tc. (l, r \<or> tc = RECORD_HAND_SHOWDOWN_TYPE_CODE, q)), k_create_instance = (\<lambda>k _. (1, k)),
     k_instance_view = (\<lambda>_ _. None),
     k_submit = (\<lambda>(l, r, q) _ _ _ _ t tc b. (Inr (), (l @ [(of_nat (length l), Some (tc, b))], r,
        if r \<and> tc = RECORD_HAND_SHOWDOWN_TYPE_CODE then t # q else q))),
     k_step = (\<lambda>(l, r, q) t _. (length (filter (\<lambda>x. x \<le> t) q), (l @ [(of_nat (length l), None)], r, filter (\<lambda>x. \<not> x \<le> t) q))),
     k_export_wal = (\<lambda>k. Some (fst k)), k_InstanceNotFound = ()\<rparr>"

definition demo_hand_env :: "(demo_scheduler, unit, unit, nat, unit, demo_record) hand_env" where
  "demo_hand_env = \<lparr>de_kernel = demo_exec_kernel, de_postcards = demo_pc, de_config = (), de_system = 1,
     de_canonical = (\<lambda>_. [1]), de_seq = fst, de_encode = demo_encode, de_decode = demo_decode, de_submit = snd,
     de_action = (\<lambda>_. map_option (\<lambda>(_, _, r). showdown_action (\<lambda>x. x) demo_seed r) (play_hand ones demo_seed)), de_digest = (\<lambda>x. x), de_xof = ones,
     he_event = demo_landed_codec, he_chain_hash = (\<lambda>_. []), he_executed = (\<lambda>n. n)\<rparr>"

lemma demo_hand_logs: "kernel_logs demo_hand_env fst (\<lambda>k. demo_ready (fst k))"
proof -
  have e: "encodable demo_hand_env w = encodable (demo_log_env (undefined :: nat)) w" for w
    by (simp add: encodable_def demo_hand_env_def demo_log_env_def)
  have f: "de_kernel demo_hand_env = demo_exec_kernel" "de_seq demo_hand_env = de_seq (demo_log_env (undefined :: nat))"
    "de_submit demo_hand_env = de_submit (demo_log_env (undefined :: nat))" "de_kernel (demo_log_env (undefined :: nat)) = demo_log_kernel"
    by (simp_all add: demo_hand_env_def demo_log_env_def)
  note L = demo_kernel_logs[of "undefined :: nat", unfolded kernel_logs_def f(4)]
  show ?thesis unfolding kernel_logs_def e f(1-3)
    using L by (simp add: demo_exec_kernel_def demo_log_kernel_def split_beta)
qed

lemma demo_hand_schedules:
  "kernel_schedules demo_hand_env RECORD_HAND_SHOWDOWN_TYPE_CODE (\<lambda>(_, r, _). r) (\<lambda>(_, _, q) t. length (filter (\<lambda>x. x \<le> t) q))"
  by (auto simp: kernel_schedules_def demo_hand_env_def demo_exec_kernel_def)

theorem demo_runs_to_end_witness:
  "\<exists>run. demo_main demo_hand_env = Some (Inr run) \<and> run_verified run = (Inr (), Inr ()) \<and> length (run_wal run) = 2"
proof -
  obtain p1 p2 r where p: "play_hand (de_xof demo_hand_env) demo_seed = Some (p1, p2, r)"
    using ones_plays by (fastforce simp: demo_hand_env_def)
  have c: "codec_ok (he_event demo_hand_env)" "codec_total (he_event demo_hand_env)"
    by (auto simp: codec_ok_def codec_total_def demo_hand_env_def demo_landed_codec_def from_le_le_bytes)
  have s: "de_system demo_hand_env \<noteq> 0" by (simp add: demo_hand_env_def)
  have "storable demo_hand_env (showdown_action (de_digest demo_hand_env) demo_seed r)"
    using p by (simp add: storable_def demo_hand_env_def)
  from demo_runs_to_end[OF demo_hand_logs p c s demo_hand_schedules this] show ?thesis by fastforce
qed

end
