(* ===== verification/Rust_Text.thy ===== *)
theory Rust_Text
  imports Prelude "HOL-Library.Sublist"
begin

text \<open>Unicode text, as lists of code points, with the operations of the standard library that read text from the operating
system or from source code.\<close>

type_synonym codes = "nat list"

definition codes_of :: "string \<Rightarrow> codes" where
  "codes_of s = map of_char s"

text \<open>The code points with the Unicode property \<^verbatim>\<open>White_Space\<close>, as \<^verbatim>\<open>char::is_whitespace\<close> has them.\<close>
definition is_whitespace :: "nat \<Rightarrow> bool" where
  "is_whitespace c \<longleftrightarrow> 9 \<le> c \<and> c \<le> 13 \<or> c = 32 \<or> c = 133 \<or> c = 160 \<or> c = 5760 \<or> 8192 \<le> c \<and> c \<le> 8202
     \<or> c = 8232 \<or> c = 8233 \<or> c = 8239 \<or> c = 8287 \<or> c = 12288"

definition trim_start :: "codes \<Rightarrow> codes" where
  "trim_start s = dropWhile is_whitespace s"

definition trim :: "codes \<Rightarrow> codes" where
  "trim s = rev (trim_start (rev (trim_start s)))"

text \<open>\<^verbatim>\<open>str::lines\<close>: the pieces between line feeds, without a carriage return before the line feed; a text that ends with a
line feed has no empty last line.\<close>
definition strip_cr :: "codes \<Rightarrow> codes" where
  "strip_cr l = (if suffix [13] l then butlast l else l)"

fun lines_loop :: "codes \<Rightarrow> codes \<Rightarrow> codes list" where
  "lines_loop l [] = (if l = [] then [] else [l])"
| "lines_loop l (c # s) = (if c = 10 then strip_cr l # lines_loop [] s else lines_loop (l @ [c]) s)"

definition lines :: "codes \<Rightarrow> codes list" where
  "lines s = lines_loop [] s"

definition strip_prefix_codes :: "codes \<Rightarrow> codes \<Rightarrow> codes option" where
  "strip_prefix_codes p s = (if prefix p s then Some (drop (length p) s) else None)"

text \<open>\<^verbatim>\<open>str::contains\<close> and the position of the first element with a property.\<close>
definition contains :: "'a list \<Rightarrow> 'a list \<Rightarrow> bool" where
  "contains s t \<longleftrightarrow> list_ex (\<lambda>k. prefix t (drop k s)) [0..<Suc (length s)]"

fun position :: "('a \<Rightarrow> bool) \<Rightarrow> 'a list \<Rightarrow> nat option" where
  "position P [] = None"
| "position P (x # xs) = (if P x then Some 0 else map_option Suc (position P xs))"

lemma contains_sublist: "contains s t \<longleftrightarrow> sublist t s"
proof
  assume "contains s t"
  then obtain k where "prefix t (drop k s)" by (auto simp: contains_def list_ex_iff)
  then obtain r where "drop k s = t @ r" by (auto simp: prefix_def)
  then have "s = take k s @ t @ r" by (metis append_take_drop_id)
  then show "sublist t s" unfolding sublist_def by blast
next
  assume "sublist t s"
  then obtain u r where "s = u @ t @ r" by (auto simp: sublist_def)
  then have "prefix t (drop (length u) s)" "length u \<in> set [0..<Suc (length s)]" by simp_all
  then show "contains s t" unfolding contains_def list_ex_iff by blast
qed

lemma position_None: "position P xs = None \<longleftrightarrow> \<not> list_ex P xs"
  by (induction xs) auto

lemma position_Some:
  "position P xs = Some i \<Longrightarrow> i < length xs \<and> P (xs ! i) \<and> (\<forall>j<i. \<not> P (xs ! j))"
  by (induction xs arbitrary: i) (auto split: if_splits simp: less_Suc_eq_0_disj nth_Cons' gr0_conv_Suc)

lemma space_is_whitespace [simp]: "is_whitespace 32"
  by (simp add: is_whitespace_def)

end
