(* ===== verification/Purity.thy ===== *)
theory Purity
  imports Rust_Text "HOL-Library.Char_ord" "HOL-Library.List_Lexorder"
begin

text \<open>The purity lint of \<^verbatim>\<open>arkhe-subset-rust-check\<close>: the deny policy, the matching of paths, the scan of macro tokens
and the visitor.  The syntax tree and the tokens are those of the third-party crates \<^verbatim>\<open>syn\<close> and \<^verbatim>\<open>proc_macro2\<close>: a tree
of the nodes the visitor overrides and others, whose macro nodes carry their argument expressions when they parse.\<close>

section \<open>Policies\<close>

text \<open>A \<^verbatim>\<open>BTreeSet\<close> is the sorted list of its elements.\<close>
definition btree :: "string list \<Rightarrow> string list" where
  "btree xs = sort (remdups xs)"

record policy =
  denied_paths :: "string list"
  denied_prefixes :: "string list"
  denied_macros :: "string list"
  deny_unsafe :: bool

definition Policy_empty :: policy where
  "Policy_empty = \<lparr>denied_paths = [], denied_prefixes = [], denied_macros = [], deny_unsafe = False\<rparr>"

definition deny_compute_impurity :: policy where
  "deny_compute_impurity =
     \<lparr>denied_paths = btree
        [''std::time::Instant::now'', ''std::time::SystemTime::now'', ''std::time::UNIX_EPOCH'', ''chrono::Utc::now'',
         ''chrono::Local::now'', ''minstant::Instant::now'', ''quanta::Clock::now'', ''coarsetime::Instant::now'',
         ''instant::Instant::now'', ''rand::random'', ''rand::thread_rng'', ''rand::rngs::OsRng'',
         ''rand::rngs::ThreadRng'', ''getrandom::getrandom'', ''getrandom::fill'', ''rdrand::RdRand'',
         ''std::io::stdin'', ''std::io::stdout'', ''std::io::stderr''],
      denied_prefixes = btree
        [''std::fs'', ''std::net'', ''std::process'', ''std::env'', ''tokio::fs'', ''tokio::net'', ''tokio::io'',
         ''tokio::time'', ''async_std::fs'', ''async_std::net'', ''async_std::io'', ''async_std::task'', ''mio'',
         ''socket2'', ''libc''],
      denied_macros = btree [''println'', ''print'', ''eprintln'', ''eprint'', ''dbg''],
      deny_unsafe = True\<rparr>"

section \<open>Matching\<close>

datatype match_kind = ExactMatch | SingleIdentSuffix | PathSuffix | PrefixMatch

fun match_kind_display :: "match_kind \<Rightarrow> string" where
  "match_kind_display ExactMatch = ''exact''" | "match_kind_display SingleIdentSuffix = ''imported-ident''"
| "match_kind_display PathSuffix = ''imported-path''" | "match_kind_display PrefixMatch = ''prefix''"

definition match_against_deny_list :: "policy \<Rightarrow> string \<Rightarrow> nat \<Rightarrow> (string \<times> match_kind) option" where
  "match_against_deny_list P path_str num_segments =
     (if path_str \<in> set (denied_paths P) then Some (path_str, ExactMatch)
      else
        (case find (\<lambda>denied. suffix (''::'' @ path_str) denied) (denied_paths P) of
           Some denied \<Rightarrow> Some (denied, if num_segments = 1 then SingleIdentSuffix else PathSuffix)
         | None \<Rightarrow>
             map_option (\<lambda>p. (p, PrefixMatch))
               (find (\<lambda>p. path_str = p \<or> prefix (p @ ''::'') path_str) (denied_prefixes P))))"

definition classify_reason :: "string \<Rightarrow> string" where
  "classify_reason denied =
     (if denied = ''unsafe-block'' \<or> denied = ''unsafe-fn'' then ''unsafe''
      else if denied \<in> set [''println'', ''print'', ''eprintln'', ''eprint'', ''dbg''] then ''io''
      else if contains denied ''time::'' \<or> contains denied ''chrono::'' \<or> contains denied ''minstant::''
        \<or> contains denied ''quanta::'' \<or> contains denied ''coarsetime::'' \<or> contains denied ''instant::Instant''
        \<or> denied = ''tokio::time'' then ''clock''
      else if contains denied ''rand'' \<or> contains denied ''OsRng'' \<or> contains denied ''getrandom''
        \<or> contains denied ''rdrand'' then ''rng''
      else if contains denied ''fs'' \<or> contains denied ''net'' \<or> contains denied ''io::'' \<or> suffix ''::io'' denied
        \<or> contains denied ''process'' \<or> contains denied ''env'' \<or> denied = ''mio'' \<or> denied = ''socket2''
        \<or> contains denied ''async_std::task'' then ''io''
      else if denied = ''libc'' \<or> contains denied ''libc::'' then ''ffi'' else ''other'')"

record purity_violation =
  denied_path :: string
  site :: string
  reason :: string

fun join :: "string list \<Rightarrow> string" where
  "join [] = []"
| "join [s] = s"
| "join (s # ss) = s @ ''::'' @ join ss"

section \<open>Token streams\<close>

datatype token = TIdent string | TPunct char bool | TGroup "token list" | TLiteral

definition check_token_path :: "policy \<Rightarrow> string list \<Rightarrow> bool \<Rightarrow> purity_violation list" where
  "check_token_path P segs after_dot =
     (if segs = [] \<or> after_dot then []
      else
        let path_str = join segs in
        case match_against_deny_list P path_str (length segs) of
          None \<Rightarrow> []
        | Some (denied, kind) \<Rightarrow>
            [\<lparr>denied_path = denied, site = path_str @ '' ('' @ match_kind_display kind @ '', macro tokens)'',
              reason = classify_reason denied\<rparr>])"

fun peek_colon :: "token list \<Rightarrow> bool" where
  "peek_colon (TPunct c _ # _) \<longleftrightarrow> c = CHR '':''"
| "peek_colon _ \<longleftrightarrow> False"

text \<open>The loop with its variables: the segments collected, whether they follow a dot, whether the last token was a dot,
and whether a segment is expected.  The boolean of a punctuation token is \<^verbatim>\<open>Spacing::Joint\<close>.\<close>
function scan_loop :: "policy \<Rightarrow> token list \<Rightarrow> string list \<Rightarrow> bool \<Rightarrow> bool \<Rightarrow> bool \<Rightarrow> purity_violation list" where
  "scan_loop P [] segs seq_after_dot prev_dot expect_segment = check_token_path P segs seq_after_dot"
| "scan_loop P (TIdent i # ts) segs seq_after_dot prev_dot expect_segment =
     (let flush = (segs \<noteq> [] \<and> \<not> expect_segment);
          vs = (if flush then check_token_path P segs seq_after_dot else []);
          segs1 = (if flush then [] else segs)
      in vs @ scan_loop P ts (segs1 @ [i]) (if segs1 = [] then prev_dot else seq_after_dot) False False)"
| "scan_loop P (TPunct c joint # ts) segs seq_after_dot prev_dot expect_segment =
     (if c = CHR '':'' \<and> joint \<and> peek_colon ts
      then scan_loop P (tl ts) segs seq_after_dot False (segs \<noteq> [])
      else check_token_path P segs seq_after_dot @ scan_loop P ts [] seq_after_dot (c = CHR ''.'') False)"
| "scan_loop P (TGroup g # ts) segs seq_after_dot prev_dot expect_segment =
     check_token_path P segs seq_after_dot @ scan_loop P g [] False False False
       @ scan_loop P ts [] seq_after_dot False False"
| "scan_loop P (TLiteral # ts) segs seq_after_dot prev_dot expect_segment =
     check_token_path P segs seq_after_dot @ scan_loop P ts [] seq_after_dot False False"
  by pat_completeness auto
termination
proof (relation "measure (\<lambda>(P, ts, _). size_list size ts)", goal_cases)
  case (3 P c joint ts)
  then show ?case by (cases ts rule: peek_colon.cases) auto
qed auto

definition scan_token_trees :: "policy \<Rightarrow> token list \<Rightarrow> purity_violation list" where
  "scan_token_trees P ts = scan_loop P ts [] False False False"

section \<open>The visitor\<close>

datatype path = Path (leading_colon: bool) (segments: "string list")

datatype node =
    ExprPath path "node list"
  | ExprUnsafe "node list"
  | Signature bool string "node list"
  | Macro path "token list" "node list option" "node list"
  | Other "node list"

definition path_to_string :: "path \<Rightarrow> string" where
  "path_to_string p = (if leading_colon p then ''::'' else []) @ join (segments p)"

definition strip_prefix :: "string \<Rightarrow> string \<Rightarrow> string" where
  "strip_prefix p s = (if prefix p s then drop (length p) s else s)"

definition path_violations :: "policy \<Rightarrow> path \<Rightarrow> purity_violation list" where
  "path_violations P p =
     (let raw = path_to_string p; normalized = strip_prefix ''::'' raw in
      case match_against_deny_list P normalized (length (segments p)) of
        None \<Rightarrow> []
      | Some (denied, kind) \<Rightarrow>
          [\<lparr>denied_path = denied, site = raw @ '' ('' @ match_kind_display kind @ '')'', reason = classify_reason denied\<rparr>])"

definition macro_violations :: "policy \<Rightarrow> path \<Rightarrow> purity_violation list" where
  "macro_violations P p =
     (if segments p = [] then []
      else
        let name = last (segments p) in
        if name \<in> set (denied_macros P)
        then [\<lparr>denied_path = name, site = path_to_string p @ ''! (macro)'', reason = classify_reason name\<rparr>]
        else [])"

fun visit :: "policy \<Rightarrow> node \<Rightarrow> purity_violation list" where
  "visit P (ExprPath p cs) = path_violations P p @ concat (map (visit P) cs)"
| "visit P (ExprUnsafe cs) =
     (if deny_unsafe P
      then [\<lparr>denied_path = ''unsafe-block'', site = ''unsafe { ... }'', reason = ''unsafe''\<rparr>] else [])
     @ concat (map (visit P) cs)"
| "visit P (Signature is_unsafe i cs) =
     (if deny_unsafe P \<and> is_unsafe
      then [\<lparr>denied_path = ''unsafe-fn'', site = ''unsafe fn '' @ i, reason = ''unsafe''\<rparr>] else [])
     @ concat (map (visit P) cs)"
| "visit P (Macro p tokens args cs) =
     macro_violations P p
     @ (case args of Some exprs \<Rightarrow> concat (map (visit P) exprs) | None \<Rightarrow> scan_token_trees P tokens)
     @ concat (map (visit P) cs)"
| "visit P (Other cs) = concat (map (visit P) cs)"

definition check_purity :: "node \<Rightarrow> policy \<Rightarrow> purity_violation list" where
  "check_purity item P = visit P item"

definition check_purity_default :: "node \<Rightarrow> purity_violation list" where
  "check_purity_default item = check_purity item deny_compute_impurity"

section \<open>Matching, segment by segment\<close>

definition ident :: "string \<Rightarrow> bool" where
  "ident s \<longleftrightarrow> s \<noteq> [] \<and> CHR '':'' \<notin> set s"

lemma join_Cons: "xs \<noteq> [] \<Longrightarrow> join (x # xs) = x @ ''::'' @ join xs"
  by (cases xs) simp_all

lemma join_append: "xs \<noteq> [] \<Longrightarrow> ys \<noteq> [] \<Longrightarrow> join (xs @ ys) = join xs @ ''::'' @ join ys"
  by (induction xs rule: join.induct) (simp_all add: join_Cons)

text \<open>The first segment ends at the first colon.\<close>
lemma first_colon:
  assumes "CHR '':'' \<notin> set x" "CHR '':'' \<notin> set y" "x @ CHR '':'' # r = y @ CHR '':'' # r'"
  shows "x = y \<and> r = r'"
  using assms by (induction x arbitrary: y) (auto simp: Cons_eq_append_conv append_eq_Cons_conv)

lemma join_head:
  assumes "xs \<noteq> []" "list_all ident xs"
  obtains c r where "join xs = c # r" "c \<noteq> CHR '':''"
proof -
  obtain x ys where xs: "xs = x # ys" using assms(1) by (cases xs) auto
  then obtain c r where x: "x = c # r" "c \<noteq> CHR '':''" using assms(2) by (cases x) (auto simp: ident_def)
  then have "\<exists>r'. join xs = c # r'" using xs by (cases ys) simp_all
  then show ?thesis using that x(2) by blast
qed

lemma join_split:
  assumes "list_all ident (x # xs)" "join (x # xs) = u @ CHR '':'' # v" "CHR '':'' \<notin> set u"
  shows "x = u \<and> xs \<noteq> [] \<and> v = CHR '':'' # join xs"
proof -
  have x: "CHR '':'' \<notin> set x" using assms(1) by (simp add: ident_def)
  then have ne: "xs \<noteq> []" using assms(2) by (cases xs) auto
  then have "x @ CHR '':'' # (CHR '':'' # join xs) = u @ CHR '':'' # v" using assms(2) by (simp add: join_Cons)
  from first_colon[OF x assms(3) this] ne show ?thesis by simp
qed

lemma join_inject: "list_all ident xs \<Longrightarrow> list_all ident ys \<Longrightarrow> join xs = join ys \<Longrightarrow> xs = ys"
proof (induction xs arbitrary: ys)
  case Nil
  then show ?case using join_head[of ys] by (cases "ys = []") auto
next
  case (Cons x xs)
  show ?case
  proof (cases xs)
    case Nil
    then obtain y zs where ys: "ys = y # zs" using Cons.prems by (cases ys) (auto simp: ident_def)
    have "CHR '':'' \<notin> set x" using Cons.prems(1) by (simp add: ident_def)
    then have "zs = []" using Cons.prems(3) ys Nil by (cases zs) auto
    then show ?thesis using Cons.prems(3) ys Nil by simp
  next
    case (Cons x' xs')
    then have j: "join (x # xs) = x @ CHR '':'' # CHR '':'' # join xs" by simp
    moreover have "CHR '':'' \<notin> set x" using Cons.prems(1) by (simp add: ident_def)
    moreover obtain y zs where ys: "ys = y # zs" using Cons.prems(3) j by (cases ys) auto
    ultimately have "y = x \<and> zs \<noteq> [] \<and> CHR '':'' # join xs = CHR '':'' # join zs"
      using join_split[of y zs x "CHR '':'' # join xs"] Cons.prems(2,3) by simp
    then show ?thesis using Cons.IH[of zs] Cons.prems(1,2) ys by simp
  qed
qed

lemma join_suffix:
  assumes "list_all ident d" "list_all ident s" "join d = w @ ''::'' @ join s"
  shows "\<exists>z. z \<noteq> [] \<and> d = z @ s"
  using assms(1,3)
proof (induction d arbitrary: w)
  case (Cons x xs)
  show ?case
  proof (cases "CHR '':'' \<in> set w")
    case False
    have eq: "join (x # xs) = w @ CHR '':'' # (CHR '':'' # join s)" using Cons.prems(2) by simp
    from join_split[OF Cons.prems(1) eq False] have "join xs = join s" by simp
    then have "xs = s" using join_inject[of xs s] Cons.prems(1) assms(2) by simp
    then show ?thesis by (intro exI[of _ "[x]"]) simp
  next
    case True
    then obtain u v where w: "w = u @ CHR '':'' # v" "CHR '':'' \<notin> set u" by (meson split_list_first)
    have eq: "join (x # xs) = u @ CHR '':'' # (v @ ''::'' @ join s)" using Cons.prems(2) w(1) by simp
    from join_split[OF Cons.prems(1) eq w(2)]
    have v: "xs \<noteq> []" "v @ ''::'' @ join s = CHR '':'' # join xs" by simp_all
    obtain c r where c: "join xs = c # r" "c \<noteq> CHR '':''" using join_head[OF v(1)] Cons.prems(1) by auto
    obtain a v' where a: "v = a # v'" using v(2) c by (cases v) auto
    then have "join xs = v' @ ''::'' @ join s" using v(2) by simp
    then obtain z where "xs = z @ s" using Cons.IH[of v'] Cons.prems(1) by auto
    then show ?thesis by (intro exI[of _ "x # z"]) simp
  qed
qed simp

lemma suffix_join:
  assumes "list_all ident d" "list_all ident s" "s \<noteq> []"
  shows "suffix (''::'' @ join s) (join d) \<longleftrightarrow> (\<exists>z. z \<noteq> [] \<and> d = z @ s)"
proof
  assume "suffix (''::'' @ join s) (join d)"
  then show "\<exists>z. z \<noteq> [] \<and> d = z @ s" using join_suffix[OF assms(1,2)] by (auto simp: suffix_def)
next
  assume "\<exists>z. z \<noteq> [] \<and> d = z @ s"
  then show "suffix (''::'' @ join s) (join d)" using assms(3) by (auto simp: suffix_def join_append)
qed

lemma prefix_join:
  assumes "list_all ident q" "list_all ident s" "q \<noteq> []"
  shows "prefix (join q @ ''::'') (join s) \<longleftrightarrow> (\<exists>z. z \<noteq> [] \<and> s = q @ z)"
proof
  assume "prefix (join q @ ''::'') (join s)"
  then obtain r where "join s = join q @ ''::'' @ r" by (auto simp: prefix_def)
  then show "\<exists>z. z \<noteq> [] \<and> s = q @ z" using assms
  proof (induction q arbitrary: s)
    case (Cons x xs)
    obtain y ys where s: "s = y # ys" using Cons.prems(1) by (cases s) (auto split: if_splits)
    have x: "CHR '':'' \<notin> set x" using Cons.prems(2) by (simp add: ident_def)
    show ?case
    proof (cases "xs = []")
      case True
      then have "join (y # ys) = x @ CHR '':'' # (CHR '':'' # r)" using Cons.prems(1) s by simp
      from join_split[OF _ this x] Cons.prems(3) s True show ?thesis by auto
    next
      case False
      then have "join (y # ys) = x @ CHR '':'' # (CHR '':'' # join xs @ ''::'' @ r)" using Cons.prems(1) s by (simp add: join_Cons)
      from join_split[OF _ this x] Cons.prems(3) s have "y = x" "join ys = join xs @ ''::'' @ r" by simp_all
      with Cons.IH[of ys] Cons.prems(2,3) s False show ?thesis by simp
    qed
  qed simp
next
  assume "\<exists>z. z \<noteq> [] \<and> s = q @ z"
  then show "prefix (join q @ ''::'') (join s)" using assms(3) by (auto simp: prefix_def join_append)
qed

text \<open>A policy given by segment lists.\<close>
definition policy_of :: "string list list \<Rightarrow> string list list \<Rightarrow> string list \<Rightarrow> bool \<Rightarrow> policy" where
  "policy_of ps qs ms u =
     \<lparr>denied_paths = btree (map join ps), denied_prefixes = btree (map join qs), denied_macros = btree ms, deny_unsafe = u\<rparr>"

lemma set_btree [simp]: "set (btree xs) = set xs"
  by (simp add: btree_def)

lemma find_neq_None: "find Q xs \<noteq> None \<longleftrightarrow> (\<exists>x\<in>set xs. Q x)"
  by (induction xs) auto

lemma match_neq_None:
  "match_against_deny_list P s n \<noteq> None \<longleftrightarrow>
     (\<exists>d\<in>set (denied_paths P). s = d \<or> suffix (''::'' @ s) d) \<or> (\<exists>p\<in>set (denied_prefixes P). s = p \<or> prefix (p @ ''::'') s)"
  unfolding match_against_deny_list_def
  using find_neq_None[of "\<lambda>denied. suffix (''::'' @ s) denied" "denied_paths P"]
    find_neq_None[of "\<lambda>p. s = p \<or> prefix (p @ ''::'') s" "denied_prefixes P"]
  by (auto split: option.split)

lemma join_denied:
  assumes "list_all (list_all ident) ps" "list_all ident segs" "segs \<noteq> []" "d \<in> set ps"
  shows "join segs = join d \<or> suffix (''::'' @ join segs) (join d) \<longleftrightarrow> suffix segs d"
  using suffix_join[OF _ assms(2,3), of d] join_inject[OF assms(2), of d] assms(1,4)
  by (auto simp: list_all_iff suffix_def)

lemma join_namespace:
  assumes "list_all (list_all ident) qs" "[] \<notin> set qs" "list_all ident segs" "q \<in> set qs"
  shows "join segs = join q \<or> prefix (join q @ ''::'') (join segs) \<longleftrightarrow> prefix q segs"
proof -
  have "list_all ident q" "q \<noteq> []" using assms(1,2,4) by (auto simp: list_all_iff)
  note pj = prefix_join[OF this(1) assms(3) this(2)] and ji = join_inject[OF assms(3) this(1)]
  show ?thesis unfolding pj using ji by (auto simp: prefix_def)
qed

lemma match_policy_of:
  assumes "list_all (list_all ident) ps" "list_all (list_all ident) qs" "list_all ident segs" "segs \<noteq> []" "[] \<notin> set qs"
  shows "match_against_deny_list (policy_of ps qs ms u) (join segs) n \<noteq> None \<longleftrightarrow>
     (\<exists>d\<in>set ps. suffix segs d) \<or> (\<exists>q\<in>set qs. prefix q segs)"
proof -
  have d: "join segs = join d \<or> suffix (''::'' @ join segs) (join d) \<longleftrightarrow> suffix segs d" if "d \<in> set ps" for d
    using join_denied[OF assms(1,3,4) that] .
  have q: "join segs = join q \<or> prefix (join q @ ''::'') (join segs) \<longleftrightarrow> prefix q segs" if "q \<in> set qs" for q
    using join_namespace[OF assms(2,5,3) that] .
  show ?thesis unfolding match_neq_None policy_of_def using d q by auto
qed


text \<open>C20: matching means what it should of the segments. For paths of identifiers, the string tests deny a path exactly when its segments are
the last segments of a denied path, as after an import, or begin with those of a denied namespace.\<close>
theorem matching_is_segmentwise:
  assumes "list_all (list_all ident) ps" "list_all (list_all ident) qs" "list_all ident segs" "segs \<noteq> []" "[] \<notin> set qs"
  shows "match_against_deny_list (policy_of ps qs ms u) (join segs) n \<noteq> None \<longleftrightarrow>
     (\<exists>d\<in>set ps. suffix segs d) \<or> (\<exists>q\<in>set qs. prefix q segs)"
  by (rule match_policy_of[OF assms])

theorem matching_is_segmentwise_witness:
  "match_against_deny_list
     (policy_of [[''std'', ''time'', ''Instant'', ''now'']] [[''std'', ''fs'']] [] True) (join [''Instant'', ''now'']) 2 \<noteq> None"
  by (subst matching_is_segmentwise) (auto simp: ident_def suffix_def)

text \<open>The default policy as segment lists.\<close>
definition default_paths :: "string list list" where
  "default_paths =
     [[''std'', ''time'', ''Instant'', ''now''], [''std'', ''time'', ''SystemTime'', ''now''], [''std'', ''time'', ''UNIX_EPOCH''],
      [''chrono'', ''Utc'', ''now''], [''chrono'', ''Local'', ''now''], [''minstant'', ''Instant'', ''now''],
      [''quanta'', ''Clock'', ''now''], [''coarsetime'', ''Instant'', ''now''], [''instant'', ''Instant'', ''now''],
      [''rand'', ''random''], [''rand'', ''thread_rng''], [''rand'', ''rngs'', ''OsRng''], [''rand'', ''rngs'', ''ThreadRng''],
      [''getrandom'', ''getrandom''], [''getrandom'', ''fill''], [''rdrand'', ''RdRand''], [''std'', ''io'', ''stdin''],
      [''std'', ''io'', ''stdout''], [''std'', ''io'', ''stderr'']]"

definition default_namespaces :: "string list list" where
  "default_namespaces =
     [[''std'', ''fs''], [''std'', ''net''], [''std'', ''process''], [''std'', ''env''], [''tokio'', ''fs''], [''tokio'', ''net''],
      [''tokio'', ''io''], [''tokio'', ''time''], [''async_std'', ''fs''], [''async_std'', ''net''], [''async_std'', ''io''],
      [''async_std'', ''task''], [''mio''], [''socket2''], [''libc'']]"

definition default_macros :: "string list" where
  "default_macros = [''println'', ''print'', ''eprintln'', ''eprint'', ''dbg'']"

lemma default_policy_segments:
  "deny_compute_impurity = policy_of default_paths default_namespaces default_macros True"
  by (simp add: deny_compute_impurity_def policy_of_def default_paths_def default_namespaces_def default_macros_def)

lemma default_idents:
  "list_all (list_all ident) default_paths" "list_all (list_all ident) default_namespaces" "[] \<notin> set default_namespaces"
  by (simp_all add: default_paths_def default_namespaces_def ident_def)

section \<open>The verdict of a whole item\<close>

text \<open>The nodes the visitor reaches, in the order it reaches them; a macro's parsed arguments come before its other
children.\<close>
fun visited :: "node \<Rightarrow> node list" where
  "visited (ExprPath p cs) = ExprPath p cs # concat (map visited cs)"
| "visited (ExprUnsafe cs) = ExprUnsafe cs # concat (map visited cs)"
| "visited (Signature u i cs) = Signature u i cs # concat (map visited cs)"
| "visited (Macro p ts args cs) =
     Macro p ts args cs # (case args of Some es \<Rightarrow> concat (map visited es) | None \<Rightarrow> []) @ concat (map visited cs)"
| "visited (Other cs) = Other cs # concat (map visited cs)"

text \<open>What one node contributes.\<close>
fun verdict :: "policy \<Rightarrow> node \<Rightarrow> purity_violation list" where
  "verdict P (ExprPath p cs) = path_violations P p"
| "verdict P (ExprUnsafe cs) =
     (if deny_unsafe P then [\<lparr>denied_path = ''unsafe-block'', site = ''unsafe { ... }'', reason = ''unsafe''\<rparr>] else [])"
| "verdict P (Signature u i cs) =
     (if deny_unsafe P \<and> u then [\<lparr>denied_path = ''unsafe-fn'', site = ''unsafe fn '' @ i, reason = ''unsafe''\<rparr>] else [])"
| "verdict P (Macro p ts args cs) = macro_violations P p @ (if args = None then scan_token_trees P ts else [])"
| "verdict P (Other cs) = []"

lemma visit_children:
  "(\<And>x. x \<in> set cs \<Longrightarrow> visit P x = concat (map (verdict P) (visited x))) \<Longrightarrow>
   concat (map (visit P) cs) = concat (map (verdict P) (concat (map visited cs)))"
  by (induction cs) simp_all

lemma visit_verdicts: "visit P n = concat (map (verdict P) (visited n))"
proof (induction P n rule: visit.induct)
  case (4 P p ts args cs)
  show ?case
  proof (cases args)
    case None
    then show ?thesis using visit_children[OF 4(2)] by simp
  next
    case (Some es)
    have "concat (map (visit P) es) = concat (map (verdict P) (concat (map visited es)))" using 4(1)[OF Some] by (rule visit_children)
    moreover have "concat (map (visit P) cs) = concat (map (verdict P) (concat (map visited cs)))" using 4(2) by (rule visit_children)
    ultimately show ?thesis using Some by simp
  qed
qed (simp_all add: visit_children)

text \<open>A node that does nothing the default policy forbids, by the segments of its path.\<close>
fun harmless :: "node \<Rightarrow> bool" where
  "harmless (ExprPath p cs) \<longleftrightarrow>
     \<not> list_ex (\<lambda>d. suffix (segments p) d) default_paths \<and> \<not> list_ex (\<lambda>q. prefix q (segments p)) default_namespaces"
| "harmless (ExprUnsafe cs) \<longleftrightarrow> False"
| "harmless (Signature is_unsafe i cs) \<longleftrightarrow> \<not> is_unsafe"
| "harmless (Macro p ts args cs) \<longleftrightarrow>
     last (segments p) \<notin> set default_macros \<and> (args = None \<longrightarrow> scan_token_trees deny_compute_impurity ts = [])"
| "harmless (Other cs) \<longleftrightarrow> True"

text \<open>Paths of the parser: at least one segment, each an identifier.\<close>
fun parsed :: "node \<Rightarrow> bool" where
  "parsed (ExprPath p cs) \<longleftrightarrow> segments p \<noteq> [] \<and> list_all ident (segments p)"
| "parsed (Macro p ts args cs) \<longleftrightarrow> segments p \<noteq> []"
| "parsed _ \<longleftrightarrow> True"

lemma normalized_path:
  assumes "segments p \<noteq> []" "list_all ident (segments p)"
  shows "strip_prefix ''::'' (path_to_string p) = join (segments p)"
proof (cases "leading_colon p")
  case False
  obtain c r where "join (segments p) = c # r" "c \<noteq> CHR '':''" using join_head[OF assms] .
  then show ?thesis using False by (simp add: path_to_string_def strip_prefix_def)
qed (simp add: path_to_string_def strip_prefix_def)

lemma matching_segments:
  assumes "list_all ident segs" "segs \<noteq> []"
  shows "match_against_deny_list deny_compute_impurity (join segs) n = None \<longleftrightarrow>
    \<not> list_ex (\<lambda>d. suffix segs d) default_paths \<and> \<not> list_ex (\<lambda>q. prefix q segs) default_namespaces"
  using match_policy_of[OF default_idents(1,2) assms default_idents(3), of default_macros True n]
  unfolding default_policy_segments list_ex_iff by blast

lemma verdict_harmless: "parsed n \<Longrightarrow> verdict deny_compute_impurity n = [] \<longleftrightarrow> harmless n"
proof (cases n)
  case (ExprPath p cs)
  moreover assume "parsed n"
  ultimately show ?thesis using matching_segments[of "segments p" "length (segments p)"]
    by (auto simp: path_violations_def normalized_path Let_def simp del: list_ex_iff split: option.splits)
qed (auto simp: macro_violations_def deny_compute_impurity_def default_macros_def Let_def)

lemma pure_iff_harmless:
  assumes "list_all parsed (visited item)"
  shows "check_purity_default item = [] \<longleftrightarrow> list_all harmless (visited item)"
  using assms verdict_harmless
  by (auto simp: check_purity_default_def check_purity_def visit_verdicts list_all_iff)

section \<open>Completeness of the token scan\<close>

text \<open>The double colon between two segments, and the tokens of a path.\<close>
abbreviation colons :: "token list" where
  "colons \<equiv> [TPunct CHR '':'' True, TPunct CHR '':'' False]"

fun path_tokens :: "string list \<Rightarrow> token list" where
  "path_tokens [] = []"
| "path_tokens [s] = [TIdent s]"
| "path_tokens (s # ss) = TIdent s # colons @ path_tokens ss"

text \<open>A token that ends a path and does not open a method call.\<close>
fun separator :: "token \<Rightarrow> bool" where
  "separator (TIdent _) \<longleftrightarrow> False"
| "separator (TPunct c _) \<longleftrightarrow> c \<noteq> CHR '':'' \<and> c \<noteq> CHR ''.''"
| "separator _ \<longleftrightarrow> True"

fun continues :: "token list \<Rightarrow> bool" where
  "continues (TPunct c joint # ts) \<longleftrightarrow> c = CHR '':'' \<and> joint \<and> peek_colon ts"
| "continues _ \<longleftrightarrow> False"

text \<open>A whole path among the tokens: it begins the stream or follows a separator, and no double colon follows it; it may
stand in a group.\<close>
inductive path_occurs :: "string list \<Rightarrow> token list \<Rightarrow> bool" where
  first: "\<not> continues post \<Longrightarrow> path_occurs segs (path_tokens segs @ post)"
| later: "separator t \<Longrightarrow> \<not> continues post \<Longrightarrow> path_occurs segs (pre @ t # path_tokens segs @ post)"
| inside: "path_occurs segs g \<Longrightarrow> path_occurs segs (pre @ TGroup g # post)"

lemma token_list_cases:
  obtains "ts = []" | i r where "ts = TIdent i # r" | c j r where "ts = TPunct c j # r" | g r where "ts = TGroup g # r"
  | r where "ts = TLiteral # r"
  by (metis neq_Nil_conv token.exhaust)

lemma peek_colon_append: "\<not> peek_colon ts \<Longrightarrow> \<not> peek_colon (t # r) \<Longrightarrow> \<not> peek_colon (ts @ t # r)"
  "peek_colon ts \<Longrightarrow> peek_colon (ts @ r) \<and> tl (ts @ r) = tl ts @ r"
  by (cases ts rule: peek_colon.cases; simp)+

lemma separator_not_colon: "separator t \<Longrightarrow> \<not> peek_colon (t # r)"
  by (cases t) auto

lemma scan_path:
  assumes "segs \<noteq> []" "\<not> continues post"
  shows "set (check_token_path P (acc @ segs) a) \<subseteq>
     set (scan_loop P (path_tokens segs @ post) acc (if acc = [] then a0 else a) (if acc = [] then a else d) (acc \<noteq> []))"
  using assms(1)
proof (induction segs arbitrary: acc d a0 rule: path_tokens.induct)
  case (2 x)
  have "set (check_token_path P (acc @ [x]) a) \<subseteq> set (scan_loop P post (acc @ [x]) a False False)"
    using assms(2) by (cases post rule: token_list_cases) (auto simp: Let_def)
  then show ?case by (auto simp: Let_def)
next
  case (3 x y ys)
  show ?case using "3.IH"[of "acc @ [x]" False False] by (auto simp: Let_def)
qed simp

text \<open>After a separator the loop starts afresh.\<close>
lemma prepend: "\<exists>vs a. x = vs @ f a \<Longrightarrow> \<exists>vs a. u @ x = vs @ f a"
  by (metis append_assoc)

lemma scan_separator:
  "separator t \<Longrightarrow> \<exists>vs a'. scan_loop P (pre @ t # rest) segs a d e = vs @ scan_loop P rest [] a' False False"
proof (induction P pre segs a d e rule: scan_loop.induct)
  case (1 P segs a d e)
  then show ?case by (cases t) (auto intro!: exI[of _ a])
next
  case (3 P c joint ts segs a d e)
  show ?case
  proof (cases "c = CHR '':'' \<and> joint \<and> peek_colon ts")
    case True
    then show ?thesis using 3(1)[OF True 3(3)] peek_colon_append(2)[of ts "t # rest"] by simp
  next
    case False
    then have "\<not> (c = CHR '':'' \<and> joint \<and> peek_colon (ts @ t # rest))"
      using peek_colon_append(1)[of ts t rest] separator_not_colon[OF 3(3)] by blast
    then have "scan_loop P ((TPunct c joint # ts) @ t # rest) segs a d e
        = check_token_path P segs a @ scan_loop P (ts @ t # rest) [] a (c = CHR ''.'') False"
      by auto
    then show ?thesis using prepend[OF 3(2)[OF False 3(3)]] by simp
  qed
next
  case (2 P i ts segs a d e)
  then show ?case by (simp add: Let_def prepend)
next
  case (4 P g ts segs a d e)
  then show ?case using prepend[OF prepend[OF 4(2)]] by simp
next
  case (5 P ts segs a d e)
  then show ?case using prepend by simp
qed

lemma scan_group:
  "set (scan_loop P g [] False False False) \<subseteq> set (scan_loop P (pre @ TGroup g # post) segs a d e)"
proof (induction P pre segs a d e rule: scan_loop.induct)
  case (2 P i ts segs a d e)
  then show ?case by (fastforce simp: Let_def)
next
  case (3 P c joint ts segs a d e)
  show ?case
  proof (cases "c = CHR '':'' \<and> joint \<and> peek_colon ts")
    case True
    then show ?thesis using 3(1) peek_colon_append(2)[of ts "TGroup g # post"] by simp
  next
    case False
    then show ?thesis using 3(2) peek_colon_append(1)[of ts "TGroup g" post] by auto
  qed
qed auto

text \<open>C21: the token scan reports the paths at separators. When a macro's arguments do not parse, take any path in their tokens, at any
depth of groups, that stands at the start of its group or right after a token that is neither a dot, a colon nor an identifier, and that is
not continued by a further segment: what the check of that path reports, the scan reports. A path after a dot is outside the statement, and
rightly: the end of a range, as in \<^verbatim>\<open>0..rand::random()\<close>, is missed.\<close>
theorem scan_reports_paths:
  assumes "path_occurs segs ts" "segs \<noteq> []"
  shows "set (check_token_path P segs False) \<subseteq> set (scan_token_trees P ts)"
  using assms
proof (induction rule: path_occurs.induct)
  case (first post segs)
  then show ?case using scan_path[of segs post P "[]" False False False] by (simp add: scan_token_trees_def)
next
  case (later t post segs pre)
  obtain vs a' where
    "scan_loop P (pre @ t # path_tokens segs @ post) [] False False False
       = vs @ scan_loop P (path_tokens segs @ post) [] a' False False"
    using scan_separator[OF later(1)] by blast
  then show ?case using scan_path[OF later(3,2), of P "[]" False a' False] by (auto simp: scan_token_trees_def)
next
  case (inside segs g pre post)
  then show ?case using scan_group[of P g pre post] by (fastforce simp: scan_token_trees_def)
qed

theorem scan_reports_paths_witness:
  "set (check_token_path deny_compute_impurity [''rand'', ''random''] False) \<subseteq>
     set (scan_token_trees deny_compute_impurity
       ([TIdent ''x'', TPunct CHR ''='' False] @ TGroup ([TIdent ''y''] @ TPunct CHR '';'' False # path_tokens [''rand'', ''random''] @ [TGroup []]) # []))"
  by (rule scan_reports_paths[OF path_occurs.inside[OF path_occurs.later]]) simp_all

section \<open>What the lint misses\<close>

text \<open>A path that follows a range operator is taken for a method name, since its second dot is a dot.\<close>
lemma range_operand_escapes:
  "scan_token_trees deny_compute_impurity
     ([TLiteral, TPunct CHR ''.'' True, TPunct CHR ''.'' False] @ path_tokens [''rand'', ''random''] @ [TGroup []]) = []"
  by (simp add: scan_token_trees_def check_token_path_def Let_def)

text \<open>An import of a denied module hides what it names: \<^verbatim>\<open>use std::fs; fs::read(..)\<close>.\<close>
lemma imported_module_escapes:
  "check_purity_default (Other [ExprPath (Path False [''fs'', ''read'']) []]) = []"
  "check_purity_default (Other [ExprPath (Path False [''std'', ''fs'', ''read'']) []]) \<noteq> []"
proof -
  have "harmless (ExprPath (Path False [''fs'', ''read'']) [])" "\<not> harmless (ExprPath (Path False [''std'', ''fs'', ''read'']) [])"
    by (simp_all add: default_paths_def default_namespaces_def suffix_def append_eq_Cons_conv Cons_eq_append_conv)
  then have "verdict deny_compute_impurity (ExprPath (Path False [''fs'', ''read'']) []) = []"
    "verdict deny_compute_impurity (ExprPath (Path False [''std'', ''fs'', ''read'']) []) \<noteq> []"
    by (simp_all add: verdict_harmless ident_def del: verdict.simps harmless.simps)
  then show "check_purity_default (Other [ExprPath (Path False [''fs'', ''read'']) []]) = []"
    "check_purity_default (Other [ExprPath (Path False [''std'', ''fs'', ''read'']) []]) \<noteq> []"
    by (simp_all add: check_purity_default_def check_purity_def visit_verdicts del: verdict.simps(1))
qed

end
