(* ===== verification/Macros.thy ===== *)
theory Macros
  imports Actions Purity
begin

text \<open>The derives and the attribute of \<^verbatim>\<open>arkhe-forge-macros\<close>: the validation of the derive inputs, what the derives
emit, and \<^verbatim>\<open>#[arkhe_pure]\<close> over the lint.  The input is the tree of \<^verbatim>\<open>syn\<close>, down to what the validation reads; the
attributes are those \<^verbatim>\<open>darling\<close> parsed, or its error.\<close>

section \<open>Syntax\<close>

datatype 'ty path_arguments = NoArguments | AngleBracketed "'ty option list" | Parenthesized

text \<open>A generic argument is a type or something else (\<^term>\<open>None\<close>).  The length of an array is an integer literal with
what \<^verbatim>\<open>base10_parse::<usize>\<close> makes of it, or another expression.\<close>
datatype array_len = LitInt "nat option" | OtherExpr

datatype ty =
    TypePath (qself: bool) (type_segments: "(string \<times> ty path_arguments) list")
  | TypeArray ty array_len
  | OtherType

record field =
  field_ident :: string
  field_ty :: ty
  field_attrs :: "string + bool"

datatype data = NamedStruct "field list" | OtherData

datatype derive_error =
    Darling string
  | TypeCodeOutOfRange string u32
  | NotNamedStruct
  | NoFirstField
  | FirstFieldName string
  | SchemaVersionType
  | BandRange u8
  | IdempotencyKeyType
  | IdempotencyKeyMissing
  | CanonicalSortType

fun path_arguments_is_empty :: "'ty path_arguments \<Rightarrow> bool" where
  "path_arguments_is_empty NoArguments \<longleftrightarrow> True"
| "path_arguments_is_empty (AngleBracketed as) \<longleftrightarrow> as = []"
| "path_arguments_is_empty Parenthesized \<longleftrightarrow> False"

section \<open>Validation\<close>

datatype type_code_kind = ComponentKind | ActionKind | EventKind

fun core_range :: "type_code_kind \<Rightarrow> u32 \<times> u32" where
  "core_range ComponentKind = (0x00030000, 0x00030EFF)"
| "core_range ActionKind = (0x00010000, 0x0001FFFF)"
| "core_range EventKind = (0x00030F00, 0x0003FFFF)"

fun kind_label :: "type_code_kind \<Rightarrow> string" where
  "kind_label ComponentKind = ''ArkheComponent''"
| "kind_label ActionKind = ''ArkheAction''"
| "kind_label EventKind = ''ArkheEvent''"

definition SHELL_RANGE :: "u32 \<times> u32" where
  "SHELL_RANGE = (0x01000000, 0xEFFFFFFF)"

definition validate_type_code :: "u32 \<Rightarrow> type_code_kind \<Rightarrow> derive_error + unit" where
  "validate_type_code c k =
     (if in_range (core_range k) c \<or> in_range SHELL_RANGE c then Inr () else Inl (TypeCodeOutOfRange (kind_label k) c))"

fun named_fields :: "data \<Rightarrow> derive_error + field list" where
  "named_fields (NamedStruct fs) = Inr fs"
| "named_fields OtherData = Inl NotNamedStruct"

fun is_primitive :: "string \<Rightarrow> ty \<Rightarrow> bool" where
  "is_primitive name (TypePath qs segs) \<longleftrightarrow>
     \<not> qs \<and> segs \<noteq> [] \<and> fst (last segs) = name \<and> path_arguments_is_empty (snd (last segs))"
| "is_primitive name _ \<longleftrightarrow> False"

definition is_u16 :: "ty \<Rightarrow> bool" where "is_u16 t = is_primitive ''u16'' t"
definition is_u8 :: "ty \<Rightarrow> bool" where "is_u8 t = is_primitive ''u8'' t"

definition validate_schema_version_first_field :: "data \<Rightarrow> derive_error + unit" where
  "validate_schema_version_first_field d =
     (case named_fields d of
        Inl e \<Rightarrow> Inl e
      | Inr [] \<Rightarrow> Inl NoFirstField
      | Inr (f # _) \<Rightarrow>
          if field_ident f \<noteq> ''schema_version'' then Inl (FirstFieldName (field_ident f))
          else if \<not> is_u16 (field_ty f) then Inl SchemaVersionType else Inr ())"

definition validate_band :: "u8 \<Rightarrow> derive_error + unit" where
  "validate_band b = (if 1 \<le> b \<and> b \<le> 3 then Inr () else Inl (BandRange b))"

fun is_byte_array_16 :: "ty \<Rightarrow> bool" where
  "is_byte_array_16 (TypeArray elem len) \<longleftrightarrow> is_u8 elem \<and> len = LitInt (Some 16)"
| "is_byte_array_16 _ \<longleftrightarrow> False"

fun is_option_byte_array_16 :: "ty \<Rightarrow> bool" where
  "is_option_byte_array_16 (TypePath qs segs) \<longleftrightarrow>
     \<not> qs \<and> segs \<noteq> [] \<and> fst (last segs) = ''Option''
       \<and> (case snd (last segs) of AngleBracketed [Some inner] \<Rightarrow> is_byte_array_16 inner | _ \<Rightarrow> False)"
| "is_option_byte_array_16 _ \<longleftrightarrow> False"

fun validate_idempotency_key_field :: "data \<Rightarrow> derive_error + unit" where
  "validate_idempotency_key_field d =
     (case named_fields d of
        Inl e \<Rightarrow> Inl e
      | Inr fs \<Rightarrow>
          (case find (\<lambda>f. field_ident f = ''idempotency_key'') fs of
             None \<Rightarrow> Inl IdempotencyKeyMissing
           | Some f \<Rightarrow> if is_option_byte_array_16 (field_ty f) then Inr () else Inl IdempotencyKeyType))"

fun is_vec_or_btreeset :: "ty \<Rightarrow> bool" where
  "is_vec_or_btreeset (TypePath qs segs) \<longleftrightarrow> \<not> qs \<and> segs \<noteq> [] \<and> (fst (last segs) = ''Vec'' \<or> fst (last segs) = ''BTreeSet'')"
| "is_vec_or_btreeset _ \<longleftrightarrow> False"

fun canonical_sort_loop :: "field list \<Rightarrow> derive_error + unit" where
  "canonical_sort_loop [] = Inr ()"
| "canonical_sort_loop (f # fs) =
     (case field_attrs f of
        Inl e \<Rightarrow> Inl (Darling e)
      | Inr canonical_sort \<Rightarrow>
          if canonical_sort \<and> \<not> is_vec_or_btreeset (field_ty f) then Inl CanonicalSortType else canonical_sort_loop fs)"

fun validate_canonical_sort_fields :: "data \<Rightarrow> derive_error + unit" where
  "validate_canonical_sort_fields (NamedStruct fs) = canonical_sort_loop fs"
| "validate_canonical_sort_fields OtherData = Inr ()"

section \<open>The derives\<close>

record attrs =
  at_type_code :: u32
  at_schema_version :: u16

record action_attrs = attrs +
  at_band :: u8
  at_idempotent :: bool

definition default_schema_version :: u16 where
  "default_schema_version = 1"

text \<open>What is emitted: the constants of the marker trait (beside the codec \<^verbatim>\<open>c\<close> that \<^verbatim>\<open>serde\<close> derives), and for an action
those of the kernel's trait as well, whose schema version is the widened one and whose \<^verbatim>\<open>compute\<close> is the bridge's.\<close>
record kernel_deriv =
  kd_TYPE_CODE :: u32
  kd_SCHEMA_VERSION :: u32

fun andthen :: "'e + unit \<Rightarrow> 'e + 'b \<Rightarrow> 'e + 'b" where
  "andthen (Inl e) r = Inl e"
| "andthen (Inr u) r = r"

definition derive_component_impl :: "'a codec \<Rightarrow> data \<Rightarrow> attrs \<Rightarrow> derive_error + 'a arkhe_type" where
  "derive_component_impl c d a =
     andthen (validate_type_code (at_type_code a) ComponentKind)
    (andthen (validate_schema_version_first_field d)
    (andthen (validate_canonical_sort_fields d)
       (Inr \<lparr>TYPE_CODE = at_type_code a, SCHEMA_VERSION = at_schema_version a, postcard = c\<rparr>)))"

definition derive_event_impl :: "'a codec \<Rightarrow> data \<Rightarrow> attrs \<Rightarrow> derive_error + 'a arkhe_type" where
  "derive_event_impl c d a =
     andthen (validate_type_code (at_type_code a) EventKind)
    (andthen (validate_schema_version_first_field d)
    (andthen (validate_canonical_sort_fields d)
       (Inr \<lparr>TYPE_CODE = at_type_code a, SCHEMA_VERSION = at_schema_version a, postcard = c\<rparr>)))"

definition derive_action_impl :: "data \<Rightarrow> action_attrs \<Rightarrow> derive_error + (action_meta \<times> kernel_deriv)" where
  "derive_action_impl d a =
     andthen (validate_type_code (at_type_code a) ActionKind)
    (andthen (validate_schema_version_first_field d)
    (andthen (validate_band (at_band a))
    (andthen (if at_idempotent a then validate_idempotency_key_field d else Inr ())
       (Inr (\<lparr>am_type_code = at_type_code a, am_schema_version = at_schema_version a, am_band = at_band a,
              am_idempotent = at_idempotent a\<rparr>,
             \<lparr>kd_TYPE_CODE = at_type_code a, kd_SCHEMA_VERSION = ucast (at_schema_version a)\<rparr>)))))"

text \<open>The three entry points: the attributes parse or the errors of \<^verbatim>\<open>darling\<close> are written.\<close>
definition derive_arkhe_component :: "'a codec \<Rightarrow> (string + attrs) \<Rightarrow> data \<Rightarrow> derive_error + 'a arkhe_type" where
  "derive_arkhe_component c parsed_attrs d = (case parsed_attrs of Inl e \<Rightarrow> Inl (Darling e) | Inr a \<Rightarrow> derive_component_impl c d a)"

definition derive_arkhe_event :: "'a codec \<Rightarrow> (string + attrs) \<Rightarrow> data \<Rightarrow> derive_error + 'a arkhe_type" where
  "derive_arkhe_event c parsed_attrs d = (case parsed_attrs of Inl e \<Rightarrow> Inl (Darling e) | Inr a \<Rightarrow> derive_event_impl c d a)"

definition derive_arkhe_action :: "(string + action_attrs) \<Rightarrow> data \<Rightarrow> derive_error + (action_meta \<times> kernel_deriv)" where
  "derive_arkhe_action parsed_attrs d = (case parsed_attrs of Inl e \<Rightarrow> Inl (Darling e) | Inr a \<Rightarrow> derive_action_impl d a)"

section \<open>The attribute\<close>

text \<open>What the attribute expands to: compile errors and the original item, or the item alone.\<close>
datatype 'item expansion = CompileErrors "string list" "'item option" | Unchanged 'item

definition purity_message :: "purity_violation \<Rightarrow> string" where
  "purity_message v =
     ''E14.L1 Subset-Rust purity violation: `'' @ denied_path v @ ''` ('' @ reason v @ ''). see arkhe-subset-rust-check policy.''"

definition arkhe_pure :: "('item \<Rightarrow> string + node) \<Rightarrow> 'item \<Rightarrow> 'item expansion" where
  "arkhe_pure parse_fn item =
     (case parse_fn item of
        Inl e \<Rightarrow> CompileErrors [e] None
      | Inr f \<Rightarrow>
          let violations = check_purity_default f in
          if violations = [] then Unchanged item else CompileErrors (map purity_message violations) (Some item))"

section \<open>What the derives accept\<close>

lemma andthen_Inr: "andthen a r = Inr x \<longleftrightarrow> a = Inr () \<and> r = Inr x"
  by (cases a) auto

lemma validate_type_code_Inr:
  "validate_type_code c k = Inr u \<longleftrightarrow> in_range (core_range k) c \<or> in_range SHELL_SCOPED c"
  by (simp add: validate_type_code_def SHELL_RANGE_def SHELL_SCOPED_def)

text \<open>The accepted types, written out: a path without a qualified self type that ends in the name, whatever the segments before it,
with no generic arguments or an empty list of them; for the key, one that ends in \<^verbatim>\<open>Option\<close> of exactly one argument, which is an
array of 16 bytes.\<close>
definition paths_to :: "string \<Rightarrow> ty path_arguments set \<Rightarrow> ty set" where
  "paths_to n As = {TypePath False (q @ [(n, as)]) | q as. as \<in> As}"

definition u16_types :: "ty set" where
  "u16_types = paths_to ''u16'' {NoArguments, AngleBracketed []}"

definition key_types :: "ty set" where
  "key_types = paths_to ''Option''
     {AngleBracketed [Some (TypeArray elem (LitInt (Some 16)))] | elem. elem \<in> paths_to ''u8'' {NoArguments, AngleBracketed []}}"

lemma paths_to_iff: "TypePath qs segs \<in> paths_to n As \<longleftrightarrow> \<not> qs \<and> segs \<noteq> [] \<and> fst (last segs) = n \<and> snd (last segs) \<in> As"
  by (cases segs rule: rev_cases) (auto simp: paths_to_def)

lemma not_paths_to: "TypeArray t l \<notin> paths_to n As" "OtherType \<notin> paths_to n As"
  by (simp_all add: paths_to_def)

lemma path_arguments_is_empty_iff: "path_arguments_is_empty as \<longleftrightarrow> as \<in> {NoArguments, AngleBracketed []}"
  by (cases as) auto

lemma is_primitive_iff: "is_primitive n t \<longleftrightarrow> t \<in> paths_to n {NoArguments, AngleBracketed []}"
  by (cases t) (simp_all add: paths_to_iff not_paths_to path_arguments_is_empty_iff)

lemma is_u16_iff: "is_u16 t \<longleftrightarrow> t \<in> u16_types"
  by (simp add: is_u16_def is_primitive_iff u16_types_def)

lemma is_byte_array_16_iff:
  "is_byte_array_16 t \<longleftrightarrow> (\<exists>elem. t = TypeArray elem (LitInt (Some 16)) \<and> elem \<in> paths_to ''u8'' {NoArguments, AngleBracketed []})"
  by (cases t) (auto simp: is_u8_def is_primitive_iff)

lemma is_option_byte_array_16_iff: "is_option_byte_array_16 t \<longleftrightarrow> t \<in> key_types"
proof (cases t)
  case (TypePath qs segs)
  have "(case as of AngleBracketed [Some inner] \<Rightarrow> is_byte_array_16 inner | _ \<Rightarrow> False) \<longleftrightarrow>
      as \<in> {AngleBracketed [Some (TypeArray elem (LitInt (Some 16)))] | elem. elem \<in> paths_to ''u8'' {NoArguments, AngleBracketed []}}" for as
  proof (cases as)
    case (AngleBracketed ts)
    then show ?thesis by (cases ts rule: remdups_adj.cases) (auto simp: is_byte_array_16_iff split: option.splits)
  qed auto
  then show ?thesis by (simp add: TypePath key_types_def paths_to_iff)
qed (simp_all add: key_types_def not_paths_to)

definition starts_with_version :: "field list \<Rightarrow> bool" where
  "starts_with_version fs \<longleftrightarrow> fs \<noteq> [] \<and> field_ident (hd fs) = ''schema_version'' \<and> field_ty (hd fs) \<in> u16_types"

lemma validate_schema_version_Inr:
  "validate_schema_version_first_field d = Inr u \<longleftrightarrow> (\<exists>fs. d = NamedStruct fs \<and> starts_with_version fs)"
  by (cases d) (auto simp: validate_schema_version_first_field_def starts_with_version_def is_u16_iff split: list.split)

lemma validate_band_Inr: "validate_band b = Inr u \<longleftrightarrow> b \<in> {1, 2, 3}"
proof -
  have "1 \<le> b \<and> b \<le> 3 \<longleftrightarrow> unat b \<in> {1, 2, 3}" by (auto simp: word_le_nat_alt)
  also have "\<dots> \<longleftrightarrow> b \<in> {1, 2, 3}" by (auto simp: word_unat_eq_iff)
  finally show ?thesis by (simp add: validate_band_def)
qed

lemma canonical_sort_Inr:
  "canonical_sort_loop fs = Inr u \<longleftrightarrow>
     list_all (\<lambda>f. field_attrs f = Inr False \<or> field_attrs f = Inr True \<and> is_vec_or_btreeset (field_ty f)) fs"
  by (induction fs) (auto split: sum.split)

lemma validate_idempotency_Inr:
  "validate_idempotency_key_field (NamedStruct fs) = Inr u \<longleftrightarrow>
     (\<exists>f. find (\<lambda>f. field_ident f = ''idempotency_key'') fs = Some f \<and> field_ty f \<in> key_types)"
  by (auto simp: is_option_byte_array_16_iff split: option.split)

lemmas derive_Inr = andthen_Inr validate_type_code_Inr validate_schema_version_Inr validate_band_Inr
  validate_idempotency_Inr canonical_sort_Inr

text \<open>C23: what an action derive accepts and emits. The derive succeeds exactly on a struct of named fields whose first field is named
\<^verbatim>\<open>schema_version\<close> and has a type that is a path ending in \<^verbatim>\<open>u16\<close>, with a code of the entity or the shell range, a band of 1 to 3, and,
when idempotent, a first field named \<^verbatim>\<open>idempotency_key\<close> whose type is a path ending in \<^verbatim>\<open>Option<[u8; 16]>\<close>. Any segments may stand
before the last one, so a qualified \<^verbatim>\<open>Option\<close> is accepted too. The metadata of the runtime and of the kernel then carry the same
code and the same version.\<close>
theorem action_derive_accepts:
  "derive_arkhe_action parsed_attrs d = Inr (m, k) \<longleftrightarrow>
     (\<exists>a fs. parsed_attrs = Inr a \<and> d = NamedStruct fs \<and> starts_with_version fs
        \<and> unat (at_type_code a) \<in> {0x00010000..0x0001FFFF} \<union> {0x01000000..0xEFFFFFFF} \<and> at_band a \<in> {1, 2, 3}
        \<and> (at_idempotent a \<longrightarrow> (\<exists>f. find (\<lambda>f. field_ident f = ''idempotency_key'') fs = Some f \<and> field_ty f \<in> key_types))
        \<and> am_type_code m = at_type_code a \<and> am_schema_version m = at_schema_version a \<and> am_band m = at_band a
        \<and> am_idempotent m = at_idempotent a \<and> kd_TYPE_CODE k = am_type_code m
        \<and> unat (kd_SCHEMA_VERSION k) = unat (am_schema_version m))"
  (is "?l \<longleftrightarrow> ?r")
proof -
  have u: "unat k = unat v \<longleftrightarrow> k = ucast v" for k :: u32 and v :: u16
  proof -
    have "unat (ucast v :: u32) = unat v" by (simp add: unsigned_ucast_eq take_bit_nat_eq_self order.strict_trans[OF unsigned_less])
    then show ?thesis by (metis word_unat_eq_iff)
  qed
  have code: "in_range (core_range ActionKind) c \<or> in_range SHELL_SCOPED c \<longleftrightarrow> unat c \<in> {0x00010000..0x0001FFFF} \<union> {0x01000000..0xEFFFFFFF}" for c
    by (simp add: in_range_def SHELL_SCOPED_def word_le_nat_alt)
  have id: "(if b then validate_idempotency_key_field (NamedStruct fs) else Inr ()) = Inr () \<longleftrightarrow>
     (b \<longrightarrow> (\<exists>f. find (\<lambda>f. field_ident f = ''idempotency_key'') fs = Some f \<and> field_ty f \<in> key_types))" for b fs
    by (cases b) (simp_all only: validate_idempotency_Inr if_True if_False simp_thms)
  show ?thesis
    by (cases parsed_attrs; cases m; cases k; cases d)
      (auto simp: derive_arkhe_action_def derive_action_impl_def derive_Inr(1-4) code id u simp del: validate_idempotency_key_field.simps core_range.simps)
qed

theorem action_derive_accepts_witness:
  "derive_arkhe_action (Inr \<lparr>at_type_code = 0x00010007, at_schema_version = 2, at_band = 3, at_idempotent = True\<rparr>)
     (NamedStruct
       [\<lparr>field_ident = ''schema_version'', field_ty = TypePath False [(''u16'', NoArguments)], field_attrs = Inr False\<rparr>,
        \<lparr>field_ident = ''idempotency_key'',
         field_ty = TypePath False [(''Option'', AngleBracketed [Some (TypeArray (TypePath False [(''u8'', NoArguments)]) (LitInt (Some 16)))])],
         field_attrs = Inr False\<rparr>])
   = Inr (\<lparr>am_type_code = 0x00010007, am_schema_version = 2, am_band = 3, am_idempotent = True\<rparr>,
          \<lparr>kd_TYPE_CODE = 0x00010007, kd_SCHEMA_VERSION = 2\<rparr>)"
  unfolding action_derive_accepts
  by (simp add: starts_with_version_def u16_types_def key_types_def paths_to_iff)

text \<open>The codes of the derives are kept apart. A component, an action and an event that are derived with the core ranges never share a
code; whatever is derived avoids the codes of the kernel, of the verbs, of the runtime's reserve and of the debug range.\<close>
theorem derived_codes_apart:
  assumes "derive_arkhe_component c ca cd = Inr C" "derive_arkhe_event e ea ed = Inr E" "derive_arkhe_action aa ad = Inr (m, k)"
  shows "list_all (\<lambda>t. \<not> list_ex (\<lambda>r. in_range r t) [KERNEL_RESERVED, CORE_VERB_CANONICAL, SHELL_VERB, RUNTIME_RESERVED, DEBUG_TEST])
           [TYPE_CODE C, TYPE_CODE E, am_type_code m]
     \<and> (distinct [TYPE_CODE C, TYPE_CODE E, am_type_code m]
        \<or> list_ex (in_range SHELL_SCOPED) [TYPE_CODE C, TYPE_CODE E, am_type_code m])"
proof -
  have "in_range CORE_COMPONENT (TYPE_CODE C) \<or> in_range SHELL_SCOPED (TYPE_CODE C)"
    using assms(1) by (auto simp: derive_arkhe_component_def derive_component_impl_def derive_Inr(1,2) CORE_COMPONENT_def split: sum.splits)
  moreover have "in_range CORE_EVENT (TYPE_CODE E) \<or> in_range SHELL_SCOPED (TYPE_CODE E)"
    using assms(2) by (auto simp: derive_arkhe_event_def derive_event_impl_def derive_Inr(1,2) CORE_EVENT_def split: sum.splits)
  moreover have "in_range CORE_ENTITY (am_type_code m) \<or> in_range SHELL_SCOPED (am_type_code m)"
    using assms(3) by (auto simp: derive_arkhe_action_def derive_action_impl_def derive_Inr(1,2) CORE_ENTITY_def split: sum.splits)
  ultimately show ?thesis by (auto simp: in_range_unat range_defs)
qed

theorem derived_codes_apart_witness:
  "let d = NamedStruct [\<lparr>field_ident = ''schema_version'', field_ty = TypePath False [(''u16'', NoArguments)], field_attrs = Inr False\<rparr>];
       C = projr (derive_arkhe_component (table_codec []) (Inr \<lparr>at_type_code = 0x00030101, at_schema_version = 1\<rparr>) d :: derive_error + nat arkhe_type);
       E = projr (derive_arkhe_event (table_codec []) (Inr \<lparr>at_type_code = 0x00030F01, at_schema_version = 1\<rparr>) d :: derive_error + nat arkhe_type);
       m = fst (projr (derive_arkhe_action (Inr \<lparr>at_type_code = 0x00010001, at_schema_version = 1, at_band = 1, at_idempotent = False\<rparr>) d))
   in distinct [TYPE_CODE C, TYPE_CODE E, am_type_code m]
        \<or> list_ex (in_range SHELL_SCOPED) [TYPE_CODE C, TYPE_CODE E, am_type_code m]"
proof -
  let ?d = "NamedStruct [\<lparr>field_ident = ''schema_version'', field_ty = TypePath False [(''u16'', NoArguments)], field_attrs = Inr False\<rparr>]"
  have "\<exists>C. derive_arkhe_component (table_codec [] :: nat codec) (Inr \<lparr>at_type_code = 0x00030101, at_schema_version = 1\<rparr>) ?d = Inr C"
    "\<exists>E. derive_arkhe_event (table_codec [] :: nat codec) (Inr \<lparr>at_type_code = 0x00030F01, at_schema_version = 1\<rparr>) ?d = Inr E"
    "\<exists>m k. derive_arkhe_action (Inr \<lparr>at_type_code = 0x00010001, at_schema_version = 1, at_band = 1, at_idempotent = False\<rparr>) ?d = Inr (m, k)"
    by (simp_all add: derive_arkhe_component_def derive_component_impl_def derive_arkhe_event_def derive_event_impl_def
      derive_arkhe_action_def derive_action_impl_def validate_type_code_def in_range_def validate_schema_version_first_field_def
      is_u16_def validate_band_def word_le_nat_alt)
  then obtain C E m k where
    "derive_arkhe_component (table_codec [] :: nat codec) (Inr \<lparr>at_type_code = 0x00030101, at_schema_version = 1\<rparr>) ?d = Inr C"
    "derive_arkhe_event (table_codec [] :: nat codec) (Inr \<lparr>at_type_code = 0x00030F01, at_schema_version = 1\<rparr>) ?d = Inr E"
    "derive_arkhe_action (Inr \<lparr>at_type_code = 0x00010001, at_schema_version = 1, at_band = 1, at_idempotent = False\<rparr>) ?d = Inr (m, k)"
    by blast
  then show ?thesis using derived_codes_apart[of _ _ ?d C _ _ ?d E _ ?d m k] by (simp add: Let_def)
qed

text \<open>The declarations of the core actions, as far as the derive reads them.\<close>
definition plain_field :: "string \<Rightarrow> ty \<Rightarrow> field" where
  "plain_field i t = \<lparr>field_ident = i, field_ty = t, field_attrs = Inr False\<rparr>"

definition core_action_decl :: "u32 \<Rightarrow> bool \<Rightarrow> (string \<times> ty) list \<Rightarrow> action_attrs \<times> data" where
  "core_action_decl c i fs =
     (\<lparr>at_type_code = c, at_schema_version = 1, at_band = 1, at_idempotent = i\<rparr>,
      NamedStruct (map (\<lambda>(n, t). plain_field n t) ((''schema_version'', TypePath False [(''u16'', NoArguments)]) # fs)))"

definition named :: "string \<Rightarrow> ty" where
  "named n = TypePath False [(n, NoArguments)]"

definition RegisterUser_decl :: "action_attrs \<times> data" where
  "RegisterUser_decl = core_action_decl 0x00010001 False [(''profile'', named ''UserProfile''), (''credential'', named ''AuthCredential'')]"
definition GdprEraseUser_decl :: "action_attrs \<times> data" where
  "GdprEraseUser_decl = core_action_decl 0x00010003 False [(''user'', named ''UserId'')]"
definition RegisterActor_decl :: "action_attrs \<times> data" where
  "RegisterActor_decl = core_action_decl 0x00010101 False [(''profile'', named ''ActorProfile''), (''user'', named ''UserId'')]"
definition CreateSpace_decl :: "action_attrs \<times> data" where
  "CreateSpace_decl = core_action_decl 0x00010201 False [(''config'', named ''SpaceConfigDraft'')]"
definition SubmitActivity_decl :: "action_attrs \<times> data" where
  "SubmitActivity_decl = core_action_decl 0x00010401 True [(''draft'', named ''ActivityDraft''),
     (''idempotency_key'', TypePath False [(''Option'', AngleBracketed [Some (TypeArray (named ''u8'') (LitInt (Some 16)))])])]"
definition RetractActivity_decl :: "action_attrs \<times> data" where
  "RetractActivity_decl = core_action_decl 0x00010402 False [(''activity'', named ''ActivityId'')]"

lemmas decl_defs = RegisterUser_decl_def GdprEraseUser_decl_def RegisterActor_decl_def CreateSpace_decl_def
  SubmitActivity_decl_def RetractActivity_decl_def

text \<open>The derive gives the core actions the metadata that the runtime and the kernel use, from their declarations.\<close>
theorem core_actions_derive:
  "list_all (\<lambda>((a, d), m).
     derive_arkhe_action (Inr a) d = Inr (m, \<lparr>kd_TYPE_CODE = am_type_code m, kd_SCHEMA_VERSION = 1\<rparr>))
     [(RegisterUser_decl, RegisterUser_meta), (GdprEraseUser_decl, GdprEraseUser_meta), (RegisterActor_decl, RegisterActor_meta),
      (CreateSpace_decl, CreateSpace_meta), (SubmitActivity_decl, SubmitActivity_meta), (RetractActivity_decl, RetractActivity_meta)]"
  by (simp add: decl_defs meta_defs core_action_decl_def plain_field_def named_def
      derive_arkhe_action_def derive_action_impl_def validate_type_code_def in_range_def validate_schema_version_first_field_def
      is_u16_def is_u8_def validate_band_def word_le_nat_alt)

text \<open>A qualified \<^verbatim>\<open>Option\<close> passes the check of the key field, since only the last segment is read.\<close>
lemma qualified_option_accepted:
  "is_option_byte_array_16 (TypePath False [(''std'', NoArguments), (''option'', NoArguments),
     (''Option'', AngleBracketed [Some (TypeArray (named ''u8'') (LitInt (Some 16)))])])"
  by (simp add: named_def is_u8_def)

section \<open>The purity attribute\<close>

text \<open>The attribute is the lint's gate. A function that parses is left as it is exactly when none of the nodes the visitor reaches
(the arguments of macros included) names a denied item under its path or an import of it, names something of a denied namespace, is unsafe,
or invokes a denied macro.\<close>
theorem arkhe_pure_gate:
  assumes "parse_fn item = Inr f" "list_all parsed (visited f)"
  shows "arkhe_pure parse_fn item = Unchanged item \<longleftrightarrow> list_all harmless (visited f)"
  using pure_iff_harmless[OF assms(2)] assms(1) by (simp add: arkhe_pure_def Let_def)

theorem arkhe_pure_gate_witness:
  "arkhe_pure (\<lambda>i. if i = (0::nat) then Inr (Other [Signature False ''compute'' [], ExprPath (Path True [''my'', ''random'']) [],
       Macro (Path False [''vec'']) [] (Some [ExprPath (Path False [''a'']) []]) []]) else Inl ''parse'') 0 = Unchanged 0"
  by (subst arkhe_pure_gate[where f = "Other [Signature False ''compute'' [], ExprPath (Path True [''my'', ''random'']) [],
       Macro (Path False [''vec'']) [] (Some [ExprPath (Path False [''a'']) []]) []]"])
    (simp_all add: ident_def default_paths_def default_namespaces_def default_macros_def suffix_def
      append_eq_Cons_conv Cons_eq_append_conv)

end
