(* ===== verification/Workspace_Scan.thy ===== *)
theory Workspace_Scan
  imports Macros Rust_Text
begin

text \<open>The two workspace scans of \<^verbatim>\<open>arkhe-trait-default-check/tests\<close>: the coverage of \<^verbatim>\<open>compute\<close> by the purity attribute, and
the absence of the forward-looking events.  The file system is a tree of directories and files with their contents, \<^term>\<open>None\<close>
where a file cannot be read; paths are relative to the workspace root.  The parser of \<^verbatim>\<open>syn\<close> is a parameter, its trees hold
what the visitor reads.  A panic of the test is \<^term>\<open>None\<close>.\<close>

section \<open>Files\<close>

datatype fs_entry = Dir "fs_entry list" | File (rel_path: string) (extension: "string option") (contents: "codes option")

definition RUNTIME_CRATES :: "string list" where
  "RUNTIME_CRATES = [''arkhe-forge-core'', ''arkhe-forge-platform'', ''arkhe-forge'']"

text \<open>The workspace: the entries of the source directory of a crate, when there is one.\<close>
type_synonym workspace = "string \<Rightarrow> fs_entry list option"

section \<open>The coverage of compute\<close>

record attribute =
  attr_path :: path
  attr_args :: "path option"

record 'i impl_fn =
  fn_ident :: string
  fn_attrs :: "attribute list"
  fn_item :: 'i

datatype 'i syn_item =
    ItemMod "attribute list" "'i syn_item list"
  | ItemImpl "path option" ty "'i impl_fn list" "'i syn_item list"
  | OtherSyntax "'i syn_item list"

definition is_ident :: "path \<Rightarrow> string \<Rightarrow> bool" where
  "is_ident p s \<longleftrightarrow> \<not> leading_colon p \<and> segments p = [s]"

text \<open>The arguments of an attribute, when it is a list that parses as one path.\<close>
definition is_cfg_test :: "attribute list \<Rightarrow> bool" where
  "is_cfg_test attrs =
     list_ex (\<lambda>a. is_ident (attr_path a) ''cfg'' \<and> (case attr_args a of Some p \<Rightarrow> is_ident p ''test'' | None \<Rightarrow> False)) attrs"

definition has_pure :: "'i impl_fn \<Rightarrow> bool" where
  "has_pure f = list_ex (\<lambda>a. segments (attr_path a) \<noteq> [] \<and> last (segments (attr_path a)) = ''arkhe_pure'') (fn_attrs f)"

fun type_to_string :: "ty \<Rightarrow> string" where
  "type_to_string (TypePath q segs) = (if segs = [] then ''<complex>'' else fst (last segs))"
| "type_to_string _ = ''<complex>''"

definition check_impl :: "string \<Rightarrow> path option \<Rightarrow> ty \<Rightarrow> 'i impl_fn list \<Rightarrow> string list" where
  "check_impl path trait self fns =
     (case trait of
        None \<Rightarrow> []
      | Some p \<Rightarrow>
          if segments p = [] \<or> last (segments p) \<noteq> ''ActionCompute'' then []
          else
            concat (map (\<lambda>f. if fn_ident f = ''compute'' \<and> \<not> has_pure f
                             then [path @ '': impl ActionCompute for '' @ type_to_string self @ ''::compute()''] else []) fns))"

fun coverage_visit :: "string \<Rightarrow> 'i syn_item \<Rightarrow> string list" where
  "coverage_visit path (ItemMod attrs cs) = (if is_cfg_test attrs then [] else concat (map (coverage_visit path) cs))"
| "coverage_visit path (ItemImpl t s fns cs) = check_impl path t s fns @ concat (map (coverage_visit path) cs)"
| "coverage_visit path (OtherSyntax cs) = concat (map (coverage_visit path) cs)"

definition scan_syntax_tree :: "'i syn_item list \<Rightarrow> string \<Rightarrow> string list" where
  "scan_syntax_tree file path = concat (map (coverage_visit path) file)"

definition coverage_scan_file :: "(codes \<Rightarrow> 'i syn_item list option) \<Rightarrow> string \<Rightarrow> codes option \<Rightarrow> string list option" where
  "coverage_scan_file parse path src =
     (case src of None \<Rightarrow> None | Some text \<Rightarrow> map_option (\<lambda>file. scan_syntax_tree file path) (parse text))"

text \<open>The directory walk, shared by both scans: what is reported and the number of source files seen.\<close>
fun scan_entry :: "(string \<Rightarrow> codes option \<Rightarrow> 'v list option) \<Rightarrow> fs_entry \<Rightarrow> ('v list \<times> nat) option"
  and scan_dir :: "(string \<Rightarrow> codes option \<Rightarrow> 'v list option) \<Rightarrow> fs_entry list \<Rightarrow> ('v list \<times> nat) option" where
  "scan_entry scan_file (Dir es) = scan_dir scan_file es"
| "scan_entry scan_file (File path ext src) =
     (if ext = Some ''rs'' then map_option (\<lambda>vs. (vs, 1)) (scan_file path src) else Some ([], 0))"
| "scan_dir scan_file [] = Some ([], 0)"
| "scan_dir scan_file (e # es) =
     (case scan_entry scan_file e of
        None \<Rightarrow> None
      | Some (vs, n) \<Rightarrow> (case scan_dir scan_file es of None \<Rightarrow> None | Some (ws, k) \<Rightarrow> Some (vs @ ws, n + k)))"

text \<open>The crates in turn; a crate without sources is skipped.\<close>
fun scan_crates :: "(string \<Rightarrow> codes option \<Rightarrow> 'v list option) \<Rightarrow> workspace \<Rightarrow> string list \<Rightarrow> ('v list \<times> nat) option" where
  "scan_crates scan_file root [] = Some ([], 0)"
| "scan_crates scan_file root (c # cs) =
     (case root c of
        None \<Rightarrow> scan_crates scan_file root cs
      | Some es \<Rightarrow>
          (case scan_dir scan_file es of
             None \<Rightarrow> None
           | Some (vs, n) \<Rightarrow> (case scan_crates scan_file root cs of None \<Rightarrow> None | Some (ws, k) \<Rightarrow> Some (vs @ ws, n + k))))"

text \<open>The tests pass when something was scanned and nothing was reported.\<close>
definition scan_passes :: "('v list \<times> nat) option \<Rightarrow> bool" where
  "scan_passes r \<longleftrightarrow> (case r of None \<Rightarrow> False | Some (vs, n) \<Rightarrow> n > 0 \<and> vs = [])"

definition all_action_compute_impls_have_arkhe_pure :: "(codes \<Rightarrow> 'i syn_item list option) \<Rightarrow> workspace \<Rightarrow> bool" where
  "all_action_compute_impls_have_arkhe_pure parse root =
     scan_passes (scan_crates (coverage_scan_file parse) root RUNTIME_CRATES)"

section \<open>The forward-looking events\<close>

definition ALLOWED_FILES :: "string list" where
  "ALLOWED_FILES = [''arkhe-forge-core/src/event.rs'', ''arkhe-forge-core/src/typecode.rs'']"

definition FORBIDDEN_TYPES :: "string list" where
  "FORBIDDEN_TYPES = [''ReplicaIdAllocation'', ''AuditReceiptKeyPolicy'']"

text \<open>A violation: the file, the line (from 1) and the name.\<close>
definition zero_emission_scan_file :: "string \<Rightarrow> codes option \<Rightarrow> (string \<times> nat \<times> string) list option" where
  "zero_emission_scan_file path src =
     (if path \<in> set ALLOWED_FILES then Some []
      else
        map_option (\<lambda>text.
          concat (map (\<lambda>ty. case position (\<lambda>l. contains l (codes_of ty)) (lines text) of
                             Some line_no \<Rightarrow> [(path, line_no + 1, ty)] | None \<Rightarrow> []) FORBIDDEN_TYPES)) src)"

definition forward_looking_events_have_zero_production_emit_sites :: "workspace \<Rightarrow> bool" where
  "forward_looking_events_have_zero_production_emit_sites root =
     scan_passes (scan_crates zero_emission_scan_file root RUNTIME_CRATES)"

section \<open>What passing means\<close>

text \<open>The source files below an entry and of the scanned crates.\<close>
fun rs_files :: "fs_entry \<Rightarrow> (string \<times> codes option) list" where
  "rs_files (Dir es) = concat (map rs_files es)"
| "rs_files (File path ext src) = (if ext = Some ''rs'' then [(path, src)] else [])"

definition crate_files :: "workspace \<Rightarrow> string list \<Rightarrow> (string \<times> codes option) list" where
  "crate_files root cs = concat (map (\<lambda>c. case root c of None \<Rightarrow> [] | Some es \<Rightarrow> concat (map rs_files es)) cs)"

text \<open>All files are scanned in order, and a file that cannot be scanned fails the whole.\<close>
definition scan_all :: "(string \<Rightarrow> codes option \<Rightarrow> 'v list option) \<Rightarrow> (string \<times> codes option) list \<Rightarrow> ('v list \<times> nat) option" where
  "scan_all f xs =
     (if list_all (\<lambda>(p, src). f p src \<noteq> None) xs then Some (concat (map (\<lambda>(p, src). the (f p src)) xs), length xs) else None)"

lemma scan_all_append:
  "scan_all f (xs @ ys) =
     (case scan_all f xs of None \<Rightarrow> None
      | Some (vs, n) \<Rightarrow> (case scan_all f ys of None \<Rightarrow> None | Some (ws, k) \<Rightarrow> Some (vs @ ws, n + k)))"
  by (simp add: scan_all_def)

lemma scan_dir_all:
  "scan_entry f e = scan_all f (rs_files e)" "scan_dir f es = scan_all f (concat (map rs_files es))"
proof (induction f e and f es rule: scan_entry_scan_dir.induct)
  case (4 f e es)
  then show ?case by (auto simp: scan_all_append split: option.split)
qed (auto simp: scan_all_def)

lemma crate_files_simps:
  "crate_files root [] = []"
  "crate_files root (c # cs) = (case root c of None \<Rightarrow> [] | Some es \<Rightarrow> concat (map rs_files es)) @ crate_files root cs"
  by (simp_all add: crate_files_def)

lemma scan_crates_all: "scan_crates f root cs = scan_all f (crate_files root cs)"
proof (induction cs)
  case (Cons c cs)
  then show ?case
    unfolding scan_crates.simps Cons.IH by (cases "root c") (simp_all add: crate_files_simps scan_all_append scan_dir_all)
qed (simp add: scan_all_def crate_files_def)

lemma scan_passes_all:
  "scan_passes (scan_all f xs) \<longleftrightarrow> xs \<noteq> [] \<and> (\<forall>(p, src)\<in>set xs. f p src = Some [])"
proof -
  have "(\<forall>(p, src)\<in>set xs. f p src = Some []) \<longleftrightarrow>
      (\<forall>(p, src)\<in>set xs. f p src \<noteq> None) \<and> (\<forall>(p, src)\<in>set xs. the (f p src) = [])"
    by fastforce
  then show ?thesis by (auto simp: scan_passes_def scan_all_def list_all_iff)
qed

text \<open>A scanner of files: it reports nothing about a file exactly when the file is clean.  The walk then passes exactly when
there is something to scan and all of it is clean.\<close>
locale file_scanner =
  fixes scan_file :: "string \<Rightarrow> codes option \<Rightarrow> 'v list option"
    and clean :: "string \<Rightarrow> codes option \<Rightarrow> bool"
  assumes clean_iff: "scan_file path src = Some [] \<longleftrightarrow> clean path src"
begin

lemma passes_iff:
  "scan_passes (scan_crates scan_file root cs) \<longleftrightarrow>
     crate_files root cs \<noteq> [] \<and> list_all (\<lambda>(path, src). clean path src) (crate_files root cs)"
  unfolding scan_crates_all scan_passes_all clean_iff list_all_iff ..

lemma passes_clean: "scan_passes (scan_crates scan_file root cs) \<Longrightarrow> (path, src) \<in> set (crate_files root cs) \<Longrightarrow> clean path src"
  by (auto simp: passes_iff list_all_iff)

end

subsection \<open>Coverage\<close>

text \<open>What is production code, and what stands under the purity attribute, in terms of the attributes as they are written: a test
module carries \<^verbatim>\<open>#[cfg(test)]\<close> and nothing else exempts it, the attribute may be written with any path in front of its name.\<close>
definition test_module :: "attribute list \<Rightarrow> bool" where
  "test_module attrs \<longleftrightarrow> \<lparr>attr_path = Path False [''cfg''], attr_args = Some (Path False [''test''])\<rparr> \<in> set attrs"

definition attribute_macros :: "'i impl_fn \<Rightarrow> string list set" where
  "attribute_macros f = {segments (attr_path a) | a. a \<in> set (fn_attrs f)}"

lemma is_ident_iff: "is_ident p s \<longleftrightarrow> p = Path False [s]"
  by (cases p) (auto simp: is_ident_def)

lemma is_cfg_test_iff: "is_cfg_test attrs \<longleftrightarrow> test_module attrs"
proof -
  have one: "is_ident (attr_path a) ''cfg'' \<and> (case attr_args a of Some p \<Rightarrow> is_ident p ''test'' | None \<Rightarrow> False)
      \<longleftrightarrow> a = \<lparr>attr_path = Path False [''cfg''], attr_args = Some (Path False [''test''])\<rparr>" for a :: attribute
    by (cases a) (auto simp: is_ident_iff split: option.splits)
  show ?thesis unfolding is_cfg_test_def one test_module_def by (auto simp: list_ex_iff)
qed

lemma has_pure_iff: "has_pure f \<longleftrightarrow> (\<exists>pre. pre @ [''arkhe_pure''] \<in> attribute_macros f)"
proof
  assume "has_pure f"
  then obtain a where a: "a \<in> set (fn_attrs f)" "segments (attr_path a) \<noteq> []" "last (segments (attr_path a)) = ''arkhe_pure''"
    by (auto simp: has_pure_def list_ex_iff)
  then have "segments (attr_path a) = butlast (segments (attr_path a)) @ [''arkhe_pure'']" by (metis append_butlast_last_id)
  then show "\<exists>pre. pre @ [''arkhe_pure''] \<in> attribute_macros f" using a(1) unfolding attribute_macros_def mem_Collect_eq by metis
next
  assume "\<exists>pre. pre @ [''arkhe_pure''] \<in> attribute_macros f"
  then obtain pre a where "a \<in> set (fn_attrs f)" "segments (attr_path a) = pre @ [''arkhe_pure'']"
    unfolding attribute_macros_def mem_Collect_eq by metis
  then show "has_pure f" by (force simp: has_pure_def list_ex_iff)
qed

text \<open>The impls the compiler sees: those not under a test module.\<close>
fun production_impls :: "'i syn_item \<Rightarrow> (path option \<times> ty \<times> 'i impl_fn list) list" where
  "production_impls (ItemMod attrs cs) = (if test_module attrs then [] else concat (map production_impls cs))"
| "production_impls (ItemImpl t s fns cs) = (t, s, fns) # concat (map production_impls cs)"
| "production_impls (OtherSyntax cs) = concat (map production_impls cs)"

definition compute_fns :: "path option \<Rightarrow> 'i impl_fn list \<Rightarrow> 'i impl_fn list" where
  "compute_fns t fns =
     (case t of None \<Rightarrow> []
      | Some p \<Rightarrow> if segments p \<noteq> [] \<and> last (segments p) = ''ActionCompute'' then filter (\<lambda>f. fn_ident f = ''compute'') fns else [])"

lemma check_impl_Nil: "check_impl path t s fns = [] \<longleftrightarrow> list_all has_pure (compute_fns t fns)"
  by (auto simp: check_impl_def compute_fns_def list_all_iff split: option.split)

lemma coverage_visit_Nil:
  "coverage_visit path it = [] \<longleftrightarrow> list_all (\<lambda>(t, s, fns). list_all has_pure (compute_fns t fns)) (production_impls it)"
  by (induction it) (auto simp: check_impl_Nil is_cfg_test_iff list_all_iff)

definition covered :: "(codes \<Rightarrow> 'i syn_item list option) \<Rightarrow> string \<Rightarrow> codes option \<Rightarrow> bool" where
  "covered parse path src \<longleftrightarrow>
     (\<exists>s file. src = Some s \<and> parse s = Some file
        \<and> list_all (\<lambda>it. list_all (\<lambda>(t, s, fns). list_all has_pure (compute_fns t fns)) (production_impls it)) file)"

lemma coverage_scan_file_Nil: "coverage_scan_file parse path src = Some [] \<longleftrightarrow> covered parse path src"
  by (auto simp: coverage_scan_file_def covered_def scan_syntax_tree_def coverage_visit_Nil list_all_iff split: option.splits)

interpretation coverage: file_scanner "coverage_scan_file parse" "covered parse" for parse
  by unfold_locales (rule coverage_scan_file_Nil)

text \<open>C13: coverage and the attribute make compute pure. Let the coverage test pass, and let every function with the attribute
\<^verbatim>\<open>arkhe_pure\<close>, under whatever path it is named, expand to itself, which is what compiling demands. Then every function
\<^verbatim>\<open>compute\<close> of an impl of \<^verbatim>\<open>ActionCompute\<close> in the scanned crates, at any depth of nesting except below a module marked
\<^verbatim>\<open>#[cfg(test)]\<close>, does nothing the default policy forbids.\<close>
theorem covered_compute_is_pure:
  assumes "all_action_compute_impls_have_arkhe_pure parse root"
    "(path, Some text) \<in> set (crate_files root RUNTIME_CRATES)" "parse text = Some file" "it \<in> set file"
    "(t, s, fns) \<in> set (production_impls it)" "f \<in> set (compute_fns t fns)"
    "\<forall>pre. pre @ [''arkhe_pure''] \<in> attribute_macros f \<longrightarrow> arkhe_pure parse_fn (fn_item f) = Unchanged (fn_item f)"
    "parse_fn (fn_item f) = Inr body" "list_all parsed (visited body)"
  shows "list_all harmless (visited body)"
proof -
  have "covered parse path (Some text)"
    using coverage.passes_clean assms(1,2) unfolding all_action_compute_impls_have_arkhe_pure_def .
  then have "has_pure f" using assms(3-6) by (fastforce simp: covered_def list_all_iff)
  then have "check_purity_default body = []"
    using assms(7,8) unfolding has_pure_iff by (auto simp: arkhe_pure_def Let_def split: if_splits)
  then show ?thesis using pure_iff_harmless[OF assms(9)] by simp
qed

theorem covered_compute_is_pure_witness:
  "let fn = \<lparr>fn_ident = ''compute'', fn_attrs = [\<lparr>attr_path = Path False [''arkhe_pure''], attr_args = None\<rparr>], fn_item = (7::nat)\<rparr>;
       it = OtherSyntax [ItemImpl (Some (Path False [''ActionCompute''])) OtherType [fn] []];
       body = Other [ExprPath (Path False [''a'']) []]
   in list_all harmless (visited body)"
proof -
  let ?fn = "\<lparr>fn_ident = ''compute'', fn_attrs = [\<lparr>attr_path = Path False [''arkhe_pure''], attr_args = None\<rparr>], fn_item = (7::nat)\<rparr>"
  let ?it = "OtherSyntax [ItemImpl (Some (Path False [''ActionCompute''])) OtherType [?fn] []]"
  let ?root = "\<lambda>c. if c = ''arkhe-forge'' then Some [File ''arkhe-forge/src/lib.rs'' (Some ''rs'') (Some [])] else None"
  let ?body = "Other [ExprPath (Path False [''a'']) []]"
  have pp: "list_all parsed (visited ?body)" by (simp add: ident_def)
  have pure: "check_purity_default ?body = []"
    unfolding pure_iff_harmless[OF pp]
    by (simp add: default_paths_def default_namespaces_def suffix_def append_eq_Cons_conv Cons_eq_append_conv)
  have files: "crate_files ?root RUNTIME_CRATES = [(''arkhe-forge/src/lib.rs'', Some [])]"
    by (simp add: crate_files_def RUNTIME_CRATES_def)
  have pass: "all_action_compute_impls_have_arkhe_pure (\<lambda>_. Some [?it]) ?root"
    unfolding all_action_compute_impls_have_arkhe_pure_def coverage.passes_iff files
    by (simp add: covered_def compute_fns_def has_pure_def)
  have "list_all harmless (visited ?body)"
    by (rule covered_compute_is_pure[OF pass, of "''arkhe-forge/src/lib.rs''" "[]" "[?it]" ?it "Some (Path False [''ActionCompute''])" OtherType "[?fn]" ?fn "\<lambda>_. Inr ?body"])
      (simp_all add: files compute_fns_def arkhe_pure_def pure pp[simplified])
  then show ?thesis by simp
qed

subsection \<open>Absence of the forward-looking events\<close>

lemma sublist_split:
  assumes "x \<notin> set t" "t \<noteq> []"
  shows "sublist t (u @ x # v) \<longleftrightarrow> sublist t u \<or> sublist t v"
proof
  assume "sublist t (u @ x # v)"
  then obtain a b where ab: "u @ x # v = a @ t @ b" by (auto simp: sublist_def)
  show "sublist t u \<or> sublist t v"
  proof (cases "length a + length t \<le> length u")
    case True
    then have "take (length a + length t) u = a @ t" using arg_cong[OF ab, of "take (length a + length t)"] by simp
    then have "u = a @ t @ drop (length a + length t) u" by (metis append.assoc append_take_drop_id)
    then show ?thesis unfolding sublist_def by blast
  next
    case False
    then have l: "length u < length a"
    proof (rule contrapos_np)
      assume "\<not> length u < length a"
      then have "length u - length a < length t" using False by arith
      moreover then have "(u @ x # v) ! length u = t ! (length u - length a)" using \<open>\<not> length u < length a\<close> unfolding ab by (simp add: nth_append)
      ultimately show "length a + length t \<le> length u" using assms(1) nth_mem[of "length u - length a" t] by simp
    qed
    then have "drop (Suc (length u)) (u @ x # v) = drop (Suc (length u)) a @ t @ b" unfolding ab by simp
    then have "v = drop (Suc (length u)) a @ t @ b" by simp
    then show ?thesis unfolding sublist_def by blast
  qed
next
  assume "sublist t u \<or> sublist t v"
  then show "sublist t (u @ x # v)" by (auto simp: sublist_def) (metis append_Cons append.assoc)+
qed

lemma sublist_strip_cr:
  assumes "13 \<notin> set t" "t \<noteq> []"
  shows "sublist t (strip_cr l) \<longleftrightarrow> sublist t l"
proof (cases "suffix [13] l")
  case True
  then obtain u where "l = u @ 13 # []" by (auto simp: suffix_def)
  then show ?thesis using sublist_split[OF assms, of u "[]"] assms(2) by (simp add: strip_cr_def)
qed (simp add: strip_cr_def)

lemma lines_loop_sublist:
  assumes "10 \<notin> set t" "13 \<notin> set t" "t \<noteq> []"
  shows "list_ex (sublist t) (lines_loop w s) \<longleftrightarrow> sublist t (w @ s)"
proof (induction w s rule: lines_loop.induct)
  case (2 l c s)
  then show ?case using sublist_split[OF assms(1,3), of l s] sublist_strip_cr[OF assms(2,3)] by simp
qed (use assms(3) in simp)

lemma lines_contains:
  assumes "10 \<notin> set t" "13 \<notin> set t" "t \<noteq> []"
  shows "position (\<lambda>l. contains l t) (lines s) = None \<longleftrightarrow> \<not> sublist t s"
  using lines_loop_sublist[OF assms, of "[]" s] by (simp add: position_None contains_sublist lines_def)

definition no_forbidden :: "string \<Rightarrow> codes option \<Rightarrow> bool" where
  "no_forbidden path src \<longleftrightarrow>
     path \<in> set ALLOWED_FILES \<or> (\<exists>s. src = Some s \<and> list_all (\<lambda>ty. \<not> sublist (codes_of ty) s) FORBIDDEN_TYPES)"

lemma zero_emission_scan_file_Nil: "zero_emission_scan_file path src = Some [] \<longleftrightarrow> no_forbidden path src"
proof -
  have "list_all (\<lambda>ty. 10 \<notin> set (codes_of ty) \<and> 13 \<notin> set (codes_of ty) \<and> codes_of ty \<noteq> []) FORBIDDEN_TYPES"
    by (simp add: FORBIDDEN_TYPES_def codes_of_def)
  then have pos: "position (\<lambda>l. contains l (codes_of ty)) (lines s) = None \<longleftrightarrow> \<not> sublist (codes_of ty) s"
    if "ty \<in> set FORBIDDEN_TYPES" for ty s
    using lines_contains[of "codes_of ty" s] that by (simp add: list_all_iff)
  have "concat (map (\<lambda>ty. case position (\<lambda>l. contains l (codes_of ty)) (lines s) of
            Some line_no \<Rightarrow> [(path, line_no + 1, ty)] | None \<Rightarrow> []) FORBIDDEN_TYPES) = []
      \<longleftrightarrow> list_all (\<lambda>ty. \<not> sublist (codes_of ty) s) FORBIDDEN_TYPES" for s
    unfolding concat_eq_Nil_conv list_all_iff set_map ball_simps(9)
    by (rule ball_cong[OF refl], subst pos[symmetric]) (simp_all split: option.split)
  then show ?thesis by (cases src) (simp_all add: zero_emission_scan_file_def no_forbidden_def)
qed

interpretation absence: file_scanner zero_emission_scan_file no_forbidden
  by unfold_locales (rule zero_emission_scan_file_Nil)

text \<open>The absence test is exact. It passes exactly when there is a source file in the scanned crates and every one of them, the two
allowed files apart, can be read and does not contain either name anywhere, across its lines.\<close>
theorem zero_emission_exact:
  "forward_looking_events_have_zero_production_emit_sites root \<longleftrightarrow>
     crate_files root RUNTIME_CRATES \<noteq> []
     \<and> list_all (\<lambda>(path, src). path \<in> set ALLOWED_FILES
          \<or> (\<exists>text. src = Some text \<and> list_all (\<lambda>ty. \<not> sublist (codes_of ty) text) FORBIDDEN_TYPES)) (crate_files root RUNTIME_CRATES)"
  unfolding forward_looking_events_have_zero_production_emit_sites_def absence.passes_iff no_forbidden_def ..

end
