(* ===== verification/Fingerprint.thy ===== *)
theory Fingerprint
  imports Rust_Text "HOL-Library.Sublist"
begin

text \<open>The body fingerprints of \<^verbatim>\<open>arkhe-trait-default-check\<close>.  Texts are lists of code points.  The syntax tree and its
rendering are those of \<^verbatim>\<open>syn\<close> and \<^verbatim>\<open>quote\<close>: the rendering of a method and the hash of a text (BLAKE3 of its UTF-8 bytes,
in hexadecimal) are parameters.\<close>

text \<open>The loop of \<^verbatim>\<open>normalize\<close>, with the text written so far.\<close>
fun normalize_loop :: "codes \<Rightarrow> codes \<Rightarrow> bool \<Rightarrow> codes" where
  "normalize_loop [] out prev_ws = out"
| "normalize_loop (ch # s) out prev_ws =
     (if is_whitespace ch
      then (if \<not> prev_ws then normalize_loop s (out @ [32]) True else normalize_loop s out prev_ws)
      else normalize_loop s (out @ [ch]) False)"

definition normalize :: "codes \<Rightarrow> codes" where
  "normalize s = (let out = normalize_loop s [] True in if suffix [32] out then butlast out else out)"

datatype self_type = TypePath "string list" | TypeOther

record 'm item_impl =
  trait_path :: "string list option"
  self_ty :: self_type
  methods :: "(string \<times> 'm) list"

record fingerprint =
  trait_name :: string
  impl_for :: string
  method_name :: string
  body_hash :: string

definition path_ident_last :: "string list \<Rightarrow> string" where
  "path_ident_last segs = (if segs = [] then [] else last segs)"

fun type_ident_last :: "self_type \<Rightarrow> string" where
  "type_ident_last (TypePath segs) = path_ident_last segs"
| "type_ident_last TypeOther = ''<complex>''"

definition hash_default_body :: "('m \<Rightarrow> codes) \<Rightarrow> (codes \<Rightarrow> string) \<Rightarrow> 'm item_impl \<Rightarrow> fingerprint list" where
  "hash_default_body render hash item =
     (let t = (case trait_path item of Some p \<Rightarrow> path_ident_last p | None \<Rightarrow> ''<inherent>'');
          i = type_ident_last (self_ty item)
      in map (\<lambda>(name, func).
           \<lparr>trait_name = t, impl_for = i, method_name = name, body_hash = hash (normalize (render func))\<rparr>) (methods item))"

section \<open>The normal form\<close>

text \<open>The words of a text, and a text written with single spaces.\<close>
fun text_words :: "codes \<Rightarrow> codes \<Rightarrow> codes list" where
  "text_words w [] = (if w = [] then [] else [w])"
| "text_words w (c # s) = (if is_whitespace c then (if w = [] then [] else [w]) @ text_words [] s else text_words (w @ [c]) s)"

fun spaced :: "codes list \<Rightarrow> codes" where
  "spaced [] = []"
| "spaced [w] = w"
| "spaced (w # ws) = w @ 32 # spaced ws"

definition word :: "codes \<Rightarrow> bool" where
  "word w \<longleftrightarrow> w \<noteq> [] \<and> list_all (\<lambda>c. \<not> is_whitespace c) w"

lemma text_words_words:
  "list_all (\<lambda>c. \<not> is_whitespace c) w \<Longrightarrow> list_all word (text_words w s)"
  by (induction w s rule: text_words.induct) (auto simp: word_def)

lemma text_words_append_word:
  "list_all (\<lambda>c. \<not> is_whitespace c) u \<Longrightarrow> text_words w (u @ s) = text_words (w @ u) s"
  by (induction u arbitrary: w) auto

lemma text_words_spaced: "list_all word ws \<Longrightarrow> text_words [] (spaced ws) = ws"
proof (induction ws rule: spaced.induct)
  case (2 w)
  then show ?case using text_words_append_word[of w "[]" "[]"] by (simp add: word_def)
next
  case (3 w v ws)
  then show ?case using text_words_append_word[of w "[]" "32 # spaced (v # ws)"] by (simp add: word_def)
qed simp

text \<open>What the loop has written when it ends: the words so far, and a last space if the text ended in whitespace.\<close>
lemma spaced_append: "us \<noteq> [] \<Longrightarrow> vs \<noteq> [] \<Longrightarrow> spaced (us @ vs) = spaced us @ 32 # spaced vs"
  by (induction us rule: spaced.induct) (auto simp: neq_Nil_conv)

lemma normalize_loop_spaced:
  "list_all word us \<Longrightarrow> list_all (\<lambda>c. \<not> is_whitespace c) w \<Longrightarrow>
   (normalize_loop s (spaced us @ (if us \<noteq> [] then 32 # w else w)) (w = []) =
      (let ws = us @ text_words w s in spaced ws @ (if ws \<noteq> [] \<and> (if s = [] then w = [] else is_whitespace (last s)) then [32] else [])))"
proof (induction s arbitrary: us w)
  case Nil
  then show ?case by (auto simp: spaced_append)
next
  case (Cons c s)
  show ?case
  proof (cases "is_whitespace c \<and> w \<noteq> []")
    case True
    then have "word w" using Cons.prems by (simp add: word_def)
    moreover have "spaced (us @ [w]) = spaced us @ (if us \<noteq> [] then 32 # w else w)" using spaced_append[of us "[w]"] by auto
    ultimately show ?thesis using Cons.IH[of "us @ [w]" "[]"] Cons.prems True by (cases "s = []") (auto simp: Let_def)
  next
    case False
    moreover have "spaced (us @ [w @ [c]]) = spaced us @ (if us \<noteq> [] then 32 # w @ [c] else w @ [c])"
      using spaced_append[of us "[w @ [c]]"] by auto
    ultimately show ?thesis using Cons.IH[of us w] Cons.IH[of us "w @ [c]"] Cons.prems
      by (cases "s = []") (auto simp: Let_def spaced_append)
  qed
qed

lemma spaced_no_trailing: "list_all word ws \<Longrightarrow> ws \<noteq> [] \<Longrightarrow> spaced ws \<noteq> [] \<and> last (spaced ws) \<noteq> 32"
proof (induction ws rule: spaced.induct)
  case (2 w)
  then have "w \<noteq> []" "\<forall>c\<in>set w. \<not> is_whitespace c" by (simp_all add: word_def list_all_iff)
  then show ?case using last_in_set[of w] space_is_whitespace by (metis spaced.simps(2))
qed (auto simp: word_def)

lemma normalize_spaced: "normalize s = spaced (text_words [] s)"
proof -
  let ?ws = "text_words [] s"
  have w: "list_all word ?ws" by (simp add: text_words_words)
  have "normalize_loop s [] True = spaced ?ws @ (if ?ws \<noteq> [] \<and> (s = [] \<or> is_whitespace (last s)) then [32] else [])"
    using normalize_loop_spaced[of "[]" "[]" s] by (simp add: Let_def)
  moreover have "\<not> suffix [32] (spaced ?ws)"
    using spaced_no_trailing[OF w] by (cases "?ws = []") (auto simp: suffix_def)
  ultimately show ?thesis by (auto simp: normalize_def Let_def)
qed

lemma normalize_eq_iff: "normalize s = normalize t \<longleftrightarrow> text_words [] s = text_words [] t"
  using text_words_words[of "[]"] by (metis normalize_spaced text_words_spaced list.pred_inject(1))

lemma normalize_idempotent: "normalize (normalize s) = normalize s"
  by (simp add: normalize_spaced text_words_spaced text_words_words)

text \<open>Fingerprints see words. Two impls have the same fingerprints exactly when they agree on the trait, the type and, method by
method, the name and the sequence of words of the rendering, unless two different normal forms collide under the hash.\<close>
theorem fingerprints_equal_iff:
  assumes "inj_on hash ((\<lambda>(name, func). normalize (render func)) ` set (ms @ ns))"
  shows "hash_default_body render hash \<lparr>trait_path = Some p, self_ty = TypePath q, methods = ms\<rparr>
       = hash_default_body render hash \<lparr>trait_path = Some p, self_ty = TypePath q, methods = ns\<rparr> \<longleftrightarrow>
     map (\<lambda>(name, func). (name, text_words [] (render func))) ms = map (\<lambda>(name, func). (name, text_words [] (render func))) ns"
proof -
  have "hash (normalize (render f)) = hash (normalize (render g)) \<longleftrightarrow> text_words [] (render f) = text_words [] (render g)"
    if "(n, f) \<in> set ms" "(k, g) \<in> set ns" for n f k g
    using inj_on_eq_iff[OF assms, of "normalize (render f)" "normalize (render g)"] that by (force simp: normalize_eq_iff)
  then show ?thesis
    unfolding hash_default_body_def Let_def item_impl.simps option.case type_ident_last.simps
    by (induction ms ns rule: list_induct2') (auto split: prod.splits)
qed

theorem fingerprints_equal_iff_witness:
  "hash_default_body codes_of (map char_of) \<lparr>trait_path = Some [''MyTrait''], self_ty = TypePath [''T''], methods = [(''hello'', ''{ 42 }'')]\<rparr>
     = hash_default_body codes_of (map char_of) \<lparr>trait_path = Some [''MyTrait''], self_ty = TypePath [''T''], methods = [(''hello'', '' {  42  } '')]\<rparr>"
proof (subst fingerprints_equal_iff)
  have "normalize (codes_of ''{ 42 }'') = normalize (codes_of '' {  42  } '')"
    by (simp add: normalize_def codes_of_def is_whitespace_def suffix_def)
  then show "inj_on (map char_of) ((\<lambda>(name, func). normalize (codes_of func)) ` set ([(''hello'', ''{ 42 }'')] @ [(''hello'', '' {  42  } '')]))"
    by simp
qed (simp add: codes_of_def is_whitespace_def)

text \<open>Whitespace inside a string literal is collapsed like any other, so two bodies that return different strings have the
same fingerprint.\<close>
lemma literal_change_undetected:
  "normalize (codes_of ''fn f () { \"a  b\" }'') = normalize (codes_of ''fn f () { \"a b\" }'')"
  by (simp add: normalize_def codes_of_def is_whitespace_def suffix_def)

end
