(* ===== verification/Protection.thy ===== *)
theory Protection
  imports Rust_Text
begin

text \<open>Process protection, \<^verbatim>\<open>arkhe-forge-platform/src/process_protection\<close>: the trait and its four implementations.  The
operating system is a record of its calls, with the constants of their headers, over a state that the code cannot see; an
operation is a computation over that state.\<close>

section \<open>The trait\<close>

datatype protection_error = Unsupported string | SyscallFailed (sf_op: string) (sf_code: int) | DebuggerAttached string

type_synonym 's step = "('s, protection_error, unit) act"

record 's process_protection =
  lock_memory :: "'s step"
  disable_core_dump :: "'s step"
  disable_ptrace :: "'s step"

definition apply_all :: "'s process_protection \<Rightarrow> 's step" where
  "apply_all p = bnd (lock_memory p) (\<lambda>_. bnd (disable_core_dump p) (\<lambda>_. bnd (disable_ptrace p) (\<lambda>_. ret ())))"

text \<open>A call that returns a C integer; the code of the error is read after the call failed.\<close>
definition syscall :: "('s \<Rightarrow> int \<times> 's) \<Rightarrow> (int \<Rightarrow> bool) \<Rightarrow> string \<Rightarrow> ('s \<Rightarrow> int) \<Rightarrow> 's step" where
  "syscall f ok name last_error = (\<lambda>s. case f s of (rc, t) \<Rightarrow> if ok rc then (Inr (), t) else (Inl (SyscallFailed name (last_error t)), t))"

section \<open>Linux\<close>

record 's linux_os =
  mlockall :: "u32 \<Rightarrow> 's \<Rightarrow> int \<times> 's"
  prctl :: "u32 \<Rightarrow> nat \<Rightarrow> 's \<Rightarrow> int \<times> 's"
  errno :: "'s \<Rightarrow> int"
  read_to_string :: "string \<Rightarrow> 's \<Rightarrow> (int option + codes) \<times> 's"
  eprintln :: "codes \<Rightarrow> 's \<Rightarrow> 's"
  MCL_CURRENT :: u32
  MCL_FUTURE :: u32
  PR_SET_DUMPABLE :: u32
  PR_SET_PTRACER :: u32

definition linux_lock_memory :: "'s linux_os \<Rightarrow> 's step" where
  "linux_lock_memory os = syscall (mlockall os (or (MCL_CURRENT os) (MCL_FUTURE os))) (\<lambda>rc. rc = 0) ''mlockall'' (errno os)"

definition linux_disable_core_dump :: "'s linux_os \<Rightarrow> 's step" where
  "linux_disable_core_dump os = syscall (prctl os (PR_SET_DUMPABLE os) 0) (\<lambda>rc. rc = 0) ''prctl(PR_SET_DUMPABLE)'' (errno os)"

text \<open>The scan of the status lines: the rest of the first line that begins with the tracer's field, if there is one.\<close>
fun tracer_line :: "codes list \<Rightarrow> codes option" where
  "tracer_line [] = None"
| "tracer_line (l # ls) = (case strip_prefix_codes (codes_of ''TracerPid:'') l of Some rest \<Rightarrow> Some rest | None \<Rightarrow> tracer_line ls)"

definition check_tracer :: "codes \<Rightarrow> protection_error + unit" where
  "check_tracer status =
     (case tracer_line (lines status) of
        Some rest \<Rightarrow>
          if trim rest \<noteq> codes_of ''0'' then Inl (DebuggerAttached ''TracerPid != 0 in /proc/self/status'') else Inr ()
      | None \<Rightarrow> Inl (SyscallFailed ''parse(/proc/self/status TracerPid)'' 0))"

text \<open>The advisory check of the system-wide setting only writes to the standard error.\<close>
definition yama_advisory :: "'s linux_os \<Rightarrow> 's \<Rightarrow> 's" where
  "yama_advisory os s =
     (case read_to_string os ''/proc/sys/kernel/yama/ptrace_scope'' s of
        (Inr content, t) \<Rightarrow>
          let scope = trim content in
          if scope \<noteq> codes_of ''2''
          then eprintln os (codes_of ''arkhe-forge-platform: yama.ptrace_scope='' @ scope
                 @ codes_of '' (want 2); per-process ptrace protection cannot cover this gap.'') t
          else t
      | (Inl _, t) \<Rightarrow>
          eprintln os (codes_of ''arkhe-forge-platform: /proc/sys/kernel/yama/ptrace_scope unreadable; yama LSM likely disabled.'') t)"

definition read_status :: "'s linux_os \<Rightarrow> 's step" where
  "read_status os =
     (\<lambda>s. case read_to_string os ''/proc/self/status'' s of
        (Inl e, t) \<Rightarrow> (Inl (SyscallFailed ''read(/proc/self/status)'' (case e of Some c \<Rightarrow> c | None \<Rightarrow> 0)), t)
      | (Inr status, t) \<Rightarrow> (check_tracer status, t))"

definition linux_disable_ptrace :: "'s linux_os \<Rightarrow> 's step" where
  "linux_disable_ptrace os =
     bnd (read_status os) (\<lambda>_.
     bnd (syscall (prctl os (PR_SET_PTRACER os) 0) (\<lambda>rc. rc = 0) ''prctl(PR_SET_PTRACER)'' (errno os)) (\<lambda>_.
     (\<lambda>s. (Inr (), yama_advisory os s))))"

definition LinuxProcessProtection :: "'s linux_os \<Rightarrow> 's process_protection" where
  "LinuxProcessProtection os =
     \<lparr>lock_memory = linux_lock_memory os, disable_core_dump = linux_disable_core_dump os, disable_ptrace = linux_disable_ptrace os\<rparr>"

section \<open>macOS\<close>

record 's macos_os =
  setrlimit :: "int \<Rightarrow> nat \<times> nat \<Rightarrow> 's \<Rightarrow> int \<times> 's"
  ptrace :: "int \<Rightarrow> int \<Rightarrow> 's \<Rightarrow> int \<times> 's"
  mac_errno :: "'s \<Rightarrow> int"
  RLIMIT_CORE :: int

definition PT_DENY_ATTACH :: int where
  "PT_DENY_ATTACH = 31"

definition macos_lock_memory :: "'s step" where
  "macos_lock_memory = 
     throw (Unsupported (''macOS mlockall unavailable '' @ [CHR 0xE2, CHR 0x80, CHR 0x94] @ '' use per-region mlock / Secure Enclave''))"

definition macos_disable_core_dump :: "'s macos_os \<Rightarrow> 's step" where
  "macos_disable_core_dump os = syscall (setrlimit os (RLIMIT_CORE os) (0, 0)) (\<lambda>rc. rc = 0) ''setrlimit(RLIMIT_CORE)'' (mac_errno os)"

definition macos_disable_ptrace :: "'s macos_os \<Rightarrow> 's step" where
  "macos_disable_ptrace os = syscall (ptrace os PT_DENY_ATTACH 0) (\<lambda>rc. rc = 0) ''ptrace(PT_DENY_ATTACH)'' (mac_errno os)"

definition MacosProcessProtection :: "'s macos_os \<Rightarrow> 's process_protection" where
  "MacosProcessProtection os =
     \<lparr>lock_memory = macos_lock_memory, disable_core_dump = macos_disable_core_dump os, disable_ptrace = macos_disable_ptrace os\<rparr>"

section \<open>Windows\<close>

record 's windows_os =
  GetProcessWorkingSetSizeEx :: "'s \<Rightarrow> (int \<times> nat \<times> nat \<times> u32) \<times> 's"
  SetProcessWorkingSetSizeEx :: "nat \<Rightarrow> nat \<Rightarrow> u32 \<Rightarrow> 's \<Rightarrow> int \<times> 's"
  SetErrorMode :: "u32 \<Rightarrow> 's \<Rightarrow> u32 \<times> 's"
  IsDebuggerPresent :: "'s \<Rightarrow> int \<times> 's"
  CheckRemoteDebuggerPresent :: "'s \<Rightarrow> (int \<times> int) \<times> 's"
  GetLastError :: "'s \<Rightarrow> u32"
  QUOTA_LIMITS_HARDWS_MIN_ENABLE :: u32
  SEM_FAILCRITICALERRORS :: u32
  SEM_NOGPFAULTERRORBOX :: u32

definition windows_lock_memory :: "'s windows_os \<Rightarrow> 's step" where
  "windows_lock_memory os =
     (\<lambda>s. case GetProcessWorkingSetSizeEx os s of
        ((ok, min_ws, max_ws, flags), t) \<Rightarrow>
          if ok = 0 then (Inl (SyscallFailed ''GetProcessWorkingSetSizeEx'' (sint (GetLastError os t))), t)
          else syscall (SetProcessWorkingSetSizeEx os min_ws max_ws (or flags (QUOTA_LIMITS_HARDWS_MIN_ENABLE os)))
                 (\<lambda>ok. ok \<noteq> 0) ''SetProcessWorkingSetSizeEx'' (sint \<circ> GetLastError os) t)"

definition windows_disable_core_dump :: "'s windows_os \<Rightarrow> 's step" where
  "windows_disable_core_dump os =
     (\<lambda>s. case SetErrorMode os (or (SEM_FAILCRITICALERRORS os) (SEM_NOGPFAULTERRORBOX os)) s of (_, t) \<Rightarrow> (Inr (), t))"

definition windows_disable_ptrace :: "'s windows_os \<Rightarrow> 's step" where
  "windows_disable_ptrace os =
     (\<lambda>s. case IsDebuggerPresent os s of (local, t) \<Rightarrow>
        let local_attached = local \<noteq> 0 in
        case CheckRemoteDebuggerPresent os t of ((ok, remote), u) \<Rightarrow>
          if ok = 0 then (Inl (SyscallFailed ''CheckRemoteDebuggerPresent'' (sint (GetLastError os u))), u)
          else if local_attached \<or> remote \<noteq> 0
          then (Inl (DebuggerAttached ''IsDebuggerPresent or CheckRemoteDebuggerPresent reported attach''), u)
          else (Inr (), u))"

definition WindowsProcessProtection :: "'s windows_os \<Rightarrow> 's process_protection" where
  "WindowsProcessProtection os =
     \<lparr>lock_memory = windows_lock_memory os, disable_core_dump = windows_disable_core_dump os,
      disable_ptrace = windows_disable_ptrace os\<rparr>"

section \<open>Other targets\<close>

definition FallbackProcessProtection :: "'s process_protection" where
  "FallbackProcessProtection =
     \<lparr>lock_memory = throw (Unsupported ''lock_memory''), disable_core_dump = throw (Unsupported ''disable_core_dump''),
      disable_ptrace = throw (Unsupported ''disable_ptrace'')\<rparr>"

section \<open>The status file\<close>

lemma lines_loop_line: "10 \<notin> set l \<Longrightarrow> lines_loop w (l @ 10 # s) = strip_cr (w @ l) # lines_loop [] s"
  by (induction l arbitrary: w) auto

lemma lines_unlines:
  "list_all (\<lambda>l. 10 \<notin> set l) ls \<Longrightarrow> lines (concat (map (\<lambda>l. l @ [10]) ls)) = map strip_cr ls"
  by (induction ls) (simp_all add: lines_def lines_loop_line)

lemma tracer_line_find:
  "tracer_line ls = map_option (drop (length (codes_of ''TracerPid:''))) (find (prefix (codes_of ''TracerPid:'')) ls)"
  by (induction ls) (auto simp: strip_prefix_codes_def)

lemma trim_word: "list_all (\<lambda>c. \<not> is_whitespace c) w \<Longrightarrow> trim (9 # w) = w"
proof -
  assume w: "list_all (\<lambda>c. \<not> is_whitespace c) w"
  have "dropWhile is_whitespace u = u" if "list_all (\<lambda>c. \<not> is_whitespace c) u" for u
    using that by (cases u) auto
  then show ?thesis using w by (simp add: trim_def trim_start_def is_whitespace_def[of 9])
qed

text \<open>A status file as the kernel writes it, one field a line: the check passes exactly when the tracer's pid is zero.\<close>
definition status_field :: "codes \<Rightarrow> codes \<Rightarrow> codes" where
  "status_field name val = name @ 58 # 9 # val"

lemma check_tracer_status:
  assumes "list_all (\<lambda>(n, v). 10 \<notin> set n \<and> 10 \<notin> set v \<and> 58 \<notin> set n \<and> \<not> suffix [13] v) fs"
    "list_all (\<lambda>c. \<not> is_whitespace c) pid" "map_of fs (codes_of ''TracerPid'') = Some pid"
  shows "check_tracer (concat (map (\<lambda>(n, v). status_field n v @ [10]) fs)) = Inr () \<longleftrightarrow> pid = codes_of ''0''"
proof -
  have l: "lines (concat (map (\<lambda>(n, v). status_field n v @ [10]) fs)) = map (\<lambda>(n, v). status_field n v) fs"
  proof -
    have "lines (concat (map (\<lambda>l. l @ [10]) (map (\<lambda>(n, v). status_field n v) fs))) = map strip_cr (map (\<lambda>(n, v). status_field n v) fs)"
      by (rule lines_unlines) (use assms(1) in \<open>auto simp: list_all_iff status_field_def\<close>)
    moreover have "strip_cr (status_field n v) = status_field n v" if "(n, v) \<in> set fs" for n v
      using assms(1) that by (fastforce simp: list_all_iff strip_cr_def status_field_def suffix_def append_eq_append_conv2 Cons_eq_append_conv)
    ultimately show ?thesis by (simp add: comp_def case_prod_beta cong: map_cong)
  qed
  have p: "prefix (codes_of ''TracerPid:'') (status_field n v) \<longleftrightarrow> n = codes_of ''TracerPid''" if "58 \<notin> set n" for n v
  proof -
    have "prefix (u @ [58]) (n @ 58 # w) \<longleftrightarrow> n = u" if "58 \<notin> set n" "58 \<notin> set u" for u n w :: codes
      using that
    proof (induction u arbitrary: n)
      case Nil
      then show ?case by (cases n) auto
    next
      case (Cons a u)
      then show ?case by (cases n) auto
    qed
    from this[of n "codes_of ''TracerPid''" "9 # v"] that show ?thesis
      by (simp add: status_field_def codes_of_def)
  qed
  have "find (prefix (codes_of ''TracerPid:'')) (map (\<lambda>(n, v). status_field n v) fs)
      = map_option (status_field (codes_of ''TracerPid'')) (map_of fs (codes_of ''TracerPid''))"
    using assms(1) by (induction fs) (auto simp: p)
  then have "tracer_line (map (\<lambda>(n, v). status_field n v) fs) = Some (9 # pid)"
    using assms(3) by (simp add: tracer_line_find status_field_def codes_of_def)
  then show ?thesis using assms(2) by (simp add: check_tracer_def l trim_word)
qed

section \<open>What success means\<close>

lemma syscall_Inr: "syscall f ok n e s = (Inr u, t) \<longleftrightarrow> (\<exists>rc. f s = (rc, t) \<and> ok rc)"
  by (auto simp: syscall_def split: prod.splits)

lemma read_status_Inr:
  "read_status os s = (Inr u, t) \<longleftrightarrow> (\<exists>status. read_to_string os ''/proc/self/status'' s = (Inr status, t) \<and> check_tracer status = Inr ())"
  by (auto simp: read_status_def split: prod.splits sum.splits)

lemma check_tracer_Inr:
  "check_tracer status = Inr u \<longleftrightarrow> (\<exists>rest. tracer_line (lines status) = Some rest \<and> trim rest = codes_of ''0'')"
  by (auto simp: check_tracer_def split: option.splits)

lemma apply_all_Inr:
  "apply_all p s = (Inr (), t) \<longleftrightarrow>
     (\<exists>s1 s2. lock_memory p s = (Inr (), s1) \<and> disable_core_dump p s1 = (Inr (), s2) \<and> disable_ptrace p s2 = (Inr (), t))"
  by (auto simp: apply_all_def bnd_Inr)

text \<open>What success on Linux means. The protection reports success exactly when memory was locked, then dumping switched off, then the
status file read and found to name no tracer, then the tracer denied, each call succeeding on the state the one before left; nothing but
the advisory follows.\<close>
theorem linux_protection_in_force:
  "apply_all (LinuxProcessProtection os) s = (Inr (), t) \<longleftrightarrow>
     (\<exists>s1 s2 status s3 rest s4.
        mlockall os (or (MCL_CURRENT os) (MCL_FUTURE os)) s = (0, s1)
      \<and> prctl os (PR_SET_DUMPABLE os) 0 s1 = (0, s2)
      \<and> read_to_string os ''/proc/self/status'' s2 = (Inr status, s3)
      \<and> tracer_line (lines status) = Some rest \<and> trim rest = codes_of ''0''
      \<and> prctl os (PR_SET_PTRACER os) 0 s3 = (0, s4)
      \<and> t = yama_advisory os s4)"
  by (auto simp: apply_all_Inr LinuxProcessProtection_def linux_lock_memory_def linux_disable_core_dump_def linux_disable_ptrace_def
      bnd_Inr syscall_Inr read_status_Inr check_tracer_Inr)

text \<open>What success on Windows means. The working set was read and set again with the same bounds and the pinning flag added, and
after the error mode was set neither probe reported a debugger.\<close>
theorem windows_protection_in_force:
  "apply_all (WindowsProcessProtection os) s = (Inr (), t) \<longleftrightarrow>
     (\<exists>ok min_ws max_ws flags s1 ok' s2 old s3 s4 ok''.
        GetProcessWorkingSetSizeEx os s = ((ok, min_ws, max_ws, flags), s1) \<and> ok \<noteq> 0
      \<and> SetProcessWorkingSetSizeEx os min_ws max_ws (or flags (QUOTA_LIMITS_HARDWS_MIN_ENABLE os)) s1 = (ok', s2) \<and> ok' \<noteq> 0
      \<and> SetErrorMode os (or (SEM_FAILCRITICALERRORS os) (SEM_NOGPFAULTERRORBOX os)) s2 = (old, s3)
      \<and> IsDebuggerPresent os s3 = (0, s4)
      \<and> CheckRemoteDebuggerPresent os s4 = ((ok'', 0), t) \<and> ok'' \<noteq> 0)"
proof -
  have l: "windows_lock_memory os s = (Inr (), s2) \<longleftrightarrow>
      (\<exists>ok min_ws max_ws flags s1 ok'. GetProcessWorkingSetSizeEx os s = ((ok, min_ws, max_ws, flags), s1) \<and> ok \<noteq> 0
       \<and> SetProcessWorkingSetSizeEx os min_ws max_ws (or flags (QUOTA_LIMITS_HARDWS_MIN_ENABLE os)) s1 = (ok', s2) \<and> ok' \<noteq> 0)" for s s2
    by (auto simp: windows_lock_memory_def syscall_Inr split: prod.splits)
  have c: "windows_disable_core_dump os s = (Inr (), s3) \<longleftrightarrow>
      (\<exists>old. SetErrorMode os (or (SEM_FAILCRITICALERRORS os) (SEM_NOGPFAULTERRORBOX os)) s = (old, s3))" for s s3
    by (auto simp: windows_disable_core_dump_def split: prod.splits)
  have d: "windows_disable_ptrace os s = (Inr (), t) \<longleftrightarrow>
      (\<exists>s4 ok. IsDebuggerPresent os s = (0, s4) \<and> CheckRemoteDebuggerPresent os s4 = ((ok, 0), t) \<and> ok \<noteq> 0)" for s t
    by (auto simp: windows_disable_ptrace_def Let_def split: prod.splits if_splits)
  show ?thesis unfolding apply_all_Inr WindowsProcessProtection_def process_protection.simps l c d by blast
qed

text \<open>No start without memory locking. On macOS and on the other targets the startup check fails at its first step, before any call of
the system: a process there never runs with the other protections alone.\<close>
theorem unlockable_targets_fail_closed:
  "apply_all (MacosProcessProtection os) s =
     (Inl (Unsupported (''macOS mlockall unavailable '' @ [CHR 0xE2, CHR 0x80, CHR 0x94] @ '' use per-region mlock / Secure Enclave'')), s)
   \<and> apply_all FallbackProcessProtection s = (Inl (Unsupported ''lock_memory''), s)"
  by (simp add: apply_all_def MacosProcessProtection_def macos_lock_memory_def FallbackProcessProtection_def bnd_def)

end
