(* ===== verification/Testkit.thy ===== *)
theory Testkit
  imports Typecode
begin

text \<open>The scope marker of \<^verbatim>\<open>arkhe-runtime-testkit/src/shrink.rs\<close>, and the domains of the strategies of
\<^verbatim>\<open>arbitrary.rs\<close>; a strategy is the set of values it draws from, here its bounds.\<close>

datatype shrink_scope = CoreComponentScope | CoreEventScope | CanonicalVerbScope | ShellVerbScope | ShellScopedScope | DebugTestScope

definition ShrinkScope_of :: "u32 \<Rightarrow> shrink_scope option" where
  "ShrinkScope_of c =
     (if in_range CORE_COMPONENT c then Some CoreComponentScope
      else if in_range CORE_EVENT c then Some CoreEventScope
      else if in_range CORE_VERB_CANONICAL c then Some CanonicalVerbScope
      else if in_range SHELL_VERB c then Some ShellVerbScope
      else if in_range SHELL_SCOPED c then Some ShellScopedScope
      else if in_range DEBUG_TEST c then Some DebugTestScope
      else None)"

fun scope_range :: "shrink_scope \<Rightarrow> u32 \<times> u32" where
  "scope_range CoreComponentScope = CORE_COMPONENT" | "scope_range CoreEventScope = CORE_EVENT"
| "scope_range CanonicalVerbScope = CORE_VERB_CANONICAL" | "scope_range ShellVerbScope = SHELL_VERB"
| "scope_range ShellScopedScope = SHELL_SCOPED" | "scope_range DebugTestScope = DEBUG_TEST"

definition core_component_typecode :: "u32 \<times> u32" where "core_component_typecode = CORE_COMPONENT"
definition core_event_typecode :: "u32 \<times> u32" where "core_event_typecode = CORE_EVENT"
definition canonical_verb_typecode :: "u32 \<times> u32" where "canonical_verb_typecode = CORE_VERB_CANONICAL"
definition shell_scoped_typecode :: "u32 \<times> u32" where "shell_scoped_typecode = SHELL_SCOPED"

text \<open>A drawn number as an entity id.\<close>
definition entity_id_nz :: "u64 \<Rightarrow> u64" where
  "entity_id_nz v = (if v = 0 then 1 else v)"

text \<open>A scope is a range. A code is classified to a scope exactly when it lies in its range, whatever the order of the tests.\<close>
theorem shrink_scope_exact: "ShrinkScope_of c = Some s \<longleftrightarrow> in_range (scope_range s) c"
  by (cases s) (auto simp: ShrinkScope_of_def in_range_unat range_defs)

end
