(* ===== verification/Runtime_Proofs.thy ===== *)
theory Runtime_Proofs
  imports Verifier
begin

text \<open>The abstract models of the Kani harnesses, \<^verbatim>\<open>arkhe-runtime-proofs/src/lib.rs\<close>, and how the model of the signature
dispatch relates to the verifier of the platform.\<close>

datatype kani_actor_state = Anonymous | Authenticated

record kani_actor =
  ka_state :: kani_actor_state
  ka_shell_brand :: u8

record kani_target =
  kt_shell_brand :: u8

definition authorize :: "kani_actor \<Rightarrow> kani_target \<Rightarrow> bool" where
  "authorize actor target \<longleftrightarrow> ka_state actor = Authenticated \<and> ka_shell_brand actor = kt_shell_brand target"

definition kani_dispatch :: "u32 \<Rightarrow> bytes" where
  "kani_dispatch input = [ucast (drop_bit 24 input), ucast (drop_bit 16 input), ucast (drop_bit 8 input), ucast input]"

definition fold_chain :: "bytes \<Rightarrow> u32" where
  "fold_chain es = fold (\<lambda>e acc. acc * 31 + ucast e) es 0"

datatype kani_signature_class = KNone | KEd25519 | KMlDsa65 | KHybrid

fun verify_record :: "kani_signature_class \<Rightarrow> bool \<Rightarrow> bool \<Rightarrow> bool" where
  "verify_record KNone ed25519_ok mldsa65_ok = True"
| "verify_record KEd25519 ed25519_ok mldsa65_ok = ed25519_ok"
| "verify_record KMlDsa65 ed25519_ok mldsa65_ok = mldsa65_ok"
| "verify_record KHybrid ed25519_ok mldsa65_ok = (ed25519_ok \<and> mldsa65_ok)"

section \<open>The models and the code\<close>

lemma kani_dispatch_be: "kani_dispatch w = be_bytes 4 w"
  by (simp add: kani_dispatch_def be_bytes_def numeral_eq_Suc drop_bit_drop_bit)

lemma kani_dispatch_inject: "kani_dispatch v = kani_dispatch w \<longleftrightarrow> v = w"
  by (simp add: kani_dispatch_be be_bytes_inject)

fun kani_class :: "runtime_signature_class \<Rightarrow> kani_signature_class" where
  "kani_class RSC_None = KNone" | "kani_class RSC_Ed25519 = KEd25519"
| "kani_class RSC_MlDsa65 = KMlDsa65" | "kani_class RSC_Hybrid = KHybrid"

text \<open>The two outcomes the abstract model takes as inputs: of the whole key and signature, or of their halves when both have
the hybrid lengths.\<close>
definition hybrid_lengths :: "bytes \<Rightarrow> bytes \<Rightarrow> bool" where
  "hybrid_lengths pk sg \<longleftrightarrow> length pk = ED25519_PK_LEN + MLDSA65_PK_LEN \<and> length sg = ED25519_SIG_LEN + MLDSA65_SIG_LEN"

definition ed25519_outcome :: "sig_schemes \<Rightarrow> runtime_signature_class \<Rightarrow> bytes \<Rightarrow> bytes \<Rightarrow> bytes \<Rightarrow> bool" where
  "ed25519_outcome S c pk m sg =
     (if c = RSC_Hybrid then hybrid_lengths pk sg \<and> verify_ed25519 S (take ED25519_PK_LEN pk) m (take ED25519_SIG_LEN sg) = Inr ()
      else verify_ed25519 S pk m sg = Inr ())"

definition mldsa65_outcome :: "sig_schemes \<Rightarrow> runtime_signature_class \<Rightarrow> bytes \<Rightarrow> bytes \<Rightarrow> bytes \<Rightarrow> bool" where
  "mldsa65_outcome S c pk m sg =
     (if c = RSC_Hybrid then hybrid_lengths pk sg \<and> verify_ml_dsa65 S (drop ED25519_PK_LEN pk) m (drop ED25519_SIG_LEN sg) = Inr ()
      else verify_ml_dsa65 S pk m sg = Inr ())"

text \<open>The verifier refines the checked model, but for its first class. Whatever the key, the message and the signature, the platform's
verification succeeds exactly when the class is not none and the abstract dispatch accepts the outcomes of the two schemes; for the class
none the abstract dispatch always accepts and the verifier never does.\<close>
theorem verifier_refines_kani_model:
  "(verify_attestation S c pk message sg = Inr () \<longleftrightarrow>
      c \<noteq> RSC_None \<and> verify_record (kani_class c) (ed25519_outcome S c pk (domain_separated message) sg)
                       (mldsa65_outcome S c pk (domain_separated message) sg))
   \<and> verify_record (kani_class RSC_None) a b \<and> verify_attestation S RSC_None pk message sg = Inl SignatureRequired"
  by (cases c) (auto simp: verify_attestation_def Let_def ed25519_outcome_def mldsa65_outcome_def hybrid_lengths_def split: sum.split)

end
