(* ===== verification/Registry.thy ===== *)
theory Registry
  imports Service "HOL-Library.Sublist"
begin

text \<open>The service as a state machine over any number of dispatches, and what it implements: a registry of users with their
lifecycle, actors with the user they are bound to, and works with their author.  The relation \<^verbatim>\<open>serves\<close> is one dispatch over the
reference ledger: the gate of \<^verbatim>\<open>dispatcher.rs\<close>, the compute body through the bridge, and any part of its operations, because the
kernel may deny some of them.\<close>

section \<open>One dispatch over the ledger\<close>

record request =
  rq_action :: core_action
  rq_tick :: tick
  rq_actor :: "actor_id option"

definition admitted :: "postcards \<Rightarrow> ledger \<Rightarrow> actor_id option \<Rightarrow> bool" where
  "admitted pc L actor \<longleftrightarrow> (case actor of None \<Rightarrow> True | Some a \<Rightarrow> eligible pc (lg_comps L) a)"

definition staged_ops :: "blake3 \<Rightarrow> postcards \<Rightarrow> caps \<Rightarrow> instance_id \<Rightarrow> request \<Rightarrow> unit op list" where
  "staged_ops h pc SYS inst r =
     kernel_compute_inner SYS (compute h pc (rq_action r)) inst (rq_tick r) (map_option actor_get (rq_actor r))"

text \<open>The ids the operations spawn are not in use.\<close>
definition new_ids :: "'ext op list \<Rightarrow> ledger \<Rightarrow> bool" where
  "new_ids ps L \<longleftrightarrow> list_all (\<lambda>p. case p of SpawnEntity i _ \<Rightarrow> i \<notin> lg_spawned L | _ \<Rightarrow> True) ps"

inductive serves :: "blake3 \<Rightarrow> postcards \<Rightarrow> caps \<Rightarrow> instance_id \<Rightarrow> ledger \<Rightarrow> request \<Rightarrow> ledger \<Rightarrow> bool"
  for h pc SYS inst where
  refused: "\<not> admitted pc L (rq_actor r) \<Longrightarrow> serves h pc SYS inst L r L"
| executed: "admitted pc L (rq_actor r) \<Longrightarrow> new_ids (staged_ops h pc SYS inst r) L \<Longrightarrow>
    subseq qs (staged_ops h pc SYS inst r) \<Longrightarrow> serves h pc SYS inst L r (ledger_run qs L)"

inductive run_of :: "blake3 \<Rightarrow> postcards \<Rightarrow> caps \<Rightarrow> instance_id \<Rightarrow> ledger \<Rightarrow> request list \<Rightarrow> ledger \<Rightarrow> bool"
  for h pc SYS inst where
  start: "run_of h pc SYS inst L [] L"
| serve: "run_of h pc SYS inst L rs M \<Longrightarrow> serves h pc SYS inst M r N \<Longrightarrow> run_of h pc SYS inst L (rs @ [r]) N"

section \<open>The abstract registry\<close>

record registry =
  reg_status :: "user_id \<rightharpoonup> gdpr_status"
  reg_user :: "actor_id \<rightharpoonup> user_id"
  reg_creator :: "space_id \<rightharpoonup> actor_id"
  reg_author :: "activity_id \<rightharpoonup> actor_id"

definition may_act :: "registry \<Rightarrow> actor_id \<Rightarrow> bool" where
  "may_act R a \<longleftrightarrow> (case reg_user R a of None \<Rightarrow> True | Some u \<Rightarrow> reg_status R u = Some Active)"

text \<open>Users begin active and are only ever moved to the pending state; bindings and authors are set once, for actors that may act.\<close>
inductive registry_step :: "registry \<Rightarrow> registry \<Rightarrow> bool" where
  idle: "registry_step R R"
| enrol: "reg_status R u = None \<Longrightarrow> registry_step R (R\<lparr>reg_status := (reg_status R)(u \<mapsto> Active)\<rparr>)"
| erase: "registry_step R (R\<lparr>reg_status := (reg_status R)(u \<mapsto> ErasurePending)\<rparr>)"
| bind: "reg_user R a = None \<Longrightarrow> registry_step R (R\<lparr>reg_user := (reg_user R)(a \<mapsto> u)\<rparr>)"
| found: "reg_creator R s = None \<Longrightarrow> may_act R a \<Longrightarrow> registry_step R (R\<lparr>reg_creator := (reg_creator R)(s \<mapsto> a)\<rparr>)"
| act: "reg_author R v = None \<Longrightarrow> may_act R a \<Longrightarrow> registry_step R (R\<lparr>reg_author := (reg_author R)(v \<mapsto> a)\<rparr>)"

definition silenced :: "registry \<Rightarrow> actor_id \<Rightarrow> user_id \<Rightarrow> bool" where
  "silenced R a u \<longleftrightarrow> reg_user R a = Some u \<and> reg_status R u = Some ErasurePending"

definition works :: "registry \<Rightarrow> actor_id \<Rightarrow> space_id set \<times> activity_id set" where
  "works R a = ({s. reg_creator R s = Some a}, {v. reg_author R v = Some a})"

lemma registry_step_silenced:
  assumes "registry_step R R'" "silenced R a u"
  shows "silenced R' a u \<and> works R' a = works R a"
  using assms by (induction rule: registry_step.induct) (auto simp: silenced_def works_def may_act_def)

lemma registry_run_silenced:
  assumes "registry_step\<^sup>*\<^sup>* R R'" "silenced R a u"
  shows "silenced R' a u \<and> works R' a = works R a"
  using assms by (induction rule: rtranclp_induct) (auto dest: registry_step_silenced)

text \<open>What is recorded stays recorded.\<close>
lemma registry_run_grows:
  assumes "registry_step\<^sup>*\<^sup>* R R'"
  shows "reg_user R \<subseteq>\<^sub>m reg_user R' \<and> reg_creator R \<subseteq>\<^sub>m reg_creator R' \<and> reg_author R \<subseteq>\<^sub>m reg_author R'"
  using assms
proof (induction rule: rtranclp_induct)
  case (step S T)
  from step(2) have "reg_user S \<subseteq>\<^sub>m reg_user T \<and> reg_creator S \<subseteq>\<^sub>m reg_creator T \<and> reg_author S \<subseteq>\<^sub>m reg_author T"
    by (induction rule: registry_step.induct) (auto simp: map_le_def)
  with step.IH show ?case by (meson map_le_trans)
qed simp

section \<open>The ledger as a registry\<close>

definition stored :: "'c arkhe_type \<Rightarrow> ledger \<Rightarrow> entity_id \<Rightarrow> 'c option" where
  "stored C L e = (case decode_at C e (lg_comps L) of Inr x \<Rightarrow> x | Inl _ \<Rightarrow> None)"

definition registry_of :: "postcards \<Rightarrow> ledger \<Rightarrow> registry" where
  "registry_of pc L =
     \<lparr>reg_status = (\<lambda>u. map_option ugs_status (stored (UserGdprState pc) L (user_get u))),
      reg_user = (\<lambda>a. map_option ub_user_id (stored (UserBinding pc) L (actor_get a))),
      reg_creator = (\<lambda>s. map_option sc_creator (stored (SpaceConfig pc) L (space_get s))),
      reg_author = (\<lambda>v. map_option ar_actor (stored (ActivityRecord pc) L (activity_get v)))\<rparr>"

text \<open>Components hang on spawned entities.\<close>
definition ledger_wf :: "ledger \<Rightarrow> bool" where
  "ledger_wf L \<longleftrightarrow> (\<forall>e. e \<notin> lg_spawned L \<longrightarrow> lg_comps L e = (\<lambda>_. None))"

lemma ledger_wf_empty: "ledger_wf \<lparr>lg_spawned = {}, lg_comps = \<lambda>_ _. None\<rparr>"
  by (simp add: ledger_wf_def)

lemma ledger_wf_run: "ledger_wf L \<Longrightarrow> ledger_wf (ledger_run ps L)"
proof (induction ps arbitrary: L)
  case (Cons p ps)
  have "ledger_wf (ledger_apply p L)" using Cons.prems by (cases p) (auto simp: ledger_wf_def)
  then show ?case using Cons.IH by simp
qed simp

lemma stored_unspawned: "ledger_wf L \<Longrightarrow> e \<notin> lg_spawned L \<Longrightarrow> stored C L e = None"
  by (simp add: stored_def ledger_wf_def decode_at_def)

lemma admitted_may_act: "eligible pc (lg_comps L) a \<Longrightarrow> may_act (registry_of pc L) a"
  by (auto simp: eligible_def may_act_def registry_of_def stored_def split: sum.splits option.splits)

text \<open>Operations that write a component code at most at one entity, with one value.\<close>
definition writes_only :: "'c arkhe_type \<Rightarrow> entity_id \<Rightarrow> 'c \<Rightarrow> 'ext op list \<Rightarrow> bool" where
  "writes_only C i x ps \<longleftrightarrow> (\<forall>p\<in>set ps. writes_code (TYPE_CODE C) p \<longrightarrow> enc_op C i x = Some p)"

lemma ledger_run_writes_only:
  assumes "writes_only C i x qs" "codec_ok (postcard C)"
  shows "stored C (ledger_run qs L) = stored C L \<or> stored C (ledger_run qs L) = (stored C L)(i \<mapsto> x)"
  using assms(1)
proof (induction qs arbitrary: L)
  case (Cons q qs)
  have q: "stored C (ledger_apply q L) = stored C L \<or> stored C (ledger_apply q L) = (stored C L)(i \<mapsto> x)"
  proof (cases "writes_code (TYPE_CODE C) q")
    case True
    then have "enc_op C i x = Some q" using Cons.prems by (simp add: writes_only_def)
    then show ?thesis using assms(2)
      by (cases "i \<in> lg_spawned L") (auto simp: enc_op_Some stored_def decode_at_def codec_okD fun_eq_iff)
  next
    case False
    then show ?thesis by (cases q) (auto simp: stored_def decode_at_def fun_eq_iff)
  qed
  have "writes_only C i x qs" using Cons.prems by (simp add: writes_only_def)
  from Cons.IH[OF this, of "ledger_apply q L"] q show ?case by auto
qed simp

lemma ledger_run_writes_none:
  "\<forall>p\<in>set qs. \<not> writes_code (TYPE_CODE C) p \<Longrightarrow> stored C (ledger_run qs L) = stored C L"
  by (simp add: stored_def ledger_not_written fun_eq_iff)

section \<open>A dispatch implements a step of the registry\<close>

definition codecs_ok :: "postcards \<Rightarrow> bool" where
  "codecs_ok pc \<longleftrightarrow> codec_ok (pc_user_gdpr_state pc) \<and> codec_ok (pc_user_binding pc)
     \<and> codec_ok (pc_space_config pc) \<and> codec_ok (pc_activity_record pc)"

text \<open>The effect of operations on the registry, when only one of the four components is written.\<close>
lemma registry_of_status:
  assumes "codecs_ok pc" "writes_only (UserGdprState pc) i x qs"
    and "\<forall>C\<in>{0x00030102, 0x00030201, 0x00030401}. \<forall>p\<in>set qs. \<not> writes_code C p"
  shows "registry_of pc (ledger_run qs L) = registry_of pc L \<or>
     registry_of pc (ledger_run qs L) =
       registry_of pc L\<lparr>reg_status := (reg_status (registry_of pc L))(UserId i \<mapsto> ugs_status x)\<rparr>"
  using ledger_run_writes_only[OF assms(2), of L] assms(1,3)
  by (auto simp: registry_of_def codecs_ok_def ledger_run_writes_none fun_eq_iff user_id.expand)

lemma registry_of_binding:
  assumes "codecs_ok pc" "writes_only (UserBinding pc) i x qs"
    and "\<forall>C\<in>{0x00030003, 0x00030201, 0x00030401}. \<forall>p\<in>set qs. \<not> writes_code C p"
  shows "registry_of pc (ledger_run qs L) = registry_of pc L \<or>
     registry_of pc (ledger_run qs L) =
       registry_of pc L\<lparr>reg_user := (reg_user (registry_of pc L))(ActorId i \<mapsto> ub_user_id x)\<rparr>"
  using ledger_run_writes_only[OF assms(2), of L] assms(1,3)
  by (auto simp: registry_of_def codecs_ok_def ledger_run_writes_none fun_eq_iff actor_id.expand)

lemma registry_of_creator:
  assumes "codecs_ok pc" "writes_only (SpaceConfig pc) i x qs"
    and "\<forall>C\<in>{0x00030003, 0x00030102, 0x00030401}. \<forall>p\<in>set qs. \<not> writes_code C p"
  shows "registry_of pc (ledger_run qs L) = registry_of pc L \<or>
     registry_of pc (ledger_run qs L) =
       registry_of pc L\<lparr>reg_creator := (reg_creator (registry_of pc L))(SpaceId i \<mapsto> sc_creator x)\<rparr>"
  using ledger_run_writes_only[OF assms(2), of L] assms(1,3)
  by (auto simp: registry_of_def codecs_ok_def ledger_run_writes_none fun_eq_iff space_id.expand)

lemma registry_of_author:
  assumes "codecs_ok pc" "writes_only (ActivityRecord pc) i x qs"
    and "\<forall>C\<in>{0x00030003, 0x00030102, 0x00030201}. \<forall>p\<in>set qs. \<not> writes_code C p"
  shows "registry_of pc (ledger_run qs L) = registry_of pc L \<or>
     registry_of pc (ledger_run qs L) =
       registry_of pc L\<lparr>reg_author := (reg_author (registry_of pc L))(ActivityId i \<mapsto> ar_actor x)\<rparr>"
  using ledger_run_writes_only[OF assms(2), of L] assms(1,3)
  by (auto simp: registry_of_def codecs_ok_def ledger_run_writes_none fun_eq_iff activity_id.expand)

lemma registry_of_new:
  assumes "ledger_wf L" "e \<notin> lg_spawned L"
  shows "reg_status (registry_of pc L) (UserId e) = None" "reg_user (registry_of pc L) (ActorId e) = None"
    "reg_creator (registry_of pc L) (SpaceId e) = None" "reg_author (registry_of pc L) (ActivityId e) = None"
  using assms by (simp_all add: registry_of_def stored_unspawned)

lemma registry_of_unwritten:
  "\<forall>C\<in>{0x00030003, 0x00030102, 0x00030201, 0x00030401}. \<forall>p\<in>set qs. \<not> writes_code C p \<Longrightarrow>
     registry_of pc (ledger_run qs L) = registry_of pc L"
  by (simp add: registry_of_def ledger_run_writes_none)

lemma body_step:
  fixes c :: "unit ctx"
  assumes ok: "codecs_ok pc" "ledger_wf L"
    and run: "compute h pc act (bridge_ctx SYS inst t (map_option actor_get actor)) = (Inr (), c)"
    and gate: "admitted pc L actor" "new_ids (ops c) L" and qs: "set qs \<subseteq> set (ops c)"
  shows "registry_step (registry_of pc L) (registry_of pc (ledger_run qs L))"
proof -
  have act_of: "map_option (\<lambda>x. ActorId (actor_get x)) actor = actor" by (cases actor) simp_all
  show ?thesis
  proof (cases act)
    case (ARegisterUser a)
    with run obtain i p1 p2 p3 where o: "ops c = [SpawnEntity i System, p1, p2, p3]"
      "enc_op (UserProfile pc) i (ru_profile a) = Some p1" "enc_op (AuthCredential pc) i (ru_credential a) = Some p2"
      "enc_op (UserGdprState pc) i \<lparr>ugs_schema_version = 1, ugs_status = Active\<rparr> = Some p3"
      by (auto simp: compute_RegisterUser_ok)
    have w: "writes_only (UserGdprState pc) i \<lparr>ugs_schema_version = 1, ugs_status = Active\<rparr> qs"
      using qs o by (auto simp: writes_only_def writes_code_enc_op)
    have n: "\<forall>C\<in>{0x00030102, 0x00030201, 0x00030401}. \<forall>p\<in>set qs. \<not> writes_code C p"
      using qs o by (auto simp: writes_code_enc_op)
    have "i \<notin> lg_spawned L" using gate(2) o(1) by (simp add: new_ids_def)
    note new = registry_of_new(1)[OF ok(2) this, of pc]
    from registry_of_status[OF ok(1) w n, of L] show ?thesis
      by (elim disjE) (simp_all add: idle enrol[OF new])
  next
    case (AGdprEraseUser a)
    with run obtain p bs where o: "ops c = [p, EmitEvent None USER_ERASURE_SCHEDULED bs]"
      "enc_op (UserGdprState pc) (user_get (geu_user a)) \<lparr>ugs_schema_version = 1, ugs_status = ErasurePending\<rparr> = Some p"
      by (auto simp: compute_GdprEraseUser_ok)
    have w: "writes_only (UserGdprState pc) (user_get (geu_user a)) \<lparr>ugs_schema_version = 1, ugs_status = ErasurePending\<rparr> qs"
      using qs o by (auto simp: writes_only_def writes_code_enc_op)
    have n: "\<forall>C\<in>{0x00030102, 0x00030201, 0x00030401}. \<forall>p\<in>set qs. \<not> writes_code C p"
      using qs o by (auto simp: writes_code_enc_op)
    from registry_of_status[OF ok(1) w n, of L] show ?thesis
      by (elim disjE) (simp_all add: idle erase)
  next
    case (ARegisterActor a)
    with run obtain i p1 p2 where o: "ops c = [SpawnEntity i System, p1, p2]"
      "enc_op (ActorProfile pc) i (ra_profile a) = Some p1"
      "enc_op (UserBinding pc) i \<lparr>ub_schema_version = 1, ub_user_id = ra_user a\<rparr> = Some p2"
      by (auto simp: compute_RegisterActor_ok)
    have w: "writes_only (UserBinding pc) i \<lparr>ub_schema_version = 1, ub_user_id = ra_user a\<rparr> qs"
      using qs o by (auto simp: writes_only_def writes_code_enc_op)
    have n: "\<forall>C\<in>{0x00030003, 0x00030201, 0x00030401}. \<forall>p\<in>set qs. \<not> writes_code C p"
      using qs o by (auto simp: writes_code_enc_op)
    have "i \<notin> lg_spawned L" using gate(2) o(1) by (simp add: new_ids_def)
    note new = registry_of_new(2)[OF ok(2) this, of pc]
    from registry_of_binding[OF ok(1) w n, of L] show ?thesis
      by (elim disjE) (simp_all add: idle bind[OF new])
  next
    case (ACreateSpace a)
    with run obtain x d i p1 p2 where o: "actor = Some x" "ops c = [SpawnEntity i System, p1, p2]"
      "enc_op (SpaceConfig pc) i (into_config (cs_config a) x) = Some p1"
      "enc_op (ParentChainDepth pc) i \<lparr>pcd_schema_version = 1, pcd_depth = d\<rparr> = Some p2"
      using act_of by (fastforce simp: compute_CreateSpace_ok option.map_comp comp_def)
    have w: "writes_only (SpaceConfig pc) i (into_config (cs_config a) x) qs"
      using qs o by (auto simp: writes_only_def writes_code_enc_op)
    have n: "\<forall>C\<in>{0x00030003, 0x00030102, 0x00030401}. \<forall>p\<in>set qs. \<not> writes_code C p"
      using qs o by (auto simp: writes_code_enc_op)
    have m: "may_act (registry_of pc L) x" using gate(1) o(1) admitted_may_act by (simp add: admitted_def)
    have x: "sc_creator (into_config (cs_config a) x) = x" by (simp add: into_config_def)
    have "i \<notin> lg_spawned L" using gate(2) o(2) by (simp add: new_ids_def)
    note new = registry_of_new(3)[OF ok(2) this, of pc]
    from registry_of_creator[OF ok(1) w n, of L] show ?thesis
      by (elim disjE) (simp_all add: idle x found[OF new m])
  next
    case (ASubmitActivity a)
    with run obtain x i p where o: "actor = Some x" "ops c = [SpawnEntity i System, p]"
      "enc_op (ActivityRecord pc) i (into_record (sa_draft a) x) = Some p"
      using act_of by (fastforce simp: compute_SubmitActivity_ok option.map_comp comp_def)
    have w: "writes_only (ActivityRecord pc) i (into_record (sa_draft a) x) qs"
      using qs o by (auto simp: writes_only_def writes_code_enc_op)
    have n: "\<forall>C\<in>{0x00030003, 0x00030102, 0x00030201}. \<forall>p\<in>set qs. \<not> writes_code C p"
      using qs o by (auto simp: writes_code_enc_op)
    have m: "may_act (registry_of pc L) x" using gate(1) o(1) admitted_may_act by (simp add: admitted_def)
    have x: "ar_actor (into_record (sa_draft a) x) = x" by (simp add: into_record_def)
    have "i \<notin> lg_spawned L" using gate(2) o(2) by (simp add: new_ids_def)
    note new = registry_of_new(4)[OF ok(2) this, of pc]
    from registry_of_author[OF ok(1) w n, of L] show ?thesis
      by (elim disjE) (simp_all add: idle x act[OF new m])
  next
    case (ARetractActivity a)
    with run have "ops c = []" by (auto simp: compute_RetractActivity_eq split: if_splits)
    then show ?thesis using qs registry_of_unwritten[of qs pc L] idle by simp
  qed
qed

lemma serves_step:
  assumes "codecs_ok pc" "ledger_wf L" "serves h pc SYS inst L r L'"
  shows "registry_step (registry_of pc L) (registry_of pc L') \<and> ledger_wf L'"
  using assms(3)
proof (cases rule: serves.cases)
  case refused
  then show ?thesis using assms(2) idle by simp
next
  case (executed qs)
  have sub: "set qs \<subseteq> set (staged_ops h pc SYS inst r)"
    using executed(4) by (auto dest: list_emb_set)
  show ?thesis
  proof (cases "staged_ops h pc SYS inst r = []")
    case True
    then show ?thesis using sub executed(1) assms(2) idle by simp
  next
    case False
    then obtain c where c: "compute h pc (rq_action r) (bridge_ctx SYS inst (rq_tick r) (map_option actor_get (rq_actor r))) = (Inr (), c)"
      "staged_ops h pc SYS inst r = ops c"
      unfolding staged_ops_def using kernel_compute_inner_nonempty by blast
    show ?thesis
      using body_step[OF assms(1,2) c(1) executed(2)] executed(1,3) sub c(2) ledger_wf_run[OF assms(2)] by simp
  qed
qed

lemma run_simulated:
  assumes "codecs_ok pc" "run_of h pc SYS inst L rs L'" "ledger_wf L"
  shows "registry_step\<^sup>*\<^sup>* (registry_of pc L) (registry_of pc L') \<and> ledger_wf L'"
  using assms(2,3)
proof (induction rule: run_of.induct)
  case (serve L rs M r N)
  then show ?case using serves_step[OF assms(1), of M h SYS inst r N] by (auto intro: rtranclp.rtrancl_into_rtrancl)
qed simp

section \<open>Any number of dispatches\<close>

text \<open>The ids a request may spawn: at most one, because every context starts its sequence at zero.\<close>
fun creates :: "core_action \<Rightarrow> type_code option" where
  "creates (ARegisterUser _) = Some 0x00030001"
| "creates (AGdprEraseUser _) = None"
| "creates (ARegisterActor _) = Some 0x00030101"
| "creates (ACreateSpace _) = Some 0x00030201"
| "creates (ASubmitActivity _) = Some 0x00030401"
| "creates (ARetractActivity _) = None"

definition request_id :: "blake3 \<Rightarrow> instance_id \<Rightarrow> request \<Rightarrow> entity_id option" where
  "request_id h inst r =
     (case creates (rq_action r) of None \<Rightarrow> None
      | Some C \<Rightarrow> derive_entity_id h (replicate 32 0) inst C (rq_tick r) 0)"

lemma staged_ops_spawns:
  "SpawnEntity i p \<in> set (staged_ops h pc SYS inst r) \<Longrightarrow> request_id h inst r = Some i"
proof -
  assume i: "SpawnEntity i p \<in> set (staged_ops h pc SYS inst r)"
  then have "staged_ops h pc SYS inst r \<noteq> []" by auto
  then obtain c where c: "compute h pc (rq_action r) (bridge_ctx SYS inst (rq_tick r) (map_option actor_get (rq_actor r))) = (Inr (), c)"
    "staged_ops h pc SYS inst r = ops c"
    unfolding staged_ops_def using kernel_compute_inner_nonempty by blast
  show ?thesis using c i
    by (cases "rq_action r")
      (auto simp: request_id_def compute_RegisterUser_ok compute_GdprEraseUser_ok compute_RegisterActor_ok compute_CreateSpace_ok
        compute_SubmitActivity_ok compute_RetractActivity_eq fresh_id_Some enc_op_Some split: if_splits)
qed

text \<open>The ids derived for the requests are in no use, and differ from each other.\<close>
definition ids_unused :: "blake3 \<Rightarrow> instance_id \<Rightarrow> request list \<Rightarrow> ledger \<Rightarrow> bool" where
  "ids_unused h inst rs L \<longleftrightarrow>
     (let ids = concat (map (\<lambda>r. case request_id h inst r of None \<Rightarrow> [] | Some i \<Rightarrow> [i]) rs)
      in distinct ids \<and> set ids \<inter> lg_spawned L = {})"

lemma spawned_run: "lg_spawned (ledger_run qs L) = lg_spawned L \<union> {i. \<exists>p. SpawnEntity i p \<in> set qs}"
proof (induction qs arbitrary: L)
  case (Cons q qs)
  then show ?case by (cases q) auto
qed simp

lemma ids_unused_new: "ids_unused h inst (r # rs) L \<Longrightarrow> new_ids (staged_ops h pc SYS inst r) L"
  by (auto simp: ids_unused_def new_ids_def list_all_iff Let_def dest!: staged_ops_spawns split: op.split)

lemma ids_unused_serves:
  assumes "ids_unused h inst (r # rs) L" "serves h pc SYS inst L r L'"
  shows "ids_unused h inst rs L'"
proof -
  have "lg_spawned L' \<subseteq> lg_spawned L \<union> set_option (request_id h inst r)"
    using assms(2)
  proof (cases rule: serves.cases)
    case (executed qs)
    then show ?thesis using staged_ops_spawns[of _ _ h pc SYS inst r] by (auto simp: spawned_run dest: list_emb_set)
  qed simp
  then show ?thesis using assms(1) by (auto simp: ids_unused_def Let_def split: option.splits)
qed

text \<open>The documented behaviour of the kernel, over a reading of its state as a ledger: the view is the ledger's, a submission that
fails changes nothing, and the step after an accepted one executes the operations of the decoded action, or those of them it does not
deny; a type code without an action does nothing.\<close>
definition kernel_executes ::
  "('k, 'ext, 'kerr, 'rep, 'cfg, 'wal) kernel_api \<Rightarrow> blake3 \<Rightarrow> postcards \<Rightarrow> caps \<Rightarrow> instance_id
    \<Rightarrow> (type_code \<Rightarrow> bytes \<Rightarrow> core_action option) \<Rightarrow> ('k \<Rightarrow> ledger) \<Rightarrow> bool" where
  "kernel_executes K h pc SYS inst action state \<longleftrightarrow>
     (\<forall>k. k_instance_view K k inst = Some (lg_comps (state k)))
   \<and> (\<forall>k p actor cs at tc bs e k1. k_submit K k inst p actor cs at tc bs = (Inl e, k1) \<longrightarrow> state k1 = state k)
   \<and> (\<forall>k p actor cs at tc bs k1. k_submit K k inst p (map_option actor_get actor) cs at tc bs = (Inr (), k1) \<longrightarrow>
        (case action tc bs of
           None \<Rightarrow> state (snd (k_step K k1 at cs)) = state k
         | Some a \<Rightarrow> \<exists>qs. subseq qs (staged_ops h pc SYS inst \<lparr>rq_action = a, rq_tick = at, rq_actor = actor\<rparr>)
              \<and> state (snd (k_step K k1 at cs)) = ledger_run qs (state k)))"

record 'ext call =
  cl_principal :: "'ext principal"
  cl_type_code :: type_code
  cl_bytes :: bytes
  cl_tick :: tick
  cl_caps :: caps
  cl_actor :: "actor_id option"

definition call_dispatch where
  "call_dispatch K pc inst c k =
     dispatch K pc inst (cl_principal c) (cl_type_code c) (cl_bytes c) (cl_tick c) (cl_caps c) (cl_actor c) k"

fun dispatch_all where
  "dispatch_all K pc inst [] k = k"
| "dispatch_all K pc inst (c # cs) k = dispatch_all K pc inst cs (snd (call_dispatch K pc inst c k))"

definition requests :: "(type_code \<Rightarrow> bytes \<Rightarrow> core_action option) \<Rightarrow> 'ext call list \<Rightarrow> request list" where
  "requests action cs = concat (map (\<lambda>c. case action (cl_type_code c) (cl_bytes c) of None \<Rightarrow> []
     | Some a \<Rightarrow> [\<lparr>rq_action = a, rq_tick = cl_tick c, rq_actor = cl_actor c\<rparr>]) cs)"

lemma dispatch_serves:
  assumes "kernel_executes K h pc SYS inst action state"
    and "\<forall>r\<in>set (requests action [c]). new_ids (staged_ops h pc SYS inst r) (state k)"
  shows "case requests action [c] of [] \<Rightarrow> state (snd (call_dispatch K pc inst c k)) = state k
     | r # _ \<Rightarrow> serves h pc SYS inst (state k) r (state (snd (call_dispatch K pc inst c k)))"
proof -
  note K = assms(1)[unfolded kernel_executes_def]
  have executes: "k_submit K k inst p (map_option actor_get a) cs t tc bs = (Inr (), k1) \<Longrightarrow>
        (case action tc bs of
           None \<Rightarrow> state (snd (k_step K k1 t cs)) = state k
         | Some x \<Rightarrow> \<exists>qs. subseq qs (staged_ops h pc SYS inst \<lparr>rq_action = x, rq_tick = t, rq_actor = a\<rparr>)
              \<and> state (snd (k_step K k1 t cs)) = ledger_run qs (state k))" for p a cs t tc bs k1
    using K by blast
  have gate: "(admission_gate K pc k inst (cl_principal c) (cl_tick c) (cl_caps c) (cl_actor c) = Inr ())
      \<longleftrightarrow> admitted pc (state k) (cl_actor c)"
    using K by (auto simp: admission_gate_cases admitted_def split: option.split)
  obtain res k1 where sub: "k_submit K k inst (cl_principal c) (map_option actor_get (cl_actor c)) (cl_caps c) (cl_tick c)
      (cl_type_code c) (cl_bytes c) = (res, k1)" by (metis surj_pair)
  define k' where "k' = snd (call_dispatch K pc inst c k)"
  have k': "k' = (if \<not> admitted pc (state k) (cl_actor c) then k
      else case res of Inl _ \<Rightarrow> k1 | Inr _ \<Rightarrow> snd (k_step K k1 (cl_tick c) (cl_caps c)))"
    using gate sub unfolding k'_def call_dispatch_def dispatch_def
    by (cases "admission_gate K pc k inst (cl_principal c) (cl_tick c) (cl_caps c) (cl_actor c)") (auto split: sum.splits prod.splits)
  show ?thesis
  proof (cases "action (cl_type_code c) (cl_bytes c)")
    case None
    have "state k' = state k"
    proof (cases res)
      case (Inl e)
      then show ?thesis using k' K sub by auto
    next
      case (Inr u)
      then show ?thesis using k' executes[of "cl_principal c" "cl_actor c" "cl_caps c" "cl_tick c" "cl_type_code c" "cl_bytes c" k1] sub None
        by simp
    qed
    then show ?thesis using None by (simp add: requests_def k'_def)
  next
    case (Some a)
    let ?r = "\<lparr>rq_action = a, rq_tick = cl_tick c, rq_actor = cl_actor c\<rparr>"
    have n: "new_ids (staged_ops h pc SYS inst ?r) (state k)" using assms(2) Some by (simp add: requests_def)
    have "serves h pc SYS inst (state k) ?r (state k')"
    proof (cases "admitted pc (state k) (cl_actor c)")
      case False
      then show ?thesis using k' refused[of pc "state k" ?r] by simp
    next
      case adm: True
      have "\<exists>qs. subseq qs (staged_ops h pc SYS inst ?r) \<and> state k' = ledger_run qs (state k)"
      proof (cases res)
        case (Inl e)
        then have "state k' = ledger_run [] (state k)" using k' adm K sub by auto
        then show ?thesis by (metis list_emb_Nil)
      next
        case (Inr u)
        then show ?thesis
          using k' adm sub Some executes[of "cl_principal c" "cl_actor c" "cl_caps c" "cl_tick c" "cl_type_code c" "cl_bytes c" k1] by simp
      qed
      then show ?thesis using executed[of pc "state k" ?r h SYS inst] adm n by auto
    qed
    then show ?thesis using Some by (simp add: requests_def k'_def)
  qed
qed

lemma dispatch_all_runs:
  assumes "kernel_executes K h pc SYS inst action state"
    and "run_of h pc SYS inst L rs (state k)" "ids_unused h inst (requests action cs) (state k)"
  shows "run_of h pc SYS inst L (rs @ requests action cs) (state (dispatch_all K pc inst cs k))"
  using assms(2,3)
proof (induction cs arbitrary: k rs)
  case Nil
  then show ?case by (simp add: requests_def)
next
  case step: (Cons c cs)
  let ?k = "snd (call_dispatch K pc inst c k)"
  show ?case
  proof (cases "action (cl_type_code c) (cl_bytes c)")
    case None
    then have r: "requests action [c] = []" "requests action (c # cs) = requests action cs" by (simp_all add: requests_def)
    then have "state ?k = state k" using dispatch_serves[OF assms(1), of c k] by simp
    then show ?thesis using step.IH[of rs ?k] step.prems r(2) by simp
  next
    case (Some a)
    define r where "r = \<lparr>rq_action = a, rq_tick = cl_tick c, rq_actor = cl_actor c\<rparr>"
    have r: "requests action [c] = [r]" "requests action (c # cs) = r # requests action cs"
      using Some by (simp_all add: requests_def r_def)
    have u: "ids_unused h inst (r # requests action cs) (state k)" using step.prems(2) r(2) by simp
    have s: "serves h pc SYS inst (state k) r (state ?k)"
      using dispatch_serves[OF assms(1), of c k] ids_unused_new[OF u, of pc SYS] r(1) by simp
    from step.IH[OF serve[OF step.prems(1) s] ids_unused_serves[OF u s]] show ?thesis using r(2) by simp
  qed
qed

section \<open>Properties\<close>

text \<open>C2: the service implements the registry, as long as ids are not reused. Let the kernel execute, of the operations an action
stages, those it does not deny, let the codecs round-trip, and let the ids that the calls of the sequence derive be pairwise distinct and not
yet spawned (calls that derive one id twice, such as two registrations at one tick, are outside the statement). Then any such sequence of
\<^verbatim>\<open>dispatch\<close> calls, with any actions, actors and capabilities, refused or not, takes the registry read off the kernel's state through
steps of the abstract registry only: users are enrolled once and active, moved to pending only, actors are bound once, and works are recorded
once, for actors who may act.\<close>
theorem service_refines_registry:
  assumes "kernel_executes K h pc SYS inst action state" "codecs_ok pc"
    and "ledger_wf (state k)" "ids_unused h inst (requests action cs) (state k)"
  shows "registry_step\<^sup>*\<^sup>* (registry_of pc (state k)) (registry_of pc (state (dispatch_all K pc inst cs k)))
     \<and> ledger_wf (state (dispatch_all K pc inst cs k))"
  using run_simulated[OF assms(2) dispatch_all_runs[OF assms(1) start assms(4)] assms(3)] by simp

text \<open>C3: a request for erasure is irrevocable. Once the user behind an actor is pending, no sequence of calls, by anyone, with fresh ids,
makes the user active again, rebinds the actor or records one more space or activity in its name, and every later call by the actor is
refused with \<^verbatim>\<open>ErasurePending\<close>.\<close>
theorem erasure_is_irrevocable:
  assumes "kernel_executes K h pc SYS inst action state" "codecs_ok pc"
    and "ledger_wf (state k)" "ids_unused h inst (requests action cs) (state k)"
    and "silenced (registry_of pc (state k)) a u"
  shows "let k' = dispatch_all K pc inst cs k; R = registry_of pc (state k); R' = registry_of pc (state k') in
     reg_user R' a = Some u \<and> reg_status R' u = Some ErasurePending
   \<and> reg_creator R' -` {Some a} = reg_creator R -` {Some a} \<and> reg_author R' -` {Some a} = reg_author R -` {Some a}
   \<and> dispatch K pc inst p tc body at cm (Some a) k' = (Inl (DErasurePending u at), k')"
proof -
  let ?k = "dispatch_all K pc inst cs k"
  have "registry_step\<^sup>*\<^sup>* (registry_of pc (state k)) (registry_of pc (state ?k))"
    using run_simulated[OF assms(2) dispatch_all_runs[OF assms(1) start assms(4)] assms(3)] by simp
  note kept = registry_run_silenced[OF this assms(5)]
  then obtain b s where b: "decode_at (UserBinding pc) (actor_get a) (lg_comps (state ?k)) = Inr (Some b)" "ub_user_id b = u"
    and s: "decode_at (UserGdprState pc) (user_get u) (lg_comps (state ?k)) = Inr (Some s)" "ugs_status s = ErasurePending"
    by (auto simp: silenced_def registry_of_def stored_def split: sum.splits)
  have "ensure_actor_eligible pc a at (with_view (lg_comps (state ?k)) (ActionContext_new (replicate 32 0) inst at p cm))
      = Inl (UserErasurePending u at)"
    using b s by (simp add: ensure_actor_eligible_pending[where b=b and s=s])
  moreover have "k_instance_view K ?k inst = Some (lg_comps (state ?k))" using assms(1) by (simp add: kernel_executes_def)
  ultimately have "dispatch K pc inst p tc body at cm (Some a) ?k = (Inl (DErasurePending u at), ?k)"
    by (simp add: dispatch_def admission_gate_def)
  then show ?thesis using kept by (auto simp: silenced_def works_def vimage_def Let_def)
qed

text \<open>C37: two registrations at one tick share one identity. Ids are derived from the instance, the type, the tick and a sequence number
that starts at zero in every context, so a second \<^verbatim>\<open>RegisterUser\<close> at a tick, whatever it registers, stages the spawn of the entity
the first one staged, and writes its own profile, its own credential and the active lifecycle on it. What the kernel then does with the
second spawn is not part of the statement.\<close>
theorem same_tick_registrations_share_entity:
  assumes "kernel_compute_inner SYS (compute_RegisterUser h pc ru) inst t n1 = SpawnEntity uid o1 # U"
    and "kernel_compute_inner SYS (compute_RegisterUser h pc ru') inst t n2 = v # V"
  shows "v = SpawnEntity uid System
   \<and> map Some U = [enc_op (UserProfile pc) uid (ru_profile ru), enc_op (AuthCredential pc) uid (ru_credential ru),
       enc_op (UserGdprState pc) uid \<lparr>ugs_schema_version = 1, ugs_status = Active\<rparr>]
   \<and> map Some V = [enc_op (UserProfile pc) uid (ru_profile ru'), enc_op (AuthCredential pc) uid (ru_credential ru'),
       enc_op (UserGdprState pc) uid \<lparr>ugs_schema_version = 1, ugs_status = Active\<rparr>]"
proof -
  have reg: "\<exists>i. derive_entity_id h (replicate 32 0) inst 0x00030001 t 0 = Some i \<and> hd ps = SpawnEntity i System
      \<and> map Some (tl ps) = [enc_op (UserProfile pc) i (ru_profile r), enc_op (AuthCredential pc) i (ru_credential r),
          enc_op (UserGdprState pc) i \<lparr>ugs_schema_version = 1, ugs_status = Active\<rparr>]"
    if run: "kernel_compute_inner SYS (compute_RegisterUser h pc r) inst t n = ps" "ps \<noteq> []" for r n and ps :: "'ext op list"
  proof -
    obtain c where "compute_RegisterUser h pc r (bridge_ctx SYS inst t n) = (Inr (), c)" "ps = ops c"
      using kernel_compute_inner_nonempty run by metis
    then show ?thesis by (auto simp: compute_RegisterUser_ok fresh_id_Some)
  qed
  from reg[OF assms(1)] reg[OF assms(2)] show ?thesis by auto
qed

section \<open>A concrete kernel\<close>

definition demo_action :: "type_code \<Rightarrow> bytes \<Rightarrow> core_action option" where
  "demo_action tc bs =
     (if tc = 0x00010001 then Some (ARegisterUser demo_register_user)
      else if tc = 0x00010101 then Some (ARegisterActor demo_register_actor)
      else if tc = 0x00010003 then Some (AGdprEraseUser demo_erase) else None)"

text \<open>Its state is a ledger and the request that was submitted last.\<close>
definition queue_kernel :: "(ledger \<times> request option, unit, unit, unit, unit, unit) kernel_api" where
  "queue_kernel = \<lparr>k_new_with_wal = (\<lambda>_ _. (\<lparr>lg_spawned = {}, lg_comps = \<lambda>_ _. None\<rparr>, None)), k_register_action = (\<lambda>k _. k),
     k_create_instance = (\<lambda>k _. (1, k)), k_instance_view = (\<lambda>k _. Some (lg_comps (fst k))),
     k_submit = (\<lambda>k i p actor cs at tc bs. (Inr (), (fst k, map_option (\<lambda>a. \<lparr>rq_action = a, rq_tick = at,
        rq_actor = map_option ActorId actor\<rparr>) (demo_action tc bs)))),
     k_step = (\<lambda>k at cs. ((), case snd k of None \<Rightarrow> k
        | Some r \<Rightarrow> (ledger_run (staged_ops demo_hash demo_pc 1 1 r) (fst k), None))),
     k_export_wal = (\<lambda>_. None), k_InstanceNotFound = ()\<rparr>"

lemma queue_kernel_executes: "kernel_executes queue_kernel demo_hash demo_pc 1 1 demo_action fst"
proof -
  have a: "map_option ActorId (map_option actor_get x) = x" for x by (cases x) simp_all
  show ?thesis
    unfolding kernel_executes_def queue_kernel_def
    by (auto simp: a split: option.split)
qed

lemma demo_codecs: "codecs_ok demo_pc"
  using demo_pc_ok by (simp add: codecs_ok_def)

definition demo_call :: "type_code \<Rightarrow> tick \<Rightarrow> unit call" where
  "demo_call tc t = \<lparr>cl_principal = System, cl_type_code = tc, cl_bytes = [], cl_tick = t, cl_caps = 1, cl_actor = None\<rparr>"

lemma service_refines_registry_witness:
  "let k = (\<lparr>lg_spawned = {}, lg_comps = \<lambda>_ _. None\<rparr>, None); cs = [demo_call 0x00010001 5, demo_call 0x00010101 5, demo_call 0x00010003 7]
   in registry_step\<^sup>*\<^sup>* (registry_of demo_pc (fst k)) (registry_of demo_pc (fst (dispatch_all queue_kernel demo_pc 1 cs k)))"
proof -
  let ?k = "(\<lparr>lg_spawned = {}, lg_comps = \<lambda>_ _. None\<rparr>, None)"
  have "ids_unused demo_hash 1 (requests demo_action [demo_call 0x00010001 5, demo_call 0x00010101 5, demo_call 0x00010003 7]) (fst ?k)"
    by (simp add: ids_unused_def requests_def demo_call_def demo_action_def request_id_def demo_derive)
  from service_refines_registry[OF queue_kernel_executes demo_codecs _ this] show ?thesis
    by (simp add: ledger_wf_empty)
qed

lemma erasure_is_irrevocable_witness:
  "let L = \<lparr>lg_spawned = {0x0003000100000000, 0x0003010100000000},
         lg_comps = (\<lambda>_ _. None)(0x0003000100000000 := [0x00030003 \<mapsto> [4]], 0x0003010100000000 := [0x00030102 \<mapsto> [7]])\<rparr>;
       k' = dispatch_all queue_kernel demo_pc 1 [demo_call 0x00010003 9] (L, None)
   in dispatch queue_kernel demo_pc 1 System 0x00010401 [] 9 1 (Some demo_aid) k' = (Inl (DErasurePending demo_uid 9), k')"
proof -
  let ?L = "\<lparr>lg_spawned = {0x0003000100000000, 0x0003010100000000},
         lg_comps = (\<lambda>_ _. None)(0x0003000100000000 := [0x00030003 \<mapsto> [4]], 0x0003010100000000 := [0x00030102 \<mapsto> [7]])\<rparr>"
  let ?k = "(?L, None :: request option)"
  have s: "silenced (registry_of demo_pc (fst ?k)) demo_aid demo_uid"
    by (simp add: silenced_def registry_of_def stored_def decode_at_def demo_aid_def demo_uid_def
        codec_okD[OF demo_pc_ok(3) demo_enc(4)] codec_okD[OF demo_pc_ok(5) demo_enc(6)])
  have i: "ids_unused demo_hash 1 (requests demo_action [demo_call 0x00010003 9]) (fst ?k)"
    by (simp add: ids_unused_def requests_def demo_call_def demo_action_def request_id_def)
  have w: "ledger_wf (fst ?k)" by (simp add: ledger_wf_def)
  show ?thesis
    unfolding Let_def
    by (rule erasure_is_irrevocable[where state = fst and k = ?k and a = demo_aid and u = demo_uid, OF queue_kernel_executes demo_codecs w i s, unfolded Let_def, THEN conjunct2, THEN conjunct2,
        THEN conjunct2, THEN conjunct2])
qed

text \<open>A second user, with another credential, that registers at the tick of the first.\<close>
definition demo_other_user :: register_user where
  "demo_other_user = demo_register_user\<lparr>ru_credential := demo_credential\<lparr>ac_credential_hash := replicate 32 8\<rparr>\<rparr>"

definition demo_pc_two :: postcards where
  "demo_pc_two = demo_pc\<lparr>pc_auth_credential := table_codec [(demo_credential, [2]), (ru_credential demo_other_user, [5])]\<rparr>"

lemma same_tick_registrations_share_entity_witness:
  "let ops = \<lambda>r. kernel_compute_inner 1 (compute_RegisterUser demo_hash demo_pc_two r) 1 5 None :: unit op list
   in hd (ops demo_other_user) = hd (ops demo_register_user)
    \<and> ops demo_register_user ! 2 = SetComponent 0x0003000100000000 0x00030002 [2] 1
    \<and> ops demo_other_user ! 2 = SetComponent 0x0003000100000000 0x00030002 [5] 1"
proof -
  have ne: "demo_credential\<lparr>ac_credential_hash := replicate 32 8\<rparr> \<noteq> demo_credential" by (simp add: demo_credential_def)
  have 1: "kernel_compute_inner 1 (compute_RegisterUser demo_hash demo_pc_two demo_register_user) 1 5 None
     = SpawnEntity 0x0003000100000000 System #
        [SetComponent 0x0003000100000000 0x00030001 [1] 1, SetComponent 0x0003000100000000 0x00030002 [2] 1,
         SetComponent 0x0003000100000000 0x00030003 [3] 1]"
    by (rule kernel_compute_inner_exI)
       (simp add: compute_RegisterUser_ok demo_register_user_def fresh_id_def demo_derive demo_pc_two_def
        enc_op_def demo_enc len_u64_def kdf_min_defs word_le_nat_alt, simp add: table_codec_def len_u64_def)
  have 2: "kernel_compute_inner 1 (compute_RegisterUser demo_hash demo_pc_two demo_other_user) 1 5 None
     = SpawnEntity 0x0003000100000000 System #
        [SetComponent 0x0003000100000000 0x00030001 [1] 1, SetComponent 0x0003000100000000 0x00030002 [5] 1,
         SetComponent 0x0003000100000000 0x00030003 [3] 1]"
    by (rule kernel_compute_inner_exI)
       (simp add: compute_RegisterUser_ok demo_register_user_def demo_other_user_def fresh_id_def demo_derive demo_pc_two_def
        enc_op_def demo_enc len_u64_def kdf_min_defs word_le_nat_alt, simp add: table_codec_def len_u64_def ne ne[symmetric])
  from same_tick_registrations_share_entity[OF 1 2] show ?thesis unfolding Let_def 1 2 by simp
qed

end
