(* ===== verification/Unit_Tests.thy ===== *)
theory Unit_Tests
  imports Component
begin

text \<open>The repository's unit tests as executable predicates.  The \<^verbatim>\<open>_Tests\<close> theories translate the test functions of a source
file one by one, and their last lemmas decide them in the kernel: the models pass the tests that the code passes.  A test is a
script, the list of its calls and assertions in order, run from the state its first lines arrange; a call that does not return
what the test unwraps, or an assertion that does not hold, is the panic that fails the test.  Codecs, ciphers and hashes stay
parameters, so that a test holds for every implementation with the documented behaviour.\<close>

named_theorems test_defs \<open>the scripts and the helpers of a test module\<close>

section \<open>Scripts\<close>

type_synonym 's step = "'s \<Rightarrow> 's option"

primrec passes :: "'s step list \<Rightarrow> 's \<Rightarrow> bool" where
  "passes [] s = True"
| "passes (x # xs) s = (case x s of None \<Rightarrow> False | Some t \<Rightarrow> passes xs t)"

text \<open>The state a script leads to, for the helpers that arrange one.\<close>
primrec after :: "'s step list \<Rightarrow> 's \<Rightarrow> 's option" where
  "after [] s = Some s"
| "after (x # xs) s = (case x s of None \<Rightarrow> None | Some t \<Rightarrow> after xs t)"

text \<open>\<^verbatim>\<open>call.unwrap()\<close>, with an assertion on the value.\<close>
definition yields :: "('s, 'e, 'a) act \<Rightarrow> ('a \<Rightarrow> bool) \<Rightarrow> 's step" where
  "yields m P = (\<lambda>s. case m s of (Inl e, t) \<Rightarrow> None | (Inr x, t) \<Rightarrow> if P x then Some t else None)"

text \<open>\<^verbatim>\<open>call.unwrap_err()\<close>, with an assertion on the error.\<close>
definition fails :: "('s, 'e, 'a) act \<Rightarrow> ('e \<Rightarrow> bool) \<Rightarrow> 's step" where
  "fails m P = (\<lambda>s. case m s of (Inr x, t) \<Rightarrow> None | (Inl e, t) \<Rightarrow> if P e then Some t else None)"

text \<open>A call that returns no result, one that returns a plain value, and an assertion on the state.\<close>
definition calls :: "('s \<Rightarrow> 's) \<Rightarrow> 's step" where
  "calls f = (\<lambda>s. Some (f s))"

definition takes :: "('s \<Rightarrow> 'a \<times> 's) \<Rightarrow> ('a \<Rightarrow> bool) \<Rightarrow> 's step" where
  "takes f P = (\<lambda>s. case f s of (x, t) \<Rightarrow> if P x then Some t else None)"

definition sees :: "('s \<Rightarrow> bool) \<Rightarrow> 's step" where
  "sees P = (\<lambda>s. if P s then Some s else None)"

abbreviation unwraps :: "('s, 'e, 'a) act \<Rightarrow> 's step" where
  "unwraps m \<equiv> yields m (\<lambda>_. True)"

abbreviation errs :: "('s, 'e, 'a) act \<Rightarrow> 's step" where
  "errs m \<equiv> fails m (\<lambda>_. True)"

lemmas script_simps = yields_def fails_def calls_def takes_def sees_def

lemma yields_ok: "m s = (Inr x, t) \<Longrightarrow> P x \<Longrightarrow> yields m P s = Some t"
  by (simp add: yields_def)

lemma after_append: "after (xs @ ys) s = (case after xs s of None \<Rightarrow> None | Some t \<Rightarrow> after ys t)"
  by (induction xs arbitrary: s) (auto split: option.splits)

text \<open>\<^verbatim>\<open>buf[0] ^= x\<close>\<close>
definition flip_first :: "u8 \<Rightarrow> bytes \<Rightarrow> bytes" where
  "flip_first x s = s[0 := xor (s ! 0) x]"

lemma length_flip_first [simp]: "length (flip_first x s) = length s"
  by (simp add: flip_first_def)

section \<open>Results\<close>

fun ok_with :: "'e + 'a \<Rightarrow> ('a \<Rightarrow> bool) \<Rightarrow> bool" where
  "ok_with (Inr x) P = P x"
| "ok_with (Inl e) P = False"

fun err_with :: "'e + 'a \<Rightarrow> ('e \<Rightarrow> bool) \<Rightarrow> bool" where
  "err_with (Inl e) P = P e"
| "err_with (Inr x) P = False"

fun some_with :: "'a option \<Rightarrow> ('a \<Rightarrow> bool) \<Rightarrow> bool" where
  "some_with (Some x) P = P x"
| "some_with None P = False"

abbreviation is_ok :: "'e + 'a \<Rightarrow> bool" where "is_ok r \<equiv> ok_with r (\<lambda>_. True)"
abbreviation is_err :: "'e + 'a \<Rightarrow> bool" where "is_err r \<equiv> err_with r (\<lambda>_. True)"

text \<open>\<^verbatim>\<open>postcard::to_stdvec(x).unwrap()\<close>, for the tests that encode an arranged value: the value is encodable.\<close>
definition encoded :: "'a codec \<Rightarrow> 'a \<Rightarrow> bytes" where
  "encoded c x = (case cd_enc c x of Some b \<Rightarrow> b | None \<Rightarrow> [])"

definition codec_works :: "'a codec \<Rightarrow> bool" where
  "codec_works c \<longleftrightarrow> codec_ok c \<and> codec_total c"

lemma encoded_works:
  assumes "codec_works c"
  shows "cd_dec c (encoded c x) = Some x" "cd_enc c x = Some (encoded c x)" "encoded c x = encoded c y \<longleftrightarrow> x = y"
proof -
  have e: "cd_enc c z = Some (encoded c z)" for z
    using assms by (auto simp: codec_works_def codec_total_def encoded_def split: option.splits)
  then show "cd_enc c x = Some (encoded c x)" .
  have d: "cd_dec c (encoded c z) = Some z" for z
    using assms codec_okD[OF _ e] by (simp add: codec_works_def)
  then show "cd_dec c (encoded c x) = Some x" .
  show "encoded c x = encoded c y \<longleftrightarrow> x = y" using d by (metis option.inject)
qed

end
