(* ===== verification/Projection_Tests.thy ===== *)
theory Projection_Tests
  imports Projection Unit_Tests
begin

text \<open>The tests of \<^verbatim>\<open>arkhe-forge-platform/src/projection.rs\<close>: the lifecycle of the router, its dispatch rules and retries, the
store, the fan-out and the promotion policy.  The boxed projections of the tests are one type, each case a struct of the test
module.\<close>

section \<open>Helpers of the test module\<close>

definition sid :: "u8 \<Rightarrow> shell_id" where
  [test_defs]: "sid b = ShellId (replicate 16 b)"

datatype boxed =
    Boxed_fanout fanout
  | CountingProjection "projection_cursor option" nat
  | FailOnceProjection "projection_cursor option" bool
  | FailSecondProjection "projection_cursor option" nat

definition CountingProjection_new :: boxed where
  [test_defs]: "CountingProjection_new = CountingProjection None 0"

definition FailOnceProjection_new :: boxed where
  [test_defs]: "FailOnceProjection_new = FailOnceProjection None False"

definition CrossShellActivityFanout_boxed :: boxed where
  [test_defs]: "CrossShellActivityFanout_boxed = Boxed_fanout Fanout_new"

fun counting_on_event :: "event_record \<Rightarrow> projection_cursor option \<Rightarrow> nat \<Rightarrow> (projection_error + unit) \<times> boxed" where
  "counting_on_event ev c applied = (Inr (), CountingProjection (Some (event_pos ev)) (applied + 1))"

fun fail_once_on_event :: "event_record \<Rightarrow> projection_cursor option \<Rightarrow> bool \<Rightarrow> (projection_error + unit) \<times> boxed" where
  "fail_once_on_event ev c failed =
     (if \<not> failed then (Inl (PE_Storage ''injected first-apply failure''), FailOnceProjection c True)
      else (Inr (), FailOnceProjection (Some (event_pos ev)) failed))"

fun fail_second_on_event :: "event_record \<Rightarrow> projection_cursor option \<Rightarrow> nat \<Rightarrow> (projection_error + unit) \<times> boxed" where
  "fail_second_on_event ev c n =
     (if n + 1 = 2 then (Inl (PE_Storage ''transient''), FailSecondProjection c (n + 1))
      else (Inr (), FailSecondProjection (Some (event_pos ev)) (n + 1)))"

fun boxed_on_event :: "cross_shell_activity codec \<Rightarrow> event_record \<Rightarrow> projection_context \<Rightarrow> boxed
    \<Rightarrow> (projection_error + unit) \<times> boxed" where
  "boxed_on_event pc ev cx (Boxed_fanout f) = (case fanout_on_event pc ev cx f of (r, f') \<Rightarrow> (r, Boxed_fanout f'))"
| "boxed_on_event pc ev cx (CountingProjection c n) = counting_on_event ev c n"
| "boxed_on_event pc ev cx (FailOnceProjection c b) = fail_once_on_event ev c b"
| "boxed_on_event pc ev cx (FailSecondProjection c n) = fail_second_on_event ev c n"

fun boxed_last_applied :: "boxed \<Rightarrow> (u64 \<times> tick) option" where
  "boxed_last_applied (Boxed_fanout f) = cursor_last_applied (fo_cursor f)"
| "boxed_last_applied (CountingProjection c n) = cursor_last_applied c"
| "boxed_last_applied (FailOnceProjection c b) = cursor_last_applied c"
| "boxed_last_applied (FailSecondProjection c n) = cursor_last_applied c"

definition boxed_ops :: "cross_shell_activity codec \<Rightarrow> boxed projection_ops" where
  [test_defs]: "boxed_ops pc = \<lparr>p_observes = (\<lambda>_. [CROSS_SHELL_ACTIVITY]), p_on_event = boxed_on_event pc,
     p_on_state_change = default_on_state_change, p_last_applied = boxed_last_applied\<rparr>"

definition applied_count :: "boxed \<Rightarrow> nat" where
  [test_defs]: "applied_count p = (case p of CountingProjection c n \<Rightarrow> n | _ \<Rightarrow> 0)"

definition make_cross_shell_event :: "cross_shell_activity codec \<Rightarrow> u64 \<Rightarrow> u64 \<Rightarrow> shell_id \<Rightarrow> event_record" where
  [test_defs]: "make_cross_shell_event pc sequence t target =
     \<lparr>er_type_code = CROSS_SHELL_ACTIVITY, er_sequence = sequence, er_tick = t,
      er_payload = encoded pc \<lparr>csa_schema_version = 1, csa_actor = ActorId 1, csa_target_shell_id = target,
        csa_record_shell_id = sid 0xAA, csa_detected_tick = t\<rparr>\<rparr>"

definition test_ctx :: "u64 \<Rightarrow> projection_context" where
  [test_defs]: "test_ctx t = ProjectionContext_new t 1"

text \<open>\<^verbatim>\<open>UserErasureScheduled\<close>, which no projection of the tests observes.\<close>
definition other_event :: "u64 \<Rightarrow> event_record" where
  [test_defs]: "other_event t = \<lparr>er_type_code = 0x00030F02, er_sequence = 0, er_tick = t, er_payload = []\<rparr>"

text \<open>The first lines of most tests, and a dispatch of the event at a position.\<close>
definition active_router :: "cross_shell_activity codec \<Rightarrow> boxed list \<Rightarrow> boxed router" where
  [test_defs]: "active_router pc ps = fold (register (boxed_ops pc)) ps (snd (promote_to_active (boxed_ops pc) ProjectionRouter_new))"

definition sends :: "cross_shell_activity codec \<Rightarrow> u64 \<Rightarrow> u64 \<Rightarrow> shell_id \<Rightarrow> (boxed router, projection_error, nat) act" where
  [test_defs]: "sends pc sequence t target = dispatch_event (boxed_ops pc) (make_cross_shell_event pc sequence t target) (test_ctx t)"

definition is_sequence_gap :: "projection_error \<Rightarrow> bool" where
  [test_defs]: "is_sequence_gap e = (case e of SequenceGap _ _ \<Rightarrow> True | _ \<Rightarrow> False)"

definition is_sequence_backward :: "projection_error \<Rightarrow> bool" where
  [test_defs]: "is_sequence_backward e = (case e of SequenceBackward _ _ \<Rightarrow> True | _ \<Rightarrow> False)"

section \<open>Lifecycle and routing\<close>

definition router_defaults_to_passive :: bool where
  [test_defs]: "router_defaults_to_passive = (rstate (ProjectionRouter_new :: boxed router) = ObsPassive)"

definition router_promote_then_demote_then_drain :: "cross_shell_activity codec \<Rightarrow> bool" where
  [test_defs]: "router_promote_then_demote_then_drain pc = (let P = boxed_ops pc in passes
     [unwraps (promote_to_active P), sees (\<lambda>r. rstate r = ObsActive),
      unwraps (demote_to_passive P), sees (\<lambda>r. rstate r = ObsPassive),
      unwraps (begin_draining P), sees (\<lambda>r. rstate r = ObsDraining),
      errs (promote_to_active P), errs (demote_to_passive P), errs (begin_draining P),
      sees (\<lambda>r. rstate r = ObsDraining)] ProjectionRouter_new)"

definition cross_shell_fanout_routes_to_target_shell_only :: "cross_shell_activity codec \<Rightarrow> bool" where
  [test_defs]: "cross_shell_fanout_routes_to_target_shell_only pc = passes
     [yields (sends pc 0 100 (sid 0x33)) (\<lambda>applied. applied = 1)]
     (active_router pc [CrossShellActivityFanout_boxed])"

definition dispatcher_fans_out_to_all_matching_in_registration_order :: "cross_shell_activity codec \<Rightarrow> bool" where
  [test_defs]: "dispatcher_fans_out_to_all_matching_in_registration_order pc = passes
     [yields (sends pc 0 100 (sid 0x44)) (\<lambda>applied. applied = 2)]
     (active_router pc [CrossShellActivityFanout_boxed, CrossShellActivityFanout_boxed])"

definition dispatcher_unobserved_typecode_is_index_miss :: "cross_shell_activity codec \<Rightarrow> bool" where
  [test_defs]: "dispatcher_unobserved_typecode_is_index_miss pc = passes
     [yields (dispatch_event (boxed_ops pc) (other_event 1) (test_ctx 1)) (\<lambda>applied. applied = 0)]
     (active_router pc [CrossShellActivityFanout_boxed])"

definition dispatcher_skips_projection_with_no_matching_observer :: "cross_shell_activity codec \<Rightarrow> bool" where
  [test_defs]: "dispatcher_skips_projection_with_no_matching_observer pc = passes
     [yields (dispatch_event (boxed_ops pc) (other_event 1) (test_ctx 1)) (\<lambda>applied. applied = 0)]
     (active_router pc [CrossShellActivityFanout_boxed])"

definition dispatcher_dedups_redelivered_event :: "cross_shell_activity codec \<Rightarrow> bool" where
  [test_defs]: "dispatcher_dedups_redelivered_event pc = passes
     [unwraps (sends pc 0 5 (sid 0x10)), yields (sends pc 0 5 (sid 0x10)) (\<lambda>applied. applied = 0)]
     (active_router pc [CrossShellActivityFanout_boxed])"

section \<open>Stream positions\<close>

definition dispatcher_rejects_same_tick_gap :: "cross_shell_activity codec \<Rightarrow> bool" where
  [test_defs]: "dispatcher_rejects_same_tick_gap pc = passes
     [unwraps (sends pc 0 5 (sid 0x10)), fails (sends pc 2 5 (sid 0x10)) is_sequence_gap]
     (active_router pc [CrossShellActivityFanout_boxed])"

definition dispatcher_rejects_new_tick_missing_batch_head :: "cross_shell_activity codec \<Rightarrow> bool" where
  [test_defs]: "dispatcher_rejects_new_tick_missing_batch_head pc = passes
     [unwraps (sends pc 0 5 (sid 0x10)), fails (sends pc 3 6 (sid 0x10)) is_sequence_gap]
     (active_router pc [CrossShellActivityFanout_boxed])"

definition dispatcher_rejects_backward_sequence :: "cross_shell_activity codec \<Rightarrow> bool" where
  [test_defs]: "dispatcher_rejects_backward_sequence pc = passes
     [unwraps (sends pc 2 5 (sid 0x10)), fails (sends pc 1 5 (sid 0x10)) is_sequence_backward]
     (active_router pc [CrossShellActivityFanout_boxed])"

definition dispatcher_rejects_backward_tick :: "cross_shell_activity codec \<Rightarrow> bool" where
  [test_defs]: "dispatcher_rejects_backward_tick pc = passes
     [unwraps (sends pc 0 5 (sid 0x10)), fails (sends pc 0 4 (sid 0x10)) is_sequence_backward]
     (active_router pc [CrossShellActivityFanout_boxed])"

definition same_tick_second_compute_head_rejected_loudly :: "cross_shell_activity codec \<Rightarrow> bool" where
  [test_defs]: "same_tick_second_compute_head_rejected_loudly pc = passes
     [unwraps (sends pc 0 5 (sid 0x10)), unwraps (sends pc 1 5 (sid 0x10)),
      fails (sends pc 0 5 (sid 0x10)) is_sequence_backward]
     (active_router pc [CrossShellActivityFanout_boxed])"

definition same_tick_single_event_batches_conflict_loudly :: "cross_shell_activity codec \<Rightarrow> bool" where
  [test_defs]: "same_tick_single_event_batches_conflict_loudly pc = passes
     [unwraps (sends pc 0 5 (sid 0x10)),
      fails (sends pc 0 5 (sid 0x20)) (\<lambda>e. e = PositionConflict \<lparr>pcu_sequence = 0, pcu_tick = 5\<rparr>)]
     (active_router pc [CrossShellActivityFanout_boxed])"

section \<open>Failures and retries\<close>

definition failed_first_dispatch_pins_the_anchor_until_retried :: "cross_shell_activity codec \<Rightarrow> bool" where
  [test_defs]: "failed_first_dispatch_pins_the_anchor_until_retried pc = passes
     [errs (sends pc 0 5 (sid 0x10)), fails (sends pc 0 6 (sid 0x10)) is_sequence_gap,
      yields (sends pc 0 5 (sid 0x10)) (\<lambda>applied. applied = 1), yields (sends pc 0 6 (sid 0x10)) (\<lambda>applied. applied = 1)]
     (active_router pc [FailOnceProjection_new])"

definition failed_first_dispatch_rejects_a_different_event_at_the_pinned_position :: "cross_shell_activity codec \<Rightarrow> bool" where
  [test_defs]: "failed_first_dispatch_rejects_a_different_event_at_the_pinned_position pc = passes
     [errs (sends pc 0 5 (sid 0x10)),
      fails (sends pc 0 5 (sid 0x20)) (\<lambda>e. e = PositionConflict \<lparr>pcu_sequence = 0, pcu_tick = 5\<rparr>),
      yields (sends pc 0 5 (sid 0x10)) (\<lambda>applied. applied = 1)]
     (active_router pc [FailOnceProjection_new])"

definition failed_mid_stream_dispatch_pins_the_retry :: "cross_shell_activity codec \<Rightarrow> bool" where
  [test_defs]: "failed_mid_stream_dispatch_pins_the_retry pc = passes
     [yields (sends pc 0 5 (sid 0x10)) (\<lambda>applied. applied = 1), errs (sends pc 0 6 (sid 0x10)),
      fails (sends pc 0 7 (sid 0x10)) is_sequence_gap,
      fails (sends pc 0 6 (sid 0x20)) (\<lambda>e. case e of PositionConflict _ \<Rightarrow> True | _ \<Rightarrow> False),
      yields (sends pc 0 6 (sid 0x10)) (\<lambda>applied. applied = 1), yields (sends pc 0 7 (sid 0x10)) (\<lambda>applied. applied = 1)]
     (active_router pc [FailSecondProjection None 0])"

definition successive_computes_restarting_sequence_zero_both_apply :: "cross_shell_activity codec \<Rightarrow> bool" where
  [test_defs]: "successive_computes_restarting_sequence_zero_both_apply pc = passes
     [yields (sends pc 0 100 (sid 0x01)) (\<lambda>applied. applied = 1), yields (sends pc 0 101 (sid 0x02)) (\<lambda>applied. applied = 1),
      sees (\<lambda>r. applied_count (projections r ! 0) = 2)]
     (active_router pc [CountingProjection_new])"

definition unobserved_events_advance_stream_cursor :: "cross_shell_activity codec \<Rightarrow> bool" where
  [test_defs]: "unobserved_events_advance_stream_cursor pc = passes
     [yields (dispatch_event (boxed_ops pc) (other_event 5) (test_ctx 5)) (\<lambda>applied. applied = 0),
      fails (sends pc 2 5 (sid 0x10)) is_sequence_gap, yields (sends pc 1 5 (sid 0x10)) (\<lambda>applied. applied = 1)]
     (active_router pc [CrossShellActivityFanout_boxed])"

definition rebuilt_router_skips_already_applied_events :: "cross_shell_activity codec \<Rightarrow> bool" where
  [test_defs]: "rebuilt_router_skips_already_applied_events pc =
     (case boxed_on_event pc (make_cross_shell_event pc 0 10 (sid 0x01)) (test_ctx 10) CountingProjection_new of
        (Inl e, p) \<Rightarrow> False
      | (Inr _, p) \<Rightarrow> applied_count p = 1 \<and> passes
         [yields (sends pc 0 10 (sid 0x01)) (\<lambda>applied. applied = 0), sees (\<lambda>r. applied_count (projections r ! 0) = 1),
          yields (sends pc 0 11 (sid 0x01)) (\<lambda>applied. applied = 1), sees (\<lambda>r. applied_count (projections r ! 0) = 2)]
         (active_router pc [p]))"

definition failed_fanout_retry_does_not_double_apply :: "cross_shell_activity codec \<Rightarrow> bool" where
  [test_defs]: "failed_fanout_retry_does_not_double_apply pc = passes
     [errs (sends pc 0 5 (sid 0x10)), sees (\<lambda>r. applied_count (projections r ! 0) = 1),
      yields (sends pc 0 5 (sid 0x10)) (\<lambda>applied. applied = 1), sees (\<lambda>r. applied_count (projections r ! 0) = 1)]
     (active_router pc [CountingProjection_new, FailOnceProjection_new])"

definition draining_rejects_dispatch :: "cross_shell_activity codec \<Rightarrow> bool" where
  [test_defs]: "draining_rejects_dispatch pc = passes
     [unwraps (begin_draining (boxed_ops pc)), fails (sends pc 0 1 (sid 0)) (\<lambda>e. e = NotActive ObsDraining)]
     ProjectionRouter_new"

definition passive_rejects_dispatch :: "cross_shell_activity codec \<Rightarrow> bool" where
  [test_defs]: "passive_rejects_dispatch pc = passes
     [sees (\<lambda>r. rstate r = ObsPassive), fails (sends pc 0 1 (sid 0)) (\<lambda>e. e = NotActive ObsPassive)]
     ProjectionRouter_new"

definition demote_to_passive_blocks_subsequent_dispatch :: "cross_shell_activity codec \<Rightarrow> bool" where
  [test_defs]: "demote_to_passive_blocks_subsequent_dispatch pc = passes
     [unwraps (sends pc 0 5 (sid 0x10)), unwraps (demote_to_passive (boxed_ops pc)),
      fails (sends pc 1 6 (sid 0x10)) (\<lambda>e. e = NotActive ObsPassive)]
     (active_router pc [CrossShellActivityFanout_boxed])"

section \<open>Store, fan-out, cursor, promotion policy\<close>

definition in_memory_store_roundtrip_actor :: bool where
  [test_defs]: "in_memory_store_roundtrip_actor = ok_with (BoundedString_new 32 ''alice'') (\<lambda>alice.
     let row = \<lparr>apr_schema_version = 1, apr_actor_id = ActorId 42,
           apr_profile = \<lparr>ap_schema_version = 1, ap_shell_id = sid 0x01, ap_handle = alice, ap_kind = Human, ap_created_tick = 1\<rparr>,
           apr_user_binding = None, apr_cursor = None\<rparr>
     in passes [unwraps (upsert_actor row), sees (\<lambda>store. get_actor (ActorId 42) store = Some row)] ProjectionStore_new)"

definition cross_shell_fanout_preserves_shell_partition :: "cross_shell_activity codec \<Rightarrow> bool" where
  [test_defs]: "cross_shell_fanout_preserves_shell_partition pc = passes
     [unwraps (fanout_on_event pc (make_cross_shell_event pc 0 10 (sid 0xAA)) (test_ctx 10)),
      unwraps (fanout_on_event pc (make_cross_shell_event pc 1 11 (sid 0xBB)) (test_ctx 11)),
      sees (\<lambda>f. length (notifications_for (sid 0xAA) f) = 1), sees (\<lambda>f. length (notifications_for (sid 0xBB) f) = 1),
      sees (\<lambda>f. p_last_applied (fanout_ops pc) f = Some (1, 11))]
     Fanout_new"

definition projection_cursor_roundtrip :: "projection_cursor codec \<Rightarrow> bool" where
  [test_defs]: "projection_cursor_roundtrip pc =
     (let c = \<lparr>pcu_sequence = 5, pcu_tick = 10\<rparr> in some_with (cd_dec pc (encoded pc c)) (\<lambda>back. c = back))"

definition manifest_with :: "string \<Rightarrow> manifest_snapshot" where
  [test_defs]: "manifest_with policy =
     \<lparr>ms_schema_version = 1, ms_shell = \<lparr>sh_shell_id = ''test'', sh_display_name = ''Test''\<rparr>,
      ms_runtime = \<lparr>rt_runtime_max = ''0.15'', rt_runtime_current = ''0.13''\<rparr>,
      ms_audit = \<lparr>au_pii_cipher = ''xchacha20-poly1305'', au_dek_backend = ''software-kek'', au_kms_auto_promote = policy,
        au_signature_class = ''ed25519'', au_compliance_tier = 0\<rparr>,
      ms_frontend = FrontendSection_default\<rparr>"

definition healthy_trio :: multi_channel_health where
  [test_defs]: "healthy_trio = fold (\<lambda>c. set_status c Healthy) [DefaultChannel, DnsOverHttps, StaticIp]
     (MultiChannelHealth_new [DefaultChannel, DnsOverHttps, StaticIp])"

definition degraded_trio :: multi_channel_health where
  [test_defs]: "degraded_trio = set_status StaticIp Failing (set_status DnsOverHttps Failing
     (set_status DefaultChannel Healthy (MultiChannelHealth_new [DefaultChannel, DnsOverHttps, StaticIp])))"

definition auto_promote_policy_matrix :: bool where
  [test_defs]: "auto_promote_policy_matrix =
     (let secs = (\<lambda>n. n * 10 ^ 9 :: nat) in
        evaluate_auto_promote (manifest_with ''manual'') (secs 7200) healthy_trio True = Some Wait
      \<and> evaluate_auto_promote (manifest_with ''after_60min'') (secs (59 * 60)) healthy_trio False = Some Wait
      \<and> evaluate_auto_promote (manifest_with ''after_60min'') (secs (60 * 60)) degraded_trio False = Some Wait
      \<and> evaluate_auto_promote (manifest_with ''after_60min'') (secs (60 * 60)) healthy_trio False = Some Promote
      \<and> evaluate_auto_promote (manifest_with ''threshold_hsm'') (secs (60 * 60)) degraded_trio False = Some Wait
      \<and> evaluate_auto_promote (manifest_with ''threshold_hsm'') (secs 0) degraded_trio True = Some Promote
      \<and> evaluate_auto_promote (manifest_with ''unknown'') (secs 86400) healthy_trio True = None)"

section \<open>The tests pass\<close>

lemmas router_test_simps = test_defs script_simps register_def ProjectionRouter_new_def promote_to_active_def demote_to_passive_def
  begin_draining_def transition_def dispatch_event_def stream_check_def already_applied_def index_push_def fanout_on_event_def
  default_on_state_change_def Fanout_new_def cursor_last_applied_def event_pos_def pos_less_def contiguous_def saturating_add_def
  CROSS_SHELL_ACTIVITY_def ProjectionContext_new_def notifications_for_def

lemma routing_tests_pass:
  assumes "codec_works pc"
  shows "router_defaults_to_passive" "router_promote_then_demote_then_drain pc" "cross_shell_fanout_routes_to_target_shell_only pc"
    "dispatcher_fans_out_to_all_matching_in_registration_order pc" "dispatcher_unobserved_typecode_is_index_miss pc"
    "dispatcher_skips_projection_with_no_matching_observer pc" "dispatcher_dedups_redelivered_event pc"
    "dispatcher_rejects_same_tick_gap pc" "dispatcher_rejects_new_tick_missing_batch_head pc" "dispatcher_rejects_backward_sequence pc"
    "dispatcher_rejects_backward_tick pc" "same_tick_second_compute_head_rejected_loudly pc"
    "same_tick_single_event_batches_conflict_loudly pc"
  by (simp_all add: router_test_simps encoded_works[OF assms])

lemma retry_tests_pass:
  assumes "codec_works pc"
  shows "failed_first_dispatch_pins_the_anchor_until_retried pc"
    "failed_first_dispatch_rejects_a_different_event_at_the_pinned_position pc"
    "failed_mid_stream_dispatch_pins_the_retry pc" "successive_computes_restarting_sequence_zero_both_apply pc"
    "unobserved_events_advance_stream_cursor pc" "rebuilt_router_skips_already_applied_events pc"
    "failed_fanout_retry_does_not_double_apply pc" "draining_rejects_dispatch pc" "passive_rejects_dispatch pc"
    "demote_to_passive_blocks_subsequent_dispatch pc"
  by (simp_all add: router_test_simps encoded_works[OF assms])

lemma store_tests_pass:
  "in_memory_store_roundtrip_actor" "codec_works pc \<Longrightarrow> cross_shell_fanout_preserves_shell_partition pc"
  "codec_works cc \<Longrightarrow> projection_cursor_roundtrip cc" "auto_promote_policy_matrix"
  by (simp_all add: router_test_simps encoded_works BoundedString_new_def upsert_actor_def get_actor_def ProjectionStore_new_def
      fanout_ops_def evaluate_auto_promote_def healthy_count_def HF2_HEALTH_QUORUM_MIN_def MultiChannelHealth_new_def Let_def)

end
