(* ===== verification/Crypto_Erasure_Tests.thy ===== *)
theory Crypto_Erasure_Tests
  imports Crypto_Erasure Actions Unit_Tests
begin

text \<open>The tests of \<^verbatim>\<open>arkhe-forge-platform/src/crypto_erasure.rs\<close>: the cascade over the in-memory rows and shredder, its failure
paths, the replay, and the way from the compute body of \<^verbatim>\<open>GdprEraseUser\<close> to the router.\<close>

section \<open>Helpers of the test module\<close>

definition test_uid :: "u64 \<Rightarrow> user_id" where
  [test_defs]: "test_uid v = UserId v"

definition dek_of :: "u8 \<Rightarrow> dek_id" where
  [test_defs]: "dek_of b = DekId (replicate 16 b)"

definition make_scheduled_event :: "user_erasure_scheduled codec \<Rightarrow> user_id \<Rightarrow> u64 \<Rightarrow> u64 \<Rightarrow> event_record" where
  [test_defs]: "make_scheduled_event pc u sequence t =
     \<lparr>er_type_code = USER_ERASURE_SCHEDULED, er_sequence = sequence, er_tick = t,
      er_payload = encoded pc \<lparr>ues_schema_version = 1, ues_user = u, ues_scheduled_tick = t\<rparr>\<rparr>"

definition erasure_ctx :: "u64 \<Rightarrow> projection_context" where
  [test_defs]: "erasure_ctx t = ProjectionContext_new t 1"

text \<open>The observer of most tests, over the in-memory rows of at most one user and a shredder.\<close>
definition observer_over :: "mem_rows \<Rightarrow> 's \<Rightarrow> (mem_rows, 's) cascade" where
  [test_defs]: "observer_over rows shredder = Cascade_new rows shredder"

definition registered :: "dek_id \<Rightarrow> mem_shredder" where
  [test_defs]: "registered d = mem_register d MemShredder_new"

definition erases :: "blake3 \<Rightarrow> user_erasure_scheduled codec \<Rightarrow> user_id \<Rightarrow> u64 \<Rightarrow> u64
    \<Rightarrow> ((mem_rows, mem_shredder) cascade, projection_error, unit) act" where
  [test_defs]: "erases h pc u sequence t =
     cascade_on_event pc mem_rows_ops (mem_shredder_ops h) (make_scheduled_event pc u sequence t) (erasure_ctx t)"

definition is_storage :: "projection_error \<Rightarrow> bool" where
  [test_defs]: "is_storage e = (case e of PE_Storage _ \<Rightarrow> True | _ \<Rightarrow> False)"

definition tombstoned_user :: "user_id \<Rightarrow> (mem_rows, 's) cascade \<Rightarrow> bool" where
  [test_defs]: "tombstoned_user u c = r_is_tombstoned mem_rows_ops u (cs_rows c)"

section \<open>The cascade\<close>

definition observer_observes_user_erasure_scheduled_only :: "blake3 \<Rightarrow> user_erasure_scheduled codec \<Rightarrow> bool" where
  [test_defs]: "observer_observes_user_erasure_scheduled_only h pc =
     (p_observes (cascade_ops pc mem_rows_ops (mem_shredder_ops h)) (observer_over MemRows_new MemShredder_new)
        = [USER_ERASURE_SCHEDULED])"

definition cascade_tombstones_rows_and_shreds_dek :: "blake3 \<Rightarrow> user_erasure_scheduled codec \<Rightarrow> bool" where
  [test_defs]: "cascade_tombstones_rows_and_shreds_dek h pc = passes
     [unwraps (erases h pc (test_uid 42) 0 100), sees (tombstoned_user (test_uid 42)),
      takes drain_completions (\<lambda>cs. length cs = 1 \<and> ec_user (cs ! 0) = test_uid 42 \<and> ec_tombstoned_rows (cs ! 0) = 3
        \<and> ec_completed_tick (cs ! 0) = 100 \<and> dsa_class (ec_attestation (cs ! 0)) = RSC_None)]
     (observer_over (rows_upsert (test_uid 42) [10, 11, 12] (dek_of 0xAB) MemRows_new) (registered (dek_of 0xAB)))"

definition cascade_no_rows_still_emits_completion :: "blake3 \<Rightarrow> user_erasure_scheduled codec \<Rightarrow> bool" where
  [test_defs]: "cascade_no_rows_still_emits_completion h pc = passes
     [unwraps (erases h pc (test_uid 7) 0 5),
      takes drain_completions (\<lambda>cs. length cs = 1 \<and> ec_tombstoned_rows (cs ! 0) = 0
        \<and> dsa_class (ec_attestation (cs ! 0)) = RSC_None \<and> dsa_log_index (ec_attestation (cs ! 0)) = None)]
     (observer_over MemRows_new MemShredder_new)"

definition first_shred_log_index_is_some_zero_distinct_from_no_dek :: "blake3 \<Rightarrow> user_erasure_scheduled codec \<Rightarrow> bool" where
  [test_defs]: "first_shred_log_index_is_some_zero_distinct_from_no_dek h pc = passes
     [unwraps (erases h pc (test_uid 101) 0 50),
      takes drain_completions (\<lambda>cs. cs \<noteq> [] \<and> dsa_log_index (ec_attestation (cs ! 0)) = Some 0),
      unwraps (erases h pc (test_uid 202) 1 51),
      takes drain_completions (\<lambda>cs. cs \<noteq> [] \<and> dsa_log_index (ec_attestation (cs ! 0)) = None)]
     (observer_over (rows_upsert (test_uid 101) [1] (dek_of 0xAA) MemRows_new) (registered (dek_of 0xAA)))"

definition set_next_log_index_for_test :: "u64 \<Rightarrow> mem_shredder \<Rightarrow> mem_shredder" where
  [test_defs]: "set_next_log_index_for_test n s = s\<lparr>next_log_index := n\<rparr>"

definition shred_log_index_overflow_surfaces_backend_error :: "blake3 \<Rightarrow> bool" where
  [test_defs]: "shred_log_index_overflow_surfaces_backend_error h = passes
     [calls (mem_register (dek_of 0x01)), calls (set_next_log_index_for_test (0xFFFFFFFFFFFFFFFF - 1)),
      yields (mem_shred h (dek_of 0x01)) (\<lambda>below. dsa_log_index below = Some (0xFFFFFFFFFFFFFFFF - 1)),
      calls (mem_register (dek_of 0x02)),
      fails (mem_shred h (dek_of 0x02)) (\<lambda>e. e = ShredBackend ''DEK shred log index overflow'')]
     MemShredder_new"

section \<open>Failures\<close>

definition cascade_unknown_dek_surfaces_storage_error :: "blake3 \<Rightarrow> user_erasure_scheduled codec \<Rightarrow> bool" where
  [test_defs]: "cascade_unknown_dek_surfaces_storage_error h pc = passes
     [fails (erases h pc (test_uid 9) 0 5) is_storage, sees (\<lambda>c. \<not> tombstoned_user (test_uid 9) c)]
     (observer_over (rows_upsert (test_uid 9) [1] (dek_of 0x99) MemRows_new) MemShredder_new)"

text \<open>The two shredders that only fail, each with the error of its body.\<close>
definition failing_shredder_ops :: "dek_shred_error \<Rightarrow> unit shredder_ops" where
  [test_defs]: "failing_shredder_ops e = \<lparr>s_shred = (\<lambda>d. throw e), s_shred_with_regions = default_shred_with_regions (\<lambda>d. throw e)\<rparr>"

definition shred_failure_keeps_rows_live :: "user_erasure_scheduled codec \<Rightarrow> bool" where
  [test_defs]: "shred_failure_keeps_rows_live pc = passes
     [fails (cascade_on_event pc mem_rows_ops (failing_shredder_ops (ShredBackend ''inject: KMS unavailable''))
        (make_scheduled_event pc (test_uid 777) 0 10) (erasure_ctx 10)) is_storage,
      sees (\<lambda>c. \<not> tombstoned_user (test_uid 777) c), sees (\<lambda>c. length (upr_rows (mem_rows_for (test_uid 777) (cs_rows c))) = 3),
      takes drain_completions (\<lambda>cs. cs = [])]
     (observer_over (rows_upsert (test_uid 777) [1, 2, 3] (dek_of 0xAA) MemRows_new) ())"

definition already_shredded_surfaces_as_storage_error :: "user_erasure_scheduled codec \<Rightarrow> bool" where
  [test_defs]: "already_shredded_surfaces_as_storage_error pc = passes
     [fails (cascade_on_event pc mem_rows_ops (failing_shredder_ops AlreadyShredded)
        (make_scheduled_event pc (test_uid 999) 0 30) (erasure_ctx 30)) is_storage,
      sees (\<lambda>c. \<not> tombstoned_user (test_uid 999) c), takes drain_completions (\<lambda>cs. cs = [])]
     (observer_over (rows_upsert (test_uid 999) [1] (dek_of 0xCC) MemRows_new) ())"

definition cascade_replay_after_tombstone_holds_rows_dead :: "blake3 \<Rightarrow> user_erasure_scheduled codec \<Rightarrow> bool" where
  [test_defs]: "cascade_replay_after_tombstone_holds_rows_dead h pc = passes
     [unwraps (erases h pc (test_uid 1234) 0 40),
      takes drain_completions (\<lambda>cs. length cs = 1 \<and> dsa_class (ec_attestation (cs ! 0)) = RSC_None),
      sees (tombstoned_user (test_uid 1234)), unwraps (erases h pc (test_uid 1234) 1 41),
      takes drain_completions (\<lambda>cs. length cs = 1 \<and> dsa_class (ec_attestation (cs ! 0)) = RSC_None),
      sees (tombstoned_user (test_uid 1234))]
     (observer_over (rows_upsert (test_uid 1234) [1, 2] (dek_of 0xEF) MemRows_new) (registered (dek_of 0xEF)))"

section \<open>Router, events, end to end\<close>

definition cascade_router :: "blake3 \<Rightarrow> user_erasure_scheduled codec \<Rightarrow> (mem_rows, mem_shredder) cascade
    \<Rightarrow> (mem_rows, mem_shredder) cascade router" where
  [test_defs]: "cascade_router h pc c = (let P = cascade_ops pc mem_rows_ops (mem_shredder_ops h) in
     register P c (snd (promote_to_active P ProjectionRouter_new)))"

definition cascade_participates_in_projection_router_dispatch :: "blake3 \<Rightarrow> user_erasure_scheduled codec \<Rightarrow> bool" where
  [test_defs]: "cascade_participates_in_projection_router_dispatch h pc = passes
     [yields (dispatch_event (cascade_ops pc mem_rows_ops (mem_shredder_ops h)) (make_scheduled_event pc (test_uid 123) 0 300)
        (erasure_ctx 300)) (\<lambda>applied. applied = 1)]
     (cascade_router h pc (observer_over (rows_upsert (test_uid 123) [1, 2] (dek_of 0xEE) MemRows_new) (registered (dek_of 0xEE))))"

definition completed_event_roundtrip_via_helper :: "user_erasure_completed codec \<Rightarrow> bool" where
  [test_defs]: "completed_event_roundtrip_via_helper pc =
     (let completion = \<lparr>ec_user = test_uid 1, ec_completed_tick = 250, ec_tombstoned_rows = 4,
            ec_attestation = \<lparr>dsa_class = RSC_Hybrid, dsa_bytes = replicate 128 0, dsa_log_index = Some 7\<rparr>, ec_regions = []\<rparr>;
          event = into_completed_event completion 1 99
      in uec_user event = test_uid 1 \<and> uec_dek_shred_tick event = 250 \<and> uec_attestation_class event = RSC_Hybrid
       \<and> uec_transparency_log_index event = 99 \<and> some_with (cd_dec pc (encoded pc event)) (\<lambda>back. back = event))"

definition per_region_events_default_emits_one_entry_per_completion ::
  "blake3 \<Rightarrow> user_erasure_scheduled codec \<Rightarrow> per_region_erasure_progress codec \<Rightarrow> bool" where
  [test_defs]: "per_region_events_default_emits_one_entry_per_completion h pc rc = passes
     [unwraps (erases h pc (test_uid 11) 0 100),
      takes drain_completions (\<lambda>cs. length cs = 1 \<and>
       (let completion = cs ! 0; region = ec_regions completion ! 0; events = per_region_events completion 1 in
          length (ec_regions completion) = 1
        \<and> (case rp_scope region of ScopeRegion _ \<Rightarrow> True | _ \<Rightarrow> False) \<and> rp_shred_tick region = 100
        \<and> rp_attestation_class region = RSC_None
        \<and> length events = 1 \<and> prep_user (events ! 0) = test_uid 11 \<and> prep_shred_tick (events ! 0) = 100
        \<and> some_with (cd_dec rc (encoded rc (events ! 0))) (\<lambda>back. back = events ! 0)))]
     (observer_over (rows_upsert (test_uid 11) [1, 2, 3] (dek_of 0xAA) MemRows_new) (registered (dek_of 0xAA)))"

definition per_region_events_no_dek_user_emits_zero_entries :: "blake3 \<Rightarrow> user_erasure_scheduled codec \<Rightarrow> bool" where
  [test_defs]: "per_region_events_no_dek_user_emits_zero_entries h pc = passes
     [unwraps (erases h pc (test_uid 12) 0 200),
      takes drain_completions (\<lambda>cs. length cs = 1 \<and> ec_regions (cs ! 0) = [] \<and> per_region_events (cs ! 0) 1 = [])]
     (observer_over MemRows_new MemShredder_new)"

definition e_user_3_cascade_activates_end_to_end :: "blake3 \<Rightarrow> caps \<Rightarrow> postcards \<Rightarrow> bool" where
  [test_defs]: "e_user_3_cascade_activates_end_to_end h SYS pcs =
     (let l1 = ActionContext_new (replicate 32 0) 1 100 System SYS :: unit ctx;
          pc = pc_user_erasure_scheduled pcs
      in case compute_GdprEraseUser pcs \<lparr>geu_schema_version = 1, geu_user = test_uid 7777\<rparr> l1 of
           (Inl e, l1) \<Rightarrow> False
         | (Inr _, l1) \<Rightarrow> (let (evs, l1) = drain_events l1 in
             length evs = 1 \<and> passes
              [yields (dispatch_event (cascade_ops pc mem_rows_ops (mem_shredder_ops h)) ((last evs)\<lparr>er_sequence := 0\<rparr>) (erasure_ctx 100))
                 (\<lambda>applied. applied = 1)]
              (cascade_router h pc (observer_over (rows_upsert (test_uid 7777) [100, 101, 102, 103] (dek_of 0xCD) MemRows_new)
                 (registered (dek_of 0xCD))))))"

section \<open>The tests pass\<close>

lemmas cascade_test_simps = test_defs script_simps Cascade_new_def MemRows_new_def rows_upsert_def MemShredder_new_def mem_register_def
  cascade_on_event_def mem_rows_ops_def mem_shredder_ops_def default_shred_with_regions_def default_region_scope_def mem_shred_def
  issue_attestation_def mem_rows_for_def mem_tombstone_def no_dek_result_def drain_completions_def ProjectionContext_new_def
  shred_error_to_storage_def per_region_events_def into_completed_event_def checked_add_def bnd_def event_pos_def cascade_ops_def
  Let_def

lemma cascade_tests_pass:
  assumes "codec_works pc"
  shows "observer_observes_user_erasure_scheduled_only h pc" "cascade_tombstones_rows_and_shreds_dek h pc"
    "cascade_no_rows_still_emits_completion h pc" "first_shred_log_index_is_some_zero_distinct_from_no_dek h pc"
    "shred_log_index_overflow_surfaces_backend_error h"
  by (simp_all add: cascade_test_simps encoded_works[OF assms])

lemma cascade_failure_tests_pass:
  assumes "codec_works pc"
  shows "cascade_unknown_dek_surfaces_storage_error h pc" "shred_failure_keeps_rows_live pc"
    "already_shredded_surfaces_as_storage_error pc" "cascade_replay_after_tombstone_holds_rows_dead h pc"
  by (simp_all add: cascade_test_simps encoded_works[OF assms])

lemma cascade_event_tests_pass:
  assumes "codec_works pc" "codec_works rc" "codec_works cc"
  shows "cascade_participates_in_projection_router_dispatch h pc" "completed_event_roundtrip_via_helper cc"
    "per_region_events_default_emits_one_entry_per_completion h pc rc" "per_region_events_no_dek_user_emits_zero_entries h pc"
  by (simp_all add: cascade_test_simps encoded_works[OF assms(1)] encoded_works[OF assms(2)] encoded_works[OF assms(3)]
      register_def ProjectionRouter_new_def promote_to_active_def transition_def dispatch_event_def stream_check_def
      already_applied_def index_push_def default_on_state_change_def cursor_last_applied_def)

lemma cascade_end_to_end_passes:
  assumes "codec_works (pc_user_gdpr_state pcs)" "codec_works (pc_user_erasure_scheduled pcs)"
  shows "e_user_3_cascade_activates_end_to_end h SYS pcs"
  by (simp add: cascade_test_simps encoded_works[OF assms(1)] encoded_works[OF assms(2)]
      register_def ProjectionRouter_new_def promote_to_active_def transition_def dispatch_event_def stream_check_def
      already_applied_def index_push_def default_on_state_change_def cursor_last_applied_def compute_GdprEraseUser_def
      GdprEraseUser_meta_def ensure_schema_version_def set_component_def emit_event_def drain_events_def ActionContext_new_def
      UserGdprState_def UserErasureScheduled_def push_op_def saturating_add_def)

end
