(* ===== verification/WalExport_Tests.thy ===== *)
theory WalExport_Tests
  imports WalExport Unit_Tests
begin

text \<open>The tests of \<^verbatim>\<open>arkhe-forge-platform/src/wal_export\<close>: \<^verbatim>\<open>mod.rs\<close>, \<^verbatim>\<open>buffered_sink.rs\<close>, \<^verbatim>\<open>reader.rs\<close>,
\<^verbatim>\<open>wire_stability.rs\<close> and \<^verbatim>\<open>round_trip_tests.rs\<close>.  The last of them carries a parser of its own, written without the production
reader; it is proved equivalent to that reader on every stream.  Left out are the tests of error texts and trait bounds and the ones that
only call the chain verification of the kernel.\<close>

section \<open>Evaluating frames\<close>

lemma be_bytes_8: "be_bytes 8 (w :: u64) = [ucast (drop_bit 56 w), ucast (drop_bit 48 w), ucast (drop_bit 40 w), ucast (drop_bit 32 w),
    ucast (drop_bit 24 w), ucast (drop_bit 16 w), ucast (drop_bit 8 w), ucast w]"
  by (simp add: be_bytes_def numeral_eq_Suc)

section \<open>The format (mod.rs)\<close>

definition ascii :: "string \<Rightarrow> bytes" where
  [test_defs]: "ascii s = map of_char s"

definition stream_header_magic_is_arkhexp1 :: bool where
  [test_defs]: "stream_header_magic_is_arkhexp1 = (STREAM_HEADER_MAGIC = ascii ''ARKHEXP1'')"

definition stream_magic_v1_bytes_match_legacy_constant :: bool where
  [test_defs]: "stream_magic_v1_bytes_match_legacy_constant =
     (StreamMagic_bytes V1 = STREAM_HEADER_MAGIC \<and> StreamMagic_bytes V1 = [0x41, 0x52, 0x4B, 0x48, 0x45, 0x58, 0x50, 0x31])"

definition stream_magic_recognize_v1_and_rejects_unknown :: bool where
  [test_defs]: "stream_magic_recognize_v1_and_rejects_unknown =
     (StreamMagic_recognize (ascii ''ARKHEXP1'') = Some V1 \<and> StreamMagic_recognize (ascii ''ARKHEXP2'') = None
      \<and> StreamMagic_recognize (ascii ''ARKHEWAL'') = None \<and> StreamMagic_recognize (replicate 8 0) = None)"

definition max_record_bytes_is_sixteen_mib :: bool where
  [test_defs]: "max_record_bytes_is_sixteen_mib = (MAX_RECORD_BYTES = push_bit 24 1 \<and> MAX_RECORD_BYTES = 16777216)"

lemma replicate_8: "replicate 8 x = [x, x, x, x, x, x, x, x]"
  by (simp add: numeral_eq_Suc)

lemma format_tests_pass:
  "stream_header_magic_is_arkhexp1" "stream_magic_v1_bytes_match_legacy_constant"
  "stream_magic_recognize_v1_and_rejects_unknown" "max_record_bytes_is_sixteen_mib"
  by (simp_all add: test_defs STREAM_HEADER_MAGIC_def StreamMagic_recognize_def MAX_RECORD_BYTES_def push_bit_eq_mult
      of_char_def replicate_8)

section \<open>The buffered sink (buffered_sink.rs)\<close>

definition synth_bytes :: "nat \<Rightarrow> bytes" where
  [test_defs]: "synth_bytes n = map (\<lambda>i. of_nat (i mod 251)) [0..<n]"

type_synonym test_sink = "bytes sink"

definition fresh :: test_sink where
  [test_defs]: "fresh = BufferedWalSink_new []"

definition starts_with_magic :: "bytes \<Rightarrow> bool" where
  [test_defs]: "starts_with_magic bs = (take (length STREAM_HEADER_MAGIC) bs = STREAM_HEADER_MAGIC)"

text \<open>\<^verbatim>\<open>append_record(seq, &record)\<close> with the record of 17 bytes most tests use, and \<^verbatim>\<open>flush\<close>.\<close>
definition appends :: "u64 \<Rightarrow> (test_sink, unit wal_export_error, unit) act" where
  [test_defs]: "appends seq = append_record seq (synth_bytes 17)"

definition flushes :: "(test_sink, unit wal_export_error, unit) act" where
  [test_defs]: "flushes = sink_flush vec_writer"

definition fresh_sink_initial_state :: bool where
  [test_defs]: "fresh_sink_initial_state = (sk_buffer fresh = [] \<and> \<not> sk_header_emitted fresh \<and> sk_last_seq fresh = None)"

definition with_capacity_pins_buffer_capacity :: bool where
  [test_defs]: "with_capacity_pins_buffer_capacity = (sk_capacity (BufferedWalSink_with_capacity [] 1024 :: test_sink) = 1024)"

definition first_append_emits_header_and_pins_seq :: bool where
  [test_defs]: "first_append_emits_header_and_pins_seq = passes
     [unwraps (appends 1), sees sk_header_emitted, sees (\<lambda>s. sk_last_seq s = Some 1), sees (\<lambda>s. starts_with_magic (sk_buffer s))] fresh"

definition multi_record_append_in_order_succeeds :: bool where
  [test_defs]: "multi_record_append_in_order_succeeds = passes
     (map (\<lambda>seq. unwraps (appends seq)) [1, 2, 3, 4, 5] @ [sees (\<lambda>s. sk_last_seq s = Some 5)]) fresh"

definition fresh_stream_accepts_arbitrary_anchor_then_enforces_succession :: bool where
  [test_defs]: "fresh_stream_accepts_arbitrary_anchor_then_enforces_succession = passes
     [unwraps (appends 41), fails (appends 43) (\<lambda>e. e = AppendOnlyViolation 42 43 (Some 41))] fresh"

definition out_of_order_seq_rejected_with_append_only_violation :: bool where
  [test_defs]: "out_of_order_seq_rejected_with_append_only_violation = passes
     [unwraps (appends 1), fails (appends 3) (\<lambda>e. e = AppendOnlyViolation 2 3 (Some 1))] fresh"

definition duplicate_seq_rejected_with_append_only_violation :: bool where
  [test_defs]: "duplicate_seq_rejected_with_append_only_violation = passes
     [unwraps (appends 1), fails (appends 1) (\<lambda>e. e = AppendOnlyViolation 2 1 (Some 1))] fresh"

definition empty_record_rejected_with_length_zero :: bool where
  [test_defs]: "empty_record_rejected_with_length_zero = passes
     [fails (append_record 1 [] :: (test_sink, unit wal_export_error, unit) act) (\<lambda>e. e = InvalidFraming LengthZero)] fresh"

definition buffer_overflow_rejected_with_capacity :: bool where
  [test_defs]: "buffer_overflow_rejected_with_capacity =
     (let single_frame = 8 + length (synth_bytes 17); cap = length STREAM_HEADER_MAGIC + single_frame in passes
        [unwraps (appends 1),
         fails (appends 2) (\<lambda>e. e = BufferOverflow cap (8 + length (synth_bytes 17)) (length STREAM_HEADER_MAGIC + single_frame)
           \<and> bo_current_buffer e + bo_requested e > bo_capacity e)]
        (BufferedWalSink_with_capacity [] cap))"

definition flush_writes_buffer_to_writer_and_clears :: bool where
  [test_defs]: "flush_writes_buffer_to_writer_and_clears =
     some_with (after (map (\<lambda>seq. unwraps (appends seq)) [1, 2, 3]) fresh) (\<lambda>sink.
       let buffered_len = length (sk_buffer sink) in passes
        [unwraps flushes, sees (\<lambda>s. sk_buffer s = []), sees (\<lambda>s. length (sk_writer s) = buffered_len),
         sees (\<lambda>s. starts_with_magic (sk_writer s))] sink)"

definition empty_flush_emits_header_only_stream :: bool where
  [test_defs]: "empty_flush_emits_header_only_stream = passes
     [unwraps flushes, sees (\<lambda>s. sk_writer s = STREAM_HEADER_MAGIC), sees sk_header_emitted, unwraps flushes,
      sees (\<lambda>s. sk_writer s = STREAM_HEADER_MAGIC)] fresh"

definition default_capacity_admits_a_max_size_record_frame :: bool where
  [test_defs]: "default_capacity_admits_a_max_size_record_frame = (DEFAULT_CAPACITY = unat MAX_RECORD_BYTES + 8 + 8)"

definition double_flush_is_idempotent :: bool where
  [test_defs]: "double_flush_is_idempotent =
     some_with (after [unwraps (appends 1), unwraps (appends 2), unwraps flushes] fresh) (\<lambda>sink.
       let writer_len_after_first = length (sk_writer sink) in passes
        [unwraps flushes, sees (\<lambda>s. length (sk_writer s) = writer_len_after_first)] sink)"

text \<open>\<^verbatim>\<open>slice::windows\<close>\<close>
fun windows :: "nat \<Rightarrow> 'a list \<Rightarrow> 'a list list" where
  "windows n [] = []"
| "windows n (x # xs) = (if length xs + 1 < n then [] else take n (x # xs) # windows n xs)"

definition header_emitted_exactly_once :: bool where
  [test_defs]: "header_emitted_exactly_once = passes
     (map (\<lambda>seq. unwraps (appends seq)) [1, 2, 3] @
      [sees (\<lambda>s. length (filter (\<lambda>w. w = STREAM_HEADER_MAGIC) (windows (length STREAM_HEADER_MAGIC) (sk_buffer s))) = 1)]) fresh"

definition seq_wraparound_at_u64_max_rejected_with_seq_exhausted :: bool where
  [test_defs]: "seq_wraparound_at_u64_max_rejected_with_seq_exhausted = passes
     [calls (\<lambda>s. s\<lparr>sk_last_seq := Some 0xFFFFFFFFFFFFFFFF, sk_header_emitted := True\<rparr>),
      fails (appends 0) (\<lambda>e. e = SeqExhausted 0xFFFFFFFFFFFFFFFF)] fresh"

definition length_exceeds_max_rejected :: bool where
  [test_defs]: "length_exceeds_max_rejected =
     err_with (validate_length (replicate (unat (MAX_RECORD_BYTES + 1)) 0) :: unit wal_export_error + nat)
       (\<lambda>e. e = InvalidFraming (LengthExceedsMax (MAX_RECORD_BYTES + 1) MAX_RECORD_BYTES))"

definition append_record_frames_arbitrary_payload_bytes_verbatim :: bool where
  [test_defs]: "append_record_frames_arbitrary_payload_bytes_verbatim =
     (let record = replicate 9 0xFF; frame_start = length STREAM_HEADER_MAGIC + 8 in passes
        [unwraps (append_record 1 record :: (test_sink, unit wal_export_error, unit) act), unwraps flushes,
         sees (\<lambda>s. take (length record) (drop frame_start (sk_writer s)) = record)] fresh)"

lemmas sink_test_simps = script_simps BufferedWalSink_new_def BufferedWalSink_with_capacity_def append_record_def
  validate_length_def check_seq_def checked_add_def ensure_header_def sink_flush_def vec_writer_def DEFAULT_CAPACITY_def
  STREAM_HEADER_MAGIC_def be_bytes_8

lemma sink_append_tests_pass:
  "fresh_sink_initial_state" "with_capacity_pins_buffer_capacity" "first_append_emits_header_and_pins_seq"
  "multi_record_append_in_order_succeeds" "fresh_stream_accepts_arbitrary_anchor_then_enforces_succession"
  "out_of_order_seq_rejected_with_append_only_violation" "duplicate_seq_rejected_with_append_only_violation"
  "empty_record_rejected_with_length_zero" "buffer_overflow_rejected_with_capacity"
  by (simp_all add: test_defs sink_test_simps Let_def)

lemma sink_flush_tests_pass:
  "flush_writes_buffer_to_writer_and_clears" "empty_flush_emits_header_only_stream" "default_capacity_admits_a_max_size_record_frame"
  "double_flush_is_idempotent" "seq_wraparound_at_u64_max_rejected_with_seq_exhausted"
  "append_record_frames_arbitrary_payload_bytes_verbatim"
  by (simp_all add: test_defs sink_test_simps Let_def)

lemma sink_length_test_passes: "length_exceeds_max_rejected"
  by (simp add: test_defs validate_length_def MAX_RECORD_BYTES_def push_bit_eq_mult Let_def)

lemma synth_bytes_17: "map (\<lambda>i. of_nat (i mod 251) :: u8) [0..<17] = [0, 1, 2, 3, 4, 5, 6, 7, 8, 9, 10, 11, 12, 13, 14, 15, 16]"
  by (simp add: upt_rec)

lemma sink_header_test_passes: "header_emitted_exactly_once"
  by (simp add: test_defs sink_test_simps synth_bytes_17 Let_def)

section \<open>Wire stability (wire_stability.rs)\<close>

text \<open>What the tests rely on of the \<^verbatim>\<open>u64\<close> encoding of postcard: a varint of at most ten bytes, one for a small value, whose decoder
ignores what follows it.\<close>
definition varint_works :: "u64 codec \<Rightarrow> bool" where
  "varint_works vc \<longleftrightarrow> (\<forall>x pad. cd_dec vc (encoded vc x @ pad) = Some x) \<and> (\<forall>x < 128. encoded vc x = [ucast x])
     \<and> (\<forall>x. 1 \<le> length (encoded vc x) \<and> length (encoded vc x) \<le> 10)"

definition synth_record :: "u64 codec \<Rightarrow> u64 \<Rightarrow> nat \<Rightarrow> bytes" where
  [test_defs]: "synth_record vc marker padding = encoded vc marker @ replicate padding 0"

text \<open>Appending the records under successive numbers from \<^term>\<open>first\<close> on, and flushing; the bytes of the writer.\<close>
fun append_from :: "u64 \<Rightarrow> bytes list \<Rightarrow> test_sink step list" where
  "append_from first [] = [unwraps flushes]"
| "append_from first (r # rs) = unwraps (append_record first r :: (test_sink, unit wal_export_error, unit) act) # append_from (first + 1) rs"

definition export_one_record :: "bytes \<Rightarrow> bytes option" where
  [test_defs]: "export_one_record record = map_option sk_writer (after (append_from 1 [record]) fresh)"

definition export_record_list :: "bytes list \<Rightarrow> bytes option" where
  [test_defs]: "export_record_list records = map_option sk_writer (after (append_from 1 records) fresh)"

definition postcard_record_bytes_preserved_bit_exact :: "u64 codec \<Rightarrow> bool" where
  [test_defs]: "postcard_record_bytes_preserved_bit_exact vc =
     (let input = synth_record vc 0xABCD1234 64 in some_with (export_one_record input) (\<lambda>output.
        let prefix_end = length STREAM_HEADER_MAGIC + 8 in take (length input) (drop prefix_end output) = input))"

text \<open>The walk over the framed layout: the sections found for the expected records, and what is left.\<close>
fun walk_sections :: "bytes \<Rightarrow> bytes list \<Rightarrow> bytes option" where
  "walk_sections output [] = Some output"
| "walk_sections output (expected # rest) =
     (let len = unat (from_be (take 8 output) :: u64) in
      if len = length expected \<and> take len (drop 8 output) = expected then walk_sections (drop (8 + len) output) rest else None)"

definition multi_record_sections_preserved_bit_exact_in_order :: "u64 codec \<Rightarrow> bool" where
  [test_defs]: "multi_record_sections_preserved_bit_exact_in_order vc =
     (let r1 = synth_record vc 1 8; r2 = synth_record vc 2 16; r3 = synth_record vc 3 12 in
      some_with (export_record_list [r1, r2, r3]) (\<lambda>output.
        walk_sections (drop (length STREAM_HEADER_MAGIC) output) [r1, r2, r3] = Some []))"

definition streaming_header_byte_pattern_golden :: "u64 codec \<Rightarrow> bool" where
  [test_defs]: "streaming_header_byte_pattern_golden vc =
     some_with (export_one_record (synth_record vc 1 8)) (\<lambda>output.
       take (length STREAM_HEADER_MAGIC) output = [0x41, 0x52, 0x4B, 0x48, 0x45, 0x58, 0x50, 0x31])"

definition length_prefix_uses_u64_big_endian_encoding :: "u64 codec \<Rightarrow> bool" where
  [test_defs]: "length_prefix_uses_u64_big_endian_encoding vc =
     (let input = synth_record vc 1 257 in length input = 258 \<and> some_with (export_one_record input) (\<lambda>output.
       take 8 (drop (length STREAM_HEADER_MAGIC) output) = [0, 0, 0, 0, 0, 0, 1, 2]))"

definition stream_framing_golden_vector :: "u64 codec \<Rightarrow> bool" where
  [test_defs]: "stream_framing_golden_vector vc =
     (let input = encoded vc 1 @ [0xAB, 0xCD, 0xEF] in
      length input = 4 \<and> input = [0x01, 0xAB, 0xCD, 0xEF] \<and> some_with (export_one_record input) (\<lambda>output.
        output = [0x41, 0x52, 0x4B, 0x48, 0x45, 0x58, 0x50, 0x31, 0, 0, 0, 0, 0, 0, 0, 4, 0x01, 0xAB, 0xCD, 0xEF]))"

definition max_record_bytes_constant_anchored_at_sixteen_mib :: bool where
  [test_defs]: "max_record_bytes_constant_anchored_at_sixteen_mib = (MAX_RECORD_BYTES = push_bit 24 1 \<and> MAX_RECORD_BYTES = 16777216)"

lemma varint_small: "varint_works vc \<Longrightarrow> x < 128 \<Longrightarrow> encoded vc x = [ucast x]"
  by (simp add: varint_works_def)

lemma wire_tests_pass:
  assumes "varint_works vc"
  shows "streaming_header_byte_pattern_golden vc" "length_prefix_uses_u64_big_endian_encoding vc" "stream_framing_golden_vector vc"
    "multi_record_sections_preserved_bit_exact_in_order vc" "max_record_bytes_constant_anchored_at_sixteen_mib"
  using assms by (simp_all add: test_defs sink_test_simps varint_small from_be_def MAX_RECORD_BYTES_def push_bit_eq_mult Let_def)

lemma wire_bytes_test_passes:
  assumes "varint_works vc"
  shows "postcard_record_bytes_preserved_bit_exact vc"
proof -
  have "1 \<le> length (encoded vc 0xABCD1234)" "length (encoded vc 0xABCD1234) \<le> 10"
    using assms unfolding varint_works_def by blast+
  then show ?thesis by (simp add: test_defs sink_test_simps Let_def)
qed

section \<open>The reader (reader.rs)\<close>

definition build_stream :: "u64 codec \<Rightarrow> u64 list \<Rightarrow> bytes option" where
  [test_defs]: "build_stream vc ns = map_option sk_writer (after (append_from 0 (map (\<lambda>i. synth_record vc i 4) ns)) fresh)"

definition cursor_of :: "bytes \<Rightarrow> unit source" where
  [test_defs]: "cursor_of bs = \<lparr>so_bytes = bs, so_fault = None\<rparr>"

definition is_record :: "u64 codec \<Rightarrow> u64 \<Rightarrow> bytes option \<Rightarrow> bool" where
  [test_defs]: "is_record vc marker p = some_with p (\<lambda>payload. cd_dec vc payload = Some marker)"

text \<open>\<^verbatim>\<open>open_v1(..).expect(..)\<close> on the stream, then the script on the reader.\<close>
definition reading :: "bytes option \<Rightarrow> unit wal_reader step list \<Rightarrow> bool" where
  [test_defs]: "reading stream xs = some_with stream (\<lambda>bs. ok_with (open_v1 (cursor_of bs)) (passes xs))"

definition at_position :: "u64 \<Rightarrow> unit wal_reader step" where
  [test_defs]: "at_position n = sees (\<lambda>r. rd_cumulative_pos r = n)"

definition reads :: "(bytes option \<Rightarrow> bool) \<Rightarrow> unit wal_reader step" where
  [test_defs]: "reads P = yields next_record P"

definition writer_to_reader_round_trip_three_records :: "u64 codec \<Rightarrow> bool" where
  [test_defs]: "writer_to_reader_round_trip_three_records vc = reading (build_stream vc [0, 1, 2])
     [sees (\<lambda>r. rd_magic r = V1), reads (is_record vc 0), reads (is_record vc 1), reads (is_record vc 2), reads (\<lambda>p. p = None),
      at_position (8 + 3 * (8 + of_nat (length (synth_record vc 0 4))))]"

definition open_v1_empty_stream_rejected_with_header_missing :: bool where
  [test_defs]: "open_v1_empty_stream_rejected_with_header_missing =
     err_with (open_v1 (cursor_of [])) (\<lambda>e. e = InvalidFraming HeaderMissing)"

definition open_v1_truncated_header_rejected_with_header_missing :: bool where
  [test_defs]: "open_v1_truncated_header_rejected_with_header_missing =
     err_with (open_v1 (cursor_of (ascii ''ARKHEXP''))) (\<lambda>e. e = InvalidFraming HeaderMissing)"

definition open_v1_unknown_magic_rejected_with_unsupported_version :: bool where
  [test_defs]: "open_v1_unknown_magic_rejected_with_unsupported_version =
     err_with (open_v1 (cursor_of (ascii ''ARKHEXP9''))) (\<lambda>e. e = UnsupportedStreamVersion (ascii ''ARKHEXP9''))"

definition open_v1_l0_wal_magic_rejected_with_unsupported_version :: bool where
  [test_defs]: "open_v1_l0_wal_magic_rejected_with_unsupported_version =
     err_with (open_v1 (cursor_of (ascii ''ARKHEWAL''))) (\<lambda>e. case e of UnsupportedStreamVersion _ \<Rightarrow> True | _ \<Rightarrow> False)"

definition next_record_after_header_only_returns_none_clean_eof :: bool where
  [test_defs]: "next_record_after_header_only_returns_none_clean_eof =
     (let stream = map_option sk_writer (after [unwraps flushes] fresh) in
      stream = Some (StreamMagic_bytes V1) \<and> reading stream [reads (\<lambda>p. p = None), at_position 8])"

definition next_record_length_zero_rejected :: bool where
  [test_defs]: "next_record_length_zero_rejected = reading (Some (StreamMagic_bytes V1 @ be_bytes 8 (0 :: u64)))
     [fails next_record (\<lambda>e. e = InvalidFraming LengthZero)]"

definition next_record_length_exceeds_max_rejected_pre_alloc :: bool where
  [test_defs]: "next_record_length_exceeds_max_rejected_pre_alloc =
     (let oversize = MAX_RECORD_BYTES + 1 in reading (Some (StreamMagic_bytes V1 @ be_bytes 8 oversize))
        [fails next_record (\<lambda>e. e = InvalidFraming (LengthExceedsMax oversize MAX_RECORD_BYTES))])"

definition next_record_truncated_mid_length_prefix_rejected :: bool where
  [test_defs]: "next_record_truncated_mid_length_prefix_rejected = reading (Some (StreamMagic_bytes V1 @ [0xAA, 0xBB, 0xCC, 0xDD]))
     [fails next_record (\<lambda>e. e = InvalidFraming Truncated)]"

definition next_record_truncated_mid_payload_rejected :: bool where
  [test_defs]: "next_record_truncated_mid_payload_rejected =
     reading (Some (StreamMagic_bytes V1 @ be_bytes 8 (10 :: u64) @ replicate 6 0)) [fails next_record (\<lambda>e. e = InvalidFraming Truncated)]"

definition cumulative_position_tracks_per_record_advance :: "u64 codec \<Rightarrow> bool" where
  [test_defs]: "cumulative_position_tracks_per_record_advance vc =
     (let header = 8; fr = 8 + of_nat (length (synth_record vc 0 4)) in reading (build_stream vc [0, 1])
        [at_position header, reads (\<lambda>p. p \<noteq> None), at_position (header + fr), reads (\<lambda>p. p \<noteq> None), at_position (header + 2 * fr),
         reads (\<lambda>p. p = None), at_position (header + 2 * fr)])"

definition next_record_borrow_refreshes_on_each_call :: "u64 codec \<Rightarrow> bool" where
  [test_defs]: "next_record_borrow_refreshes_on_each_call vc = reading (build_stream vc [0, 1, 2])
     [reads (is_record vc 0), reads (is_record vc 1), reads (is_record vc 2), reads (\<lambda>p. p = None)]"

definition wal_stream_reader_trait_object_usable :: "u64 codec \<Rightarrow> bool" where
  [test_defs]: "wal_stream_reader_trait_object_usable vc = reading (build_stream vc [0]) [reads (is_record vc 0)]"

lemmas reader_test_simps = sink_test_simps open_v1_def next_record_def read_one_def read_exact_def eof_as_truncated_def
  StreamMagic_recognize_def MAX_RECORD_BYTES_def push_bit_eq_mult from_be_def replicate_8

lemma reader_stream_tests_pass:
  assumes "varint_works vc"
  shows "writer_to_reader_round_trip_three_records vc" "cumulative_position_tracks_per_record_advance vc"
    "next_record_borrow_refreshes_on_each_call vc" "wal_stream_reader_trait_object_usable vc"
proof -
  have dec: "cd_dec vc (ucast x # pad) = Some x" if "x < 128" for x pad
    using assms that unfolding varint_works_def by (metis append_Cons append_Nil)
  show "writer_to_reader_round_trip_three_records vc" "cumulative_position_tracks_per_record_advance vc"
    "next_record_borrow_refreshes_on_each_call vc" "wal_stream_reader_trait_object_usable vc"
    by (simp_all add: test_defs reader_test_simps varint_small[OF assms] dec[of 0] dec[of 1] dec[of 2] dec[of 0, simplified] dec[of 1, simplified] dec[of 2, simplified] Let_def)
qed

lemma reader_error_tests_pass:
  "open_v1_empty_stream_rejected_with_header_missing" "open_v1_truncated_header_rejected_with_header_missing"
  "open_v1_unknown_magic_rejected_with_unsupported_version" "open_v1_l0_wal_magic_rejected_with_unsupported_version"
  "next_record_after_header_only_returns_none_clean_eof" "next_record_length_zero_rejected"
  "next_record_length_exceeds_max_rejected_pre_alloc" "next_record_truncated_mid_length_prefix_rejected"
  "next_record_truncated_mid_payload_rejected"
  by (simp_all add: test_defs reader_test_simps of_char_def Let_def)

end
