(* ===== verification/Round_Trip_Tests.thy ===== *)
theory Round_Trip_Tests
  imports WalExport_Tests
begin

text \<open>The tests of \<^verbatim>\<open>wal_export/round_trip_tests.rs\<close>.  Their parser \<^verbatim>\<open>parse_stream\<close> is a second implementation of the consumer
side, over the whole stream and without the production reader; the two are proved to agree on every byte stream.  The log of the
kernel is a parameter, the numbers and encodings of its records, with what the tests rely on as a hypothesis; the tests that only run the
kernel's chain verification are left out.\<close>

section \<open>The reference parser\<close>

function parse_records :: "bytes \<Rightarrow> 'io wal_export_error + bytes list" where
  "parse_records bs =
     (if bs = [] then Inr []
      else if length bs < 8 then Inl (InvalidFraming Truncated)
      else (let len = (from_be (take 8 bs) :: u64) in
        if len = 0 then Inl (InvalidFraming LengthZero)
        else if len > MAX_RECORD_BYTES then Inl (InvalidFraming (LengthExceedsMax len MAX_RECORD_BYTES))
        else if length (drop 8 bs) < unat len then Inl (InvalidFraming Truncated)
        else (case parse_records (drop (unat len) (drop 8 bs)) of
                Inl e \<Rightarrow> Inl e
              | Inr records \<Rightarrow> Inr (take (unat len) (drop 8 bs) # records))))"
  by pat_completeness auto
termination by (relation "measure length") auto

declare parse_records.simps [simp del]

definition parse_stream :: "bytes \<Rightarrow> 'io wal_export_error + bytes list" where
  "parse_stream stream =
     (if length stream < length STREAM_HEADER_MAGIC then Inl (InvalidFraming Truncated)
      else if take (length STREAM_HEADER_MAGIC) stream \<noteq> STREAM_HEADER_MAGIC then Inl (InvalidFraming HeaderMissing)
      else parse_records (drop (length STREAM_HEADER_MAGIC) stream))"

lemma magic_length [simp]: "length STREAM_HEADER_MAGIC = 8"
  by (simp add: STREAM_HEADER_MAGIC_def)

lemma recognize_magic: "StreamMagic_recognize bs = (if bs = STREAM_HEADER_MAGIC then Some V1 else None)"
  by (simp add: StreamMagic_recognize_def STREAM_HEADER_MAGIC_def)

lemma parse_records_frame:
  assumes "payload_ok b"
  shows "parse_records (frame b @ rest) = (case parse_records rest of Inl e \<Rightarrow> Inl e | Inr bs \<Rightarrow> Inr (b # bs))"
proof -
  have h: "take 8 (frame b @ rest) = be_bytes 8 (of_nat (length b) :: u64)" "drop 8 (frame b @ rest) = b @ rest"
    by (simp_all add: frame_def)
  have l: "\<not> length (frame b @ rest) < 8" "frame b @ rest \<noteq> []" by (simp_all add: frame_def)
  have z: "(of_nat (length b) :: u64) \<noteq> 0" "\<not> (of_nat (length b) :: u64) > MAX_RECORD_BYTES"
    using assms payload_len[OF assms] by (auto simp: payload_ok_def word_less_nat_alt simp flip: unat_gt_0)
  show ?thesis
    using z l unfolding parse_records.simps[of "frame b @ rest"] h Let_def
    by (simp add: from_be_be_bytes payload_len[OF assms] split: sum.splits)
qed

lemma parse_records_frames:
  "list_all payload_ok ps \<Longrightarrow> parse_records (frames ps @ rest) = (case parse_records rest of Inl e \<Rightarrow> Inl e | Inr bs \<Rightarrow> Inr (ps @ bs))"
  by (induction ps) (auto simp: parse_records_frame split: sum.splits)

lemma parse_records_tail:
  assumes "\<not> starts_with_frame tail"
  shows "parse_records tail = (case tail_error None tail of None \<Rightarrow> Inr [] | Some e \<Rightarrow> Inl e)"
  using assms
  by (subst parse_records.simps)
    (auto simp: tail_error_def starts_with_frame_def eof_error_def Let_def word_less_nat_alt not_less unat_gt_0)

text \<open>C40: the production reader agrees with the reference parser on every byte stream. Without an I/O error, opening the stream and
reading it to its end gives exactly the records the parser returns, when it returns some; when the parser refuses, so does the reader,
with the same error after a good header, and for a bad header with the one the reader documents.\<close>
theorem reader_equals_reference_parser:
  "(parse_stream stream :: 'io wal_export_error + bytes list) =
     (case read_stream \<lparr>so_bytes = stream, so_fault = None\<rparr> of
        (ps, None) \<Rightarrow> Inr ps
      | (ps, Some e) \<Rightarrow> Inl (case e of InvalidFraming HeaderMissing \<Rightarrow> InvalidFraming Truncated
          | UnsupportedStreamVersion _ \<Rightarrow> InvalidFraming HeaderMissing | _ \<Rightarrow> e))"
proof (cases "take 8 stream = STREAM_HEADER_MAGIC \<and> \<not> length stream < 8")
  case False
  then show ?thesis
    by (auto simp: parse_stream_def read_stream_def open_v1_def read_exact_def recognize_magic)
next
  case True
  then have b: "stream = STREAM_HEADER_MAGIC @ drop 8 stream" by (metis append_take_drop_id)
  let ?s = "\<lparr>rd_reader = \<lparr>so_bytes = drop 8 stream, so_fault = None\<rparr>, rd_cumulative_pos = 8, rd_magic = V1\<rparr> :: 'io wal_reader"
  have opened: "open_v1 \<lparr>so_bytes = stream, so_fault = None\<rparr> = Inr ?s"
    using open_v1_magic[of "\<lparr>so_bytes = stream, so_fault = None\<rparr>" "drop 8 stream"] b by simp
  obtain ps e s' where ra: "read_all ?s = (ps, e, s')" by (cases "read_all ?s")
  obtain tail where t: "drop 8 stream = frames ps @ tail" "list_all payload_ok ps" "\<not> starts_with_frame tail" "e = tail_error None tail"
    using read_all_classifies[of ?s] by (auto simp: ra)
  have "read_stream \<lparr>so_bytes = stream, so_fault = None\<rparr> = (ps, e)" by (simp add: read_stream_def opened ra)
  moreover have "(parse_stream stream :: 'io wal_export_error + bytes list) = (case e of None \<Rightarrow> Inr ps | Some e \<Rightarrow> Inl e)"
    using True unfolding parse_stream_def magic_length t(1)
    by (simp add: parse_records_frames[OF t(2)] parse_records_tail[OF t(3)] t(4) split: option.splits)
  moreover have "e = Some x \<Longrightarrow> x \<noteq> InvalidFraming HeaderMissing \<and> (\<forall>m. x \<noteq> UnsupportedStreamVersion m)" for x
    unfolding t(4) by (auto simp: tail_error_def eof_error_def Let_def split: if_splits)
  ultimately show ?thesis
    by (auto split: option.splits wal_export_error.splits invalid_framing_reason.splits)
qed

section \<open>The log of the kernel\<close>

text \<open>\<^verbatim>\<open>build_wal_with_records(n)\<close>: the numbers and the encodings of the records the kernel logs for \<^term>\<open>n\<close> dispatches, one
\<^verbatim>\<open>Submit\<close> and one \<^verbatim>\<open>Step\<close> each, numbered from one by a counter both kinds share.\<close>
definition wal_of :: "nat \<Rightarrow> (u64 \<times> bytes) list \<Rightarrow> bool" where
  "wal_of n wal \<longleftrightarrow> map fst wal = map of_nat [1..<2 * n + 1] \<and> list_all payload_ok (map snd wal)
     \<and> 8 + length (frames (map snd wal)) \<le> DEFAULT_CAPACITY \<and> 2 * n < 2 ^ 63"

definition export_records_to_stream :: "(u64 \<times> bytes) list \<Rightarrow> bytes option" where
  [test_defs]: "export_records_to_stream wal = map_option sk_writer
     (after (map (\<lambda>(seq, b). unwraps (append_record seq b :: (test_sink, unit wal_export_error, unit) act)) wal @ [unwraps flushes]) fresh)"

definition parses :: "bytes \<Rightarrow> unit wal_export_error + bytes list" where
  [test_defs]: "parses = parse_stream"

definition round_trip_records_byte_identical_to_originals :: "(u64 \<times> bytes) list \<Rightarrow> bool" where
  [test_defs]: "round_trip_records_byte_identical_to_originals original = some_with (export_records_to_stream original) (\<lambda>stream.
     ok_with (parses stream) (\<lambda>parsed. parsed = map snd original))"

definition empty_stream_rejected_with_truncated :: bool where
  [test_defs]: "empty_stream_rejected_with_truncated = err_with (parses []) (\<lambda>e. e = InvalidFraming Truncated)"

definition invalid_header_magic_rejected_with_header_missing :: bool where
  [test_defs]: "invalid_header_magic_rejected_with_header_missing =
     err_with (parses (replicate 8 0xFF @ replicate 16 0)) (\<lambda>e. e = InvalidFraming HeaderMissing)"

definition truncated_in_length_prefix_rejected_with_truncated :: bool where
  [test_defs]: "truncated_in_length_prefix_rejected_with_truncated =
     err_with (parses (STREAM_HEADER_MAGIC @ [0, 0, 0, 0])) (\<lambda>e. e = InvalidFraming Truncated)"

definition zero_length_prefix_rejected_with_length_zero :: bool where
  [test_defs]: "zero_length_prefix_rejected_with_length_zero =
     err_with (parses (STREAM_HEADER_MAGIC @ be_bytes 8 (0 :: u64))) (\<lambda>e. e = InvalidFraming LengthZero)"

definition oversized_length_prefix_rejected_with_length_exceeds_max :: bool where
  [test_defs]: "oversized_length_prefix_rejected_with_length_exceeds_max =
     err_with (parses (STREAM_HEADER_MAGIC @ be_bytes 8 (MAX_RECORD_BYTES + 1)))
       (\<lambda>e. e = InvalidFraming (LengthExceedsMax (MAX_RECORD_BYTES + 1) MAX_RECORD_BYTES))"

definition truncated_in_payload_rejected_with_truncated :: "(u64 \<times> bytes) list \<Rightarrow> bool" where
  [test_defs]: "truncated_in_payload_rejected_with_truncated original = some_with (export_records_to_stream original) (\<lambda>stream.
     err_with (parses (take (length stream - 4) stream)) (\<lambda>e. e = InvalidFraming Truncated))"

definition record_duplication_rejected_at_sink_with_append_only_violation :: "(u64 \<times> bytes) list \<Rightarrow> bool" where
  [test_defs]: "record_duplication_rejected_at_sink_with_append_only_violation original =
     (let (seq, b) = original ! 0 in passes
        [unwraps (append_record seq b :: (test_sink, unit wal_export_error, unit) act),
         fails (append_record seq b :: (test_sink, unit wal_export_error, unit) act) (\<lambda>e. e = AppendOnlyViolation 2 1 (Some 1))] fresh)"

definition mid_stream_magic_insertion_caught_by_length_exceeds_max :: "(u64 \<times> bytes) list \<Rightarrow> bool" where
  [test_defs]: "mid_stream_magic_insertion_caught_by_length_exceeds_max original = some_with (export_records_to_stream original) (\<lambda>stream.
     let header_end = length STREAM_HEADER_MAGIC;
         rec0_len = unat (from_be (take 8 (drop header_end stream)) :: u64);
         insert_at = header_end + 8 + rec0_len;
         tampered = take insert_at stream @ STREAM_HEADER_MAGIC @ drop insert_at stream
     in err_with (parses tampered) (\<lambda>e. e = InvalidFraming (LengthExceedsMax (from_be STREAM_HEADER_MAGIC) MAX_RECORD_BYTES)))"

definition streaming_export_is_byte_deterministic_across_runs :: "(u64 \<times> bytes) list \<Rightarrow> (u64 \<times> bytes) list \<Rightarrow> bool" where
  [test_defs]: "streaming_export_is_byte_deterministic_across_runs wal1 wal2 =
     some_with (export_records_to_stream wal1) (\<lambda>s1. some_with (export_records_to_stream wal2) (\<lambda>s2. s1 = s2))"

text \<open>The kinds of the records, which the other tests do not look at.\<close>
datatype wal_record_kind = Submit | Step

definition walrecord_seq_contract_bridge :: "(u64 \<times> bytes) list \<Rightarrow> wal_record_kind list \<Rightarrow> bool" where
  [test_defs]: "walrecord_seq_contract_bridge wal kinds =
     (length wal = 6 \<and> list_all (\<lambda>(idx, seq, b). seq = of_nat idx + 1) (enumerate 0 wal)
      \<and> list_all (\<lambda>idx. kinds ! idx = (if idx mod 2 = 0 then Submit else Step)) [0..<6]
      \<and> some_with (export_records_to_stream wal) (\<lambda>stream. ok_with (parses stream) (\<lambda>parsed. length parsed = 6)))"

section \<open>The tests pass\<close>

lemma writer_ensure_header: "sk_writer (ensure_header s) = sk_writer s"
  by (simp add: ensure_header_def)

lemma appends_frames:
  assumes "list_all payload_ok (map snd rs)" "chained (sk_last_seq s) (map fst rs)"
    "length (sk_buffer (ensure_header s)) + length (frames (map snd rs)) \<le> sk_capacity s"
  shows "\<exists>t. after (map (\<lambda>(seq, b). unwraps (append_record seq b :: (test_sink, unit wal_export_error, unit) act)) rs) s = Some t
     \<and> sk_buffer (ensure_header t) = sk_buffer (ensure_header s) @ frames (map snd rs) \<and> sk_writer t = sk_writer s"
  using assms
proof (induction rs arbitrary: s)
  case Nil
  then show ?case by simp
next
  case (Cons r rs)
  obtain q b where r: "r = (q, b)" by (cases r)
  let ?t = "(ensure_header s)\<lparr>sk_buffer := sk_buffer (ensure_header s) @ frame b, sk_last_seq := Some q\<rparr>"
  have f: "length (frame b) = 8 + length b" by (simp add: frame_def)
  have "append_record q b s = (Inr () :: unit wal_export_error + unit, ?t)"
    using Cons.prems unfolding append_record_ok by (auto simp: r f split: option.splits)
  moreover have e: "ensure_header ?t = ?t" "sk_writer (ensure_header s) = sk_writer s" by (simp_all add: ensure_header_def)
  moreover have "\<exists>t. after (map (\<lambda>(seq, b). unwraps (append_record seq b :: (test_sink, unit wal_export_error, unit) act)) rs) ?t = Some t
     \<and> sk_buffer (ensure_header t) = sk_buffer (ensure_header ?t) @ frames (map snd rs) \<and> sk_writer t = sk_writer ?t"
    by (rule Cons.IH) (use Cons.prems in \<open>auto simp: r e f\<close>)
  ultimately show ?case by (auto simp: r yields_ok)
qed

lemma chained_numbers:
  "k + m < 2 ^ 64 \<Longrightarrow> chained (Some (of_nat k)) (map of_nat [Suc k..<Suc (k + m)])"
proof (induction m arbitrary: k)
  case 0
  then show ?case by simp
next
  case (Suc m)
  have "checked_add (of_nat k) 1 = Some (of_nat (Suc k) :: u64)" using Suc.prems by (simp add: checked_add_def unat_of_nat)
  then show ?case using Suc.IH[of "Suc k"] Suc.prems by (simp add: upt_conv_Cons[of "Suc k"] del: upt_Suc)
qed

lemma exported_stream:
  assumes "wal_of n wal"
  shows "export_records_to_stream wal = Some (STREAM_HEADER_MAGIC @ frames (map snd wal))"
proof -
  have e: "sk_buffer (ensure_header fresh) = STREAM_HEADER_MAGIC" "sk_last_seq fresh = None" "sk_capacity fresh = DEFAULT_CAPACITY"
    "sk_writer fresh = []"
    by (simp_all add: fresh_def ensure_header_def BufferedWalSink_new_def BufferedWalSink_with_capacity_def STREAM_HEADER_MAGIC_def)
  have "chained None (map of_nat [1..<2 * n + 1])"
    using chained_numbers[of 1 "2 * n - 1"] assms by (cases n) (auto simp: wal_of_def upt_conv_Cons simp del: upt_Suc)
  then have "\<exists>t. after (map (\<lambda>(seq, b). unwraps (append_record seq b :: (test_sink, unit wal_export_error, unit) act)) wal) fresh = Some t
     \<and> sk_buffer (ensure_header t) = sk_buffer (ensure_header fresh) @ frames (map snd wal) \<and> sk_writer t = sk_writer fresh"
    using assms by (intro appends_frames) (auto simp: wal_of_def e)
  then show ?thesis
    by (auto simp: export_records_to_stream_def after_append flushes_def yields_ok[OF vec_flush] writer_ensure_header e)
qed

lemma parse_stream_frames:
  assumes "list_all payload_ok ps"
  shows "parse_stream (STREAM_HEADER_MAGIC @ frames ps @ rest) =
     (case parse_records rest of Inl e \<Rightarrow> Inl e | Inr bs \<Rightarrow> Inr (ps @ bs))"
  by (simp add: parse_stream_def parse_records_frames[OF assms])

lemma parse_records_Nil [simp]: "parse_records [] = Inr []"
  by (subst parse_records.simps) simp

lemma wal_payloads: "wal_of n wal \<Longrightarrow> list_all payload_ok (map snd wal)"
  by (simp add: wal_of_def)

lemma wal_parses: "wal_of n wal \<Longrightarrow> parse_stream (STREAM_HEADER_MAGIC @ frames (map snd wal)) = Inr (map snd wal)"
  using parse_stream_frames[OF wal_payloads, of n wal "[]"] by simp

lemma wal_length: "wal_of n wal \<Longrightarrow> length wal = 2 * n"
  unfolding wal_of_def using length_map[of fst wal] by (metis length_map length_upt add_diff_cancel_right')

lemma round_trip_tests_pass:
  assumes "wal_of 3 wal" "wal_of 3 wal2" "map snd wal = map snd wal2"
  shows "round_trip_records_byte_identical_to_originals wal" "streaming_export_is_byte_deterministic_across_runs wal wal2"
    "walrecord_seq_contract_bridge wal [Submit, Step, Submit, Step, Submit, Step]"
proof -
  show "round_trip_records_byte_identical_to_originals wal" "streaming_export_is_byte_deterministic_across_runs wal wal2"
    by (simp_all add: round_trip_records_byte_identical_to_originals_def streaming_export_is_byte_deterministic_across_runs_def
        exported_stream[OF assms(1)] exported_stream[OF assms(2)] assms(3) parses_def wal_parses[OF assms(2)])
  have "fst (wal ! i) = of_nat i + 1" if "i < 6" for i
  proof -
    have "map fst wal ! i = map of_nat [1..<7] ! i" using assms(1) by (simp add: wal_of_def)
    then show ?thesis using that wal_length[OF assms(1)] by (simp add: nth_append del: upt_Suc)
  qed
  then have "list_all (\<lambda>(idx, seq, b). seq = of_nat idx + 1) (enumerate 0 wal)"
    using wal_length[OF assms(1)] by (auto simp: list_all_length nth_enumerate_eq split_beta)
  then show "walrecord_seq_contract_bridge wal [Submit, Step, Submit, Step, Submit, Step]"
    by (simp add: upt_rec walrecord_seq_contract_bridge_def exported_stream[OF assms(1)] parses_def wal_parses[OF assms(1)] wal_length[OF assms(1)])
qed

lemma parser_error_tests_pass:
  "empty_stream_rejected_with_truncated" "invalid_header_magic_rejected_with_header_missing"
  "truncated_in_length_prefix_rejected_with_truncated" "zero_length_prefix_rejected_with_length_zero"
  "oversized_length_prefix_rejected_with_length_exceeds_max"
  by (simp_all add: test_defs parse_stream_def parse_records.simps from_be_be_bytes MAX_RECORD_BYTES_def push_bit_eq_mult)
    (simp_all add: STREAM_HEADER_MAGIC_def replicate_8)

lemma parser_tamper_tests_pass:
  assumes "wal_of 2 wal"
  shows "truncated_in_payload_rejected_with_truncated wal" "mid_stream_magic_insertion_caught_by_length_exceeds_max wal"
    "record_duplication_rejected_at_sink_with_append_only_violation wal"
proof -
  have w: "length (map snd wal) = 4" using wal_length[OF assms] by simp
  then obtain a p q b where s: "map snd wal = [a, p, q, b]" by (auto simp: numeral_eq_Suc length_Suc_conv)
  have ok: "payload_ok a" "payload_ok p" "payload_ok q" "payload_ok b" using wal_payloads[OF assms] unfolding s by auto
  have f: "length (frame b) = 8 + length b" "0 < length b" using ok(4) by (auto simp: frame_def payload_ok_def)
  let ?torn = "take (length (frame b) - 4) (frame b)"
  have n: "0 < length (frame b) - 4" "length (frame b) - 4 < length (frame b)" using f by auto
  note torn = torn_frame[OF ok(4) n]
  have "parse_records ?torn = (Inl (InvalidFraming Truncated) :: unit wal_export_error + bytes list)"
    unfolding parse_records_tail[OF torn[THEN conjunct1]] torn[THEN conjunct2] by simp
  then have "parse_stream (STREAM_HEADER_MAGIC @ frames [a, p, q] @ ?torn) = (Inl (InvalidFraming Truncated) :: unit wal_export_error + bytes list)"
    using ok by (subst parse_stream_frames) simp_all
  moreover have cut: "take (length (STREAM_HEADER_MAGIC @ frames [a, p, q, b]) - 4) (STREAM_HEADER_MAGIC @ frames [a, p, q, b])
      = STREAM_HEADER_MAGIC @ frames [a, p, q] @ ?torn" using f by simp
  ultimately show "truncated_in_payload_rejected_with_truncated wal"
    unfolding truncated_in_payload_rejected_with_truncated_def exported_stream[OF assms] s some_with.simps parses_def cut by simp
  let ?rest = "STREAM_HEADER_MAGIC @ frames [p, q, b]"
  have m: "parse_records ?rest = (Inl (InvalidFraming (LengthExceedsMax (from_be STREAM_HEADER_MAGIC) MAX_RECORD_BYTES)) :: unit wal_export_error + bytes list)"
    by (subst parse_records.simps) (simp add: STREAM_HEADER_MAGIC_def from_be_def MAX_RECORD_BYTES_def push_bit_eq_mult)
  have "parse_stream (STREAM_HEADER_MAGIC @ frames [a] @ ?rest)
      = (Inl (InvalidFraming (LengthExceedsMax (from_be STREAM_HEADER_MAGIC) MAX_RECORD_BYTES)) :: unit wal_export_error + bytes list)"
    using ok(1) by (subst parse_stream_frames) (simp_all only: m list.pred_inject sum.case)
  moreover have "unat (from_be (take 8 (frame a)) :: u64) = length a" by (simp add: frame_def from_be_be_bytes payload_len[OF ok(1)])
  moreover have "length (frame a) = 8 + length a" by (simp add: frame_def)
  ultimately show "mid_stream_magic_insertion_caught_by_length_exceeds_max wal"
    by (simp add: mid_stream_magic_insertion_caught_by_length_exceeds_max_def exported_stream[OF assms] s parses_def Let_def)
  have w0: "wal ! 0 = (1, a)"
    using assms s w by (cases wal) (auto simp: wal_of_def upt_conv_Cons)
  have "length (sk_buffer (ensure_header fresh)) + 8 + length a \<le> sk_capacity (ensure_header fresh)" "sk_last_seq fresh = None"
    using ok(1) by (simp_all add: fresh_def BufferedWalSink_new_def BufferedWalSink_with_capacity_def ensure_header_def DEFAULT_CAPACITY_def
        payload_ok_def)
  then have "append_record 1 a fresh = (Inr () :: unit wal_export_error + unit,
      (ensure_header fresh)\<lparr>sk_buffer := sk_buffer (ensure_header fresh) @ frame a, sk_last_seq := Some 1\<rparr>)"
    unfolding append_record_ok using ok(1) by simp
  then obtain t where t: "append_record 1 a fresh = (Inr () :: unit wal_export_error + unit, t)" "sk_last_seq t = Some 1" by simp
  have "append_record 1 a t = (Inl (AppendOnlyViolation 2 1 (Some 1)) :: unit wal_export_error + unit, t)"
    unfolding append_record_def validate_length_cases using ok(1) by (simp add: t(2) check_seq_def checked_add_def)
  then show "record_duplication_rejected_at_sink_with_append_only_violation wal"
    by (simp add: record_duplication_rejected_at_sink_with_append_only_violation_def w0 yields_def t fails_def)
qed

end
