(* ===== verification/Hands_Tests.thy ===== *)
theory Hands_Tests
  imports Hands Unit_Tests
begin

text \<open>The tests of \<^verbatim>\<open>examples/card_primitives/src/hand_eval.rs\<close>.  The hands are parsed from their strings and evaluated once each; the
tests then compare the strengths.\<close>

section \<open>Helpers of the test module\<close>

text \<open>\<^verbatim>\<open>split_whitespace\<close> on strings whose only white space is the blank.\<close>
fun split_blanks :: "string \<Rightarrow> string \<Rightarrow> string list" where
  "split_blanks w [] = (if w = [] then [] else [rev w])"
| "split_blanks w (c # s) = (if c = CHR '' '' then (if w = [] then [] else [rev w]) @ split_blanks [] s else split_blanks (c # w) s)"

fun parse_words :: "string list \<Rightarrow> card list option" where
  "parse_words [] = Some []"
| "parse_words (w # ws) = (case Card_from_str w of Inl e \<Rightarrow> None
     | Inr c \<Rightarrow> (case parse_words ws of None \<Rightarrow> None | Some cs \<Rightarrow> Some (c # cs)))"

definition parse_n :: "nat \<Rightarrow> string \<Rightarrow> card list option" where
  "parse_n n s = (case parse_words (split_blanks [] s) of None \<Rightarrow> None | Some cs \<Rightarrow> if length cs = n then Some cs else None)"

definition parse_5 :: "string \<Rightarrow> card list option" where "parse_5 s = parse_n 5 s"
definition parse_7 :: "string \<Rightarrow> card list option" where "parse_7 s = parse_n 7 s"

text \<open>\<^verbatim>\<open>evaluate_5(&parse_5(s))\<close>, with an assertion.\<close>
definition evaluates :: "string \<Rightarrow> (hand_rank \<Rightarrow> bool) \<Rightarrow> bool" where
  "evaluates s P = some_with (parse_5 s) (\<lambda>h. P (evaluate_5 h))"

definition evaluates_7 :: "string \<Rightarrow> (hand_rank \<Rightarrow> bool) \<Rightarrow> bool" where
  "evaluates_7 s P = some_with (parse_7 s) (\<lambda>h. P (evaluate_7 h))"

text \<open>The first of two hands is the stronger.\<close>
definition beats :: "string \<Rightarrow> string \<Rightarrow> bool" where
  [test_defs]: "beats a b = evaluates a (\<lambda>x. evaluates b (\<lambda>y. x > y))"

section \<open>Evaluation in steps that do not copy their arguments\<close>

definition value_of_groups :: "rank list \<Rightarrow> bool \<Rightarrow> bool \<Rightarrow> rank \<Rightarrow> (nat \<times> rank) list \<Rightarrow> hand_rank" where
  "value_of_groups ranks fl straight t groups =
     (if fl \<and> straight then StraightFlush t
      else if fst (groups ! 0) = 4 then FourOfAKind (snd (groups ! 0)) (snd (groups ! 1))
      else if fst (groups ! 0) = 3 \<and> fst (groups ! 1) = 2 then FullHouse (snd (groups ! 0)) (snd (groups ! 1))
      else if fst (groups ! 0) = 3 then ThreeOfAKind (snd (groups ! 0)) [snd (groups ! 1), snd (groups ! 2)]
      else if fst (groups ! 0) = 2 \<and> fst (groups ! 1) = 2 then TwoPair (snd (groups ! 0)) (snd (groups ! 1)) (snd (groups ! 2))
      else if fst (groups ! 0) = 2 then OnePair (snd (groups ! 0)) [snd (groups ! 1), snd (groups ! 2), snd (groups ! 3)]
      else if fst (groups ! 0) = 1 then (if fl then Flush ranks else if straight then Straight t else HighCard ranks)
      else HighCard ranks)"

definition pad_groups :: "(nat \<times> rank) list \<Rightarrow> (nat \<times> rank) list" where
  "pad_groups active = active @ replicate (5 - length active) (0, Two)"

definition wheel :: "rank list \<Rightarrow> bool" where
  "wheel ranks = (ranks ! 0 = Ace \<and> ranks ! 1 = Five \<and> ranks ! 2 = Four \<and> ranks ! 3 = Three \<and> ranks ! 4 = Two)"

definition value_of_ranks :: "rank list \<Rightarrow> bool \<Rightarrow> hand_rank" where
  "value_of_ranks ranks fl =
     value_of_groups ranks fl (ranks_are_consecutive_desc ranks \<or> wheel ranks) (if wheel ranks then Five else ranks ! 0)
       (pad_groups (rev (sort (group_runs ranks))))"

lemma evaluate_5_steps:
  "evaluate_5 cs = value_of_ranks (rev (sort (map card_rank cs))) (list_all (\<lambda>c. card_suit c = card_suit (cs ! 0)) cs)"
  unfolding evaluate_5_def value_of_ranks_def value_of_groups_def pad_groups_def wheel_def Let_def by simp

lemma rank_order: "(a \<le> b) = (face a \<le> face b)" "(a < b) = (face a < face b)" for a b :: rank
  by (simp_all add: less_eq_rank_def less_rank_def)

lemma consecutive_five:
  "ranks_are_consecutive_desc [a, b, c, d, e] =
     (face a = face b + 1 \<and> face b = face c + 1 \<and> face c = face d + 1 \<and> face d = face e + 1)"
  by (simp add: ranks_are_consecutive_desc_def upt_rec numeral_eq_Suc)

lemma replicate_up_to_4: "replicate 1 x = [x]" "replicate 2 x = [x, x]" "replicate 3 x = [x, x, x]" "replicate 4 x = [x, x, x, x]"
  and replicate_5: "replicate 5 x = [x, x, x, x, x]"
  by (simp_all add: numeral_eq_Suc)

lemmas evaluate_simps = evaluates_def parse_5_def parse_n_def Card_from_str_def rank_of_byte_def suit_of_byte_def card_round_trips
  evaluate_5_steps rank_order value_of_ranks_def value_of_groups_def pad_groups_def wheel_def consecutive_five replicate_up_to_4

section \<open>Category detection\<close>

definition evaluate_5_detects_high_card :: bool where
  [test_defs]: "evaluate_5_detects_high_card =
     evaluates ''AS KH QD JC 9S'' (\<lambda>h. case h of HighCard _ \<Rightarrow> True | _ \<Rightarrow> False)"

definition evaluate_5_detects_pair :: bool where
  [test_defs]: "evaluate_5_detects_pair =
     evaluates ''AS AH QD JC 9S'' (\<lambda>h. case h of OnePair Ace _ \<Rightarrow> True | _ \<Rightarrow> False)"

definition evaluate_5_detects_two_pair :: bool where
  [test_defs]: "evaluate_5_detects_two_pair =
     evaluates ''AS AH KD KC 9S'' (\<lambda>h. h = TwoPair Ace King Nine)"

definition evaluate_5_detects_three_of_a_kind :: bool where
  [test_defs]: "evaluate_5_detects_three_of_a_kind =
     evaluates ''AS AH AD KC 9S'' (\<lambda>h. case h of ThreeOfAKind Ace _ \<Rightarrow> True | _ \<Rightarrow> False)"

definition evaluate_5_detects_straight :: bool where
  [test_defs]: "evaluate_5_detects_straight =
     evaluates ''9S 8H 7D 6C 5S'' (\<lambda>h. h = Straight Nine)"

definition evaluate_5_detects_flush :: bool where
  [test_defs]: "evaluate_5_detects_flush =
     evaluates ''AS KS 9S 6S 4S'' (\<lambda>h. case h of Flush _ \<Rightarrow> True | _ \<Rightarrow> False)"

definition evaluate_5_detects_full_house :: bool where
  [test_defs]: "evaluate_5_detects_full_house =
     evaluates ''AS AH AD KC KS'' (\<lambda>h. h = FullHouse Ace King)"

definition evaluate_5_detects_four_of_a_kind :: bool where
  [test_defs]: "evaluate_5_detects_four_of_a_kind =
     evaluates ''AS AH AD AC KS'' (\<lambda>h. h = FourOfAKind Ace King)"

definition evaluate_5_detects_straight_flush :: bool where
  [test_defs]: "evaluate_5_detects_straight_flush =
     evaluates ''9S 8S 7S 6S 5S'' (\<lambda>h. h = StraightFlush Nine)"

definition straight_ace_low_wheel_top_is_five :: bool where
  [test_defs]: "straight_ace_low_wheel_top_is_five =
     evaluates ''AS 5H 4D 3C 2S'' (\<lambda>h. h = Straight Five)"

definition straight_flush_steel_wheel_top_is_five :: bool where
  [test_defs]: "straight_flush_steel_wheel_top_is_five =
     evaluates ''AS 5S 4S 3S 2S'' (\<lambda>h. h = StraightFlush Five)"

definition straight_flush_royal_top_is_ace :: bool where
  [test_defs]: "straight_flush_royal_top_is_ace =
     evaluates ''AS KS QS JS TS'' (\<lambda>h. h = StraightFlush Ace \<and> category_label h = ''Royal Flush'')"

definition broken_high_sequence_is_high_card_not_straight :: bool where
  [test_defs]: "broken_high_sequence_is_high_card_not_straight =
     evaluates ''KS QH JD TC 8S'' (\<lambda>h. case h of HighCard _ \<Rightarrow> True | _ \<Rightarrow> False)"

definition four_same_suit_plus_one_off_is_not_flush :: bool where
  [test_defs]: "four_same_suit_plus_one_off_is_not_flush =
     evaluates ''AS KS QS JS 9H'' (\<lambda>h. case h of HighCard _ \<Rightarrow> True | _ \<Rightarrow> False)"

definition straight_with_ace_high_is_broadway :: bool where
  [test_defs]: "straight_with_ace_high_is_broadway =
     evaluates ''AS KH QD JC TS'' (\<lambda>h. h = Straight Ace)"

definition straight_six_high_works :: bool where
  [test_defs]: "straight_six_high_works =
     evaluates ''6S 5H 4D 3C 2S'' (\<lambda>h. h = Straight Six)"

section \<open>Order of the strengths\<close>

definition hand_category_ordering_strict :: bool where
  [test_defs]: "hand_category_ordering_strict =
     (beats ''AS AH QD JC 9S'' ''AS KH QD JC 9S''
      \<and> beats ''AS AH KD KC 9S'' ''AS AH QD JC 9S''
      \<and> beats ''AS AH AD KC 9S'' ''AS AH KD KC 9S''
      \<and> beats ''9S 8H 7D 6C 5S'' ''AS AH AD KC 9S''
      \<and> beats ''AS KS 9S 6S 4S'' ''9S 8H 7D 6C 5S''
      \<and> beats ''AS AH AD KC KS'' ''AS KS 9S 6S 4S''
      \<and> beats ''AS AH AD AC KS'' ''AS AH AD KC KS''
      \<and> beats ''9S 8S 7S 6S 5S'' ''AS AH AD AC KS'')"

definition pair_higher_rank_wins :: bool where
  [test_defs]: "pair_higher_rank_wins =
     beats ''AS AH 5D 3C 2S'' ''KS KH QD JC TS''"

definition pair_same_rank_kicker_breaks_tie :: bool where
  [test_defs]: "pair_same_rank_kicker_breaks_tie =
     beats ''AS AH KD JC 9S'' ''AS AH QD JC 9S''"

definition two_pair_high_pair_dominates :: bool where
  [test_defs]: "two_pair_high_pair_dominates =
     beats ''AS AH 2D 2C 9S'' ''KS KH QD QC 9S''"

definition full_house_trips_rank_dominates_pair_rank :: bool where
  [test_defs]: "full_house_trips_rank_dominates_pair_rank =
     beats ''AS AH AD 2C 2S'' ''KS KH KD AC AS''"

definition straight_top_rank_breaks_tie :: bool where
  [test_defs]: "straight_top_rank_breaks_tie =
     (beats ''9S 8H 7D 6C 5S'' ''8S 7H 6D 5C 4S''
      \<and> beats ''6S 5H 4D 3C 2S'' ''AS 5H 4D 3C 2S'')"

definition straight_flush_royal_beats_steel_wheel :: bool where
  [test_defs]: "straight_flush_royal_beats_steel_wheel =
     beats ''AS KS QS JS TS'' ''AS 5S 4S 3S 2S''"

definition flush_tiebreaker_by_rank_desc :: bool where
  [test_defs]: "flush_tiebreaker_by_rank_desc =
     (beats ''AS KS 9S 6S 4S'' ''KS QS 9S 6S 4S''
      \<and> beats ''AS KS 9S 6S 4S'' ''AS KS 9S 6S 3S'')"

definition quads_kicker_breaks_tie :: bool where
  [test_defs]: "quads_kicker_breaks_tie =
     beats ''AS AH AD AC KS'' ''AS AH AD AC 2S''"

definition full_house_pair_rank_breaks_tie :: bool where
  [test_defs]: "full_house_pair_rank_breaks_tie =
     beats ''KS KH KD AC AS'' ''KS KH KD 2C 2S''"

definition three_of_a_kind_kickers_break_tie :: bool where
  [test_defs]: "three_of_a_kind_kickers_break_tie =
     (beats ''AS AH AD KC QS'' ''AS AH AD KC JS''
      \<and> beats ''AS AH AD KC JS'' ''AS AH AD KC TS'')"

definition high_card_full_descending_lex :: bool where
  [test_defs]: "high_card_full_descending_lex =
     (beats ''AS KH QD JC 9S'' ''AS KH QD JC 8S''
      \<and> beats ''AS KH QD TC 9S'' ''AS KH QD 9C 8S'')"

definition compare_hands_matches_ord :: bool where
  [test_defs]: "compare_hands_matches_ord =
     evaluates ''AS AH QD JC 9S'' (\<lambda>a. evaluates ''KS KH QD JC 9S'' (\<lambda>b.
       compare_hands a b = Greater \<and> compare_hands b a = Less \<and> compare_hands a a = Equal))"

definition category_index_matches_variant_order :: bool where
  [test_defs]: "category_index_matches_variant_order =
     evaluates ''AS KH QD JC 9S'' (\<lambda>high. evaluates ''9S 8S 7S 6S 5S'' (\<lambda>sf.
       category_index high = 0 \<and> category_index sf = 8))"

definition category_label_smoke :: bool where
  [test_defs]: "category_label_smoke =
     (category_label (StraightFlush Ace) = ''Royal Flush'' \<and> category_label (StraightFlush Five) = ''Steel Wheel''
      \<and> category_label (StraightFlush Nine) = ''Straight Flush'' \<and> category_label (HighCard (replicate 5 Ace)) = ''High Card'')"

section \<open>The best five of seven\<close>

definition evaluate_7_picks_best_5 :: bool where
  [test_defs]: "evaluate_7_picks_best_5 =
     evaluates_7 ''AS AH AD KC KS 3D 2C'' (\<lambda>h. h = FullHouse Ace King)"

definition evaluate_7_hidden_straight_flush :: bool where
  [test_defs]: "evaluate_7_hidden_straight_flush =
     evaluates_7 ''9S 8S AS KS 7S 6S 5S'' (\<lambda>h. h = StraightFlush Nine)"

definition evaluate_7_flush_picks_5_highest_suited :: bool where
  [test_defs]: "evaluate_7_flush_picks_5_highest_suited =
     evaluates_7 ''AS KS QS 5S 3S TH 9H'' (\<lambda>h. h = Flush [Ace, King, Queen, Five, Three])"

definition evaluate_7_no_pair_picks_5_high :: bool where
  [test_defs]: "evaluate_7_no_pair_picks_5_high =
     evaluates_7 ''AS KH QD JC 9S 7H 4D'' (\<lambda>h. h = HighCard [Ace, King, Queen, Jack, Nine])"

definition evaluate_7_quads_dominates_full_house :: bool where
  [test_defs]: "evaluate_7_quads_dominates_full_house =
     evaluates_7 ''AS AH AD AC KS KH QD'' (\<lambda>h. h = FourOfAKind Ace King)"

section \<open>The chain-hash bytes\<close>

definition to_chain_hash_bytes_layout_per_variant :: bool where
  [test_defs]: "to_chain_hash_bytes_layout_per_variant =
     (to_chain_hash_bytes (HighCard [Ace, King, Queen, Jack, Nine]) = [0, 14, 13, 12, 11, 9]
      \<and> to_chain_hash_bytes (OnePair Ace [King, Queen, Jack]) = [1, 14, 13, 12, 11, 0]
      \<and> to_chain_hash_bytes (TwoPair Ace King Queen) = [2, 14, 13, 12, 0, 0]
      \<and> to_chain_hash_bytes (ThreeOfAKind Ace [King, Queen]) = [3, 14, 13, 12, 0, 0]
      \<and> to_chain_hash_bytes (Straight Ten) = [4, 10, 0, 0, 0, 0]
      \<and> to_chain_hash_bytes (Flush [Ace, Jack, Nine, Six, Three]) = [5, 14, 11, 9, 6, 3]
      \<and> to_chain_hash_bytes (FullHouse Ace King) = [6, 14, 13, 0, 0, 0]
      \<and> to_chain_hash_bytes (FourOfAKind Ace King) = [7, 14, 13, 0, 0, 0]
      \<and> to_chain_hash_bytes (StraightFlush Ace) = [8, 14, 0, 0, 0, 0])"

definition to_chain_hash_bytes_distinct_variants_distinct_bytes :: bool where
  [test_defs]: "to_chain_hash_bytes_distinct_variants_distinct_bytes =
     distinct (map to_chain_hash_bytes
       [HighCard [Ace, King, Queen, Jack, Nine],
        OnePair Ace [King, Queen, Jack],
        TwoPair Ace King Queen,
        ThreeOfAKind Ace [King, Queen],
        Straight Ten,
        Flush [Ace, King, Queen, Jack, Nine],
        FullHouse Ace King,
        FourOfAKind Ace King,
        StraightFlush Ace])"

definition to_chain_hash_bytes_pair_kickers_round_trip :: bool where
  [test_defs]: "to_chain_hash_bytes_pair_kickers_round_trip =
     (let aa_kqj = OnePair Ace [King, Queen, Jack]; aa_kqt = OnePair Ace [King, Queen, Ten]; kk_aqj = OnePair King [Ace, Queen, Jack] in
        to_chain_hash_bytes aa_kqj \<noteq> to_chain_hash_bytes aa_kqt \<and> to_chain_hash_bytes aa_kqj \<noteq> to_chain_hash_bytes kk_aqj
      \<and> to_chain_hash_bytes kk_aqj ! 1 = 13 \<and> to_chain_hash_bytes kk_aqj ! 2 = 14)"

definition to_chain_hash_bytes_high_card_descending :: bool where
  [test_defs]: "to_chain_hash_bytes_high_card_descending =
     (let bytes = to_chain_hash_bytes (HighCard [Ace, Queen, Ten, Eight, Six]) in bytes ! 0 = 0 \<and> drop 1 bytes = [14, 12, 10, 8, 6])"

definition to_chain_hash_bytes_sentinel_is_zero_not_valid_rank :: bool where
  [test_defs]: "to_chain_hash_bytes_sentinel_is_zero_not_valid_rank =
     (list_all (\<lambda>b. b = 0) (drop 2 (to_chain_hash_bytes (Straight Ten)))
      \<and> list_all (\<lambda>variant. let b = to_chain_hash_bytes variant ! 1 in b \<ge> 2 \<and> b \<le> 14)
           [Straight Five, FourOfAKind Two Three, FullHouse King Two])"

section \<open>The tests pass\<close>

lemma hands_evaluated_1:
  "evaluates ''AS KH QD JC 9S'' P = P (HighCard [Ace, King, Queen, Jack, Nine])"
  "evaluates ''AS AH QD JC 9S'' P = P (OnePair Ace [Queen, Jack, Nine])"
  "evaluates ''AS AH KD KC 9S'' P = P (TwoPair Ace King Nine)"
  "evaluates ''AS AH AD KC 9S'' P = P (ThreeOfAKind Ace [King, Nine])"
  "evaluates ''9S 8H 7D 6C 5S'' P = P (Straight Nine)"
  "evaluates ''AS KS 9S 6S 4S'' P = P (Flush [Ace, King, Nine, Six, Four])"
  "evaluates ''AS AH AD KC KS'' P = P (FullHouse Ace King)"
  "evaluates ''AS AH AD AC KS'' P = P (FourOfAKind Ace King)"
  "evaluates ''9S 8S 7S 6S 5S'' P = P (StraightFlush Nine)"
  by (simp_all add: evaluate_simps)

lemma hands_evaluated_2:
  "evaluates ''AS 5H 4D 3C 2S'' P = P (Straight Five)"
  "evaluates ''AS 5S 4S 3S 2S'' P = P (StraightFlush Five)"
  "evaluates ''AS KS QS JS TS'' P = P (StraightFlush Ace)"
  "evaluates ''KS QH JD TC 8S'' P = P (HighCard [King, Queen, Jack, Ten, Eight])"
  "evaluates ''AS KS QS JS 9H'' P = P (HighCard [Ace, King, Queen, Jack, Nine])"
  "evaluates ''AS KH QD JC TS'' P = P (Straight Ace)"
  "evaluates ''6S 5H 4D 3C 2S'' P = P (Straight Six)"
  "evaluates ''AS AH 5D 3C 2S'' P = P (OnePair Ace [Five, Three, Two])"
  "evaluates ''KS KH QD JC TS'' P = P (OnePair King [Queen, Jack, Ten])"
  by (simp_all add: evaluate_simps)

lemma hands_evaluated_3:
  "evaluates ''AS AH KD JC 9S'' P = P (OnePair Ace [King, Jack, Nine])"
  "evaluates ''AS AH 2D 2C 9S'' P = P (TwoPair Ace Two Nine)"
  "evaluates ''KS KH QD QC 9S'' P = P (TwoPair King Queen Nine)"
  "evaluates ''AS AH AD 2C 2S'' P = P (FullHouse Ace Two)"
  "evaluates ''KS KH KD AC AS'' P = P (FullHouse King Ace)"
  "evaluates ''8S 7H 6D 5C 4S'' P = P (Straight Eight)"
  "evaluates ''KS KH QD JC 9S'' P = P (OnePair King [Queen, Jack, Nine])"
  "evaluates ''KS QS 9S 6S 4S'' P = P (Flush [King, Queen, Nine, Six, Four])"
  "evaluates ''AS KS 9S 6S 3S'' P = P (Flush [Ace, King, Nine, Six, Three])"
  by (simp_all add: evaluate_simps)

lemma hands_evaluated_4:
  "evaluates ''AS AH AD AC 2S'' P = P (FourOfAKind Ace Two)"
  "evaluates ''KS KH KD 2C 2S'' P = P (FullHouse King Two)"
  "evaluates ''AS AH AD KC QS'' P = P (ThreeOfAKind Ace [King, Queen])"
  "evaluates ''AS AH AD KC JS'' P = P (ThreeOfAKind Ace [King, Jack])"
  "evaluates ''AS AH AD KC TS'' P = P (ThreeOfAKind Ace [King, Ten])"
  "evaluates ''AS KH QD JC 8S'' P = P (HighCard [Ace, King, Queen, Jack, Eight])"
  "evaluates ''AS KH QD TC 9S'' P = P (HighCard [Ace, King, Queen, Ten, Nine])"
  "evaluates ''AS KH QD 9C 8S'' P = P (HighCard [Ace, King, Queen, Nine, Eight])"
  by (simp_all add: evaluate_simps)

lemmas hands_evaluated = hands_evaluated_1 hands_evaluated_2 hands_evaluated_3 hands_evaluated_4

lemmas strength_order = test_defs hands_evaluated less_hand_rank_def rank_order compare_hands_def

lemma category_tests_pass:
  "evaluate_5_detects_high_card" "evaluate_5_detects_pair"
  "evaluate_5_detects_two_pair" "evaluate_5_detects_three_of_a_kind"
  "evaluate_5_detects_straight" "evaluate_5_detects_flush"
  "evaluate_5_detects_full_house" "evaluate_5_detects_four_of_a_kind"
  "evaluate_5_detects_straight_flush" "straight_ace_low_wheel_top_is_five"
  "straight_flush_steel_wheel_top_is_five" "straight_flush_royal_top_is_ace"
  "broken_high_sequence_is_high_card_not_straight" "four_same_suit_plus_one_off_is_not_flush"
  "straight_with_ace_high_is_broadway" "straight_six_high_works"
  by (simp_all add: test_defs hands_evaluated)

lemma order_tests_pass:
  "hand_category_ordering_strict" "pair_higher_rank_wins"
  "pair_same_rank_kicker_breaks_tie" "two_pair_high_pair_dominates"
  "full_house_trips_rank_dominates_pair_rank" "straight_top_rank_breaks_tie"
  "straight_flush_royal_beats_steel_wheel" "flush_tiebreaker_by_rank_desc"
  "quads_kicker_breaks_tie" "full_house_pair_rank_breaks_tie"
  "three_of_a_kind_kickers_break_tie" "high_card_full_descending_lex"
  "compare_hands_matches_ord" "category_index_matches_variant_order"
  "category_label_smoke"
  by (simp_all add: strength_order)

lemma chain_hash_tests_pass:
  "to_chain_hash_bytes_layout_per_variant" "to_chain_hash_bytes_distinct_variants_distinct_bytes"
  "to_chain_hash_bytes_pair_kickers_round_trip" "to_chain_hash_bytes_high_card_descending"
  "to_chain_hash_bytes_sentinel_is_zero_not_valid_rank"
  by (simp_all add: test_defs to_chain_hash_bytes_def replicate_up_to_4)

section \<open>Seven cards\<close>

lemma seven_pairs: "concat (map (\<lambda>i. map (\<lambda>j. (i, j)) [i + 1..<7]) [0..<7]) =
    [(0, 1), (0, 2), (0, 3), (0, 4), (0, 5), (0, 6), (1, 2), (1, 3), (1, 4), (1, 5), (1, 6), (2, 3), (2, 4), (2, 5), (2, 6), (3, 4),
       (3, 5), (3, 6), (4, 5), (4, 6), (5, 6)]"
  by (simp add: upt_rec)

fun best_of :: "hand_rank \<Rightarrow> hand_rank list \<Rightarrow> hand_rank" where
  "best_of best [] = best"
| "best_of best (c # cs) = best_of (if best < c then c else best) cs"

lemma best_of_steps: "\<not> best < c \<Longrightarrow> best_of best (c # cs) = best_of best cs" "best < c \<Longrightarrow> best_of best (c # cs) = best_of c cs"
  by simp_all

lemma foldl_best_of: "foldl (\<lambda>best (i, j). let candidate = v i j in if candidate > best then candidate else best) x ps =
    best_of x (map (\<lambda>(i, j). v i j) ps)"
  by (induction ps arbitrary: x) (auto simp: Let_def)

lemma seven_hands: "map (\<lambda>(i, j). sub_hand [a, b, c, d, e, f, g] i j)
    [(0, 1), (0, 2), (0, 3), (0, 4), (0, 5), (0, 6), (1, 2), (1, 3), (1, 4), (1, 5), (1, 6), (2, 3), (2, 4), (2, 5), (2, 6), (3, 4),
       (3, 5), (3, 6), (4, 5), (4, 6), (5, 6)] =
    [[c, d, e, f, g],
      [b, d, e, f, g],
      [b, c, e, f, g],
      [b, c, d, f, g],
      [b, c, d, e, g],
      [b, c, d, e, f],
      [a, d, e, f, g],
      [a, c, e, f, g],
      [a, c, d, f, g],
      [a, c, d, e, g],
      [a, c, d, e, f],
      [a, b, e, f, g],
      [a, b, d, f, g],
      [a, b, d, e, g],
      [a, b, d, e, f],
      [a, b, c, f, g],
      [a, b, c, e, g],
      [a, b, c, e, f],
      [a, b, c, d, g],
      [a, b, c, d, f],
      [a, b, c, d, e]]"
  by (simp add: sub_hand_def)

lemma evaluate_7_steps:
  "evaluate_7 [a, b, c, d, e, f, g] = best_of (HighCard [Two, Two, Two, Two, Two]) (map evaluate_5
     [[c, d, e, f, g],
      [b, d, e, f, g],
      [b, c, e, f, g],
      [b, c, d, f, g],
      [b, c, d, e, g],
      [b, c, d, e, f],
      [a, d, e, f, g],
      [a, c, e, f, g],
      [a, c, d, f, g],
      [a, c, d, e, g],
      [a, c, d, e, f],
      [a, b, e, f, g],
      [a, b, d, f, g],
      [a, b, d, e, g],
      [a, b, d, e, f],
      [a, b, c, f, g],
      [a, b, c, e, g],
      [a, b, c, e, f],
      [a, b, c, d, g],
      [a, b, c, d, f],
      [a, b, c, d, e]])"
proof -
  have "map (\<lambda>(i, j). evaluate_5 (sub_hand cs i j)) ps = map evaluate_5 (map (\<lambda>(i, j). sub_hand cs i j) ps)" for cs ps
    by (simp add: split_def)
  then show ?thesis unfolding evaluate_7_def foldl_best_of seven_pairs replicate_5 seven_hands by (simp only: seven_hands)
qed


lemma parsed_7:
  "parse_7 ''AS AH AD KC KS 3D 2C'' = Some [Card_new Ace Spades, Card_new Ace Hearts, Card_new Ace Diamonds, Card_new King Clubs,
       Card_new King Spades, Card_new Three Diamonds, Card_new Two Clubs]"
  "parse_7 ''9S 8S AS KS 7S 6S 5S'' = Some [Card_new Nine Spades, Card_new Eight Spades, Card_new Ace Spades, Card_new King Spades,
       Card_new Seven Spades, Card_new Six Spades, Card_new Five Spades]"
  "parse_7 ''AS KS QS 5S 3S TH 9H'' = Some [Card_new Ace Spades, Card_new King Spades, Card_new Queen Spades, Card_new Five Spades,
       Card_new Three Spades, Card_new Ten Hearts, Card_new Nine Hearts]"
  "parse_7 ''AS KH QD JC 9S 7H 4D'' = Some [Card_new Ace Spades, Card_new King Hearts, Card_new Queen Diamonds, Card_new Jack Clubs,
       Card_new Nine Spades, Card_new Seven Hearts, Card_new Four Diamonds]"
  "parse_7 ''AS AH AD AC KS KH QD'' = Some [Card_new Ace Spades, Card_new Ace Hearts, Card_new Ace Diamonds, Card_new Ace Clubs,
       Card_new King Spades, Card_new King Hearts, Card_new Queen Diamonds]"
  by (simp_all add: parse_7_def parse_n_def Card_from_str_def rank_of_byte_def suit_of_byte_def)

lemma two_le_one: "\<not> (2 :: u8) \<le> 1"
  by (simp add: word_le_nat_alt)

lemmas hand_order = less_hand_rank_def rank_order best_of_steps two_le_one

lemma evaluate_7_picks_best_5_passes: "evaluate_7_picks_best_5"
proof -
  have e: "evaluates_7 ''AS AH AD KC KS 3D 2C'' P = P (best_of (HighCard [Two, Two, Two, Two, Two])
      [OnePair King [Ace, Three, Two], OnePair King [Ace, Three, Two], OnePair Ace [King, Three, Two], OnePair Ace [King, Three, Two],
       TwoPair Ace King Two, TwoPair Ace King Three, OnePair King [Ace, Three, Two], OnePair Ace [King, Three, Two], OnePair Ace [King,
       Three, Two], TwoPair Ace King Two, TwoPair Ace King Three, OnePair Ace [King, Three, Two], OnePair Ace [King, Three, Two],
       TwoPair Ace King Two, TwoPair Ace King Three, ThreeOfAKind Ace [Three, Two], ThreeOfAKind Ace [King, Two],
       ThreeOfAKind Ace [King, Three], ThreeOfAKind Ace [King, Two], ThreeOfAKind Ace [King, Three], FullHouse Ace King])" for P
    by (simp only: evaluates_7_def parsed_7 some_with.simps evaluate_7_steps, rule arg_cong[where f=P], rule arg_cong[where f="best_of _"])
      (simp add: evaluate_simps)
  show ?thesis unfolding evaluate_7_picks_best_5_def e by (simp add: hand_order del: best_of.simps(2))
qed

lemma evaluate_7_hidden_straight_flush_passes: "evaluate_7_hidden_straight_flush"
proof -
  have e: "evaluates_7 ''9S 8S AS KS 7S 6S 5S'' P = P (best_of (HighCard [Two, Two, Two, Two, Two])
      [Flush [Ace, King, Seven, Six, Five], Flush [King, Eight, Seven, Six, Five], Flush [Ace, Eight, Seven, Six, Five], Flush [Ace,
       King, Eight, Six, Five], Flush [Ace, King, Eight, Seven, Five], Flush [Ace, King, Eight, Seven, Six], Flush [King, Nine, Seven,
       Six, Five], Flush [Ace, Nine, Seven, Six, Five], Flush [Ace, King, Nine, Six, Five], Flush [Ace, King, Nine, Seven, Five],
       Flush [Ace, King, Nine, Seven, Six], StraightFlush Nine, Flush [King, Nine, Eight, Six, Five], Flush [King, Nine, Eight, Seven,
       Five], Flush [King, Nine, Eight, Seven, Six], Flush [Ace, Nine, Eight, Six, Five], Flush [Ace, Nine, Eight, Seven, Five],
       Flush [Ace, Nine, Eight, Seven, Six], Flush [Ace, King, Nine, Eight, Five], Flush [Ace, King, Nine, Eight, Six], Flush [Ace,
       King, Nine, Eight, Seven]])" for P
    by (simp only: evaluates_7_def parsed_7 some_with.simps evaluate_7_steps, rule arg_cong[where f=P], rule arg_cong[where f="best_of _"])
      (simp add: evaluate_simps)
  show ?thesis unfolding evaluate_7_hidden_straight_flush_def e by (simp add: hand_order del: best_of.simps(2))
qed

lemma evaluate_7_flush_picks_5_highest_suited_passes: "evaluate_7_flush_picks_5_highest_suited"
proof -
  have e: "evaluates_7 ''AS KS QS 5S 3S TH 9H'' P = P (best_of (HighCard [Two, Two, Two, Two, Two])
      [HighCard [Queen, Ten, Nine, Five, Three], HighCard [King, Ten, Nine, Five, Three], HighCard [King, Queen, Ten, Nine, Three],
       HighCard [King, Queen, Ten, Nine, Five], HighCard [King, Queen, Nine, Five, Three], HighCard [King, Queen, Ten, Five, Three],
       HighCard [Ace, Ten, Nine, Five, Three], HighCard [Ace, Queen, Ten, Nine, Three], HighCard [Ace, Queen, Ten, Nine, Five],
       HighCard [Ace, Queen, Nine, Five, Three], HighCard [Ace, Queen, Ten, Five, Three], HighCard [Ace, King, Ten, Nine, Three],
       HighCard [Ace, King, Ten, Nine, Five], HighCard [Ace, King, Nine, Five, Three], HighCard [Ace, King, Ten, Five, Three],
       HighCard [Ace, King, Queen, Ten, Nine], HighCard [Ace, King, Queen, Nine, Three], HighCard [Ace, King, Queen, Ten, Three],
       HighCard [Ace, King, Queen, Nine, Five], HighCard [Ace, King, Queen, Ten, Five], Flush [Ace, King, Queen, Five, Three]])" for P
    by (simp only: evaluates_7_def parsed_7 some_with.simps evaluate_7_steps, rule arg_cong[where f=P], rule arg_cong[where f="best_of _"])
      (simp add: evaluate_simps)
  show ?thesis unfolding evaluate_7_flush_picks_5_highest_suited_def e by (simp add: hand_order del: best_of.simps(2))
qed

lemma evaluate_7_no_pair_picks_5_high_passes: "evaluate_7_no_pair_picks_5_high"
proof -
  have e: "evaluates_7 ''AS KH QD JC 9S 7H 4D'' P = P (best_of (HighCard [Two, Two, Two, Two, Two])
      [HighCard [Queen, Jack, Nine, Seven, Four], HighCard [King, Jack, Nine, Seven, Four], HighCard [King, Queen, Nine, Seven, Four],
       HighCard [King, Queen, Jack, Seven, Four], HighCard [King, Queen, Jack, Nine, Four], HighCard [King, Queen, Jack, Nine, Seven],
       HighCard [Ace, Jack, Nine, Seven, Four], HighCard [Ace, Queen, Nine, Seven, Four], HighCard [Ace, Queen, Jack, Seven, Four],
       HighCard [Ace, Queen, Jack, Nine, Four], HighCard [Ace, Queen, Jack, Nine, Seven], HighCard [Ace, King, Nine, Seven, Four],
       HighCard [Ace, King, Jack, Seven, Four], HighCard [Ace, King, Jack, Nine, Four], HighCard [Ace, King, Jack, Nine, Seven],
       HighCard [Ace, King, Queen, Seven, Four], HighCard [Ace, King, Queen, Nine, Four], HighCard [Ace, King, Queen, Nine, Seven],
       HighCard [Ace, King, Queen, Jack, Four], HighCard [Ace, King, Queen, Jack, Seven], HighCard [Ace, King, Queen, Jack, Nine]])" for P
    by (simp only: evaluates_7_def parsed_7 some_with.simps evaluate_7_steps, rule arg_cong[where f=P], rule arg_cong[where f="best_of _"])
      (simp add: evaluate_simps)
  show ?thesis unfolding evaluate_7_no_pair_picks_5_high_def e by (simp add: hand_order del: best_of.simps(2))
qed

lemma evaluate_7_quads_dominates_full_house_passes: "evaluate_7_quads_dominates_full_house"
proof -
  have e: "evaluates_7 ''AS AH AD AC KS KH QD'' P = P (best_of (HighCard [Two, Two, Two, Two, Two])
      [TwoPair Ace King Queen, TwoPair Ace King Queen, TwoPair Ace King Queen, ThreeOfAKind Ace [King, Queen], ThreeOfAKind Ace [King,
       Queen], FullHouse Ace King, TwoPair Ace King Queen, TwoPair Ace King Queen, ThreeOfAKind Ace [King, Queen],
       ThreeOfAKind Ace [King, Queen], FullHouse Ace King, TwoPair Ace King Queen, ThreeOfAKind Ace [King, Queen],
       ThreeOfAKind Ace [King, Queen], FullHouse Ace King, ThreeOfAKind Ace [King, Queen], ThreeOfAKind Ace [King, Queen],
       FullHouse Ace King, FourOfAKind Ace Queen, FourOfAKind Ace King, FourOfAKind Ace King])" for P
    by (simp only: evaluates_7_def parsed_7 some_with.simps evaluate_7_steps, rule arg_cong[where f=P], rule arg_cong[where f="best_of _"])
      (simp add: evaluate_simps)
  show ?thesis unfolding evaluate_7_quads_dominates_full_house_def e by (simp add: hand_order del: best_of.simps(2))
qed

end
