(* ===== verification/Cards_Tests.thy ===== *)
theory Cards_Tests
  imports Cards Unit_Tests
begin

text \<open>The tests of \<^verbatim>\<open>card.rs\<close> and \<^verbatim>\<open>deck.rs\<close> of \<^verbatim>\<open>examples/card_primitives\<close>.  A shuffle takes the random source as a
parameter and may not return; its tests hold whenever it does.  The two tests that two named seeds give different orders need the values
of the source and are left out.\<close>

section \<open>Cards (card.rs)\<close>

definition up_to :: "nat \<Rightarrow> nat \<Rightarrow> u8 list" where
  [test_defs]: "up_to a b = map of_nat [a..<b + 1]"

definition all_pairs :: "(rank \<times> suit) list" where
  [test_defs]: "all_pairs = concat (map (\<lambda>r. map (\<lambda>s. (r, s)) Suit_ALL) Rank_ALL)"

definition round_trip_byte_all_52 :: bool where
  "round_trip_byte_all_52 = list_all (\<lambda>b. ok_with (from_byte b) (\<lambda>card.
     to_byte card = b \<and> Card_new (card_rank card) (card_suit card) = card)) (up_to 0 51)"

definition from_byte_rejects_out_of_range :: bool where
  "from_byte_rejects_out_of_range = list_all (\<lambda>b. is_err (from_byte b)) (up_to 52 255)"

definition card_all_has_52_unique_entries :: bool where
  "card_all_has_52_unique_entries =
     (let all = sort (map (\<lambda>(r, s). Card_new r s) all_pairs) in
      distinct all \<and> length all = 52 \<and> hd all = Card_new Two Clubs \<and> last all = Card_new Ace Spades)"

definition ord_rank_major_then_suit_bridge :: bool where
  "ord_rank_major_then_suit_bridge =
     (Card_new Two Spades < Card_new Three Clubs
      \<and> Card_new Two Clubs < Card_new Two Diamonds \<and> Card_new Two Diamonds < Card_new Two Hearts
      \<and> Card_new Two Hearts < Card_new Two Spades)"

definition ord_transitivity_full_table :: bool where
  "ord_transitivity_full_table =
     (let cs = map Card (up_to 0 51) in
      list_all (\<lambda>a. list_all (\<lambda>b. list_all (\<lambda>c. a < b \<longrightarrow> b < c \<longrightarrow> a < c) cs) cs) cs)"

definition suit_ord_bridge_total :: bool where
  "suit_ord_bridge_total = list_all (\<lambda>(i, a). list_all (\<lambda>(j, b). (a < b) = (i < j) \<and> (a = b) = (i = j)) (enumerate 0 Suit_ALL))
     (enumerate 0 Suit_ALL)"

definition from_str_round_trip_all_52 :: bool where
  "from_str_round_trip_all_52 =
     (list_all (\<lambda>(r, s). ok_with (Card_from_str (Card_display (Card_new r s))) (\<lambda>parsed. parsed = Card_new r s)) all_pairs
      \<and> ok_with (Card_from_str ''AS'') (\<lambda>ace_spades. ace_spades = Card_new Ace Spades \<and> to_byte ace_spades = 51))"

definition from_str_rejects_invalid :: bool where
  "from_str_rejects_invalid =
     (Card_from_str '''' = Inl (InvalidLength 0) \<and> Card_from_str ''A'' = Inl (InvalidLength 1)
      \<and> Card_from_str ''ACE'' = Inl (InvalidLength 3)
      \<and> Card_from_str ''XS'' = Inl (InvalidRank (of_char (CHR ''X''))) \<and> Card_from_str ''1S'' = Inl (InvalidRank (of_char (CHR ''1'')))
      \<and> Card_from_str ''AX'' = Inl (InvalidSuit (of_char (CHR ''X''))) \<and> Card_from_str ''A1'' = Inl (InvalidSuit (of_char (CHR ''1''))))"

text \<open>postcard writes a byte as itself; serde calls \<^verbatim>\<open>from_byte\<close> on the one it reads.\<close>
definition serde_postcard_round_trip_all_52 :: "u8 codec \<Rightarrow> bool" where
  "serde_postcard_round_trip_all_52 u8c = list_all (\<lambda>b. ok_with (from_byte b) (\<lambda>card.
     let bytes = encoded u8c (to_byte card) in
     length bytes = 1 \<and> bytes ! 0 = b \<and> some_with (Card_deserialize u8c bytes) (\<lambda>restored. card = restored))) (up_to 0 51)"

definition serde_rejects_out_of_range_byte :: "u8 codec \<Rightarrow> bool" where
  "serde_rejects_out_of_range_byte u8c = list_all (\<lambda>b. Card_deserialize u8c [b] = None) (up_to 52 255)"

definition rank_try_from_face_round_trip :: bool where
  "rank_try_from_face_round_trip =
     (list_all (\<lambda>f. ok_with (try_from_face f) (\<lambda>rank. face rank = f)) (up_to 2 14)
      \<and> list_all (\<lambda>bad. try_from_face bad = Inl (InvalidRank bad)) [0, 1, 15, 100, 255])"

definition suit_try_from_index_round_trip :: bool where
  "suit_try_from_index_round_trip =
     (list_all (\<lambda>idx. ok_with (try_from_index idx) (\<lambda>suit. suit_index suit = idx)) (up_to 0 3)
      \<and> list_all (\<lambda>bad. try_from_index bad = Inl (InvalidSuit bad)) [4, 100, 255])"

definition card_byte_value_matches_packing_formula :: bool where
  "card_byte_value_matches_packing_formula =
     list_all (\<lambda>(r, s). to_byte (Card_new r s) = (face r - 2) * 4 + suit_index s) all_pairs"

lemma card_table_tests_pass:
  "round_trip_byte_all_52" "from_byte_rejects_out_of_range" "card_all_has_52_unique_entries" "from_str_round_trip_all_52"
  "rank_try_from_face_round_trip" "suit_try_from_index_round_trip" "card_byte_value_matches_packing_formula" "suit_ord_bridge_total"
  by code_simp+

lemma card_order_tests_pass: "ord_rank_major_then_suit_bridge" "from_str_rejects_invalid"
  by code_simp+

lemma card_transitivity_test_passes: "ord_transitivity_full_table"
  unfolding ord_transitivity_full_table_def Let_def list_all_iff by (blast intro: less_trans)

lemma card_serde_tests_pass:
  assumes "\<And>b. cd_enc u8c b = Some [b]" "\<And>b. cd_dec u8c [b] = Some b"
  shows "serde_postcard_round_trip_all_52 u8c" "serde_rejects_out_of_range_byte u8c"
proof -
  have e: "encoded u8c b = [b]" for b using assms(1) by (simp add: encoded_def)
  have "list_all (\<lambda>b. b \<le> 51) (up_to 0 51)" "list_all (\<lambda>b. b > 51) (up_to 52 255)" by code_simp+
  then show "serde_postcard_round_trip_all_52 u8c" "serde_rejects_out_of_range_byte u8c"
    by (auto simp: serde_postcard_round_trip_all_52_def serde_rejects_out_of_range_byte_def list_all_iff e Card_deserialize_def
        assms(2) from_byte_def not_le Let_def)
qed

section \<open>The deck (deck.rs)\<close>

definition fixed_seed :: "u8 \<Rightarrow> bytes" where
  [test_defs]: "fixed_seed b = replicate 32 b"

definition collect_all :: "deck \<Rightarrow> card set" where
  [test_defs]: "collect_all d = set (cards d)"

text \<open>\<^verbatim>\<open>deck.shuffle(&mut RngSource::from_seed(&fixed_seed(b)))\<close>, then an assertion on the deck.\<close>
definition shuffled_with :: "xof \<Rightarrow> u8 \<Rightarrow> deck \<Rightarrow> (deck \<Rightarrow> bool) \<Rightarrow> bool" where
  "shuffled_with X b d P = some_with (Deck_shuffle X d (from_seed (fixed_seed b))) (\<lambda>(d', r). P d')"

text \<open>\<^term>\<open>n\<close> draws: the cards drawn, and the deck; a draw that gives nothing fails the test.\<close>
fun draws :: "nat \<Rightarrow> deck \<Rightarrow> (card list \<times> deck) option" where
  "draws 0 d = Some ([], d)"
| "draws (Suc n) d = (case Deck_draw d of (None, d') \<Rightarrow> None
     | (Some c, d') \<Rightarrow> (case draws n d' of None \<Rightarrow> None | Some (cs, d'') \<Rightarrow> Some (c # cs, d'')))"

definition drawn_after :: "nat \<Rightarrow> (card list \<Rightarrow> deck \<Rightarrow> bool) \<Rightarrow> bool" where
  "drawn_after n P = some_with (draws n Deck_standard) (\<lambda>(cs, d). P cs d)"

definition deck_standard_has_52_cards :: bool where
  "deck_standard_has_52_cards =
     (length (cards Deck_standard) = 52 \<and> Deck_remaining Deck_standard = 52 \<and> deck.cursor Deck_standard = 0)"

definition deck_standard_canonical_byte_order :: bool where
  "deck_standard_canonical_byte_order = list_all (\<lambda>(i, card). unat (to_byte card) = i) (enumerate 0 (cards Deck_standard))"

definition deck_standard_all_unique :: bool where
  "deck_standard_all_unique = (card (collect_all Deck_standard) = 52)"

definition deck_shuffle_preserves_cardinality_and_uniqueness :: "xof \<Rightarrow> bool" where
  "deck_shuffle_preserves_cardinality_and_uniqueness X =
     shuffled_with X 0xDE Deck_standard (\<lambda>d. card (collect_all d) = 52 \<and> Deck_remaining d = 52)"

definition deck_shuffle_deterministic_same_rng_same_permutation :: "xof \<Rightarrow> bool" where
  "deck_shuffle_deterministic_same_rng_same_permutation X =
     shuffled_with X 42 Deck_standard (\<lambda>deck1. shuffled_with X 42 Deck_standard (\<lambda>deck2. deck1 = deck2))"

definition deck_draw_decrements_remaining :: bool where
  "deck_draw_decrements_remaining =
     (Deck_remaining Deck_standard = 52
      \<and> list_all (\<lambda>n. drawn_after n (\<lambda>cs d. Deck_remaining d = 52 - n)) [1..<53]
      \<and> drawn_after 52 (\<lambda>cs d. deck.cursor d = 52))"

definition deck_draw_yields_all_52_distinct :: bool where
  "deck_draw_yields_all_52_distinct = drawn_after 52 (\<lambda>cs d. distinct cs \<and> length cs = 52)"

definition deck_draw_after_exhaustion_returns_none :: bool where
  "deck_draw_after_exhaustion_returns_none =
     drawn_after 52 (\<lambda>cs d. case Deck_draw d of (c, d') \<Rightarrow> c = None \<and> fst (Deck_draw d') = None)"

definition deck_draw_in_canonical_order_yields_byte_ascending :: bool where
  "deck_draw_in_canonical_order_yields_byte_ascending = drawn_after 52 (\<lambda>cs d. map to_byte cs = up_to 0 51)"

text \<open>A clone is the value itself: what happens to the other deck does not reach it.\<close>
definition deck_clone_independence :: "xof \<Rightarrow> bool" where
  "deck_clone_independence X =
     (let b = Deck_standard in shuffled_with X 7 Deck_standard (\<lambda>a. b = Deck_standard \<and>
        (case Deck_draw a of (c, a') \<Rightarrow> Deck_remaining b = 52)))"

definition deck_shuffle_preserves_already_drawn_region :: "xof \<Rightarrow> bool" where
  "deck_shuffle_preserves_already_drawn_region X = drawn_after 5 (\<lambda>drawn d.
     take (unat (deck.cursor d)) (cards d) = drawn
     \<and> shuffled_with X 0xBA d (\<lambda>d'. take 5 (cards d') = drawn \<and> card (set (drop 5 (cards d'))) = 47))"

definition deck_shuffle_on_exhausted_deck_is_noop :: "xof \<Rightarrow> bool" where
  "deck_shuffle_on_exhausted_deck_is_noop X = drawn_after 52 (\<lambda>cs snapshot. shuffled_with X 0xFE snapshot (\<lambda>d. d = snapshot))"

definition deck_shuffle_with_one_card_undrawn_is_noop :: "xof \<Rightarrow> bool" where
  "deck_shuffle_with_one_card_undrawn_is_noop X = drawn_after 51 (\<lambda>cs snapshot. shuffled_with X 0xFD snapshot (\<lambda>d. d = snapshot))"

lemma deck_tests_pass:
  "deck_standard_has_52_cards" "deck_standard_canonical_byte_order" "deck_draw_decrements_remaining" "deck_draw_yields_all_52_distinct"
  "deck_draw_after_exhaustion_returns_none" "deck_draw_in_canonical_order_yields_byte_ascending" "deck_standard_all_unique"
  by code_simp+

lemma draws_from:
  "length (cards d) = 52 \<Longrightarrow> k + n \<le> 52 \<Longrightarrow>
   draws n (d\<lparr>cursor := of_nat k\<rparr>) = Some (take n (drop k (cards d)), d\<lparr>cursor := of_nat (k + n)\<rparr>)"
proof (induction n arbitrary: k)
  case (Suc n)
  have u: "unat (of_nat k :: u8) = k" "\<not> (52 :: u8) \<le> of_nat k" using Suc.prems by (simp_all add: unat_of_nat word_le_nat_alt)
  have "(of_nat k :: u8) + 1 = of_nat (Suc k)" by simp
  then show ?case using Suc.IH[of "Suc k"] Suc.prems
    by (simp add: Deck_draw_def u Cons_nth_drop_Suc[symmetric] ac_simps)
qed simp

lemma draws_new: "length (cards d) = 52 \<Longrightarrow> cursor d = 0 \<Longrightarrow> n \<le> 52 \<Longrightarrow>
    draws n d = Some (take n (cards d), d\<lparr>cursor := of_nat n\<rparr>)"
  using draws_from[of d 0 n] by (cases d) simp

lemma draws_standard: "n \<le> 52 \<Longrightarrow> draws n Deck_standard = Some (take n (cards Deck_standard), Deck_standard\<lparr>cursor := of_nat n\<rparr>)"
  by (intro draws_new Deck_standard_cards) (simp add: Deck_standard_def)

lemma deck_ok_drawn: "n \<le> 52 \<Longrightarrow> deck_ok (Deck_standard\<lparr>cursor := of_nat n\<rparr>)"
  by (simp add: deck_ok_def word_le_nat_alt unat_of_nat)

lemma deck_shuffle_tests_pass:
  assumes "\<And>d b. Deck_shuffle X d (from_seed (fixed_seed b)) \<noteq> None"
  shows "deck_shuffle_preserves_cardinality_and_uniqueness X" "deck_shuffle_deterministic_same_rng_same_permutation X"
    "deck_clone_independence X" "deck_shuffle_preserves_already_drawn_region X" "deck_shuffle_on_exhausted_deck_is_noop X"
    "deck_shuffle_with_one_card_undrawn_is_noop X"
proof -
  have shuffled: "shuffled_with X b d P" if ok: "deck_ok d"
    and P: "\<And>ys. mset ys = mset (drop (unat (cursor d)) (cards d)) \<Longrightarrow> P (d\<lparr>cards := take (unat (cursor d)) (cards d) @ ys\<rparr>)" for b d P
  proof -
    obtain d' r where e: "Deck_shuffle X d (from_seed (fixed_seed b)) = Some (d', r)" using assms by fastforce
    then obtain ys where ys: "shuffle X (drop (unat (cursor d)) (cards d)) (from_seed (fixed_seed b)) = Some (ys, r)"
      "d' = d\<lparr>cards := take (unat (cursor d)) (cards d) @ ys\<rparr>"
      unfolding Deck_shuffle_undrawn[OF ok] by auto
    have "length (drop (unat (cursor d)) (cards d)) < 2 ^ 64" using deck_ok_length[OF ok] by simp
    from P[OF shuffle_mset(1)[OF rng_ok_from_seed(1) this ys(1)]] show ?thesis by (simp add: shuffled_with_def e ys(2))
  qed
  have std: "deck_ok Deck_standard" "cursor Deck_standard = 0" by (simp_all add: deck_ok_def) (simp_all add: Deck_standard_def)
  show "deck_shuffle_preserves_cardinality_and_uniqueness X" unfolding deck_shuffle_preserves_cardinality_and_uniqueness_def
    by (rule shuffled[OF std(1)])
      (auto simp: std collect_all_def Deck_remaining_def distinct_card Deck_standard_cards dest: mset_eq_setD
        intro: trans[OF arg_cong[where f=card]])
  show "deck_shuffle_deterministic_same_rng_same_permutation X" unfolding deck_shuffle_deterministic_same_rng_same_permutation_def shuffled_with_def
    using assms[of Deck_standard 42] by auto
  show "deck_clone_independence X" unfolding deck_clone_independence_def Let_def
    by (rule shuffled[OF std(1)]) (simp add: Deck_remaining_def std split: prod.split)
  have drawn: "drawn_after n P = P (take n (cards Deck_standard)) (Deck_standard\<lparr>cursor := of_nat n\<rparr>)" if "n \<le> 52" for n P
    by (simp add: drawn_after_def draws_standard[OF that])
  have at: "unat (of_nat n :: u8) = n" if "n \<le> 52" for n using that by (simp add: unat_of_nat)
  have five: "card (set ys) = 47" if "mset ys = mset (drop 5 (cards Deck_standard))" for ys
    using mset_eq_setD[OF that] distinct_card[of "drop 5 (cards Deck_standard)"] Deck_standard_cards by simp
  show "deck_shuffle_preserves_already_drawn_region X"
    unfolding deck_shuffle_preserves_already_drawn_region_def drawn[of 5, simplified]
    using shuffled[OF deck_ok_drawn[of 5]] at[of 5] by (auto simp: five Deck_standard_cards)
  have noop: "drop (unat (cursor d)) (cards d) = zs \<Longrightarrow> mset ys = mset zs \<Longrightarrow> length zs \<le> 1 \<Longrightarrow>
      d\<lparr>cards := take (unat (cursor d)) (cards d) @ ys\<rparr> = d" for d :: deck and ys zs
    using append_take_drop_id[of "unat (cursor d)" "cards d"] by (cases d; cases zs) auto
  show "deck_shuffle_on_exhausted_deck_is_noop X"
    unfolding deck_shuffle_on_exhausted_deck_is_noop_def drawn[of 52, simplified]
    by (rule shuffled[OF deck_ok_drawn[of 52, simplified]], rule noop[OF refl]) (simp_all add: Deck_standard_cards)
  show "deck_shuffle_with_one_card_undrawn_is_noop X"
    unfolding deck_shuffle_with_one_card_undrawn_is_noop_def drawn[of 51, simplified]
    by (rule shuffled[OF deck_ok_drawn[of 51, simplified]], rule noop[OF refl]) (simp_all add: Deck_standard_cards)
qed

end
