(* ===== verification/Shuffle_Proof_Tests.thy ===== *)
theory Shuffle_Proof_Tests
  imports Shuffle_Proof Cards_Tests
begin

text \<open>The tests of \<^verbatim>\<open>examples/card_primitives/src/shuffle_proof.rs\<close>, for every digest that separates the inputs of the tests and
every random source for which the shuffle of the standard deck returns.  Two tests compare the orders of particular seeds; they need the
values of the source and are left out.\<close>

section \<open>Helpers of the test module\<close>

definition nontrivial_seed :: bytes where
  "nontrivial_seed = map (\<lambda>i. of_nat i * 37 + 5) [0..<32]"

definition shuffled_deck :: "xof \<Rightarrow> bytes \<Rightarrow> (deck \<Rightarrow> bool) \<Rightarrow> bool" where
  "shuffled_deck X s P = some_with (Deck_shuffle X Deck_standard (from_seed s)) (\<lambda>(d, r). P d)"

definition shuffled_order :: "xof \<Rightarrow> bytes \<Rightarrow> (bytes \<Rightarrow> bool) \<Rightarrow> bool" where
  "shuffled_order X s P = shuffled_deck X s (\<lambda>d. P (map to_byte (cards d)))"

section \<open>Commitments\<close>

definition commitment_round_trip :: "digest \<Rightarrow> bool" where
  "commitment_round_trip H = (commit_seed H nontrivial_seed = commit_seed H nontrivial_seed)"

definition commitment_avalanche_1byte_flip :: "digest \<Rightarrow> bool" where
  "commitment_avalanche_1byte_flip H = (commit_seed H nontrivial_seed \<noteq> commit_seed H (flip_first 0x01 nontrivial_seed))"

definition commitment_distinct_seeds_distinct :: "digest \<Rightarrow> bool" where
  "commitment_distinct_seeds_distinct H =
     (let c0 = commit_seed H (fixed_seed 0); c1 = commit_seed H (fixed_seed 1); c_n = commit_seed H nontrivial_seed in
      c0 \<noteq> c1 \<and> c1 \<noteq> c_n \<and> c0 \<noteq> c_n)"

section \<open>The verifiers\<close>

definition verify_shuffle_accepts_valid_proof :: "digest \<Rightarrow> xof \<Rightarrow> bool" where
  "verify_shuffle_accepts_valid_proof H X = shuffled_deck X nontrivial_seed (\<lambda>d.
     verify_shuffle H X (commit_seed H nontrivial_seed) nontrivial_seed d = Some (Inr ()))"

definition verify_shuffle_rejects_commitment_mismatch :: "digest \<Rightarrow> xof \<Rightarrow> bool" where
  "verify_shuffle_rejects_commitment_mismatch H X = shuffled_deck X nontrivial_seed (\<lambda>d.
     verify_shuffle H X (commit_seed H nontrivial_seed) (flip_first 0xFF nontrivial_seed) d = Some (Inl CommitmentMismatch))"

definition verify_shuffle_rejects_deck_mismatch :: "digest \<Rightarrow> xof \<Rightarrow> bool" where
  "verify_shuffle_rejects_deck_mismatch H X = shuffled_deck X nontrivial_seed (\<lambda>d.
     case Deck_draw d of (c, d') \<Rightarrow>
       verify_shuffle H X (commit_seed H nontrivial_seed) nontrivial_seed d' = Some (Inl DeckMismatch))"

definition verify_shuffle_order_accepts_valid_proof :: "digest \<Rightarrow> xof \<Rightarrow> bool" where
  "verify_shuffle_order_accepts_valid_proof H X = shuffled_order X nontrivial_seed (\<lambda>order.
     verify_shuffle_order H X (commit_seed H nontrivial_seed) nontrivial_seed order = Some (Inr ()))"

definition verify_shuffle_order_is_cursor_agnostic :: "digest \<Rightarrow> xof \<Rightarrow> bool" where
  "verify_shuffle_order_is_cursor_agnostic H X = shuffled_deck X nontrivial_seed (\<lambda>d.
     let commitment = commit_seed H nontrivial_seed; order = map to_byte (cards d) in
     some_with (draws 5 d) (\<lambda>(cs, d').
       verify_shuffle H X commitment nontrivial_seed d' = Some (Inl DeckMismatch)
       \<and> verify_shuffle_order H X commitment nontrivial_seed order = Some (Inr ())))"

definition verify_shuffle_order_rejects_commitment_mismatch :: "digest \<Rightarrow> xof \<Rightarrow> bool" where
  "verify_shuffle_order_rejects_commitment_mismatch H X = shuffled_order X nontrivial_seed (\<lambda>order.
     verify_shuffle_order H X (commit_seed H nontrivial_seed) (flip_first 0xFF nontrivial_seed) order = Some (Inl CommitmentMismatch))"

definition verify_shuffle_order_rejects_byte_tamper :: "digest \<Rightarrow> xof \<Rightarrow> bool" where
  "verify_shuffle_order_rejects_byte_tamper H X = shuffled_order X nontrivial_seed (\<lambda>order.
     verify_shuffle_order H X (commit_seed H nontrivial_seed) nontrivial_seed (swap order 0 1) = Some (Inl DeckMismatch))"

definition verify_shuffle_order_matches_showdown_receipt :: "digest \<Rightarrow> xof \<Rightarrow> bool" where
  "verify_shuffle_order_matches_showdown_receipt H X = shuffled_deck X nontrivial_seed (\<lambda>d.
     some_with (draws 7 d) (\<lambda>(cs, d').
       let receipt = from_deck_and_hand d' (Straight Ten) in
       verify_shuffle_order H X (commit_seed H nontrivial_seed) nontrivial_seed (deck_order receipt) = Some (Inr ())))"

section \<open>The receipt\<close>

definition showdown_receipt_chain_hash_deterministic :: "digest \<Rightarrow> xof \<Rightarrow> bool" where
  "showdown_receipt_chain_hash_deterministic H X = shuffled_deck X nontrivial_seed (\<lambda>d.
     let r1 = from_deck_and_hand d (Straight Ten); r2 = from_deck_and_hand d (Straight Ten) in r1 = r2 \<and> chain_hash H r1 = chain_hash H r2)"

definition showdown_receipt_changes_with_hand_rank :: "digest \<Rightarrow> xof \<Rightarrow> bool" where
  "showdown_receipt_changes_with_hand_rank H X = shuffled_deck X nontrivial_seed (\<lambda>d.
     let r_straight = from_deck_and_hand d (Straight Ten);
         r_flush = from_deck_and_hand d (Flush [Ace, King, Queen, Jack, Nine])
     in chain_hash H r_straight \<noteq> chain_hash H r_flush)"

definition showdown_receipt_chain_hash_includes_domain :: "digest \<Rightarrow> xof \<Rightarrow> bool" where
  "showdown_receipt_chain_hash_includes_domain H X = shuffled_deck X nontrivial_seed (\<lambda>d.
     let r = from_deck_and_hand d (Straight Ten) in
     chain_hash H r \<noteq> H (deck_order r @ to_chain_hash_bytes (Straight Ten)))"

section \<open>The tests pass\<close>

lemma seeds_differ: "nontrivial_seed \<noteq> flip_first 1 nontrivial_seed" "nontrivial_seed \<noteq> flip_first 255 nontrivial_seed"
  "fixed_seed 0 \<noteq> fixed_seed 1" "fixed_seed 1 \<noteq> nontrivial_seed" "fixed_seed 0 \<noteq> nontrivial_seed"
  by code_simp+

lemma commitment_tests_pass:
  assumes "inj H"
  shows "commitment_round_trip H" "commitment_avalanche_1byte_flip H" "commitment_distinct_seeds_distinct H"
  using assms by (simp_all add: commitment_round_trip_def commitment_avalanche_1byte_flip_def commitment_distinct_seeds_distinct_def
      commit_seed_inject inj_eq seeds_differ Let_def)

lemma shuffle_proof_tests_pass:
  assumes "inj H" "Deck_shuffle X Deck_standard (from_seed nontrivial_seed) = Some (d, r)"
  shows "verify_shuffle_accepts_valid_proof H X" "verify_shuffle_rejects_commitment_mismatch H X" "verify_shuffle_rejects_deck_mismatch H X"
    "verify_shuffle_order_accepts_valid_proof H X" "verify_shuffle_order_rejects_commitment_mismatch H X"
    "showdown_receipt_chain_hash_deterministic H X" "showdown_receipt_changes_with_hand_rank H X"
    "showdown_receipt_chain_hash_includes_domain H X"
proof -
  have c: "(commit_seed H a = commit_seed H b) = (a = b)" for a b using assms(1) by (simp add: commit_seed_inject inj_eq)
  note defs = shuffled_deck_def shuffled_order_def assms(2) some_with.simps prod.case
  have d: "deck_ok d" "cursor d = 0"
    using deck_run_invariant[OF deck_run.shuffled[OF deck_run.start assms(2)]] assms(2)
    by (auto simp: Deck_shuffle_def Deck_standard_def Let_def split: if_splits)
  show "verify_shuffle_accepts_valid_proof H X" "verify_shuffle_order_accepts_valid_proof H X"
    by (simp_all add: verify_shuffle_accepts_valid_proof_def verify_shuffle_order_accepts_valid_proof_def defs verify_shuffle_ok
        verify_shuffle_order_ok deck_bytes_def)
  show "verify_shuffle_rejects_commitment_mismatch H X" "verify_shuffle_order_rejects_commitment_mismatch H X"
    using seeds_differ(2) by (simp_all add: verify_shuffle_rejects_commitment_mismatch_def verify_shuffle_order_rejects_commitment_mismatch_def
        defs verify_shuffle_def verify_shuffle_order_def verify_commitment_def c eq_commute)
  show "verify_shuffle_rejects_deck_mismatch H X"
    by (cases d) (use d in \<open>auto simp: verify_shuffle_rejects_deck_mismatch_def defs verify_shuffle_def verify_commitment_def Deck_draw_def\<close>)
  show "showdown_receipt_chain_hash_deterministic H X"
    by (simp add: showdown_receipt_chain_hash_deterministic_def defs Let_def)
  show "showdown_receipt_changes_with_hand_rank H X"
    using assms(1) by (simp add: showdown_receipt_changes_with_hand_rank_def defs Let_def chain_hash_def from_deck_and_hand_def inj_eq
        to_chain_hash_bytes_def)
  have "length (DOMAIN_SHOWDOWN @ xs) \<noteq> length xs" for xs by (simp add: DOMAIN_SHOWDOWN_def)
  then have "DOMAIN_SHOWDOWN @ xs \<noteq> xs" for xs by metis
  then show "showdown_receipt_chain_hash_includes_domain H X"
    using assms(1) by (simp add: showdown_receipt_chain_hash_includes_domain_def defs Let_def chain_hash_def from_deck_and_hand_def inj_eq)
qed

lemma shuffle_order_tests_pass:
  assumes "inj H" "Deck_shuffle X Deck_standard (from_seed nontrivial_seed) = Some (d, r)"
  shows "verify_shuffle_order_is_cursor_agnostic H X" "verify_shuffle_order_rejects_byte_tamper H X"
    "verify_shuffle_order_matches_showdown_receipt H X"
proof -
  note defs = shuffled_deck_def shuffled_order_def assms(2) some_with.simps prod.case
  have d: "deck_ok d" "cursor d = 0"
    using deck_run_invariant[OF deck_run.shuffled[OF deck_run.start assms(2)]] assms(2)
    by (auto simp: Deck_shuffle_def Deck_standard_def Let_def split: if_splits)
  have l: "length (cards d) = 52" using deck_ok_length[OF d(1)] by simp
  note drawn = draws_new[OF l d(2)]
  have "d\<lparr>cursor := 5\<rparr> \<noteq> d" using d(2) by (cases d) simp
  then show "verify_shuffle_order_is_cursor_agnostic H X"
    by (simp add: verify_shuffle_order_is_cursor_agnostic_def defs drawn verify_shuffle_order_ok Let_def deck_bytes_def)
      (simp add: verify_shuffle_def verify_commitment_def assms(2) eq_commute)
  show "verify_shuffle_order_matches_showdown_receipt H X"
    by (simp add: verify_shuffle_order_matches_showdown_receipt_def defs drawn verify_shuffle_order_ok Let_def deck_bytes_def
        from_deck_and_hand_def)
  have "swap (map to_byte (cards d)) 0 1 \<noteq> map to_byte (cards d)"
    using swapped_order_differs[OF assms(2)] by (simp add: deck_bytes_def)
  then show "verify_shuffle_order_rejects_byte_tamper H X"
    by (simp add: verify_shuffle_order_rejects_byte_tamper_def defs verify_shuffle_order_def verify_commitment_def deck_bytes_def eq_commute)
qed

end
