(* ===== verification/Wire_Tests.thy ===== *)
theory Wire_Tests
  imports Pii Unit_Tests
begin

text \<open>The tests of \<^verbatim>\<open>typecode.rs\<close>, \<^verbatim>\<open>pii.rs\<close> and \<^verbatim>\<open>component.rs\<close> in \<^verbatim>\<open>arkhe-forge-core/src\<close>.  The hash and the codecs are
arguments; the tests that need a hash of 32 bytes, or two inputs that do not collide, have that as a hypothesis of their lemma.\<close>

section \<open>Type codes\<close>

definition room_marker_reserved_value_is_pinned :: bool where
  [test_defs]: "room_marker_reserved_value_is_pinned = (ROOM_MARKER_RESERVED = 0x00015001)"

definition room_marker_reserved_lands_in_core_entity_subrange :: bool where
  [test_defs]: "room_marker_reserved_lands_in_core_entity_subrange = in_range CORE_ENTITY ROOM_MARKER_RESERVED"

definition room_marker_reserved_does_not_collide_with_other_pinned_slots :: bool where
  [test_defs]: "room_marker_reserved_does_not_collide_with_other_pinned_slots =
     list_all (\<lambda>s. ROOM_MARKER_RESERVED \<noteq> s) [0x00010001, 0x00011001, 0x00012001, 0x00013001, 0x00014001]"

definition room_marker_reserved_does_not_overlap_core_event_range :: bool where
  [test_defs]: "room_marker_reserved_does_not_overlap_core_event_range = (\<not> in_range CORE_EVENT ROOM_MARKER_RESERVED)"

definition replica_id_allocation_typecode_pinned_at_0x0003_0f0d :: bool where
  [test_defs]: "replica_id_allocation_typecode_pinned_at_0x0003_0f0d = (REPLICA_ID_ALLOCATION = 0x00030F0D)"

definition audit_receipt_key_policy_typecode_pinned_at_0x0003_0f0e :: bool where
  [test_defs]: "audit_receipt_key_policy_typecode_pinned_at_0x0003_0f0e = (AUDIT_RECEIPT_KEY_POLICY = 0x00030F0E)"

definition forward_looking_event_typecodes_inside_core_event_range :: bool where
  [test_defs]: "forward_looking_event_typecodes_inside_core_event_range =
     list_all (in_range CORE_EVENT) [REPLICA_ID_ALLOCATION, AUDIT_RECEIPT_KEY_POLICY]"

definition forward_looking_event_typecodes_no_collision_with_existing :: bool where
  [test_defs]: "forward_looking_event_typecodes_no_collision_with_existing =
     list_all (\<lambda>new. list_all (\<lambda>old. new \<noteq> old)
         [RUNTIME_BOOTSTRAP, USER_ERASURE_SCHEDULED, USER_ERASURE_COMPLETED, BACKUP_ERASURE_PROPAGATED,
          GDPR_POLICY_VIOLATION, SIGNATURE_CLASS_POLICY, CROSS_SHELL_ACTIVITY, PER_REGION_ERASURE_PROGRESS,
          DEK_MIGRATION_COMPLETED, COMPLIANCE_TIER_CHANGE])
       [REPLICA_ID_ALLOCATION, AUDIT_RECEIPT_KEY_POLICY]"

definition forward_looking_event_typecodes_no_collision_with_core_entity_range :: bool where
  [test_defs]: "forward_looking_event_typecodes_no_collision_with_core_entity_range =
     list_all (\<lambda>c. \<not> in_range CORE_ENTITY c) [REPLICA_ID_ALLOCATION, AUDIT_RECEIPT_KEY_POLICY]"

definition forward_looking_event_typecodes_distinct :: bool where
  [test_defs]: "forward_looking_event_typecodes_distinct = (REPLICA_ID_ALLOCATION \<noteq> AUDIT_RECEIPT_KEY_POLICY)"

lemma typecode_tests_pass:
  "room_marker_reserved_value_is_pinned" "room_marker_reserved_lands_in_core_entity_subrange"
  "room_marker_reserved_does_not_collide_with_other_pinned_slots" "room_marker_reserved_does_not_overlap_core_event_range"
  "replica_id_allocation_typecode_pinned_at_0x0003_0f0d" "audit_receipt_key_policy_typecode_pinned_at_0x0003_0f0e"
  "forward_looking_event_typecodes_inside_core_event_range" "forward_looking_event_typecodes_no_collision_with_existing"
  "forward_looking_event_typecodes_no_collision_with_core_entity_range" "forward_looking_event_typecodes_distinct"
  by (simp_all add: test_defs in_range_def CORE_ENTITY_def CORE_EVENT_def ROOM_MARKER_RESERVED_def core_event_defs)

section \<open>Additional data and body hash\<close>

definition aad_is_exactly_19_bytes_and_deterministic :: bool where
  [test_defs]: "aad_is_exactly_19_bytes_and_deterministic =
     (let dek = DekId (replicate 16 0xAB);
          aad1 = compute_aad dek ACTOR_HANDLE XChaCha20Poly1305;
          aad2 = compute_aad dek ACTOR_HANDLE XChaCha20Poly1305
      in length aad1 = 19 \<and> aad1 = aad2)"

definition aad_differs_on_pii_code_change :: bool where
  [test_defs]: "aad_differs_on_pii_code_change =
     (let dek = DekId (replicate 16 0)
      in compute_aad dek ACTOR_HANDLE XChaCha20Poly1305 \<noteq> compute_aad dek ENTRY_BODY XChaCha20Poly1305)"

definition aad_differs_on_aead_kind_change :: bool where
  [test_defs]: "aad_differs_on_aead_kind_change =
     (let dek = DekId (replicate 16 0)
      in compute_aad dek ACTOR_HANDLE XChaCha20Poly1305 \<noteq> compute_aad dek ACTOR_HANDLE Aes256Gcm)"

definition aad_layout_dek_first_then_code_then_kind :: bool where
  [test_defs]: "aad_layout_dek_first_then_code_then_kind =
     (let aad = compute_aad (DekId (replicate 16 0x11)) 0xABCD Aes256GcmSiv
      in take 16 aad = replicate 16 0x11 \<and> take 2 (drop 16 aad) = [0xAB, 0xCD] \<and> aad ! 18 = aead_kind_u8 Aes256GcmSiv)"

definition body_hash_deterministic_and_32_bytes :: "(bytes \<Rightarrow> bytes) \<Rightarrow> bool" where
  [test_defs]: "body_hash_deterministic_and_32_bytes h =
     (let body = map (of_nat \<circ> of_char) ''hello world''; salt = replicate 16 0x01; nonce = replicate 16 0x02;
          h1 = compute_body_hash h body salt nonce; h2 = compute_body_hash h body salt nonce
      in h1 = h2 \<and> length h1 = 32)"

definition body_hash_differs_on_salt_change :: "(bytes \<Rightarrow> bytes) \<Rightarrow> bool" where
  [test_defs]: "body_hash_differs_on_salt_change h =
     (let body = map (of_nat \<circ> of_char) ''x''; nonce = replicate 16 0
      in compute_body_hash h body (replicate 16 0x01) nonce \<noteq> compute_body_hash h body (replicate 16 0x02) nonce)"

lemma be_bytes_2: "be_bytes 2 (w :: u16) = [ucast (drop_bit 8 w), ucast w]"
  by (simp add: be_bytes_def numeral_eq_Suc)

lemma code_bytes: "ucast (drop_bit 8 (0xABCD :: u16)) = (0xAB :: u8)" "ucast (0xABCD :: u16) = (0xCD :: u8)"
  by code_simp+

lemma aad_tests_pass:
  "aad_is_exactly_19_bytes_and_deterministic" "aad_differs_on_pii_code_change" "aad_differs_on_aead_kind_change"
  by (simp_all add: test_defs compute_aad_inject length_compute_aad pii_code_defs)

lemma aad_layout_test_passes: "aad_layout_dek_first_then_code_then_kind"
  by (simp add: test_defs compute_aad_def be_bytes_2 code_bytes nth_append)

lemma body_hash_tests_pass:
  assumes "\<And>m. length (h m) = 32"
  shows "body_hash_deterministic_and_32_bytes h"
    and "inj_on h ((\<lambda>salt. 0x78 # replicate 16 salt @ replicate 16 0) ` {1, 2}) \<Longrightarrow> body_hash_differs_on_salt_change h"
  using assms by (auto simp: test_defs compute_body_hash_def Let_def inj_on_def)

section \<open>Shell markers and the message counter\<close>

definition shell_pii_type_rejects_canonical_code :: bool where
  [test_defs]: "shell_pii_type_rejects_canonical_code =
     err_with (ShellPiiType_new 0x0050 SensMedium XChaCha20Poly1305) (\<lambda>e. e = ShellPiiCodeOutOfRange)"

definition shell_pii_type_accepts_shell_code :: bool where
  [test_defs]: "shell_pii_type_accepts_shell_code =
     ok_with (ShellPiiType_new 0x0200 SensHigh Aes256Gcm)
       (\<lambda>t. spt_pii_code t = 0x0200 \<and> spt_sensitivity t = SensHigh \<and> spt_aead_kind t = Aes256Gcm)"

definition shell_pii_registry_rejects_duplicate :: bool where
  [test_defs]: "shell_pii_registry_rejects_duplicate =
     ok_with (ShellPiiType_new 0x0300 SensLow XChaCha20Poly1305) (\<lambda>a.
     ok_with (ShellPiiType_new 0x0300 SensMedium Aes256Gcm) (\<lambda>dup. passes
       [unwraps (ShellPiiRegistry_register a),
        fails (ShellPiiRegistry_register dup) (\<lambda>e. e = ShellPiiAlreadyRegistered),
        sees (\<lambda>reg. ShellPiiRegistry_len reg = 1)] ShellPiiRegistry_new))"

definition shell_pii_registry_lookup_returns_entry :: bool where
  [test_defs]: "shell_pii_registry_lookup_returns_entry =
     ok_with (ShellPiiType_new 0x0400 SensMedium Aes256GcmSiv) (\<lambda>entry. passes
       [sees (\<lambda>reg. ShellPiiRegistry_len reg = 0), unwraps (ShellPiiRegistry_register entry),
        sees (\<lambda>reg. some_with (ShellPiiRegistry_get reg 0x0400) (\<lambda>found. spt_aead_kind found = Aes256GcmSiv)),
        sees (\<lambda>reg. ShellPiiRegistry_get reg 0x0401 = None)] ShellPiiRegistry_new)"

definition shell_pii_registry_rejects_out_of_range :: bool where
  [test_defs]: "shell_pii_registry_rejects_out_of_range = passes
     [fails (ShellPiiRegistry_register \<lparr>spt_pii_code = 0x00FF, spt_sensitivity = SensMedium, spt_aead_kind = XChaCha20Poly1305\<rparr>)
        (\<lambda>e. e = ShellPiiCodeOutOfRange)] ShellPiiRegistry_new"

definition rotation_trigger_transitions :: bool where
  [test_defs]: "rotation_trigger_transitions = passes
     [sees (\<lambda>c. rotation_trigger c = Healthy),
      calls (\<lambda>c. c\<lparr>dmc_count := push_bit 30 1\<rparr>), sees (\<lambda>c. rotation_trigger c = WarnApproachingLimit),
      calls (\<lambda>c. c\<lparr>dmc_count := push_bit 31 1\<rparr>), sees (\<lambda>c. rotation_trigger c = MustRotate)]
     (DekMessageCounter_new (DekId (replicate 16 0)))"

definition counter_saturates_at_u64_max :: bool where
  [test_defs]: "counter_saturates_at_u64_max = passes
     [calls (\<lambda>c. c\<lparr>dmc_count := 0xFFFFFFFFFFFFFFFF\<rparr>), calls record_message, sees (\<lambda>c. dmc_count c = 0xFFFFFFFFFFFFFFFF)]
     (DekMessageCounter_new (DekId (replicate 16 0)))"

lemma shell_marker_tests_pass:
  "shell_pii_type_rejects_canonical_code" "shell_pii_type_accepts_shell_code" "shell_pii_registry_rejects_duplicate"
  "shell_pii_registry_lookup_returns_entry" "shell_pii_registry_rejects_out_of_range"
  by (simp_all add: test_defs script_simps ShellPiiType_new_def shell_code_ok_def SHELL_PII_CODE_RANGE_def
      ShellPiiRegistry_register_def ShellPiiRegistry_new_def ShellPiiRegistry_len_def ShellPiiRegistry_get_def)

lemma counter_tests_pass: "rotation_trigger_transitions" "counter_saturates_at_u64_max"
  by (simp_all add: test_defs script_simps rotation_trigger_def DekMessageCounter_new_def record_message_def saturating_add_def
      push_bit_eq_mult)

section \<open>Bounded strings\<close>

definition bounded_string_accepts_within_cap :: bool where
  [test_defs]: "bounded_string_accepts_within_cap = ok_with (BoundedString_new 8 ''abcd'') (\<lambda>s. as_str s = ''abcd'')"

definition bounded_string_rejects_over_cap :: bool where
  [test_defs]: "bounded_string_rejects_over_cap =
     err_with (BoundedString_new 4 ''hello'') (\<lambda>e. case e of BS_Overflow n cap \<Rightarrow> n = 5 \<and> cap = 4)"

definition bounded_string_serde_roundtrip_postcard :: "string codec \<Rightarrow> bool" where
  [test_defs]: "bounded_string_serde_roundtrip_postcard str =
     ok_with (BoundedString_new 16 ''hello'') (\<lambda>s. some_with (BoundedString_serialize str s) (\<lambda>b.
       some_with (BoundedString_deserialize str 16 b) (\<lambda>back. s = back)))"

definition bounded_string_deserialize_rejects_over_cap_at_runtime :: "string codec \<Rightarrow> bool" where
  [test_defs]: "bounded_string_deserialize_rejects_over_cap_at_runtime str =
     ok_with (BoundedString_new 16 ''0123456789abcdef'') (\<lambda>big. some_with (BoundedString_serialize str big) (\<lambda>b.
       BoundedString_deserialize str 8 b = None))"

lemma bounded_string_tests_pass: "bounded_string_accepts_within_cap" "bounded_string_rejects_over_cap"
  by (simp_all add: test_defs BoundedString_new_def)

lemma bounded_string_serde_tests_pass:
  assumes "codec_works str"
  shows "bounded_string_serde_roundtrip_postcard str" "bounded_string_deserialize_rejects_over_cap_at_runtime str"
  using encoded_works(1,2)[OF assms]
  by (simp_all add: test_defs BoundedString_new_def BoundedString_serialize_def BoundedString_deserialize_def)

end
