(* ===== verification/Axiom_Tests.thy ===== *)
theory Axiom_Tests
  imports Service Manifest Unit_Tests
begin

text \<open>The axiom harness \<^verbatim>\<open>arkhe-forge-core/tests/axioms_e_*.rs\<close>: what the design claims of users, actors, spaces, entries,
activities and of the runtime as a whole, tested through the compute bodies.  The hash and the postcard codecs are arguments; a
lemma that runs a body assumes that the codecs work and that ids derive.  The derived serialisers alone are not tested here.\<close>

section \<open>Running the bodies\<close>

definition postcards_work :: "postcards \<Rightarrow> bool" where
  "postcards_work pc \<longleftrightarrow> codec_works (pc_user_profile pc) \<and> codec_works (pc_auth_credential pc)
     \<and> codec_works (pc_user_gdpr_state pc) \<and> codec_works (pc_actor_profile pc) \<and> codec_works (pc_user_binding pc)
     \<and> codec_works (pc_space_config pc) \<and> codec_works (pc_parent_chain_depth pc)
     \<and> codec_works (pc_activity_record pc) \<and> codec_works (pc_user_erasure_scheduled pc)"

definition ids_derive :: "blake3 \<Rightarrow> bool" where
  "ids_derive h \<longleftrightarrow> (\<forall>seed inst tc t n. derive_entity_id h seed inst tc t n \<noteq> None)"

lemma postcards_work_all:
  assumes "postcards_work pc"
  shows "codec_works (pc_user_profile pc)" "codec_works (pc_auth_credential pc)" "codec_works (pc_user_gdpr_state pc)"
    "codec_works (pc_actor_profile pc)" "codec_works (pc_user_binding pc)" "codec_works (pc_space_config pc)"
    "codec_works (pc_parent_chain_depth pc)" "codec_works (pc_activity_record pc)" "codec_works (pc_user_erasure_scheduled pc)"
  using assms by (simp_all add: postcards_work_def)

text \<open>\<^verbatim>\<open>set_component\<close>, as an operation of the working codec.\<close>
definition write_op :: "'c arkhe_type \<Rightarrow> entity_id \<Rightarrow> 'c \<Rightarrow> 'ext op" where
  "write_op C e x = SetComponent e (TYPE_CODE C) (encoded (postcard C) x) (len_u64 (encoded (postcard C) x))"

lemma set_component_runs:
  "codec_works (postcard C) \<Longrightarrow> set_component C e x c = (Inr (), c\<lparr>ops := ops c @ [write_op C e x]\<rparr>)"
  by (simp add: set_component_def encoded_works push_op_def write_op_def)

lemma emit_event_runs:
  "codec_works (postcard E) \<Longrightarrow> emit_event E ev c = (Inr (), c\<lparr>event_seq := saturating_add (event_seq c) 1,
     events := events c @ [\<lparr>er_type_code = TYPE_CODE E, er_sequence = event_seq c, er_tick = cur_tick c,
                            er_payload = encoded (postcard E) ev\<rparr>],
     ops := ops c @ [EmitEvent None (TYPE_CODE E) (encoded (postcard E) ev)]\<rparr>)"
  by (simp add: emit_event_def encoded_works)

text \<open>A read of the staged operations, newest first.\<close>
lemma staged_scan_write_op:
  "codec_works (postcard C) \<Longrightarrow> staged_scan C e (write_op C e' x # ps) = (if e' = e then Some (Inr (Some x)) else staged_scan C e ps)"
  "TYPE_CODE D \<noteq> TYPE_CODE C \<Longrightarrow> staged_scan C e (write_op D e' y # ps) = staged_scan C e ps"
  by (simp_all add: write_op_def encoded_works)

lemma next_id_runs:
  assumes "ids_derive h" "id_seq c = 0"
  shows "\<exists>i. next_id h tc c = (Inr i, c\<lparr>id_seq := 1\<rparr>) \<and> i \<noteq> 0
    \<and> derive_entity_id h (world_seed c) (instance_id c) tc (cur_tick c) 0 = Some i"
proof -
  obtain i where "derive_entity_id h (world_seed c) (instance_id c) tc (cur_tick c) 0 = Some i"
    using assms(1) by (fastforce simp: ids_derive_def)
  then show ?thesis using assms(2) by (simp add: next_id_def checked_add_def derive_entity_id_nonzero)
qed

lemma erase_user_runs:
  assumes "postcards_work pc"
  shows "compute_GdprEraseUser pc \<lparr>geu_schema_version = 1, geu_user = u\<rparr> c = (Inr (),
    (let ev = encoded (pc_user_erasure_scheduled pc) \<lparr>ues_schema_version = 1, ues_user = u, ues_scheduled_tick = cur_tick c\<rparr>
     in c\<lparr>event_seq := saturating_add (event_seq c) 1,
        events := events c @ [\<lparr>er_type_code = USER_ERASURE_SCHEDULED, er_sequence = event_seq c, er_tick = cur_tick c, er_payload = ev\<rparr>],
        ops := ops c @ [write_op (UserGdprState pc) (user_get u) \<lparr>ugs_schema_version = 1, ugs_status = ErasurePending\<rparr>,
                        EmitEvent None USER_ERASURE_SCHEDULED ev]\<rparr>))"
  using postcards_work_all[OF assms]
  by (simp add: compute_GdprEraseUser_def bnd_def ensure_schema_version_def meta_defs set_component_runs emit_event_runs Let_def)
     (simp add: UserErasureScheduled_def)

lemma register_actor_runs:
  assumes "postcards_work pc" "ids_derive h" "id_seq c = 0" "ap_schema_version p = 1"
    and "actor_by_handle c (ap_shell_id p) (ap_handle p) = None"
  shows "\<exists>i. compute_RegisterActor h pc \<lparr>ra_schema_version = 1, ra_profile = p, ra_user = u\<rparr> c = (Inr (),
    c\<lparr>id_seq := 1, ops := ops c @ [SpawnEntity i (principal c), write_op (ActorProfile pc) i p,
                                write_op (UserBinding pc) i \<lparr>ub_schema_version = 1, ub_user_id = u\<rparr>]\<rparr>)"
proof -
  obtain i where "next_id h 0x00030101 c = (Inr i, c\<lparr>id_seq := 1\<rparr>)" using next_id_runs[OF assms(2,3)] by blast
  then show ?thesis using assms(4,5) postcards_work_all[OF assms(1)]
    by (intro exI[of _ i]) (simp add: compute_RegisterActor_def bnd_def ensure_schema_version_def meta_defs set_component_runs
        spawn_entity_for_def push_op_def)
qed

lemma submit_activity_runs:
  assumes "postcards_work pc" "ids_derive h" "id_seq c = 0" "sa_schema_version s = 1" "ad_schema_version (sa_draft s) = 1"
    and "acting_actor c = Some a" "ensure_actor_eligible pc a (cur_tick c) c = Inr ()" "sa_idempotency_key s = None"
    and "\<And>i. ad_target (sa_draft s) \<noteq> TActivity i"
  shows "\<exists>i. compute_SubmitActivity h pc s c = (Inr (),
    c\<lparr>id_seq := 1, ops := ops c @ [SpawnEntity i (principal c), write_op (ActivityRecord pc) i (into_record (sa_draft s) a)]\<rparr>)"
proof -
  obtain i where i: "next_id h 0x00030401 c = (Inr i, c\<lparr>id_seq := 1\<rparr>)"
    "derive_entity_id h (world_seed c) (instance_id c) 0x00030401 (cur_tick c) 0 = Some i"
    using next_id_runs[OF assms(2,3)] by blast
  have "(case ad_target (sa_draft s) of TActivity t \<Rightarrow> guard (activity_get t \<noteq> i) e | _ \<Rightarrow> ret ()) c = (Inr (), c)" for e :: action_error
    using assms(9) by (cases "ad_target (sa_draft s)") auto
  then show ?thesis using assms(3-8) postcards_work_all[OF assms(1)] i
    by (intro exI[of _ i]) (simp add: compute_SubmitActivity_def bnd_def ensure_schema_version_def meta_defs set_component_runs
        spawn_entity_for_def push_op_def preview_next_id_for_def Let_def)
qed

text \<open>The two refusals of a space: the eligibility gate, and the parent.\<close>
lemma create_space_gated:
  assumes "cs_schema_version a = 1" "scd_schema_version (cs_config a) = 1" "acting_actor c = Some actor"
    and "ensure_actor_eligible pc actor (cur_tick c) c = Inl e"
  shows "compute_CreateSpace h pc a c = (Inl e, c)"
  using assms by (simp add: compute_CreateSpace_def bnd_def ensure_schema_version_def meta_defs)

lemma create_space_orphan:
  assumes "cs_schema_version a = 1" "scd_schema_version (cs_config a) = 1" "acting_actor c = Some actor"
    and "ensure_actor_eligible pc actor (cur_tick c) c = Inr ()" "scd_parent_space (cs_config a) = Some p" "view c = None"
  shows "compute_CreateSpace h pc a c = (Inl (InvalidInput ''parent space not found''), c)"
  using assms by (simp add: compute_CreateSpace_def bnd_def ensure_schema_version_def meta_defs child_depth_of_def read_def)

lemmas gate_evaluation = ensure_actor_eligible_def authenticated_actor_user_def user_gdpr_status_def staged_read_def
  staged_scan_write_op read_def

section \<open>The scripts\<close>

text \<open>\<^verbatim>\<open>let n = f(c); step; assert_eq!(f(c), n)\<close>\<close>
definition unchanged :: "('s \<Rightarrow> 'b) \<Rightarrow> 's step \<Rightarrow> 's step" where
  [test_defs]: "unchanged f m = (\<lambda>s. case m s of None \<Rightarrow> None | Some t \<Rightarrow> if f t = f s then Some t else None)"

fun spawned_id :: "'ext op list \<Rightarrow> entity_id option" where
  "spawned_id [] = None"
| "spawned_id (SpawnEntity i owner # ps) = Some i"
| "spawned_id (_ # ps) = spawned_id ps"

definition axiom_ctx :: "caps \<Rightarrow> u8 \<Rightarrow> tick \<Rightarrow> unit ctx" where
  [test_defs]: "axiom_ctx SYS seed t = ActionContext_new (replicate 32 seed) 1 t System SYS"

definition ctx_user :: "caps \<Rightarrow> unit ctx" where
  [test_defs]: "ctx_user SYS = axiom_ctx SYS 0x11 100"

section \<open>Users\<close>

definition e_user_1_profile_type_code_pinned :: "postcards \<Rightarrow> bool" where
  [test_defs]: "e_user_1_profile_type_code_pinned pc = (TYPE_CODE (UserProfile pc) = 0x00030001 \<and> SCHEMA_VERSION (UserProfile pc) = 1)"

definition e_user_2_kdf_minima_enforced :: bool where
  [test_defs]: "e_user_2_kdf_minima_enforced =
     (\<not> validate_kdf_params Argon2id \<lparr>m_cost = 1024, t_cost = 1, p_cost = 1\<rparr>
      \<and> validate_kdf_params Argon2id \<lparr>m_cost = MIN_ARGON2ID_M_COST, t_cost = MIN_ARGON2ID_T_COST, p_cost = MIN_ARGON2ID_P_COST\<rparr>)"

definition is_invalid_input :: "action_error \<Rightarrow> bool" where
  [test_defs]: "is_invalid_input e = (case e of InvalidInput _ \<Rightarrow> True | _ \<Rightarrow> False)"

definition e_user_2_register_rejects_weak_kdf :: "blake3 \<Rightarrow> postcards \<Rightarrow> caps \<Rightarrow> bool" where
  [test_defs]: "e_user_2_register_rejects_weak_kdf h pc SYS = passes
     [fails (compute_RegisterUser h pc \<lparr>ru_schema_version = 1,
        ru_profile = \<lparr>up_schema_version = 1, up_created_tick = 0, up_primary_auth_kind = Passkey\<rparr>,
        ru_credential = \<lparr>ac_schema_version = 1, ac_kind = Passkey, ac_kdf = Argon2id, ac_salt = replicate 16 0,
          ac_credential_hash = replicate 32 0, ac_kdf_params = \<lparr>m_cost = 1024, t_cost = 1, p_cost = 1\<rparr>,
          ac_expires_tick = None, ac_bound_tick = 0\<rparr>\<rparr>) is_invalid_input]
     (ctx_user SYS)"

definition e_user_3_gdpr_erase_emits_lease_event :: "postcards \<Rightarrow> caps \<Rightarrow> bool" where
  [test_defs]: "e_user_3_gdpr_erase_emits_lease_event pc SYS = passes
     [unwraps (compute_GdprEraseUser pc \<lparr>geu_schema_version = 1, geu_user = UserId 42\<rparr>),
      sees (\<lambda>c. ok_with (staged_read (UserGdprState pc) 42 c) (\<lambda>r. some_with r (\<lambda>staged. ugs_status staged = ErasurePending))),
      takes drain_events (\<lambda>es. length es = 1 \<and> er_type_code (es ! 0) = TYPE_CODE (UserErasureScheduled pc)
        \<and> er_tick (es ! 0) = 100)]
     (ctx_user SYS)"

definition e_user_4_user_id_non_zero_at_the_type_level :: bool where
  [test_defs]: "e_user_4_user_id_non_zero_at_the_type_level =
     (EntityId_new 0 = None \<and> some_with (EntityId_new 1) (\<lambda>i. user_get (UserId i) = 1))"

definition forbidden_space :: create_space where
  [test_defs]: "forbidden_space = \<lparr>cs_schema_version = 1, cs_config =
     \<lparr>scd_schema_version = 1, scd_shell_id = ShellId (replicate 16 0xC3), scd_slug = BoundedString ''forbidden'', scd_kind = Flat,
      scd_visibility = Public, scd_parent_space = None, scd_created_tick = 100\<rparr>\<rparr>"

definition e_user_3_c3_erasing_actor_compute_rejects :: "blake3 \<Rightarrow> postcards \<Rightarrow> caps \<Rightarrow> bool" where
  [test_defs]: "e_user_3_c3_erasing_actor_compute_rejects h pc SYS = (let user = UserId 7; actor = ActorId 8 in passes
     [unwraps (set_component (UserBinding pc) (actor_get actor) \<lparr>ub_schema_version = 1, ub_user_id = user\<rparr>),
      unwraps (set_component (UserGdprState pc) (user_get user) \<lparr>ugs_schema_version = 1, ugs_status = ErasurePending\<rparr>),
      calls (with_actor (Some actor)),
      unchanged (\<lambda>c. length (ops c)) (fails (compute_CreateSpace h pc forbidden_space) (\<lambda>e. e = UserErasurePending user 100))]
     (ctx_user SYS))"

definition e_user_3_c3_gate_is_live_through_production_binding :: "blake3 \<Rightarrow> postcards \<Rightarrow> caps \<Rightarrow> bool" where
  [test_defs]: "e_user_3_c3_gate_is_live_through_production_binding h pc SYS = (let user = UserId 7 in passes
     [unwraps (compute_RegisterActor h pc \<lparr>ra_schema_version = 1, ra_profile = \<lparr>ap_schema_version = 1,
        ap_shell_id = ShellId (replicate 16 0xC3), ap_handle = BoundedString ''alice'', ap_kind = Human, ap_created_tick = 100\<rparr>,
        ra_user = user\<rparr>),
      sees (\<lambda>c. spawned_id (ops c) \<noteq> None),
      unwraps (compute_GdprEraseUser pc \<lparr>geu_schema_version = 1, geu_user = user\<rparr>),
      calls (\<lambda>c. with_actor (map_option ActorId (spawned_id (ops c))) c),
      fails (compute_CreateSpace h pc forbidden_space) (\<lambda>e. case e of UserErasurePending u _ \<Rightarrow> u = user | _ \<Rightarrow> False)]
     (ctx_user SYS))"

definition e_user_3_c3_binding_to_lifecycle_less_user_rejects :: "blake3 \<Rightarrow> postcards \<Rightarrow> caps \<Rightarrow> bool" where
  [test_defs]: "e_user_3_c3_binding_to_lifecycle_less_user_rejects h pc SYS = (let user = UserId 7; actor = ActorId 8 in passes
     [unwraps (set_component (UserBinding pc) (actor_get actor) \<lparr>ub_schema_version = 1, ub_user_id = user\<rparr>),
      calls (with_actor (Some actor)),
      fails (compute_CreateSpace h pc forbidden_space) (\<lambda>e. e = UserLifecycleUnresolved user)]
     (ctx_user SYS))"

definition e_user_3_c3_erased_actor_compute_rejects :: "blake3 \<Rightarrow> postcards \<Rightarrow> caps \<Rightarrow> bool" where
  [test_defs]: "e_user_3_c3_erased_actor_compute_rejects h pc SYS = (let user = UserId 7; actor = ActorId 8 in passes
     [unwraps (set_component (UserBinding pc) (actor_get actor) \<lparr>ub_schema_version = 1, ub_user_id = user\<rparr>),
      unwraps (set_component (UserGdprState pc) (user_get user) \<lparr>ugs_schema_version = 1, ugs_status = Erased\<rparr>),
      calls (with_actor (Some actor)),
      fails (compute_CreateSpace h pc forbidden_space) (\<lambda>e. case e of UserErasurePending u _ \<Rightarrow> u = user | _ \<Rightarrow> False)]
     (ctx_user SYS))"

lemma user_shape_axioms_pass:
  "e_user_1_profile_type_code_pinned pc" "e_user_2_kdf_minima_enforced" "e_user_2_register_rejects_weak_kdf h pc SYS"
  "e_user_4_user_id_non_zero_at_the_type_level"
  by (simp_all add: test_defs script_simps kdf_min_defs compute_RegisterUser_def bnd_def ensure_schema_version_def meta_defs
      EntityId_new_def ActionContext_new_def)

lemma user_erasure_axioms_pass:
  assumes "postcards_work pc"
  shows "e_user_3_gdpr_erase_emits_lease_event pc SYS" "e_user_3_c3_erasing_actor_compute_rejects h pc SYS"
    "e_user_3_c3_binding_to_lifecycle_less_user_rejects h pc SYS" "e_user_3_c3_erased_actor_compute_rejects h pc SYS"
  using postcards_work_all[OF assms]
  by (simp_all add: test_defs script_simps erase_user_runs[OF assms] ActionContext_new_def drain_events_def Let_def
      UserErasureScheduled_def gate_evaluation set_component_runs with_actor_def create_space_gated)

lemma erasure_gate_axiom_passes:
  assumes "postcards_work pc" "ids_derive h"
  shows "e_user_3_c3_gate_is_live_through_production_binding h pc SYS"
proof -
  let ?p = "\<lparr>ap_schema_version = 1, ap_shell_id = ShellId (replicate 16 0xC3), ap_handle = BoundedString ''alice'', ap_kind = Human,
    ap_created_tick = 100\<rparr>"
  obtain i where "compute_RegisterActor h pc \<lparr>ra_schema_version = 1, ra_profile = ?p, ra_user = UserId 7\<rparr> (ctx_user SYS) = (Inr (),
      (ctx_user SYS)\<lparr>id_seq := 1, ops := [SpawnEntity i System, write_op (ActorProfile pc) i ?p,
         write_op (UserBinding pc) i \<lparr>ub_schema_version = 1, ub_user_id = UserId 7\<rparr>]\<rparr>)"
    using register_actor_runs[OF assms, of "ctx_user SYS" ?p "UserId 7"]
    by (auto simp: ctx_user_def axiom_ctx_def ActionContext_new_def actor_by_handle_def)
  then show ?thesis using postcards_work_all[OF assms(1)]
    by (simp add: e_user_3_c3_gate_is_live_through_production_binding_def Let_def script_simps erase_user_runs[OF assms(1)]
        with_actor_def create_space_gated forbidden_space_def gate_evaluation ctx_user_def axiom_ctx_def ActionContext_new_def)
qed

section \<open>Actors\<close>

definition e_actor_1_profile_type_code_pinned :: "postcards \<Rightarrow> bool" where
  [test_defs]: "e_actor_1_profile_type_code_pinned pc = (TYPE_CODE (ActorProfile pc) = 0x00030101 \<and> SCHEMA_VERSION (ActorProfile pc) = 1)"

definition e_actor_2_typestate_chain_consumes_self :: bool where
  [test_defs]: "e_actor_2_typestate_chain_consumes_self =
     (let i = ActorId 1; anon = Actor_new_anonymous i
      in some_with (Actor_authenticate anon (UserId 2)) (\<lambda>auth. some_with (Actor_suspend auth) (\<lambda>susp. ah_id susp = i))
       \<and> ActorState_NAME StAnonymous = ''anonymous'' \<and> ActorState_NAME StAuthenticated = ''authenticated''
       \<and> ActorState_NAME StSuspended = ''suspended'')"

definition e_actor_3_profile_handle_is_bounded_32 :: bool where
  [test_defs]: "e_actor_3_profile_handle_is_bounded_32 = is_err (BoundedString_new 32 (concat (replicate 33 ''x'')))"

definition e_actor_4_brand_scope_encapsulation :: bool where
  [test_defs]: "e_actor_4_brand_scope_encapsulation =
     (ah_id (Actor_new_anonymous (ActorId 7)) = ah_id (Actor_new_anonymous (ActorId 7)))"

text \<open>The test's index: a list of occupants, looked up in order.\<close>
type_synonym occupants = "(shell_id \<times> bounded_string \<times> actor_id) list"

definition mock_lookup :: "occupants \<Rightarrow> handle_lookup_fn" where
  [test_defs]: "mock_lookup occupants = (\<lambda>shell hnd. map_option (\<lambda>(s, n, a). a) (find (\<lambda>(s, n, a). s = shell \<and> n = hnd) occupants))"

text \<open>The decision the test takes from a lookup, as the compute body does.\<close>
definition collision_decision :: "'ext ctx \<Rightarrow> shell_id \<Rightarrow> bounded_string \<Rightarrow> action_error + unit" where
  [test_defs]: "collision_decision c shell hnd =
     (case actor_by_handle c shell hnd of Some _ \<Rightarrow> Inl (ActorHandleCollision shell hnd) | None \<Rightarrow> Inr ())"

definition e_actor_3_handle_collision_compute_rejects :: "blake3 \<Rightarrow> postcards \<Rightarrow> caps \<Rightarrow> bool" where
  [test_defs]: "e_actor_3_handle_collision_compute_rejects h pc SYS =
     (let shell_a = ShellId (replicate 16 0xAA); shell_b = ShellId (replicate 16 0xBB);
          alice_name = BoundedString ''alice''; bob_name = BoundedString ''bob''; alice = ActorId 99;
          c = with_actor_handle_index (mock_lookup [(shell_a, alice_name, alice)]) (axiom_ctx SYS 0x44 7)
      in actor_by_handle c shell_a alice_name = Some alice \<and> actor_by_handle c shell_a bob_name = None
       \<and> actor_by_handle c shell_b alice_name = None
       \<and> err_with (collision_decision c shell_a alice_name) (\<lambda>e. e = ActorHandleCollision shell_a alice_name)
       \<and> is_ok (collision_decision c shell_a bob_name)
       \<and> passes [fails (compute_RegisterActor h pc \<lparr>ra_schema_version = 1, ra_profile = \<lparr>ap_schema_version = 1,
             ap_shell_id = shell_a, ap_handle = alice_name, ap_kind = Human, ap_created_tick = 7\<rparr>, ra_user = UserId 2\<rparr>)
             (\<lambda>e. e = ActorHandleCollision shell_a alice_name), sees (\<lambda>c. ops c = [])] c)"

definition e_actor_2_register_actor_writes_production_user_binding :: "blake3 \<Rightarrow> postcards \<Rightarrow> caps \<Rightarrow> bool" where
  [test_defs]: "e_actor_2_register_actor_writes_production_user_binding h pc SYS = (let user = UserId 7 in passes
     [unwraps (compute_RegisterActor h pc \<lparr>ra_schema_version = 1, ra_profile = \<lparr>ap_schema_version = 1,
        ap_shell_id = ShellId (replicate 16 0xAB), ap_handle = BoundedString ''alice'', ap_kind = Human, ap_created_tick = 7\<rparr>,
        ra_user = user\<rparr>),
      sees (\<lambda>c. some_with (spawned_id (ops c)) (\<lambda>i. ok_with (authenticated_actor_user pc (ActorId i) c) (\<lambda>r.
        some_with r (\<lambda>resolved. resolved = user))))]
     (axiom_ctx SYS 0x44 7))"

lemma actor_shape_axioms_pass:
  "e_actor_1_profile_type_code_pinned pc" "e_actor_2_typestate_chain_consumes_self" "e_actor_3_profile_handle_is_bounded_32"
  "e_actor_4_brand_scope_encapsulation" "e_actor_3_handle_collision_compute_rejects h pc SYS"
  by (simp_all add: test_defs script_simps Actor_new_anonymous_def Actor_authenticate_def Actor_suspend_def BoundedString_new_def
      Let_def actor_by_handle_def with_actor_handle_index_def ActionContext_new_def compute_RegisterActor_def bnd_def
      ensure_schema_version_def meta_defs length_concat sum_list_replicate arkhe_type_defs del: concat_replicate_trivial)

lemma actor_binding_axiom_passes:
  assumes "postcards_work pc" "ids_derive h"
  shows "e_actor_2_register_actor_writes_production_user_binding h pc SYS"
proof -
  let ?c = "axiom_ctx SYS 0x44 7"
  let ?p = "\<lparr>ap_schema_version = 1, ap_shell_id = ShellId (replicate 16 0xAB), ap_handle = BoundedString ''alice'', ap_kind = Human,
    ap_created_tick = 7\<rparr>"
  have c: "ops ?c = []" "id_seq ?c = 0" "principal ?c = System" "actor_by_handle ?c s n = None" for s n
    by (simp_all add: axiom_ctx_def ActionContext_new_def actor_by_handle_def)
  obtain i where "compute_RegisterActor h pc \<lparr>ra_schema_version = 1, ra_profile = ?p, ra_user = UserId 7\<rparr> ?c = (Inr (),
      ?c\<lparr>id_seq := 1, ops := [SpawnEntity i System, write_op (ActorProfile pc) i ?p,
         write_op (UserBinding pc) i \<lparr>ub_schema_version = 1, ub_user_id = UserId 7\<rparr>]\<rparr>)"
    using register_actor_runs[OF assms, of ?c ?p "UserId 7"] by (auto simp: c)
  then show ?thesis using postcards_work_all[OF assms(1)]
    by (simp add: e_actor_2_register_actor_writes_production_user_binding_def Let_def script_simps gate_evaluation write_op_def
        encoded_works)
qed

section \<open>Spaces and entries\<close>

text \<open>The trait constants of the components that no compute body writes.\<close>
definition SpaceMembership :: "space_membership codec \<Rightarrow> space_membership arkhe_type" where
  "SpaceMembership c = \<lparr>TYPE_CODE = 0x00030203, SCHEMA_VERSION = 1, postcard = c\<rparr>"
definition EntryCore :: "entry_core codec \<Rightarrow> entry_core arkhe_type" where
  "EntryCore c = \<lparr>TYPE_CODE = 0x00030301, SCHEMA_VERSION = 1, postcard = c\<rparr>"
definition EntryBody :: "entry_body codec \<Rightarrow> entry_body arkhe_type" where
  "EntryBody c = \<lparr>TYPE_CODE = 0x00030302, SCHEMA_VERSION = 1, postcard = c\<rparr>"
definition EntryParentDepth :: "entry_parent_depth codec \<Rightarrow> entry_parent_depth arkhe_type" where
  "EntryParentDepth c = \<lparr>TYPE_CODE = 0x00030303, SCHEMA_VERSION = 1, postcard = c\<rparr>"
definition EntityShellId :: "entity_shell_id codec \<Rightarrow> entity_shell_id arkhe_type" where
  "EntityShellId c = \<lparr>TYPE_CODE = 0x00030402, SCHEMA_VERSION = 1, postcard = c\<rparr>"

lemmas component_type_defs = SpaceMembership_def EntryCore_def EntryBody_def EntryParentDepth_def EntityShellId_def

definition base_draft_space :: "shell_id \<Rightarrow> string \<Rightarrow> space_config_draft" where
  [test_defs]: "base_draft_space shell slug = \<lparr>scd_schema_version = 1, scd_shell_id = shell, scd_slug = BoundedString slug,
     scd_kind = Flat, scd_visibility = Public, scd_parent_space = None, scd_created_tick = 0\<rparr>"

definition base_config :: "shell_id \<Rightarrow> string \<Rightarrow> space_config" where
  [test_defs]: "base_config shell slug = \<lparr>sc_schema_version = 1, sc_shell_id = shell, sc_slug = BoundedString slug,
     sc_kind = Flat, sc_visibility = Public, sc_creator = ActorId 1, sc_parent_space = None, sc_created_tick = 0\<rparr>"

definition e_space_1_config_type_code_pinned :: "postcards \<Rightarrow> bool" where
  [test_defs]: "e_space_1_config_type_code_pinned pc = (TYPE_CODE (SpaceConfig pc) = 0x00030201 \<and> SCHEMA_VERSION (SpaceConfig pc) = 1)"

definition e_space_2_config_holds_shell_id :: bool where
  [test_defs]: "e_space_2_config_holds_shell_id =
     (let shell = ShellId (replicate 16 0x11) in sc_shell_id (base_config shell ''general'') = shell)"

definition e_space_3_parent_chain_depth_component_exposed :: "postcards \<Rightarrow> bool" where
  [test_defs]: "e_space_3_parent_chain_depth_component_exposed pc =
     (TYPE_CODE (ParentChainDepth pc) = 0x00030202
      \<and> pcd_depth \<lparr>pcd_schema_version = 1, pcd_depth = 63\<rparr> < MAX_SPACE_DEPTH)"

definition e_space_4_depth_cap_is_sixty_four :: bool where
  [test_defs]: "e_space_4_depth_cap_is_sixty_four = (MAX_SPACE_DEPTH = 64)"

definition e_space_5_creator_field_typed_as_actor_id :: bool where
  [test_defs]: "e_space_5_creator_field_typed_as_actor_id =
     (sc_creator (base_config (ShellId (replicate 16 0x01)) ''music'') = ActorId 1)"

definition e_space_6_extension_kind_requires_type_code :: bool where
  [test_defs]: "e_space_6_extension_kind_requires_type_code =
     (case SpaceExtension 0x01000001 of SpaceExtension tc \<Rightarrow> tc = 0x01000001 | _ \<Rightarrow> False)"

definition e_space_4_compute_rejects_missing_parent_view :: "blake3 \<Rightarrow> postcards \<Rightarrow> caps \<Rightarrow> bool" where
  [test_defs]: "e_space_4_compute_rejects_missing_parent_view h pc SYS = passes
     [fails (compute_CreateSpace h pc \<lparr>cs_schema_version = 1,
        cs_config = (base_draft_space (ShellId (replicate 16 0x01)) ''child'')\<lparr>scd_parent_space := Some (SpaceId 99)\<rparr>\<rparr>)
        is_invalid_input]
     (with_actor (Some (ActorId 1)) (axiom_ctx SYS 0x11 1))"

lemma space_axioms_pass:
  "e_space_1_config_type_code_pinned pc" "e_space_2_config_holds_shell_id" "e_space_3_parent_chain_depth_component_exposed pc"
  "e_space_4_depth_cap_is_sixty_four" "e_space_5_creator_field_typed_as_actor_id" "e_space_6_extension_kind_requires_type_code"
  "e_space_4_compute_rejects_missing_parent_view h pc SYS"
  by (simp_all add: test_defs arkhe_type_defs MAX_SPACE_DEPTH_def Let_def script_simps create_space_orphan with_actor_def
      ActionContext_new_def gate_evaluation)

definition base_core :: "shell_id \<Rightarrow> entry_core" where
  [test_defs]: "base_core shell = \<lparr>ec_schema_version = 1, ec_shell_id = shell, ec_space_id = SpaceId 1, ec_author_id = ActorId 2,
     ec_parent_entry = None, ec_relay_of = None, ec_relay_kind = None, ec_created_tick = 10\<rparr>"

definition e_entry_1_core_type_code_pinned :: "entry_core codec \<Rightarrow> bool" where
  [test_defs]: "e_entry_1_core_type_code_pinned c = (TYPE_CODE (EntryCore c) = 0x00030301 \<and> SCHEMA_VERSION (EntryCore c) = 1)"

definition e_entry_2_core_binds_author_and_space :: bool where
  [test_defs]: "e_entry_2_core_binds_author_and_space =
     (let shell = ShellId (replicate 16 0x22); ec = base_core shell
      in ec_shell_id ec = shell \<and> ec_author_id ec = ActorId 2 \<and> ec_space_id ec = SpaceId 1)"

definition e_entry_3_parent_depth_cache_exposed :: "entry_parent_depth codec \<Rightarrow> bool" where
  [test_defs]: "e_entry_3_parent_depth_cache_exposed c =
     (TYPE_CODE (EntryParentDepth c) = 0x00030303 \<and> epd_depth \<lparr>epd_schema_version = 1, epd_depth = 63\<rparr> < MAX_ENTRY_DEPTH)"

text \<open>\<^verbatim>\<open>#[repr(u8)]\<close>: the discriminants in declaration order.\<close>
fun relay_kind_u8 :: "relay_kind \<Rightarrow> u8" where
  "relay_kind_u8 Plain = 0"
| "relay_kind_u8 Quote = 1"

definition e_entry_4_relay_kind_pinned_discriminants :: bool where
  [test_defs]: "e_entry_4_relay_kind_pinned_discriminants =
     (relay_kind_u8 Plain = 0 \<and> relay_kind_u8 Quote = 1
      \<and> ec_relay_of ((base_core (ShellId (replicate 16 0)))\<lparr>ec_relay_of := Some (EntryId 99), ec_relay_kind := Some Quote\<rparr>) \<noteq> None)"

definition e_entry_5_body_is_separate_component :: "entry_body codec \<Rightarrow> bool" where
  [test_defs]: "e_entry_5_body_is_separate_component c =
     (TYPE_CODE (EntryBody c) = 0x00030302
      \<and> eb_edit_seq \<lparr>eb_schema_version = 1, eb_title = None, eb_body_hash = replicate 32 0, eb_body_cipher_meta = None,
           eb_edit_seq = 0\<rparr> = 0)"

definition e_entry_6_edit_seq_is_unsigned_monotone_type :: bool where
  [test_defs]: "e_entry_6_edit_seq_is_unsigned_monotone_type =
     (let b0 = \<lparr>eb_schema_version = 1, eb_title = Some (BoundedString ''v0''), eb_body_hash = replicate 32 0,
                eb_body_cipher_meta = None, eb_edit_seq = 0\<rparr>;
          b1 = b0\<lparr>eb_edit_seq := eb_edit_seq b0 + 1\<rparr>
      in eb_edit_seq b1 > eb_edit_seq b0)"

lemma entry_axioms_pass:
  "e_entry_1_core_type_code_pinned c1" "e_entry_2_core_binds_author_and_space" "e_entry_3_parent_depth_cache_exposed c2"
  "e_entry_4_relay_kind_pinned_discriminants" "e_entry_5_body_is_separate_component c3"
  "e_entry_6_edit_seq_is_unsigned_monotone_type"
  by (simp_all add: test_defs component_type_defs MAX_ENTRY_DEPTH_def Let_def)

section \<open>Activities\<close>

definition LIKE :: verb_code where
  [test_defs]: "LIKE = VerbCode_canonical (''LIKE'', 0x00020001)"

definition base_draft :: activity_draft where
  [test_defs]: "base_draft = \<lparr>ad_schema_version = 1, ad_shell_id = ShellId (replicate 16 0), ad_verb = LIKE,
     ad_target = TEntry (EntryId 2), ad_at_tick = 5, ad_status = ActActive, ad_extra_bytes = []\<rparr>"

definition ctx_act :: "caps \<Rightarrow> unit ctx" where
  [test_defs]: "ctx_act SYS = axiom_ctx SYS 0x33 7"

definition actor_ctx :: "caps \<Rightarrow> unit ctx" where
  [test_defs]: "actor_ctx SYS = with_actor (Some (ActorId 1)) (ctx_act SYS)"

definition e_act_1_target_key_distinguishes_kind_and_target_shell :: bool where
  [test_defs]: "e_act_1_target_key_distinguishes_kind_and_target_shell =
     (let shell_a = ShellId (replicate 16 0xAA); shell_b = ShellId (replicate 16 0xBB); entry = TEntry (EntryId 3);
          ka = key_with_shell entry shell_a; kb = key_with_shell entry shell_b
      in ka \<noteq> kb \<and> tk_kind_code (key_with_shell (TActor (ActorId 3)) shell_a) \<noteq> tk_kind_code ka)"

definition e_act_4_activity_status_has_active_and_retracted_variants :: "activity_status codec \<Rightarrow> bool" where
  [test_defs]: "e_act_4_activity_status_has_active_and_retracted_variants c =
     (encoded c ActActive \<noteq> encoded c (ActRetracted 9) \<and> am_schema_version RetractActivity_meta = 1
      \<and> am_type_code RetractActivity_meta = 0x00010402 \<and> am_band RetractActivity_meta = 1)"

definition e_act_5_appeal_depth_hard_cap :: bool where
  [test_defs]: "e_act_5_appeal_depth_hard_cap =
     (APPEAL_MAX_DEPTH_CAP = 8 \<and> (case TActivity (ActivityId 3) of TActivity _ \<Rightarrow> True | _ \<Rightarrow> False))"

definition e_act_6_verb_code_range_partitioning :: bool where
  [test_defs]: "e_act_6_verb_code_range_partitioning =
     some_with (ShellVerb_try_new 0x00020400) (\<lambda>w. let custom = VerbCode_shell w in
       LIKE \<noteq> custom \<and> verb_code_code LIKE = 0x00020001 \<and> verb_code_code custom = 0x00020400)"

definition submit_activity_compute_smoke :: "blake3 \<Rightarrow> postcards \<Rightarrow> caps \<Rightarrow> bool" where
  [test_defs]: "submit_activity_compute_smoke h pc SYS = passes
     [unwraps (compute_SubmitActivity h pc \<lparr>sa_schema_version = 1, sa_draft = base_draft, sa_idempotency_key = None\<rparr>)]
     (actor_ctx SYS)"

definition retract_activity_compute_no_op_skeleton :: "caps \<Rightarrow> bool" where
  [test_defs]: "retract_activity_compute_no_op_skeleton SYS = passes
     [unwraps (compute_RetractActivity \<lparr>rta_schema_version = 1, rta_activity = ActivityId 10\<rparr>), sees (\<lambda>c. events c = [])]
     (ctx_act SYS)"

definition e_act_5_self_loop_compute_rejects :: "blake3 \<Rightarrow> postcards \<Rightarrow> caps \<Rightarrow> bool" where
  [test_defs]: "e_act_5_self_loop_compute_rejects h pc SYS =
     (let c = actor_ctx SYS in ok_with (preview_next_id_for h (ActivityRecord pc) c) (\<lambda>predicted. passes
       [fails (compute_SubmitActivity h pc \<lparr>sa_schema_version = 1,
          sa_draft = base_draft\<lparr>ad_target := TActivity (ActivityId predicted)\<rparr>, sa_idempotency_key = None\<rparr>) is_invalid_input,
        sees (\<lambda>c. ops c = [])] c))"

text \<open>The decision the test takes from the staged shell of an entity.\<close>
definition reassign_decision ::
  "entity_shell_id codec \<Rightarrow> entity_id \<Rightarrow> entity_shell_id \<Rightarrow> 'ext ctx \<Rightarrow> action_error + unit" where
  [test_defs]: "reassign_decision cd target attempt c =
     (case staged_read (EntityShellId cd) target c of
        Inl e \<Rightarrow> Inl e
      | Inr (Some prior) \<Rightarrow>
          if esi_shell_id prior \<noteq> esi_shell_id attempt
          then Inl (EntityShellIdReassign target (esi_shell_id prior) (esi_shell_id attempt)) else Inr ()
      | Inr None \<Rightarrow> Inr ())"

definition e_act_7_entity_shell_id_reassign_compute_rejects :: "entity_shell_id codec \<Rightarrow> caps \<Rightarrow> bool" where
  [test_defs]: "e_act_7_entity_shell_id_reassign_compute_rejects cd SYS =
     (let target = 0xE7; shell_a = ShellId (replicate 16 0xAA); shell_b = ShellId (replicate 16 0xBB) in passes
       [unwraps (set_component (EntityShellId cd) target \<lparr>esi_schema_version = 1, esi_shell_id = shell_a\<rparr>),
        sees (\<lambda>c. ok_with (staged_read (EntityShellId cd) target c) (\<lambda>r. some_with r (\<lambda>observed. esi_shell_id observed = shell_a))),
        sees (\<lambda>c. is_ok (reassign_decision cd target \<lparr>esi_schema_version = 1, esi_shell_id = shell_a\<rparr> c)),
        sees (\<lambda>c. err_with (reassign_decision cd target \<lparr>esi_schema_version = 1, esi_shell_id = shell_b\<rparr> c)
          (\<lambda>e. e = EntityShellIdReassign target shell_a shell_b))]
       (ctx_act SYS))"

lemma activity_shape_axioms_pass:
  "e_act_1_target_key_distinguishes_kind_and_target_shell" "e_act_5_appeal_depth_hard_cap" "e_act_6_verb_code_range_partitioning"
  "retract_activity_compute_no_op_skeleton SYS"
  "codec_works cs \<Longrightarrow> e_act_4_activity_status_has_active_and_retracted_variants cs"
  "codec_works ce \<Longrightarrow> e_act_7_entity_shell_id_reassign_compute_rejects ce SYS"
  by (simp_all add: test_defs script_simps key_with_shell_def APPEAL_MAX_DEPTH_CAP_def ShellVerb_try_new_def VerbCode_shell_def
      VerbCode_canonical_def compute_RetractActivity_eq ActionContext_new_def meta_defs encoded_works Let_def)
     (simp add: set_component_runs staged_read_def staged_scan_write_op component_type_defs)

lemma submit_activity_axioms_pass:
  assumes "postcards_work pc" "ids_derive h"
  shows "submit_activity_compute_smoke h pc SYS" "e_act_5_self_loop_compute_rejects h pc SYS"
proof -
  let ?c = "actor_ctx SYS"
  have c: "id_seq ?c = 0" "acting_actor ?c = Some (ActorId 1)" "view ?c = None" "ops ?c = []"
    by (simp_all add: actor_ctx_def ctx_act_def axiom_ctx_def ActionContext_new_def with_actor_def)
  have gate: "ensure_actor_eligible pc (ActorId 1) t ?c = Inr ()" for t by (simp add: gate_evaluation c)
  have "\<exists>i. compute_SubmitActivity h pc \<lparr>sa_schema_version = 1, sa_draft = base_draft, sa_idempotency_key = None\<rparr> ?c = (Inr (),
    ?c\<lparr>id_seq := 1, ops := ops ?c @ [SpawnEntity i (principal ?c), write_op (ActivityRecord pc) i (into_record base_draft (ActorId 1))]\<rparr>)"
    using submit_activity_runs[OF assms, of ?c "\<lparr>sa_schema_version = 1, sa_draft = base_draft, sa_idempotency_key = None\<rparr>" "ActorId 1"]
    by (simp add: c gate base_draft_def)
  then show "submit_activity_compute_smoke h pc SYS" by (auto simp: submit_activity_compute_smoke_def yields_def)
  obtain i where "derive_entity_id h (world_seed ?c) (instance_id ?c) 0x00030401 (cur_tick ?c) 0 = Some i"
    using next_id_runs[OF assms(2) c(1)] by blast
  then show "e_act_5_self_loop_compute_rejects h pc SYS"
    by (simp add: e_act_5_self_loop_compute_rejects_def Let_def preview_next_id_for_def c script_simps compute_SubmitActivity_def
        bnd_def ensure_schema_version_def meta_defs gate base_draft_def is_invalid_input_def)
qed

section \<open>The runtime\<close>

text \<open>The trait constants of the core events that no modelled operation emits.\<close>
definition UserErasureCompleted :: "user_erasure_completed codec \<Rightarrow> user_erasure_completed arkhe_type" where
  "UserErasureCompleted c = \<lparr>TYPE_CODE = 0x00030F03, SCHEMA_VERSION = 1, postcard = c\<rparr>"
definition BackupErasurePropagated :: "backup_erasure_propagated codec \<Rightarrow> backup_erasure_propagated arkhe_type" where
  "BackupErasurePropagated c = \<lparr>TYPE_CODE = 0x00030F04, SCHEMA_VERSION = 1, postcard = c\<rparr>"
definition GdprPolicyViolation :: "gdpr_policy_violation codec \<Rightarrow> gdpr_policy_violation arkhe_type" where
  "GdprPolicyViolation c = \<lparr>TYPE_CODE = 0x00030F05, SCHEMA_VERSION = 1, postcard = c\<rparr>"
definition SignatureClassPolicy :: "signature_class_policy codec \<Rightarrow> signature_class_policy arkhe_type" where
  "SignatureClassPolicy c = \<lparr>TYPE_CODE = 0x00030F06, SCHEMA_VERSION = 1, postcard = c\<rparr>"
definition CrossShellActivity :: "cross_shell_activity codec \<Rightarrow> cross_shell_activity arkhe_type" where
  "CrossShellActivity c = \<lparr>TYPE_CODE = 0x00030F07, SCHEMA_VERSION = 1, postcard = c\<rparr>"
definition PerRegionErasureProgress :: "per_region_erasure_progress codec \<Rightarrow> per_region_erasure_progress arkhe_type" where
  "PerRegionErasureProgress c = \<lparr>TYPE_CODE = 0x00030F08, SCHEMA_VERSION = 1, postcard = c\<rparr>"
definition DekMigrationCompleted :: "dek_migration_completed codec \<Rightarrow> dek_migration_completed arkhe_type" where
  "DekMigrationCompleted c = \<lparr>TYPE_CODE = 0x00030F09, SCHEMA_VERSION = 1, postcard = c\<rparr>"
definition ComplianceTierChange :: "'ext compliance_tier_change codec \<Rightarrow> 'ext compliance_tier_change arkhe_type" where
  "ComplianceTierChange c = \<lparr>TYPE_CODE = 0x00030F0A, SCHEMA_VERSION = 1, postcard = c\<rparr>"
definition ReplicaIdAllocation :: "replica_id_allocation codec \<Rightarrow> replica_id_allocation arkhe_type" where
  "ReplicaIdAllocation c = \<lparr>TYPE_CODE = 0x00030F0D, SCHEMA_VERSION = 1, postcard = c\<rparr>"
definition AuditReceiptKeyPolicy :: "audit_receipt_key_policy codec \<Rightarrow> audit_receipt_key_policy arkhe_type" where
  "AuditReceiptKeyPolicy c = \<lparr>TYPE_CODE = 0x00030F0E, SCHEMA_VERSION = 2, postcard = c\<rparr>"

lemmas event_type_defs = RuntimeBootstrap_def RUNTIME_BOOTSTRAP_def UserErasureCompleted_def BackupErasurePropagated_def GdprPolicyViolation_def
  SignatureClassPolicy_def CrossShellActivity_def PerRegionErasureProgress_def DekMigrationCompleted_def ComplianceTierChange_def
  ReplicaIdAllocation_def AuditReceiptKeyPolicy_def UserErasureScheduled_def

definition e1_core_5_type_code_ranges_pinned :: bool where
  [test_defs]: "e1_core_5_type_code_ranges_pinned =
     (CORE_ENTITY = (0x00010000, 0x0001FFFF) \<and> CORE_COMPONENT = (0x00030000, 0x00030EFF)
      \<and> CORE_EVENT = (0x00030F00, 0x0003FFFF) \<and> CORE_VERB_CANONICAL = (0x00020001, 0x000203FF))"

definition ctx_at :: "caps \<Rightarrow> tick \<Rightarrow> unit ctx" where
  [test_defs]: "ctx_at SYS t = axiom_ctx SYS 0x11 t"

definition e2_compute_is_deterministic :: "postcards \<Rightarrow> caps \<Rightarrow> bool" where
  [test_defs]: "e2_compute_is_deterministic pc SYS =
     (let run = (\<lambda>c. fst (process_action (compute_GdprEraseUser pc \<lparr>geu_schema_version = 1, geu_user = UserId 42\<rparr>) c))
      in ok_with (run (ctx_at SYS 100)) (\<lambda>e1. ok_with (run (ctx_at SYS 100)) (\<lambda>e2. e1 = e2)))"

definition e4_identifiers_reject_zero_sentinel :: bool where
  [test_defs]: "e4_identifiers_reject_zero_sentinel = (EntityId_new 0 = None \<and> EntityId_new 1 \<noteq> None)"

definition e5_actor_immutable_fields_exposed_via_component_pins :: "postcards \<Rightarrow> bool" where
  [test_defs]: "e5_actor_immutable_fields_exposed_via_component_pins pc =
     (TYPE_CODE (ActorProfile pc) = 0x00030101 \<and> TYPE_CODE (UserBinding pc) = 0x00030102)"

definition e6_actor_typestate_transitions_one_way :: bool where
  [test_defs]: "e6_actor_typestate_transitions_one_way =
     some_with (Actor_authenticate (Actor_new_anonymous (ActorId 1)) (UserId 2)) (\<lambda>auth. Actor_suspend auth \<noteq> None)"

definition e8_dag_depth_caps_match_spec :: bool where
  [test_defs]: "e8_dag_depth_caps_match_spec = (MAX_SPACE_DEPTH = 64 \<and> MAX_ENTRY_DEPTH = 64)"

definition e9_meta_verb_depth_hard_cap_is_eight :: bool where
  [test_defs]: "e9_meta_verb_depth_hard_cap_is_eight = (APPEAL_MAX_DEPTH_CAP = 8)"

definition e10_arkhe_uri_typecode_registry_structured :: bool where
  [test_defs]: "e10_arkhe_uri_typecode_registry_structured =
     (snd CORE_ENTITY < fst CORE_COMPONENT \<and> fst CORE_ENTITY < snd CORE_ENTITY)"

definition e13_signature_class_policy_anchored_by_type_code :: "signature_class_policy codec \<Rightarrow> bool" where
  [test_defs]: "e13_signature_class_policy_anchored_by_type_code c = (TYPE_CODE (SignatureClassPolicy c) = SIGNATURE_CLASS_POLICY)"

text \<open>A property test: the ticks and users it draws are its arguments.\<close>
definition e2_gdpr_erase_single_event_per_tick :: "postcards \<Rightarrow> caps \<Rightarrow> tick \<Rightarrow> u64 \<Rightarrow> bool" where
  [test_defs]: "e2_gdpr_erase_single_event_per_tick pc SYS t user_raw =
     some_with (EntityId_new user_raw) (\<lambda>i.
     ok_with (fst (process_action (compute_GdprEraseUser pc \<lparr>geu_schema_version = 1, geu_user = UserId i\<rparr>) (ctx_at SYS t)))
       (\<lambda>es. length es = 1 \<and> er_tick (es ! 0) = t))"

lemma runtime_shape_axioms_pass:
  "e1_core_5_type_code_ranges_pinned" "e4_identifiers_reject_zero_sentinel"
  "e5_actor_immutable_fields_exposed_via_component_pins pc" "e6_actor_typestate_transitions_one_way"
  "e8_dag_depth_caps_match_spec" "e9_meta_verb_depth_hard_cap_is_eight" "e10_arkhe_uri_typecode_registry_structured"
  "e13_signature_class_policy_anchored_by_type_code c"
  by (simp_all add: test_defs range_defs EntityId_new_def arkhe_type_defs Actor_new_anonymous_def Actor_authenticate_def
      Actor_suspend_def MAX_SPACE_DEPTH_def MAX_ENTRY_DEPTH_def APPEAL_MAX_DEPTH_CAP_def event_type_defs SIGNATURE_CLASS_POLICY_def)

lemma runtime_erase_axioms_pass:
  assumes "postcards_work pc" "SYS \<noteq> 0"
  shows "e2_compute_is_deterministic pc SYS" "user_raw \<noteq> 0 \<Longrightarrow> e2_gdpr_erase_single_event_per_tick pc SYS t user_raw"
  using assms(2) by (simp_all add: test_defs process_action_def bnd_def ensure_caps_def ActionContext_new_def
      erase_user_runs[OF assms(1)] Let_def drain_events_def EntityId_new_def)

end
