(* ===== verification/Core_Tests.thy ===== *)
theory Core_Tests
  imports Axiom_Tests
begin

text \<open>The tests inside \<^verbatim>\<open>user.rs\<close>, \<^verbatim>\<open>actor.rs\<close>, \<^verbatim>\<open>space.rs\<close>, \<^verbatim>\<open>entry.rs\<close>, \<^verbatim>\<open>activity.rs\<close>, \<^verbatim>\<open>context.rs\<close>, \<^verbatim>\<open>bridge.rs\<close>,
\<^verbatim>\<open>pipeline.rs\<close> and \<^verbatim>\<open>event.rs\<close> of \<^verbatim>\<open>arkhe-forge-core/src\<close>, over the evaluation lemmas of \<^verbatim>\<open>Axiom_Tests\<close>.\<close>

section \<open>Running the remaining bodies\<close>

lemma register_user_runs:
  assumes "postcards_work pc" "ids_derive h" "id_seq c = 0" "ru_schema_version a = 1" "up_schema_version (ru_profile a) = 1"
    and "ac_schema_version (ru_credential a) = 1" "validate_kdf_params (ac_kdf (ru_credential a)) (ac_kdf_params (ru_credential a))"
  shows "\<exists>i. compute_RegisterUser h pc a c = (Inr (),
    c\<lparr>id_seq := 1, ops := ops c @ [SpawnEntity i (principal c), write_op (UserProfile pc) i (ru_profile a),
       write_op (AuthCredential pc) i (ru_credential a),
       write_op (UserGdprState pc) i \<lparr>ugs_schema_version = 1, ugs_status = Active\<rparr>]\<rparr>)"
proof -
  obtain i where "next_id h 0x00030001 c = (Inr i, c\<lparr>id_seq := 1\<rparr>)" using next_id_runs[OF assms(2,3)] by blast
  then show ?thesis using assms(4-7) postcards_work_all[OF assms(1)]
    by (intro exI[of _ i]) (simp add: compute_RegisterUser_def bnd_def ensure_schema_version_def meta_defs set_component_runs
        spawn_entity_for_def push_op_def)
qed

lemma create_space_runs:
  assumes "postcards_work pc" "ids_derive h" "id_seq c = 0" "cs_schema_version a = 1" "scd_schema_version (cs_config a) = 1"
    and "acting_actor c = Some actor" "ensure_actor_eligible pc actor (cur_tick c) c = Inr ()" "scd_parent_space (cs_config a) = None"
  shows "\<exists>i. compute_CreateSpace h pc a c = (Inr (),
    c\<lparr>id_seq := 1, ops := ops c @ [SpawnEntity i (principal c), write_op (SpaceConfig pc) i (into_config (cs_config a) actor),
       write_op (ParentChainDepth pc) i \<lparr>pcd_schema_version = 1, pcd_depth = 0\<rparr>]\<rparr>)"
proof -
  obtain i where "next_id h 0x00030201 c = (Inr i, c\<lparr>id_seq := 1\<rparr>)" using next_id_runs[OF assms(2,3)] by blast
  then show ?thesis using assms(4-8) postcards_work_all[OF assms(1)]
    by (intro exI[of _ i]) (simp add: compute_CreateSpace_def bnd_def ensure_schema_version_def meta_defs set_component_runs
        spawn_entity_for_def push_op_def child_depth_of_def Let_def)
qed

text \<open>A refused schema version leaves the context as it was.\<close>
lemma schema_refusals:
  "sa_schema_version s \<noteq> 1 \<Longrightarrow> compute_SubmitActivity h pc s c = (Inl (SchemaMismatch 1 (sa_schema_version s)), c)"
  "sa_schema_version s = 1 \<Longrightarrow> ad_schema_version (sa_draft s) \<noteq> 1 \<Longrightarrow>
     compute_SubmitActivity h pc s c = (Inl (SchemaMismatch 1 (ad_schema_version (sa_draft s))), c)"
  "cs_schema_version a \<noteq> 1 \<Longrightarrow> compute_CreateSpace h pc a c = (Inl (SchemaMismatch 1 (cs_schema_version a)), c)"
  "cs_schema_version a = 1 \<Longrightarrow> scd_schema_version (cs_config a) \<noteq> 1 \<Longrightarrow>
     compute_CreateSpace h pc a c = (Inl (SchemaMismatch 1 (scd_schema_version (cs_config a))), c)"
  "ra_schema_version r \<noteq> 1 \<Longrightarrow> compute_RegisterActor h pc r c = (Inl (SchemaMismatch 1 (ra_schema_version r)), c)"
  "ra_schema_version r = 1 \<Longrightarrow> ap_schema_version (ra_profile r) \<noteq> 1 \<Longrightarrow>
     compute_RegisterActor h pc r c = (Inl (SchemaMismatch 1 (ap_schema_version (ra_profile r))), c)"
  "ru_schema_version u \<noteq> 1 \<Longrightarrow> compute_RegisterUser h pc u c = (Inl (SchemaMismatch 1 (ru_schema_version u)), c)"
  "ru_schema_version u = 1 \<Longrightarrow> up_schema_version (ru_profile u) \<noteq> 1 \<Longrightarrow>
     compute_RegisterUser h pc u c = (Inl (SchemaMismatch 1 (up_schema_version (ru_profile u))), c)"
  "ru_schema_version u = 1 \<Longrightarrow> up_schema_version (ru_profile u) = 1 \<Longrightarrow> ac_schema_version (ru_credential u) \<noteq> 1 \<Longrightarrow>
     compute_RegisterUser h pc u c = (Inl (SchemaMismatch 1 (ac_schema_version (ru_credential u))), c)"
  "geu_schema_version g \<noteq> 1 \<Longrightarrow> compute_GdprEraseUser pc g c = (Inl (SchemaMismatch 1 (geu_schema_version g)), c)"
  by (simp_all add: compute_SubmitActivity_def compute_CreateSpace_def compute_RegisterActor_def compute_RegisterUser_def
      compute_GdprEraseUser_def bnd_def ensure_schema_version_def meta_defs)

definition zero_ctx :: "caps \<Rightarrow> unit ctx" where
  [test_defs]: "zero_ctx SYS = axiom_ctx SYS 0 7"

definition schema_mismatch :: "action_error \<Rightarrow> bool" where
  [test_defs]: "schema_mismatch e = (e = SchemaMismatch 1 0xBEEF)"

text \<open>\<^verbatim>\<open>ops.iter().find_map(..)\<close>: the first component of a type in a list of operations.\<close>
fun find_component :: "'c arkhe_type \<Rightarrow> 'ext op list \<Rightarrow> 'c option" where
  "find_component C [] = None"
| "find_component C (SetComponent e tc b sz # ps) =
     (if tc = TYPE_CODE C then (case cd_dec (postcard C) b of Some x \<Rightarrow> Some x | None \<Rightarrow> find_component C ps)
      else find_component C ps)"
| "find_component C (_ # ps) = find_component C ps"

lemma find_component_write_op:
  "codec_works (postcard C) \<Longrightarrow> find_component C (write_op C e x # ps) = Some x"
  "TYPE_CODE D \<noteq> TYPE_CODE C \<Longrightarrow> find_component C (write_op D e y # ps) = find_component C ps"
  by (simp_all add: write_op_def encoded_works)

lemma zero_ctx_simps:
  "ops (zero_ctx SYS) = []" "id_seq (zero_ctx SYS) = 0" "principal (zero_ctx SYS) = System" "view (zero_ctx SYS) = None"
  "acting_actor (zero_ctx SYS) = None" "cur_tick (zero_ctx SYS) = 7" "actor_handle_index (zero_ctx SYS) = None"
  by (simp_all add: zero_ctx_def axiom_ctx_def ActionContext_new_def)

section \<open>Users\<close>

definition user_id_preserves_underlying_entity :: bool where
  [test_defs]: "user_id_preserves_underlying_entity = some_with (EntityId_new 42) (\<lambda>i. user_get (UserId i) = 42)"

definition auth_credential_validates_default_argon2id_params :: bool where
  [test_defs]: "auth_credential_validates_default_argon2id_params =
     validate_kdf_params Argon2id \<lparr>m_cost = MIN_ARGON2ID_M_COST, t_cost = MIN_ARGON2ID_T_COST, p_cost = MIN_ARGON2ID_P_COST\<rparr>"

definition auth_credential_rejects_under_cost_argon2id :: bool where
  [test_defs]: "auth_credential_rejects_under_cost_argon2id =
     (\<not> validate_kdf_params Argon2id \<lparr>m_cost = 1024, t_cost = 1, p_cost = 1\<rparr>)"

definition scrypt_accepts_power_of_two_n_cost :: bool where
  [test_defs]: "scrypt_accepts_power_of_two_n_cost =
     (validate_kdf_params Scrypt \<lparr>m_cost = MIN_SCRYPT_N_COST, t_cost = MIN_SCRYPT_R_COST, p_cost = 1\<rparr>
      \<and> validate_kdf_params Scrypt \<lparr>m_cost = push_bit 16 1, t_cost = MIN_SCRYPT_R_COST, p_cost = 1\<rparr>)"

definition scrypt_rejects_non_power_of_two_n_cost :: bool where
  [test_defs]: "scrypt_rejects_non_power_of_two_n_cost =
     (\<not> validate_kdf_params Scrypt \<lparr>m_cost = MIN_SCRYPT_N_COST + 1, t_cost = MIN_SCRYPT_R_COST, p_cost = 1\<rparr>
      \<and> \<not> validate_kdf_params Scrypt \<lparr>m_cost = 100000, t_cost = MIN_SCRYPT_R_COST, p_cost = 1\<rparr>)"

definition valid_register_user :: register_user where
  [test_defs]: "valid_register_user = \<lparr>ru_schema_version = 1,
     ru_profile = \<lparr>up_schema_version = 1, up_created_tick = 0, up_primary_auth_kind = Passkey\<rparr>,
     ru_credential = \<lparr>ac_schema_version = 1, ac_kind = Passkey, ac_kdf = Argon2id, ac_salt = replicate 16 0,
       ac_credential_hash = replicate 32 0,
       ac_kdf_params = \<lparr>m_cost = MIN_ARGON2ID_M_COST, t_cost = MIN_ARGON2ID_T_COST, p_cost = MIN_ARGON2ID_P_COST\<rparr>,
       ac_expires_tick = None, ac_bound_tick = 0\<rparr>\<rparr>"

definition register_user_rejects_wire_schema_mismatch :: "blake3 \<Rightarrow> postcards \<Rightarrow> caps \<Rightarrow> bool" where
  [test_defs]: "register_user_rejects_wire_schema_mismatch h pc SYS = (let act = valid_register_user in passes
     [fails (compute_RegisterUser h pc (act\<lparr>ru_schema_version := 0xBEEF\<rparr>)) schema_mismatch, sees (\<lambda>c. ops c = []),
      fails (compute_RegisterUser h pc (act\<lparr>ru_profile := (ru_profile act)\<lparr>up_schema_version := 0xBEEF\<rparr>\<rparr>)) schema_mismatch,
      sees (\<lambda>c. ops c = []),
      fails (compute_RegisterUser h pc (act\<lparr>ru_credential := (ru_credential act)\<lparr>ac_schema_version := 0xBEEF\<rparr>\<rparr>)) schema_mismatch,
      sees (\<lambda>c. ops c = []), unwraps (compute_RegisterUser h pc act)] (zero_ctx SYS))"

definition gdpr_erase_user_rejects_wire_schema_mismatch :: "postcards \<Rightarrow> caps \<Rightarrow> bool" where
  [test_defs]: "gdpr_erase_user_rejects_wire_schema_mismatch pc SYS = passes
     [fails (compute_GdprEraseUser pc \<lparr>geu_schema_version = 0xBEEF, geu_user = UserId 42\<rparr>) schema_mismatch,
      sees (\<lambda>c. ops c = []), unwraps (compute_GdprEraseUser pc \<lparr>geu_schema_version = 1, geu_user = UserId 42\<rparr>)] (zero_ctx SYS)"

lemma bits_of_scrypt_costs:
  "is_power_of_two 0x8000" "is_power_of_two 0x10000" "\<not> is_power_of_two 0x8001" "\<not> is_power_of_two 100000"
  by code_simp+

lemma kdf_tests_pass:
  "user_id_preserves_underlying_entity" "auth_credential_validates_default_argon2id_params"
  "auth_credential_rejects_under_cost_argon2id" "scrypt_accepts_power_of_two_n_cost" "scrypt_rejects_non_power_of_two_n_cost"
  by (simp_all add: test_defs EntityId_new_def kdf_min_defs push_bit_eq_mult bits_of_scrypt_costs)

lemma user_schema_tests_pass:
  assumes "postcards_work pc" "ids_derive h"
  shows "register_user_rejects_wire_schema_mismatch h pc SYS" "gdpr_erase_user_rejects_wire_schema_mismatch pc SYS"
proof -
  obtain t where "compute_RegisterUser h pc valid_register_user (zero_ctx SYS) = (Inr (), t)"
    using register_user_runs[OF assms, of "zero_ctx SYS" valid_register_user]
    by (auto simp: zero_ctx_simps valid_register_user_def)
  then show "register_user_rejects_wire_schema_mismatch h pc SYS"
    by (simp add: register_user_rejects_wire_schema_mismatch_def Let_def script_simps schema_refusals zero_ctx_simps
        schema_mismatch_def valid_register_user_def)
  show "gdpr_erase_user_rejects_wire_schema_mismatch pc SYS"
    by (simp add: gdpr_erase_user_rejects_wire_schema_mismatch_def script_simps schema_refusals zero_ctx_simps schema_mismatch_def
        erase_user_runs[OF assms(1)])
qed

section \<open>Actors\<close>

definition actor_typestate_transitions_anonymous_authenticated_suspended :: bool where
  [test_defs]: "actor_typestate_transitions_anonymous_authenticated_suspended =
     some_with (Actor_authenticate (Actor_new_anonymous (ActorId 1)) (UserId 2)) (\<lambda>auth.
       some_with (Actor_suspend auth) (\<lambda>susp. ah_id susp = ActorId 1))"

definition actor_state_names_are_distinct :: bool where
  [test_defs]: "actor_state_names_are_distinct =
     (ActorState_NAME StAnonymous = ''anonymous'' \<and> ActorState_NAME StAuthenticated = ''authenticated''
      \<and> ActorState_NAME StSuspended = ''suspended'')"

definition actor_profile_exposes_type_code_and_schema_version :: "postcards \<Rightarrow> bool" where
  [test_defs]: "actor_profile_exposes_type_code_and_schema_version pc =
     (TYPE_CODE (ActorProfile pc) = 0x00030101 \<and> SCHEMA_VERSION (ActorProfile pc) = 1)"

definition register_actor_payload :: "u64 \<Rightarrow> register_actor" where
  [test_defs]: "register_actor_payload v = \<lparr>ra_schema_version = 1, ra_profile = \<lparr>ap_schema_version = 1,
     ap_shell_id = ShellId (replicate 16 0xAB), ap_handle = BoundedString ''alice'', ap_kind = Human, ap_created_tick = 7\<rparr>,
     ra_user = UserId v\<rparr>"

definition register_actor_spawns_actor_then_sets_profile_and_binding :: "blake3 \<Rightarrow> postcards \<Rightarrow> caps \<Rightarrow> bool" where
  [test_defs]: "register_actor_spawns_actor_then_sets_profile_and_binding h pc SYS = passes
     [unwraps (compute_RegisterActor h pc (register_actor_payload 7)),
      takes drain_ops (\<lambda>ps. length ps = 3 \<and> (case ps ! 0 of SpawnEntity actor _ \<Rightarrow>
        (case ps ! 1 of SetComponent e tc _ _ \<Rightarrow> e = actor \<and> tc = TYPE_CODE (ActorProfile pc) | _ \<Rightarrow> False)
        \<and> (case ps ! 2 of SetComponent e tc b _ \<Rightarrow> e = actor \<and> tc = TYPE_CODE (UserBinding pc)
              \<and> some_with (cd_dec (postcard (UserBinding pc)) b) (\<lambda>binding. ub_user_id binding = UserId 7)
            | _ \<Rightarrow> False)
        | _ \<Rightarrow> False))] (zero_ctx SYS)"

definition register_actor_rejects_handle_collision_via_index :: "blake3 \<Rightarrow> postcards \<Rightarrow> caps \<Rightarrow> bool" where
  [test_defs]: "register_actor_rejects_handle_collision_via_index h pc SYS =
     (let act = register_actor_payload 7; shell = ap_shell_id (ra_profile act); hnd = ap_handle (ra_profile act);
          index = (\<lambda>s n. if s = shell \<and> n = hnd then Some (ActorId 99) else None) in passes
       [fails (compute_RegisterActor h pc act) (\<lambda>e. e = ActorHandleCollision shell hnd), sees (\<lambda>c. ops c = [])]
       (with_actor_handle_index index (zero_ctx SYS)))"

definition register_actor_rejects_wire_schema_mismatch :: "blake3 \<Rightarrow> postcards \<Rightarrow> caps \<Rightarrow> bool" where
  [test_defs]: "register_actor_rejects_wire_schema_mismatch h pc SYS = (let act = register_actor_payload 7 in passes
     [fails (compute_RegisterActor h pc (act\<lparr>ra_schema_version := 0xBEEF\<rparr>)) schema_mismatch, sees (\<lambda>c. ops c = []),
      fails (compute_RegisterActor h pc (act\<lparr>ra_profile := (ra_profile act)\<lparr>ap_schema_version := 0xBEEF\<rparr>\<rparr>)) schema_mismatch,
      sees (\<lambda>c. ops c = [])] (zero_ctx SYS))"

definition register_actor_exposes_trait_consts :: bool where
  [test_defs]: "register_actor_exposes_trait_consts =
     (am_type_code RegisterActor_meta = 0x00010101 \<and> am_schema_version RegisterActor_meta = 1 \<and> am_band RegisterActor_meta = 1
      \<and> \<not> am_idempotent RegisterActor_meta)"

lemma actor_tests_pass:
  "actor_typestate_transitions_anonymous_authenticated_suspended" "actor_state_names_are_distinct"
  "actor_profile_exposes_type_code_and_schema_version pc" "register_actor_rejects_wire_schema_mismatch h pc SYS"
  "register_actor_exposes_trait_consts"
  by (simp_all add: test_defs script_simps Actor_new_anonymous_def Actor_authenticate_def Actor_suspend_def arkhe_type_defs
      schema_refusals meta_defs ActionContext_new_def)

lemma register_actor_collision_test_passes: "register_actor_rejects_handle_collision_via_index h pc SYS"
  by (simp add: test_defs script_simps Let_def with_actor_handle_index_def ActionContext_new_def compute_RegisterActor_def
      bnd_def ensure_schema_version_def meta_defs actor_by_handle_def)

lemma register_actor_test_passes:
  assumes "postcards_work pc" "ids_derive h"
  shows "register_actor_spawns_actor_then_sets_profile_and_binding h pc SYS"
proof -
  let ?a = "register_actor_payload 7"
  obtain i where "compute_RegisterActor h pc ?a (zero_ctx SYS) = (Inr (), (zero_ctx SYS)\<lparr>id_seq := 1,
      ops := [SpawnEntity i System, write_op (ActorProfile pc) i (ra_profile ?a),
              write_op (UserBinding pc) i \<lparr>ub_schema_version = 1, ub_user_id = UserId 7\<rparr>]\<rparr>)"
    using register_actor_runs[OF assms, of "zero_ctx SYS" "ra_profile ?a" "UserId 7"]
    by (auto simp: zero_ctx_simps actor_by_handle_def register_actor_payload_def)
  then show ?thesis using postcards_work_all[OF assms(1)]
    by (simp add: register_actor_spawns_actor_then_sets_profile_and_binding_def script_simps drain_ops_def write_op_def encoded_works)
qed

section \<open>Spaces\<close>

definition space_config_action_type_codes :: "postcards \<Rightarrow> space_membership codec \<Rightarrow> bool" where
  [test_defs]: "space_config_action_type_codes pc c =
     (TYPE_CODE (SpaceConfig pc) = 0x00030201 \<and> TYPE_CODE (ParentChainDepth pc) = 0x00030202
      \<and> TYPE_CODE (SpaceMembership c) = 0x00030203 \<and> am_type_code CreateSpace_meta = 0x00010201 \<and> am_band CreateSpace_meta = 1)"

definition max_space_depth_is_sixty_four :: bool where
  [test_defs]: "max_space_depth_is_sixty_four = (MAX_SPACE_DEPTH = 64)"

definition draft :: space_config_draft where
  [test_defs]: "draft = \<lparr>scd_schema_version = 1, scd_shell_id = ShellId (replicate 16 0x01), scd_slug = BoundedString ''general'',
     scd_kind = Flat, scd_visibility = Public, scd_parent_space = None, scd_created_tick = 0\<rparr>"

definition create_space_records_injected_creator_not_a_wire_field :: "blake3 \<Rightarrow> postcards \<Rightarrow> caps \<Rightarrow> bool" where
  [test_defs]: "create_space_records_injected_creator_not_a_wire_field h pc SYS = (let injected = ActorId 0xC1 in passes
     [unwraps (compute_CreateSpace h pc \<lparr>cs_schema_version = 1, cs_config = draft\<rparr>),
      sees (\<lambda>c. some_with (find_component (SpaceConfig pc) (ops c)) (\<lambda>recorded. sc_creator recorded = injected))]
     (with_actor (Some injected) (zero_ctx SYS)))"

definition create_space_rejects_wire_schema_mismatch :: "blake3 \<Rightarrow> postcards \<Rightarrow> caps \<Rightarrow> bool" where
  [test_defs]: "create_space_rejects_wire_schema_mismatch h pc SYS =
     (let act = \<lparr>cs_schema_version = 0xBEEF, cs_config = draft\<rparr>;
          nested = \<lparr>cs_schema_version = 1, cs_config = draft\<lparr>scd_schema_version := 0xBEEF\<rparr>\<rparr> in passes
       [fails (compute_CreateSpace h pc act) schema_mismatch, sees (\<lambda>c. ops c = []),
        fails (compute_CreateSpace h pc nested) schema_mismatch, sees (\<lambda>c. ops c = []),
        unwraps (compute_CreateSpace h pc \<lparr>cs_schema_version = 1, cs_config = draft\<rparr>)]
       (with_actor (Some (ActorId 0xC1)) (zero_ctx SYS)))"

definition is_authorization_failed :: "action_error \<Rightarrow> bool" where
  [test_defs]: "is_authorization_failed e = (case e of AuthorizationFailed _ \<Rightarrow> True | _ \<Rightarrow> False)"

definition create_space_without_injected_actor_rejects :: "blake3 \<Rightarrow> postcards \<Rightarrow> caps \<Rightarrow> bool" where
  [test_defs]: "create_space_without_injected_actor_rejects h pc SYS = passes
     [fails (compute_CreateSpace h pc \<lparr>cs_schema_version = 1, cs_config = draft\<rparr>) is_authorization_failed, sees (\<lambda>c. ops c = [])]
     (zero_ctx SYS)"

lemma space_shape_tests_pass:
  "space_config_action_type_codes pc c" "max_space_depth_is_sixty_four" "create_space_without_injected_actor_rejects h pc SYS"
  by (simp_all add: test_defs arkhe_type_defs component_type_defs meta_defs MAX_SPACE_DEPTH_def script_simps compute_CreateSpace_def
      bnd_def ensure_schema_version_def ActionContext_new_def)

lemma acting_zero_ctx:
  "id_seq (with_actor a (zero_ctx SYS)) = 0" "acting_actor (with_actor a (zero_ctx SYS)) = a"
  "ops (with_actor a (zero_ctx SYS)) = []" "principal (with_actor a (zero_ctx SYS)) = System"
  "ensure_actor_eligible pc x t (with_actor a (zero_ctx SYS)) = Inr ()"
  by (simp_all add: gate_evaluation with_actor_def zero_ctx_simps)

lemma space_compute_tests_pass:
  assumes "postcards_work pc" "ids_derive h"
  shows "create_space_records_injected_creator_not_a_wire_field h pc SYS" "create_space_rejects_wire_schema_mismatch h pc SYS"
proof -
  let ?c = "with_actor (Some (ActorId 0xC1)) (zero_ctx SYS)" and ?a = "\<lparr>cs_schema_version = 1, cs_config = draft\<rparr>"
  obtain i where run: "compute_CreateSpace h pc ?a ?c = (Inr (), ?c\<lparr>id_seq := 1,
      ops := [SpawnEntity i System, write_op (SpaceConfig pc) i (into_config draft (ActorId 0xC1)),
              write_op (ParentChainDepth pc) i \<lparr>pcd_schema_version = 1, pcd_depth = 0\<rparr>]\<rparr>)"
    using create_space_runs[OF assms, of ?c ?a "ActorId 0xC1"] by (auto simp: acting_zero_ctx draft_def)
  show "create_space_records_injected_creator_not_a_wire_field h pc SYS" using postcards_work_all[OF assms(1)]
    by (simp add: create_space_records_injected_creator_not_a_wire_field_def Let_def script_simps run find_component_write_op
        into_config_def)
  show "create_space_rejects_wire_schema_mismatch h pc SYS" using run
    by (simp add: create_space_rejects_wire_schema_mismatch_def Let_def script_simps schema_refusals acting_zero_ctx
        schema_mismatch_def draft_def)
qed

section \<open>Entries and activities\<close>

definition entry_component_type_codes :: "entry_core codec \<Rightarrow> entry_body codec \<Rightarrow> entry_parent_depth codec \<Rightarrow> bool" where
  [test_defs]: "entry_component_type_codes c1 c2 c3 =
     (TYPE_CODE (EntryCore c1) = 0x00030301 \<and> TYPE_CODE (EntryBody c2) = 0x00030302 \<and> TYPE_CODE (EntryParentDepth c3) = 0x00030303)"

definition max_entry_depth_is_sixty_four :: bool where
  [test_defs]: "max_entry_depth_is_sixty_four = (MAX_ENTRY_DEPTH = 64)"

definition verb_code_canonical_extraction :: bool where
  [test_defs]: "verb_code_canonical_extraction = (verb_code_code LIKE = 0x00020001)"

definition verb_code_canonical_vs_shell_differ :: bool where
  [test_defs]: "verb_code_canonical_vs_shell_differ =
     some_with (ShellVerb_try_new 0x00020400) (\<lambda>w. LIKE \<noteq> VerbCode_shell w)"

definition shell_verb_try_new_rejects_out_of_range_const :: bool where
  [test_defs]: "shell_verb_try_new_rejects_out_of_range_const =
     (ShellVerb_try_new 0x00010000 = None \<and> ShellVerb_try_new 0x00030000 = None
      \<and> ShellVerb_try_new 0x00020400 \<noteq> None \<and> ShellVerb_try_new 0x0002FFFF \<noteq> None)"

definition submit_activity_drops_actor_on_branded_unwrap :: bool where
  [test_defs]: "submit_activity_drops_actor_on_branded_unwrap =
     (let rec = \<lparr>ar_schema_version = 1, ar_shell_id = ShellId (replicate 16 0), ar_actor = ActorId 1,
                 ar_verb = VerbCode_canonical (''FOLLOW'', 0x00020002), ar_target = TActor (ActorId 2), ar_at_tick = 0,
                 ar_status = ActActive, ar_extra_bytes = []\<rparr>;
          submit = from_branded rec
      in ad_shell_id (sa_draft submit) = ar_shell_id rec \<and> ad_verb (sa_draft submit) = ar_verb rec
       \<and> ad_target (sa_draft submit) = ar_target rec \<and> sa_idempotency_key submit = None)"

definition like_draft :: "tick \<Rightarrow> activity_draft" where
  [test_defs]: "like_draft t = \<lparr>ad_schema_version = 1, ad_shell_id = ShellId (replicate 16 0), ad_verb = LIKE,
     ad_target = TEntry (EntryId 2), ad_at_tick = t, ad_status = ActActive, ad_extra_bytes = []\<rparr>"

definition like_submit :: "tick \<Rightarrow> submit_activity" where
  [test_defs]: "like_submit t = \<lparr>sa_schema_version = 1, sa_draft = like_draft t, sa_idempotency_key = None\<rparr>"

definition submit_activity_with_idempotency_key_attaches :: bool where
  [test_defs]: "submit_activity_with_idempotency_key_attaches =
     (sa_idempotency_key (with_idempotency_key (like_submit 0) (replicate 16 0xCD)) = Some (replicate 16 0xCD))"

definition submit_activity_records_injected_actor_not_a_wire_field :: "blake3 \<Rightarrow> postcards \<Rightarrow> caps \<Rightarrow> bool" where
  [test_defs]: "submit_activity_records_injected_actor_not_a_wire_field h pc SYS = (let injected = ActorId 0xAC in passes
     [unwraps (compute_SubmitActivity h pc (like_submit 0)),
      sees (\<lambda>c. some_with (find_component (ActivityRecord pc) (ops c)) (\<lambda>recorded. ar_actor recorded = injected))]
     (with_actor (Some injected) (zero_ctx SYS)))"

definition submit_activity_without_injected_actor_rejects :: "blake3 \<Rightarrow> postcards \<Rightarrow> caps \<Rightarrow> bool" where
  [test_defs]: "submit_activity_without_injected_actor_rejects h pc SYS = passes
     [fails (compute_SubmitActivity h pc (like_submit 0)) is_authorization_failed, sees (\<lambda>c. ops c = [])] (zero_ctx SYS)"

definition submit_activity_rejects_wire_schema_mismatch :: "blake3 \<Rightarrow> postcards \<Rightarrow> caps \<Rightarrow> bool" where
  [test_defs]: "submit_activity_rejects_wire_schema_mismatch h pc SYS =
     (let submit = (like_submit 0)\<lparr>sa_schema_version := 0xBEEF\<rparr>;
          nested = (like_submit 0)\<lparr>sa_draft := (like_draft 0)\<lparr>ad_schema_version := 0xBEEF\<rparr>\<rparr> in passes
       [fails (compute_SubmitActivity h pc submit) schema_mismatch, sees (\<lambda>c. ops c = []),
        fails (compute_SubmitActivity h pc nested) schema_mismatch, sees (\<lambda>c. ops c = []),
        unwraps (compute_SubmitActivity h pc (like_submit 0))]
       (with_actor (Some (ActorId 0xAC)) (zero_ctx SYS)))"

definition retract_activity_rejects_wire_schema_mismatch :: "caps \<Rightarrow> bool" where
  [test_defs]: "retract_activity_rejects_wire_schema_mismatch SYS = passes
     [fails (compute_RetractActivity \<lparr>rta_schema_version = 0xBEEF, rta_activity = ActivityId 5\<rparr>) schema_mismatch,
      unwraps (compute_RetractActivity \<lparr>rta_schema_version = 1, rta_activity = ActivityId 5\<rparr>)] (zero_ctx SYS)"

definition activity_types_expose_trait_consts :: "postcards \<Rightarrow> entity_shell_id codec \<Rightarrow> bool" where
  [test_defs]: "activity_types_expose_trait_consts pc c =
     (TYPE_CODE (ActivityRecord pc) = 0x00030401 \<and> TYPE_CODE (EntityShellId c) = 0x00030402
      \<and> am_type_code SubmitActivity_meta = 0x00010401 \<and> am_band SubmitActivity_meta = 1
      \<and> am_type_code RetractActivity_meta = 0x00010402 \<and> am_idempotent SubmitActivity_meta
      \<and> \<not> am_idempotent RetractActivity_meta)"

definition target_kind_key_with_shell_stamps_discriminant_and_shell :: bool where
  [test_defs]: "target_kind_key_with_shell_stamps_discriminant_and_shell =
     (let shell = ShellId (replicate 16 0x33); k = key_with_shell (TEntry (EntryId 7)) shell;
          k2 = key_with_shell (TExtension 0x01000001 9) shell
      in tk_kind_code k = 1 \<and> tk_id k = 7 \<and> tk_target_shell_id k = shell \<and> tk_kind_code k2 = 5 \<and> tk_type_code k2 = 0x01000001)"

definition appeal_cap_is_eight :: bool where
  [test_defs]: "appeal_cap_is_eight = (APPEAL_MAX_DEPTH_CAP = 8)"

lemma activity_shape_tests_pass:
  "entry_component_type_codes c1 c2 c3" "max_entry_depth_is_sixty_four" "verb_code_canonical_extraction"
  "verb_code_canonical_vs_shell_differ" "shell_verb_try_new_rejects_out_of_range_const" "submit_activity_drops_actor_on_branded_unwrap"
  "submit_activity_with_idempotency_key_attaches" "activity_types_expose_trait_consts pc c4"
  "target_kind_key_with_shell_stamps_discriminant_and_shell" "appeal_cap_is_eight"
  "submit_activity_without_injected_actor_rejects h pc SYS" "retract_activity_rejects_wire_schema_mismatch SYS"
  by (simp_all add: test_defs arkhe_type_defs component_type_defs meta_defs MAX_ENTRY_DEPTH_def APPEAL_MAX_DEPTH_CAP_def Let_def
      VerbCode_canonical_def VerbCode_shell_def ShellVerb_try_new_def from_branded_def with_idempotency_key_def key_with_shell_def
      script_simps compute_SubmitActivity_def bnd_def ensure_schema_version_def ActionContext_new_def compute_RetractActivity_eq)

lemma activity_compute_tests_pass:
  assumes "postcards_work pc" "ids_derive h"
  shows "submit_activity_records_injected_actor_not_a_wire_field h pc SYS" "submit_activity_rejects_wire_schema_mismatch h pc SYS"
proof -
  let ?c = "with_actor (Some (ActorId 0xAC)) (zero_ctx SYS)"
  obtain i where run: "compute_SubmitActivity h pc (like_submit 0) ?c = (Inr (), ?c\<lparr>id_seq := 1,
      ops := [SpawnEntity i System, write_op (ActivityRecord pc) i (into_record (like_draft 0) (ActorId 0xAC))]\<rparr>)"
    using submit_activity_runs[OF assms, of ?c "like_submit 0" "ActorId 0xAC"]
    by (auto simp: acting_zero_ctx like_submit_def like_draft_def)
  show "submit_activity_records_injected_actor_not_a_wire_field h pc SYS" using postcards_work_all[OF assms(1)]
    by (simp add: submit_activity_records_injected_actor_not_a_wire_field_def Let_def script_simps run find_component_write_op
        into_record_def)
  show "submit_activity_rejects_wire_schema_mismatch h pc SYS" using run
    by (simp add: submit_activity_rejects_wire_schema_mismatch_def Let_def script_simps schema_refusals acting_zero_ctx
        schema_mismatch_def like_submit_def like_draft_def)
qed

section \<open>The context\<close>

definition fixture_ctx :: "caps \<Rightarrow> unit ctx" where
  [test_defs]: "fixture_ctx SYS = axiom_ctx SYS 0x11 100"

lemma fixture_ctx_simps:
  "ops (fixture_ctx SYS) = []" "events (fixture_ctx SYS) = []" "id_seq (fixture_ctx SYS) = 0" "event_seq (fixture_ctx SYS) = 0"
  "principal (fixture_ctx SYS) = System" "view (fixture_ctx SYS) = None" "caps (fixture_ctx SYS) = SYS"
  "cur_tick (fixture_ctx SYS) = 100" "idempotency_index (fixture_ctx SYS) = None"
  by (simp_all add: fixture_ctx_def axiom_ctx_def ActionContext_new_def)

text \<open>A drain whose operations the test binds, after what an earlier call returned.\<close>
definition then_drained :: "(unit ctx, action_error, 'a) act \<Rightarrow> (unit ctx, action_error, 'a \<times> unit op list) act" where
  [test_defs]: "then_drained m = bnd m (\<lambda>x. bnd (\<lambda>c. let (ps, c') = drain_ops c in (Inr ps, c')) (\<lambda>ps. ret (x, ps)))"

definition context_exposes_principal_and_caps :: "caps \<Rightarrow> bool" where
  [test_defs]: "context_exposes_principal_and_caps SYS =
     (let c = fixture_ctx SYS in principal c = System \<and> and (caps c) SYS = SYS \<and> cur_tick c = 100)"

definition next_id_rejects_at_sequence_exhaustion_instead_of_wrapping :: "blake3 \<Rightarrow> caps \<Rightarrow> bool" where
  [test_defs]: "next_id_rejects_at_sequence_exhaustion_instead_of_wrapping h SYS = passes
     [calls (\<lambda>c. c\<lparr>id_seq := 0xFFFFFFFF\<rparr>), fails (next_id h 0x00030001) (\<lambda>e. e = IdExhaustion),
      sees (\<lambda>c. id_seq c = 0xFFFFFFFF)] (fixture_ctx SYS)"

definition erasure_of :: "u64 \<Rightarrow> user_erasure_scheduled" where
  [test_defs]: "erasure_of u = \<lparr>ues_schema_version = 1, ues_user = UserId u, ues_scheduled_tick = 100\<rparr>"

definition emit_event_appends_record_in_sequence :: "postcards \<Rightarrow> caps \<Rightarrow> bool" where
  [test_defs]: "emit_event_appends_record_in_sequence pc SYS = passes
     [unwraps (emit_event (UserErasureScheduled pc) (erasure_of 42)), unwraps (emit_event (UserErasureScheduled pc) (erasure_of 42)),
      takes drain_events (\<lambda>drained. length drained = 2 \<and> er_sequence (drained ! 0) = 0 \<and> er_sequence (drained ! 1) = 1
        \<and> er_type_code (drained ! 0) = TYPE_CODE (UserErasureScheduled pc)),
      sees (\<lambda>c. events c = [])] (fixture_ctx SYS)"

definition idempotency_lookup_returns_none_by_default :: "caps \<Rightarrow> bool" where
  [test_defs]: "idempotency_lookup_returns_none_by_default SYS = (idempotency_lookup (fixture_ctx SYS) (replicate 16 0) = None)"

definition ensure_schema_version_rejects_mismatch_with_both_versions :: "caps \<Rightarrow> bool" where
  [test_defs]: "ensure_schema_version_rejects_mismatch_with_both_versions SYS = passes
     [unwraps (ensure_schema_version 1 1), fails (ensure_schema_version 1 0xBEEF) (\<lambda>e. e = SchemaMismatch 1 0xBEEF)]
     (fixture_ctx SYS)"

definition ops_buffer_starts_empty_and_drains :: "postcards \<Rightarrow> caps \<Rightarrow> bool" where
  [test_defs]: "ops_buffer_starts_empty_and_drains pc SYS = passes
     [sees (\<lambda>c. ops c = []), unwraps (emit_event (UserErasureScheduled pc) (erasure_of 7)), sees (\<lambda>c. length (ops c) = 1),
      takes drain_ops (\<lambda>drained. length drained = 1), sees (\<lambda>c. ops c = [])] (fixture_ctx SYS)"

definition spawn_entity_for_derives_id_and_pushes_spawn_op :: "blake3 \<Rightarrow> postcards \<Rightarrow> caps \<Rightarrow> bool" where
  [test_defs]: "spawn_entity_for_derives_id_and_pushes_spawn_op h pc SYS = passes
     [yields (then_drained (spawn_entity_for h (UserProfile pc))) (\<lambda>(i, ps). length ps = 1 \<and>
        (case ps ! 0 of SpawnEntity spawn_id owner \<Rightarrow> spawn_id = i \<and> owner = System | _ \<Rightarrow> False))] (fixture_ctx SYS)"

definition set_component_encodes_via_postcard_and_tracks_size :: "blake3 \<Rightarrow> postcards \<Rightarrow> caps \<Rightarrow> bool" where
  [test_defs]: "set_component_encodes_via_postcard_and_tracks_size h pc SYS =
     (let profile = \<lparr>up_schema_version = 1, up_created_tick = 1, up_primary_auth_kind = Passkey\<rparr> in passes
       [yields (then_drained (bnd (spawn_entity_for h (UserProfile pc)) (\<lambda>entity.
                  bnd (set_component (UserProfile pc) entity profile) (\<lambda>_. ret entity)))) (\<lambda>(entity, ps). length ps = 2 \<and>
          (case ps ! 1 of SetComponent e tc b sz \<Rightarrow> e = entity \<and> tc = TYPE_CODE (UserProfile pc) \<and> sz = of_nat (length b)
               \<and> some_with (cd_dec (postcard (UserProfile pc)) b) (\<lambda>back. back = profile)
           | _ \<Rightarrow> False))] (fixture_ctx SYS))"

definition remove_component_pushes_remove_op_with_reported_size :: "blake3 \<Rightarrow> postcards \<Rightarrow> caps \<Rightarrow> bool" where
  [test_defs]: "remove_component_pushes_remove_op_with_reported_size h pc SYS = passes
     [yields (then_drained (bnd (spawn_entity_for h (UserProfile pc)) (\<lambda>entity.
                bnd (remove_component (UserProfile pc) entity 128) (\<lambda>_. ret entity)))) (\<lambda>(entity, ps).
        case ps ! 1 of RemoveComponent e tc sz \<Rightarrow> e = entity \<and> tc = TYPE_CODE (UserProfile pc) \<and> sz = 128 | _ \<Rightarrow> False)]
     (fixture_ctx SYS)"

definition emit_event_dual_path_event_record_and_op :: "postcards \<Rightarrow> caps \<Rightarrow> bool" where
  [test_defs]: "emit_event_dual_path_event_record_and_op pc SYS = passes
     [unwraps (emit_event (UserErasureScheduled pc) (erasure_of 9)),
      takes drain_events (\<lambda>es. length es = 1 \<and> er_type_code (es ! 0) = TYPE_CODE (UserErasureScheduled pc)),
      takes drain_ops (\<lambda>ps. length ps = 1 \<and> (case ps ! 0 of
        EmitEvent actor tc _ \<Rightarrow> actor = None \<and> tc = TYPE_CODE (UserErasureScheduled pc) | _ \<Rightarrow> False))] (fixture_ctx SYS)"

text \<open>\<^verbatim>\<open>FixedIndex\<close>: one key bound.\<close>
definition fixed_lookup :: "bytes \<Rightarrow> entity_id \<times> tick \<Rightarrow> idempotency_lookup_fn" where
  [test_defs]: "fixed_lookup bound binding = (\<lambda>key. if key = bound then Some binding else None)"

definition idempotency_lookup_consults_attached_index :: "caps \<Rightarrow> bool" where
  [test_defs]: "idempotency_lookup_consults_attached_index SYS =
     (let c = with_idempotency_index (fixed_lookup (replicate 16 0x77) (5, 42)) (fixture_ctx SYS)
      in idempotency_lookup c (replicate 16 0x77) = Some (5, 42) \<and> idempotency_lookup c (replicate 16 0x00) = None)"

definition read_returns_none_when_no_view_is_bound :: "postcards \<Rightarrow> caps \<Rightarrow> bool" where
  [test_defs]: "read_returns_none_when_no_view_is_bound pc SYS =
     ok_with (read (UserProfile pc) 1 (fixture_ctx SYS)) (\<lambda>out. out = None)"

definition preview_next_id_does_not_bump_sequence :: "blake3 \<Rightarrow> postcards \<Rightarrow> caps \<Rightarrow> bool" where
  [test_defs]: "preview_next_id_does_not_bump_sequence h pc SYS = (let c = fixture_ctx SYS in
     ok_with (preview_next_id_for h (UserProfile pc) c) (\<lambda>a. ok_with (preview_next_id_for h (UserProfile pc) c) (\<lambda>b.
       a = b \<and> passes [yields (next_id h (TYPE_CODE (UserProfile pc))) (\<lambda>committed. committed = a)] c)))"

lemma context_tests_pass:
  "context_exposes_principal_and_caps SYS" "next_id_rejects_at_sequence_exhaustion_instead_of_wrapping h SYS"
  "idempotency_lookup_returns_none_by_default SYS" "ensure_schema_version_rejects_mismatch_with_both_versions SYS"
  "idempotency_lookup_consults_attached_index SYS" "read_returns_none_when_no_view_is_bound pc SYS"
  by (simp_all add: test_defs script_simps ActionContext_new_def next_id_def checked_add_def idempotency_lookup_def
      ensure_schema_version_def with_idempotency_index_def read_def replicate_eq_replicate)

lemma context_event_tests_pass:
  assumes "postcards_work pc"
  shows "emit_event_appends_record_in_sequence pc SYS" "ops_buffer_starts_empty_and_drains pc SYS"
    "emit_event_dual_path_event_record_and_op pc SYS"
  using postcards_work_all[OF assms]
  by (simp_all add: emit_event_appends_record_in_sequence_def ops_buffer_starts_empty_and_drains_def
      emit_event_dual_path_event_record_and_op_def script_simps emit_event_runs drain_events_def drain_ops_def fixture_ctx_simps
      saturating_add_def)

lemma context_id_tests_pass:
  assumes "postcards_work pc" "ids_derive h" "\<And>x. length (encoded (pc_user_profile pc) x) < 2 ^ 64"
  shows "spawn_entity_for_derives_id_and_pushes_spawn_op h pc SYS" "set_component_encodes_via_postcard_and_tracks_size h pc SYS"
    "remove_component_pushes_remove_op_with_reported_size h pc SYS" "preview_next_id_does_not_bump_sequence h pc SYS"
proof -
  let ?c = "fixture_ctx SYS"
  obtain i where i: "next_id h 0x00030001 ?c = (Inr i, ?c\<lparr>id_seq := 1\<rparr>)"
    "derive_entity_id h (world_seed ?c) (instance_id ?c) 0x00030001 (cur_tick ?c) 0 = Some i"
    using next_id_runs[OF assms(2), of ?c "0x00030001"] by (auto simp: fixture_ctx_simps)
  note run = bnd_def spawn_entity_for_def push_op_def drain_ops_def script_simps then_drained_def fixture_ctx_simps
  show "spawn_entity_for_derives_id_and_pushes_spawn_op h pc SYS"
    by (simp add: spawn_entity_for_derives_id_and_pushes_spawn_op_def run i(1))
  show "set_component_encodes_via_postcard_and_tracks_size h pc SYS"
    using postcards_work_all[OF assms(1)] assms(3)
    by (simp add: set_component_encodes_via_postcard_and_tracks_size_def run i(1) set_component_runs write_op_def encoded_works
        len_u64_def)
  show "remove_component_pushes_remove_op_with_reported_size h pc SYS"
    by (simp add: remove_component_pushes_remove_op_with_reported_size_def run i(1) remove_component_def)
  show "preview_next_id_does_not_bump_sequence h pc SYS"
    by (simp add: preview_next_id_does_not_bump_sequence_def run i preview_next_id_for_def i(2)[unfolded fixture_ctx_simps])
qed

section \<open>The bridge and the pipeline\<close>

definition bridged :: "caps \<Rightarrow> (unit, unit) ctx_act \<Rightarrow> entity_id option \<Rightarrow> unit op list" where
  [test_defs]: "bridged SYS body actor = kernel_compute_inner SYS body 7 99 actor"

definition ok_compute_returns_drained_ops :: "postcards \<Rightarrow> caps \<Rightarrow> bool" where
  [test_defs]: "ok_compute_returns_drained_ops pc SYS =
     (let ps = bridged SYS (compute_GdprEraseUser pc \<lparr>geu_schema_version = 1, geu_user = UserId 42\<rparr>) None
      in length ps = 2
       \<and> (case ps ! 0 of SetComponent e tc b _ \<Rightarrow> e = 42 \<and> tc = TYPE_CODE (UserGdprState pc)
            \<and> some_with (cd_dec (postcard (UserGdprState pc)) b) (\<lambda>state. ugs_status state = ErasurePending) | _ \<Rightarrow> False)
       \<and> (case ps ! 1 of EmitEvent actor tc _ \<Rightarrow> actor = None \<and> tc = TYPE_CODE (UserErasureScheduled pc) | _ \<Rightarrow> False))"

definition weak_register_user :: register_user where
  [test_defs]: "weak_register_user = valid_register_user\<lparr>ru_credential :=
     (ru_credential valid_register_user)\<lparr>ac_kdf_params := \<lparr>m_cost = 1024, t_cost = 1, p_cost = 1\<rparr>\<rparr>\<rparr>"

definition err_compute_returns_empty_vec :: "blake3 \<Rightarrow> postcards \<Rightarrow> caps \<Rightarrow> bool" where
  [test_defs]: "err_compute_returns_empty_vec h pc SYS = (bridged SYS (compute_RegisterUser h pc weak_register_user) None = [])"

definition injected_actor_reaches_compute_as_activity_author :: "blake3 \<Rightarrow> postcards \<Rightarrow> caps \<Rightarrow> bool" where
  [test_defs]: "injected_actor_reaches_compute_as_activity_author h pc SYS =
     (let ps = bridged SYS (compute_SubmitActivity h pc (like_submit 99)) (Some 0xAC)
      in length ps = 2 \<and> some_with (find_component (ActivityRecord pc) ps) (\<lambda>recorded. actor_get (ar_actor recorded) = 0xAC))"

definition user_scoped_compute_without_injected_actor_is_suppressed :: "blake3 \<Rightarrow> postcards \<Rightarrow> caps \<Rightarrow> bool" where
  [test_defs]: "user_scoped_compute_without_injected_actor_is_suppressed h pc SYS =
     (bridged SYS (compute_SubmitActivity h pc (like_submit 99)) None = [])"

lemma bridge_erase_tests_pass:
  assumes "postcards_work pc"
  shows "ok_compute_returns_drained_ops pc SYS"
  using postcards_work_all[OF assms]
  by (simp add: ok_compute_returns_drained_ops_def bridged_def kernel_compute_inner_def erase_user_runs[OF assms] Let_def
      drain_ops_def write_op_def encoded_works) (simp add: UserErasureScheduled_def)

lemma bridge_refusal_tests_pass:
  "err_compute_returns_empty_vec h pc SYS" "user_scoped_compute_without_injected_actor_is_suppressed h pc SYS"
  by (simp_all add: test_defs kernel_compute_inner_def compute_RegisterUser_def compute_SubmitActivity_def bnd_def
      ensure_schema_version_def meta_defs kdf_min_defs)

lemma bridge_author_test_passes:
  assumes "postcards_work pc" "ids_derive h"
  shows "injected_actor_reaches_compute_as_activity_author h pc SYS"
proof -
  let ?c = "bridge_ctx SYS 7 99 (Some 0xAC) :: unit ctx"
  obtain i where "compute_SubmitActivity h pc (like_submit 99) ?c = (Inr (), ?c\<lparr>id_seq := 1,
      ops := [SpawnEntity i System, write_op (ActivityRecord pc) i (into_record (like_draft 99) (ActorId 0xAC))]\<rparr>)"
    using submit_activity_runs[OF assms, of ?c "like_submit 99" "ActorId 0xAC"]
    by (auto simp: like_submit_def like_draft_def gate_evaluation)
  then show ?thesis using postcards_work_all[OF assms(1)]
    by (simp add: injected_actor_reaches_compute_as_activity_author_def bridged_def kernel_compute_inner_def drain_ops_def Let_def
        find_component_write_op into_record_def)
qed

definition pipeline_ctx :: "caps \<Rightarrow> unit ctx" where
  [test_defs]: "pipeline_ctx cs = axiom_ctx cs 0x11 100"

definition empty_caps_reject :: "postcards \<Rightarrow> bool" where
  [test_defs]: "empty_caps_reject pc = passes
     [errs (process_action (compute_GdprEraseUser pc \<lparr>geu_schema_version = 1, geu_user = UserId 1\<rparr>))] (pipeline_ctx 0)"

definition gdpr_erase_emits_schedule_event :: "postcards \<Rightarrow> caps \<Rightarrow> bool" where
  [test_defs]: "gdpr_erase_emits_schedule_event pc SYS = passes
     [yields (process_action (compute_GdprEraseUser pc \<lparr>geu_schema_version = 1, geu_user = UserId 42\<rparr>))
        (\<lambda>es. length es = 1 \<and> er_type_code (es ! 0) = TYPE_CODE (UserErasureScheduled pc))] (pipeline_ctx SYS)"

definition register_user_rejects_weak_kdf :: "blake3 \<Rightarrow> postcards \<Rightarrow> caps \<Rightarrow> bool" where
  [test_defs]: "register_user_rejects_weak_kdf h pc SYS = passes
     [fails (process_action (compute_RegisterUser h pc weak_register_user)) is_invalid_input] (pipeline_ctx SYS)"

lemma pipeline_tests_pass:
  assumes "postcards_work pc" "SYS \<noteq> 0"
  shows "empty_caps_reject pc" "gdpr_erase_emits_schedule_event pc SYS" "register_user_rejects_weak_kdf h pc SYS"
  using assms(2)
  by (simp_all add: test_defs script_simps process_action_def ensure_caps_def bnd_def ActionContext_new_def erase_user_runs[OF assms(1)]
      Let_def drain_events_def UserErasureScheduled_def compute_RegisterUser_def ensure_schema_version_def meta_defs kdf_min_defs)

section \<open>Events\<close>

definition core_event_type_code_pins_match_spec ::
  "postcards \<Rightarrow> runtime_bootstrap codec \<Rightarrow> user_erasure_completed codec \<Rightarrow> backup_erasure_propagated codec
    \<Rightarrow> gdpr_policy_violation codec \<Rightarrow> signature_class_policy codec \<Rightarrow> cross_shell_activity codec
    \<Rightarrow> per_region_erasure_progress codec \<Rightarrow> dek_migration_completed codec \<Rightarrow> unit compliance_tier_change codec
    \<Rightarrow> replica_id_allocation codec \<Rightarrow> audit_receipt_key_policy codec \<Rightarrow> bool" where
  [test_defs]: "core_event_type_code_pins_match_spec pc c1 c3 c4 c5 c6 c7 c8 c9 c10 c13 c14 =
     (TYPE_CODE (RuntimeBootstrap c1) = 0x00030F01 \<and> TYPE_CODE (UserErasureScheduled pc) = 0x00030F02
      \<and> TYPE_CODE (UserErasureCompleted c3) = 0x00030F03 \<and> TYPE_CODE (BackupErasurePropagated c4) = 0x00030F04
      \<and> TYPE_CODE (GdprPolicyViolation c5) = 0x00030F05 \<and> TYPE_CODE (SignatureClassPolicy c6) = 0x00030F06
      \<and> TYPE_CODE (CrossShellActivity c7) = 0x00030F07 \<and> TYPE_CODE (PerRegionErasureProgress c8) = 0x00030F08
      \<and> TYPE_CODE (DekMigrationCompleted c9) = 0x00030F09 \<and> TYPE_CODE (ComplianceTierChange c10) = 0x00030F0A
      \<and> TYPE_CODE (ReplicaIdAllocation c13) = 0x00030F0D \<and> TYPE_CODE (AuditReceiptKeyPolicy c14) = 0x00030F0E)"

definition from_manifest_str_parses_all :: bool where
  [test_defs]: "from_manifest_str_parses_all =
     (from_manifest_str ''none'' = Some RSC_None \<and> from_manifest_str ''ed25519'' = Some RSC_Ed25519
      \<and> from_manifest_str ''ml-dsa-65'' = Some RSC_MlDsa65 \<and> from_manifest_str ''hybrid'' = Some RSC_Hybrid
      \<and> from_manifest_str ''ML-DSA-65'' = None \<and> from_manifest_str ''dilithium'' = None)"

definition replica_id_allocation_type_code_matches_typecode_constant :: "replica_id_allocation codec \<Rightarrow> bool" where
  [test_defs]: "replica_id_allocation_type_code_matches_typecode_constant c = (TYPE_CODE (ReplicaIdAllocation c) = REPLICA_ID_ALLOCATION)"

definition audit_receipt_key_policy_type_code_matches_typecode_constant :: "audit_receipt_key_policy codec \<Rightarrow> bool" where
  [test_defs]: "audit_receipt_key_policy_type_code_matches_typecode_constant c =
     (TYPE_CODE (AuditReceiptKeyPolicy c) = AUDIT_RECEIPT_KEY_POLICY)"

definition forward_looking_events_are_define_only :: "replica_id_allocation codec \<Rightarrow> audit_receipt_key_policy codec \<Rightarrow> bool" where
  [test_defs]: "forward_looking_events_are_define_only c13 c14 =
     (SCHEMA_VERSION (ReplicaIdAllocation c13) = 1 \<and> SCHEMA_VERSION (AuditReceiptKeyPolicy c14) = 2
      \<and> TYPE_CODE (ReplicaIdAllocation c13) = 0x00030F0D \<and> TYPE_CODE (AuditReceiptKeyPolicy c14) = 0x00030F0E)"

definition attestation_serde_round_trip_preserves_64_bytes :: "bytes codec \<Rightarrow> bool" where
  [test_defs]: "attestation_serde_round_trip_preserves_64_bytes vec =
     (let payload = replicate 64 0xA1; att = Attestation_from_bytes payload
      in some_with (Attestation_serialize vec att) (\<lambda>b. some_with (Attestation_deserialize vec b) (\<lambda>back.
           att = back \<and> att_inner back = payload \<and> length (att_inner back) = 64)))"

definition attestation_wire_format_byte_identical_to_vec_u8_length_64 :: "bytes codec \<Rightarrow> bool" where
  [test_defs]: "attestation_wire_format_byte_identical_to_vec_u8_length_64 vec =
     (let payload = replicate 64 0xC7
      in some_with (Attestation_serialize vec (Attestation_from_bytes payload)) (\<lambda>a. a = encoded vec payload))"

definition rejects_payload :: "bytes codec \<Rightarrow> bytes \<Rightarrow> bool" where
  [test_defs]: "rejects_payload vec payload = (Attestation_deserialize vec (encoded vec payload) = None)"

definition attestation_deserialize_rejects_short_payload :: "bytes codec \<Rightarrow> bool" where
  [test_defs]: "attestation_deserialize_rejects_short_payload vec = rejects_payload vec (replicate 32 0xBB)"

definition attestation_deserialize_rejects_long_payload :: "bytes codec \<Rightarrow> bool" where
  [test_defs]: "attestation_deserialize_rejects_long_payload vec = rejects_payload vec (replicate 65 0xCC)"

definition attestation_deserialize_rejects_empty_payload :: "bytes codec \<Rightarrow> bool" where
  [test_defs]: "attestation_deserialize_rejects_empty_payload vec = rejects_payload vec []"

lemma event_pin_tests_pass:
  "core_event_type_code_pins_match_spec pc c1 c3 c4 c5 c6 c7 c8 c9 c10 c13 c14" "from_manifest_str_parses_all"
  "replica_id_allocation_type_code_matches_typecode_constant c13" "audit_receipt_key_policy_type_code_matches_typecode_constant c14"
  "forward_looking_events_are_define_only c13 c14"
  by (simp_all add: test_defs event_type_defs from_manifest_str_def core_event_defs)

lemma attestation_tests_pass:
  assumes "codec_works vec"
  shows "attestation_serde_round_trip_preserves_64_bytes vec" "attestation_wire_format_byte_identical_to_vec_u8_length_64 vec"
    "attestation_deserialize_rejects_short_payload vec" "attestation_deserialize_rejects_long_payload vec"
    "attestation_deserialize_rejects_empty_payload vec"
  using encoded_works(1,2)[OF assms]
  by (simp_all add: test_defs Attestation_serialize_def Attestation_deserialize_def Attestation_from_bytes_def)

end
