(* ===== verification/Manifest_Tests.thy ===== *)
theory Manifest_Tests
  imports Manifest Unit_Tests
begin

text \<open>The tests of \<^verbatim>\<open>arkhe-forge-platform/src/manifest.rs\<close>.  Their inputs are two TOML texts and these texts with a field
replaced; \<^verbatim>\<open>manifest_toml\<close> prints a snapshot in the layout of the two texts, and what is assumed of the TOML crate is that it
reads back the texts it prints for snapshots of plain strings.\<close>

section \<open>The texts\<close>

definition newline :: string where "newline = [CHR 0x0A]"
definition quoted :: "string \<Rightarrow> string" where "quoted s = [CHR 0x22] @ s @ [CHR 0x22]"

definition setting :: "string \<Rightarrow> string \<Rightarrow> string" where
  "setting key v = key @ '' = '' @ v @ newline"

definition toml_bool :: "bool \<Rightarrow> string" where
  "toml_bool b = (if b then ''true'' else ''false'')"

definition manifest_toml :: "bool \<Rightarrow> manifest_snapshot \<Rightarrow> string" where
  "manifest_toml frontend m =
     newline @ setting ''schema_version'' (nat_dec (unat (ms_schema_version m)))
     @ newline @ ''[shell]'' @ newline @ setting ''shell_id'' (quoted (sh_shell_id (ms_shell m)))
     @ setting ''display_name'' (quoted (sh_display_name (ms_shell m)))
     @ newline @ ''[runtime]'' @ newline @ setting ''runtime_max'' (quoted (rt_runtime_max (ms_runtime m)))
     @ setting ''runtime_current'' (quoted (rt_runtime_current (ms_runtime m)))
     @ newline @ ''[audit]'' @ newline @ setting ''pii_cipher'' (quoted (au_pii_cipher (ms_audit m)))
     @ setting ''dek_backend'' (quoted (au_dek_backend (ms_audit m)))
     @ setting ''kms_auto_promote'' (quoted (au_kms_auto_promote (ms_audit m)))
     @ setting ''signature_class'' (quoted (au_signature_class (ms_audit m)))
     @ setting ''compliance_tier'' (nat_dec (unat (au_compliance_tier (ms_audit m))))
     @ (if frontend then newline @ ''[frontend]'' @ newline
          @ setting ''tls_required'' (toml_bool (fr_tls_required (ms_frontend m)))
          @ setting ''alpha_credential_rotation_required'' (toml_bool (fr_alpha_credential_rotation_required (ms_frontend m)))
        else [])"

definition tier0_dev :: manifest_snapshot where
  "tier0_dev = \<lparr>ms_schema_version = 1,
     ms_shell = \<lparr>sh_shell_id = ''shell.dev.example'', sh_display_name = ''Dev Sandbox''\<rparr>,
     ms_runtime = \<lparr>rt_runtime_max = ''0.15'', rt_runtime_current = ''0.13''\<rparr>,
     ms_audit = \<lparr>au_pii_cipher = ''xchacha20-poly1305'', au_dek_backend = ''software-kek'', au_kms_auto_promote = ''manual'',
       au_signature_class = ''ed25519'', au_compliance_tier = 0\<rparr>,
     ms_frontend = FrontendSection_default\<rparr>"

definition tier1_prod :: manifest_snapshot where
  "tier1_prod = \<lparr>ms_schema_version = 1,
     ms_shell = \<lparr>sh_shell_id = ''shell.prod.example'', sh_display_name = ''Prod Shell''\<rparr>,
     ms_runtime = \<lparr>rt_runtime_max = ''0.20'', rt_runtime_current = ''0.13''\<rparr>,
     ms_audit = \<lparr>au_pii_cipher = ''aes-256-gcm-siv'', au_dek_backend = ''aws-kms'', au_kms_auto_promote = ''after_60min'',
       au_signature_class = ''hybrid'', au_compliance_tier = 1\<rparr>,
     ms_frontend = \<lparr>fr_tls_required = True, fr_alpha_credential_rotation_required = True\<rparr>\<rparr>"

definition TIER0_DEV_TOML :: string where "TIER0_DEV_TOML = manifest_toml False tier0_dev"
definition TIER1_PROD_TOML :: string where "TIER1_PROD_TOML = manifest_toml True tier1_prod"

text \<open>\<^verbatim>\<open>TIER0_DEV_TOML.replace(..)\<close>, where the replaced text is the value of one field.\<close>
definition with_audit :: "(audit_section \<Rightarrow> audit_section) \<Rightarrow> manifest_snapshot \<Rightarrow> manifest_snapshot" where
  [test_defs]: "with_audit f m = m\<lparr>ms_audit := f (ms_audit m)\<rparr>"
definition with_runtime :: "(runtime_section \<Rightarrow> runtime_section) \<Rightarrow> manifest_snapshot \<Rightarrow> manifest_snapshot" where
  [test_defs]: "with_runtime f m = m\<lparr>ms_runtime := f (ms_runtime m)\<rparr>"
definition with_shell :: "(shell_section \<Rightarrow> shell_section) \<Rightarrow> manifest_snapshot \<Rightarrow> manifest_snapshot" where
  [test_defs]: "with_shell f m = m\<lparr>ms_shell := f (ms_shell m)\<rparr>"

section \<open>What the parser is assumed to do\<close>

definition plain :: "string \<Rightarrow> bool" where
  "plain s \<longleftrightarrow> list_all (\<lambda>c. let v = of_char c :: nat in 32 \<le> v \<and> v < 127 \<and> v \<noteq> 0x22 \<and> v \<noteq> 0x5C) s"

definition plain_manifest :: "manifest_snapshot \<Rightarrow> bool" where
  "plain_manifest m \<longleftrightarrow> list_all plain [sh_shell_id (ms_shell m), sh_display_name (ms_shell m), rt_runtime_max (ms_runtime m),
     rt_runtime_current (ms_runtime m), au_pii_cipher (ms_audit m), au_dek_backend (ms_audit m), au_kms_auto_promote (ms_audit m),
     au_signature_class (ms_audit m)]"

definition toml_reads :: "toml \<Rightarrow> bool" where
  "toml_reads T \<longleftrightarrow> (\<forall>frontend m. plain_manifest m \<longrightarrow> frontend \<or> ms_frontend m = FrontendSection_default \<longrightarrow>
     toml_from_str T (manifest_toml frontend m) = Inr m)"

definition toml_prints :: "toml \<Rightarrow> bool" where
  "toml_prints T \<longleftrightarrow> (\<forall>m. \<exists>s. toml_to_string T m = Inr s)"

lemma utf8_ascii: "list_all (\<lambda>c. (of_char c :: nat) < 128) s \<Longrightarrow> from_utf8 (str_bytes s) = Inr s"
proof -
  assume a: "list_all (\<lambda>c. (of_char c :: nat) < 128) s"
  have "(of_char c :: u8) < 0x80" if "(of_char c :: nat) < 128" for c
  proof -
    have "(of_char c :: u8) = of_nat (of_char c)" by (cases c) (simp add: of_char_def horner_sum_of_bool_2_less)
    moreover have "unat (of_nat (of_char c) :: u8) = of_char c" using that by (simp add: unat_of_nat)
    ultimately show ?thesis using that by (simp add: word_less_nat_alt)
  qed
  then have "utf8_check i (str_bytes s) = None" for i
    using a by (induction s arbitrary: i) (simp_all add: str_bytes_def utf8_next_def)
  then show ?thesis by (simp add: from_utf8_def bytes_str_bytes)
qed

lemma ascii_digit: "d < 10 \<Longrightarrow> (of_char (digit_char d) :: nat) < 128"
  by (simp add: digit_char_def)

lemma ascii_nat_dec: "list_all (\<lambda>c. (of_char c :: nat) < 128) (nat_dec n)"
proof (induction n rule: nat_dec.induct)
  case (1 n)
  then show ?case by (subst nat_dec.simps) (simp add: ascii_digit)
qed

lemma ascii_plain: "plain s \<Longrightarrow> list_all (\<lambda>c. (of_char c :: nat) < 128) s"
  by (auto simp: plain_def Let_def list_all_iff)

lemma ascii_manifest: "plain_manifest m \<Longrightarrow> list_all (\<lambda>c. (of_char c :: nat) < 128) (manifest_toml frontend m)"
  by (simp add: manifest_toml_def plain_manifest_def setting_def newline_def quoted_def toml_bool_def ascii_nat_dec ascii_plain)

lemma load_text:
  assumes "toml_reads T" "plain_manifest m" "frontend \<or> ms_frontend m = FrontendSection_default"
  shows "load h T (str_bytes (manifest_toml frontend m)) =
     (case validate m of Inl e \<Rightarrow> Inl e | Inr _ \<Rightarrow> map_sum id (Pair m) (canonical_digest h T m))"
  using assms utf8_ascii[OF ascii_manifest[OF assms(2)]]
  by (auto simp: load_def toml_reads_def split: sum.split)

section \<open>The tests\<close>

definition loads :: "blake3 \<Rightarrow> toml \<Rightarrow> string \<Rightarrow> manifest_error + (manifest_snapshot \<times> bytes)" where
  [test_defs]: "loads h T text = load h T (str_bytes text)"

definition load_valid_tier0_dev_manifest :: "blake3 \<Rightarrow> toml \<Rightarrow> bool" where
  [test_defs]: "load_valid_tier0_dev_manifest h T = ok_with (loads h T TIER0_DEV_TOML) (\<lambda>(snap, digest).
     ms_schema_version snap = 1 \<and> au_compliance_tier (ms_audit snap) = 0 \<and> au_dek_backend (ms_audit snap) = ''software-kek''
     \<and> length digest = 32 \<and> fr_tls_required (ms_frontend snap))"

definition load_valid_tier1_prod_manifest :: "blake3 \<Rightarrow> toml \<Rightarrow> bool" where
  [test_defs]: "load_valid_tier1_prod_manifest h T = ok_with (loads h T TIER1_PROD_TOML) (\<lambda>(snap, digest).
     au_compliance_tier (ms_audit snap) = 1 \<and> au_dek_backend (ms_audit snap) = ''aws-kms'' \<and> length digest = 32)"

definition digest_is_deterministic_across_loads :: "blake3 \<Rightarrow> toml \<Rightarrow> bool" where
  [test_defs]: "digest_is_deterministic_across_loads h T = ok_with (loads h T TIER1_PROD_TOML) (\<lambda>(_, d1).
     ok_with (loads h T TIER1_PROD_TOML) (\<lambda>(_, d2). d1 = d2))"

definition rejects_tier0 :: "blake3 \<Rightarrow> toml \<Rightarrow> (manifest_snapshot \<Rightarrow> manifest_snapshot) \<Rightarrow> (manifest_error \<Rightarrow> bool) \<Rightarrow> bool" where
  [test_defs]: "rejects_tier0 h T f P = err_with (loads h T (manifest_toml False (f tier0_dev))) P"

definition is_invalid_value :: "string \<Rightarrow> manifest_error \<Rightarrow> bool" where
  [test_defs]: "is_invalid_value field e = (case e of InvalidValue fld _ \<Rightarrow> fld = field | _ \<Rightarrow> False)"

definition is_tier_mismatch :: "u8 \<Rightarrow> manifest_error \<Rightarrow> bool" where
  [test_defs]: "is_tier_mismatch tier e = (case e of TierBackendMismatch t _ \<Rightarrow> t = tier | _ \<Rightarrow> False)"

definition is_parse_error :: "manifest_error \<Rightarrow> bool" where
  [test_defs]: "is_parse_error e = (case e of ParseError _ \<Rightarrow> True | _ \<Rightarrow> False)"

definition tier0_with_kms_backend_rejected :: "blake3 \<Rightarrow> toml \<Rightarrow> bool" where
  [test_defs]: "tier0_with_kms_backend_rejected h T =
     rejects_tier0 h T (with_audit (\<lambda>a. a\<lparr>au_dek_backend := ''aws-kms''\<rparr>)) (is_tier_mismatch 0)"

definition tier1_with_software_kek_rejected :: "blake3 \<Rightarrow> toml \<Rightarrow> bool" where
  [test_defs]: "tier1_with_software_kek_rejected h T =
     err_with (loads h T (manifest_toml True (with_audit (\<lambda>a. a\<lparr>au_dek_backend := ''software-kek''\<rparr>) tier1_prod))) (is_tier_mismatch 1)"

definition software_kek_past_0_15_refused :: "blake3 \<Rightarrow> toml \<Rightarrow> bool" where
  [test_defs]: "software_kek_past_0_15_refused h T =
     rejects_tier0 h T (with_runtime (\<lambda>r. r\<lparr>rt_runtime_current := ''0.16'', rt_runtime_max := ''0.20''\<rparr>))
       (\<lambda>e. case e of SoftwareKekProductionRefused _ \<Rightarrow> True | _ \<Rightarrow> False)"

definition runtime_max_less_than_current_rejected :: "blake3 \<Rightarrow> toml \<Rightarrow> bool" where
  [test_defs]: "runtime_max_less_than_current_rejected h T =
     rejects_tier0 h T (with_runtime (\<lambda>r. r\<lparr>rt_runtime_max := ''0.5''\<rparr>)) (\<lambda>e. e = VersionMismatch)"

definition parse_error_on_malformed_toml :: "blake3 \<Rightarrow> toml \<Rightarrow> bool" where
  [test_defs]: "parse_error_on_malformed_toml h T = err_with (loads h T ''this is not toml == invalid'') is_parse_error"

definition bad_semver_rejected :: "blake3 \<Rightarrow> toml \<Rightarrow> bool" where
  [test_defs]: "bad_semver_rejected h T =
     rejects_tier0 h T (with_runtime (\<lambda>r. r\<lparr>rt_runtime_current := ''not-a-version''\<rparr>)) (is_invalid_value ''runtime.runtime_current'')"

definition manifest_rejects_unknown_signature_class :: "blake3 \<Rightarrow> toml \<Rightarrow> bool" where
  [test_defs]: "manifest_rejects_unknown_signature_class h T =
     rejects_tier0 h T (with_audit (\<lambda>a. a\<lparr>au_signature_class := ''dilithium''\<rparr>)) (is_invalid_value ''audit.signature_class'')"

definition manifest_accepts_each_valid_signature_class :: "blake3 \<Rightarrow> toml \<Rightarrow> bool" where
  [test_defs]: "manifest_accepts_each_valid_signature_class h T = list_all (\<lambda>class.
     is_ok (loads h T (manifest_toml False (with_audit (\<lambda>a. a\<lparr>au_signature_class := class\<rparr>) tier0_dev))))
     [''none'', ''ed25519'', ''ml-dsa-65'', ''hybrid'']"

definition shell_id_over_32_bytes_rejected :: "blake3 \<Rightarrow> toml \<Rightarrow> bool" where
  [test_defs]: "shell_id_over_32_bytes_rejected h T =
     rejects_tier0 h T (with_shell (\<lambda>x. x\<lparr>sh_shell_id := replicate 33 (CHR ''a'')\<rparr>)) (is_invalid_value ''shell.shell_id'')"

definition emit_runtime_bootstrap_appends_event :: "blake3 \<Rightarrow> toml \<Rightarrow> runtime_bootstrap codec \<Rightarrow> caps \<Rightarrow> bool" where
  [test_defs]: "emit_runtime_bootstrap_appends_event h T pc SYS = ok_with (loads h T TIER0_DEV_TOML) (\<lambda>(_, digest). passes
     [unwraps (emit_runtime_bootstrap pc digest (SemVer_new 0 11 0) (SemVer_new 0 11 0) [0x00030001, 0x00030002] 1),
      takes drain_events (\<lambda>es. length es = 1 \<and> er_type_code (es ! 0) = 0x00030F01 \<and> er_tick (es ! 0) = 1
        \<and> some_with (cd_dec pc (er_payload (es ! 0))) (\<lambda>bootstrap.
             rb_manifest_digest bootstrap = digest \<and> rb_l0_semver bootstrap = SemVer_new 0 11 0))]
     (ActionContext_new (replicate 32 0x11) 1 1 System SYS :: unit ctx))"

definition frontend_defaults_when_omitted :: "blake3 \<Rightarrow> toml \<Rightarrow> bool" where
  [test_defs]: "frontend_defaults_when_omitted h T = ok_with (loads h T TIER0_DEV_TOML) (\<lambda>(snap, _).
     fr_tls_required (ms_frontend snap) \<and> fr_alpha_credential_rotation_required (ms_frontend snap))"

definition parse_version_accepts_two_or_three_components :: bool where
  [test_defs]: "parse_version_accepts_two_or_three_components =
     (parse_version ''0.13'' = Some (0, 13, 0) \<and> parse_version ''0.13.3'' = Some (0, 13, 3) \<and> parse_version '''' = None
      \<and> parse_version ''0.13.3.4'' = None \<and> parse_version ''abc.def'' = None)"

lemma parsed_versions:
  "parse_version ''0.13'' = Some (0, 13, 0)" "parse_version ''0.15'' = Some (0, 15, 0)" "parse_version ''0.20'' = Some (0, 20, 0)"
  "parse_version ''0.16'' = Some (0, 16, 0)" "parse_version ''0.5'' = Some (0, 5, 0)" "parse_version ''0.13.3'' = Some (0, 13, 3)"
  "parse_version '''' = None" "parse_version ''0.13.3.4'' = None" "parse_version ''abc.def'' = None"
  "parse_version ''not-a-version'' = None"
  by (simp_all add: parse_version_def splitn3_def parse_u16_def to_digit_def Let_def)

lemmas manifest_evaluation = validate_def parsed_versions version_less_def check_tier_backend_def from_manifest_str_def
  canonical_digest_def FrontendSection_default_def

lemma plain_values:
  "plain ''aws-kms''" "plain ''software-kek''" "plain ''0.16''" "plain ''0.20''" "plain ''0.5''" "plain ''not-a-version''"
  "plain ''dilithium''" "plain ''none''" "plain ''ed25519''" "plain ''ml-dsa-65''" "plain ''hybrid''" "plain (replicate n (CHR ''a''))"
  "plain ''0.13''" "plain ''0.15''" "plain ''shell.dev.example''" "plain ''Dev Sandbox''" "plain ''xchacha20-poly1305''"
  "plain ''manual''" "plain ''shell.prod.example''" "plain ''Prod Shell''" "plain ''aes-256-gcm-siv''" "plain ''after_60min''"
  by (simp_all add: plain_def Let_def list_all_iff)

lemma version_test_passes: "parse_version_accepts_two_or_three_components"
  by (simp add: parse_version_accepts_two_or_three_components_def parsed_versions)

lemma malformed_test_passes:
  "toml_from_str T ''this is not toml == invalid'' = Inl e \<Longrightarrow> parse_error_on_malformed_toml h T"
  using utf8_ascii[of "''this is not toml == invalid''"]
  by (simp add: parse_error_on_malformed_toml_def loads_def load_def is_parse_error_def)

lemma rejection_tests_pass:
  assumes "toml_reads T"
  shows "tier0_with_kms_backend_rejected h T" "tier1_with_software_kek_rejected h T" "software_kek_past_0_15_refused h T"
    "runtime_max_less_than_current_rejected h T" "bad_semver_rejected h T" "manifest_rejects_unknown_signature_class h T"
    "shell_id_over_32_bytes_rejected h T"
  by (simp_all add: test_defs load_text[OF assms] plain_manifest_def plain_values tier0_dev_def tier1_prod_def manifest_evaluation)

lemma acceptance_tests_pass:
  assumes "toml_reads T" "toml_prints T" "\<And>k m. length (keyed_hash h k m) = 32"
  shows "load_valid_tier0_dev_manifest h T" "load_valid_tier1_prod_manifest h T" "digest_is_deterministic_across_loads h T"
    "manifest_accepts_each_valid_signature_class h T" "frontend_defaults_when_omitted h T"
proof -
  have d: "\<exists>d. canonical_digest h T m = Inr d \<and> length d = 32" for m
    using assms(2,3) by (auto simp: canonical_digest_def toml_prints_def split: sum.split) (metis sum.distinct(1))
  note run = test_defs TIER0_DEV_TOML_def TIER1_PROD_TOML_def load_text[OF assms(1)] plain_manifest_def plain_values
    validate_def parsed_versions version_less_def check_tier_backend_def from_manifest_str_def FrontendSection_default_def
  show "load_valid_tier0_dev_manifest h T" "frontend_defaults_when_omitted h T"
    using d[of tier0_dev] by (auto simp: run tier0_dev_def)
  show "load_valid_tier1_prod_manifest h T" "digest_is_deterministic_across_loads h T"
    using d[of tier1_prod] by (auto simp: run tier1_prod_def)
  have "is_ok (map_sum id (Pair m) (canonical_digest h T m))" for m :: manifest_snapshot using d[of m] by auto
  then show "manifest_accepts_each_valid_signature_class h T" by (simp add: run tier0_dev_def)
qed

lemma bootstrap_test_passes:
  assumes "toml_reads T" "toml_prints T" "codec_works pc"
  shows "emit_runtime_bootstrap_appends_event h T pc SYS"
proof -
  obtain d where "canonical_digest h T tier0_dev = Inr d"
    using assms(2)[unfolded toml_prints_def, rule_format, of tier0_dev] by (auto simp: canonical_digest_def)
  moreover have "validate tier0_dev = Inr ()" "plain_manifest tier0_dev" "ms_frontend tier0_dev = FrontendSection_default"
    by (simp_all add: tier0_dev_def manifest_evaluation plain_manifest_def plain_values)
  ultimately show ?thesis using encoded_works[OF assms(3)]
    by (simp add: emit_runtime_bootstrap_appends_event_def loads_def TIER0_DEV_TOML_def load_text[OF assms(1)] script_simps
        emit_runtime_bootstrap_def emit_event_def RuntimeBootstrap_def RUNTIME_BOOTSTRAP_def drain_events_def ActionContext_new_def)
qed

end
