(* ===== verification/Threshold_Tests.thy ===== *)
theory Threshold_Tests
  imports Secret_Sharing Unit_Tests
begin

text \<open>The tests of \<^verbatim>\<open>hf2_kms/threshold.rs\<close>.  The entropy source is an argument, assumed to fill the buffer it is given.\<close>

definition entropy_works :: "(nat \<Rightarrow> string + bytes) \<Rightarrow> bool" where
  "entropy_works entropy \<longleftrightarrow> (\<forall>n. \<exists>b. entropy n = Inr b \<and> length b = n)"

definition secret_of :: "string \<Rightarrow> bytes" where
  [test_defs]: "secret_of s = map of_char s"

section \<open>Configurations\<close>

definition default_config_is_2_of_3 :: bool where
  [test_defs]: "default_config_is_2_of_3 =
     (let c = ThresholdConfig_DEFAULT in tc_t c = 2 \<and> tc_n c = 3 \<and> is_valid c)"

definition reject_t_greater_than_n :: bool where
  [test_defs]: "reject_t_greater_than_n = (\<not> is_valid \<lparr>tc_t = 5, tc_n = 3\<rparr>)"

definition reject_t_below_two :: bool where
  [test_defs]: "reject_t_below_two = (\<not> is_valid \<lparr>tc_t = 1, tc_n = 3\<rparr>)"

definition split_invalid_config_errors :: "(nat \<Rightarrow> string + bytes) \<Rightarrow> bool" where
  [test_defs]: "split_invalid_config_errors entropy = err_with (split_secret entropy (secret_of ''secret'') \<lparr>tc_t = 1, tc_n = 3\<rparr>)
     (\<lambda>e. case e of InvalidConfig _ _ \<Rightarrow> True | _ \<Rightarrow> False)"

definition combine_invalid_config_errors :: bool where
  [test_defs]: "combine_invalid_config_errors = err_with (combine_shares [] \<lparr>tc_t = 0, tc_n = 0\<rparr>) (\<lambda>e. e = InvalidConfig 0 0)"

definition combine_insufficient_shares_errors :: bool where
  [test_defs]: "combine_insufficient_shares_errors =
     err_with (combine_shares [\<lparr>sh_index = 1, sh_bytes = replicate 32 0\<rparr>] ThresholdConfig_DEFAULT) (\<lambda>e. e = InsufficientShares 2 1)"

lemma two_above_one: "\<not> (2 :: u8) \<le> 1"
  by (simp add: word_le_nat_alt)

lemma config_tests_pass:
  "default_config_is_2_of_3" "reject_t_greater_than_n" "reject_t_below_two" "split_invalid_config_errors entropy"
  "combine_invalid_config_errors" "combine_insufficient_shares_errors"
  by (simp_all add: test_defs ThresholdConfig_DEFAULT_def is_valid_def split_secret_def combine_shares_def two_above_one)

section \<open>Splitting and combining\<close>

definition roundtrip_2_of_3 :: "(nat \<Rightarrow> string + bytes) \<Rightarrow> bool" where
  [test_defs]: "roundtrip_2_of_3 entropy = (let secret = secret_of ''auto-promote-token-sample-bytes!'' in length secret = 32 \<and>
     ok_with (split_secret entropy secret ThresholdConfig_DEFAULT) (\<lambda>shares. length shares = 3 \<and>
       list_all (\<lambda>(i, j). ok_with (combine_shares [shares ! i, shares ! j] ThresholdConfig_DEFAULT) (\<lambda>recovered. recovered = secret))
         [(0, 1), (0, 2), (1, 2)]))"

definition roundtrip_3_of_5 :: "(nat \<Rightarrow> string + bytes) \<Rightarrow> bool" where
  [test_defs]: "roundtrip_3_of_5 entropy = (let config = \<lparr>tc_t = 3, tc_n = 5\<rparr>; secret = map of_nat [0..<64] in
     ok_with (split_secret entropy secret config) (\<lambda>shares. length shares = 5 \<and>
       ok_with (combine_shares [shares ! 0, shares ! 2, shares ! 4] config) (\<lambda>recovered. recovered = secret)))"

definition share_indices_are_one_through_n :: "(nat \<Rightarrow> string + bytes) \<Rightarrow> bool" where
  [test_defs]: "share_indices_are_one_through_n entropy =
     ok_with (split_secret entropy (secret_of ''hi'') \<lparr>tc_t = 2, tc_n = 4\<rparr>) (\<lambda>shares. map sh_index shares = [1, 2, 3, 4])"

definition after_split :: "(nat \<Rightarrow> string + bytes) \<Rightarrow> string \<Rightarrow> (share list \<Rightarrow> share list) \<Rightarrow> (threshold_error \<Rightarrow> bool) \<Rightarrow> bool" where
  [test_defs]: "after_split entropy s f P = ok_with (split_secret entropy (secret_of s) ThresholdConfig_DEFAULT) (\<lambda>shares.
     err_with (combine_shares (f shares) ThresholdConfig_DEFAULT) P)"

definition fewer_than_t_reveals_no_info_sampled :: "(nat \<Rightarrow> string + bytes) \<Rightarrow> bool" where
  [test_defs]: "fewer_than_t_reveals_no_info_sampled entropy = after_split entropy ''topsecret'' (\<lambda>shares. [shares ! 0])
     (\<lambda>e. case e of InsufficientShares _ _ \<Rightarrow> True | _ \<Rightarrow> False)"

definition reject_duplicate_share_indices :: "(nat \<Rightarrow> string + bytes) \<Rightarrow> bool" where
  [test_defs]: "reject_duplicate_share_indices entropy = after_split entropy ''hi'' (\<lambda>shares. [shares ! 0, shares ! 0])
     (\<lambda>e. e = DuplicateShares)"

definition reject_zero_index_share :: "(nat \<Rightarrow> string + bytes) \<Rightarrow> bool" where
  [test_defs]: "reject_zero_index_share entropy = after_split entropy ''hi'' (\<lambda>shares. shares[0 := (shares ! 0)\<lparr>sh_index := 0\<rparr>])
     (\<lambda>e. e = InvalidShareIndex 0)"

definition reject_mismatched_share_length :: "(nat \<Rightarrow> string + bytes) \<Rightarrow> bool" where
  [test_defs]: "reject_mismatched_share_length entropy = after_split entropy ''hello''
     (\<lambda>shares. [shares ! 0, (shares ! 1)\<lparr>sh_bytes := sh_bytes (shares ! 1) @ [0xFF]\<rparr>]) (\<lambda>e. e = ShareLengthMismatch 5 6)"

text \<open>\<^verbatim>\<open>share.bytes[0] ^= 0xFF\<close>\<close>
definition flip_first_byte :: "share \<Rightarrow> share" where
  [test_defs]: "flip_first_byte s = s\<lparr>sh_bytes := (sh_bytes s)[0 := xor (sh_bytes s ! 0) 0xFF]\<rparr>"

definition tampered_share_yields_wrong_secret_silently :: "(nat \<Rightarrow> string + bytes) \<Rightarrow> bool" where
  [test_defs]: "tampered_share_yields_wrong_secret_silently entropy = (let secret = secret_of ''integrity-marker'' in
     ok_with (split_secret entropy secret ThresholdConfig_DEFAULT) (\<lambda>shares.
       let tampered = shares[1 := flip_first_byte (shares ! 1)]
       in ok_with (combine_shares (take 2 tampered) ThresholdConfig_DEFAULT) (\<lambda>recovered. recovered \<noteq> secret)))"

lemma split_works:
  assumes "entropy_works entropy" "is_valid config"
  shows "\<exists>buf. split_secret entropy secret config = Inr (map (share_of config secret buf) [1..<Suc (unat (tc_n config))])"
proof -
  obtain b where "entropy (length secret * (unat (tc_t config) - 1)) = Inr b" using assms(1) by (auto simp: entropy_works_def)
  then show ?thesis unfolding split_secret_shares using assms(2) by (cases "length secret * (unat (tc_t config) - 1) = 0") auto
qed

lemma is_valid_default: "is_valid ThresholdConfig_DEFAULT"
  by (simp add: is_valid_def ThresholdConfig_DEFAULT_def)

lemma upt_shares: "[1..<Suc 3] = [1, 2, 3]" "[1..<Suc 4] = [1, 2, 3, 4]" "[1..<Suc 5] = [1, 2, 3, 4, 5]"
  by (simp_all add: upt_rec)

lemma split_default:
  assumes "entropy_works entropy"
  shows "\<exists>buf. split_secret entropy secret ThresholdConfig_DEFAULT
     = Inr [share_of ThresholdConfig_DEFAULT secret buf 1, share_of ThresholdConfig_DEFAULT secret buf 2,
            share_of ThresholdConfig_DEFAULT secret buf 3]"
  using split_works[OF assms is_valid_default, of secret] upt_shares(1)
  by (simp add: ThresholdConfig_DEFAULT_def del: upt_Suc upt_rec_numeral)

lemma share_index: "sh_index (share_of c s b i) = of_nat i" "length (sh_bytes (share_of c s b i)) = length s"
  by (simp_all add: share_of_def)

lemma share_eq: "i < 256 \<Longrightarrow> j < 256 \<Longrightarrow> share_of c s b i = share_of c s b j \<longleftrightarrow> i = j"
  using share_of_inject by blast

lemma roundtrip_tests_pass:
  assumes "entropy_works entropy"
  shows "roundtrip_2_of_3 entropy" "roundtrip_3_of_5 entropy" "share_indices_are_one_through_n entropy"
proof -
  obtain buf where s: "split_secret entropy (secret_of ''auto-promote-token-sample-bytes!'') ThresholdConfig_DEFAULT
     = Inr [share_of ThresholdConfig_DEFAULT (secret_of ''auto-promote-token-sample-bytes!'') buf 1,
            share_of ThresholdConfig_DEFAULT (secret_of ''auto-promote-token-sample-bytes!'') buf 2,
            share_of ThresholdConfig_DEFAULT (secret_of ''auto-promote-token-sample-bytes!'') buf 3]" (is "_ = Inr ?shares")
    using split_default[OF assms] by blast
  have "combine_shares [a, b] ThresholdConfig_DEFAULT = Inr (secret_of ''auto-promote-token-sample-bytes!'')"
    if "(a, b) \<in> {(?shares ! 0, ?shares ! 1), (?shares ! 0, ?shares ! 2), (?shares ! 1, ?shares ! 2)}" for a b
    using combine_shares_split[OF s, of "[a, b]"] that by (auto simp: share_eq ThresholdConfig_DEFAULT_def)
  then show "roundtrip_2_of_3 entropy"
    unfolding roundtrip_2_of_3_def Let_def s by (simp add: secret_of_def)
next
  let ?c = "\<lparr>tc_t = 3, tc_n = 5\<rparr>" and ?s = "map of_nat [0..<64] :: bytes"
  obtain buf where s: "split_secret entropy ?s ?c = Inr (map (share_of ?c ?s buf) [1, 2, 3, 4, 5])"
    using split_works[OF assms, of ?c ?s] upt_shares(3) by (auto simp: is_valid_def simp del: upt_Suc upt_rec_numeral)
  let ?chosen = "[share_of ?c ?s buf 1, share_of ?c ?s buf 3, share_of ?c ?s buf 5]"
  have "distinct ?chosen" by (simp add: share_eq)
  then have "combine_shares ?chosen ?c = Inr ?s" using combine_shares_split[OF s, of ?chosen] by simp
  then show "roundtrip_3_of_5 entropy" unfolding roundtrip_3_of_5_def Let_def s by simp
next
  obtain buf where "split_secret entropy (secret_of ''hi'') \<lparr>tc_t = 2, tc_n = 4\<rparr>
      = Inr (map (share_of \<lparr>tc_t = 2, tc_n = 4\<rparr> (secret_of ''hi'') buf) [1, 2, 3, 4])"
    using split_works[OF assms, of "\<lparr>tc_t = 2, tc_n = 4\<rparr>" "secret_of ''hi''"] upt_shares(2)
    by (auto simp: is_valid_def simp del: upt_Suc upt_rec_numeral)
  then show "share_indices_are_one_through_n entropy" by (simp add: share_indices_are_one_through_n_def share_index)
qed

lemma threshold_refusals_pass:
  assumes "entropy_works entropy"
  shows "fewer_than_t_reveals_no_info_sampled entropy" "reject_duplicate_share_indices entropy" "reject_zero_index_share entropy"
    "reject_mismatched_share_length entropy"
proof -
  have r: "after_split entropy s f P" if "\<And>buf. err_with (combine_shares (f [share_of ThresholdConfig_DEFAULT (secret_of s) buf 1,
      share_of ThresholdConfig_DEFAULT (secret_of s) buf 2, share_of ThresholdConfig_DEFAULT (secret_of s) buf 3])
      ThresholdConfig_DEFAULT) P" for s f P
    using split_default[OF assms, of "secret_of s"] that by (auto simp: after_split_def)
  show "fewer_than_t_reveals_no_info_sampled entropy" "reject_duplicate_share_indices entropy" "reject_zero_index_share entropy"
    "reject_mismatched_share_length entropy"
    unfolding fewer_than_t_reveals_no_info_sampled_def reject_duplicate_share_indices_def reject_zero_index_share_def
      reject_mismatched_share_length_def
    by (rule r, simp add: combine_shares_def share_index secret_of_def ThresholdConfig_DEFAULT_def is_valid_def)+
qed

text \<open>A changed byte of the second of two shares moves the secret by its product with the second basis value.\<close>
lemma combine_byte_pair:
  "Gf (combine_byte [s0, s1] b) = Gf (sh_bytes s0 ! b) * Gf (basis_at_zero [s0, s1] 0) + Gf (sh_bytes s1 ! b) * Gf (basis_at_zero [s0, s1] 1)"
  unfolding combine_byte_def Gf_sum[of "\<lambda>i s. gf_mul (sh_bytes s ! b) (basis_at_zero [s0, s1] i)"]
  by (simp add: Gf_mul numeral_2_eq_2)

lemma basis_pair: "basis_at_zero [s0, s1] 0 = gf_mul (gf_mul 1 (sh_index s1)) (gf_inv (gf_mul 1 (gf_add (sh_index s0) (sh_index s1))))"
  "basis_at_zero [s0, s1] 1 = gf_mul (gf_mul 1 (sh_index s0)) (gf_inv (gf_mul 1 (gf_add (sh_index s1) (sh_index s0))))"
  by (simp_all add: basis_at_zero_def)

lemma tampered_test_passes:
  assumes "entropy_works entropy"
  shows "tampered_share_yields_wrong_secret_silently entropy"
proof -
  let ?secret = "secret_of ''integrity-marker''" and ?D = ThresholdConfig_DEFAULT
  obtain buf where s: "split_secret entropy ?secret ?D = Inr [share_of ?D ?secret buf 1, share_of ?D ?secret buf 2, share_of ?D ?secret buf 3]"
    using split_default[OF assms] by blast
  let ?s0 = "share_of ?D ?secret buf 1" and ?s1 = "share_of ?D ?secret buf 2"
  let ?t1 = "flip_first_byte ?s1"
  have l: "length ?secret = 16" by (simp add: secret_of_def)
  have basis: "basis_at_zero [?s0, ?t1] 0 = basis_at_zero [?s0, ?s1] 0" "basis_at_zero [?s0, ?t1] 1 = basis_at_zero [?s0, ?s1] 1"
    unfolding basis_pair by (simp_all add: flip_first_byte_def)
  have "basis_at_zero [?s0, ?s1] 1 = gf_mul (gf_mul 1 1) (gf_inv (gf_mul 1 (gf_add 2 1)))"
    unfolding basis_pair by (simp add: share_index)
  moreover have "gf_mul (gf_mul 1 1) (gf_inv (gf_mul 1 (gf_add 2 1))) \<noteq> 0" by code_simp
  ultimately have nz: "Gf (basis_at_zero [?s0, ?s1] 1) \<noteq> 0" by (simp flip: Gf_0)
  have "sh_bytes ?t1 ! 0 = gf_add (sh_bytes ?s1 ! 0) 0xFF" using l by (simp add: flip_first_byte_def share_index gf_add_def)
  then have "Gf (combine_byte [?s0, ?t1] 0) = Gf (combine_byte [?s0, ?s1] 0) + Gf 0xFF * Gf (basis_at_zero [?s0, ?s1] 1)"
    unfolding combine_byte_pair basis by (simp add: Gf_add algebra_simps flip_first_byte_def)
  moreover have "Gf 0xFF \<noteq> 0" by (simp flip: Gf_0)
  ultimately have "combine_byte [?s0, ?t1] 0 \<noteq> combine_byte [?s0, ?s1] 0" using nz by auto
  moreover have "combine_byte [?s0, ?s1] 0 = ?secret ! 0"
    by (rule combine_byte_secret[OF is_valid_default]) (auto simp: l share_index ThresholdConfig_DEFAULT_def)
  moreover have "combine_shares [?s0, ?t1] ?D = Inr (map (combine_byte [?s0, ?t1]) [0..<16])"
    by (simp add: combine_shares_def is_valid_default share_index flip_first_byte_def l ThresholdConfig_DEFAULT_def is_valid_def
        del: upt_rec_numeral)
  ultimately have "combine_shares [?s0, ?t1] ?D = Inr (map (combine_byte [?s0, ?t1]) [0..<16])"
    "map (combine_byte [?s0, ?t1]) [0..<16] \<noteq> ?secret"
    by (auto dest: arg_cong[where f = "\<lambda>xs. xs ! 0"] simp del: upt_rec_numeral)
  then show ?thesis
    unfolding tampered_share_yields_wrong_secret_silently_def Let_def s by (simp del: upt_rec_numeral)
qed

section \<open>Arithmetic\<close>

definition gf_poly_eval :: "bytes \<Rightarrow> u8 \<Rightarrow> u8" where
  "gf_poly_eval coeffs x = foldl (\<lambda>acc c. gf_add (gf_mul acc x) c) 0 (rev coeffs)"

definition gf_mul_matches_aes_vectors :: bool where
  [test_defs]: "gf_mul_matches_aes_vectors =
     (gf_mul 0x02 0xD4 = 0xB3 \<and> gf_mul 0x03 0xBF = 0xDA \<and> gf_mul 0x00 0xFF = 0x00 \<and> gf_mul 0x01 0x57 = 0x57)"

definition gf_inv_is_multiplicative_identity :: bool where
  [test_defs]: "gf_inv_is_multiplicative_identity =
     list_all (\<lambda>x. gf_inv x \<noteq> 0 \<and> gf_mul x (gf_inv x) = 1) (map of_nat [1..<256])"

definition gf_inv_of_zero_is_zero :: bool where
  [test_defs]: "gf_inv_of_zero_is_zero = (gf_inv 0 = 0)"

definition poly_eval_with_const_matches_full_coeff_eval :: bool where
  [test_defs]: "poly_eval_with_const_matches_full_coeff_eval =
     (let const_term = 0x57; coeffs = [0x01, 0x83, 0x2A, 0xFF]; full = const_term # coeffs
      in list_all (\<lambda>x. gf_poly_eval_with_const const_term coeffs x = gf_poly_eval full x) (map of_nat [0..<256])
       \<and> list_all (\<lambda>x. gf_poly_eval_with_const 0x9C [] x = 0x9C) (map of_nat [0..<256]))"

text \<open>The evaluation without the allocation is the reference evaluation, for every polynomial and point.\<close>
lemma poly_eval_equal: "gf_poly_eval_with_const c cs x = gf_poly_eval (c # cs) x"
  by (simp add: gf_poly_eval_with_const_def gf_poly_eval_def)

lemma gf_inv_nonzero: "x \<noteq> 0 \<Longrightarrow> gf_inv x \<noteq> 0 \<and> gf_mul x (gf_inv x) = 1"
proof -
  assume "x \<noteq> 0"
  then have "Gf x \<noteq> 0" by (simp flip: Gf_0)
  then have "Gf (gf_mul x (gf_inv x)) = Gf 1" "Gf (gf_inv x) \<noteq> Gf 0" by (simp_all add: Gf_homs)
  then show ?thesis by (metis Gf_0 Gf_1 Gf_eq)
qed

lemma gf_tests_pass:
  "gf_mul_matches_aes_vectors" "gf_inv_is_multiplicative_identity" "gf_inv_of_zero_is_zero"
  "poly_eval_with_const_matches_full_coeff_eval"
proof -
  show "gf_mul_matches_aes_vectors" by code_simp
  have "(of_nat i :: u8) \<noteq> 0" if "1 \<le> i" "i < 256" for i :: nat
    using that by (simp add: of_nat_u8_inject[of i 0, simplified])
  then show "gf_inv_is_multiplicative_identity"
    by (simp add: gf_inv_is_multiplicative_identity_def list_all_iff gf_inv_nonzero del: upt_rec_numeral)
  show "gf_inv_of_zero_is_zero" by (simp add: gf_inv_of_zero_is_zero_def gf_inv_def)
  have "gf_mul 0 x = 0" for x by (simp add: gf_mul_def gf_mul_loop.simps)
  then have "gf_poly_eval_with_const c [] x = c" for c x by (simp add: gf_poly_eval_with_const_def gf_add_def)
  then show "poly_eval_with_const_matches_full_coeff_eval"
    by (simp add: poly_eval_with_const_matches_full_coeff_eval_def poly_eval_equal list_all_iff Let_def del: upt_rec_numeral)
qed

end
