(* ===== verification/Journal_Tests.thy ===== *)
theory Journal_Tests
  imports Journal Health Unit_Tests
begin

text \<open>The tests of \<^verbatim>\<open>hf2_kms/journal.rs\<close> and \<^verbatim>\<open>hf2_kms/health.rs\<close>.  The signature scheme is assumed to satisfy its documented
round trips; the tests that tamper with a journal idealise the chain hash as free of collisions.  A fake channel of the health
tests is a channel of the module over a network whose hosts answer as the test says.\<close>

section \<open>The audit journal\<close>

definition test_signer :: "('sk, 'vk) ed25519 \<Rightarrow> (bytes \<Rightarrow> 'sk) \<Rightarrow> u8 \<Rightarrow> journal_signer" where
  [test_defs]: "test_signer E from_bytes seed = InMemoryJournalSigner E (from_bytes (replicate 32 seed))"

definition make_token :: "u8 \<Rightarrow> u64 \<Rightarrow> consumed_token" where
  [test_defs]: "make_token tag t = \<lparr>token_hash = replicate 32 tag, operator_fingerprint = replicate 8 tag, consumed_at_tick = t\<rparr>"

definition journal_initial_empty_and_genesis_tip :: bool where
  [test_defs]: "journal_initial_empty_and_genesis_tip =
     (let j = InMemoryJournal_new in journal_is_empty j \<and> journal_len j = 0 \<and> tip_hash j = GENESIS_PREV_HASH)"

definition append_produces_chained_entry :: "blake3 \<Rightarrow> ('sk, 'vk) ed25519 \<Rightarrow> (bytes \<Rightarrow> 'sk) \<Rightarrow> bool" where
  [test_defs]: "append_produces_chained_entry h E sk =
     (case append_token h (make_token 0x11 100) (test_signer E sk 0x01) InMemoryJournal_new of
        (Inr entry, j) \<Rightarrow> prev_hash entry = GENESIS_PREV_HASH \<and> tip_hash j = entry_hash entry \<and> journal_len j = 1
      | _ \<Rightarrow> False)"

definition second_entry_chains_to_first :: "blake3 \<Rightarrow> ('sk, 'vk) ed25519 \<Rightarrow> (bytes \<Rightarrow> 'sk) \<Rightarrow> bool" where
  [test_defs]: "second_entry_chains_to_first h E sk = (let signer = test_signer E sk 0x02 in
     passes [yields (bnd (append_token h (make_token 0x11 1) signer) (\<lambda>first.
               bnd (append_token h (make_token 0x22 2) signer) (\<lambda>second. ret (first, second))))
       (\<lambda>(first, second). prev_hash second = entry_hash first)] InMemoryJournal_new)"

definition duplicate_token_rejected :: "blake3 \<Rightarrow> ('sk, 'vk) ed25519 \<Rightarrow> (bytes \<Rightarrow> 'sk) \<Rightarrow> bool" where
  [test_defs]: "duplicate_token_rejected h E sk = (let signer = test_signer E sk 0x03; token = make_token 0x42 200 in
     passes [unwraps (append_token h token signer), Unit_Tests.fails (append_token h token signer) (\<lambda>e. e = DuplicateToken),
       sees (\<lambda>j. journal_len j = 1)] InMemoryJournal_new)"

definition verify_chain_accepts_clean_log :: "blake3 \<Rightarrow> ('sk, 'vk) ed25519 \<Rightarrow> (bytes \<Rightarrow> 'sk) \<Rightarrow> bool" where
  [test_defs]: "verify_chain_accepts_clean_log h E sk = (let signer = test_signer E sk 0x04 in
     passes [unwraps (append_token h (make_token 0x01 10) signer), unwraps (append_token h (make_token 0x02 20) signer),
       unwraps (append_token h (make_token 0x03 30) signer), sees (\<lambda>j. is_ok (verify_chain h E j))] InMemoryJournal_new)"

definition set_tick :: "nat \<Rightarrow> u64 \<Rightarrow> in_memory_journal \<Rightarrow> in_memory_journal" where
  [test_defs]: "set_tick i t j = j\<lparr>entries := (entries j)[i := (entries j ! i)\<lparr>je_token := (je_token (entries j ! i))\<lparr>consumed_at_tick := t\<rparr>\<rparr>]\<rparr>"

definition verify_chain_detects_tampered_hash :: "blake3 \<Rightarrow> ('sk, 'vk) ed25519 \<Rightarrow> (bytes \<Rightarrow> 'sk) \<Rightarrow> bool" where
  [test_defs]: "verify_chain_detects_tampered_hash h E sk = (let signer = test_signer E sk 0x05 in
     passes [unwraps (append_token h (make_token 0x01 10) signer), unwraps (append_token h (make_token 0x02 20) signer),
       calls (set_tick 1 99), sees (\<lambda>j. err_with (verify_chain h E j) (\<lambda>e. e = ChainIntegrity 1))] InMemoryJournal_new)"

definition flip_signature :: "bytes \<Rightarrow> bytes" where
  [test_defs]: "flip_signature s = s[0 := xor (s ! 0) 0xFF]"

definition verify_chain_detects_tampered_signature :: "blake3 \<Rightarrow> ('sk, 'vk) ed25519 \<Rightarrow> (bytes \<Rightarrow> 'sk) \<Rightarrow> bool" where
  [test_defs]: "verify_chain_detects_tampered_signature h E sk = (let signer = test_signer E sk 0x06 in
     passes [unwraps (append_token h (make_token 0x01 10) signer),
       calls (\<lambda>j. j\<lparr>entries := (entries j)[0 := (entries j ! 0)\<lparr>je_signature := flip_signature (je_signature (entries j ! 0))\<rparr>]\<rparr>),
       sees (\<lambda>j. err_with (verify_chain h E j) (\<lambda>e. e = SignatureInvalid 0))] InMemoryJournal_new)"

definition is_duplicate_query_matches_append_rejection :: "blake3 \<Rightarrow> ('sk, 'vk) ed25519 \<Rightarrow> (bytes \<Rightarrow> 'sk) \<Rightarrow> bool" where
  [test_defs]: "is_duplicate_query_matches_append_rejection h E sk = (let signer = test_signer E sk 0x07; hash = replicate 32 0x55 in
     passes [sees (\<lambda>j. \<not> is_duplicate j hash),
       unwraps (append_token h \<lparr>token_hash = hash, operator_fingerprint = replicate 8 0, consumed_at_tick = 1\<rparr> signer),
       sees (\<lambda>j. is_duplicate j hash)] InMemoryJournal_new)"

definition compute_entry_hash_matches_canonical_payload :: "blake3 \<Rightarrow> bool" where
  [test_defs]: "compute_entry_hash_matches_canonical_payload h =
     (let prev = replicate 32 0xAB; token = \<lparr>token_hash = replicate 32 0x11, operator_fingerprint = replicate 8 0x22,
            consumed_at_tick = 0x33445566778899AA\<rparr>;
          reference = [] @ prev @ canonical_bytes token
      in compute_entry_hash h prev token = derive_key h JOURNAL_CHAIN_DOMAIN reference)"

definition dedup_set_tracks_chain :: "blake3 \<Rightarrow> ('sk, 'vk) ed25519 \<Rightarrow> (bytes \<Rightarrow> 'sk) \<Rightarrow> bool" where
  [test_defs]: "dedup_set_tracks_chain h E sk = (let signer = test_signer E sk 0x21 in
     passes [unwraps (append_token h (make_token 0xA1 1) signer), unwraps (append_token h (make_token 0xB2 2) signer),
       unwraps (append_token h (make_token 0xC3 3) signer),
       sees (\<lambda>j. is_duplicate j (replicate 32 0xA1) \<and> is_duplicate j (replicate 32 0xB2) \<and> is_duplicate j (replicate 32 0xC3)
         \<and> \<not> is_duplicate j (replicate 32 0xD4) \<and> journal_len j = 3),
       Unit_Tests.fails (append_token h (make_token 0xB2 99) signer) (\<lambda>e. e = DuplicateToken), sees (\<lambda>j. journal_len j = 3)]
     InMemoryJournal_new)"

text \<open>The same tokens appended under another key.\<close>
definition forge_under :: "blake3 \<Rightarrow> in_memory_journal \<Rightarrow> journal_signer \<Rightarrow> in_memory_journal option" where
  [test_defs]: "forge_under h original forger =
     after (map (\<lambda>e. unwraps (append_token h (je_token e) forger)) (entries original)) InMemoryJournal_new"

definition anchored_rejects_forged_resigned_journal :: "blake3 \<Rightarrow> ('sk, 'vk) ed25519 \<Rightarrow> (bytes \<Rightarrow> 'sk) \<Rightarrow> bool" where
  [test_defs]: "anchored_rejects_forged_resigned_journal h E sk =
     (let genuine_signer = test_signer E sk 0x10; trusted = js_public_key genuine_signer in
      passes [unwraps (append_token h (make_token 0x01 10) genuine_signer), unwraps (append_token h (make_token 0x02 20) genuine_signer),
        sees (\<lambda>genuine. is_ok (verify_chain_anchored h E genuine trusted (tip_hash genuine) (journal_len genuine))
          \<and> some_with (forge_under h genuine (test_signer E sk 0x99)) (\<lambda>forged. is_ok (verify_chain h E forged)
            \<and> err_with (verify_chain_anchored h E forged trusted (tip_hash genuine) (journal_len genuine)) (\<lambda>e. e = SignerKeyMismatch 0)))]
      InMemoryJournal_new)"

definition anchored_rejects_truncated_journal :: "blake3 \<Rightarrow> ('sk, 'vk) ed25519 \<Rightarrow> (bytes \<Rightarrow> 'sk) \<Rightarrow> bool" where
  [test_defs]: "anchored_rejects_truncated_journal h E sk =
     (let signer = test_signer E sk 0x11; trusted = js_public_key signer in
      passes [unwraps (append_token h (make_token 0x01 10) signer), unwraps (append_token h (make_token 0x02 20) signer),
        sees (\<lambda>full. let j = full\<lparr>entries := butlast (entries full)\<rparr> in
          err_with (verify_chain_anchored h E j trusted (tip_hash full) (journal_len full)) (\<lambda>e. e = LengthMismatch 2 1)
          \<and> err_with (verify_chain_anchored h E j trusted (tip_hash full) (journal_len j)) (\<lambda>e. e = TipMismatch))]
      InMemoryJournal_new)"

lemmas journal_runs = script_simps Let_def InMemoryJournal_new_def append_token_def is_duplicate_def journal_len_def
  journal_is_empty_def tip_hash_def bnd_def

lemma journal_chain_tests_pass:
  "journal_initial_empty_and_genesis_tip" "append_produces_chained_entry h E sk" "second_entry_chains_to_first h E sk"
  "duplicate_token_rejected h E sk" "is_duplicate_query_matches_append_rejection h E sk"
  "compute_entry_hash_matches_canonical_payload h" "dedup_set_tracks_chain h E sk"
  by (simp_all add: test_defs journal_runs replicate_eq_replicate compute_entry_hash_canonical)

text \<open>A journal of honest entries verifies: each entry extends the chain before it.\<close>
lemma signer_verifies:
  "ed25519_ok E \<Longrightarrow> ed_from_bytes E (ed_to_bytes E (ed_verifying_key E k)) = Some (ed_verifying_key E k)"
  "ed25519_ok E \<Longrightarrow> ed_verify E (ed_verifying_key E k) m (ed_sign E k m)"
  by (simp_all add: ed25519_ok_def)

lemma verify_chain_tests_pass:
  assumes "ed25519_ok E"
  shows "verify_chain_accepts_clean_log h E sk"
    and "(\<And>k m. \<not> ed_verify E (ed_verifying_key E k) m (flip_signature (ed_sign E k m))) \<Longrightarrow> verify_chain_detects_tampered_signature h E sk"
  by (simp_all add: test_defs journal_runs replicate_eq_replicate verify_chain_def InMemoryJournalSigner_def signer_verifies[OF assms])

lemma entry_hash_ticks:
  assumes "inj (derive_key h JOURNAL_CHAIN_DOMAIN)"
  shows "compute_entry_hash h p t = compute_entry_hash h q u \<Longrightarrow> consumed_at_tick t = consumed_at_tick u"
  using assms by (auto simp: compute_entry_hash_def inj_eq be_bytes_inject simp flip: append_assoc)

lemma tampering_tests_pass:
  assumes "ed25519_ok E" "inj (derive_key h JOURNAL_CHAIN_DOMAIN)"
  shows "verify_chain_detects_tampered_hash h E sk" "anchored_rejects_truncated_journal h E sk"
    and "ed_to_bytes E (ed_verifying_key E (sk (replicate 32 0x10))) \<noteq> ed_to_bytes E (ed_verifying_key E (sk (replicate 32 0x99))) \<Longrightarrow>
      anchored_rejects_forged_resigned_journal h E sk"
  by (auto simp: test_defs journal_runs replicate_eq_replicate verify_chain_anchored_def verify_chain_def InMemoryJournalSigner_def
      signer_verifies[OF assms(1)] dest: entry_hash_ticks[OF assms(2)])

section \<open>The health channels\<close>

text \<open>A host is named by its answer, its address is whether it accepts connections.\<close>
definition fake_network :: "bool network" where
  [test_defs]: "fake_network = \<lparr>resolve = (\<lambda>name. Some [name = ''healthy'']), connects = (\<lambda>addr _. addr)\<rparr>"

definition fake :: "channel \<Rightarrow> status \<Rightarrow> bool health_channel" where
  [test_defs]: "fake i st = (let host = (if st = Healthy then ''healthy'' else ''failing'') in
     case i of DnsOverHttps \<Rightarrow> DohHealthChannel host 0 | AlternateRegion \<Rightarrow> RegionHealthChannel host 0
     | _ \<Rightarrow> StaticIpHealthChannel (st = Healthy) 0)"

definition consensus :: "status \<Rightarrow> status \<Rightarrow> status \<Rightarrow> (consensus_result \<Rightarrow> bool) \<Rightarrow> bool" where
  [test_defs]: "consensus a b c P = some_with (two_of_three [fake DnsOverHttps a, fake AlternateRegion b, fake StaticIp c])
     (\<lambda>checker. P (check fake_network checker))"

definition consensus_single_failure_does_not_trigger :: bool where
  [test_defs]: "consensus_single_failure_does_not_trigger =
     consensus Healthy Healthy Failing (\<lambda>r. failing_count r = 1 \<and> total r = 3 \<and> \<not> is_quorum_failing r)"

definition consensus_two_of_three_triggers :: bool where
  [test_defs]: "consensus_two_of_three_triggers = consensus Failing Failing Healthy (\<lambda>r. failing_count r = 2 \<and> is_quorum_failing r)"

definition consensus_all_failing_triggers :: bool where
  [test_defs]: "consensus_all_failing_triggers = consensus Failing Failing Failing (\<lambda>r. failing_count r = 3 \<and> is_quorum_failing r)"

definition explicit_threshold_overrides_default :: bool where
  [test_defs]: "explicit_threshold_overrides_default =
     (let r = check fake_network (ConsensusHealthChecker_new [fake DnsOverHttps Failing, fake AlternateRegion Healthy] 1)
      in failing_count r = 1 \<and> is_quorum_failing r)"

definition static_ip_channel_records_channel_id :: "'addr network \<Rightarrow> 'addr \<Rightarrow> bool" where
  [test_defs]: "static_ip_channel_records_channel_id net addr =
     (let ch = StaticIpHealthChannel addr 50
      in channel_id ch = StaticIp \<and> ok_with (probe net ch) (\<lambda>st. st = Failing \<or> st = Healthy))"

definition doh_defaults_provide_cloudflare_and_google :: bool where
  [test_defs]: "doh_defaults_provide_cloudflare_and_google =
     (channel_id (Doh_cloudflare :: unit health_channel) = DnsOverHttps \<and> channel_id (Doh_google :: unit health_channel) = DnsOverHttps)"

definition region_channel_reports_channel_id :: bool where
  [test_defs]: "region_channel_reports_channel_id = (channel_id (RegionHealthChannel ''127.0.0.1:1'' 50 :: unit health_channel) = AlternateRegion)"

definition n_of_m_2_of_3_trigger :: bool where
  [test_defs]: "n_of_m_2_of_3_trigger = passes
     [calls (set_status DefaultChannel Failing), sees (\<lambda>h. \<not> mch_is_quorum_failing h 2),
      calls (set_status DnsOverHttps Failing), sees (\<lambda>h. mch_is_quorum_failing h 2)]
     (MultiChannelHealth_new [DefaultChannel, DnsOverHttps, StaticIp])"

definition healthy_count_accurate :: bool where
  [test_defs]: "healthy_count_accurate = passes [calls (set_status DefaultChannel Healthy), sees (\<lambda>h. healthy_count h = 1)]
     (MultiChannelHealth_new [DefaultChannel, DnsOverHttps])"

lemma health_tests_pass:
  "consensus_single_failure_does_not_trigger" "consensus_two_of_three_triggers" "consensus_all_failing_triggers"
  "explicit_threshold_overrides_default" "static_ip_channel_records_channel_id net addr" "doh_defaults_provide_cloudflare_and_google"
  "region_channel_reports_channel_id" "n_of_m_2_of_3_trigger" "healthy_count_accurate"
  by (simp_all add: test_defs script_simps two_of_three_def ConsensusHealthChecker_new_def check_def Let_def tcp_reachable_def
      static_reachable_def Doh_cloudflare_def Doh_google_def MultiChannelHealth_new_def mch_is_quorum_failing_def healthy_count_def)

end
