(* ===== verification/Verifier_Tests.thy ===== *)
theory Verifier_Tests
  imports Verifier Unit_Tests
begin

text \<open>The tests of \<^verbatim>\<open>verifier.rs\<close>.  The tests that sign take the two signature schemes as arguments, with what
their documentation promises: widths, and that the verifier accepts what the signer made.  The tests that corrupt a signature assume in
addition that a signature with its first byte changed does not verify, which holds for the seeds the tests use.\<close>

section \<open>The schemes\<close>

record 'sk ed25519 =
  ed_from_bytes :: "bytes \<Rightarrow> 'sk"
  ed_verifying_key :: "'sk \<Rightarrow> bytes"
  ed_sign :: "'sk \<Rightarrow> bytes \<Rightarrow> bytes"

definition ed_works :: "'sk ed25519 \<Rightarrow> sig_schemes \<Rightarrow> bool" where
  "ed_works E S \<longleftrightarrow> (\<forall>sk. length (ed_verifying_key E sk) = 32 \<and> (\<forall>m. length (ed_sign E sk m) = 64
     \<and> ed_strict S (ed_verifying_key E sk) m (ed_sign E sk m)))"

definition mldsa_works :: "'sk mldsa \<Rightarrow> sig_schemes \<Rightarrow> bool" where
  "mldsa_works D S \<longleftrightarrow> (\<exists>v. mldsa_verify S = Some v \<and> (\<forall>seed. case mldsa_keygen D seed of (sk, pk) \<Rightarrow> length pk = 1952
     \<and> (\<forall>m. length (mldsa_sign D sk m) = 3309 \<and> v pk m (mldsa_sign D sk m))))"

abbreviation corrupt :: "bytes \<Rightarrow> bytes" where "corrupt \<equiv> flip_first 0xFF"

definition ed_refuses_corrupt :: "'sk ed25519 \<Rightarrow> sig_schemes \<Rightarrow> bool" where
  "ed_refuses_corrupt E S \<longleftrightarrow> (\<forall>sk m. \<not> ed_strict S (ed_verifying_key E sk) m (corrupt (ed_sign E sk m)))"

definition mldsa_refuses_corrupt :: "'sk mldsa \<Rightarrow> sig_schemes \<Rightarrow> bool" where
  "mldsa_refuses_corrupt D S \<longleftrightarrow> (\<forall>v seed m. mldsa_verify S = Some v \<longrightarrow>
     (case mldsa_keygen D seed of (sk, pk) \<Rightarrow> \<not> v pk m (corrupt (mldsa_sign D sk m))))"

definition text_bytes :: "string \<Rightarrow> bytes" where
  [test_defs]: "text_bytes s = map of_char s"

abbreviation zeros :: "nat \<Rightarrow> bytes" where "zeros n \<equiv> replicate n 0"
abbreviation seed_of :: "u8 \<Rightarrow> bytes" where "seed_of b \<equiv> replicate 32 b"

section \<open>Messages\<close>

definition domain_separated_prefixes_tag :: bool where
  [test_defs]: "domain_separated_prefixes_tag = (let m = domain_separated (text_bytes ''payload'') in
     take (length FORGE_RECEIPT_SIG_DOMAIN) m = FORGE_RECEIPT_SIG_DOMAIN
     \<and> drop (length FORGE_RECEIPT_SIG_DOMAIN) m = text_bytes ''payload'')"

definition forge_domain_distinct_from_kernel_wal_domain :: bool where
  [test_defs]: "forge_domain_distinct_from_kernel_wal_domain =
     (FORGE_RECEIPT_SIG_DOMAIN \<noteq> text_bytes ''arkhe-kernel v0.14 WAL record signature domain'')"

definition dek_shred_message_canonical_layout_frozen :: bool where
  [test_defs]: "dek_shred_message_canonical_layout_frozen =
     (let m = dek_shred_message (DekId (replicate 16 0xAB)) 0x0102030405060708
      in length m = 24 \<and> take 16 m = replicate 16 0xAB \<and> drop 16 m = [1, 2, 3, 4, 5, 6, 7, 8])"

lemma message_tests_pass: "domain_separated_prefixes_tag" "forge_domain_distinct_from_kernel_wal_domain"
  "dek_shred_message_canonical_layout_frozen"
  subgoal by (simp add: test_defs domain_separated_def)
  subgoal by (simp add: test_defs FORGE_RECEIPT_SIG_DOMAIN_def)
  subgoal by code_simp
  done

section \<open>Attestations\<close>

definition none_class_requires_signature :: "sig_schemes \<Rightarrow> bool" where
  [test_defs]: "none_class_requires_signature S =
     err_with (verify_attestation S RSC_None [] (text_bytes ''m'') []) (\<lambda>err. err = SignatureRequired)"

definition ed25519_round_trip_validates :: "'sk ed25519 \<Rightarrow> sig_schemes \<Rightarrow> bool" where
  [test_defs]: "ed25519_round_trip_validates E S = (let sk = ed_from_bytes E (seed_of 7); vk = ed_verifying_key E sk;
     message = text_bytes ''erasure receipt body''; sg = ed_sign E sk (domain_separated message)
     in is_ok (verify_attestation S RSC_Ed25519 vk message sg))"

definition ed25519_wrong_key_length_rejected :: "sig_schemes \<Rightarrow> bool" where
  [test_defs]: "ed25519_wrong_key_length_rejected S =
     err_with (verify_attestation S RSC_Ed25519 (zeros 31) (text_bytes ''m'') (zeros 64)) (\<lambda>err. err = WrongKeyLength)"

definition ed25519_wrong_sig_length_rejected :: "sig_schemes \<Rightarrow> bool" where
  [test_defs]: "ed25519_wrong_sig_length_rejected S =
     err_with (verify_attestation S RSC_Ed25519 (zeros 32) (text_bytes ''m'') (zeros 63)) (\<lambda>err. err = WrongSignatureLength)"

definition ed25519_corrupt_sig_rejected :: "'sk ed25519 \<Rightarrow> sig_schemes \<Rightarrow> bool" where
  [test_defs]: "ed25519_corrupt_sig_rejected E S = (let sk = ed_from_bytes E (seed_of 9); vk = ed_verifying_key E sk;
     message = text_bytes ''body''; sg = corrupt (ed_sign E sk (domain_separated message))
     in err_with (verify_attestation S RSC_Ed25519 vk message sg) (\<lambda>err. err = Mismatch))"

definition ml_dsa65_unavailable_in_default_build :: "sig_schemes \<Rightarrow> bool" where
  [test_defs]: "ml_dsa65_unavailable_in_default_build S =
     err_with (verify_attestation S RSC_MlDsa65 (zeros MLDSA65_PK_LEN) (text_bytes ''m'') (zeros MLDSA65_SIG_LEN))
       (\<lambda>err. err = PqcUnavailable)"

definition ml_dsa65_round_trip_validates :: "'sk mldsa \<Rightarrow> sig_schemes \<Rightarrow> bool" where
  [test_defs]: "ml_dsa65_round_trip_validates D S = (let signer = mldsa65_from_seed D (seed_of 11);
     message = text_bytes ''ml-dsa receipt body''; sg = receipt_sign D signer message
     in length sg = MLDSA65_SIG_LEN \<and> length (public_key_bytes signer) = MLDSA65_PK_LEN
        \<and> is_ok (verify_attestation S RSC_MlDsa65 (public_key_bytes signer) message sg))"

definition ml_dsa65_corrupt_sig_rejected :: "'sk mldsa \<Rightarrow> sig_schemes \<Rightarrow> bool" where
  [test_defs]: "ml_dsa65_corrupt_sig_rejected D S = (let signer = mldsa65_from_seed D (seed_of 13);
     message = text_bytes ''body''; sg = corrupt (receipt_sign D signer message)
     in err_with (verify_attestation S RSC_MlDsa65 (public_key_bytes signer) message sg) (\<lambda>err. err = Mismatch))"

text \<open>The arrangement of the hybrid tests: both signatures of a message and the two keys in one.\<close>
definition hybrid_parts :: "'k ed25519 \<Rightarrow> 'sk mldsa \<Rightarrow> u8 \<Rightarrow> u8 \<Rightarrow> bytes \<Rightarrow> bytes \<times> bytes \<times> bytes" where
  [test_defs]: "hybrid_parts E D es ps message = (let ed_sk = ed_from_bytes E (seed_of es); pqc = mldsa65_from_seed D (seed_of ps)
     in (ed_verifying_key E ed_sk @ public_key_bytes pqc, ed_sign E ed_sk (domain_separated message), receipt_sign D pqc message))"

definition hybrid_round_trip_validates_and_mode :: "'k ed25519 \<Rightarrow> 'sk mldsa \<Rightarrow> sig_schemes \<Rightarrow> bool" where
  [test_defs]: "hybrid_round_trip_validates_and_mode E D S = (let message = text_bytes ''hybrid receipt body'';
     (public_key, ed_sig, pqc_sig) = hybrid_parts E D 23 29 message; sg = ed_sig @ pqc_sig
     in length public_key = ED25519_PK_LEN + MLDSA65_PK_LEN \<and> length sg = ED25519_SIG_LEN + MLDSA65_SIG_LEN
        \<and> is_ok (verify_attestation S RSC_Hybrid public_key message sg))"

definition hybrid_rejects_when_pqc_half_corrupt :: "'k ed25519 \<Rightarrow> 'sk mldsa \<Rightarrow> sig_schemes \<Rightarrow> bool" where
  [test_defs]: "hybrid_rejects_when_pqc_half_corrupt E D S = (let message = text_bytes ''body'';
     (public_key, ed_sig, pqc_sig) = hybrid_parts E D 31 37 message
     in err_with (verify_attestation S RSC_Hybrid public_key message (ed_sig @ corrupt pqc_sig)) (\<lambda>err. err = Mismatch))"

definition hybrid_rejects_when_ed25519_half_corrupt :: "'k ed25519 \<Rightarrow> 'sk mldsa \<Rightarrow> sig_schemes \<Rightarrow> bool" where
  [test_defs]: "hybrid_rejects_when_ed25519_half_corrupt E D S = (let message = text_bytes ''body'';
     (public_key, ed_sig, pqc_sig) = hybrid_parts E D 41 43 message
     in err_with (verify_attestation S RSC_Hybrid public_key message (corrupt ed_sig @ pqc_sig)) (\<lambda>err. err = Mismatch))"

definition hybrid_wrong_key_length_rejected :: "sig_schemes \<Rightarrow> bool" where
  [test_defs]: "hybrid_wrong_key_length_rejected S =
     err_with (verify_attestation S RSC_Hybrid (zeros (ED25519_PK_LEN + MLDSA65_PK_LEN - 1)) (text_bytes ''m'')
        (zeros (ED25519_SIG_LEN + MLDSA65_SIG_LEN))) (\<lambda>err. err = WrongKeyLength)"

definition hybrid_wrong_sig_length_rejected :: "sig_schemes \<Rightarrow> bool" where
  [test_defs]: "hybrid_wrong_sig_length_rejected S =
     err_with (verify_attestation S RSC_Hybrid (zeros (ED25519_PK_LEN + MLDSA65_PK_LEN)) (text_bytes ''m'')
        (zeros (ED25519_SIG_LEN + MLDSA65_SIG_LEN - 1))) (\<lambda>err. err = WrongSignatureLength)"

lemmas verify_simps = verify_attestation_def verify_ed25519_def verify_ml_dsa65_def mldsa65_from_seed_def receipt_sign_def
  public_key_bytes_def Let_def case_prod_unfold sig_widths

lemma length_tests_pass:
  "none_class_requires_signature S" "ed25519_wrong_key_length_rejected S" "ed25519_wrong_sig_length_rejected S"
  "hybrid_wrong_key_length_rejected S" "hybrid_wrong_sig_length_rejected S"
  by (simp_all add: test_defs verify_simps)

lemma default_build_test_passes: "mldsa_verify S = None \<Longrightarrow> ml_dsa65_unavailable_in_default_build S"
  by (simp add: test_defs verify_simps)

lemma ed25519_tests_pass:
  assumes "ed_works E S"
  shows "ed25519_round_trip_validates E S" "ed_refuses_corrupt E S \<Longrightarrow> ed25519_corrupt_sig_rejected E S"
  using assms
  by (simp_all add: ed25519_round_trip_validates_def ed25519_corrupt_sig_rejected_def verify_simps ed_works_def ed_refuses_corrupt_def)

lemma ml_dsa65_tests_pass:
  assumes "mldsa_works D S"
  shows "ml_dsa65_round_trip_validates D S" "mldsa_refuses_corrupt D S \<Longrightarrow> ml_dsa65_corrupt_sig_rejected D S"
  using assms
  by (auto simp: ml_dsa65_round_trip_validates_def ml_dsa65_corrupt_sig_rejected_def verify_simps mldsa_works_def mldsa_refuses_corrupt_def)

lemma hybrid_tests_pass:
  assumes "ed_works E S" "mldsa_works D S"
  shows "hybrid_round_trip_validates_and_mode E D S"
    "mldsa_refuses_corrupt D S \<Longrightarrow> hybrid_rejects_when_pqc_half_corrupt E D S"
    "ed_refuses_corrupt E S \<Longrightarrow> hybrid_rejects_when_ed25519_half_corrupt E D S"
  using assms
  by (auto simp: hybrid_round_trip_validates_and_mode_def hybrid_rejects_when_pqc_half_corrupt_def hybrid_parts_def
      hybrid_rejects_when_ed25519_half_corrupt_def verify_simps ed_works_def mldsa_works_def ed_refuses_corrupt_def mldsa_refuses_corrupt_def)

section \<open>Envelopes\<close>

definition envelope_ed25519_ok :: "'sk ed25519 \<Rightarrow> sig_schemes \<Rightarrow> bool" where
  [test_defs]: "envelope_ed25519_ok E S = (let sk = ed_from_bytes E (seed_of 59); vk = ed_verifying_key E sk;
     message = text_bytes ''envelope ed25519 body''; sg = ed_sign E sk (domain_separated message)
     in is_ok (verify_receipt_envelope S RSC_Ed25519 vk message sg None))"

definition envelope_incoherent_ed25519_with_pqc_slot :: "sig_schemes \<Rightarrow> bool" where
  [test_defs]: "envelope_incoherent_ed25519_with_pqc_slot S =
     err_with (verify_receipt_envelope S RSC_Ed25519 (zeros ED25519_PK_LEN) (text_bytes ''m'') (zeros ED25519_SIG_LEN)
        (Some (zeros MLDSA65_SIG_LEN))) (\<lambda>err. err = EnvelopeIncoherent)"

definition envelope_incoherent_mldsa65_without_pqc_slot :: "sig_schemes \<Rightarrow> bool" where
  [test_defs]: "envelope_incoherent_mldsa65_without_pqc_slot S =
     err_with (verify_receipt_envelope S RSC_MlDsa65 (zeros MLDSA65_PK_LEN) (text_bytes ''m'') [] None)
       (\<lambda>err. err = EnvelopeIncoherent)"

definition envelope_none_class_requires_signature :: "sig_schemes \<Rightarrow> bool" where
  [test_defs]: "envelope_none_class_requires_signature S =
     err_with (verify_receipt_envelope S RSC_None [] (text_bytes ''m'') [] None) (\<lambda>err. err = SignatureRequired)"

definition envelope_incoherent_mldsa65_with_nonempty_classical_slot :: "sig_schemes \<Rightarrow> bool" where
  [test_defs]: "envelope_incoherent_mldsa65_with_nonempty_classical_slot S =
     err_with (verify_receipt_envelope S RSC_MlDsa65 (zeros MLDSA65_PK_LEN) (text_bytes ''m'') (zeros ED25519_SIG_LEN)
        (Some (zeros MLDSA65_SIG_LEN))) (\<lambda>err. err = EnvelopeIncoherent)"

definition envelope_hybrid_mis_split_classical_half_rejected :: "sig_schemes \<Rightarrow> bool" where
  [test_defs]: "envelope_hybrid_mis_split_classical_half_rejected S =
     err_with (verify_receipt_envelope S RSC_Hybrid (zeros (ED25519_PK_LEN + MLDSA65_PK_LEN)) (text_bytes ''m'')
        (zeros (ED25519_SIG_LEN - 1)) (Some (zeros MLDSA65_SIG_LEN))) (\<lambda>err. err = WrongSignatureLength)"

definition envelope_mldsa65_ok :: "'sk mldsa \<Rightarrow> sig_schemes \<Rightarrow> bool" where
  [test_defs]: "envelope_mldsa65_ok D S = (let signer = mldsa65_from_seed D (seed_of 61);
     message = text_bytes ''envelope ml-dsa body''; sg = receipt_sign D signer message
     in length sg = MLDSA65_SIG_LEN
        \<and> is_ok (verify_receipt_envelope S RSC_MlDsa65 (public_key_bytes signer) message [] (Some sg)))"

definition envelope_hybrid_ok :: "'k ed25519 \<Rightarrow> 'sk mldsa \<Rightarrow> sig_schemes \<Rightarrow> bool" where
  [test_defs]: "envelope_hybrid_ok E D S = (let message = text_bytes ''envelope hybrid body'';
     (public_key, ed_sig, pqc_sig) = hybrid_parts E D 67 71 message
     in is_ok (verify_receipt_envelope S RSC_Hybrid public_key message ed_sig (Some pqc_sig)))"

lemma envelope_coherence_tests_pass:
  "envelope_incoherent_ed25519_with_pqc_slot S" "envelope_incoherent_mldsa65_without_pqc_slot S"
  "envelope_none_class_requires_signature S" "envelope_incoherent_mldsa65_with_nonempty_classical_slot S"
  "envelope_hybrid_mis_split_classical_half_rejected S"
  by (simp_all add: test_defs verify_receipt_envelope_def verify_simps)

lemma envelope_tests_pass:
  assumes "ed_works E S"
  shows "envelope_ed25519_ok E S" "mldsa_works D S \<Longrightarrow> envelope_mldsa65_ok D S" "mldsa_works D S \<Longrightarrow> envelope_hybrid_ok E D S"
  using assms
  by (auto simp: envelope_ed25519_ok_def envelope_mldsa65_ok_def envelope_hybrid_ok_def hybrid_parts_def verify_receipt_envelope_def
      verify_simps ed_works_def mldsa_works_def)

section \<open>Schemes with the documented behaviour\<close>

text \<open>The hypotheses of the lemmas above hold together for a scheme that signs by padding a marker.\<close>

lemma corrupt_differs: "s \<noteq> [] \<Longrightarrow> corrupt s \<noteq> s"
proof
  assume "s \<noteq> []" "corrupt s = s"
  then have "xor (s ! 0) 0xFF = s ! 0" by (metis flip_first_def length_greater_0_conv nth_list_update_eq)
  then have "xor (s ! 0) (xor (s ! 0) 0xFF) = 0" by simp
  then show False by (simp flip: xor.assoc)
qed

lemma schemes_exist:
  fixes S E D
  defines "S \<equiv> \<lparr>ed_strict = \<lambda>vk m sg. sg = zeros 64, mldsa_verify = Some (\<lambda>vk m sg. sg = zeros 3309)\<rparr>"
    and "E \<equiv> \<lparr>ed_from_bytes = \<lambda>b. b, ed_verifying_key = \<lambda>_. zeros 32, ed_sign = \<lambda>_ _. zeros 64\<rparr>"
    and "D \<equiv> \<lparr>mldsa_keygen = \<lambda>seed. (seed, zeros 1952), mldsa_sign = \<lambda>_ _. zeros 3309\<rparr>"
  shows "ed_works E S \<and> mldsa_works D S \<and> ed_refuses_corrupt E S \<and> mldsa_refuses_corrupt D S"
  by (simp add: S_def E_def D_def ed_works_def mldsa_works_def ed_refuses_corrupt_def mldsa_refuses_corrupt_def corrupt_differs)

end
