(* ===== verification/Crypto_Tests.thy ===== *)
theory Crypto_Tests
  imports Crypto Unit_Tests
begin

text \<open>The tests of \<^verbatim>\<open>crypto.rs\<close>, over any build: the cipher features, the ciphers and the codec of the plaintexts are
arguments.  \<^verbatim>\<open>seals\<close> is what the ciphers promise for honest use, \<^verbatim>\<open>detects_tampering\<close> what the tests that change a key, the
additional data or a byte of the ciphertext rely on.\<close>

section \<open>The fixed nonce source and the helpers\<close>

definition FixedNonce_fill :: "nat \<Rightarrow> unit \<Rightarrow> bytes \<times> unit" where
  [test_defs]: "FixedNonce_fill len s = (map of_nat [0..<len], s)"

definition make_dek :: "u8 \<Rightarrow> dek" where
  [test_defs]: "make_dek b = Dek_from_bytes (replicate 32 b)"

definition make_dek_id :: "u8 \<Rightarrow> dek_id" where
  [test_defs]: "make_dek_id b = DekId (replicate 16 b)"

abbreviation coord_of :: "aead_kind \<Rightarrow> unit coordinator" where
  "coord_of k \<equiv> CryptoCoordinator_new k ()"

definition alice :: bytes where [test_defs]: "alice = map of_char ''alice''"

text \<open>\<^verbatim>\<open>coord.encrypt(..)\<close>, with the rest of the test on the envelope and the key; or on the error and the key.  The source of
nonces has no state.\<close>
definition sealed :: "unit crypto_env \<Rightarrow> aead_kind \<Rightarrow> bytes \<Rightarrow> dek_id \<Rightarrow> dek \<Rightarrow> (encrypted_pii \<Rightarrow> dek \<Rightarrow> bool) \<Rightarrow> bool" where
  "sealed E k pt i d rest = (case encrypt E ActorHandle pt i (coord_of k, d) of
     (Inr env, (_, d')) \<Rightarrow> rest env d' | (Inl _, _) \<Rightarrow> False)"

definition refused :: "unit crypto_env \<Rightarrow> aead_kind \<Rightarrow> bytes \<Rightarrow> dek_id \<Rightarrow> dek \<Rightarrow> (pii_error \<Rightarrow> dek \<Rightarrow> bool) \<Rightarrow> bool" where
  "refused E k pt i d rest = (case encrypt E ActorHandle pt i (coord_of k, d) of
     (Inl e, (_, d')) \<Rightarrow> rest e d' | (Inr _, _) \<Rightarrow> False)"

abbreviation opens :: "unit crypto_env \<Rightarrow> aead_kind \<Rightarrow> encrypted_pii \<Rightarrow> dek \<Rightarrow> bytes \<Rightarrow> bool" where
  "opens E k env d pt \<equiv> ok_with (decrypt E (coord_of k) ActorHandle env d) (\<lambda>back. back = pt)"

abbreviation refuses :: "unit crypto_env \<Rightarrow> aead_kind \<Rightarrow> encrypted_pii \<Rightarrow> dek \<Rightarrow> pii_error \<Rightarrow> bool" where
  "refuses E k env d e \<equiv> err_with (decrypt E (coord_of k) ActorHandle env d) (\<lambda>err. err = e)"

section \<open>What the tests rely on\<close>

definition seals :: "unit crypto_env \<Rightarrow> bool" where
  "seals E \<longleftrightarrow> aead_ok E \<and> codec_works (pii_codec E) \<and> fill E = FixedNonce_fill
     \<and> (\<forall>k key n aad m. aead_encrypt E k key n aad m \<noteq> None)"

definition detects_tampering :: "unit crypto_env \<Rightarrow> bool" where
  "detects_tampering E \<longleftrightarrow> (\<forall>k key n aad m c. aead_encrypt E k key n aad m = Some c \<longrightarrow>
     (\<forall>key' aad'. (key', aad') \<noteq> (key, aad) \<longrightarrow> aead_decrypt E k key' n aad' c = None)
     \<and> (\<forall>x. x \<noteq> 0 \<longrightarrow> aead_decrypt E k key n aad (flip_first x c) = None))"

lemma detectsD:
  assumes "detects_tampering E" "aead_encrypt E k key n aad m = Some c"
  shows "key' \<noteq> key \<or> aad' \<noteq> aad \<Longrightarrow> aead_decrypt E k key' n aad' c = None"
    "x \<noteq> 0 \<Longrightarrow> aead_decrypt E k key n aad (flip_first x c) = None"
  using assms unfolding detects_tampering_def by blast+

fun available :: "unit crypto_env \<Rightarrow> aead_kind \<Rightarrow> bool" where
  "available E XChaCha20Poly1305 = tier_1_kms E"
| "available E k = tier_2_multi_kms E"

section \<open>What an encryption with the fixed source returns\<close>

fun nonce_for :: "aead_kind \<Rightarrow> dek \<Rightarrow> nonce_bytes" where
  "nonce_for XChaCha20Poly1305 d = X24 (map of_nat [0..<24])"
| "nonce_for k d = Short12 (aes_gcm_nonce_from_counter (replica_id d) (counter d))"

fun used :: "aead_kind \<Rightarrow> dek \<Rightarrow> dek" where
  "used XChaCha20Poly1305 d = d"
| "used k d = d\<lparr>counter := counter d + 1\<rparr>"

definition cipher_of :: "unit crypto_env \<Rightarrow> aead_kind \<Rightarrow> bytes \<Rightarrow> bytes \<Rightarrow> dek \<Rightarrow> bytes" where
  "cipher_of E k aad b d = the (aead_encrypt E k (material d) (nonce_slice (nonce_for k d)) aad b)"

definition env_of :: "unit crypto_env \<Rightarrow> aead_kind \<Rightarrow> bytes \<Rightarrow> dek_id \<Rightarrow> dek \<Rightarrow> encrypted_pii" where
  "env_of E k pt i d = EncryptedPii_new ActorHandle i k (nonce_for k d)
     (cipher_of E k (compute_aad i (PII_CODE ActorHandle) k) (encoded (pii_codec E) pt) d)"

definition usable :: "unit crypto_env \<Rightarrow> aead_kind \<Rightarrow> dek \<Rightarrow> bool" where
  "usable E k d \<longleftrightarrow> available E k \<and> (k = Aes256Gcm \<longrightarrow> lifecycle d = Ephemeral)
     \<and> (k \<noteq> XChaCha20Poly1305 \<longrightarrow> counter d \<noteq> - 1)"

lemma coord_cipher [simp]: "manifest_cipher (coord_of k) = k"
  by (simp add: CryptoCoordinator_new_def)

lemma cipher_of_Some:
  assumes "seals E"
  shows "aead_encrypt E k (material d) (nonce_slice (nonce_for k d)) aad b = Some (cipher_of E k aad b d)"
  using assms by (auto simp: seals_def cipher_of_def)

lemma encrypt_raw_form:
  assumes "seals E" "usable E k d"
  shows "encrypt_raw E aad b (coord_of k, d) = (Inr (nonce_for k d, cipher_of E k aad b d), (coord_of k, used k d))"
proof -
  have c: "coord_of k\<lparr>nonce_source := ()\<rparr> = coord_of k" by simp
  have f: "fill E 24 () = (map of_nat [0..<24], ())" using assms(1) by (simp add: seals_def FixedNonce_fill_def)
  show ?thesis
    using assms(2) cipher_of_Some[OF assms(1), of k d aad b] f
    by (cases k) (simp_all add: encrypt_raw_def encrypt_xchacha_def encrypt_aes_gcm_def encrypt_aes_gcm_siv_def encrypt_counter_def
        advance_counter_def usable_def as_bytes_def Let_def del: upt_rec_numeral)
qed

lemma encrypt_form:
  assumes "seals E" "usable E k d"
  shows "encrypt E ActorHandle pt i (coord_of k, d) = (Inr (env_of E k pt i d), (coord_of k, used k d))"
proof -
  have "codec_works (pii_codec E)" using assms(1) by (simp add: seals_def)
  then show ?thesis by (simp add: encrypt_def Let_def encoded_works encrypt_raw_form[OF assms] env_of_def)
qed

lemma sealed_form: "seals E \<Longrightarrow> usable E k d \<Longrightarrow> sealed E k pt i d rest = rest (env_of E k pt i d) (used k d)"
  by (simp add: sealed_def encrypt_form)

lemma opens_form:
  assumes "seals E" "usable E k d" "material d2 = material d"
  shows "decrypt E (coord_of k) ActorHandle (env_of E k pt i d) d2 = Inr pt"
  by (subst decrypt_encrypt[OF _ _ encrypt_form[OF assms(1,2)] assms(3)]) (use assms(1) in \<open>simp_all add: seals_def codec_works_def\<close>)

lemma decrypt_raw_under_form:
  assumes "seals E" "usable E k d" "material d2 = material d"
  shows "decrypt_raw_under E d2 (env_of E k pt i d) = Inr (encoded (pii_codec E) pt)"
  using decrypt_raw_encrypt_raw[OF _ encrypt_raw_form[OF assms(1,2)] assms(3)] assms(1)
  by (simp add: seals_def decrypt_raw_under_def env_of_def EncryptedPii_new_def)

text \<open>A wrong key, an exchanged key id and a changed byte are all refused as a mismatch.\<close>
lemma decrypt_raw_None:
  assumes "available E k" "aead_decrypt E k (material d2) (nonce_slice (nonce_for k d)) aad c = None"
  shows "decrypt_raw E d2 k (nonce_for k d) aad c = Inl AadMismatch"
  using assms by (cases k) (simp_all add: decrypt_raw_def decrypt_xchacha_def decrypt_aes_gcm_def decrypt_aes_gcm_siv_def
      decrypt_short_def as_bytes_def del: upt_rec_numeral)

lemma env_of_simps [simp]:
  "ep_pii_code (env_of E k pt i d) = PII_CODE ActorHandle" "ep_aead_kind (env_of E k pt i d) = k"
  "ep_nonce (env_of E k pt i d) = nonce_for k d" "ep_dek_id (env_of E k pt i d) = i"
  "ep_ciphertext (env_of E k pt i d) = cipher_of E k (compute_aad i (PII_CODE ActorHandle) k) (encoded (pii_codec E) pt) d"
  by (simp_all add: env_of_def EncryptedPii_new_def)

lemma dek_id_bytes_make: "dek_id_bytes (make_dek_id b) = replicate 16 b"
  by (simp add: make_dek_id_def)

lemma tampered_aad:
  assumes "seals E" "detects_tampering E" "available E k" "i' \<noteq> i"
  shows "decrypt E (coord_of k) ActorHandle (env_of E k pt (make_dek_id i) d\<lparr>ep_dek_id := make_dek_id i'\<rparr>) d = Inl AadMismatch"
proof -
  let ?a = "\<lambda>i. compute_aad (make_dek_id i) (PII_CODE ActorHandle) k"
  have "?a i' \<noteq> ?a i" using assms(4) by (auto simp: compute_aad_inject dek_id_bytes_make make_dek_id_def)
  then have "aead_decrypt E k (material d) (nonce_slice (nonce_for k d)) (?a i')
      (cipher_of E k (?a i) (encoded (pii_codec E) pt) d) = None"
    by (intro detectsD(1)[OF assms(2) cipher_of_Some[OF assms(1)]] disjI2)
  from decrypt_raw_None[OF assms(3) this] show ?thesis by (simp add: decrypt_def)
qed

lemma wrong_key:
  assumes "seals E" "detects_tampering E" "available E k" "material d2 \<noteq> material d"
  shows "decrypt_raw_under E d2 (env_of E k pt i d) = Inl AadMismatch"
proof -
  let ?a = "compute_aad i (PII_CODE ActorHandle) k"
  have "aead_decrypt E k (material d2) (nonce_slice (nonce_for k d)) ?a (cipher_of E k ?a (encoded (pii_codec E) pt) d) = None"
    by (intro detectsD(1)[OF assms(2) cipher_of_Some[OF assms(1)]] disjI1 assms(4))
  from decrypt_raw_None[OF assms(3) this] show ?thesis by (simp add: decrypt_raw_under_def)
qed

definition corrupted :: "u8 \<Rightarrow> encrypted_pii \<Rightarrow> encrypted_pii" where
  "corrupted x env = EncryptedPii_new ActorHandle (ep_dek_id env) (ep_aead_kind env) (ep_nonce env) (flip_first x (ep_ciphertext env))"

lemma corrupted_simps [simp]:
  "ep_pii_code (corrupted x env) = PII_CODE ActorHandle" "ep_aead_kind (corrupted x env) = ep_aead_kind env"
  "ep_nonce (corrupted x env) = ep_nonce env" "ep_dek_id (corrupted x env) = ep_dek_id env"
  "ep_ciphertext (corrupted x env) = flip_first x (ep_ciphertext env)"
  by (simp_all add: corrupted_def EncryptedPii_new_def)

lemma corrupted_refused:
  assumes "seals E" "detects_tampering E" "available E k" "x \<noteq> 0"
  shows "decrypt_raw_under E d (corrupted x (env_of E k pt i d)) = Inl AadMismatch"
    "decrypt E (coord_of k) ActorHandle (corrupted x (env_of E k pt i d)) d = Inl AadMismatch"
proof -
  let ?a = "compute_aad i (PII_CODE ActorHandle) k"
  have "aead_decrypt E k (material d) (nonce_slice (nonce_for k d)) ?a (flip_first x (cipher_of E k ?a (encoded (pii_codec E) pt) d)) = None"
    by (rule detectsD(2)[OF assms(2) cipher_of_Some[OF assms(1)] assms(4)])
  from decrypt_raw_None[OF assms(3) this]
  show "decrypt_raw_under E d (corrupted x (env_of E k pt i d)) = Inl AadMismatch"
    "decrypt E (coord_of k) ActorHandle (corrupted x (env_of E k pt i d)) d = Inl AadMismatch"
    by (simp_all add: decrypt_raw_under_def decrypt_def)
qed

section \<open>Keys and envelopes\<close>

definition dek_from_bytes_exposes_material_via_crate_accessor :: bool where
  [test_defs]: "dek_from_bytes_exposes_material_via_crate_accessor = (as_bytes (make_dek 0x42) = replicate 32 0x42)"

definition dek_try_from_slice_rejects_short_key :: bool where
  [test_defs]: "dek_try_from_slice_rejects_short_key = err_with (Dek_try_from_slice (replicate 16 0)) (\<lambda>err. err = InvalidKeyLength)"

definition dek_try_from_slice_accepts_32_bytes :: bool where
  [test_defs]: "dek_try_from_slice_accepts_32_bytes =
     ok_with (Dek_try_from_slice (replicate 32 0x77)) (\<lambda>dek. as_bytes dek = replicate 32 0x77)"

definition nonce_bytes_expected_len_matches_kind :: bool where
  [test_defs]: "nonce_bytes_expected_len_matches_kind =
     (expected_len XChaCha20Poly1305 = 24 \<and> expected_len Aes256Gcm = 12 \<and> expected_len Aes256GcmSiv = 12)"

definition encrypted_pii_wire_layout_roundtrips_through_postcard :: "encrypted_pii codec \<Rightarrow> bool" where
  [test_defs]: "encrypted_pii_wire_layout_roundtrips_through_postcard wire =
     (let envelope = EncryptedPii_new ActorHandle (make_dek_id 0x11) XChaCha20Poly1305 (X24 (replicate 24 0x22)) (replicate 48 0x33)
      in some_with (EncryptedPii_serialize wire envelope) (\<lambda>b. some_with (EncryptedPii_deserialize wire b)
        (\<lambda>back. envelope = back \<and> ep_pii_code back = PII_CODE ActorHandle)))"

lemma key_tests_pass:
  "dek_from_bytes_exposes_material_via_crate_accessor" "dek_try_from_slice_rejects_short_key"
  "dek_try_from_slice_accepts_32_bytes" "nonce_bytes_expected_len_matches_kind"
  by (simp_all add: test_defs Dek_from_bytes_def Dek_with_config_def as_bytes_def Dek_try_from_slice_def)

lemma wire_layout_test_passes: "codec_works wire \<Longrightarrow> encrypted_pii_wire_layout_roundtrips_through_postcard wire"
  by (simp add: test_defs EncryptedPii_serialize_def EncryptedPii_deserialize_def EncryptedPii_new_def encoded_works Let_def)

section \<open>Sealing and opening\<close>

definition tier0_default_rejects_encryption :: "unit crypto_env \<Rightarrow> bool" where
  [test_defs]: "tier0_default_rejects_encryption E =
     refused E XChaCha20Poly1305 alice (make_dek_id 0x11) (make_dek 0) (\<lambda>err _. err = TierTooLow)"

definition tier1_xchacha_encrypt_decrypt_roundtrip :: "unit crypto_env \<Rightarrow> bool" where
  [test_defs]: "tier1_xchacha_encrypt_decrypt_roundtrip E =
     sealed E XChaCha20Poly1305 alice (make_dek_id 0x11) (make_dek 0xA5) (\<lambda>env dek.
       ep_aead_kind env = XChaCha20Poly1305 \<and> ep_pii_code env = PII_CODE ActorHandle \<and> opens E XChaCha20Poly1305 env dek alice)"

definition tier1_xchacha_aad_tamper_fails_tag :: "unit crypto_env \<Rightarrow> bool" where
  [test_defs]: "tier1_xchacha_aad_tamper_fails_tag E =
     sealed E XChaCha20Poly1305 alice (make_dek_id 0x11) (make_dek 1) (\<lambda>env dek.
       refuses E XChaCha20Poly1305 (env\<lparr>ep_dek_id := make_dek_id 0x12\<rparr>) dek AadMismatch)"

definition tier1_ciphertext_tamper_fails_tag :: "unit crypto_env \<Rightarrow> bool" where
  [test_defs]: "tier1_ciphertext_tamper_fails_tag E =
     sealed E XChaCha20Poly1305 alice (make_dek_id 0x11) (make_dek 3) (\<lambda>env dek.
       refuses E XChaCha20Poly1305 (corrupted 1 env) dek AadMismatch)"

definition tier1_wrong_pii_code_rejected_as_type_mismatch :: "unit crypto_env \<Rightarrow> bool" where
  [test_defs]: "tier1_wrong_pii_code_rejected_as_type_mismatch E =
     sealed E XChaCha20Poly1305 alice (make_dek_id 0x11) (make_dek 7) (\<lambda>env dek.
       refuses E XChaCha20Poly1305 (env\<lparr>ep_pii_code := PII_CODE EntryBodyMarker\<rparr>) dek TypeMismatch)"

definition tier1_aead_downgrade_rejected_by_coordinator_manifest :: "unit crypto_env \<Rightarrow> bool" where
  [test_defs]: "tier1_aead_downgrade_rejected_by_coordinator_manifest E =
     refuses E XChaCha20Poly1305 (EncryptedPii_new ActorHandle (make_dek_id 0x11) Aes256Gcm (Short12 (replicate 12 0))
       (replicate 48 0)) (make_dek 0) CipherDowngrade"

definition tier1_aes_gcm_without_tier2_is_unsupported :: "unit crypto_env \<Rightarrow> bool" where
  [test_defs]: "tier1_aes_gcm_without_tier2_is_unsupported E =
     (if tier_2_multi_kms E then sealed E Aes256Gcm alice (make_dek_id 0x11) (make_dek 0) (\<lambda>_ _. True)
      else refused E Aes256Gcm alice (make_dek_id 0x11) (make_dek 0) (\<lambda>err _. err = UnsupportedAead))"

definition tier2_aes_gcm_roundtrip :: "unit crypto_env \<Rightarrow> bool" where
  [test_defs]: "tier2_aes_gcm_roundtrip E = (let handle = map of_char ''aes-user'' in
     sealed E Aes256Gcm handle (make_dek_id 0x21) (make_dek 0x5A) (\<lambda>env dek.
       ep_aead_kind env = Aes256Gcm \<and> (case ep_nonce env of Short12 _ \<Rightarrow> True | _ \<Rightarrow> False) \<and> opens E Aes256Gcm env dek handle))"

definition tier2_aes_gcm_siv_roundtrip :: "unit crypto_env \<Rightarrow> bool" where
  [test_defs]: "tier2_aes_gcm_siv_roundtrip E = (let handle = map of_char ''aes-siv-user'' in
     sealed E Aes256GcmSiv handle (make_dek_id 0x22) (make_dek 0x7B) (\<lambda>env dek.
       ep_aead_kind env = Aes256GcmSiv \<and> opens E Aes256GcmSiv env dek handle))"

definition long_lived_dek_rejected_under_plain_aes_gcm :: "unit crypto_env \<Rightarrow> bool" where
  [test_defs]: "long_lived_dek_rejected_under_plain_aes_gcm E =
     (let dek = Dek_from_unwrapped (replicate 32 0x9C) DekConfig_default in lifecycle dek = LongLived
      \<and> refused E Aes256Gcm (map of_char ''long-lived'') (make_dek_id 0x31) dek (\<lambda>err _. err = NonceReuseRisk))"

definition long_lived_dek_under_siv_survives_counter_reset :: "unit crypto_env \<Rightarrow> bool" where
  [test_defs]: "long_lived_dek_under_siv_survives_counter_reset E =
     (let handle = map of_char ''siv-survivor''; dek = Dek_from_unwrapped (replicate 32 0xA1) DekConfig_default in
      sealed E Aes256GcmSiv handle (make_dek_id 0x41) dek (\<lambda>env1 dek1. ep_aead_kind env1 = Aes256GcmSiv \<and>
      sealed E Aes256GcmSiv handle (make_dek_id 0x41) dek (\<lambda>env2 dek2.
        (case (ep_nonce env1, ep_nonce env2) of (Short12 n1, Short12 n2) \<Rightarrow> n1 = n2 | _ \<Rightarrow> False)
        \<and> ep_ciphertext env1 = ep_ciphertext env2 \<and> opens E Aes256GcmSiv env1 dek2 handle \<and> opens E Aes256GcmSiv env2 dek1 handle)))"

definition aes_gcm_nonce_is_deterministic_counter :: "unit crypto_env \<Rightarrow> bool" where
  [test_defs]: "aes_gcm_nonce_is_deterministic_counter E =
     sealed E Aes256Gcm alice (make_dek_id 0x11) (make_dek 0x5A) (\<lambda>env1 dek1.
     sealed E Aes256Gcm alice (make_dek_id 0x11) dek1 (\<lambda>env2 dek2.
       (case (ep_nonce env1, ep_nonce env2) of (Short12 n1, Short12 n2) \<Rightarrow>
          take 4 n1 = [0, 0, 0, 0] \<and> drop 4 n1 = be_bytes 8 (0 :: u64) \<and> drop 4 n2 = be_bytes 8 (1 :: u64) \<and> n1 \<noteq> n2
        | _ \<Rightarrow> False) \<and> opens E Aes256Gcm env1 dek2 alice \<and> opens E Aes256Gcm env2 dek2 alice))"

definition aes_gcm_nonce_honours_dek_replica_id :: "unit crypto_env \<Rightarrow> bool" where
  [test_defs]: "aes_gcm_nonce_honours_dek_replica_id E =
     sealed E Aes256Gcm alice (make_dek_id 0x11) (Dek_with_config (replicate 32 0xC3) \<lparr>dc_replica_id = 0\<rparr>) (\<lambda>env_a _.
     sealed E Aes256Gcm alice (make_dek_id 0x11) (Dek_with_config (replicate 32 0xC3) \<lparr>dc_replica_id = 0xDEADBEEF\<rparr>) (\<lambda>env_b _.
       case (ep_nonce env_a, ep_nonce env_b) of (Short12 na, Short12 nb) \<Rightarrow>
          take 4 na = be_bytes 4 (0 :: u32) \<and> take 4 nb = be_bytes 4 (0xDEADBEEF :: u32)
          \<and> drop 4 na = be_bytes 8 (0 :: u64) \<and> drop 4 nb = be_bytes 8 (0 :: u64) \<and> na \<noteq> nb
        | _ \<Rightarrow> False))"

definition aes_gcm_siv_nonce_is_deterministic_counter :: "unit crypto_env \<Rightarrow> bool" where
  [test_defs]: "aes_gcm_siv_nonce_is_deterministic_counter E =
     sealed E Aes256GcmSiv (map of_char ''siv'') (make_dek_id 0x22) (make_dek 0x7B) (\<lambda>env1 dek.
       (case ep_nonce env1 of Short12 n1 \<Rightarrow> drop 4 n1 = be_bytes 8 (0 :: u64) | _ \<Rightarrow> False) \<and> counter dek = 1)"

definition dek_counter_exhaustion_errors :: "unit crypto_env \<Rightarrow> bool" where
  [test_defs]: "dek_counter_exhaustion_errors E =
     refused E Aes256Gcm alice (make_dek_id 0x11) ((make_dek 0xA5)\<lparr>counter := - 1\<rparr>) (\<lambda>err dek. err = DekExhausted \<and> counter dek = - 1)"

lemma make_dek_simps [simp]:
  "material (make_dek b) = replicate 32 b" "counter (make_dek b) = 0" "replica_id (make_dek b) = 0"
  "lifecycle (make_dek b) = Ephemeral"
  by (simp_all add: make_dek_def Dek_from_bytes_def Dek_with_config_def DekConfig_default_def)

lemma used_simps [simp]:
  "material (used k d) = material d" "lifecycle (used k d) = lifecycle d" "replica_id (used k d) = replica_id d"
  by (cases k; simp)+

lemma opens_used:
  "seals E \<Longrightarrow> usable E k d \<Longrightarrow> material d2 = material d \<Longrightarrow> opens E k (env_of E k pt i d) d2 pt"
  by (simp add: opens_form)

lemma aes_gcm_nonce_parts:
  "take 4 (aes_gcm_nonce_from_counter r n) = be_bytes 4 r" "drop 4 (aes_gcm_nonce_from_counter r n) = be_bytes 8 n"
  by (simp_all add: aes_gcm_nonce_from_counter_def)

lemma be_bytes_4_0: "be_bytes 4 (0 :: u32) = [0, 0, 0, 0]"
  by code_simp

lemma tier0_test_passes: "codec_works (pii_codec E) \<Longrightarrow> \<not> tier_1_kms E \<Longrightarrow> tier0_default_rejects_encryption E"
  by (simp add: tier0_default_rejects_encryption_def refused_def encrypt_def encrypt_raw_def encrypt_xchacha_def encoded_works Let_def)

lemma downgrade_test_passes: "tier1_aead_downgrade_rejected_by_coordinator_manifest E"
  by (simp add: tier1_aead_downgrade_rejected_by_coordinator_manifest_def decrypt_def EncryptedPii_new_def)

lemma tier1_tests_pass:
  assumes "seals E" "tier_1_kms E"
  shows "tier1_xchacha_encrypt_decrypt_roundtrip E" "tier1_wrong_pii_code_rejected_as_type_mismatch E"
    "detects_tampering E \<Longrightarrow> tier1_xchacha_aad_tamper_fails_tag E" "detects_tampering E \<Longrightarrow> tier1_ciphertext_tamper_fails_tag E"
proof -
  have u: "usable E XChaCha20Poly1305 d" for d using assms(2) by (simp add: usable_def)
  note f = sealed_form[OF assms(1) u]
  show "tier1_xchacha_encrypt_decrypt_roundtrip E"
    by (simp add: tier1_xchacha_encrypt_decrypt_roundtrip_def f opens_form[OF assms(1) u])
  show "tier1_wrong_pii_code_rejected_as_type_mismatch E"
    by (simp add: tier1_wrong_pii_code_rejected_as_type_mismatch_def f decrypt_def PII_CODE_inject del: PII_CODE.simps)
  assume t: "detects_tampering E"
  show "tier1_xchacha_aad_tamper_fails_tag E"
    by (simp add: tier1_xchacha_aad_tamper_fails_tag_def f tampered_aad[OF assms(1) t] assms(2))
  show "tier1_ciphertext_tamper_fails_tag E"
    by (simp add: tier1_ciphertext_tamper_fails_tag_def f corrupted_refused[OF assms(1) t] assms(2))
qed

lemma tier2_tests_pass:
  assumes "seals E" "tier_2_multi_kms E"
  shows "tier2_aes_gcm_roundtrip E" "tier2_aes_gcm_siv_roundtrip E" "long_lived_dek_under_siv_survives_counter_reset E"
    "aes_gcm_nonce_is_deterministic_counter E" "aes_gcm_nonce_honours_dek_replica_id E"
    "aes_gcm_siv_nonce_is_deterministic_counter E"
proof -
  have u: "usable E Aes256Gcm d \<longleftrightarrow> lifecycle d = Ephemeral \<and> counter d \<noteq> - 1"
    "usable E Aes256GcmSiv d \<longleftrightarrow> counter d \<noteq> - 1" for d
    using assms(2) by (auto simp: usable_def)
  note f = sealed_form[OF assms(1)] opens_used[OF assms(1)] u aes_gcm_nonce_parts Let_def
  show "tier2_aes_gcm_roundtrip E" by (simp add: tier2_aes_gcm_roundtrip_def f)
  show "tier2_aes_gcm_siv_roundtrip E" by (simp add: tier2_aes_gcm_siv_roundtrip_def f)
  show "long_lived_dek_under_siv_survives_counter_reset E"
    by (simp add: long_lived_dek_under_siv_survives_counter_reset_def f Dek_from_unwrapped_def)
  show "aes_gcm_nonce_is_deterministic_counter E"
    by (simp add: aes_gcm_nonce_is_deterministic_counter_def f be_bytes_4_0 counter_nonce_inject)
  show "aes_gcm_nonce_honours_dek_replica_id E"
    by (simp add: aes_gcm_nonce_honours_dek_replica_id_def f Dek_with_config_def counter_nonce_inject)
  show "aes_gcm_siv_nonce_is_deterministic_counter E" by (simp add: aes_gcm_siv_nonce_is_deterministic_counter_def f)
qed

lemma unsupported_test_passes: "seals E \<Longrightarrow> tier1_aes_gcm_without_tier2_is_unsupported E"
proof -
  assume s: "seals E"
  then have c: "codec_works (pii_codec E)" by (simp add: seals_def)
  have "tier_2_multi_kms E \<Longrightarrow> usable E Aes256Gcm (make_dek 0)" by (simp add: usable_def)
  then show ?thesis using c
    by (simp add: tier1_aes_gcm_without_tier2_is_unsupported_def sealed_form[OF s] refused_def encrypt_def encrypt_raw_def
        encrypt_aes_gcm_def encoded_works Let_def)
qed

lemma coordinator_refusals_pass:
  assumes "codec_works (pii_codec E)" "tier_2_multi_kms E"
  shows "long_lived_dek_rejected_under_plain_aes_gcm E" "dek_counter_exhaustion_errors E"
  using assms
  by (simp_all add: long_lived_dek_rejected_under_plain_aes_gcm_def dek_counter_exhaustion_errors_def refused_def encrypt_def
      encrypt_raw_def encrypt_aes_gcm_def encrypt_counter_def advance_counter_def Dek_from_unwrapped_def encoded_works Let_def)

section \<open>Rotation\<close>

text \<open>\<^verbatim>\<open>plaintexts.iter().map(encrypt).collect()\<close>\<close>
fun seal_all :: "unit crypto_env \<Rightarrow> aead_kind \<Rightarrow> dek_id \<Rightarrow> bytes list \<Rightarrow> dek \<Rightarrow> (encrypted_pii list \<Rightarrow> dek \<Rightarrow> bool) \<Rightarrow> bool" where
  "seal_all E k i [] d rest = rest [] d"
| "seal_all E k i (pt # pts) d rest = sealed E k pt i d (\<lambda>env d'. seal_all E k i pts d' (\<lambda>envs. rest (env # envs)))"

text \<open>\<^verbatim>\<open>rotate_dek(&coord, &old, &new, new_id, &mut envs, &mut metric)\<close>\<close>
definition rotated :: "unit crypto_env \<Rightarrow> aead_kind \<Rightarrow> dek \<Rightarrow> dek \<Rightarrow> dek_id \<Rightarrow> encrypted_pii list \<Rightarrow> dek_message_counter
    \<Rightarrow> (pii_error + unit) \<times> unit rotation" where
  "rotated E k old new new_id envs metric =
     rotate_dek E ActorHandle old new_id \<lparr>ro_slice = envs, ro_counter = metric, ro_crypt = (coord_of k, new)\<rparr>"

definition rotate_dek_starts_new_counter_from_zero :: "unit crypto_env \<Rightarrow> bool" where
  [test_defs]: "rotate_dek_starts_new_counter_from_zero E =
     (let plaintexts = map (\<lambda>i. replicate 8 (of_nat i)) [0..<3]; new = make_dek 0x20; new_id = make_dek_id 2 in
      seal_all E Aes256Gcm (make_dek_id 1) plaintexts (make_dek 0x10) (\<lambda>envs old. counter old = 3 \<and> counter new = 0 \<and>
        (case rotated E Aes256Gcm old new new_id envs (DekMessageCounter_new new_id) of (res, r) \<Rightarrow>
           is_ok res \<and> counter (snd (ro_crypt r)) = 3 \<and> dmc_count (ro_counter r) = 3
           \<and> list_all (\<lambda>(i, env). case ep_nonce env of Short12 n \<Rightarrow> drop 4 n = be_bytes 8 (of_nat i :: u64) | _ \<Rightarrow> False)
               (zip [0..<3] (ro_slice r)))))"

definition dek_rotate_preserves_plaintext :: "unit crypto_env \<Rightarrow> bool" where
  [test_defs]: "dek_rotate_preserves_plaintext E =
     (let plaintexts = map (\<lambda>i. replicate 8 (of_nat i)) [0..<4]; new = make_dek 0x20; new_id = make_dek_id 2 in
      seal_all E XChaCha20Poly1305 (make_dek_id 1) plaintexts (make_dek 0x10) (\<lambda>envs old.
        (case rotated E XChaCha20Poly1305 old new new_id envs (DekMessageCounter_new (make_dek_id 2)) of (res, r) \<Rightarrow>
           is_ok res \<and> dmc_count (ro_counter r) = 4
           \<and> list_all (\<lambda>(env, pt). ep_dek_id env = new_id \<and> opens E XChaCha20Poly1305 env (snd (ro_crypt r)) pt)
               (zip (ro_slice r) plaintexts))))"

definition dek_rotate_with_wrong_old_key_rolls_back :: "unit crypto_env \<Rightarrow> bool" where
  [test_defs]: "dek_rotate_with_wrong_old_key_rolls_back E =
     sealed E XChaCha20Poly1305 alice (make_dek_id 1) (make_dek 0x10) (\<lambda>original_envelope real_old.
       (case rotated E XChaCha20Poly1305 (make_dek 0xFF) (make_dek 0x20) (make_dek_id 2) [original_envelope]
               (DekMessageCounter_new (make_dek_id 2)) of (res, r) \<Rightarrow>
          err_with res (\<lambda>err. err = AadMismatch) \<and> ro_slice r ! 0 = original_envelope))"

definition dek_rotate_partial_failure_rolls_back_counter :: "unit crypto_env \<Rightarrow> bool" where
  [test_defs]: "dek_rotate_partial_failure_rolls_back_counter E =
     sealed E XChaCha20Poly1305 (map of_char ''first'') (make_dek_id 1) (make_dek 0x10) (\<lambda>good old.
       let corrupt = corrupted 0xFF good; new_id = make_dek_id 2;
           counter = record_message (record_message (DekMessageCounter_new new_id)); entry_count = dmc_count counter
       in entry_count = 2 \<and>
         (case rotated E XChaCha20Poly1305 old (make_dek 0x20) new_id [good, corrupt] counter of (res, r) \<Rightarrow>
            err_with res (\<lambda>err. err = AadMismatch) \<and> ro_slice r ! 0 = good \<and> ro_slice r ! 1 = corrupt
            \<and> dmc_count (ro_counter r) = entry_count))"

text \<open>One step of the loop over an honest envelope.\<close>
lemma rotate_step_form:
  assumes "ro_slice r ! n = env_of E k pt i0 d0" "ro_crypt r = (coord_of k, d)" "seals E"
    "usable E k d0" "usable E k d" "material old = material d0"
  shows "rotate_step E ActorHandle old i (compute_aad i (PII_CODE ActorHandle) k) n r =
    (Inr (), r\<lparr>ro_slice := (ro_slice r)[n := env_of E k pt i d], ro_counter := record_message (ro_counter r),
       ro_crypt := (coord_of k, used k d)\<rparr>)"
  using decrypt_raw_under_form[OF assms(3,4,6)] encrypt_raw_form[OF assms(3,5)]
  by (simp add: rotate_step_def assms(1,2) env_of_def)

lemma saturating_counts: "saturating_add (0 :: u64) 1 = 1" "saturating_add (1 :: u64) 1 = 2"
  "saturating_add (2 :: u64) 1 = 3" "saturating_add (3 :: u64) 1 = 4"
  by (simp_all add: saturating_add_def checked_add_def)

lemma upt_first: "[0..<Suc 0] = [0]" "[0..<Suc (Suc 0)] = [0, 1]" "[0..<3] = [0, 1, 2]" "[0..<4] = [0, 1, 2, 3]"
  by (simp_all add: upt_rec)

lemmas rotated_simps = rotated_def rotate_dek_def bnd_def ret_def rotate_step_form Let_def sealed_form upt_first saturating_counts
  record_message_def DekMessageCounter_new_def

lemma rotation_counter_test_passes:
  assumes "seals E" "tier_2_multi_kms E"
  shows "rotate_dek_starts_new_counter_from_zero E"
proof -
  have u: "usable E Aes256Gcm d \<longleftrightarrow> lifecycle d = Ephemeral \<and> counter d \<noteq> - 1" for d using assms(2) by (auto simp: usable_def)
  show ?thesis
    by (simp add: rotate_dek_starts_new_counter_from_zero_def rotated_simps u assms(1) aes_gcm_nonce_parts del: PII_CODE.simps)
qed

lemma rotation_plaintext_test_passes:
  assumes "seals E" "tier_1_kms E"
  shows "dek_rotate_preserves_plaintext E"
proof -
  have u: "usable E XChaCha20Poly1305 d" for d using assms(2) by (auto simp: usable_def)
  show ?thesis
    by (simp add: dek_rotate_preserves_plaintext_def rotated_simps u assms(1) opens_form del: PII_CODE.simps)
qed

lemma rollback_tests_pass:
  assumes "seals E" "tier_1_kms E" "detects_tampering E"
  shows "dek_rotate_with_wrong_old_key_rolls_back E" "dek_rotate_partial_failure_rolls_back_counter E"
proof -
  have u: "usable E XChaCha20Poly1305 d" and a: "available E XChaCha20Poly1305" for d using assms(2) by (auto simp: usable_def)
  have w: "rotate_step E ActorHandle old i aad n r = (Inl AadMismatch, r)"
    if "ro_slice r ! n = env_of E XChaCha20Poly1305 pt i0 d0" "material old \<noteq> material d0" for old i aad n r pt i0 d0
    using wrong_key[OF assms(1,3) a that(2)] that(1) by (simp add: rotate_step_def)
  have c: "rotate_step E ActorHandle old i aad n r = (Inl AadMismatch, r)"
    if "ro_slice r ! n = corrupted 0xFF (env_of E XChaCha20Poly1305 pt i0 old)" for old i aad n r pt i0
    using corrupted_refused(1)[OF assms(1,3) a, of "0xFF"] that by (simp add: rotate_step_def)
  have ne: "replicate 32 (255 :: u8) \<noteq> replicate 32 16" by simp
  show "dek_rotate_with_wrong_old_key_rolls_back E"
    by (simp add: dek_rotate_with_wrong_old_key_rolls_back_def rotated_simps u assms(1) w ne del: PII_CODE.simps)
  show "dek_rotate_partial_failure_rolls_back_counter E"
    by (simp add: dek_rotate_partial_failure_rolls_back_counter_def rotated_simps u assms(1) c del: PII_CODE.simps)
qed

section \<open>A build with the documented behaviour\<close>

text \<open>Sealing writes the key and the additional data in front of the message, each with an end mark.\<close>

fun marked :: "bytes \<Rightarrow> bytes" where
  "marked [] = [0]"
| "marked (x # xs) = 1 # x # marked xs"

lemma marked_inject: "marked xs @ r = marked ys @ s \<longleftrightarrow> xs = ys \<and> r = s"
proof (induction xs arbitrary: ys)
  case Nil show ?case by (cases ys) auto
next
  case (Cons x xs) show ?case by (cases ys) (auto simp: Cons.IH)
qed

definition marking_env :: "unit crypto_env" where
  "marking_env = \<lparr>tier_1_kms = True, tier_2_multi_kms = True, fill = FixedNonce_fill,
     aead_encrypt = (\<lambda>k key n aad m. Some (7 # marked key @ marked aad @ m)),
     aead_decrypt = (\<lambda>k key n aad c. let p = 7 # marked key @ marked aad in
        if take (length p) c = p then Some (drop (length p) c) else None),
     pii_codec = \<lparr>cd_enc = Some, cd_dec = Some\<rparr>\<rparr>"

lemma marking_opens: "aead_decrypt marking_env k key n aad c = Some m \<longleftrightarrow> c = 7 # marked key @ marked aad @ m"
proof -
  let ?p = "7 # marked key @ marked aad"
  have "take (length ?p) c = ?p \<and> drop (length ?p) c = m \<longleftrightarrow> c = ?p @ m" by (metis append_eq_conv_conj)
  then show ?thesis by (auto simp: marking_env_def Let_def simp del: length_append)
qed

lemma marking_seals: "aead_encrypt marking_env k key n aad m = Some c \<longleftrightarrow> c = 7 # marked key @ marked aad @ m"
  by (auto simp: marking_env_def)

lemma marking_env_works: "seals marking_env \<and> detects_tampering marking_env"
proof
  show "seals marking_env" by (simp add: seals_def aead_ok_def marking_opens marking_seals codec_works_def codec_ok_def codec_total_def)
      (simp add: marking_env_def)
  have x: "xor (7 :: u8) x \<noteq> 7" if "x \<noteq> 0" for x
  proof
    assume "xor 7 x = 7"
    then have "xor 7 (xor 7 x) = 0" by simp
    then show False using that by (simp flip: xor.assoc)
  qed
  show "detects_tampering marking_env"
    unfolding detects_tampering_def marking_seals
    by (auto simp: marking_opens marked_inject flip_first_def x simp flip: not_Some_eq)
qed

end
