(* ===== verification/Purity_Tests.thy ===== *)
theory Purity_Tests
  imports Purity Unit_Tests
begin

text \<open>The tests of \<^verbatim>\<open>arkhe-subset-rust-check/src/lib.rs\<close>.  Each parses an item with \<^verbatim>\<open>parse_quote!\<close>; here the item is the
tree the parser makes of it.  Types and patterns have no node the visitor overrides and are left out.\<close>

section \<open>Trees\<close>

abbreviation at :: "string list \<Rightarrow> node" where "at segs \<equiv> ExprPath (Path False segs) []"
abbreviation at_root :: "string list \<Rightarrow> node" where "at_root segs \<equiv> ExprPath (Path True segs) []"
abbreviation lit :: node where "lit \<equiv> Other []"
abbreviation call :: "node \<Rightarrow> node list \<Rightarrow> node" where "call f args \<equiv> Other (f # args)"
abbreviation method_call :: "node \<Rightarrow> node list \<Rightarrow> node" where "method_call receiver args \<equiv> Other (receiver # args)"
abbreviation macro_of :: "string list \<Rightarrow> node list \<Rightarrow> node" where "macro_of segs args \<equiv> Macro (Path False segs) [] (Some args) []"

text \<open>\<^verbatim>\<open>fn name(..) { stmts }\<close>, and an unsafe one.\<close>
abbreviation fn_item :: "string \<Rightarrow> node list \<Rightarrow> node" where
  "fn_item name stmts \<equiv> Other [Signature False name [], Other stmts]"

abbreviation unsafe_fn_item :: "string \<Rightarrow> node list \<Rightarrow> node" where
  "unsafe_fn_item name stmts \<equiv> Other [Signature True name [], Other stmts]"

definition compute_with :: "node list \<Rightarrow> purity_violation list" where
  [test_defs]: "compute_with stmts = check_purity_default (fn_item ''compute'' stmts)"

definition reports :: "node list \<Rightarrow> string \<Rightarrow> bool" where
  [test_defs]: "reports stmts denied = list_ex (\<lambda>v. denied_path v = denied) (compute_with stmts)"

section \<open>Paths\<close>

definition pure_compute_passes :: bool where
  [test_defs]: "pure_compute_passes =
    (compute_with [method_call (method_call (at [''a'']) [at [''b'']]) [lit]] = [])"

definition instant_now_full_path_rejected :: bool where
  [test_defs]: "instant_now_full_path_rejected =
    (let vs = compute_with [call (at [''std'', ''time'', ''Instant'', ''now'']) [], lit] in
     length vs = 1 \<and> denied_path (vs ! 0) = ''std::time::Instant::now'' \<and> reason (vs ! 0) = ''clock'')"

definition use_imported_thread_rng_single_ident_rejected :: bool where
  [test_defs]: "use_imported_thread_rng_single_ident_rejected =
    (let vs = compute_with [call (at [''thread_rng'']) [], lit] in
     length vs = 1 \<and> denied_path (vs ! 0) = ''rand::thread_rng'' \<and> reason (vs ! 0) = ''rng'')"

definition os_rng_full_path_rejected :: bool where
  [test_defs]: "os_rng_full_path_rejected =
    (reports [at [''rand'', ''rngs'', ''OsRng''], lit] ''rand::rngs::OsRng'')"

definition unix_epoch_constant_access_rejected :: bool where
  [test_defs]: "unix_epoch_constant_access_rejected =
    (reports [at [''std'', ''time'', ''UNIX_EPOCH''], lit] ''std::time::UNIX_EPOCH'')"

definition type_position_path_does_not_match :: bool where
  [test_defs]: "type_position_path_does_not_match =
    (compute_with [at [''None''], lit] = [])"

definition shell_defined_now_method_does_not_match :: bool where
  [test_defs]: "shell_defined_now_method_does_not_match =
    (compute_with [method_call (at [''s'']) [], lit] = [])"

definition fs_namespace_prefix_rejected :: bool where
  [test_defs]: "fs_namespace_prefix_rejected =
    (let stmts = [call (at [''std'', ''fs'', ''read_to_string'']) [lit], lit] in
     reports stmts ''std::fs'' \<and> list_ex (\<lambda>v. reason v = ''io'') (compute_with stmts))"

definition net_namespace_prefix_rejected :: bool where
  [test_defs]: "net_namespace_prefix_rejected =
    (reports [call (at [''std'', ''net'', ''TcpStream'', ''connect'']) [lit], lit] ''std::net'')"

definition process_namespace_prefix_rejected :: bool where
  [test_defs]: "process_namespace_prefix_rejected =
    (reports [call (at [''std'', ''process'', ''id'']) [], lit] ''std::process'')"

definition env_namespace_prefix_rejected :: bool where
  [test_defs]: "env_namespace_prefix_rejected =
    (reports [call (at [''std'', ''env'', ''var'']) [lit], lit] ''std::env'')"

definition libc_namespace_prefix_rejected :: bool where
  [test_defs]: "libc_namespace_prefix_rejected =
    (let stmts = [call (at [''libc'', ''getpid'']) [], lit] in
     reports stmts ''libc'' \<and> list_ex (\<lambda>v. reason v = ''ffi'') (compute_with stmts))"

definition tokio_time_prefix_rejected :: bool where
  [test_defs]: "tokio_time_prefix_rejected =
    (list_ex (\<lambda>v. denied_path v = ''tokio::time'' \<and> reason v = ''clock'')
     (compute_with [call (at [''tokio'', ''time'', ''Instant'', ''now'']) [], lit]))"

definition local_fn_named_random_currently_false_positives :: bool where
  [test_defs]: "local_fn_named_random_currently_false_positives =
    (reports [fn_item ''random'' [lit], call (at [''random'']) []] ''rand::random'')"

definition getrandom_fill_rejected :: bool where
  [test_defs]: "getrandom_fill_rejected =
    (reports [call (at [''getrandom'', ''fill'']) [at [''buf'']]] ''getrandom::fill'')"

definition pure_with_blake3_passes :: bool where
  [test_defs]: "pure_with_blake3_passes =
    (compute_with [call (at [''blake3'', ''Hasher'', ''new'']) [], method_call (at [''h'']) [at [''input'']],
     Other [method_call (method_call (at [''h'']) []) []]] = [])"

definition seeded_chacha_rng_passes :: bool where
  [test_defs]: "seeded_chacha_rng_passes =
    (compute_with [call (at [''rand_chacha'', ''ChaCha20Rng'', ''seed_from_u64'']) [at [''seed'']],
     method_call (at [''rng'']) []] = [])"

definition use_imported_instant_now_two_segments_rejected :: bool where
  [test_defs]: "use_imported_instant_now_two_segments_rejected =
    (let vs = compute_with [call (at [''Instant'', ''now'']) [], lit] in
     length vs = 1 \<and> suffix ''::Instant::now'' (denied_path (vs ! 0)) \<and> reason (vs ! 0) = ''clock'')"

definition use_imported_time_module_three_segments_rejected :: bool where
  [test_defs]: "use_imported_time_module_three_segments_rejected =
    (let vs = compute_with [call (at [''time'', ''Instant'', ''now'']) [], lit] in
     length vs = 1 \<and> denied_path (vs ! 0) = ''std::time::Instant::now'' \<and> reason (vs ! 0) = ''clock'')"

definition leading_colon_path_rejected_with_raw_site :: bool where
  [test_defs]: "leading_colon_path_rejected_with_raw_site =
    (let vs = compute_with [call (at_root [''std'', ''time'', ''Instant'', ''now'']) [], lit] in
     length vs = 1 \<and> denied_path (vs ! 0) = ''std::time::Instant::now''
     \<and> prefix ''::std::time::Instant::now'' (site (vs ! 0)))"

definition leading_colon_prefix_rejected :: bool where
  [test_defs]: "leading_colon_prefix_rejected =
    (reports [call (at_root [''std'', ''fs'', ''read_to_string'']) [lit], lit] ''std::fs'')"

lemma path_tests_pass:
  "pure_compute_passes"
  "instant_now_full_path_rejected"
  "use_imported_thread_rng_single_ident_rejected"
  "os_rng_full_path_rejected"
  "unix_epoch_constant_access_rejected"
  "type_position_path_does_not_match"
  "shell_defined_now_method_does_not_match"
  "fs_namespace_prefix_rejected"
  "net_namespace_prefix_rejected"
  "process_namespace_prefix_rejected"
  "env_namespace_prefix_rejected"
  "libc_namespace_prefix_rejected"
  "tokio_time_prefix_rejected"
  "local_fn_named_random_currently_false_positives"
  "getrandom_fill_rejected"
  "pure_with_blake3_passes"
  "seeded_chacha_rng_passes"
  "use_imported_instant_now_two_segments_rejected"
  "use_imported_time_module_three_segments_rejected"
  "leading_colon_path_rejected_with_raw_site"
  "leading_colon_prefix_rejected"
  by code_simp+

section \<open>Reasons\<close>

definition tokio_io_prefix_classified_as_io :: bool where
  [test_defs]: "tokio_io_prefix_classified_as_io =
    (classify_reason ''tokio::io'' = ''io'' \<and> classify_reason ''async_std::io'' = ''io'')"

definition classify_reason_categorises_correctly :: bool where
  [test_defs]: "classify_reason_categorises_correctly =
    (classify_reason ''std::time::Instant::now'' = ''clock'' \<and> classify_reason ''rand::thread_rng'' = ''rng'' \<and> classify_reason ''std::fs'' = ''io''
     \<and> classify_reason ''libc'' = ''ffi'' \<and> classify_reason ''unsafe-block'' = ''unsafe'' \<and> classify_reason ''blake3::hash'' = ''other'')"

lemma reason_tests_pass:
  "tokio_io_prefix_classified_as_io"
  "classify_reason_categorises_correctly"
  by code_simp+

section \<open>Unsafe code\<close>

definition unsafe_block_rejected :: bool where
  [test_defs]: "unsafe_block_rejected =
    (let stmts = [ExprUnsafe [Other [Other [at [''x'']]], Other [at [''p'']]]] in
     reports stmts ''unsafe-block'' \<and> list_ex (\<lambda>v. reason v = ''unsafe'') (compute_with stmts))"

definition unsafe_fn_signature_rejected :: bool where
  [test_defs]: "unsafe_fn_signature_rejected =
    (list_ex (\<lambda>v. denied_path v = ''unsafe-fn'' \<and> reason v = ''unsafe'')
     (check_purity_default (unsafe_fn_item ''compute'' [Other [at [''p'']]])))"

definition nested_unsafe_fn_rejected :: bool where
  [test_defs]: "nested_unsafe_fn_rejected =
    (reports [unsafe_fn_item ''helper'' [Other [at [''p'']]], at [''x'']] ''unsafe-fn'')"

definition empty_policy_accepts_anything :: bool where
  [test_defs]: "empty_policy_accepts_anything =
    (check_purity (unsafe_fn_item ''compute''
     [call (at [''std'', ''time'', ''Instant'', ''now'']) [], call (at_root [''std'', ''time'', ''Instant'', ''now'']) [], call (at [''Instant'', ''now'']) [],
      call (at [''rand'', ''thread_rng'']) [], call (at [''std'', ''fs'', ''read_to_string'']) [lit],
      macro_of [''println''] [lit], macro_of [''vec''] [call (at [''std'', ''time'', ''SystemTime'', ''now'']) []],
      ExprUnsafe [lit], unsafe_fn_item ''helper'' [], lit]) Policy_empty = [])"

lemma unsafe_tests_pass:
  "unsafe_block_rejected"
  "unsafe_fn_signature_rejected"
  "nested_unsafe_fn_rejected"
  "empty_policy_accepts_anything"
  by code_simp+

section \<open>Macros\<close>

text \<open>\<^verbatim>\<open>custom_dsl!(x => ..)\<close>, whose arguments are no list of expressions.\<close>
definition custom_dsl :: "token list \<Rightarrow> node" where
  [test_defs]: "custom_dsl ts = Macro (Path False [''custom_dsl'']) ([TIdent ''x'', TPunct (CHR ''='') True, TPunct (CHR ''>'') False] @ ts) None []"

definition vec_macro_argument_scanned :: bool where
  [test_defs]: "vec_macro_argument_scanned =
    (list_ex (\<lambda>v. denied_path v = ''std::time::Instant::now'' \<and> reason v = ''clock'')
     (compute_with [macro_of [''vec''] [call (at [''std'', ''time'', ''Instant'', ''now'']) []], lit]))"

definition format_macro_argument_scanned :: bool where
  [test_defs]: "format_macro_argument_scanned =
    (reports [macro_of [''format''] [lit, call (at [''std'', ''time'', ''SystemTime'', ''now'']) []], lit]
     ''std::time::SystemTime::now'')"

definition format_macro_with_pure_args_passes :: bool where
  [test_defs]: "format_macro_with_pure_args_passes =
    (compute_with [macro_of [''format''] [lit, at [''a''], at [''b'']]] = [])"

definition stdout_and_dbg_macros_rejected :: bool where
  [test_defs]: "stdout_and_dbg_macros_rejected =
    (let vs = compute_with [macro_of [''println''] [lit], macro_of [''dbg''] [at [''x'']], at [''x'']] in
     list_ex (\<lambda>v. denied_path v = ''println'' \<and> reason v = ''io'') vs
     \<and> list_ex (\<lambda>v. denied_path v = ''dbg'' \<and> reason v = ''io'') vs)"

definition full_path_io_macro_rejected :: bool where
  [test_defs]: "full_path_io_macro_rejected =
    (reports [macro_of [''std'', ''println''] [lit], lit] ''println'')"

definition macro_token_fallback_scans_non_expr_args :: bool where
  [test_defs]: "macro_token_fallback_scans_non_expr_args =
    (reports [custom_dsl
     (path_tokens [''std'', ''time'', ''Instant'', ''now''] @ [TGroup []]), lit] ''std::time::Instant::now'')"

definition macro_token_fallback_skips_method_names :: bool where
  [test_defs]: "macro_token_fallback_skips_method_names =
    (compute_with [custom_dsl
     [TIdent ''buf'', TPunct (CHR ''.'') False, TIdent ''fill'', TGroup [TLiteral]], lit] = [])"

lemma macro_tests_pass:
  "vec_macro_argument_scanned"
  "format_macro_argument_scanned"
  "format_macro_with_pure_args_passes"
  "stdout_and_dbg_macros_rejected"
  "full_path_io_macro_rejected"
  "macro_token_fallback_scans_non_expr_args"
  "macro_token_fallback_skips_method_names"
  by code_simp+

end
