(* ===== verification/Kms_Tests.thy ===== *)
theory Kms_Tests
  imports Kms Dedup Unit_Tests Rust_Text
begin

text \<open>The tests of \<^verbatim>\<open>hf2_kms/kms_backend.rs\<close>, \<^verbatim>\<open>hf2_kms/aws_kms.rs\<close> and \<^verbatim>\<open>dedup.rs\<close>.  BLAKE3 is an argument; its
digests have 32 bytes, and a test that tells two digests apart assumes that these two differ.\<close>

definition digests_32 :: "hasher \<Rightarrow> bool" where
  "digests_32 H \<longleftrightarrow> (\<forall>k m. length (keyed_hash H k m) = 32) \<and> (\<forall>m. length (plain_hash H m) = 32)"

section \<open>The mock backend\<close>

definition mock_with_kek :: "hasher \<Rightarrow> string \<Rightarrow> mock_kms \<times> kek_ref" where
  [test_defs]: "mock_with_kek H i = (let k = KekRef i in (register_kek H k MockKms_new, k))"

definition generate_dek_without_kek_errors :: "hasher \<Rightarrow> bool" where
  [test_defs]: "generate_dek_without_kek_errors H = passes
     [fails (mock_generate_dek H (KekRef ''ghost'')) (\<lambda>err. case err of KekNotFound _ \<Rightarrow> True | _ \<Rightarrow> False)] MockKms_new"

definition generate_dek_roundtrips_wrap_unwrap :: "hasher \<Rightarrow> bool" where
  [test_defs]: "generate_dek_roundtrips_wrap_unwrap H = (let (b, k) = mock_with_kek H ''kek-1'' in
     case mock_generate_dek H k b of (Inl _, _) \<Rightarrow> False | (Inr (dek_id, dek), b1) \<Rightarrow>
     case mock_wrap_dek dek k b1 of (Inl _, _) \<Rightarrow> False | (Inr wrapped, b2) \<Rightarrow>
     passes [yields (mock_unwrap_dek wrapped k) (\<lambda>unwrapped. as_bytes dek = as_bytes unwrapped),
       sees (\<lambda>_. dek_id_bytes dek_id \<noteq> replicate 16 0)] b2)"

definition unwrap_under_wrong_kek_fails :: "hasher \<Rightarrow> bool" where
  [test_defs]: "unwrap_under_wrong_kek_fails H = (let (b, k1) = mock_with_kek H ''kek-1''; k2 = KekRef ''kek-2'' in
     case mock_generate_dek H k1 (register_kek H k2 b) of (Inl _, _) \<Rightarrow> False | (Inr (_, dek), b1) \<Rightarrow>
     case mock_wrap_dek dek k1 b1 of (Inl _, _) \<Rightarrow> False | (Inr wrapped, b2) \<Rightarrow>
     passes [fails (mock_unwrap_dek wrapped k2) (\<lambda>err. err = UnwrapFailed)] b2)"

definition delete_key_idempotent_across_retries :: "hasher \<Rightarrow> bool" where
  [test_defs]: "delete_key_idempotent_across_retries H = (let (b, k) = mock_with_kek H ''kek-delete'' in
     case mock_delete_key H k b of (Inl _, _) \<Rightarrow> False | (Inr first, b1) \<Rightarrow>
     passes [yields (mock_delete_key H k) (\<lambda>second. first = second), sees (\<lambda>b. destroyed_count b = 1)] b1)"

definition delete_key_unknown_errors :: "hasher \<Rightarrow> bool" where
  [test_defs]: "delete_key_unknown_errors H = passes
     [fails (mock_delete_key H (KekRef ''never-existed'')) (\<lambda>err. case err of KekNotFound _ \<Rightarrow> True | _ \<Rightarrow> False)] MockKms_new"

definition rotate_kek_records_log_entry :: "hasher \<Rightarrow> bool" where
  [test_defs]: "rotate_kek_records_log_entry H = (let (b, k1) = mock_with_kek H ''kek-old''; k2 = KekRef ''kek-new'' in
     passes [calls (register_kek H k2), unwraps (mock_rotate_kek k1 k2), sees (\<lambda>b. rotation_log_len b = 1)] b)"

definition rotate_kek_unknown_old_errors :: bool where
  [test_defs]: "rotate_kek_unknown_old_errors = passes
     [fails (mock_rotate_kek (KekRef ''never-1'') (KekRef ''never-2'')) (\<lambda>err. case err of KekNotFound _ \<Rightarrow> True | _ \<Rightarrow> False)]
     MockKms_new"

definition generate_dek_is_deterministic_under_fixed_kek_seed :: "hasher \<Rightarrow> bool" where
  [test_defs]: "generate_dek_is_deterministic_under_fixed_kek_seed H =
     (let k = KekRef ''det-kek''; b1 = register_kek H k MockKms_new; b2 = register_kek H k MockKms_new in
      case (fst (mock_generate_dek H k b1), fst (mock_generate_dek H k b2)) of
        (Inr (id1, dek1), Inr (id2, dek2)) \<Rightarrow> id1 = id2 \<and> as_bytes dek1 = as_bytes dek2
      | _ \<Rightarrow> False)"

definition kek_ref_preserves_identity :: bool where
  [test_defs]: "kek_ref_preserves_identity = (let k = KekRef ''arn:aws:kms:eu-central-1:123:key/abc'' in
     kek_id k = ''arn:aws:kms:eu-central-1:123:key/abc'')"

definition duplicate_register_kek_is_noop :: "hasher \<Rightarrow> bool" where
  [test_defs]: "duplicate_register_kek_is_noop H = (let (b, k) = mock_with_kek H ''kek-dup'' in
     passes [calls (register_kek H k), calls (register_kek H k), sees (\<lambda>b. destroyed_count b = 0)] b)"

lemmas mock_simps = test_defs script_simps register_kek_def MockKms_new_def mock_generate_dek_def mock_wrap_dek_def
  mock_unwrap_dek_def mock_delete_key_def mock_rotate_kek_def destroyed_count_def rotation_log_len_def Let_def

lemma mock_tests_pass:
  "generate_dek_without_kek_errors H" "delete_key_idempotent_across_retries H" "delete_key_unknown_errors H"
  "rotate_kek_records_log_entry H" "rotate_kek_unknown_old_errors" "generate_dek_is_deterministic_under_fixed_kek_seed H"
  "kek_ref_preserves_identity" "duplicate_register_kek_is_noop H"
  by (simp_all add: mock_simps)

lemma wrapping_test_passes:
  assumes "digests_32 H"
    and "take 16 (plain_hash H (str_bytes ''arkhe-forge-mock-kms-dek-id'' @ str_bytes ''kek-1'' @ le_bytes 8 (1 :: u64))) \<noteq> replicate 16 0"
  shows "generate_dek_roundtrips_wrap_unwrap H"
proof -
  have "saturating_add (0 :: u64) 1 = 1" by (simp add: saturating_add_def checked_add_def)
  then show ?thesis using assms
    by (simp add: mock_simps digests_32_def as_bytes_def Dek_from_bytes_def Dek_with_config_def Dek_from_unwrapped_def del: replicate_Suc)
qed

lemma wrong_kek_test_passes:
  assumes "digests_32 H" "let key = plain_hash H (str_bytes ''arkhe-forge-mock-kms-kek-pad'')
     in keyed_hash H key (str_bytes ''kek-1'') \<noteq> keyed_hash H key (str_bytes ''kek-2'')"
  shows "unwrap_under_wrong_kek_fails H"
  using assms
  by (simp add: mock_simps digests_32_def as_bytes_def Dek_from_bytes_def Dek_with_config_def)

section \<open>The bridge to AWS\<close>

definition map_sdk_error_wraps_display_in_backend_variant :: bool where
  [test_defs]: "map_sdk_error_wraps_display_in_backend_variant =
     (case map_sdk_error ''boom'' of KmsBackendError msg \<Rightarrow> contains msg ''boom'' | _ \<Rightarrow> False)"

text \<open>\<^verbatim>\<open>destruction_log_index.fetch_add(1)\<close>\<close>
definition fetch_add_log_index :: "'c aws_kms \<Rightarrow> u64 \<times> 'c aws_kms" where
  [test_defs]: "fetch_add_log_index s = (aws_log_index s, s\<lparr>aws_log_index := aws_log_index s + 1\<rparr>)"

definition destruction_log_index_starts_at_zero_and_is_monotonic :: "'c \<Rightarrow> bool" where
  [test_defs]: "destruction_log_index_starts_at_zero_and_is_monotonic client = passes
     [takes fetch_add_log_index (\<lambda>i. i = 0), takes fetch_add_log_index (\<lambda>i. i = 1), takes fetch_add_log_index (\<lambda>i. i = 2)]
     (AwsKms_new_in_runtime client)"

lemma aws_tests_pass: "map_sdk_error_wraps_display_in_backend_variant" "destruction_log_index_starts_at_zero_and_is_monotonic client"
  subgoal by code_simp
  subgoal by (simp add: test_defs script_simps AwsKms_new_in_runtime_def)
  done

text \<open>The index the deletions of a backend hand out is the one the test counts.\<close>
lemma aws_delete_takes_index:
  assumes "aws_delete_key H A k s = (Inr att, s')"
  shows "(the (dsa_log_index att), aws_log_index s') = (fst (fetch_add_log_index s), aws_log_index (snd (fetch_add_log_index s)))"
  using assms by (auto simp: aws_delete_key_def bnd_def sdk_def fetch_add_log_index_def Let_def split: sum.splits prod.splits)

section \<open>The idempotency index\<close>

definition empty_store_reports_no_hit :: bool where
  [test_defs]: "empty_store_reports_no_hit = (index_is_empty MemIndex_new \<and> index_lookup MemIndex_new (replicate 16 0) = None)"

definition insert_then_lookup_returns_same_binding :: bool where
  [test_defs]: "insert_then_lookup_returns_same_binding = (let key = replicate 16 0x11 in passes
     [unwraps (index_insert key 42 100), sees (\<lambda>idx. index_lookup idx key = Some (42, 100))] MemIndex_new)"

definition reinsert_same_binding_is_noop_success :: bool where
  [test_defs]: "reinsert_same_binding_is_noop_success = (let key = replicate 16 0x22 in passes
     [unwraps (index_insert key 7 1), unwraps (index_insert key 7 1), sees (\<lambda>idx. index_len idx = 1)] MemIndex_new)"

definition conflict_returns_error :: bool where
  [test_defs]: "conflict_returns_error = (let key = replicate 16 0x33 in passes
     [unwraps (index_insert key 1 1), fails (index_insert key 2 1) (\<lambda>err. err = Conflict key)] MemIndex_new)"

definition trait_object_usable_for_action_context :: bool where
  [test_defs]: "trait_object_usable_for_action_context = passes
     [unwraps (index_insert (replicate 16 0x44) 99 5),
      sees (\<lambda>idx. let trait_ref = index_lookup idx in trait_ref (replicate 16 0x44) = Some (99, 5))] MemIndex_new"

lemma index_tests_pass:
  "empty_store_reports_no_hit" "insert_then_lookup_returns_same_binding" "reinsert_same_binding_is_noop_success"
  "conflict_returns_error" "trait_object_usable_for_action_context"
  by (simp_all add: test_defs script_simps index_insert_def index_lookup_def index_len_def index_is_empty_def MemIndex_new_def)

end
