(* ===== verification/Forge_Integration_Tests.thy ===== *)
theory Forge_Integration_Tests
  imports Hand_Demo Unit_Tests
begin

text \<open>The tests of \<^verbatim>\<open>examples/card_primitives/tests/forge_integration.rs\<close>: the showdown action through the pipeline of the
runtime, and through the service with the export of the log.  The environment is that of the demonstration; the counts of effects in the
kernel's report have no model.\<close>

section \<open>Fixtures\<close>

definition fixture_seed :: bytes where
  "fixture_seed = map (\<lambda>i. of_nat i * 17 + 3) [0..<32]"

text \<open>The rest of a test on the order of the shuffled deck; a test does not pass when the shuffle does not return.\<close>
definition shuffled_order :: "xof \<Rightarrow> bytes \<Rightarrow> (bytes \<Rightarrow> bool) \<Rightarrow> bool" where
  "shuffled_order X s rest = some_with (Deck_shuffle X Deck_standard (from_seed s)) (\<lambda>(deck, _). rest (map to_byte (cards deck)))"

definition fixture_action :: "digest \<Rightarrow> xof \<Rightarrow> (record_hand_showdown \<Rightarrow> bool) \<Rightarrow> bool" where
  "fixture_action H X rest = shuffled_order X fixture_seed (\<lambda>order. rest
     \<lparr>rhs_schema_version = 1, rhs_commitment = commitment_bytes (commit_seed H fixture_seed), rhs_seed = fixture_seed,
      rhs_deck_order = DeckOrderBytes order, rhs_hand_rank_bytes = to_chain_hash_bytes (Straight Ten)\<rparr>)"

definition fixture_ctx :: "caps \<Rightarrow> 'ext ctx" where
  "fixture_ctx SYS = ActionContext_new (replicate 32 0x11) 1 0 System SYS"

text \<open>\<^verbatim>\<open>process_action(&action, &mut fixture_ctx())\<close>\<close>
definition processed ::
  "digest \<Rightarrow> xof \<Rightarrow> hand_showdown_landed codec \<Rightarrow> caps \<Rightarrow> record_hand_showdown \<Rightarrow> (action_error + event_record list \<Rightarrow> bool) \<Rightarrow> bool" where
  "processed H X pc SYS action rest =
     some_with (compute_RecordHandShowdown H X pc action (fixture_ctx SYS :: unit ctx)) (\<lambda>r.
       rest (fst (process_action (\<lambda>_. r) (fixture_ctx SYS))))"

section \<open>The tests\<close>

definition replay_determinism_event_payload_byte_identical ::
  "digest \<Rightarrow> xof \<Rightarrow> hand_showdown_landed codec \<Rightarrow> caps \<Rightarrow> bool" where
  "replay_determinism_event_payload_byte_identical H X pc SYS = fixture_action H X (\<lambda>action.
     processed H X pc SYS action (\<lambda>a. processed H X pc SYS action (\<lambda>b.
       ok_with a (\<lambda>events_a. ok_with b (\<lambda>events_b. length events_a = 1 \<and> length events_b = 1
         \<and> er_type_code (events_a ! 0) = er_type_code (events_b ! 0) \<and> er_sequence (events_a ! 0) = er_sequence (events_b ! 0)
         \<and> er_tick (events_a ! 0) = er_tick (events_b ! 0) \<and> er_payload (events_a ! 0) = er_payload (events_b ! 0)
         \<and> er_type_code (events_a ! 0) = TYPE_CODE (HandShowdownLanded pc))))))"

definition commitment_mismatch_returns_invalid_input ::
  "digest \<Rightarrow> xof \<Rightarrow> hand_showdown_landed codec \<Rightarrow> caps \<Rightarrow> bool" where
  "commitment_mismatch_returns_invalid_input H X pc SYS = fixture_action H X (\<lambda>action.
     processed H X pc SYS (action\<lparr>rhs_seed := flip_first 1 (rhs_seed action)\<rparr>) (\<lambda>r.
       err_with r (\<lambda>err. err = InvalidInput ''commitment mismatch'')))"

definition deck_order_tamper_returns_invalid_input ::
  "digest \<Rightarrow> xof \<Rightarrow> hand_showdown_landed codec \<Rightarrow> caps \<Rightarrow> bool" where
  "deck_order_tamper_returns_invalid_input H X pc SYS = fixture_action H X (\<lambda>action_clean.
     let tampered_order = swap (dob_inner (rhs_deck_order action_clean)) 0 1 in
     processed H X pc SYS (action_clean\<lparr>rhs_deck_order := DeckOrderBytes tampered_order\<rparr>) (\<lambda>r.
       err_with r (\<lambda>err. err = InvalidInput ''shuffle order invalid'')))"

definition chain_hash_byte_identical_to_showdown_receipt ::
  "digest \<Rightarrow> xof \<Rightarrow> hand_showdown_landed codec \<Rightarrow> caps \<Rightarrow> bool" where
  "chain_hash_byte_identical_to_showdown_receipt H X pc SYS = fixture_action H X (\<lambda>action.
     let receipt = \<lparr>deck_order = dob_inner (rhs_deck_order action), hand_rank = Straight Ten\<rparr>; audience_anchor = chain_hash H receipt in
     processed H X pc SYS action (\<lambda>r. ok_with r (\<lambda>events. some_with (cd_dec pc (er_payload (events ! 0)))
       (\<lambda>landed. hsl_chain_hash landed = audience_anchor))))"

definition runtime_service_dispatch_wal_export_round_trip :: "('k, 'ext, 'kerr, 'rep, 'cfg, 'r) hand_env \<Rightarrow> bool" where
  "runtime_service_dispatch_wal_export_round_trip P = fixture_action (de_digest P) (de_xof P) (\<lambda>action.
     ok_with (l2_dispatch P action) (\<lambda>(report, k). he_executed P report = 1 \<and>
     ok_with (wal_export P k) (\<lambda>(wal, _, buffer). length wal = 2
       \<and> some_with (de_submit P (wal ! 0)) (\<lambda>(action_type_code, _). action_type_code = 0x01000001)
       \<and> buffer \<noteq> [] \<and> ok_with (round_trip P wal buffer) (\<lambda>recovered. map Some recovered = map (de_encode P) wal))))"

section \<open>The tests pass\<close>

lemma showdown_ctx_simps:
  "caps (fixture_ctx SYS) = SYS" "events (fixture_ctx SYS) = []"
  by (simp_all add: fixture_ctx_def ActionContext_new_def)

lemma fixture_returns:
  assumes "Deck_shuffle X Deck_standard (from_seed fixture_seed) = Some (d, r)"
  shows "shuffled_order X fixture_seed rest = rest (deck_bytes d)"
  by (simp add: shuffled_order_def assms deck_bytes_def)

text \<open>The action of the fixture lands with one event.\<close>
lemma fixture_lands:
  assumes "Deck_shuffle X Deck_standard (from_seed fixture_seed) = Some (d, r)" "codec_works pc" "SYS \<noteq> 0"
  shows "fixture_action H X (\<lambda>action. processed H X pc SYS action rest) = rest (Inr [\<lparr>er_type_code = 0x01000002,
      er_sequence = event_seq (fixture_ctx SYS :: unit ctx), er_tick = cur_tick (fixture_ctx SYS :: unit ctx),
      er_payload = encoded pc \<lparr>hsl_schema_version = 1,
        hsl_chain_hash = chain_hash H \<lparr>deck_order = deck_bytes d, hand_rank = Straight Ten\<rparr>\<rparr>\<rparr>])"
proof -
  have v: "verify_shuffle_order H X (commit_seed H fixture_seed) fixture_seed (deck_bytes d) = Some (Inr ())"
    using assms(1) unfolding verify_shuffle_order_ok by blast
  show ?thesis
    using v assms(3) by (simp add: fixture_action_def fixture_returns[OF assms(1)] processed_def compute_RecordHandShowdown_def
        ensure_schema_version_apply emit_event_def HandShowdownLanded_def encoded_works[OF assms(2)] process_action_def ensure_caps_def
        drain_events_def bnd_def showdown_ctx_simps chain_hash_def Let_def)
qed

lemma seed_flipped: "flip_first 1 fixture_seed \<noteq> fixture_seed"
  by code_simp

lemma showdown_pipeline_tests_pass:
  assumes "Deck_shuffle X Deck_standard (from_seed fixture_seed) = Some (d, r)" "codec_works pc" "SYS \<noteq> 0"
  shows "replay_determinism_event_payload_byte_identical H X pc SYS" "chain_hash_byte_identical_to_showdown_receipt H X pc SYS"
    "H (DOMAIN_COMMIT @ flip_first 1 fixture_seed) \<noteq> H (DOMAIN_COMMIT @ fixture_seed) \<Longrightarrow>
       commitment_mismatch_returns_invalid_input H X pc SYS"
    "deck_order_tamper_returns_invalid_input H X pc SYS"
proof -
  let ?action = "\<lparr>rhs_schema_version = 1, rhs_commitment = commitment_bytes (commit_seed H fixture_seed), rhs_seed = fixture_seed,
      rhs_deck_order = DeckOrderBytes (deck_bytes d), rhs_hand_rank_bytes = to_chain_hash_bytes (Straight Ten)\<rparr>"
  have f: "fixture_action H X rest = rest ?action" for rest by (simp add: fixture_action_def fixture_returns[OF assms(1)])
  have l: "processed H X pc SYS ?action rest = rest (Inr [\<lparr>er_type_code = 0x01000002,
      er_sequence = event_seq (fixture_ctx SYS :: unit ctx), er_tick = cur_tick (fixture_ctx SYS :: unit ctx),
      er_payload = encoded pc \<lparr>hsl_schema_version = 1,
        hsl_chain_hash = chain_hash H \<lparr>deck_order = deck_bytes d, hand_rank = Straight Ten\<rparr>\<rparr>\<rparr>])" for rest
    using fixture_lands[OF assms, of H rest] unfolding f .
  note simps = f Let_def processed_def compute_RecordHandShowdown_def ensure_schema_version_apply process_action_def ensure_caps_def
    bnd_def showdown_ctx_simps
  show "replay_determinism_event_payload_byte_identical H X pc SYS"
    by (simp add: replay_determinism_event_payload_byte_identical_def f l HandShowdownLanded_def)
  show "chain_hash_byte_identical_to_showdown_receipt H X pc SYS"
    by (simp add: chain_hash_byte_identical_to_showdown_receipt_def f l encoded_works[OF assms(2)] Let_def)
  show "commitment_mismatch_returns_invalid_input H X pc SYS"
    if "H (DOMAIN_COMMIT @ flip_first 1 fixture_seed) \<noteq> H (DOMAIN_COMMIT @ fixture_seed)"
    using that assms(3) by (simp add: commitment_mismatch_returns_invalid_input_def simps commit_seed_def)
  have "verify_shuffle_order H X (commit_seed H fixture_seed) fixture_seed (swap (deck_bytes d) 0 1) = Some (Inl DeckMismatch)"
    using swapped_order_differs[OF assms(1)] assms(1) by (auto simp: verify_shuffle_order_def verify_commitment_def)
  then show "deck_order_tamper_returns_invalid_input H X pc SYS"
    using assms(3) by (simp add: deck_order_tamper_returns_invalid_input_def simps)
qed

lemma service_test_passes:
  fixes P :: "('k, 'ext, 'kerr, 'rep, 'cfg, 'r) hand_env"
  assumes "kernel_logs P log ready" "Deck_shuffle (de_xof P) Deck_standard (from_seed fixture_seed) = Some (d, r)"
    and "kernel_schedules P RECORD_HAND_SHOWDOWN_TYPE_CODE registered due" "\<forall>a. storable P a"
  shows "runtime_service_dispatch_wal_export_round_trip P"
proof -
  let ?rest = "\<lambda>action. ok_with (l2_dispatch P action) (\<lambda>(report, k). he_executed P report = 1 \<and>
     ok_with (wal_export P k) (\<lambda>(wal, _, buffer). length wal = 2
       \<and> some_with (de_submit P (wal ! 0)) (\<lambda>(action_type_code, _). action_type_code = 0x01000001)
       \<and> buffer \<noteq> [] \<and> ok_with (round_trip P wal buffer) (\<lambda>recovered. map Some recovered = map (de_encode P) wal)))"
  have "?rest action" for action
  proof -
    from service_stages[OF assms(1,3) assms(4)[rule_format]] obtain report k w v B where s:
      "l2_dispatch P action = Inr (report, k)" "he_executed P report = 1" "wal_export P k = Inr ([w, v], he_chain_hash P v, B)"
      "round_trip P [w, v] B = Inr (map (the \<circ> de_encode P) [w, v])" "B = STREAM_HEADER_MAGIC @ frames (map (the \<circ> de_encode P) [w, v])"
      "de_submit P w = Some (RECORD_HAND_SHOWDOWN_TYPE_CODE, de_canonical P action)" "encodable P w" "encodable P v"
      by metis
    have "B \<noteq> []" by (simp add: s(5) STREAM_HEADER_MAGIC_def)
    then show ?thesis using s(7,8)
      by (simp add: s(1-4,6) RECORD_HAND_SHOWDOWN_TYPE_CODE_def) (auto simp: encodable_def)
  qed
  then show ?thesis
    unfolding runtime_service_dispatch_wal_export_round_trip_def fixture_action_def fixture_returns[OF assms(2)] by blast
qed

end
