(* ===== verification/Spec2Isabelle.thy ===== *)
theory Spec2Isabelle
  imports Crypto_Erasure Dedup Secret_Sharing Journal Kms Dice Hand_Demo Workspace_Scan Fingerprint Protection Testkit Runtime_Proofs Registry
    Projection_Tests Crypto_Erasure_Tests Round_Trip_Tests Hands_Tests Shuffle_Proof_Tests
    Wire_Tests Core_Tests Manifest_Tests Threshold_Tests Journal_Tests Verifier_Tests Crypto_Tests Purity_Tests Kms_Tests
    Forge_Integration_Tests
begin

text \<open>Verification development for ArkheForge, the forge runtime that sits between a deterministic kernel (an
external crate) and the shells that use it.  This block says what is modelled, theory by theory, and what the
lemmas show.  Paths are under \<^verbatim>\<open>src/\<close>.

The program.  A shell submits actions (register a user, create a space, post an entry, erase a user, ...).  The
service wraps the payload, hands it to the kernel, and the kernel calls back the bridge, which runs the action's
\<^verbatim>\<open>compute\<close> body over a context that stages writes and events.  The bridge returns the staged operations, the
kernel applies them and writes the call to its log (WAL).  The platform reads what was committed: the log is
exported as a byte stream, events are routed to projections in sequence order, one of which is the erasure cascade
that destroys keys and records attestations; other parts seal personal data, wrap keys, share secrets, keep the
audit journal, decide on the health of the key service and load the shell's manifest.  Around the runtime are a
random library, a purity lint with its derive macros and two workspace scans, and two example programs.

Conventions (\<^verbatim>\<open>Prelude\<close>, \<^verbatim>\<open>Rust_Text\<close>).  A fixed-width integer is a word of its width; where the code checks
or saturates, so does the model.  Byte strings are lists of bytes, a Rust string is its bytes, and where the code
reads characters it is the list of their code points.  A fallible function returns a sum, the error on the left.
Stateful operations of the core are functions of a state-and-error monad, with a collection of rules for the
invariants its compositions keep.  A Rust trait is a record of functions over a state type, so that every operation
of the model runs over arbitrary implementations.  A loop that need not end gives \<^verbatim>\<open>None\<close> when it does not; a
panic is a value of the result.

Core, \<^verbatim>\<open>arkhe-forge-core/src\<close>.
\<^item> \<^verbatim>\<open>Typecode\<close> (\<^verbatim>\<open>typecode.rs\<close>), \<^verbatim>\<open>Pii\<close> (\<^verbatim>\<open>pii.rs\<close>), \<^verbatim>\<open>Component\<close> (\<^verbatim>\<open>component.rs\<close>), \<^verbatim>\<open>Data_Model\<close> (\<^verbatim>\<open>user.rs\<close>,
  \<^verbatim>\<open>actor.rs\<close>, \<^verbatim>\<open>space.rs\<close>, \<^verbatim>\<open>entry.rs\<close>, \<^verbatim>\<open>activity.rs\<close>, \<^verbatim>\<open>brand.rs\<close>) and \<^verbatim>\<open>Event\<close> (\<^verbatim>\<open>event.rs\<close>): the data.  Lemmas:
  the ranges of codes are disjoint and partition, the additional data of a sealed value determines its parts,
  the registry is injective, the message counter never repeats, bounded strings and attestations keep their lengths.
\<^item> \<^verbatim>\<open>Context\<close> (\<^verbatim>\<open>context.rs\<close>): every operation of the action context.  An id is one of
  at most 16 hashes, the first that is not zero; staged reads are plain reads of the state the staged operations
  lead to; the erasure gate finds an erased or pending user through the staged state.
\<^item> \<^verbatim>\<open>Actions\<close>: the compute bodies with their guards in source order; what each stages on success, who is recorded
  as the author, and that parents and depths of spaces form a forest of depth at most 64.
\<^item> \<^verbatim>\<open>Service\<close> (\<^verbatim>\<open>pipeline.rs\<close>, \<^verbatim>\<open>bridge.rs\<close>, the platform's \<^verbatim>\<open>dispatcher.rs\<close>): the pipeline, the bridge, the
  service and a ledger, the reading of an instance's view as the writes applied to it in order; the erasure of a user from its dispatch to
  the refusal of the user's later actions, while nobody else writes the user's lifecycle or the actor's binding (\<^verbatim>\<open>spares\<close>).
\<^item> \<^verbatim>\<open>Registry\<close>: the service as a state machine.  \<^verbatim>\<open>serves\<close> is the step relation of one dispatch and \<^verbatim>\<open>run_of\<close>
  any number of them; under \<^verbatim>\<open>kernel_executes\<close>, the contract of the kernel the service relies on, the dispatches simulate
  an abstract registry of erasure states, in which an erased user stays erased.  The simulation asks that the calls derive
  distinct and unused ids; that two registrations of one tick stage one id is stated on its own, over the bridge alone.
\<^item> \<^verbatim>\<open>Demo\<close>: finite codecs and a hash for the witnesses, and nothing the properties rest on.

Platform, \<^verbatim>\<open>arkhe-forge-platform/src\<close>.
\<^item> \<^verbatim>\<open>WalExport\<close> (\<^verbatim>\<open>wal_export\<close>, and the export of \<^verbatim>\<open>dispatcher.rs\<close>): sink, exporter, reader.  Writing then reading is the identity; the reader classifies
  every byte stream, ends on each and refuses torn ones; the sink never rewrites.  Interfaces
  \<^verbatim>\<open>wal_record_sink\<close>, \<^verbatim>\<open>byte_writer\<close> and \<^verbatim>\<open>reliable_sink\<close>: any writer that appends gives a sink (a sublocale),
  and the in-memory writer interprets them.  A record is at most 16 MiB, as in the code.
\<^item> \<^verbatim>\<open>Projection\<close> (\<^verbatim>\<open>projection.rs\<close>): router, row store, fan-out.  The locale \<^verbatim>\<open>projection\<close> is the
  contract of an observer; a router over any mixture of honest observers delivers every committed event once and in
  order.  \<^verbatim>\<open>keyed_table\<close> is interpreted by the four tables of the store, \<^verbatim>\<open>projection\<close> by the fan-out and the cascade.
\<^item> \<^verbatim>\<open>Verifier\<close>, \<^verbatim>\<open>Crypto_Erasure\<close> (\<^verbatim>\<open>verifier.rs\<close>, \<^verbatim>\<open>crypto_erasure.rs\<close>): signature classes, shredders, cascade.  The
  cascade is proved over \<^verbatim>\<open>dek_shredder\<close> and \<^verbatim>\<open>pii_row_store\<close>, joined in \<^verbatim>\<open>cascade_env\<close>, and interpreted with both
  shredders of the code: every completion is backed by a destroyed key, the destruction log has no gap.
\<^item> \<^verbatim>\<open>Dedup\<close> (\<^verbatim>\<open>dedup.rs\<close>, interface \<^verbatim>\<open>idempotency_store\<close>); \<^verbatim>\<open>Manifest\<close> (\<^verbatim>\<open>manifest.rs\<close>: validation, versions, loader);
  \<^verbatim>\<open>Protection\<close> (\<^verbatim>\<open>process_protection\<close>: what the operating system guarantees once the calls succeed).
\<^item> \<^verbatim>\<open>Crypto\<close> (\<^verbatim>\<open>crypto.rs\<close>): the coordinator.  Decryption undoes encryption, counter nonces never repeat under a key,
  a rotation re-seals everything or nothing.
\<^item> \<^verbatim>\<open>Health\<close>, \<^verbatim>\<open>Journal\<close>, \<^verbatim>\<open>Kms\<close>, \<^verbatim>\<open>Threshold\<close> (\<^verbatim>\<open>hf2_kms\<close>): probes and quorum, the chained journal (interface
  \<^verbatim>\<open>persistent_journal\<close>: a token is consumed once), the key backends (\<^verbatim>\<open>kms_envelope\<close>), secret sharing.
  \<^verbatim>\<open>Galois_Field\<close> makes the byte arithmetic of the code an instance of the class of fields, \<^verbatim>\<open>Polynomials\<close> proves
  interpolation, and \<^verbatim>\<open>Secret_Sharing\<close> concludes that enough shares reconstruct and that fewer say nothing.

Libraries and tools.
\<^item> \<^verbatim>\<open>Rand\<close>, \<^verbatim>\<open>Rand_Sampling\<close> (\<^verbatim>\<open>arkhe-rand\<close>): each sampler returns the first draw that is not rejected, every result
  having the same number of draws, for all five integer types (\<^verbatim>\<open>int_sampler\<close>); the shuffle maps the choices one
  to one on the permutations.  A sampler ends when some draw of the stream is accepted, and this is a hypothesis.
\<^item> \<^verbatim>\<open>Purity\<close> (\<^verbatim>\<open>arkhe-subset-rust-check\<close>): the lint over syntax and token trees; matching by text is matching by
  segments, and the scan of tokens reports every denied path at the start of a group or after a separator.  \<^verbatim>\<open>Macros\<close> (\<^verbatim>\<open>arkhe-forge-macros\<close>):
  the validation of each derive, against the accepted types written out, and the constants it emits.  \<^verbatim>\<open>Workspace_Scan\<close>, \<^verbatim>\<open>Fingerprint\<close>
  (\<^verbatim>\<open>arkhe-trait-default-check\<close>): the locale \<^verbatim>\<open>file_scanner\<close> says that a scan passes when every file does, and is
  interpreted by both scans; normalised bodies.
\<^item> \<^verbatim>\<open>Runtime_Proofs\<close> (\<^verbatim>\<open>arkhe-runtime-proofs\<close>): the abstract models that Kani checks, and how the verifier relates to
  them.  \<^verbatim>\<open>Testkit\<close> (\<^verbatim>\<open>arkhe-runtime-testkit\<close>): the scope marker and the ranges the strategies draw from.
\<^item> \<^verbatim>\<open>Cards\<close>, \<^verbatim>\<open>Hands\<close>, \<^verbatim>\<open>Shuffle_Proof\<close>, \<^verbatim>\<open>Hand_Demo\<close> (\<^verbatim>\<open>examples/card_primitives\<close>), \<^verbatim>\<open>Dice\<close> (\<^verbatim>\<open>examples/dice\<close>), over
  \<^verbatim>\<open>Kernel_Log\<close>, the kernel and its log: the deck deals every card once, the order of hands is that of their
  encoding, a commitment binds the order of the deck, both programs run through and read back what they wrote.  They rest on
  \<^verbatim>\<open>kernel_logs\<close> (submissions and steps are logged and exported) and the demonstration also on \<^verbatim>\<open>kernel_schedules\<close> (a step executes
  what is due of the registered action).

Unit tests.  \<^verbatim>\<open>Unit_Tests\<close> gives scripts: a test of the source is a list of steps (a call that must succeed, a
call that must fail with a given error, a look at the state), and passes when every step does.  Each theory \<^verbatim>\<open>X_Tests\<close>
translates test functions of the files that \<^verbatim>\<open>X\<close> models, under their names, as executable predicates, and proves that
the models pass them; where a test calls code outside the repository, the lemma has the documented behaviour as a
hypothesis.  \<^verbatim>\<open>Round_Trip_Tests\<close> also has the second parser of export streams that the suite compares the reader
with, and proves the two equal on every stream.  \<^verbatim>\<open>Axiom_Tests\<close> holds the axiom harness of the core
(\<^verbatim>\<open>tests/axioms_e_*.rs\<close>) and \<^verbatim>\<open>Core_Tests\<close> the tests inside the core's files; each of their lemmas holds for every
codec and hash.  \<^verbatim>\<open>Forge_Integration_Tests\<close> has the integration tests of the card example.

This theory.  Below, the parts are put together for the erasure of a user: the compute body, the bridge, the router, the
cascade with the signing shredder, and the verifier that accepts the receipt.

Parameters.  Code that is not in the repository is an argument: BLAKE3, the AEAD ciphers, Ed25519 and ML-DSA,
the kernel with its log, postcard and TOML, the trees of syn and the attributes of darling, the random source,
DNS and TCP, the cloud SDK, the operating system's calls and the files.  What a theorem needs of one is a named
hypothesis of that theorem (a codec that decodes what it encodes, a cipher that opens what it sealed, a hash that
does not collide on the two inputs at hand, a kernel that logs what it dispatched), and each such theorem has a witness on
concrete functions.

Not modelled.  The facade, the sealed marker trait, module declarations and re-exports have no behaviour.  Of the
tests, those of error texts, of \<^verbatim>\<open>Debug\<close> output, of trait bounds and those that need the value of a hash or of a random
generator, and the property-test suites, are left out; the Kani harnesses around the models, the TLA+
specifications and the scripts are other statements about the code, not the code.  Texts of error messages and fixed printed text, \<^verbatim>\<open>Debug\<close> output, wiping of memory, atomic
orderings and locks (each operation runs alone on its state), time taken by the asynchronous calls, and the
strategies of the property-test library are left out.\<close>

section \<open>From a request for erasure to a verifiable receipt\<close>

lemma erasure_request_payload:
  assumes "EmitEvent dst tc payload \<in> set (kernel_compute_inner SYS (compute_GdprEraseUser pc eu) inst t actor)" (is "?p \<in> set ?E")
    and "codec_ok (pc_user_erasure_scheduled pc)"
  shows "tc = USER_ERASURE_SCHEDULED \<and> map_option ues_user (cd_dec (pc_user_erasure_scheduled pc) payload) = Some (geu_user eu)"
proof -
  have "?E \<noteq> []" using assms(1) by auto
  from kernel_compute_inner_nonempty[OF this] obtain c where
    c: "compute_GdprEraseUser pc eu (bridge_ctx SYS inst t actor) = (Inr (), c)" "?p \<in> set (ops c)"
    using assms(1) by auto
  then show ?thesis using assms(2)
    by (auto simp: compute_GdprEraseUser_ok enc_op_Some codec_okD split: if_splits)
qed

text \<open>C7: a request for erasure ends in a verifiable receipt. The bridge turns \<^verbatim>\<open>GdprEraseUser\<close> into operations; let the event among
them reach, among any other events in any order, with repetitions and failures and over any changes of state, a router that feeds the
erasure cascade over the in-memory rows and the signing shredder, and let the router accept it. Assume that the rows name a key
for the user and that this key was not shredded before the run (one that was shredded and registered again stays live). Then the user is
tombstoned, the key is no longer live, and the cascade holds a completion for the user whose attestation the envelope verifier accepts
under the ML-DSA-65 policy as the destruction of exactly that key.\<close>
theorem erasure_request_attested:
  assumes "codec_ok (pc_user_erasure_scheduled pc)" "mldsa_correct D k Sg"
    and "EmitEvent dst tc payload \<in> set (kernel_compute_inner SYS (compute_GdprEraseUser pc eu) inst t actor)"
    and "upr_dek_id (mem_rows_for (geu_user eu) rows) = Some d"
    and "sh = fold (signing_step h D) before (SigningShredder_new MemShredder_new k)" "shredded (sg_inner sh) d = None"
    and "P = cascade_ops (pc_user_erasure_scheduled pc) mem_rows_ops (signing_shredder_ops h D)"
    and "run_router P cmds ([], start_router P [Cascade_new rows sh]) = (acc, r)"
    and "ev \<in> set acc" "er_type_code ev = tc" "er_payload ev = payload"
  shows "\<exists>c e i. projections r = [c] \<and> mr_tombstoned (cs_rows c) (geu_user eu) \<noteq> None
     \<and> live (sg_inner (cs_shredder c)) d = None
     \<and> e \<in> set (cs_completions c) \<and> ec_user e = geu_user eu \<and> dsa_log_index (ec_attestation e) = Some i
     \<and> verify_receipt_envelope Sg RSC_MlDsa65 (public_key_bytes k) (dek_shred_message d i) []
          (Some (dsa_bytes (ec_attestation e))) = Inr ()"
proof -
  let ?pc = "pc_user_erasure_scheduled pc" and ?S = "signing_shredder_ops h D" and ?u = "geu_user eu"
  let ?due = "\<lambda>es. map (user_of ?pc) (filter (\<lambda>ev. er_type_code ev = USER_ERASURE_SCHEDULED) es)"
  note run = assms(8)[unfolded assms(7)]
  have "length (projections r) = 1" and all_due: "list_all (\<lambda>c. map (\<lambda>k. Some (ec_user k)) (cs_completions c) = ?due acc
      \<or> (\<exists>ev. pinned r = Some ev \<and> map (\<lambda>k. Some (ec_user k)) (cs_completions c) = ?due (acc @ [ev]))) (projections r)"
    using completions_due[of ?pc mem_rows_ops ?S cmds "[(rows, sh)]"] by (simp_all add: Let_def run)
  then obtain c where r: "projections r = [c]" by (auto simp: length_Suc_conv)
  from all_due have "\<exists>es. map (\<lambda>k. Some (ec_user k)) (cs_completions c) = ?due es \<and> set acc \<subseteq> set es"
    unfolding r list.pred_inject(2) by - (elim conjE disjE exE; (intro exI conjI, assumption, simp add: subset_insertI))
  then obtain es where es: "set acc \<subseteq> set es" "map (\<lambda>k. Some (ec_user k)) (cs_completions c) = ?due es" by blast
  have req: "tc = USER_ERASURE_SCHEDULED" "user_of ?pc ev = Some ?u"
    using erasure_request_payload[OF assms(3,1)] assms(11) by (simp_all add: user_of_def)
  have "Some ?u \<in> set (?due es)" using req es(1) assms(9,10) by (force simp flip: req(2))
  then have u: "?u \<in> ec_user ` set (cs_completions c)" unfolding es(2)[symmetric] by auto
  have "list_all (attested (signed_receipt D) ?u d) (projections r)"
    by (rule cascade_slotwise[where Q="attested (signed_receipt D) ?u d", OF _ _ run])
      (simp_all add: attested_event[OF signing_sh.dek_shredder_axioms], simp add: attested_def Cascade_new_def assms(4))
  with r u obtain e where e: "e \<in> set (cs_completions c)" "ec_user e = ?u"
    "signed_receipt D (cs_shredder c) d = Some (ec_attestation e)" "mr_tombstoned (cs_rows c) ?u \<noteq> None"
    by (auto simp: attested_def)
  have "list_all (\<lambda>c. shreds h D sh (cs_shredder c)) (projections r)"
    by (rule cascade_slotwise[where Q="\<lambda>c. shreds h D sh (cs_shredder c)", OF _ _ run])
      (simp_all add: shreds_event, simp add: Cascade_new_def shreds_def exI[of _ "[]"])
  then have sh: "shreds h D sh (cs_shredder c)" using r by simp
  obtain all where all: "cs_shredder c = fold (signing_step h D) all (SigningShredder_new MemShredder_new k)"
    using sh fold_append[of "signing_step h D" before] unfolding shreds_def assms(5) by (metis comp_apply)
  obtain i where i: "shredded (sg_inner (cs_shredder c)) d = Some (ec_attestation e)"
    "ec_attestation e = \<lparr>dsa_class = RSC_MlDsa65,
       dsa_bytes = receipt_sign D k (dek_shred_message d i), dsa_log_index = Some i\<rparr>"
    using signed_receipt_signed[OF log_ok_runs(2)[of h D all k, folded all] e(3)]
    by (auto simp: all signing_signer_steps SigningShredder_new_def)
  have "gone d (sg_inner (cs_shredder c))" by (rule gone_shreds[OF _ sh]) (simp add: gone_def assms(6))
  then have "live (sg_inner (cs_shredder c)) d = None" by (simp add: gone_def i(1))
  moreover have "verify_receipt_envelope Sg RSC_MlDsa65 (public_key_bytes k) (dek_shred_message d i) []
          (Some (dsa_bytes (ec_attestation e))) = Inr ()"
    using assms(2) unfolding envelope_ok by (auto simp: i(2) mldsa_correct_def public_key_bytes_def receipt_sign_def sig_widths)
  ultimately show ?thesis using r e i(2) by auto
qed

lemma erasure_request_attested_witness:
  "let P = cascade_ops (pc_user_erasure_scheduled demo_pc) mem_rows_ops (signing_shredder_ops demo_hash demo_mldsa);
       r = snd (run_router P [CPromote, CDispatch demo_erasure (ProjectionContext_new 7 1)]
             ([], start_router P [Cascade_new (rows_upsert demo_uid [1, 2] demo_dek MemRows_new) demo_signing]))
   in \<exists>c e. projections r = [c] \<and> live (sg_inner (cs_shredder c)) demo_dek = None
        \<and> e \<in> set (cs_completions c) \<and> ec_user e = demo_uid"
proof -
  let ?k = "mldsa65_from_seed demo_mldsa (replicate 32 0)"
  let ?P = "cascade_ops (pc_user_erasure_scheduled demo_pc) mem_rows_ops (signing_shredder_ops demo_hash demo_mldsa)"
  let ?c = "Cascade_new (rows_upsert demo_uid [1, 2] demo_dek MemRows_new) demo_signing"
  have 1: "mldsa_correct demo_mldsa ?k \<lparr>ed_strict = (\<lambda>_ _ _. False), mldsa_verify = Some (\<lambda>vk m sg. sg = take 3309 (m @ replicate 3309 0))\<rparr>"
    by (simp add: mldsa_correct_def demo_mldsa_def mldsa65_from_seed_def sig_widths min_def)
  have 2: "EmitEvent None USER_ERASURE_SCHEDULED [12] \<in> set (kernel_compute_inner 1 (compute_GdprEraseUser demo_pc demo_erase) 1 7 None)"
    unfolding demo_bridge_runs(3) by simp
  have 3: "upr_dek_id (mem_rows_for (geu_user demo_erase) (rows_upsert demo_uid [1, 2] demo_dek MemRows_new)) = Some demo_dek"
    by (simp add: mem_rows_for_def rows_upsert_def demo_erase_def)
  have 4: "demo_signing = fold (signing_step demo_hash demo_mldsa) [RegisterDek demo_dek] (SigningShredder_new MemShredder_new ?k)"
    by (simp add: demo_signing_def)
  have 5: "shredded (sg_inner demo_signing) demo_dek = None"
    by (simp add: demo_signing_def signing_register_def mem_register_def SigningShredder_new_def MemShredder_new_def)
  have dec: "cd_dec (pc_user_erasure_scheduled demo_pc) [12] = Some \<lparr>ues_schema_version = 1, ues_user = demo_uid, ues_scheduled_tick = 7\<rparr>"
    by (rule codec_okD[OF demo_pc_ok(9) demo_enc(11)])
  obtain a s' where sh: "signing_shred demo_hash demo_mldsa demo_dek demo_signing = (Inr a, s')" using demo_signing_shred by blast
  have ev: "\<exists>c'. p_on_event ?P demo_erasure (ProjectionContext_new 7 1) ?c = (Inr (), c')"
    using 3 by (simp add: cascade_ops_def cascade_on_event_def demo_erasure_def dec Cascade_new_def mem_rows_ops_def demo_erase_def
        signing_shredder_ops_def default_shred_with_regions_def bnd_def ret_def sh mem_tombstone_def Let_def)
  have 6: "demo_erasure \<in> set (fst (run_router ?P [CPromote, CDispatch demo_erasure (ProjectionContext_new 7 1)] ([], start_router ?P [?c])))"
    using ev by (auto simp: run_router_def start_router_def register_def ProjectionRouter_new_def promote_to_active_def transition_def
        dispatch_event_def stream_check_def already_applied_def index_push_def cascade_ops_def default_on_state_change_def ret_def
        Cascade_new_def cursor_last_applied_def demo_erasure_def)
  show ?thesis
    using erasure_request_attested[OF demo_pc_ok(9) 1 2 3 4 5 refl surjective_pairing 6]
    by (auto simp: demo_erasure_def demo_erase_def Let_def)
qed

end
